(* ===== verification/Prelude.thy ===== *)
theory Prelude
  imports Main
begin

section \<open>Shared vocabulary\<close>

text \<open>
  What every component of the development uses: the collections the proofs are fed from, the
  Python string operations the sources call, and the one shape all database writes have.

  Python strings are modelled as \<^typ>\<open>string\<close> over ASCII code points: \<open>strip\<close>, \<open>upper\<close> and
  \<open>lower\<close> treat the ASCII characters as Python does and leave the others alone. Times are
  \<^typ>\<open>int\<close>, in microseconds since the epoch (the resolution of \<open>datetime\<close>); a naive value read
  back from SQLite and an aware one read from PostgreSQL are the same number, which is what
  \<open>_as_utc\<close> establishes in the code.
\<close>

named_theorems table_simps \<open>how a guarded UPDATE changes a table\<close>
named_theorems text_simps \<open>string operations on their normal forms\<close>

text \<open>The values \<open>json.loads\<close> yields; an object keeps its keys in document order.\<close>

datatype json = JNull | JBool bool | JInt int | JStr string | JList "json list"
  | JObj "(string \<times> json) list"

type_synonym timestamp = int

abbreviation seconds :: "int \<Rightarrow> timestamp" where
  "seconds n \<equiv> n * 1000000"

subsection \<open>Python strings\<close>

definition py_isspace :: "char \<Rightarrow> bool" where
  "py_isspace c \<longleftrightarrow> (let n = of_char c :: nat in 9 \<le> n \<and> n \<le> 13 \<or> 28 \<le> n \<and> n \<le> 32)"

definition py_lstrip :: "string \<Rightarrow> string" where
  "py_lstrip s = dropWhile py_isspace s"

definition py_rstrip :: "string \<Rightarrow> string" where
  "py_rstrip s = rev (dropWhile py_isspace (rev s))"

definition py_strip :: "string \<Rightarrow> string" where
  "py_strip s = py_rstrip (py_lstrip s)"

definition rstrip_char :: "char \<Rightarrow> string \<Rightarrow> string" where
  "rstrip_char c s = rev (dropWhile (\<lambda>d. d = c) (rev s))"

definition lstrip_char :: "char \<Rightarrow> string \<Rightarrow> string" where
  "lstrip_char c s = dropWhile (\<lambda>d. d = c) s"

definition strip_char :: "char \<Rightarrow> string \<Rightarrow> string" where
  "strip_char c s = rstrip_char c (lstrip_char c s)"

definition upper_char :: "char \<Rightarrow> char" where
  "upper_char c = (let n = of_char c :: nat in if 97 \<le> n \<and> n \<le> 122 then char_of (n - 32) else c)"

definition lower_char :: "char \<Rightarrow> char" where
  "lower_char c = (let n = of_char c :: nat in if 65 \<le> n \<and> n \<le> 90 then char_of (n + 32) else c)"

definition py_upper :: "string \<Rightarrow> string" where
  "py_upper s = map upper_char s"

definition py_lower :: "string \<Rightarrow> string" where
  "py_lower s = map lower_char s"

definition startswith :: "string \<Rightarrow> string \<Rightarrow> bool" where
  "startswith s p \<longleftrightarrow> take (length p) s = p"

definition endswith :: "string \<Rightarrow> string \<Rightarrow> bool" where
  "endswith s p \<longleftrightarrow> length p \<le> length s \<and> drop (length s - length p) s = p"

definition remove_char :: "char \<Rightarrow> string \<Rightarrow> string" where
  "remove_char c s = filter (\<lambda>d. d \<noteq> c) s"

definition replace_char :: "char \<Rightarrow> char \<Rightarrow> string \<Rightarrow> string" where
  "replace_char c e s = map (\<lambda>d. if d = c then e else d) s"

definition is_digit :: "char \<Rightarrow> bool" where
  "is_digit c \<longleftrightarrow> (let n = of_char c :: nat in 48 \<le> n \<and> n \<le> 57)"

definition is_alpha :: "char \<Rightarrow> bool" where
  "is_alpha c \<longleftrightarrow> (let n = of_char c :: nat in 65 \<le> n \<and> n \<le> 90 \<or> 97 \<le> n \<and> n \<le> 122)"

text \<open>\<open>s.splitlines()\<close>, with every line boundary below code point 256.\<close>

definition is_linebreak :: "char \<Rightarrow> bool" where
  "is_linebreak c \<longleftrightarrow> (let n = of_char c :: nat in 10 \<le> n \<and> n \<le> 13 \<or> 28 \<le> n \<and> n \<le> 30 \<or> n = 133)"

fun lines_from :: "string \<Rightarrow> string \<Rightarrow> string list" where
  "lines_from acc [] = (if acc = [] then [] else [rev acc])"
| "lines_from acc (c # s) =
     (if c = CHR 0x0D \<and> s \<noteq> [] \<and> hd s = CHR 0x0A then rev acc # lines_from [] (tl s)
      else if is_linebreak c then rev acc # lines_from [] s
      else lines_from (c # acc) s)"

definition splitlines :: "string \<Rightarrow> string list" where
  "splitlines s = lines_from [] s"

text \<open>\<open>s.split(c)\<close>: always at least one field, possibly empty ones.\<close>

fun split_on :: "char \<Rightarrow> string \<Rightarrow> string list" where
  "split_on c [] = [[]]"
| "split_on c (d # s) =
     (if d = c then [] # split_on c s
      else (case split_on c s of [] \<Rightarrow> [[d]] | w # ws \<Rightarrow> (d # w) # ws))"

fun join :: "string \<Rightarrow> string list \<Rightarrow> string" where
  "join sep [] = []"
| "join sep [w] = w"
| "join sep (w # ws) = w @ sep @ join sep ws"

definition digit_char :: "nat \<Rightarrow> char" where
  "digit_char d = char_of (48 + d)"

lemma digit_char_simps [text_simps]:
  "digit_char 0 = CHR ''0''" "digit_char 1 = CHR ''1''" "digit_char (Suc 0) = CHR ''1''"
  "digit_char 2 = CHR ''2''" "digit_char 3 = CHR ''3''" "digit_char 4 = CHR ''4''"
  "digit_char 5 = CHR ''5''" "digit_char 6 = CHR ''6''" "digit_char 7 = CHR ''7''"
  "digit_char 8 = CHR ''8''" "digit_char 9 = CHR ''9''"
  by code_simp+

fun str_of_nat :: "nat \<Rightarrow> string" where
  "str_of_nat n = (if n < 10 then [digit_char n] else str_of_nat (n div 10) @ [digit_char (n mod 10)])"

declare str_of_nat.simps [simp del]

definition str_of_int :: "int \<Rightarrow> string" where
  "str_of_int i = (if i < 0 then CHR ''-'' # str_of_nat (nat (- i)) else str_of_nat (nat i))"

text \<open>\<open>repr\<close> of a string with no quote or backslash in it, and of a tuple of at least two.\<close>

definition repr_str :: "string \<Rightarrow> string" where
  "repr_str s = CHR 0x27 # s @ [CHR 0x27]"

definition repr_tuple :: "string list \<Rightarrow> string" where
  "repr_tuple ws = ''('' @ join '', '' (map repr_str ws) @ '')''"

text \<open>\<open>x or y\<close> on strings: the empty string is falsy; on optional strings \<open>None\<close> is too.\<close>

definition or_str :: "string \<Rightarrow> string \<Rightarrow> string" where
  "or_str s t = (if s = [] then t else s)"

definition opt_str :: "string option \<Rightarrow> string" where
  "opt_str s = (case s of None \<Rightarrow> [] | Some t \<Rightarrow> t)"

text \<open>Errors as values: what follows a step that may raise.\<close>

definition and_then :: "'e + 'a \<Rightarrow> ('a \<Rightarrow> 'e + 'b) \<Rightarrow> 'e + 'b" where
  "and_then r f = (case r of Inl e \<Rightarrow> Inl e | Inr x \<Rightarrow> f x)"

lemma and_then_simps [simp]: "and_then (Inl e) f = Inl e" "and_then (Inr x) f = f x"
  by (simp_all add: and_then_def)

lemma and_then_Inr: "and_then r f = Inr y \<longleftrightarrow> (\<exists>x. r = Inr x \<and> f x = Inr y)"
  by (cases r) auto

lemma dropWhile_idem: "dropWhile P (dropWhile P xs) = dropWhile P xs"
  by (induction xs) auto

lemma py_lstrip_hd: "py_lstrip s = c # t \<Longrightarrow> \<not> py_isspace c"
  by (metis hd_dropWhile list.distinct(1) list.sel(1) py_lstrip_def)

lemma py_rstrip_last: "py_rstrip s \<noteq> [] \<Longrightarrow> \<not> py_isspace (last (py_rstrip s))"
  unfolding py_rstrip_def by (metis hd_dropWhile last_rev rev_is_Nil_conv)

lemma py_lstrip_fix: "s = [] \<or> \<not> py_isspace (hd s) \<Longrightarrow> py_lstrip s = s"
  by (cases s) (auto simp: py_lstrip_def)

lemma py_rstrip_fix: "s = [] \<or> \<not> py_isspace (last s) \<Longrightarrow> py_rstrip s = s"
  by (cases s rule: rev_cases) (auto simp: py_rstrip_def)

lemma py_strip_fix [text_simps]:
  "s = [] \<or> \<not> py_isspace (hd s) \<and> \<not> py_isspace (last s) \<Longrightarrow> py_strip s = s"
  unfolding py_strip_def by (metis py_lstrip_fix py_rstrip_fix)

lemma py_rstrip_prefix: "\<exists>t. s = py_rstrip s @ t"
proof -
  have "rev s = takeWhile py_isspace (rev s) @ dropWhile py_isspace (rev s)"
    by simp
  then have "s = rev (dropWhile py_isspace (rev s)) @ rev (takeWhile py_isspace (rev s))"
    by (metis rev_append rev_rev_ident)
  then show ?thesis unfolding py_rstrip_def by blast
qed

lemma py_strip_idem: "py_strip (py_strip s) = py_strip s"
proof (rule py_strip_fix, cases "py_strip s = []")
  case False
  obtain t where t: "py_lstrip s = py_strip s @ t"
    using py_rstrip_prefix [of "py_lstrip s"] by (auto simp: py_strip_def)
  from False have "hd (py_strip s) = hd (py_lstrip s)" and ne: "py_lstrip s \<noteq> []"
    using t by auto
  then have "\<not> py_isspace (hd (py_strip s))"
    by (metis list.exhaust_sel py_lstrip_hd)
  moreover have "\<not> py_isspace (last (py_strip s))"
    using False by (simp add: py_strip_def py_rstrip_last)
  ultimately show "py_strip s = [] \<or> \<not> py_isspace (hd (py_strip s)) \<and> \<not> py_isspace (last (py_strip s))"
    by blast
qed simp

lemma length_py_upper [simp]: "length (py_upper s) = length s"
  by (simp add: py_upper_def)

lemma startswith_append [simp]: "startswith (p @ s) p"
  by (simp add: startswith_def)

lemma startswithE: "startswith s p \<Longrightarrow> (\<And>t. s = p @ t \<Longrightarrow> thesis) \<Longrightarrow> thesis"
  unfolding startswith_def by (metis append_take_drop_id)

lemma join_Cons: "ws \<noteq> [] \<Longrightarrow> join sep (w # ws) = w @ sep @ join sep ws"
  by (cases ws) auto

lemma split_on_nonempty [simp]: "split_on c s \<noteq> []"
  by (induction s) (auto split: list.splits)

lemma join_split_on [text_simps]: "join [c] (split_on c s) = s"
proof (induction s)
  case (Cons d s)
  then show ?case
    by (cases "split_on c s") (auto simp: join_Cons split: list.splits, (case_tac list; simp)+)
qed simp

lemma find_SomeD: "find P xs = Some x \<Longrightarrow> x \<in> set xs \<and> P x"
  by (induction xs) (auto split: if_splits)

lemma find_eq: "x \<in> set xs \<Longrightarrow> find (\<lambda>y. y = x) xs = Some x"
  by (induction xs) auto

subsection \<open>Rows and guarded updates\<close>

text \<open>
  \<open>UPDATE t SET \<dots> WHERE p\<close> together with its \<open>rowcount\<close>, and \<open>SELECT count(*) \<dots> WHERE p\<close>.
  A table is the list of its rows in insertion order.
\<close>

definition update_where :: "('r \<Rightarrow> bool) \<Rightarrow> ('r \<Rightarrow> 'r) \<Rightarrow> 'r list \<Rightarrow> 'r list \<times> nat" where
  "update_where p f rs = (map (\<lambda>r. if p r then f r else r) rs, length (filter p rs))"

definition count_where :: "('r \<Rightarrow> bool) \<Rightarrow> 'r list \<Rightarrow> nat" where
  "count_where p rs = length (filter p rs)"

lemma count_where_Nil [simp]: "count_where p [] = 0"
  by (simp add: count_where_def)

lemma count_where_Cons [simp]:
  "count_where p (r # rs) = (if p r then Suc (count_where p rs) else count_where p rs)"
  by (simp add: count_where_def)

lemma count_where_append [simp]: "count_where p (rs @ ss) = count_where p rs + count_where p ss"
  by (simp add: count_where_def)

lemma count_where_zero: "count_where p rs = 0 \<longleftrightarrow> (\<forall>r \<in> set rs. \<not> p r)"
  by (induction rs) auto

lemma count_where_mono: "(\<And>r. r \<in> set rs \<Longrightarrow> p r \<Longrightarrow> q r) \<Longrightarrow> count_where p rs \<le> count_where q rs"
  by (induction rs) (auto simp: le_SucI)

lemma count_where_map_le:
  "(\<And>r. r \<in> set rs \<Longrightarrow> p (f r) \<Longrightarrow> p r) \<Longrightarrow> count_where p (map f rs) \<le> count_where p rs"
  by (induction rs) (auto simp: le_SucI)

lemma fst_update_where [table_simps]:
  "fst (update_where p f rs) = map (\<lambda>r. if p r then f r else r) rs"
  by (simp add: update_where_def)

lemma snd_update_where [table_simps]: "snd (update_where p f rs) = count_where p rs"
  by (simp add: update_where_def count_where_def)

lemma update_where_none:
  "snd (update_where p f rs) = 0 \<Longrightarrow> fst (update_where p f rs) = rs"
  unfolding table_simps count_where_zero by (rule map_idI) auto

text \<open>
  The contract every state transition of a table shares: where its guard holds, it keeps the
  row's key and owner, keeps the row well-formed and never makes a row busy that was not.
  What follows for the whole table is proved once, here.
\<close>

locale row_transition =
  fixes guard :: "'r \<Rightarrow> bool"
    and upd :: "'r \<Rightarrow> 'r"
    and key :: "'r \<Rightarrow> 'k"
    and owner :: "'r \<Rightarrow> 'o"
    and busy :: "'r \<Rightarrow> bool"
    and ok :: "'r \<Rightarrow> bool"
  assumes keeps_key: "guard r \<Longrightarrow> key (upd r) = key r"
    and keeps_owner: "guard r \<Longrightarrow> owner (upd r) = owner r"
    and keeps_ok: "guard r \<Longrightarrow> ok r \<Longrightarrow> ok (upd r)"
    and never_occupies: "guard r \<Longrightarrow> busy (upd r) \<Longrightarrow> busy r"
begin

lemma keys_update: "map key (fst (update_where guard upd rs)) = map key rs"
  by (simp add: fst_update_where keeps_key comp_def)

lemma ok_update: "list_all ok rs \<Longrightarrow> list_all ok (fst (update_where guard upd rs))"
  by (auto simp: fst_update_where list_all_iff keeps_ok)

lemma busy_update:
  "count_where (\<lambda>r. owner r = x \<and> busy r) (fst (update_where guard upd rs))
   \<le> count_where (\<lambda>r. owner r = x \<and> busy r) rs"
  unfolding fst_update_where
  by (rule count_where_map_le) (auto simp: keeps_owner never_occupies split: if_splits)

end

end
