(* ===== verification/TaskQueue.thy ===== *)
theory TaskQueue
  imports Prelude
begin

section \<open>The task queue\<close>

text \<open>
  \<open>backend/services/agent_queue.py\<close>: the \<open>agent_tasks\<close> table, the operations of \<open>AgentQueue\<close>
  on it and the repository runners whose configuration bounds it (both tables are declared in
  \<open>backend/models/agent_hub.py\<close>). Every operation commits one transaction, so it is one function
  from the database to the database; the clock readings it makes are its arguments. SQLite
  serialises claiming transactions outright; PostgreSQL skips the rows other transactions hold
  locked, and those rows are the argument \<open>locked\<close>. Where SQL leaves the order of equal rows
  open the model takes insertion order.
\<close>

subsection \<open>Tables\<close>

datatype task_status = Queued | Leased | Running | Done | Failed | Dead

definition TASK_STATUS :: "task_status list" where
  "TASK_STATUS = [Queued, Leased, Running, Done, Failed, Dead]"

definition TASK_KIND :: "string list" where
  "TASK_KIND = [''review'', ''fix'', ''checks'', ''import'', ''backfill'']"

definition ACTIVE_TASK_STATUSES :: "task_status list" where
  "ACTIVE_TASK_STATUSES = [Queued, Leased, Running]"

definition RUNNING_TASK_STATUSES :: "task_status list" where
  "RUNNING_TASK_STATUSES = [Leased, Running]"

fun status_text :: "task_status \<Rightarrow> string" where
  "status_text Queued = ''queued''"
| "status_text Leased = ''leased''"
| "status_text Running = ''running''"
| "status_text Done = ''done''"
| "status_text Failed = ''failed''"
| "status_text Dead = ''dead''"

record agent_task =
  task_id :: int
  task_repo :: int
  task_runner :: "int option"
  task_kind :: string
  task_status :: task_status
  task_payload :: "(string \<times> json) list"
  leased_by :: string
  lease_until :: "timestamp option"
  scheduled_at :: "timestamp option"
  attempts :: nat
  max_attempts :: int
  dedup_key :: "string option"
  priority :: int
  result_ref :: "string option"
  pr_url :: "string option"
  task_error :: "string option"
  created_at :: timestamp
  started_at :: "timestamp option"
  finished_at :: "timestamp option"

record repo_runner =
  runner_id :: int
  runner_repo :: int
  runner_enabled :: bool
  max_concurrency :: int

record queue_db =
  tasks :: "agent_task list"
  runners :: "repo_runner list"
  repos :: "int list"
  next_task_id :: int

datatype dialect = Sqlite | Postgresql

datatype queue_error = ValueError string | IntegrityError | OverflowError

subsection \<open>Values exchanged with callers\<close>

record lease =
  lease_task :: int
  lease_worker :: string
  expires_at :: timestamp
  lease_attempts :: nat

definition lease_is_expired :: "lease \<Rightarrow> timestamp \<Rightarrow> bool" where
  "lease_is_expired l now \<longleftrightarrow> now \<ge> expires_at l"

record claimed_task =
  claimed_id :: int
  claimed_repo :: int
  claimed_kind :: string
  claimed_payload :: "(string \<times> json) list"
  claimed_attempts :: nat
  claimed_max_attempts :: int
  claimed_priority :: int
  claimed_lease :: lease
  claimed_runner :: "int option"

record reclaim_outcome =
  outcome_task :: int
  previous_status :: task_status
  outcome_status :: task_status
  outcome_attempts :: nat
  outcome_reason :: string

definition report_retried :: "reclaim_outcome list \<Rightarrow> reclaim_outcome list" where
  "report_retried rep = filter (\<lambda>x. outcome_status x = Queued) rep"

definition report_dead :: "reclaim_outcome list \<Rightarrow> reclaim_outcome list" where
  "report_dead rep = filter (\<lambda>x. outcome_status x = Dead) rep"

record queue_stats =
  by_status :: "(task_status \<times> nat) list"
  ready :: nat
  expired :: nat

subsection \<open>Configuration and SQL predicates\<close>

record agent_queue =
  queue_dialect :: dialect
  lease_seconds :: timestamp
  heartbeat_seconds :: timestamp

definition make_queue :: "dialect \<Rightarrow> timestamp \<Rightarrow> timestamp \<Rightarrow> queue_error + agent_queue" where
  "make_queue d lease_for beat =
     (if beat \<ge> lease_for
      then Inl (ValueError (''heartbeat_seconds must be shorter than lease_seconds, or every ''
             @ ''task is reclaimed while it is still running''))
      else Inr \<lparr>queue_dialect = d, lease_seconds = lease_for, heartbeat_seconds = beat\<rparr>)"

definition DEFAULT_LEASE_SECONDS :: timestamp where "DEFAULT_LEASE_SECONDS = seconds 60"
definition DEFAULT_HEARTBEAT_SECONDS :: timestamp where "DEFAULT_HEARTBEAT_SECONDS = seconds 15"

definition configured_max_in_flight_per_repo :: "int \<Rightarrow> int" where
  "configured_max_in_flight_per_repo setting = max 0 setting"

definition runner_runnable :: "repo_runner list \<Rightarrow> int \<Rightarrow> bool" where
  "runner_runnable rs repo \<longleftrightarrow> \<not> list_ex (\<lambda>r. runner_repo r = repo \<and> \<not> runner_enabled r) rs"

definition in_flight :: "agent_task list \<Rightarrow> int \<Rightarrow> nat" where
  "in_flight ts repo =
     count_where (\<lambda>t. task_repo t = repo \<and> task_status t \<in> set RUNNING_TASK_STATUSES) ts"

definition runner_ceiling :: "repo_runner list \<Rightarrow> int \<Rightarrow> int" where
  "runner_ceiling rs repo =
     (case find (\<lambda>r. runner_repo r = repo) rs of None \<Rightarrow> 0 | Some r \<Rightarrow> max_concurrency r)"

definition runner_ceiling_available :: "repo_runner list \<Rightarrow> agent_task list \<Rightarrow> int \<Rightarrow> bool" where
  "runner_ceiling_available rs ts repo \<longleftrightarrow>
     \<not> (runner_ceiling rs repo > 0 \<and> int (in_flight ts repo) \<ge> runner_ceiling rs repo)"

definition visible_to :: "dialect \<Rightarrow> int list \<Rightarrow> agent_task \<Rightarrow> bool" where
  "visible_to d locked t \<longleftrightarrow> d = Postgresql \<longrightarrow> task_id t \<notin> set locked"

definition due_now :: "timestamp \<Rightarrow> agent_task \<Rightarrow> bool" where
  "due_now now t \<longleftrightarrow> (case scheduled_at t of None \<Rightarrow> True | Some s \<Rightarrow> s \<le> now)"

definition claimable :: "queue_db \<Rightarrow> timestamp \<Rightarrow> agent_task \<Rightarrow> bool" where
  "claimable db now t \<longleftrightarrow> task_status t = Queued \<and> due_now now t
     \<and> runner_runnable (runners db) (task_repo t)
     \<and> runner_ceiling_available (runners db) (tasks db) (task_repo t)"

text \<open>\<open>ORDER BY priority DESC, created_at ASC LIMIT 1\<close>.\<close>

definition before :: "agent_task \<Rightarrow> agent_task \<Rightarrow> bool" where
  "before t u \<longleftrightarrow> priority t > priority u \<or> priority t = priority u \<and> created_at t < created_at u"

fun first_by_order :: "agent_task list \<Rightarrow> agent_task option" where
  "first_by_order [] = None"
| "first_by_order (t # ts) =
     (case first_by_order ts of None \<Rightarrow> Some t | Some u \<Rightarrow> if before u t then Some u else Some t)"

subsection \<open>Producer\<close>

record enqueue_request =
  req_repo :: int
  req_kind :: string
  req_payload :: "(string \<times> json) list option"
  req_priority :: int
  req_max_attempts :: int
  req_scheduled_at :: "timestamp option"
  req_dedup_key :: "string option"
  req_max_in_flight :: "int option"

definition duplicate_of :: "int \<Rightarrow> string \<Rightarrow> string \<Rightarrow> agent_task \<Rightarrow> bool" where
  "duplicate_of repo kind key t \<longleftrightarrow> task_repo t = repo \<and> task_kind t = kind
     \<and> dedup_key t = Some key \<and> task_status t \<in> set ACTIVE_TASK_STATUSES"

definition active_count :: "agent_task list \<Rightarrow> int \<Rightarrow> nat" where
  "active_count ts repo =
     count_where (\<lambda>t. task_repo t = repo \<and> task_status t \<in> set ACTIVE_TASK_STATUSES) ts"

definition enqueue_ceiling :: "int \<Rightarrow> repo_runner option \<Rightarrow> int option \<Rightarrow> int" where
  "enqueue_ceiling setting runner explicit =
     (case explicit of Some c \<Rightarrow> c
      | None \<Rightarrow> (case runner of
          Some r \<Rightarrow> if max_concurrency r > 0 then max_concurrency r
                    else configured_max_in_flight_per_repo setting
        | None \<Rightarrow> configured_max_in_flight_per_repo setting))"

definition new_task :: "queue_db \<Rightarrow> enqueue_request \<Rightarrow> repo_runner option \<Rightarrow> string \<Rightarrow> timestamp
    \<Rightarrow> timestamp \<Rightarrow> agent_task" where
  "new_task db r runner key now created =
     \<lparr>task_id = next_task_id db, task_repo = req_repo r,
      task_runner = map_option runner_id runner, task_kind = req_kind r, task_status = Queued,
      task_payload = (case req_payload r of None \<Rightarrow> [] | Some p \<Rightarrow> p),
      leased_by = '''', lease_until = None,
      scheduled_at = Some (case req_scheduled_at r of None \<Rightarrow> now | Some s \<Rightarrow> s),
      attempts = 0, max_attempts = req_max_attempts r,
      dedup_key = (if key = [] then None else Some key), priority = req_priority r,
      result_ref = None, pr_url = None, task_error = None,
      created_at = created, started_at = None, finished_at = None\<rparr>"

text \<open>
  \<open>setting\<close> is \<open>settings.agent.max_in_flight_per_repo\<close>. The result is the id handed back, 0 for
  a suppressed task; a repository that does not exist breaks the foreign key.
\<close>

definition enqueue :: "int \<Rightarrow> queue_db \<Rightarrow> enqueue_request \<Rightarrow> timestamp \<Rightarrow> timestamp
    \<Rightarrow> queue_error + int \<times> queue_db" where
  "enqueue setting db r now created =
     (if req_kind r \<notin> set TASK_KIND then Inl (ValueError
       (''unknown task kind '' @ req_kind r @ ''; expected one of '' @ repr_tuple TASK_KIND))
      else if req_max_attempts r < 1 then Inl (ValueError ''max_attempts must be at least 1'')
      else
        let key = py_strip (opt_str (req_dedup_key r));
            runner = find (\<lambda>u. runner_repo u = req_repo r) (runners db);
            ceiling = enqueue_ceiling setting runner (req_max_in_flight r)
        in if key \<noteq> [] \<and> list_ex (duplicate_of (req_repo r) (req_kind r) key) (tasks db)
           then Inr (0, db)
           else if ceiling > 0 \<and> int (active_count (tasks db) (req_repo r)) \<ge> ceiling
           then Inr (0, db)
           else if req_repo r \<notin> set (repos db) then Inl IntegrityError
           else Inr (next_task_id db,
                     db\<lparr>tasks := tasks db @ [new_task db r runner key now created],
                        next_task_id := next_task_id db + 1\<rparr>))"

subsection \<open>Consumer\<close>

definition is_task :: "int \<Rightarrow> agent_task \<Rightarrow> bool" where
  "is_task i t \<longleftrightarrow> task_id t = i"

definition take_lease :: "string \<Rightarrow> timestamp \<Rightarrow> timestamp \<Rightarrow> agent_task \<Rightarrow> agent_task" where
  "take_lease worker expires now t =
     t\<lparr>task_status := Leased, leased_by := worker, lease_until := Some expires, started_at := Some now\<rparr>"

definition claimed_of :: "agent_task \<Rightarrow> string \<Rightarrow> timestamp \<Rightarrow> claimed_task" where
  "claimed_of t worker expires =
     \<lparr>claimed_id = task_id t, claimed_repo = task_repo t, claimed_kind = task_kind t,
      claimed_payload = task_payload t, claimed_attempts = attempts t,
      claimed_max_attempts = max_attempts t, claimed_priority = priority t,
      claimed_lease = \<lparr>lease_task = task_id t, lease_worker = worker, expires_at = expires,
                       lease_attempts = attempts t\<rparr>,
      claimed_runner = task_runner t\<rparr>"

definition claim_candidates :: "agent_queue \<Rightarrow> int list \<Rightarrow> queue_db \<Rightarrow> timestamp \<Rightarrow> agent_task list" where
  "claim_candidates q locked db now =
     filter (\<lambda>t. claimable db now t \<and> visible_to (queue_dialect q) locked t) (tasks db)"

definition claim :: "agent_queue \<Rightarrow> int list \<Rightarrow> queue_db \<Rightarrow> string \<Rightarrow> timestamp option \<Rightarrow> timestamp
    \<Rightarrow> claimed_task option \<times> queue_db" where
  "claim q locked db worker lease_for now =
     (let expires = now + (case lease_for of None \<Rightarrow> lease_seconds q | Some d \<Rightarrow> d)
      in case first_by_order (claim_candidates q locked db now) of
           None \<Rightarrow> (None, db)
         | Some t \<Rightarrow>
             (Some (claimed_of t worker expires),
              db\<lparr>tasks := fst (update_where (is_task (task_id t)) (take_lease worker expires now) (tasks db))\<rparr>))"

text \<open>
  The outcome methods write only where the lease still holds: the row is this task, this worker
  holds it and its status is one of \<open>expected\<close>.
\<close>

definition held :: "lease \<Rightarrow> task_status list \<Rightarrow> agent_task \<Rightarrow> bool" where
  "held l expected t \<longleftrightarrow> task_id t = lease_task l \<and> leased_by t = lease_worker l
     \<and> task_status t \<in> set expected"

definition update_tasks :: "(agent_task \<Rightarrow> bool) \<Rightarrow> (agent_task \<Rightarrow> agent_task) \<Rightarrow> queue_db \<Rightarrow> bool \<times> queue_db" where
  "update_tasks p f db =
     (let res = update_where p f (tasks db) in (snd res \<noteq> 0, db\<lparr>tasks := fst res\<rparr>))"

definition moved :: "task_status \<Rightarrow> bool \<Rightarrow> timestamp \<Rightarrow> agent_task \<Rightarrow> agent_task" where
  "moved st set_started now t =
     (if set_started then t\<lparr>task_status := st, started_at := Some now\<rparr> else t\<lparr>task_status := st\<rparr>)"

definition transition :: "queue_db \<Rightarrow> lease \<Rightarrow> task_status list \<Rightarrow> task_status \<Rightarrow> bool \<Rightarrow> timestamp
    \<Rightarrow> bool \<times> queue_db" where
  "transition db l expected st set_started now =
     update_tasks (held l expected) (moved st set_started now) db"

definition mark_running :: "queue_db \<Rightarrow> lease \<Rightarrow> timestamp \<Rightarrow> bool \<times> queue_db" where
  "mark_running db l now = transition db l [Leased] Running False now"

definition renewed :: "timestamp \<Rightarrow> agent_task \<Rightarrow> agent_task" where
  "renewed until t = t\<lparr>lease_until := Some until\<rparr>"

definition heartbeat :: "agent_queue \<Rightarrow> queue_db \<Rightarrow> lease \<Rightarrow> timestamp option \<Rightarrow> timestamp \<Rightarrow> bool \<times> queue_db" where
  "heartbeat q db l lease_for now =
     update_tasks (held l [Leased, Running])
       (renewed (now + (case lease_for of None \<Rightarrow> lease_seconds q | Some d \<Rightarrow> d))) db"

text \<open>The heartbeat thread of \<open>lease\<close>: one beat per instant, until one is refused.\<close>

fun beat_until_refused :: "agent_queue \<Rightarrow> queue_db \<Rightarrow> lease \<Rightarrow> timestamp list \<Rightarrow> queue_db" where
  "beat_until_refused q db l [] = db"
| "beat_until_refused q db l (now # later) =
     (let (alive, db') = heartbeat q db l None now
      in if alive then beat_until_refused q db' l later else db')"

definition finished :: "task_status \<Rightarrow> string option \<Rightarrow> string option \<Rightarrow> timestamp \<Rightarrow> agent_task \<Rightarrow> agent_task" where
  "finished st ref err now t =
     t\<lparr>task_status := st, result_ref := ref, task_error := err, leased_by := '''',
       lease_until := None, finished_at := Some now\<rparr>"

definition finish :: "queue_db \<Rightarrow> lease \<Rightarrow> task_status \<Rightarrow> string option \<Rightarrow> string option \<Rightarrow> timestamp
    \<Rightarrow> bool \<times> queue_db" where
  "finish db l st ref err now = update_tasks (held l [Leased, Running]) (finished st ref err now) db"

definition succeed :: "queue_db \<Rightarrow> lease \<Rightarrow> string option \<Rightarrow> timestamp \<Rightarrow> bool \<times> queue_db" where
  "succeed db l ref now = finish db l Done ref None now"

definition MAX_BACKOFF_SECONDS :: int where "MAX_BACKOFF_SECONDS = 900"
definition DEFAULT_BACKOFF_SECONDS :: int where "DEFAULT_BACKOFF_SECONDS = 30"

text \<open>
  \<open>min(900.0, 30.0 * 2 ** (attempts - 1))\<close>: the power is an \<open>int\<close>, and converting it to a
  float raises \<open>OverflowError\<close> from \<open>2 ** 1024\<close> on.
\<close>

definition backoff :: "nat \<Rightarrow> queue_error + timestamp" where
  "backoff n = (if n - 1 \<ge> 1024 then Inl OverflowError
     else Inr (seconds (min MAX_BACKOFF_SECONDS (DEFAULT_BACKOFF_SECONDS * 2 ^ (n - 1)))))"

datatype fail_outcome = Requeued | DeadLettered | Lost

definition failed_row :: "string \<Rightarrow> timestamp \<Rightarrow> agent_task \<Rightarrow> agent_task" where
  "failed_row err now t =
     t\<lparr>attempts := attempts t + 1, task_error := Some (take 2000 err), lease_until := None,
       leased_by := '''', finished_at := Some now\<rparr>"

definition dead_row :: "string \<Rightarrow> timestamp \<Rightarrow> agent_task \<Rightarrow> agent_task" where
  "dead_row err now t = (failed_row err now t)\<lparr>task_status := Dead\<rparr>"

definition requeued_row :: "string \<Rightarrow> timestamp \<Rightarrow> timestamp \<Rightarrow> agent_task \<Rightarrow> agent_task" where
  "requeued_row err now delay t =
     (failed_row err now t)\<lparr>task_status := Queued, scheduled_at := Some (now + delay)\<rparr>"

definition fail :: "queue_db \<Rightarrow> lease \<Rightarrow> string \<Rightarrow> timestamp \<Rightarrow> queue_error + fail_outcome \<times> queue_db" where
  "fail db l err now =
     (case find (held l [Leased, Running]) (tasks db) of
        None \<Rightarrow> Inr (Lost, db)
      | Some t \<Rightarrow>
          if int (attempts t + 1) \<ge> max_attempts t
          then Inr (DeadLettered, snd (update_tasks (is_task (task_id t))
                 (dead_row err now) db))
          else (case backoff (attempts t + 1) of
                  Inl e \<Rightarrow> Inl e
                | Inr d \<Rightarrow> Inr (Requeued, snd (update_tasks (is_task (task_id t))
                    (requeued_row err now d) db))))"

text \<open>
  The call reads the row without a lock and flushes what it computed from it in an \<open>UPDATE\<close> by the primary key alone:
  the two halves of \<open>fail\<close>, between which other processes may write.
\<close>

definition fail_read :: "queue_db \<Rightarrow> lease \<Rightarrow> agent_task option" where
  "fail_read db l = find (held l [Leased, Running]) (tasks db)"

definition flushed_row :: "agent_task \<Rightarrow> agent_task \<Rightarrow> agent_task" where
  "flushed_row r t =
     t\<lparr>attempts := attempts r, task_error := task_error r, lease_until := lease_until r, leased_by := leased_by r,
       finished_at := finished_at r, task_status := task_status r, scheduled_at := scheduled_at r\<rparr>"

definition fail_write :: "agent_task \<Rightarrow> string \<Rightarrow> timestamp \<Rightarrow> queue_db \<Rightarrow> queue_error + fail_outcome \<times> queue_db" where
  "fail_write t err now db =
     (if int (attempts t + 1) \<ge> max_attempts t
      then Inr (DeadLettered, snd (update_tasks (is_task (task_id t))
             (\<lambda>u. (flushed_row (dead_row err now t) u)\<lparr>scheduled_at := scheduled_at u\<rparr>) db))
      else (case backoff (attempts t + 1) of
              Inl e \<Rightarrow> Inl e
            | Inr d \<Rightarrow> Inr (Requeued, snd (update_tasks (is_task (task_id t)) (flushed_row (requeued_row err now d t)) db))))"

subsection \<open>Recovery\<close>

definition lease_expired :: "timestamp \<Rightarrow> agent_task \<Rightarrow> bool" where
  "lease_expired moment t \<longleftrightarrow> task_status t \<in> {Leased, Running}
     \<and> (case lease_until t of None \<Rightarrow> False | Some u \<Rightarrow> u < moment)"

definition reclaim_reason :: "agent_task \<Rightarrow> string" where
  "reclaim_reason t = ''lease expired while '' @ status_text (task_status t) @ '' (held by ''
     @ or_str (leased_by t) ''unknown'' @ ''); reclaimed''"

definition reclaimed_row :: "timestamp \<Rightarrow> agent_task \<Rightarrow> agent_task" where
  "reclaimed_row moment t =
     (let u = t\<lparr>attempts := attempts t + 1, task_error := Some (reclaim_reason t),
                leased_by := '''', lease_until := None, scheduled_at := Some moment\<rparr>
      in if int (attempts t + 1) \<ge> max_attempts t
         then u\<lparr>task_status := Dead, finished_at := Some moment\<rparr>
         else u\<lparr>task_status := Queued\<rparr>)"

definition reclaim_outcome_of :: "timestamp \<Rightarrow> agent_task \<Rightarrow> reclaim_outcome" where
  "reclaim_outcome_of moment t =
     (let u = reclaimed_row moment t in
      \<lparr>outcome_task = task_id t, previous_status = task_status t, outcome_status = task_status u,
       outcome_attempts = attempts u, outcome_reason = reclaim_reason t\<rparr>)"

definition abandoned :: "agent_queue \<Rightarrow> int list \<Rightarrow> timestamp \<Rightarrow> agent_task \<Rightarrow> bool" where
  "abandoned q locked moment t \<longleftrightarrow> lease_expired moment t \<and> visible_to (queue_dialect q) locked t"

definition deadline :: "agent_task \<Rightarrow> timestamp" where
  "deadline t = (case lease_until t of None \<Rightarrow> 0 | Some u \<Rightarrow> u)"

definition reclaim_expired :: "agent_queue \<Rightarrow> int list \<Rightarrow> queue_db \<Rightarrow> timestamp
    \<Rightarrow> reclaim_outcome list \<times> queue_db" where
  "reclaim_expired q locked db moment =
     (map (reclaim_outcome_of moment) (sort_key deadline (filter (abandoned q locked moment) (tasks db))),
      snd (update_tasks (abandoned q locked moment) (reclaimed_row moment) db))"

subsection \<open>Operator actions and introspection\<close>

definition retryable :: "int \<Rightarrow> agent_task \<Rightarrow> bool" where
  "retryable i t \<longleftrightarrow> is_task i t \<and> task_status t \<in> {Failed, Dead}"

definition retried_row :: "string \<Rightarrow> timestamp \<Rightarrow> agent_task \<Rightarrow> agent_task" where
  "retried_row reason now t =
     t\<lparr>task_status := Queued, attempts := 0, leased_by := '''', lease_until := None,
       scheduled_at := Some now, finished_at := None, result_ref := None,
       task_error := Some (''requeued: '' @ reason)\<rparr>"

definition retry :: "queue_db \<Rightarrow> int \<Rightarrow> string \<Rightarrow> timestamp \<Rightarrow> bool \<times> queue_db" where
  "retry db i reason now = update_tasks (retryable i) (retried_row reason now) db"

definition cancellable :: "int \<Rightarrow> agent_task \<Rightarrow> bool" where
  "cancellable i t \<longleftrightarrow> is_task i t \<and> task_status t \<in> {Queued, Leased, Running}"

definition cancelled_row :: "string \<Rightarrow> timestamp \<Rightarrow> agent_task \<Rightarrow> agent_task" where
  "cancelled_row reason now t =
     t\<lparr>task_status := Dead, leased_by := '''', lease_until := None, finished_at := Some now,
       task_error := Some (''cancelled: '' @ reason)\<rparr>"

definition cancel :: "queue_db \<Rightarrow> int \<Rightarrow> string \<Rightarrow> timestamp \<Rightarrow> bool \<times> queue_db" where
  "cancel db i reason now = update_tasks (cancellable i) (cancelled_row reason now) db"

definition get_task :: "queue_db \<Rightarrow> int \<Rightarrow> agent_task option" where
  "get_task db i = find (is_task i) (tasks db)"

definition stats :: "queue_db \<Rightarrow> timestamp \<Rightarrow> queue_stats" where
  "stats db moment =
     \<lparr>by_status = map (\<lambda>s. (s, count_where (\<lambda>t. task_status t = s) (tasks db))) TASK_STATUS,
      ready = count_where (\<lambda>t. task_status t = Queued \<and> due_now moment t
                \<and> runner_runnable (runners db) (task_repo t)) (tasks db),
      expired = count_where (lease_expired moment) (tasks db)\<rparr>"

end
