(* ===== verification/TaskQueueInv.thy ===== *)
theory TaskQueueInv
  imports TaskQueue
begin

section \<open>Invariants of the task queue\<close>

text \<open>
  The well-formedness of a task row, the contract all row transitions of the queue keep
  (\<open>task_transition\<close>, interpreted on every one of them), the step relation of the queue and the
  invariants of its reachable states.
\<close>

subsection \<open>Well-formed rows and tables\<close>

definition occupies_slot :: "agent_task \<Rightarrow> bool" where
  "occupies_slot t \<longleftrightarrow> task_status t \<in> set RUNNING_TASK_STATUSES"

definition lease_ok :: "agent_task \<Rightarrow> bool" where
  "lease_ok t \<longleftrightarrow> (if occupies_slot t then lease_until t \<noteq> None
                   else leased_by t = '''' \<and> lease_until t = None)"

definition attempts_ok :: "agent_task \<Rightarrow> bool" where
  "attempts_ok t \<longleftrightarrow> int (attempts t) \<le> max_attempts t \<and> 1 \<le> max_attempts t
     \<and> (task_status t \<in> set ACTIVE_TASK_STATUSES \<longrightarrow> int (attempts t) < max_attempts t)"

definition row_ok :: "agent_task \<Rightarrow> bool" where
  "row_ok t \<longleftrightarrow> lease_ok t \<and> attempts_ok t"

definition ids_ok :: "queue_db \<Rightarrow> bool" where
  "ids_ok db \<longleftrightarrow> distinct (map task_id (tasks db)) \<and> 1 \<le> next_task_id db
     \<and> list_all (\<lambda>i. 1 \<le> i \<and> i < next_task_id db) (map task_id (tasks db))"

definition queue_ok :: "queue_db \<Rightarrow> bool" where
  "queue_ok db \<longleftrightarrow> ids_ok db \<and> list_all row_ok (tasks db)"

definition ceilings_ok :: "queue_db \<Rightarrow> bool" where
  "ceilings_ok db \<longleftrightarrow> list_all (\<lambda>r. max_concurrency r > 0
     \<longrightarrow> int (in_flight (tasks db) (runner_repo r)) \<le> max_concurrency r) (runners db)"

lemmas row_defs = row_ok_def lease_ok_def attempts_ok_def occupies_slot_def
  RUNNING_TASK_STATUSES_def ACTIVE_TASK_STATUSES_def

lemma in_flight_eq: "in_flight ts repo = count_where (\<lambda>t. task_repo t = repo \<and> occupies_slot t) ts"
  by (simp add: in_flight_def occupies_slot_def)

lemma update_tasks_simps [table_simps]:
  "tasks (snd (update_tasks p f db)) = fst (update_where p f (tasks db))"
  "runners (snd (update_tasks p f db)) = runners db"
  "repos (snd (update_tasks p f db)) = repos db"
  "next_task_id (snd (update_tasks p f db)) = next_task_id db"
  "fst (update_tasks p f db) \<longleftrightarrow> count_where p (tasks db) \<noteq> 0"
  by (simp_all add: update_tasks_def Let_def snd_update_where)

lemma update_tasks_rejected: "\<not> fst (update_tasks p f db) \<Longrightarrow> snd (update_tasks p f db) = db"
  by (simp add: update_tasks_def Let_def update_where_none)

lemma update_only:
  assumes "distinct (map task_id ts)" and "t \<in> set ts" and "Q t"
  shows "update_where (is_task (task_id t)) f ts = update_where (\<lambda>u. is_task (task_id t) u \<and> Q u) f ts"
proof -
  have "is_task (task_id t) u \<longleftrightarrow> is_task (task_id t) u \<and> Q u" if "u \<in> set ts" for u
    using assms that by (auto simp: is_task_def dest: inj_onD [of task_id "set ts"] simp: distinct_map)
  then show ?thesis
    by (auto simp: update_where_def cong: filter_cong map_cong)
qed

subsection \<open>The contract of a row transition\<close>

locale task_transition = row_transition guard upd task_id task_repo occupies_slot row_ok
  for guard :: "agent_task \<Rightarrow> bool" and upd :: "agent_task \<Rightarrow> agent_task"
begin

lemma queue_ok_update: "queue_ok db \<Longrightarrow> queue_ok (snd (update_tasks guard upd db))"
  using keys_update ok_update by (simp add: queue_ok_def ids_ok_def update_tasks_simps)

lemma in_flight_update:
  "in_flight (tasks (snd (update_tasks guard upd db))) repo \<le> in_flight (tasks db) repo"
  using busy_update by (simp add: in_flight_eq update_tasks_simps)

lemma ceilings_ok_update: "ceilings_ok db \<Longrightarrow> ceilings_ok (snd (update_tasks guard upd db))"
  unfolding ceilings_ok_def list_all_iff update_tasks_simps(2)
  using in_flight_update by (meson of_nat_mono order_trans)

end


text \<open>Every guarded write of \<open>AgentQueue\<close> keeps the contract.\<close>

interpretation renew: task_transition "held l [Leased, Running]" "renewed until" for l until
  by unfold_locales (auto simp: held_def renewed_def row_defs)

interpretation run: task_transition "held l [Leased]" "moved Running b now" for l b now
  by unfold_locales (auto simp: held_def moved_def row_defs)

interpretation settle: task_transition "held l [Leased, Running]" "finished Done ref err now"
  for l ref err now
  by unfold_locales (auto simp: held_def finished_def row_defs)

interpretation reclaiming: task_transition "abandoned q locked moment" "reclaimed_row moment"
  for q locked moment
  by unfold_locales
    (auto simp: abandoned_def lease_expired_def reclaimed_row_def row_defs Let_def split: if_splits)

interpretation retrying: task_transition "retryable i" "retried_row reason now" for i reason now
  by unfold_locales (auto simp: retryable_def retried_row_def row_defs)

interpretation cancelling: task_transition "cancellable i" "cancelled_row reason now" for i reason now
  by unfold_locales (auto simp: cancellable_def cancelled_row_def row_defs)

interpretation burying: task_transition
    "\<lambda>u. is_task i u \<and> (occupies_slot u \<and> int (attempts u + 1) \<ge> max_attempts u)" "dead_row err now"
  for i err now
  by unfold_locales (auto simp: dead_row_def failed_row_def row_defs)

interpretation requeueing: task_transition
    "\<lambda>u. is_task i u \<and> (occupies_slot u \<and> int (attempts u + 1) < max_attempts u)"
    "requeued_row err now d" for i err now d
  by unfold_locales (auto simp: requeued_row_def failed_row_def row_defs)

lemma held_occupies: "held l [Leased, Running] t \<Longrightarrow> occupies_slot t"
  by (auto simp: held_def row_defs)

lemma fail_cases:
  assumes "fail db l err now = Inr (out, db')"
  obtains (lost) "find (held l [Leased, Running]) (tasks db) = None" "out = Lost" "db' = db"
  | (dead) t where "find (held l [Leased, Running]) (tasks db) = Some t"
      "int (attempts t + 1) \<ge> max_attempts t" "out = DeadLettered"
      "db' = snd (update_tasks (is_task (task_id t)) (dead_row err now) db)"
  | (requeued) t d where "find (held l [Leased, Running]) (tasks db) = Some t"
      "int (attempts t + 1) < max_attempts t" "out = Requeued" "backoff (attempts t + 1) = Inr d"
      "db' = snd (update_tasks (is_task (task_id t)) (requeued_row err now d) db)"
proof (cases "find (held l [Leased, Running]) (tasks db)")
  case None
  with assms show ?thesis by (intro lost) (auto simp: fail_def)
next
  case (Some t)
  show ?thesis
  proof (cases "int (attempts t + 1) \<ge> max_attempts t")
    case True
    with assms have "Inr (DeadLettered, snd (update_tasks (is_task (task_id t)) (dead_row err now) db))
        = (Inr (out, db') :: queue_error + fail_outcome \<times> queue_db)"
      by (simp only: fail_def Some option.case if_True)
    then show ?thesis by (intro dead [OF Some True]) simp_all
  next
    case False
    show ?thesis
    proof (cases "backoff (attempts t + 1)")
      case (Inl e)
      with assms False have "(Inl e :: queue_error + fail_outcome \<times> queue_db) = Inr (out, db')"
        by (simp only: fail_def Some option.case if_False sum.case)
      then show ?thesis by simp
    next
      case (Inr d)
      with assms False have "Inr (Requeued, snd (update_tasks (is_task (task_id t)) (requeued_row err now d) db))
          = (Inr (out, db') :: queue_error + fail_outcome \<times> queue_db)"
        by (simp only: fail_def Some option.case if_False sum.case)
      then show ?thesis using False by (intro requeued [OF Some _ _ Inr]) simp_all
    qed
  qed
qed


lemma queue_ok_distinct: "queue_ok db \<Longrightarrow> distinct (map task_id (tasks db))"
  by (simp add: queue_ok_def ids_ok_def)

lemma queue_ok_same_id:
  "queue_ok db \<Longrightarrow> t \<in> set (tasks db) \<Longrightarrow> u \<in> set (tasks db) \<Longrightarrow> task_id t = task_id u \<Longrightarrow> t = u"
  using queue_ok_distinct by (auto simp: distinct_map dest: inj_onD)

lemma update_tasks_only:
  "queue_ok db \<Longrightarrow> t \<in> set (tasks db) \<Longrightarrow> Q t \<Longrightarrow>
   update_tasks (is_task (task_id t)) f db = update_tasks (\<lambda>u. is_task (task_id t) u \<and> Q u) f db"
  by (simp only: update_tasks_def update_only [OF queue_ok_distinct, of db t Q f])

text \<open>
  A failure report is one of the row transitions above, on the row found: what a transition
  keeps, \<open>fail\<close> keeps.
\<close>

lemma fail_keeps:
  assumes "fail db l err now = Inr (out, db')" and "queue_ok db"
  shows "queue_ok db'" and "ceilings_ok db \<Longrightarrow> ceilings_ok db'"
    and "in_flight (tasks db') repo \<le> in_flight (tasks db) repo"
proof -
  have "queue_ok db' \<and> (ceilings_ok db \<longrightarrow> ceilings_ok db')
      \<and> in_flight (tasks db') repo \<le> in_flight (tasks db) repo"
    using assms(1)
  proof (cases rule: fail_cases)
    case lost
    then show ?thesis using assms(2) by simp
  next
    case (dead t)
    then have t: "t \<in> set (tasks db)" "occupies_slot t \<and> int (attempts t + 1) \<ge> max_attempts t"
      by (auto dest: find_SomeD held_occupies)
    show ?thesis
      unfolding dead update_tasks_only [OF assms(2) t(1), where Q =
        "\<lambda>u. occupies_slot u \<and> int (attempts u + 1) \<ge> max_attempts u", OF t(2)]
      using assms(2) burying.queue_ok_update burying.ceilings_ok_update burying.in_flight_update
      by blast
  next
    case (requeued t d)
    then have t: "t \<in> set (tasks db)" "occupies_slot t \<and> int (attempts t + 1) < max_attempts t"
      by (auto dest: find_SomeD held_occupies)
    show ?thesis
      unfolding requeued update_tasks_only [OF assms(2) t(1), where Q =
        "\<lambda>u. occupies_slot u \<and> int (attempts u + 1) < max_attempts u", OF t(2)]
      using assms(2) requeueing.queue_ok_update requeueing.ceilings_ok_update
        requeueing.in_flight_update by blast
  qed
  then show "queue_ok db'" and "ceilings_ok db \<Longrightarrow> ceilings_ok db'"
    and "in_flight (tasks db') repo \<le> in_flight (tasks db) repo" by blast+
qed

subsection \<open>Claiming\<close>

lemma first_by_order_None: "first_by_order ts = None \<longleftrightarrow> ts = []"
  by (induction ts) (auto split: option.splits)

lemma first_by_order_mem: "first_by_order ts = Some t \<Longrightarrow> t \<in> set ts"
  by (induction ts arbitrary: t) (auto split: option.splits if_splits)

lemma before_trans: "before t u \<Longrightarrow> \<not> before t v \<Longrightarrow> \<not> before u v"
  by (auto simp: before_def)

lemma first_by_order_best: "first_by_order ts = Some t \<Longrightarrow> u \<in> set ts \<Longrightarrow> \<not> before u t"
proof (induction ts arbitrary: t u)
  case (Cons v ts)
  show ?case
  proof (cases "first_by_order ts")
    case None
    with Cons.prems show ?thesis by (simp add: first_by_order_None before_def)
  next
    case (Some w)
    have w: "\<not> before x w" if "x \<in> set ts" for x
      using Cons.IH [OF Some that] .
    have t: "t = (if before w v then w else v)"
      using Some Cons.prems(1) by (auto split: if_splits)
    consider "u = v" | "u \<in> set ts" using Cons.prems(2) by auto
    then show ?thesis
    proof cases
      case 1
      then show ?thesis unfolding t by (auto simp: before_def)
    next
      case 2
      with w have "\<not> before u w" .
      then show ?thesis unfolding t by (auto simp: before_def)
    qed
  qed
qed simp

lemma claim_cases:
  assumes "claim q locked db worker lease_for now = (res, db')"
  obtains (none) "res = None" "db' = db" "claim_candidates q locked db now = []"
  | (some) t expires where "res = Some (claimed_of t worker expires)"
      "expires = now + (case lease_for of None \<Rightarrow> lease_seconds q | Some d \<Rightarrow> d)"
      "first_by_order (claim_candidates q locked db now) = Some t"
      "t \<in> set (tasks db)" "claimable db now t" "visible_to (queue_dialect q) locked t"
      "db' = snd (update_tasks (is_task (task_id t)) (take_lease worker expires now) db)"
proof (cases "first_by_order (claim_candidates q locked db now)")
  case None
  with assms none show ?thesis by (auto simp: claim_def first_by_order_None)
next
  case (Some t)
  have "t \<in> set (tasks db)" "claimable db now t" "visible_to (queue_dialect q) locked t"
    using first_by_order_mem [OF Some] by (auto simp: claim_candidates_def)
  from assms have "(Some (claimed_of t worker (now + (case lease_for of None \<Rightarrow> lease_seconds q | Some d \<Rightarrow> d))),
      snd (update_tasks (is_task (task_id t))
        (take_lease worker (now + (case lease_for of None \<Rightarrow> lease_seconds q | Some d \<Rightarrow> d)) now) db)) = (res, db')"
    by (simp only: claim_def update_tasks_def Let_def Some option.case snd_conv)
  then show ?thesis
    by (intro some [OF _ refl Some \<open>t \<in> set (tasks db)\<close> \<open>claimable db now t\<close>
        \<open>visible_to (queue_dialect q) locked t\<close>]) (simp_all only: prod.inject)
qed

lemma count_where_one_more:
  assumes "distinct (map key rs)" and "\<And>r. r \<in> set rs \<Longrightarrow> key (f r) = key r"
    and "\<And>r. r \<in> set rs \<Longrightarrow> key r \<noteq> k \<Longrightarrow> p (f r) \<Longrightarrow> p r"
  shows "count_where p (map f rs) \<le> Suc (count_where p rs)"
  using assms
proof (induction rs)
  case (Cons r rs)
  show ?case
  proof (cases "key r = k")
    case True
    then have "key u \<noteq> k" if "u \<in> set rs" for u
      using Cons.prems(1) that True by (metis distinct.simps(2) image_eqI list.simps(9) set_map)
    then have "count_where p (map f rs) \<le> count_where p rs"
      using Cons.prems(3) by (intro count_where_map_le) auto
    then show ?thesis by auto
  next
    case False
    have "count_where p (map f rs) \<le> Suc (count_where p rs)"
      by (rule Cons.IH) (use Cons.prems in auto)
    with False Cons.prems(3) show ?thesis by auto
  qed
qed simp

lemma in_flight_take_lease:
  assumes "distinct (map task_id ts)" and "t \<in> set ts"
  shows "in_flight (fst (update_where (is_task (task_id t)) (take_lease w e n) ts)) repo
    \<le> (if repo = task_repo t then Suc (in_flight ts repo) else in_flight ts repo)"
proof (cases "repo = task_repo t")
  case True
  show ?thesis
    unfolding in_flight_eq fst_update_where if_P [OF True]
    by (rule count_where_one_more [where key = task_id and k = "task_id t"])
      (use assms(1) in \<open>auto simp: take_lease_def is_task_def\<close>)
next
  case False
  have "u = t" if "u \<in> set ts" "task_id u = task_id t" for u
    using assms that by (auto simp: distinct_map dest: inj_onD)
  with False show ?thesis
    unfolding in_flight_eq fst_update_where if_not_P [OF False]
    by (intro count_where_map_le) (auto simp: take_lease_def is_task_def split: if_splits)
qed

end
