(* ===== verification/TaskQueueSteps.thy ===== *)
theory TaskQueueSteps
  imports TaskQueueInv
begin

section \<open>Runs of the task queue\<close>

text \<open>
  The queue as a state machine: any number of producers, workers and operators, each performing
  one operation of \<open>AgentQueue\<close> at a time in any order, on one database. The runner rows are
  the deployment's configuration and stay as they are during a run.
\<close>

inductive queue_step :: "agent_queue \<Rightarrow> int \<Rightarrow> queue_db \<Rightarrow> queue_db \<Rightarrow> bool"
  for q :: agent_queue and setting :: int where
  step_enqueue: "enqueue setting db r now created = Inr (i, db') \<Longrightarrow> queue_step q setting db db'"
| step_claim: "claim q locked db w d now = (res, db') \<Longrightarrow> queue_step q setting db db'"
| step_run: "mark_running db l now = (b, db') \<Longrightarrow> queue_step q setting db db'"
| step_beat: "heartbeat q db l d now = (b, db') \<Longrightarrow> queue_step q setting db db'"
| step_succeed: "succeed db l ref now = (b, db') \<Longrightarrow> queue_step q setting db db'"
| step_fail: "fail db l err now = Inr (out, db') \<Longrightarrow> queue_step q setting db db'"
| step_reclaim: "reclaim_expired q locked db moment = (rep, db') \<Longrightarrow> queue_step q setting db db'"
| step_retry: "retry db i reason now = (b, db') \<Longrightarrow> queue_step q setting db db'"
| step_cancel: "cancel db i reason now = (b, db') \<Longrightarrow> queue_step q setting db db'"

definition empty_queue :: "repo_runner list \<Rightarrow> int list \<Rightarrow> queue_db" where
  "empty_queue rs ids = \<lparr>tasks = [], runners = rs, repos = ids, next_task_id = 1\<rparr>"

inductive queue_reachable :: "agent_queue \<Rightarrow> int \<Rightarrow> repo_runner list \<Rightarrow> int list \<Rightarrow> queue_db \<Rightarrow> bool"
  for q :: agent_queue and setting :: int and rs :: "repo_runner list" and ids :: "int list" where
  reach_start: "queue_reachable q setting rs ids (empty_queue rs ids)"
| reach_step: "queue_reachable q setting rs ids db \<Longrightarrow> queue_step q setting db db'
     \<Longrightarrow> queue_reachable q setting rs ids db'"

subsection \<open>What one step keeps\<close>

lemma enqueue_cases:
  assumes "enqueue setting db r now created = Inr (i, db')"
  obtains (suppressed) "i = 0" "db' = db"
  | (written) "i = next_task_id db" "req_kind r \<in> set TASK_KIND" "1 \<le> req_max_attempts r"
      "db' = db\<lparr>tasks := tasks db @ [new_task db r (find (\<lambda>u. runner_repo u = req_repo r) (runners db))
                (py_strip (opt_str (req_dedup_key r))) now created],
               next_task_id := next_task_id db + 1\<rparr>"
      "enqueue_ceiling setting (find (\<lambda>u. runner_repo u = req_repo r) (runners db)) (req_max_in_flight r) > 0
        \<longrightarrow> int (active_count (tasks db) (req_repo r))
          < enqueue_ceiling setting (find (\<lambda>u. runner_repo u = req_repo r) (runners db)) (req_max_in_flight r)"
proof -
  let ?u = "find (\<lambda>u. runner_repo u = req_repo r) (runners db)"
  let ?key = "py_strip (opt_str (req_dedup_key r))"
  let ?c = "enqueue_ceiling setting ?u (req_max_in_flight r)"
  let ?full = "?c > 0 \<and> int (active_count (tasks db) (req_repo r)) \<ge> ?c"
  let ?dup = "?key \<noteq> [] \<and> list_ex (duplicate_of (req_repo r) (req_kind r) ?key) (tasks db)"
  have kind: "req_kind r \<in> set TASK_KIND" and max: "\<not> req_max_attempts r < 1"
    using assms unfolding enqueue_def by (metis Inl_Inr_False)+
  note eq = assms [unfolded enqueue_def Let_def, simplified kind max not_True_eq_False if_False]
  show thesis
  proof (cases "?dup \<or> ?full")
    case True
    then have "i = 0 \<and> db' = db"
      using eq by (metis (no_types, lifting) Inr_inject prod.inject)
    then show ?thesis using suppressed by blast
  next
    case False
    then have "\<not> ?dup" "\<not> ?full" by blast+
    note eq' = eq [unfolded if_not_P [OF this(1)] if_not_P [OF this(2)]]
    then have "req_repo r \<in> set (repos db)" by (metis Inl_Inr_False)
    with eq' have "(i, db') = (next_task_id db, db\<lparr>tasks := tasks db @ [new_task db r ?u ?key now created],
        next_task_id := next_task_id db + 1\<rparr>)" by (metis Inr_inject)
    then show ?thesis using False kind max by (intro written) (auto simp only: prod.inject)
  qed
qed

lemma new_task_simps [simp]:
  "task_id (new_task db r u k now c) = next_task_id db"
  "task_repo (new_task db r u k now c) = req_repo r"
  "task_kind (new_task db r u k now c) = req_kind r"
  "task_status (new_task db r u k now c) = Queued"
  "dedup_key (new_task db r u k now c) = (if k = [] then None else Some k)"
  "max_attempts (new_task db r u k now c) = req_max_attempts r"
  "attempts (new_task db r u k now c) = 0"
  by (simp_all add: new_task_def)

lemma row_ok_new_task: "1 \<le> req_max_attempts r \<Longrightarrow> row_ok (new_task db r u k now c)"
  by (simp add: row_defs new_task_def)

lemma enqueue_keeps:
  assumes "enqueue setting db r now created = Inr (i, db')" and "queue_ok db"
  shows "queue_ok db'" and "in_flight (tasks db') repo = in_flight (tasks db) repo"
    and "runners db' = runners db"
proof -
  have "queue_ok db' \<and> in_flight (tasks db') repo = in_flight (tasks db) repo \<and> runners db' = runners db"
    using assms(1)
  proof (cases rule: enqueue_cases)
    case written
    then have "list_all row_ok (tasks db')"
      using assms(2) by (simp add: queue_ok_def row_ok_new_task)
    moreover have "ids_ok db'"
      using assms(2) unfolding written(4) by (force simp: queue_ok_def ids_ok_def list_all_iff)
    moreover have "in_flight (tasks db') repo = in_flight (tasks db) repo"
      unfolding written(4) by (simp add: in_flight_def RUNNING_TASK_STATUSES_def)
    ultimately show ?thesis unfolding queue_ok_def by (simp add: written(4))
  qed (use assms(2) in simp)
  then show "queue_ok db'" and "in_flight (tasks db') repo = in_flight (tasks db) repo"
    and "runners db' = runners db" by blast+
qed


lemma claim_keeps:
  assumes "claim q locked db w d now = (res, db')" and "queue_ok db"
  shows "queue_ok db'" and "runners db' = runners db"
    and "in_flight (tasks db') repo \<le> in_flight (tasks db) repo
      \<or> (in_flight (tasks db') repo \<le> Suc (in_flight (tasks db) repo)
         \<and> runner_ceiling_available (runners db) (tasks db) repo)"
proof -
  have "queue_ok db' \<and> runners db' = runners db \<and> (in_flight (tasks db') repo \<le> in_flight (tasks db) repo
      \<or> (in_flight (tasks db') repo \<le> Suc (in_flight (tasks db) repo)
         \<and> runner_ceiling_available (runners db) (tasks db) repo))"
    using assms(1)
  proof (cases rule: claim_cases)
    case none
    then show ?thesis using assms(2) by simp
  next
    case (some t e)
    have queued: "task_status t = Queued"
      and avail: "runner_ceiling_available (runners db) (tasks db) (task_repo t)"
      using some(5) by (simp_all add: claimable_def)
    have ok: "row_ok (take_lease w e now u)" if "row_ok u" "task_status u = Queued" for u
      using that by (auto simp: take_lease_def row_defs)
    have "list_all row_ok (fst (update_where (is_task (task_id t)) (take_lease w e now) (tasks db)))"
      unfolding update_only [OF queue_ok_distinct [OF assms(2)] some(4), where Q = "\<lambda>u. task_status u = Queued", OF queued]
      using assms(2) ok by (auto simp: fst_update_where list_all_iff queue_ok_def)
    moreover have "ids_ok db'"
    proof -
      have "map task_id (tasks db') = map task_id (tasks db)"
        unfolding some(7) update_tasks_simps fst_update_where by (simp add: take_lease_def)
      then show ?thesis
        using assms(2) by (simp add: queue_ok_def ids_ok_def) (simp add: some(7) update_tasks_simps)
    qed
    moreover have "in_flight (tasks db') repo
        \<le> (if repo = task_repo t then Suc (in_flight (tasks db) repo) else in_flight (tasks db) repo)"
      unfolding some(7) update_tasks_simps
      by (rule in_flight_take_lease [OF queue_ok_distinct [OF assms(2)] some(4)])
    ultimately show ?thesis
      using avail by (auto simp: queue_ok_def some(7) update_tasks_simps split: if_splits)
  qed
  then show "queue_ok db'" and "runners db' = runners db"
    and "in_flight (tasks db') repo \<le> in_flight (tasks db) repo
      \<or> (in_flight (tasks db') repo \<le> Suc (in_flight (tasks db) repo)
         \<and> runner_ceiling_available (runners db) (tasks db) repo)" by blast+
qed

lemma reclaim_eq:
  "snd (reclaim_expired q locked db moment)
   = snd (update_tasks (abandoned q locked moment) (reclaimed_row moment) db)"
  by (simp add: reclaim_expired_def)

lemmas operation_defs = mark_running_def transition_def heartbeat_def succeed_def finish_def
  retry_def cancel_def

text \<open>Every step that is a guarded update of the task table, in one lemma.\<close>

lemma step_cases:
  assumes "queue_step q setting db db'"
  obtains (enqueued) r now c i where "enqueue setting db r now c = Inr (i, db')"
  | (claimed) locked w d now res where "claim q locked db w d now = (res, db')"
  | (failed) l err now out where "fail db l err now = Inr (out, db')"
  | (updated) p f where "task_transition p f" "db' = snd (update_tasks p f db)"
  using assms
proof (cases rule: queue_step.cases)
  case (step_run l now b)
  then show ?thesis
    by (intro updated [OF run.task_transition_axioms]) (auto simp: operation_defs dest: arg_cong [of _ _ snd])
next
  case (step_beat l d now b)
  then show ?thesis
    by (intro updated [OF renew.task_transition_axioms]) (auto simp: operation_defs dest: arg_cong [of _ _ snd])
next
  case (step_succeed l ref now b)
  then show ?thesis
    by (intro updated [OF settle.task_transition_axioms]) (auto simp: operation_defs dest: arg_cong [of _ _ snd])
next
  case (step_reclaim locked moment rep)
  then show ?thesis
    by (intro updated [OF reclaiming.task_transition_axioms [of q locked moment]])
      (metis reclaim_eq snd_conv)
next
  case (step_retry i reason now b)
  then show ?thesis
    by (intro updated [OF retrying.task_transition_axioms]) (auto simp: operation_defs dest: arg_cong [of _ _ snd])
next
  case (step_cancel i reason now b)
  then show ?thesis
    by (intro updated [OF cancelling.task_transition_axioms]) (auto simp: operation_defs dest: arg_cong [of _ _ snd])
qed (use enqueued claimed failed in blast)+

lemma fail_runners: "fail db l err now = Inr (out, db') \<Longrightarrow> runners db' = runners db"
  by (erule fail_cases) (simp_all add: update_tasks_simps)

lemma step_keeps_ok:
  assumes "queue_step q setting db db'" and "queue_ok db"
  shows "queue_ok db' \<and> runners db' = runners db"
  using assms(1)
proof (cases rule: step_cases)
  case (updated p f)
  then show ?thesis
    using task_transition.queue_ok_update [OF updated(1) assms(2)] by (simp add: update_tasks_simps)
qed (use assms(2) in \<open>blast dest: enqueue_keeps claim_keeps fail_keeps fail_runners\<close>)+

lemma step_in_flight:
  assumes "queue_step q setting db db'" and "queue_ok db"
  shows "in_flight (tasks db') repo \<le> in_flight (tasks db) repo
    \<or> (in_flight (tasks db') repo \<le> Suc (in_flight (tasks db) repo)
       \<and> runner_ceiling_available (runners db) (tasks db) repo)"
  using assms(1)
proof (cases rule: step_cases)
  case (updated p f)
  then show ?thesis using task_transition.in_flight_update [OF updated(1)] by blast
next
  case enqueued
  then show ?thesis using enqueue_keeps(2) [OF _ assms(2)] by (metis order_refl)
qed (use assms(2) claim_keeps(3) fail_keeps(3) in blast)+

lemma runner_ceiling_unique:
  "distinct (map runner_repo rs) \<Longrightarrow> r \<in> set rs \<Longrightarrow> runner_ceiling rs (runner_repo r) = max_concurrency r"
  by (induction rs) (auto simp: runner_ceiling_def)

lemma step_ceilings:
  assumes "queue_step q setting db db'" and "queue_ok db" and "ceilings_ok db"
    and "distinct (map runner_repo (runners db))"
  shows "ceilings_ok db'"
proof -
  have "int (in_flight (tasks db') (runner_repo r)) \<le> max_concurrency r"
    if r: "r \<in> set (runners db)" "max_concurrency r > 0" for r
  proof -
    have le: "int (in_flight (tasks db) (runner_repo r)) \<le> max_concurrency r"
      using assms(3) r by (auto simp: ceilings_ok_def list_all_iff)
    show ?thesis
      using step_in_flight [OF assms(1,2), of "runner_repo r"]
    proof
      assume "in_flight (tasks db') (runner_repo r) \<le> in_flight (tasks db) (runner_repo r)"
      with le show ?thesis by linarith
    next
      assume "in_flight (tasks db') (runner_repo r) \<le> Suc (in_flight (tasks db) (runner_repo r))
        \<and> runner_ceiling_available (runners db) (tasks db) (runner_repo r)"
      with r show ?thesis
        by (auto simp: runner_ceiling_available_def runner_ceiling_unique [OF assms(4)])
    qed
  qed
  then show ?thesis
    using step_keeps_ok [OF assms(1,2)] by (auto simp: ceilings_ok_def list_all_iff)
qed

lemma queue_ok_empty: "queue_ok (empty_queue rs ids)"
  by (simp add: queue_ok_def ids_ok_def empty_queue_def)

lemma reachable_ok:
  "queue_reachable q setting rs ids db \<Longrightarrow> queue_ok db \<and> runners db = rs"
proof (induction rule: queue_reachable.induct)
  case reach_start
  then show ?case using queue_ok_empty by (simp add: empty_queue_def)
qed (use step_keeps_ok in blast)

lemma reachable_ceilings:
  "queue_reachable q setting rs ids db \<Longrightarrow> distinct (map runner_repo rs) \<Longrightarrow> ceilings_ok db"
proof (induction rule: queue_reachable.induct)
  case reach_start
  then show ?case by (simp add: ceilings_ok_def empty_queue_def in_flight_def list_all_iff)
next
  case (reach_step db db')
  then show ?case using step_ceilings reachable_ok by blast
qed

end
