(* ===== verification/TaskQueueProps.thy ===== *)
theory TaskQueueProps
  imports TaskQueueSteps "HOL-Library.Multiset"
begin

section \<open>What the task queue guarantees\<close>

text \<open>
  The properties of \<open>AgentQueue\<close> callers rely on: the runner ceiling, lease ownership, the
  claim order, recovery of abandoned leases, the retry budget, deduplication and cancellation.
\<close>

lemma held_elsewhere:
  assumes "\<And>t. t \<in> set (tasks db) \<Longrightarrow> task_id t = lease_task l \<Longrightarrow>
      leased_by t \<noteq> lease_worker l \<or> task_status t \<notin> {Leased, Running}"
  shows "mark_running db l now = (False, db)" and "heartbeat q db l d now = (False, db)"
    and "succeed db l ref now = (False, db)" and "fail db l err now = Inr (Lost, db)"
proof -
  have none: "count_where (held l S) (tasks db) = 0" if "set S \<subseteq> {Leased, Running}" for S
    using assms that unfolding count_where_zero held_def by blast
  have reject: "update_tasks (held l S) f db = (False, db)" if "set S \<subseteq> {Leased, Running}" for S f
    using none [OF that] update_tasks_rejected [of "held l S" f db]
    by (simp add: prod_eq_iff update_tasks_simps)
  show "mark_running db l now = (False, db)" "heartbeat q db l d now = (False, db)"
    "succeed db l ref now = (False, db)"
    by (simp_all add: operation_defs reject)
  have "find (held l [Leased, Running]) (tasks db) = None"
    using none [of "[Leased, Running]"] unfolding count_where_zero by (simp add: find_None_iff)
  then show "fail db l err now = Inr (Lost, db)" by (simp add: fail_def)
qed

text \<open>
  C1: a repository whose runner sets \<open>max_concurrency > 0\<close> never holds more leased or running
  tasks than that, in any state reachable by any sequence of enqueues, claims, reports,
  reclaims, retries and cancellations.
\<close>

theorem max_concurrency_respected:
  assumes "queue_reachable q setting rs ids db" and "distinct (map runner_repo rs)"
    and "r \<in> set rs" and "max_concurrency r > 0"
  shows "int (in_flight (tasks db) (runner_repo r)) \<le> max_concurrency r"
  using reachable_ceilings [OF assms(1,2)] reachable_ok [OF assms(1)] assms(3,4)
  by (auto simp: ceilings_ok_def list_all_iff)

text \<open>
  C11: in every reachable state a row has a lease deadline exactly when it is leased or running, a
  row that is not is held by nobody, and a task still in play has an attempt left.
\<close>

theorem reachable_rows_consistent:
  assumes "queue_reachable q setting rs ids db" and "t \<in> set (tasks db)"
  shows "(task_status t \<in> {Leased, Running} \<longleftrightarrow> lease_until t \<noteq> None)
    \<and> (task_status t \<notin> {Leased, Running} \<longrightarrow> leased_by t = '''')
    \<and> int (attempts t) \<le> max_attempts t
    \<and> (task_status t \<in> {Queued, Leased, Running} \<longrightarrow> int (attempts t) < max_attempts t)"
  using reachable_ok [OF assms(1)] assms(2)
  by (auto simp: queue_ok_def list_all_iff row_defs split: if_splits)

text \<open>
  C8: once a worker has claimed a task, a lease on it in any other worker's name is void: its
  heartbeat, its start and its success are refused, its failure report answers \<open>lost\<close>, and none
  of them changes a row.
\<close>

theorem claim_voids_other_leases:
  assumes "queue_ok db" and "claim q locked db w d now = (Some c, db')"
    and "lease_task l = claimed_id c" and "lease_worker l \<noteq> w"
  shows "heartbeat q db' l e later = (False, db') \<and> mark_running db' l later = (False, db')
    \<and> succeed db' l ref later = (False, db') \<and> fail db' l err later = Inr (Lost, db')"
  using assms(2)
proof (cases rule: claim_cases)
  case (some t x)
  then have "leased_by u \<noteq> lease_worker l" if "u \<in> set (tasks db')" "task_id u = lease_task l" for u
    using that assms(3,4)
    by (auto simp: some(7) update_tasks_simps fst_update_where claimed_of_def take_lease_def is_task_def)
  then show ?thesis using held_elsewhere by blast
qed simp

text \<open>
  what a claim does. It hands out a due, runnable task below its ceiling that no claimable
  task beats on priority and then age, writes the lease on that row alone, and returns nothing
  only when there is no candidate.
\<close>

theorem claim_takes_the_best:
  assumes "queue_ok db"
  shows "(case claim q locked db w d now of
      (None, db') \<Rightarrow> db' = db \<and> (\<forall>t \<in> set (tasks db). claimable db now t
          \<longrightarrow> \<not> visible_to (queue_dialect q) locked t)
    | (Some c, db') \<Rightarrow> (\<exists>t \<in> set (tasks db). claimable db now t \<and> claimed_id c = task_id t
          \<and> (\<forall>u \<in> set (tasks db). claimable db now u \<and> visible_to (queue_dialect q) locked u
              \<longrightarrow> priority u < priority t \<or> priority u = priority t \<and> created_at t \<le> created_at u)
          \<and> tasks db' = map (\<lambda>u. if u = t then take_lease w (expires_at (claimed_lease c)) now t else u)
              (tasks db)))"
proof (cases "claim q locked db w d now")
  case (Pair res db')
  then show ?thesis
  proof (cases rule: claim_cases)
    case none
    with Pair show ?thesis by (auto simp: claim_candidates_def filter_empty_conv)
  next
    case (some t e)
    have "priority u < priority t \<or> priority u = priority t \<and> created_at t \<le> created_at u"
      if "u \<in> set (tasks db)" "claimable db now u" "visible_to (queue_dialect q) locked u" for u
      using first_by_order_best [OF some(3), of u] that by (auto simp: claim_candidates_def before_def)
    moreover have "tasks db' = map (\<lambda>u. if u = t then take_lease w e now t else u) (tasks db)"
      using queue_ok_distinct [OF assms] some(4)
      by (auto simp: some(7) update_tasks_simps fst_update_where is_task_def distinct_map dest: inj_onD)
    ultimately show ?thesis
      using some(1,4,5) Pair by (auto simp: claimed_of_def)
  qed
qed

text \<open>
  a reclaim sweep on a serialised backend leaves no expired lease behind, touches only the
  abandoned rows, reports each of them once, charges each an attempt and requeues it exactly when
  it has one left.
\<close>

theorem reclaim_is_complete:
  assumes "queue_dialect q = Sqlite" and "reclaim_expired q locked db m = (rep, db')"
  shows "expired (stats db' m) = 0 \<and> length rep = expired (stats db m)
    \<and> tasks db' = map (\<lambda>t. if lease_expired m t then reclaimed_row m t else t) (tasks db)
    \<and> mset rep = image_mset (reclaim_outcome_of m) (mset (filter (lease_expired m) (tasks db)))
    \<and> (\<forall>t. attempts (reclaimed_row m t) = attempts t + 1
        \<and> task_status (reclaimed_row m t)
          = (if int (attempts t + 1) < max_attempts t then Queued else Dead))"
proof -
  have ab: "abandoned q locked m = lease_expired m"
    using assms(1) by (simp add: abandoned_def visible_to_def fun_eq_iff)
  have rep: "rep = map (reclaim_outcome_of m) (sort_key deadline (filter (lease_expired m) (tasks db)))"
    and db': "tasks db' = map (\<lambda>t. if lease_expired m t then reclaimed_row m t else t) (tasks db)"
    using assms(2) by (auto simp: reclaim_expired_def ab update_tasks_simps fst_update_where)
  have "\<not> lease_expired m (reclaimed_row m t)" for t
    by (auto simp: lease_expired_def reclaimed_row_def Let_def)
  then have "expired (stats db' m) = 0"
    by (auto simp: stats_def db' count_where_zero)
  then show ?thesis
    unfolding rep db' by (simp add: stats_def count_where_def reclaimed_row_def Let_def)
qed

subsection \<open>The retry budget\<close>

definition budget_of :: "agent_task \<Rightarrow> nat" where
  "budget_of t = (if task_status t \<in> set ACTIVE_TASK_STATUSES then nat (max_attempts t - int (attempts t)) else 0)"

definition retry_budget :: "queue_db \<Rightarrow> nat" where
  "retry_budget db = sum_list (map budget_of (tasks db))"

lemma budget_update_le:
  assumes "\<And>t. t \<in> set (tasks db) \<Longrightarrow> p t \<Longrightarrow> budget_of (f t) \<le> budget_of t"
  shows "retry_budget (snd (update_tasks p f db)) \<le> retry_budget db"
  unfolding retry_budget_def update_tasks_simps fst_update_where map_map
  by (rule sum_list_mono) (simp add: assms)

lemma budget_rows_charged:
  assumes "\<And>t. t \<in> set ts \<Longrightarrow> p t \<Longrightarrow> budget_of (f t) < budget_of t"
  shows "sum_list (map budget_of (fst (update_where p f ts))) + count_where p ts
    \<le> sum_list (map budget_of ts)"
  using assms unfolding fst_update_where
proof (induction ts)
  case (Cons t ts)
  then have "sum_list (map budget_of (map (\<lambda>r. if p r then f r else r) ts)) + count_where p ts
      \<le> sum_list (map budget_of ts)" by simp
  moreover have "p t \<Longrightarrow> Suc (budget_of (f t)) \<le> budget_of t" using Cons.prems by (simp add: Suc_leI)
  ultimately show ?case by (cases "p t") auto
qed simp

lemma budget_update_charged:
  assumes "\<And>t. t \<in> set (tasks db) \<Longrightarrow> p t \<Longrightarrow> budget_of (f t) < budget_of t"
  shows "retry_budget (snd (update_tasks p f db)) + count_where p (tasks db) \<le> retry_budget db"
  using budget_rows_charged assms by (simp add: retry_budget_def update_tasks_simps)

lemma row_budget: "row_ok t \<Longrightarrow> occupies_slot t \<Longrightarrow> budget_of t = nat (max_attempts t - int (attempts t))
    \<and> int (attempts t) < max_attempts t"
  by (auto simp: budget_of_def row_defs)

lemma charged_budget:
  "budget_of (dead_row err now t) = 0"
  "budget_of (requeued_row err now d t) = nat (max_attempts t - int (attempts t) - 1)"
  "budget_of (reclaimed_row m t) \<le> nat (max_attempts t - int (attempts t) - 1)"
  by (simp_all add: budget_of_def dead_row_def requeued_row_def failed_row_def reclaimed_row_def
      Let_def ACTIVE_TASK_STATUSES_def diff_diff_eq add.commute)

lemma fail_charges:
  assumes "queue_ok db" and "fail db l err now = Inr (out, db')" and "out \<noteq> Lost"
  shows "retry_budget db' < retry_budget db"
proof -
  have charged: "retry_budget (snd (update_tasks (is_task (task_id t)) f db)) < retry_budget db"
    if t: "find (held l [Leased, Running]) (tasks db) = Some t" and f: "budget_of (f t) < budget_of t" for t f
  proof -
    have mem: "t \<in> set (tasks db)" using find_SomeD [OF t] by blast
    have "count_where (\<lambda>u. is_task (task_id t) u \<and> u = t) (tasks db) \<noteq> 0"
      using mem unfolding count_where_zero by (auto simp: is_task_def)
    moreover have "retry_budget (snd (update_tasks (is_task (task_id t)) f db))
        + count_where (\<lambda>u. is_task (task_id t) u \<and> u = t) (tasks db) \<le> retry_budget db"
      unfolding update_tasks_only [OF assms(1) mem, where Q = "\<lambda>u. u = t", OF refl]
      by (rule budget_update_charged) (use f in auto)
    ultimately show ?thesis by linarith
  qed
  have held: "row_ok t \<and> occupies_slot t" if "find (held l [Leased, Running]) (tasks db) = Some t" for t
    using find_SomeD [OF that] assms(1) by (auto simp: queue_ok_def list_all_iff dest: held_occupies)
  show ?thesis
    using assms(2)
  proof (cases rule: fail_cases)
    case (dead t)
    have "budget_of (dead_row err now t) < budget_of t"
      using row_budget [of t] held [OF dead(1)] charged_budget(1) [of err now t] by auto
    with dead show ?thesis by (simp add: charged)
  next
    case (requeued t d)
    have "budget_of (requeued_row err now d t) < budget_of t"
      using row_budget [of t] held [OF requeued(1)] charged_budget(2) [of err now d t] by auto
    with requeued show ?thesis by (simp add: charged)
  qed (use assms(3) in simp)
qed

lemma reclaim_charges:
  assumes "queue_ok db" and "reclaim_expired q locked db m = (rep, db')"
  shows "retry_budget db' + length rep \<le> retry_budget db"
proof -
  have "budget_of (reclaimed_row m t) < budget_of t" if "t \<in> set (tasks db)" "abandoned q locked m t" for t
  proof -
    have "row_ok t \<and> occupies_slot t"
      using assms(1) that by (auto simp: queue_ok_def list_all_iff abandoned_def lease_expired_def occupies_slot_def
          RUNNING_TASK_STATUSES_def)
    then show ?thesis
      using row_budget [of t] charged_budget(3) [of m t] by auto
  qed
  from budget_update_charged [of db, OF this] show ?thesis
    using assms(2) by (auto simp: reclaim_expired_def count_where_def)
qed


text \<open>
  the retry delay. A requeued failure is scheduled at 30 seconds doubled for each earlier
  attempt, never below 30 seconds nor above 15 minutes; and with fewer than 1025 attempts on the
  task a report never raises.
\<close>

theorem retry_delay:
  assumes "queue_ok db" and "find (held l [Leased, Running]) (tasks db) = Some t"
    and "int (attempts t + 1) < max_attempts t" and "attempts t < 1024"
  shows "\<exists>db'. fail db l err now = Inr (Requeued, db')
    \<and> (\<exists>u \<in> set (tasks db'). task_id u = task_id t \<and> task_status u = Queued
        \<and> scheduled_at u = Some (now + seconds (min 900 (30 * 2 ^ attempts t)))
        \<and> attempts u = attempts t + 1)
    \<and> seconds 30 \<le> seconds (min 900 (30 * 2 ^ attempts t))
    \<and> seconds (min 900 (30 * 2 ^ attempts t)) \<le> seconds 900"
proof -
  let ?d = "seconds (min 900 (30 * 2 ^ attempts t))"
  let ?db' = "snd (update_tasks (is_task (task_id t)) (requeued_row err now ?d) db)"
  have "backoff (attempts t + 1) = Inr ?d"
    using assms(4) by (simp add: backoff_def MAX_BACKOFF_SECONDS_def DEFAULT_BACKOFF_SECONDS_def)
  then have "fail db l err now = Inr (Requeued, ?db')"
    using assms(2,3) by (simp add: fail_def)
  moreover have "requeued_row err now ?d t \<in> set (tasks ?db')"
    using find_SomeD [OF assms(2)]
    by (force simp: update_tasks_simps fst_update_where is_task_def)
  moreover have "(1::int) \<le> 2 ^ attempts t" by simp
  ultimately show ?thesis
    by (intro exI [of _ ?db']) (auto simp: requeued_row_def failed_row_def
        intro!: bexI [of _ "requeued_row err now ?d t"])
qed

text \<open>
  The failure report of a task that has already used 1024 attempts and has two left raises
  \<open>OverflowError\<close> instead of requeueing: the delay is computed in floating point before it is
  capped.
\<close>

theorem fail_overflows:
  assumes "find (held l [Leased, Running]) (tasks db) = Some t"
    and "int (attempts t + 1) < max_attempts t" and "1024 \<le> attempts t"
  shows "fail db l err now = Inl OverflowError"
  using assms by (simp add: fail_def backoff_def)

subsection \<open>Producers and operators\<close>

lemma count_where_pos: "count_where p rs \<noteq> 0 \<longleftrightarrow> (\<exists>r \<in> set rs. p r)"
  by (induction rs) auto

text \<open>
  An enqueue that was written counts against the repository's ceiling and blocks its own
  duplicates: the active tasks of the repository stay within the ceiling that applied, and a
  second request with the same repository, kind and non-blank key writes nothing.
\<close>

theorem enqueue_throttles:
  assumes "queue_ok db" and "enqueue setting db r now created = Inr (i, db')" and "i \<noteq> 0"
  shows "(let c = (case (req_max_in_flight r, find (\<lambda>u. runner_repo u = req_repo r) (runners db)) of
              (Some m, _) \<Rightarrow> m
            | (None, Some u) \<Rightarrow> if max_concurrency u > 0 then max_concurrency u else configured_max_in_flight_per_repo setting
            | (None, None) \<Rightarrow> configured_max_in_flight_per_repo setting)
      in c > 0 \<longrightarrow> int (active_count (tasks db') (req_repo r)) \<le> c)
    \<and> (req_repo r2 = req_repo r \<and> req_kind r2 = req_kind r \<and> 1 \<le> req_max_attempts r2
        \<and> py_strip (opt_str (req_dedup_key r2)) = py_strip (opt_str (req_dedup_key r))
        \<and> py_strip (opt_str (req_dedup_key r)) \<noteq> []
      \<longrightarrow> enqueue setting db' r2 now2 created2 = Inr (0, db'))"
  using assms(2)
proof (cases rule: enqueue_cases)
  case written
  have "duplicate_of (req_repo r) (req_kind r) (py_strip (opt_str (req_dedup_key r)))
      (new_task db r u (py_strip (opt_str (req_dedup_key r))) now created)"
    if "py_strip (opt_str (req_dedup_key r)) \<noteq> []" for u
    using that by (simp add: duplicate_of_def ACTIVE_TASK_STATUSES_def)
  then show ?thesis
    using written(2,5) unfolding written(4)
    by (auto simp: Let_def active_count_def ACTIVE_TASK_STATUSES_def enqueue_def list_ex_iff enqueue_ceiling_def
        split: option.splits if_splits)
qed (use assms(3) in simp)

text \<open>
  An accepted cancellation stops the task's worker: the task is dead and unheld afterwards,
  and no lease on it, in whoever's name, can renew, start, finish or fail it.
\<close>

theorem cancel_stops_the_worker:
  assumes "queue_ok db" and "cancel db i reason now = (True, db')" and "lease_task l = i"
  shows "(\<exists>t \<in> set (tasks db'). task_id t = i \<and> task_status t = Dead)
    \<and> heartbeat q db' l d later = (False, db') \<and> mark_running db' l later = (False, db')
    \<and> succeed db' l ref later = (False, db') \<and> fail db' l err later = Inr (Lost, db')"
proof -
  have "fst (cancel db i reason now)" and db': "db' = snd (cancel db i reason now)"
    using assms(2) by simp_all
  then obtain t where t: "t \<in> set (tasks db)" "cancellable i t"
    using count_where_pos [of "cancellable i" "tasks db"] by (auto simp: cancel_def update_tasks_simps)
  have rows: "tasks db' = map (\<lambda>u. if cancellable i u then cancelled_row reason now u else u) (tasks db)"
    by (simp add: db' cancel_def update_tasks_simps fst_update_where)
  have "task_status u = Dead" if "u \<in> set (tasks db')" "task_id u = i" for u
  proof -
    obtain v where v: "v \<in> set (tasks db)" "u = (if cancellable i v then cancelled_row reason now v else v)"
      using \<open>u \<in> set (tasks db')\<close> unfolding rows by auto
    have "task_id v = task_id t"
      using v(2) t(2) \<open>task_id u = i\<close> by (auto simp: cancelled_row_def cancellable_def is_task_def split: if_splits)
    then have "v = t"
      using v(1) t(1) queue_ok_distinct [OF assms(1)] by (auto simp: distinct_map dest: inj_onD)
    with v(2) t(2) show ?thesis by (simp add: cancelled_row_def)
  qed
  moreover from t have "cancelled_row reason now t \<in> set (tasks db')" "task_id (cancelled_row reason now t) = i"
    unfolding rows by (force, simp add: cancelled_row_def cancellable_def is_task_def)
  ultimately show ?thesis
    using held_elsewhere [of db' l] assms(3) by fastforce
qed

text \<open>Where nobody writes between its halves, \<open>fail\<close> is the one after the other.\<close>

lemma fail_halves:
  assumes "queue_ok db"
  shows "fail db l err now = (case fail_read db l of None \<Rightarrow> Inr (Lost, db) | Some t \<Rightarrow> fail_write t err now db)"
proof (cases "find (held l [Leased, Running]) (tasks db)")
  case (Some t)
  then have t: "t \<in> set (tasks db)" by (auto dest: find_SomeD)
  have same: "update_tasks (is_task (task_id t)) f db = update_tasks (is_task (task_id t)) g db" if "f t = g t" for f g
  proof -
    have "u = t" if "u \<in> set (tasks db)" "is_task (task_id t) u" for u
      using queue_ok_same_id [OF assms that(1) t] that(2) by (simp add: is_task_def)
    then have "map (\<lambda>u. if is_task (task_id t) u then f u else u) (tasks db) = map (\<lambda>u. if is_task (task_id t) u then g u else u) (tasks db)"
      using that by (intro map_cong) auto
    then show ?thesis by (simp add: update_tasks_def update_where_def Let_def)
  qed
  have "update_tasks (is_task (task_id t)) (dead_row err now) db
      = update_tasks (is_task (task_id t)) (\<lambda>u. (flushed_row (dead_row err now t) u)\<lparr>scheduled_at := scheduled_at u\<rparr>) db"
    by (rule same) (simp add: flushed_row_def dead_row_def failed_row_def)
  moreover have "update_tasks (is_task (task_id t)) (requeued_row err now d) db = update_tasks (is_task (task_id t)) (flushed_row (requeued_row err now d t)) db" for d
    by (rule same) (simp add: flushed_row_def requeued_row_def failed_row_def)
  ultimately show ?thesis using Some by (simp add: fail_def fail_read_def fail_write_def cong: if_cong sum.case_cong)
qed (simp add: fail_def fail_read_def)

text \<open>
  C6: a late failure report breaks another worker's lease. A worker whose report read the row while it held it, and writes after the lease
  has run out and another worker has claimed the task, is not told that it is late: its write puts the task back into the queue, or
  ends it, with the other worker's lease gone, whose next heartbeat is then refused. No guard is read again.
\<close>

theorem late_failure_breaks_a_lease:
  assumes "fail_read db l = Some t" and "claim q locked db1 w d now = (Some c, db2)" and "claimed_id c = lease_task l"
    and "fail_write t err later db2 = Inr (out, db3)"
  shows "out \<noteq> Lost \<and> (\<exists>u \<in> set (tasks db3). task_id u = claimed_id c \<and> leased_by u = [] \<and> task_status u \<in> {Queued, Dead})
    \<and> heartbeat q db3 (claimed_lease c) lease_for later' = (False, db3)"
  using assms(2)
proof (cases rule: claim_cases)
  case (some v e)
  have t: "task_id t = lease_task l" using assms(1) by (auto simp: fail_read_def held_def dest!: find_SomeD)
  then have v: "task_id v = task_id t" using some(1) assms(3) by (simp add: claimed_of_def)
  have written: "\<exists>f. out \<noteq> Lost \<and> db3 = snd (update_tasks (is_task (task_id t)) f db2)
      \<and> (\<forall>u. task_id (f u) = task_id u \<and> leased_by (f u) = [] \<and> task_status (f u) \<in> {Queued, Dead})"
    using assms(4) unfolding fail_write_def
    by (auto simp: flushed_row_def dead_row_def requeued_row_def failed_row_def split: if_split_asm sum.splits intro!: exI)
  then obtain f where f: "out \<noteq> Lost" "db3 = snd (update_tasks (is_task (task_id t)) f db2)"
      "\<And>u. task_id (f u) = task_id u" "\<And>u. leased_by (f u) = []" "\<And>u. task_status (f u) \<in> {Queued, Dead}" by blast
  have "take_lease w e now v \<in> set (tasks db2)" using some(4) by (force simp: some(7) update_tasks_simps fst_update_where is_task_def)
  then have "f (take_lease w e now v) \<in> set (tasks db3)"
    using v by (force simp: f(2) update_tasks_simps fst_update_where is_task_def take_lease_def)
  moreover have "task_id (f (take_lease w e now v)) = claimed_id c" using f(3) some(1) by (simp add: take_lease_def claimed_of_def)
  moreover have none: "\<not> held (claimed_lease c) [Leased, Running] u" if "u \<in> set (tasks db3)" for u
  proof -
    have "\<exists>x \<in> set (tasks db2). u = (if is_task (task_id t) x then f x else x)"
      using that unfolding f(2) update_tasks_simps fst_update_where by auto
    then obtain x where x: "u = (if is_task (task_id t) x then f x else x)" ..
    show ?thesis
    proof (cases "is_task (task_id t) x")
      case True
      then have "task_status u \<in> {Queued, Dead}" using x f(5) by simp
      then show ?thesis by (auto simp: held_def)
    next
      case False
      then show ?thesis using x v some(1) by (simp add: held_def is_task_def claimed_of_def)
    qed
  qed
  moreover have "heartbeat q db3 (claimed_lease c) lease_for later' = (False, db3)"
  proof -
    have "map (\<lambda>t. if held (claimed_lease c) [Leased, Running] t then g t else t) (tasks db3) = tasks db3" for g
      using none by (intro map_idI) auto
    moreover have "filter (held (claimed_lease c) [Leased, Running]) (tasks db3) = []" using none by (simp add: filter_empty_conv)
    ultimately show ?thesis by (simp add: heartbeat_def update_tasks_def update_where_def Let_def)
  qed
  ultimately show ?thesis using f(1,4,5) by blast
qed simp

subsection \<open>Concrete runs\<close>

text \<open>A repository with a runner of ceiling 1, and one task of it, queued and then leased.\<close>

abbreviation sample_queue :: agent_queue where
  "sample_queue \<equiv> \<lparr>queue_dialect = Sqlite, lease_seconds = seconds 60, heartbeat_seconds = seconds 15\<rparr>"

abbreviation sample_runner :: repo_runner where
  "sample_runner \<equiv> \<lparr>runner_id = 1, runner_repo = 7, runner_enabled = True, max_concurrency = 1\<rparr>"

abbreviation sample_request :: enqueue_request where
  "sample_request \<equiv> \<lparr>req_repo = 7, req_kind = ''review'', req_payload = None, req_priority = 0,
     req_max_attempts = 3, req_scheduled_at = None, req_dedup_key = Some '' a1 '', req_max_in_flight = None\<rparr>"

abbreviation sample_task :: agent_task where
  "sample_task \<equiv> \<lparr>task_id = 1, task_repo = 7, task_runner = Some 1, task_kind = ''review'',
     task_status = Queued, task_payload = [], leased_by = [], lease_until = None,
     scheduled_at = Some 0, attempts = 0, max_attempts = 3, dedup_key = Some ''a1'', priority = 0,
     result_ref = None, pr_url = None, task_error = None, created_at = 0, started_at = None,
     finished_at = None\<rparr>"

abbreviation sample_db :: "agent_task \<Rightarrow> queue_db" where
  "sample_db t \<equiv> \<lparr>tasks = [t], runners = [sample_runner], repos = [7], next_task_id = 2\<rparr>"

abbreviation sample_leased :: agent_task where
  "sample_leased \<equiv> take_lease ''w'' (seconds 60) 0 sample_task"

abbreviation sample_lease :: lease where
  "sample_lease \<equiv> \<lparr>lease_task = 1, lease_worker = ''w'', expires_at = seconds 60, lease_attempts = 0\<rparr>"

lemma sample_enqueue:
  "enqueue 0 (empty_queue [sample_runner] [7]) sample_request 0 0 = Inr (1, sample_db sample_task)"
  by (simp add: enqueue_def empty_queue_def TASK_KIND_def opt_str_def py_strip_def py_lstrip_def
      py_rstrip_def py_isspace_def Let_def enqueue_ceiling_def active_count_def new_task_def duplicate_of_def)

lemma sample_claim:
  "claim sample_queue [] (sample_db sample_task) ''w'' None 0
   = (Some (claimed_of sample_task ''w'' (seconds 60)), sample_db sample_leased)"
  by (simp add: claim_def claim_candidates_def claimable_def due_now_def runner_runnable_def
      runner_ceiling_available_def runner_ceiling_def in_flight_def RUNNING_TASK_STATUSES_def
      visible_to_def update_where_def is_task_def Let_def)

lemma sample_reachable:
  "queue_reachable sample_queue 0 [sample_runner] [7] (sample_db sample_leased)"
  using reach_step [OF reach_step [OF reach_start step_enqueue [OF sample_enqueue]] step_claim [OF sample_claim]] .

lemma sample_ok: "queue_ok (sample_db sample_task)" "queue_ok (sample_db sample_leased)"
  by (simp_all add: queue_ok_def ids_ok_def row_defs take_lease_def)

lemma sample_held: "find (held sample_lease [Leased, Running]) [sample_leased] = Some sample_leased"
  by (simp add: held_def take_lease_def)

theorem max_concurrency_respected_witness:
  "in_flight [sample_leased] 7 = 1 \<and> int (in_flight (tasks (sample_db sample_leased)) 7) \<le> 1"
  using max_concurrency_respected [OF sample_reachable, of sample_runner]
  by (simp add: in_flight_def RUNNING_TASK_STATUSES_def take_lease_def)

theorem reachable_rows_consistent_witness:
  "lease_until sample_leased = Some (seconds 60) \<and> int (attempts sample_leased) < 3"
  using reachable_rows_consistent [OF sample_reachable, of sample_leased]
  by (simp add: take_lease_def)

theorem claim_voids_other_leases_witness:
  "fail (sample_db sample_leased) \<lparr>lease_task = 1, lease_worker = ''v'', expires_at = 0, lease_attempts = 0\<rparr>
     ''boom'' 5 = Inr (Lost, sample_db sample_leased)"
  using claim_voids_other_leases [OF sample_ok(1) sample_claim,
      where l = "\<lparr>lease_task = 1, lease_worker = ''v'', expires_at = 0, lease_attempts = 0\<rparr>"
        and err = "''boom''" and later = 5]
  by (simp add: claimed_of_def)

theorem claim_takes_the_best_witness:
  "(case claim sample_queue [] (sample_db sample_task) ''w'' None 0 of
      (None, db') \<Rightarrow> False | (Some c, db') \<Rightarrow> claimed_id c = 1 \<and> tasks db' = [sample_leased])"
  using claim_takes_the_best [OF sample_ok(1), where q = sample_queue and locked = "[]" and w = "''w''"
      and d = None and now = 0]
  unfolding sample_claim by (simp add: claimed_of_def)

theorem reclaim_is_complete_witness:
  "tasks (snd (reclaim_expired sample_queue [] (sample_db sample_leased) (seconds 61)))
     = [reclaimed_row (seconds 61) sample_leased]
   \<and> task_status (reclaimed_row (seconds 61) sample_leased) = Queued"
  using reclaim_is_complete [of sample_queue "[]" "sample_db sample_leased" "seconds 61"
      "fst (reclaim_expired sample_queue [] (sample_db sample_leased) (seconds 61))"
      "snd (reclaim_expired sample_queue [] (sample_db sample_leased) (seconds 61))"]
  by (simp add: lease_expired_def take_lease_def)


theorem retry_delay_witness:
  "\<exists>db'. fail (sample_db sample_leased) sample_lease ''boom'' 0 = Inr (Requeued, db')
     \<and> (\<exists>u \<in> set (tasks db'). scheduled_at u = Some (seconds 30))"
  using retry_delay [OF sample_ok(2), of sample_lease sample_leased "''boom''" 0] sample_held
  by (auto simp: take_lease_def)

theorem fail_overflows_witness:
  "fail (sample_db (sample_leased\<lparr>attempts := 1024, max_attempts := 2000\<rparr>)) sample_lease ''boom'' 0
   = Inl OverflowError"
  by (rule fail_overflows [of _ _ "sample_leased\<lparr>attempts := 1024, max_attempts := 2000\<rparr>"])
    (simp_all add: held_def take_lease_def)

theorem enqueue_throttles_witness:
  "enqueue 0 (sample_db sample_task) sample_request 3 4 = Inr (0, sample_db sample_task)"
proof -
  have "queue_ok (empty_queue [sample_runner] [7])" by (rule queue_ok_empty)
  from enqueue_throttles [OF this sample_enqueue, of sample_request 3 4] show ?thesis
    by (simp add: opt_str_def py_strip_def py_lstrip_def py_rstrip_def py_isspace_def)
qed

theorem cancel_stops_the_worker_witness:
  "fst (cancel (sample_db sample_leased) 1 ''stop'' 5)
   \<and> fst (heartbeat sample_queue (snd (cancel (sample_db sample_leased) 1 ''stop'' 5)) sample_lease None 6) = False"
proof -
  have "cancel (sample_db sample_leased) 1 ''stop'' 5 = (True, snd (cancel (sample_db sample_leased) 1 ''stop'' 5))"
    by (simp add: cancel_def update_tasks_def update_where_def Let_def cancellable_def is_task_def take_lease_def)
  from this cancel_stops_the_worker [OF sample_ok(2) this, of sample_lease] show ?thesis
    by (metis fst_conv lease.select_convs(1))
qed

abbreviation sample_again :: agent_task where
  "sample_again \<equiv> reclaimed_row (seconds 61) sample_leased"

lemma sample_claimed_again:
  "claim sample_queue [] (sample_db sample_again) ''v'' None (seconds 61)
   = (Some (claimed_of sample_again ''v'' (seconds 121)), sample_db (take_lease ''v'' (seconds 121) (seconds 61) sample_again))"
  by (simp add: claim_def claim_candidates_def claimable_def due_now_def runner_runnable_def reclaimed_row_def take_lease_def
      runner_ceiling_available_def runner_ceiling_def in_flight_def RUNNING_TASK_STATUSES_def
      visible_to_def update_where_def is_task_def Let_def)

theorem late_failure_breaks_a_lease_witness:
  "(case fail_write sample_leased ''boom'' (seconds 62) (sample_db (take_lease ''v'' (seconds 121) (seconds 61) sample_again)) of
      Inl e \<Rightarrow> False
    | Inr (out, db3) \<Rightarrow> heartbeat sample_queue db3 (claimed_lease (claimed_of sample_again ''v'' (seconds 121))) None (seconds 63) = (False, db3))"
proof -
  let ?db = "sample_db (take_lease ''v'' (seconds 121) (seconds 61) sample_again)"
  have got: "fail_read (sample_db sample_leased) sample_lease = Some sample_leased" using sample_held by (simp add: fail_read_def)
  obtain out db3 where flushed: "fail_write sample_leased ''boom'' (seconds 62) ?db = Inr (out, db3)"
    by (auto simp: fail_write_def backoff_def take_lease_def)
  have same: "claimed_id (claimed_of sample_again ''v'' (seconds 121)) = lease_task sample_lease"
    by (simp add: claimed_of_def reclaimed_row_def take_lease_def)
  show ?thesis using late_failure_breaks_a_lease [OF got sample_claimed_again same flushed] flushed by simp
qed

end
