(* ===== verification/TaskLife.thy ===== *)
theory TaskLife
  imports TaskQueueSteps
begin

section \<open>The life of a task\<close>

text \<open>
  What the operations of the queue, whoever calls them and in whatever order, make of one row. A worker's handler also writes the
  pull request it opened into the row (\<open>link_tasks\<close>), which no operation of the queue reads.
\<close>

definition link_tasks :: "(agent_task \<Rightarrow> string option) \<Rightarrow> queue_db \<Rightarrow> queue_db" where
  "link_tasks f db = db\<lparr>tasks := map (\<lambda>t. t\<lparr>pr_url := f t\<rparr>) (tasks db)\<rparr>"

lemma queue_ok_link: "queue_ok db \<Longrightarrow> queue_ok (link_tasks f db)"
  by (simp add: link_tasks_def queue_ok_def ids_ok_def row_defs list_all_iff comp_def)

definition queue_move :: "agent_queue \<Rightarrow> int \<Rightarrow> queue_db \<Rightarrow> queue_db \<Rightarrow> bool" where
  "queue_move q setting db db' \<longleftrightarrow> queue_step q setting db db' \<or> (\<exists>f. db' = link_tasks f db)"

lemma queue_move_ok: "queue_move q setting db db' \<Longrightarrow> queue_ok db \<Longrightarrow> queue_ok db'"
  unfolding queue_move_def using step_keeps_ok queue_ok_link by blast

text \<open>The arcs: kept, claimed, started, failed or reclaimed, done, cancelled, brought back by an operator.\<close>

definition row_step :: "agent_task \<Rightarrow> agent_task \<Rightarrow> bool" where
  "row_step t t' \<longleftrightarrow> task_id t' = task_id t \<and> task_kind t' = task_kind t \<and> max_attempts t' = max_attempts t
     \<and> (task_status t' = task_status t \<and> attempts t' = attempts t
      \<or> task_status t = Queued \<and> task_status t' = Leased \<and> attempts t' = attempts t
      \<or> task_status t = Leased \<and> task_status t' = Running \<and> attempts t' = attempts t
      \<or> task_status t \<in> {Leased, Running} \<and> task_status t' \<in> {Queued, Dead} \<and> attempts t' = attempts t + 1
      \<or> task_status t \<in> {Leased, Running} \<and> task_status t' = Done \<and> attempts t' = attempts t
      \<or> task_status t \<in> {Queued, Leased, Running} \<and> task_status t' = Dead \<and> attempts t' = attempts t
      \<or> task_status t \<in> {Failed, Dead} \<and> task_status t' = Queued \<and> attempts t' = 0)"

lemma row_step_same: "row_step t t"
  by (simp add: row_step_def)

lemma updated_row:
  assumes "t \<in> set (tasks db)" and "p t \<Longrightarrow> row_step t (f t)"
  shows "\<exists>t' \<in> set (tasks (snd (update_tasks p f db))). row_step t t'"
  unfolding update_tasks_simps fst_update_where using assms row_step_same
  by (intro bexI [of _ "if p t then f t else t"]) auto

lemma updated_only_row:
  assumes "queue_ok db" and "t \<in> set (tasks db)" and "u \<in> set (tasks db)" and "row_step u (f u)"
  shows "\<exists>t' \<in> set (tasks (snd (update_tasks (is_task (task_id u)) f db))). row_step t t'"
proof (rule updated_row [OF assms(2)])
  assume "is_task (task_id u) t"
  then have "t = u" using queue_ok_same_id [OF assms(1,2,3)] by (simp add: is_task_def)
  then show "row_step t (f t)" using assms(4) by simp
qed

lemma move_rows:
  assumes "queue_move q setting db db'" and "queue_ok db" and "t \<in> set (tasks db)"
  shows "\<exists>t' \<in> set (tasks db'). row_step t t'"
proof (cases "\<exists>f. db' = link_tasks f db")
  case True
  then obtain f where "db' = link_tasks f db" ..
  then have "t\<lparr>pr_url := f t\<rparr> \<in> set (tasks db')" using assms(3) by (simp add: link_tasks_def)
  then show ?thesis by (rule bexI [rotated]) (simp add: row_step_def)
next
  case False
  then have "queue_step q setting db db'" using assms(1) by (simp add: queue_move_def)
  then show ?thesis
  proof (cases rule: queue_step.cases)
    case (step_enqueue r now created i)
    then show ?thesis by (cases rule: enqueue_cases) (use assms(3) row_step_same in auto)
  next
    case (step_claim locked w d now res)
    then show ?thesis
    proof (cases rule: claim_cases)
      case none
      then show ?thesis using assms(3) row_step_same by auto
    next
      case (some u e)
      then show ?thesis using updated_only_row [OF assms(2,3) some(4), of "take_lease w e now"]
        by (simp add: row_step_def claimable_def take_lease_def)
    qed
  next
    case (step_run l now b)
    then have "db' = snd (update_tasks (held l [Leased]) (moved Running False now) db)" by (auto simp: operation_defs dest: arg_cong [of _ _ snd])
    then show ?thesis using updated_row [OF assms(3), of "held l [Leased]" "moved Running False now"]
      by (simp add: row_step_def held_def moved_def)
  next
    case (step_beat l d now b)
    define until where "until = now + (case d of None \<Rightarrow> lease_seconds q | Some d \<Rightarrow> d)"
    have "db' = snd (update_tasks (held l [Leased, Running]) (renewed until) db)"
      using step_beat by (auto simp: operation_defs until_def dest: arg_cong [of _ _ snd])
    then show ?thesis using updated_row [OF assms(3), of "held l [Leased, Running]" "renewed until"]
      by (simp add: row_step_def held_def renewed_def)
  next
    case (step_succeed l ref now b)
    then have "db' = snd (update_tasks (held l [Leased, Running]) (finished Done ref None now) db)" by (auto simp: operation_defs dest: arg_cong [of _ _ snd])
    then show ?thesis using updated_row [OF assms(3), of "held l [Leased, Running]" "finished Done ref None now"]
      by (auto simp: row_step_def held_def finished_def)
  next
    case (step_fail l err now out)
    then show ?thesis
    proof (cases rule: fail_cases)
      case lost
      then show ?thesis using assms(3) row_step_same by auto
    next
      case (dead u)
      then have "u \<in> set (tasks db)" "held l [Leased, Running] u" by (auto dest: find_SomeD)
      then show ?thesis using dead updated_only_row [OF assms(2,3), of u "dead_row err now"]
        by (simp add: row_step_def dead_row_def failed_row_def held_def)
    next
      case (requeued u d)
      then have "u \<in> set (tasks db)" "held l [Leased, Running] u" by (auto dest: find_SomeD)
      then show ?thesis using requeued updated_only_row [OF assms(2,3), of u "requeued_row err now d"]
        by (simp add: row_step_def requeued_row_def failed_row_def held_def)
    qed
  next
    case (step_reclaim locked moment rep)
    then have "db' = snd (update_tasks (abandoned q locked moment) (reclaimed_row moment) db)" by (metis reclaim_eq snd_conv)
    then show ?thesis using updated_row [OF assms(3), of "abandoned q locked moment" "reclaimed_row moment"]
      by (auto simp: row_step_def abandoned_def lease_expired_def reclaimed_row_def Let_def)
  next
    case (step_retry i reason now b)
    then have "db' = snd (update_tasks (retryable i) (retried_row reason now) db)" by (auto simp: operation_defs dest: arg_cong [of _ _ snd])
    then show ?thesis using updated_row [OF assms(3), of "retryable i" "retried_row reason now"]
      by (auto simp: row_step_def retryable_def retried_row_def)
  next
    case (step_cancel i reason now b)
    then have "db' = snd (update_tasks (cancellable i) (cancelled_row reason now) db)" by (auto simp: operation_defs dest: arg_cong [of _ _ snd])
    then show ?thesis using updated_row [OF assms(3), of "cancellable i" "cancelled_row reason now"]
      by (auto simp: row_step_def cancellable_def cancelled_row_def)
  qed
qed

subsection \<open>Over a history\<close>

lemma moves_ok: "(queue_move q setting)\<^sup>*\<^sup>* db db' \<Longrightarrow> queue_ok db \<Longrightarrow> queue_ok db'"
  by (induction rule: rtranclp_induct) (auto intro: queue_move_ok)

lemma moves_rows:
  assumes "(queue_move q setting)\<^sup>*\<^sup>* db db'" and "queue_ok db" and "t \<in> set (tasks db)"
  shows "\<exists>t' \<in> set (tasks db'). task_id t' = task_id t \<and> max_attempts t' = max_attempts t"
  using assms
proof (induction rule: rtranclp_induct)
  case (step db1 db2)
  then obtain u where "u \<in> set (tasks db1)" "task_id u = task_id t" "max_attempts u = max_attempts t" by auto
  moreover from this(1) obtain v where "v \<in> set (tasks db2)" "row_step u v"
    using move_rows [OF step.hyps(2) moves_ok [OF step.hyps(1) step.prems(1)]] by blast
  ultimately show ?case by (auto simp: row_step_def)
qed auto

text \<open>A move that does not put a failed or dead task back into the queue.\<close>

definition brought_back :: "int \<Rightarrow> queue_db \<Rightarrow> queue_db \<Rightarrow> bool" where
  "brought_back i db db' \<longleftrightarrow> list_ex (\<lambda>t. task_id t = i \<and> task_status t \<in> {Failed, Dead}
     \<and> list_ex (\<lambda>t'. task_id t' = i \<and> task_status t' = Queued) (tasks db')) (tasks db)"

definition unretried_move :: "agent_queue \<Rightarrow> int \<Rightarrow> int \<Rightarrow> queue_db \<Rightarrow> queue_db \<Rightarrow> bool" where
  "unretried_move q setting i db db' \<longleftrightarrow> queue_move q setting db db' \<and> \<not> brought_back i db db'"

lemma attempts_grow:
  assumes "(unretried_move q setting i)\<^sup>*\<^sup>* db db'" and "queue_ok db" and "t \<in> set (tasks db)" and "task_id t = i" and "task_status t \<noteq> Queued"
  shows "queue_ok db' \<and> (\<exists>t' \<in> set (tasks db'). task_id t' = i \<and> attempts t \<le> attempts t' \<and> (task_status t' = Queued \<longrightarrow> attempts t < attempts t'))"
  using assms
proof (induction rule: rtranclp_induct)
  case (step db1 db2)
  then obtain u where u: "queue_ok db1" "u \<in> set (tasks db1)" "task_id u = i" "attempts t \<le> attempts u" "task_status u = Queued \<longrightarrow> attempts t < attempts u"
    by auto
  obtain v where v: "v \<in> set (tasks db2)" "row_step u v"
    using move_rows [OF _ u(1,2), of q setting db2] step.hyps(2) unfolding unretried_move_def by blast
  have "queue_ok db2" using step.hyps(2) u(1) queue_move_ok by (auto simp: unretried_move_def)
  moreover have "\<not> (task_status u \<in> {Failed, Dead} \<and> task_status v = Queued)"
    using step.hyps(2) u(2,3) v by (auto simp: unretried_move_def brought_back_def list_ex_iff row_step_def)
  then have "attempts t \<le> attempts v \<and> (task_status v = Queued \<longrightarrow> attempts t < attempts v)"
    using v(2) u(4,5) by (auto simp: row_step_def)
  moreover have "task_id v = i" using v(2) u(3) by (simp add: row_step_def)
  ultimately show ?case using v(1) by blast
qed auto


lemma claim_after_claim:
  assumes "queue_ok db" and "claim q locked db w d now = (Some c, db1)" and "(unretried_move q setting (claimed_id c))\<^sup>*\<^sup>* db1 db2"
    and "claim q locked' db2 w' d' now' = (Some c', db3)" and "claimed_id c' = claimed_id c"
  shows "claimed_attempts c < claimed_attempts c'"
  using assms(2)
proof (cases rule: claim_cases)
  case (some t e)
  let ?u = "take_lease w e now t"
  have ok: "queue_ok db1" by (rule claim_keeps(1) [OF assms(2,1)])
  have "?u \<in> set (tasks db1)"
    using some(4) by (force simp: some(7) update_tasks_simps fst_update_where is_task_def)
  from attempts_grow [OF assms(3) ok this] obtain v where v: "queue_ok db2" "v \<in> set (tasks db2)" "task_id v = task_id t"
      "task_status v = Queued \<longrightarrow> attempts t < attempts v"
    using some(1) by (auto simp: claimed_of_def take_lease_def)
  from assms(4) show ?thesis
  proof (cases rule: claim_cases)
    case more: (some t' e')
    have "task_id t' = task_id v" using more(1) some(1) assms(5) v(3) by (simp add: claimed_of_def)
    then have "t' = v" by (rule queue_ok_same_id [OF v(1) more(4) v(2)])
    then show ?thesis using v(4) more(1,5) some(1) by (simp add: claimable_def claimed_of_def)
  qed simp
qed simp

lemma claim_after_retry:
  assumes "queue_ok db" and "retry db i reason at_retry = (True, db1)"
    and "claim q locked db1 w d now = (Some c, db2)" and "claimed_id c = i"
  shows "claimed_attempts c = 0"
  using assms(3)
proof (cases rule: claim_cases)
  case (some t e)
  have db1: "tasks db1 = map (\<lambda>t. if retryable i t then retried_row reason at_retry t else t) (tasks db)"
    and hit: "\<exists>t \<in> set (tasks db). retryable i t"
    using assms(2) by (auto simp: retry_def update_tasks_def update_where_def Let_def list_ex_iff filter_empty_conv)
  obtain u where u: "u \<in> set (tasks db)" "t = (if retryable i u then retried_row reason at_retry u else u)"
    using some(4) db1 by auto
  have "task_id u = i" using u(2) some(1) assms(4) by (auto simp: claimed_of_def retried_row_def split: if_split_asm)
  then have "retryable i u" using hit queue_ok_same_id [OF assms(1) _ u(1)] by (auto simp: retryable_def is_task_def)
  then show ?thesis using u(2) some(1) by (simp add: claimed_of_def retried_row_def)
qed simp

end
