(* ===== verification/QueueWorker.thy ===== *)
theory QueueWorker
  imports TaskQueueProps TaskLife
begin

section \<open>The queue worker\<close>

text \<open>
  The \<open>Worker\<close> of \<open>backend/services/agent_queue.py\<close>: one cycle reclaims, claims, runs the
  injected handler and settles the task; the loop repeats it. A handler is a function of the
  claimed task and the database: what it answers, and the database as it and every other process
  leave it when it returns (the worker's own heartbeats are among these writes). Each clock
  reading of a cycle is a field of \<open>cycle\<close>. A loop runs over the cycles that happen before it
  is interrupted.
\<close>

datatype handler_result = Returned "string option" | Raised string string

type_synonym task_handler = "claimed_task \<Rightarrow> queue_db \<Rightarrow> handler_result \<times> queue_db"

definition placeholder_handler :: task_handler where
  "placeholder_handler c db = (Returned (Some (''placeholder:'' @ str_of_int (claimed_id c))), db)"

record cycle =
  at_reclaim :: timestamp
  at_claim :: timestamp
  at_run :: timestamp
  at_settle :: timestamp
  locked_rows :: "int list"

record worker =
  worker_queue :: agent_queue
  worker_handler :: task_handler
  worker_name :: string
  poll_interval :: timestamp

text \<open>
  \<open>build_worker\<close>: an injected handler wins, else the factory's; without a factory it is
  \<open>default_handler\<close>, the sandbox runner, which is the argument \<open>sandbox\<close> here.
\<close>

definition build_worker :: "(agent_queue \<Rightarrow> task_handler) \<Rightarrow> agent_queue \<Rightarrow> task_handler option
    \<Rightarrow> (agent_queue \<Rightarrow> task_handler) option \<Rightarrow> string \<Rightarrow> timestamp \<Rightarrow> worker" where
  "build_worker sandbox q handler factory name poll =
     \<lparr>worker_queue = q,
      worker_handler = (case handler of Some h \<Rightarrow> h
        | None \<Rightarrow> (case factory of Some f \<Rightarrow> f q | None \<Rightarrow> sandbox q)),
      worker_name = name, poll_interval = poll\<rparr>"

definition settle_task :: "queue_db \<Rightarrow> lease \<Rightarrow> handler_result \<Rightarrow> timestamp \<Rightarrow> queue_error + queue_db" where
  "settle_task db l res now =
     (case res of
        Raised name msg \<Rightarrow>
          (case fail db l (name @ '': '' @ msg) now of Inl e \<Rightarrow> Inl e | Inr (out, db') \<Rightarrow> Inr db')
      | Returned ref \<Rightarrow> Inr (snd (succeed db l ref now)))"

definition run_once :: "worker \<Rightarrow> cycle \<Rightarrow> queue_db \<Rightarrow> queue_error + bool \<times> queue_db" where
  "run_once wk c db =
     (let db1 = snd (reclaim_expired (worker_queue wk) (locked_rows c) db (at_reclaim c))
      in case claim (worker_queue wk) (locked_rows c) db1 (worker_name wk) None (at_claim c) of
           (None, db2) \<Rightarrow> Inr (False, db2)
         | (Some task, db2) \<Rightarrow>
             (let db3 = snd (mark_running db2 (claimed_lease task) (at_run c));
                  res = worker_handler wk task db3
              in case settle_task (snd res) (claimed_lease task) (fst res) (at_settle c) of
                   Inl e \<Rightarrow> Inl e
                 | Inr db4 \<Rightarrow> Inr (True, db4)))"

record loop_state =
  settled :: int
  idle_cycles :: nat
  last_dead :: int

definition dead_every :: "timestamp \<Rightarrow> nat" where
  "dead_every poll = nat (max 1 (seconds 60 div max 100000 poll))"

definition dead_count :: "queue_db \<Rightarrow> timestamp \<Rightarrow> int" where
  "dead_count db now = (case map_of (by_status (stats db now)) Dead of None \<Rightarrow> 0 | Some n \<Rightarrow> int n)"

fun run_loop :: "worker \<Rightarrow> int option \<Rightarrow> cycle list \<Rightarrow> loop_state \<Rightarrow> queue_db
    \<Rightarrow> queue_error + loop_state \<times> queue_db" where
  "run_loop wk stop [] st db = Inr (st, db)"
| "run_loop wk stop (c # cs) st db =
     (if (case stop of None \<Rightarrow> False | Some n \<Rightarrow> settled st \<ge> n) then Inr (st, db)
      else case run_once wk c db of
        Inl e \<Rightarrow> Inl e
      | Inr (True, db') \<Rightarrow> run_loop wk stop cs (st\<lparr>settled := settled st + 1\<rparr>) db'
      | Inr (False, db') \<Rightarrow>
          (let idle = idle_cycles st + 1
           in run_loop wk stop cs
                (st\<lparr>idle_cycles := idle,
                   last_dead := (if idle mod dead_every (poll_interval wk) = 0
                                 then dead_count db' (at_settle c) else last_dead st)\<rparr>) db'))"

definition loop_start :: loop_state where
  "loop_start = \<lparr>settled = 0, idle_cycles = 0, last_dead = -1\<rparr>"

subsection \<open>Handlers beside other users of the queue\<close>

text \<open>
  While a handler works, the queue moves on: the worker's own heartbeats, other workers and their claims, sweeps that reclaim, producers,
  and operators who cancel or retry, also this very task. The contract of a handler is that what it leaves of the queue is what any number of
  such moves, and its own link of a pull request, make of it.
\<close>

locale shared_handler =
  fixes queue :: agent_queue and setting :: int and handler :: task_handler
  assumes moves: "(queue_move queue setting)\<^sup>*\<^sup>* db (snd (handler c db))"
begin

lemma keeps_ok: "queue_ok db \<Longrightarrow> queue_ok (snd (handler c db))"
  by (rule moves_ok [OF moves])

lemma keeps_budget:
  assumes "queue_ok db" and "t \<in> set (tasks db)" and "u \<in> set (tasks (snd (handler c db)))" and "task_id u = task_id t"
  shows "max_attempts u = max_attempts t"
proof -
  obtain v where v: "v \<in> set (tasks (snd (handler c db)))" "task_id v = task_id t" "max_attempts v = max_attempts t"
    using moves_rows [OF moves assms(1,2)] by blast
  have "v = u" by (rule queue_ok_same_id [OF keeps_ok [OF assms(1)] v(1) assms(3)]) (simp add: v(2) assms(4))
  then show ?thesis using v(3) by simp
qed

end

interpretation placeholder: shared_handler queue setting placeholder_handler for queue setting
  by unfold_locales (simp add: placeholder_handler_def)

text \<open>A row the worker holds, after settlement.\<close>

definition settled_row :: "handler_result \<Rightarrow> timestamp \<Rightarrow> agent_task \<Rightarrow> agent_task \<Rightarrow> bool" where
  "settled_row res now was post \<longleftrightarrow>
     (case res of
        Returned ref \<Rightarrow> post = finished Done ref None now was
      | Raised name msg \<Rightarrow>
          attempts post = attempts was + 1 \<and> task_error post = Some (take 2000 (name @ '': '' @ msg))
          \<and> task_id post = task_id was \<and> leased_by post = '''' \<and> lease_until post = None \<and> finished_at post = Some now
          \<and> task_status post = (if int (attempts was + 1) < max_attempts was then Queued else Dead))"

lemma held_unique:
  assumes "queue_ok db" and "t \<in> set (tasks db)" and "held l S t"
  shows "find (held l S) (tasks db) = Some t"
    and "update_tasks (held l S) f db = update_tasks (is_task (task_id t)) f db"
proof -
  have eq: "held l S u \<longleftrightarrow> u = t" if "u \<in> set (tasks db)" for u
    using assms that queue_ok_same_id [OF assms(1) that assms(2)] by (auto simp: held_def)
  have eq2: "is_task (task_id t) u \<longleftrightarrow> u = t" if "u \<in> set (tasks db)" for u
    using assms(2) that queue_ok_distinct [OF assms(1)]
    by (auto simp: is_task_def distinct_map dest: inj_onD)
  have "find (held l S) (tasks db) = find (\<lambda>u. u = t) (tasks db)"
    using eq by (auto cong: find_cong)
  also have "\<dots> = Some t"
    using assms(2) by (rule find_eq)
  finally show "find (held l S) (tasks db) = Some t" .
  show "update_tasks (held l S) f db = update_tasks (is_task (task_id t)) f db"
    using eq eq2 by (simp add: update_tasks_def update_where_def cong: map_cong filter_cong)
qed

lemma settle_held:
  assumes "queue_ok db" and "t \<in> set (tasks db)" and "held l [Leased, Running] t"
    and "max_attempts t \<le> 1024"
  shows "\<exists>db' u. settle_task db l res now = Inr db' \<and> settled_row res now t u
    \<and> tasks db' = map (\<lambda>v. if v = t then u else v) (tasks db)"
proof -
  have only: "tasks (snd (update_tasks (is_task (task_id t)) f db)) = map (\<lambda>u. if u = t then f t else u) (tasks db)" for f
    using queue_ok_distinct [OF assms(1)] assms(2)
    by (auto simp: update_tasks_simps fst_update_where is_task_def distinct_map dest: inj_onD)
  note found = held_unique(1) [OF assms(1-3)]
  show ?thesis
  proof (cases res)
    case (Returned ref)
    then show ?thesis
      using held_unique(2) [OF assms(1-3), of "finished Done ref None now"] only
      by (intro exI [of _ "snd (succeed db l ref now)"] exI [of _ "finished Done ref None now t"])
        (simp add: settle_task_def succeed_def finish_def settled_row_def)
  next
    case (Raised name msg)
    let ?err = "name @ '': '' @ msg"
    show ?thesis
    proof (cases "int (attempts t + 1) \<ge> max_attempts t")
      case True
      then have "fail db l ?err now = Inr (DeadLettered, snd (update_tasks (is_task (task_id t)) (dead_row ?err now) db))"
        by (simp add: fail_def found)
      with Raised True only show ?thesis
        by (intro exI [of _ "snd (update_tasks (is_task (task_id t)) (dead_row ?err now) db)"]
            exI [of _ "dead_row ?err now t"])
          (simp add: settle_task_def settled_row_def dead_row_def failed_row_def)
    next
      case False
      obtain d where "backoff (attempts t + 1) = Inr d"
        using False assms(4) by (simp add: backoff_def)
      with False have "fail db l ?err now
          = Inr (Requeued, snd (update_tasks (is_task (task_id t)) (requeued_row ?err now d) db))"
        by (simp add: fail_def found)
      with Raised False only show ?thesis
        by (intro exI [of _ "snd (update_tasks (is_task (task_id t)) (requeued_row ?err now d) db)"]
            exI [of _ "requeued_row ?err now d t"])
          (simp add: settle_task_def settled_row_def requeued_row_def failed_row_def)
    qed
  qed
qed

lemma settle_lost:
  assumes "find (held l [Leased, Running]) (tasks db) = None"
  shows "settle_task db l res now = Inr db"
proof -
  have "map (\<lambda>t. if held l [Leased, Running] t then f t else t) (tasks db) = tasks db" for f
    using assms by (intro map_idI) (auto simp: find_None_iff)
  then show ?thesis using assms
    by (cases res) (simp_all add: settle_task_def succeed_def finish_def fail_def update_tasks_simps fst_update_where)
qed

lemma mark_after_claim:
  assumes "queue_ok db" and "claim q locked db w None now = (Some task, db2)"
  obtains t where "t \<in> set (tasks db)" "task_id t = claimed_id task"
    "queue_ok (snd (mark_running db2 (claimed_lease task) now2))"
    "(take_lease w (expires_at (claimed_lease task)) now t)\<lparr>task_status := Running\<rparr>
      \<in> set (tasks (snd (mark_running db2 (claimed_lease task) now2)))"
    "lease_task (claimed_lease task) = task_id t" "lease_worker (claimed_lease task) = w"
  using assms(2)
proof (cases rule: claim_cases)
  case (some t e)
  let ?u = "take_lease w e now t"
  have "queue_ok db2" by (rule claim_keeps(1) [OF assms(2,1)])
  then have ok: "queue_ok (snd (mark_running db2 (claimed_lease task) now2))"
    by (simp add: operation_defs run.queue_ok_update)
  have "?u \<in> set (tasks db2)"
    using some(4) by (force simp: some(7) update_tasks_simps fst_update_where is_task_def)
  moreover have "held (claimed_lease task) [Leased] ?u"
    using some(1) by (simp add: held_def claimed_of_def take_lease_def)
  ultimately have "?u\<lparr>task_status := Running\<rparr> \<in> set (tasks (snd (mark_running db2 (claimed_lease task) now2)))"
    by (force simp: operation_defs update_tasks_simps fst_update_where moved_def)
  with some ok that [of t] show ?thesis by (simp add: claimed_of_def)
qed simp

text \<open>What a settled task looks like to an operator.\<close>

definition settled_as :: "handler_result \<Rightarrow> timestamp \<Rightarrow> agent_task \<Rightarrow> bool" where
  "settled_as res now t \<longleftrightarrow> leased_by t = '''' \<and> lease_until t = None \<and> finished_at t = Some now
     \<and> (case res of Returned ref \<Rightarrow> task_status t = Done \<and> result_ref t = ref
        | Raised name msg \<Rightarrow> task_status t \<in> {Queued, Dead}
            \<and> task_error t = Some (take 2000 (name @ '': '' @ msg)))"

lemma settled_rowD: "settled_row res now t u \<Longrightarrow> task_id u = task_id t \<and> settled_as res now u"
  by (auto simp: settled_row_def settled_as_def finished_def split: handler_result.splits)

text \<open>The lease as the queue has it after a handler, and what settling makes of that: only the row still held changes.\<close>

definition settled_from :: "lease \<Rightarrow> handler_result \<Rightarrow> timestamp \<Rightarrow> queue_db \<Rightarrow> queue_db \<Rightarrow> bool" where
  "settled_from l res now db db' \<longleftrightarrow>
     (case find (held l [Leased, Running]) (tasks db) of
        None \<Rightarrow> db' = db
      | Some was \<Rightarrow> \<exists>t. task_id t = lease_task l \<and> settled_as res now t \<and> tasks db' = map (\<lambda>v. if v = was then t else v) (tasks db))"

lemma cycle_settles:
  assumes "queue_ok db" and "shared_handler q setting (worker_handler wk)"
    and "\<forall>t \<in> set (tasks db). max_attempts t \<le> 1024"
  shows "(let db1 = snd (reclaim_expired (worker_queue wk) (locked_rows c) db (at_reclaim c))
    in case claim (worker_queue wk) (locked_rows c) db1 (worker_name wk) None (at_claim c) of
      (None, db2) \<Rightarrow> run_once wk c db = Inr (False, db1)
    | (Some task, db2) \<Rightarrow>
        (case worker_handler wk task (snd (mark_running db2 (claimed_lease task) (at_run c))) of
           (res, after) \<Rightarrow> \<exists>db'. run_once wk c db = Inr (True, db') \<and> settled_from (claimed_lease task) res (at_settle c) after db'))"
proof -
  define db1 where "db1 = snd (reclaim_expired (worker_queue wk) (locked_rows c) db (at_reclaim c))"
  have ok1: "queue_ok db1"
    unfolding db1_def reclaim_eq by (rule reclaiming.queue_ok_update [OF assms(1)])
  have few: "max_attempts t \<le> 1024" if "t \<in> set (tasks db1)" for t
    using that assms(3) unfolding db1_def reclaim_eq update_tasks_simps fst_update_where
    by (auto simp: reclaimed_row_def Let_def split: if_splits)
  show ?thesis
  proof (cases "claim (worker_queue wk) (locked_rows c) db1 (worker_name wk) None (at_claim c)")
    case (Pair res db2)
    show ?thesis
    proof (cases res)
      case None
      with Pair have "db2 = db1" by (auto elim: claim_cases)
      with Pair None show ?thesis by (simp add: run_once_def db1_def [symmetric])
    next
      case (Some task)
      define db3 where "db3 = snd (mark_running db2 (claimed_lease task) (at_run c))"
      obtain t where t: "t \<in> set (tasks db1)" "task_id t = claimed_id task" and ok3: "queue_ok db3"
        and mem: "(take_lease (worker_name wk) (expires_at (claimed_lease task)) (at_claim c) t)\<lparr>task_status := Running\<rparr>
          \<in> set (tasks db3)" (is "?u \<in> _")
        and l: "lease_task (claimed_lease task) = task_id t" "lease_worker (claimed_lease task) = worker_name wk"
        using mark_after_claim [OF ok1 Pair [unfolded Some], of "at_run c"] unfolding db3_def by metis
      obtain r after where handled: "worker_handler wk task db3 = (r, after)" by fastforce
      have ok4: "queue_ok after" using shared_handler.keeps_ok [OF assms(2) ok3, of task] handled by simp
      have "\<exists>db'. settle_task after (claimed_lease task) r (at_settle c) = Inr db' \<and> settled_from (claimed_lease task) r (at_settle c) after db'"
      proof (cases "find (held (claimed_lease task) [Leased, Running]) (tasks after)")
        case None
        then show ?thesis using settle_lost [OF None] by (simp add: settled_from_def)
      next
        case (Some was)
        then have was: "was \<in> set (tasks after)" "held (claimed_lease task) [Leased, Running] was" by (auto dest: find_SomeD)
        have "max_attempts was = max_attempts t"
          using shared_handler.keeps_budget [OF assms(2) ok3 mem, of was task] was handled l by (simp add: held_def take_lease_def)
        then have "max_attempts was \<le> 1024" using few [OF t(1)] by simp
        from settle_held [OF ok4 was this] show ?thesis
          using settled_rowD was(2) unfolding settled_from_def Some by (fastforce simp: held_def)
      qed
      then obtain db4 where "settle_task after (claimed_lease task) r (at_settle c) = Inr db4"
          "settled_from (claimed_lease task) r (at_settle c) after db4" by blast
      then show ?thesis using handled
        unfolding db1_def [symmetric] Let_def Pair Some prod.case option.case db3_def [symmetric]
        by (simp add: run_once_def db1_def [symmetric] Pair Some db3_def [symmetric] Let_def)
    qed
  qed
qed

text \<open>
  the loop stops after the requested number of tasks: started with a limit it never settles
  more, however many cycles it is given, and it settles at most one task per cycle.
\<close>

theorem run_loop_respects_limit:
  assumes "run_loop wk (Some n) cs loop_start db = Inr (st, db')" and "0 \<le> n"
  shows "0 \<le> settled st \<and> settled st \<le> n \<and> settled st \<le> int (length cs)"
proof -
  have "settled s0 \<le> settled st \<and> (settled s0 \<le> n \<longrightarrow> settled st \<le> n) \<and> settled st \<le> settled s0 + int (length cs)"
    if "run_loop wk (Some n) cs s0 d0 = Inr (st, db')" for s0 d0
    using that
  proof (induction cs arbitrary: s0 d0)
    case (Cons c cs)
    show ?case
    proof (cases "settled s0 \<ge> n")
      case True
      with Cons.prems show ?thesis by simp
    next
      case False
      with Cons.prems obtain did d1 where once: "run_once wk c d0 = Inr (did, d1)"
        by (auto split: sum.splits)
      show ?thesis
        using Cons.IH Cons.prems False once by (cases did) (fastforce simp: Let_def)+
    qed
  qed simp
  from this [OF assms(1)] assms(2) show ?thesis by (simp add: loop_start_def)
qed

subsection \<open>Concrete cycles\<close>

abbreviation sample_worker :: worker where
  "sample_worker \<equiv> \<lparr>worker_queue = sample_queue, worker_handler = placeholder_handler,
     worker_name = ''w'', poll_interval = seconds 2\<rparr>"

abbreviation sample_cycle :: cycle where
  "sample_cycle \<equiv> \<lparr>at_reclaim = 0, at_claim = 0, at_run = 1, at_settle = 2, locked_rows = []\<rparr>"

lemma sample_reclaim_nothing:
  "reclaim_expired sample_queue [] (sample_db sample_task) 0 = ([], sample_db sample_task)"
  by (simp add: reclaim_expired_def abandoned_def lease_expired_def update_tasks_def update_where_def Let_def)

theorem run_loop_respects_limit_witness:
  "\<exists>st db'. run_loop sample_worker (Some 0) [sample_cycle] loop_start (sample_db sample_task) = Inr (st, db')
    \<and> settled st \<le> 0"
  using run_loop_respects_limit [of sample_worker 0 "[sample_cycle]" "sample_db sample_task" loop_start "sample_db sample_task"]
  by (simp add: loop_start_def)

end
