(* ===== verification/DeviceAuth.thy ===== *)
theory DeviceAuth
  imports Prelude "HOL-Library.AList"
begin

section \<open>Device authorization\<close>

text \<open>
  \<open>backend/services/device_auth.py\<close>: the store of pending requests and its flow (create,
  describe, approve, redeem). The store is one JSON document on disk, read and rewritten under a
  lock by every operation, so each operation is a function of the document. What the document
  may hold after a crash or an edit by hand is part of the model: no file, text that is not JSON, JSON
  that is not an object, an unusable version, entries that are no objects, an expiry that is no
  number. The digest of a device code (SHA-256) is the parameter \<open>hash\<close>; the random codes the
  operations draw are arguments.
\<close>

definition ALPHABET :: string where "ALPHABET = ''BCDFGHJKLMNPQRSTVWXZ23456789''"
definition CODE_LEN :: nat where "CODE_LEN = 4"
definition POLL_INTERVAL :: int where "POLL_INTERVAL = 2"
definition DOCUMENT_VERSION :: int where "DOCUMENT_VERSION = 2"

record device_request =
  user_code :: string
  status :: string
  created :: timestamp
  expires :: "timestamp option"
  approved_at :: "timestamp option"
  polls :: int
  key_credential :: "string option"
  key_id :: "string option"
  key_name :: "string option"
  key_prefix :: "string option"
  key_expires_at :: "timestamp option"
  user :: "string option"
  display_name :: "string option"

datatype entry = Request device_request | NotADict

type_synonym requests = "(string \<times> entry) list"

datatype device_file = NoFile | Unparsable | NotAnObject
  | Document "int option" "requests option"

datatype device_error = UnknownUserCode string | ExpiredUserCode string | AlreadyApproved string

text \<open>\<open>_expires_at\<close>: an expiry that is not a number counts as 0.\<close>

definition expires_at :: "device_request \<Rightarrow> timestamp" where
  "expires_at r = (case expires r of None \<Rightarrow> 0 | Some e \<Rightarrow> e)"

text \<open>\<open>_new_user_code\<close> from its eight random picks.\<close>

definition new_user_code :: "string \<Rightarrow> string" where
  "new_user_code picks = take CODE_LEN picks @ ''-'' @ take CODE_LEN (drop CODE_LEN picks)"

definition is_pick :: "string \<Rightarrow> bool" where
  "is_pick picks \<longleftrightarrow> length picks = CODE_LEN * 2 \<and> set picks \<subseteq> set ALPHABET"

definition normalize_user_code :: "string option \<Rightarrow> string" where
  "normalize_user_code value =
     (let text = replace_char CHR ''_'' CHR ''-'' (remove_char CHR '' '' (py_upper (py_strip (opt_str value))))
      in if CHR ''-'' \<notin> set text \<and> length text = CODE_LEN * 2
         then take CODE_LEN text @ ''-'' @ drop CODE_LEN text else text)"

subsection \<open>Document I/O\<close>

definition read_requests :: "device_file \<Rightarrow> requests" where
  "read_requests f =
     (case f of
        Document (Some version) (Some reqs) \<Rightarrow> if version < DOCUMENT_VERSION then [] else reqs
      | _ \<Rightarrow> [])"

definition write_requests :: "requests \<Rightarrow> device_file" where
  "write_requests reqs = Document (Some DOCUMENT_VERSION) (Some reqs)"

definition live_entry :: "timestamp \<Rightarrow> entry \<Rightarrow> bool" where
  "live_entry now e \<longleftrightarrow> (case e of NotADict \<Rightarrow> False | Request r \<Rightarrow> \<not> expires_at r < now)"

definition purge :: "timestamp \<Rightarrow> requests \<Rightarrow> requests" where
  "purge now reqs = filter (\<lambda>(d, e). live_entry now e) reqs"

definition purge_count :: "timestamp \<Rightarrow> requests \<Rightarrow> nat" where
  "purge_count now reqs = length (filter (\<lambda>(d, e). \<not> live_entry now e) reqs)"

definition has_code :: "string \<Rightarrow> entry \<Rightarrow> bool" where
  "has_code code e \<longleftrightarrow> (case e of NotADict \<Rightarrow> False | Request r \<Rightarrow> user_code r = code)"

subsection \<open>Flow\<close>

text \<open>
  The re-roll loop: the first drawn code no entry carries. \<open>None\<close> is a loop still running when
  the draws given to the model are used up.
\<close>

fun fresh_code :: "requests \<Rightarrow> string list \<Rightarrow> string option" where
  "fresh_code reqs [] = None"
| "fresh_code reqs (code # later) =
     (if list_ex (\<lambda>(d, e). has_code code e) reqs then fresh_code reqs later else Some code)"

record device_grant =
  grant_device_code :: string
  grant_user_code :: string
  verification_uri :: string
  verification_uri_complete :: string
  expires_in :: timestamp
  interval :: int

definition pending_request :: "string \<Rightarrow> timestamp \<Rightarrow> timestamp \<Rightarrow> device_request" where
  "pending_request code now ttl =
     \<lparr>user_code = code, status = ''pending'', created = now, expires = Some (now + ttl),
      approved_at = None, polls = 0, key_credential = None, key_id = None, key_name = None,
      key_prefix = None, key_expires_at = None, user = None, display_name = None\<rparr>"

definition create :: "(string \<Rightarrow> string) \<Rightarrow> timestamp \<Rightarrow> device_file \<Rightarrow> string \<Rightarrow> string \<Rightarrow> string list
    \<Rightarrow> timestamp \<Rightarrow> timestamp \<Rightarrow> (device_grant \<times> device_file) option" where
  "create hash ttl f base_url device_code draws now cutoff =
     (let reqs = purge cutoff (read_requests f)
      in case fresh_code reqs draws of
           None \<Rightarrow> None
         | Some code \<Rightarrow>
             let verify = rstrip_char CHR ''/'' base_url @ ''/device''
             in Some (\<lparr>grant_device_code = device_code, grant_user_code = code,
                       verification_uri = verify,
                       verification_uri_complete = verify @ ''?user_code='' @ code,
                       expires_in = ttl, interval = POLL_INTERVAL\<rparr>,
                     write_requests (AList.update (hash device_code)
                       (Request (pending_request code now ttl)) reqs)))"

definition request_named :: "string \<Rightarrow> requests \<Rightarrow> (string \<times> entry) option" where
  "request_named code reqs = find (\<lambda>(d, e). has_code code e) reqs"

definition describe_user_code :: "device_file \<Rightarrow> string option \<Rightarrow> timestamp
    \<Rightarrow> (device_error + string \<times> timestamp \<times> timestamp option \<times> string) \<times> device_file" where
  "describe_user_code f code now =
     (let wanted = normalize_user_code code; reqs = purge now (read_requests f)
      in (case request_named wanted reqs of
            Some (d, Request r) \<Rightarrow>
              if status r = ''approved'' then Inl (AlreadyApproved wanted)
              else Inr (wanted, created r, expires r, status r)
          | _ \<Rightarrow> Inl (UnknownUserCode wanted), write_requests reqs))"

record minted_key =
  minted_key :: "string option"
  minted_id :: "string option"
  minted_name :: "string option"
  minted_prefix :: "string option"
  minted_expires_at :: "timestamp option"

definition approved_request :: "minted_key \<Rightarrow> string \<Rightarrow> string option \<Rightarrow> timestamp \<Rightarrow> device_request
    \<Rightarrow> device_request" where
  "approved_request key who name now r =
     r\<lparr>status := ''approved'', approved_at := Some now, key_credential := minted_key key,
       key_id := minted_id key, key_name := minted_name key, key_prefix := minted_prefix key,
       key_expires_at := minted_expires_at key, user := Some who, display_name := name\<rparr>"

definition approve :: "device_file \<Rightarrow> string option \<Rightarrow> minted_key \<Rightarrow> string \<Rightarrow> string option \<Rightarrow> timestamp
    \<Rightarrow> timestamp \<Rightarrow> (device_error + string \<times> string option) \<times> device_file" where
  "approve f code key who name cutoff now =
     (let wanted = normalize_user_code code; reqs = purge cutoff (read_requests f)
      in case request_named wanted reqs of
           Some (d, Request r) \<Rightarrow>
             if status r = ''approved'' then (Inl (AlreadyApproved wanted), f)
             else (Inr (wanted, minted_id key),
                   write_requests (AList.update d (Request (approved_request key who name now r)) reqs))
         | _ \<Rightarrow> (Inl (UnknownUserCode wanted), f))"

record redeemed =
  api_key :: "string option"
  api_key_id :: "string option"
  api_key_name :: "string option"
  api_key_prefix :: "string option"
  api_key_expires_at :: "timestamp option"
  api_user :: "string option"
  api_display_name :: "string option"

datatype poll = Unknown | Expired | Pending | Approved redeemed

definition redeemed_of :: "device_request \<Rightarrow> redeemed" where
  "redeemed_of r =
     \<lparr>api_key = key_credential r, api_key_id = key_id r, api_key_name = key_name r,
      api_key_prefix = key_prefix r, api_key_expires_at = key_expires_at r,
      api_user = user r, api_display_name = display_name r\<rparr>"

definition redeem :: "(string \<Rightarrow> string) \<Rightarrow> device_file \<Rightarrow> string \<Rightarrow> timestamp \<Rightarrow> poll \<times> device_file" where
  "redeem hash f device_code now =
     (if device_code = [] then (Unknown, f)
      else
        let reqs = read_requests f
        in case map_of reqs (hash device_code) of
             Some (Request r) \<Rightarrow>
               if expires_at r < now then (Expired, write_requests (AList.delete (hash device_code) reqs))
               else if status r \<noteq> ''approved''
               then (Pending, write_requests (AList.update (hash device_code)
                       (Request (r\<lparr>polls := polls r + 1\<rparr>)) reqs))
               else (Approved (redeemed_of r), write_requests (AList.delete (hash device_code) reqs))
           | _ \<Rightarrow> (Unknown, f))"

definition count_pending :: "device_file \<Rightarrow> timestamp \<Rightarrow> nat \<times> device_file" where
  "count_pending f now =
     (let reqs = read_requests f; live = purge now reqs
      in (length live, if purge_count now reqs \<noteq> 0 then write_requests live else f))"

end
