(* ===== verification/DeviceAuthProps.thy ===== *)
theory DeviceAuthProps
  imports DeviceAuth
begin

section \<open>What the device flow guarantees\<close>

text \<open>
  The operations as events on the document, the invariants of every history of events, and the
  properties of the flow: distinct user codes, no key without an approval, a key handed out once,
  and the normal form of a typed user code.
\<close>

datatype event =
    Create string string "string list" timestamp timestamp
  | Describe "string option" timestamp
  | Approve "string option" minted_key string "string option" timestamp timestamp
  | Redeem string timestamp
  | Count timestamp

fun apply_event :: "(string \<Rightarrow> string) \<Rightarrow> timestamp \<Rightarrow> event \<Rightarrow> device_file \<Rightarrow> device_file" where
  "apply_event hash ttl (Create base dc draws now cutoff) f =
     (case create hash ttl f base dc draws now cutoff of None \<Rightarrow> f | Some (g, f') \<Rightarrow> f')"
| "apply_event hash ttl (Describe code now) f = snd (describe_user_code f code now)"
| "apply_event hash ttl (Approve code key who name cutoff now) f = snd (approve f code key who name cutoff now)"
| "apply_event hash ttl (Redeem dc now) f = snd (redeem hash f dc now)"
| "apply_event hash ttl (Count now) f = snd (count_pending f now)"

definition run_events :: "(string \<Rightarrow> string) \<Rightarrow> timestamp \<Rightarrow> event list \<Rightarrow> device_file \<Rightarrow> device_file" where
  "run_events hash ttl evs f = fold (apply_event hash ttl) evs f"

subsection \<open>Documents\<close>

definition code_of :: "entry \<Rightarrow> string list" where
  "code_of e = (case e of NotADict \<Rightarrow> [] | Request r \<Rightarrow> [user_code r])"

definition codes_of :: "requests \<Rightarrow> string list" where
  "codes_of reqs = concat (map (code_of \<circ> snd) reqs)"

lemma read_write [simp]: "read_requests (write_requests reqs) = reqs"
  by (simp add: read_requests_def write_requests_def DOCUMENT_VERSION_def)

lemma codes_of_Cons [simp]: "codes_of (x # reqs) = code_of (snd x) @ codes_of reqs"
  by (simp add: codes_of_def)

lemma codes_of_Nil [simp]: "codes_of [] = []"
  by (simp add: codes_of_def)

lemma has_code_iff: "has_code c e \<longleftrightarrow> c \<in> set (code_of e)"
  by (auto simp: has_code_def code_of_def split: entry.splits)

lemma set_codes_of: "set (codes_of reqs) = (\<Union>x \<in> set reqs. set (code_of (snd x)))"
  by (auto simp: codes_of_def)

lemma distinct_codes_filter: "distinct (codes_of reqs) \<Longrightarrow> distinct (codes_of (filter P reqs))"
  by (induction reqs) (auto simp: set_codes_of)

lemma delete_filter: "AList.delete k reqs = filter (\<lambda>x. fst x \<noteq> k) reqs"
  by (induction reqs) (auto simp: AList.delete_eq)

lemma set_codes_update:
  "set (codes_of (AList.update k e reqs)) \<subseteq> set (code_of e) \<union> set (codes_of reqs)"
  by (induction reqs) auto

lemma distinct_code_of [simp]: "distinct (code_of e)"
  by (simp add: code_of_def split: entry.split)

lemma distinct_codes_update_fresh:
  "distinct (codes_of reqs) \<Longrightarrow> set (code_of e) \<inter> set (codes_of reqs) = {}
   \<Longrightarrow> distinct (codes_of (AList.update k e reqs))"
proof (induction reqs)
  case (Cons x reqs)
  then show ?case
    using set_codes_update [of k e reqs] by (cases x) auto
qed simp

lemma distinct_codes_update_same:
  "distinct (codes_of reqs) \<Longrightarrow> map_of reqs k = Some e' \<Longrightarrow> code_of e = code_of e'
   \<Longrightarrow> distinct (codes_of (AList.update k e reqs)) \<and> set (codes_of (AList.update k e reqs)) = set (codes_of reqs)"
  by (induction reqs) (auto split: if_splits)

lemma request_namedD: "request_named c reqs = Some (d, e) \<Longrightarrow> (d, e) \<in> set reqs \<and> has_code c e"
  unfolding request_named_def by (auto dest: find_SomeD)

lemma fresh_code_not_used: "fresh_code reqs draws = Some c \<Longrightarrow> c \<notin> set (codes_of reqs) \<and> c \<in> set draws"
  by (induction draws) (auto simp: list_ex_iff has_code_iff set_codes_of split: if_splits)

lemma distinct_keys_filter: "distinct (map fst reqs) \<Longrightarrow> distinct (map fst (filter P reqs))"
  by (induction reqs) auto

lemma map_of_filter: "distinct (map fst reqs) \<Longrightarrow> map_of (filter P reqs) k = Some e \<Longrightarrow> map_of reqs k = Some e"
  by (metis filter_is_subset in_mono map_of_SomeD map_of_is_SomeI)

definition doc_ok :: "requests \<Rightarrow> bool" where
  "doc_ok reqs \<longleftrightarrow> distinct (map fst reqs) \<and> distinct (codes_of reqs)"

subsection \<open>What an event may do to the document\<close>

text \<open>
  It drops entries; a creation adds a pending entry under a code no live entry has; an approval or
  a poll revises one entry in place, and only an approval makes it approved. The laws of the
  flow follow from this description alone.
\<close>

inductive doc_change :: "(string \<Rightarrow> string) \<Rightarrow> timestamp \<Rightarrow> event \<Rightarrow> requests \<Rightarrow> requests \<Rightarrow> bool"
  for hash :: "string \<Rightarrow> string" and ttl :: timestamp where
  drops: "doc_change hash ttl ev reqs (filter P reqs)"
| adds: "code \<notin> set (codes_of (filter P reqs)) \<Longrightarrow>
     doc_change hash ttl (Create base dc draws now cutoff) reqs
       (AList.update (hash dc) (Request (pending_request code now ttl)) (filter P reqs))"
| revises: "map_of (filter P reqs) d = Some (Request r) \<Longrightarrow> user_code r' = user_code r \<Longrightarrow>
     (status r' = ''approved'' \<Longrightarrow> \<exists>code key who name cutoff now.
        ev = Approve code key who name cutoff now \<and> r' = approved_request key who name now r) \<Longrightarrow>
     doc_change hash ttl ev reqs (AList.update d (Request r') (filter P reqs))"

lemma filter_everything: "filter (\<lambda>_. True) reqs = reqs"
  by simp

lemma no_change: "doc_change hash ttl ev reqs reqs"
  using drops [of hash ttl ev reqs "\<lambda>_. True"] by simp

lemma event_changes:
  assumes "doc_ok (read_requests f)"
  shows "doc_change hash ttl ev (read_requests f) (read_requests (apply_event hash ttl ev f))"
proof (cases ev)
  case (Create base dc draws now cutoff)
  show ?thesis
  proof (cases "fresh_code (purge cutoff (read_requests f)) draws")
    case None
    then show ?thesis by (simp add: Create create_def Let_def no_change)
  next
    case (Some code)
    then show ?thesis
      using fresh_code_not_used [OF Some] by (auto simp: Create create_def Let_def purge_def intro: adds)
  qed
next
  case (Describe code now)
  then show ?thesis by (simp add: describe_user_code_def Let_def purge_def drops)
next
  case (Approve code key who name cutoff now)
  let ?reqs = "purge cutoff (read_requests f)"
  show ?thesis
  proof (cases "request_named (normalize_user_code code) ?reqs")
    case None
    then show ?thesis by (simp add: Approve approve_def Let_def no_change)
  next
    case (Some x)
    obtain d e where x: "x = (d, e)" by (cases x)
    show ?thesis
    proof (cases e)
      case NotADict
      with Some x show ?thesis by (simp add: Approve approve_def Let_def no_change)
    next
      case (Request r)
      have "map_of ?reqs d = Some (Request r)"
        using request_namedD Some x Request assms
        by (metis doc_ok_def distinct_keys_filter map_of_is_SomeI purge_def)
      then have "doc_change hash ttl ev (read_requests f)
          (AList.update d (Request (approved_request key who name now r)) ?reqs)"
        unfolding purge_def Approve by (intro revises) (auto simp: approved_request_def)
      with Some x Request show ?thesis
        by (auto simp: Approve approve_def Let_def no_change)
    qed
  qed
next
  case (Redeem dc now)
  show ?thesis
  proof (cases "map_of (read_requests f) (hash dc)")
    case None
    then show ?thesis by (simp add: Redeem redeem_def Let_def no_change)
  next
    case (Some e)
    show ?thesis
    proof (cases e)
      case NotADict
      with Some show ?thesis by (simp add: Redeem redeem_def Let_def no_change)
    next
      case (Request r)
      have "doc_change hash ttl ev (read_requests f)
          (AList.update (hash dc) (Request (r\<lparr>polls := polls r + 1\<rparr>)) (read_requests f))"
        if "status r \<noteq> ''approved''"
        using revises [of "\<lambda>_. True" "read_requests f" "hash dc" r "r\<lparr>polls := polls r + 1\<rparr>" ev hash ttl]
          Some Request that by simp
      with Some Request show ?thesis
        by (simp add: Redeem redeem_def Let_def no_change delete_filter drops)
    qed
  qed
next
  case (Count now)
  then show ?thesis by (simp add: count_pending_def Let_def purge_def drops no_change)
qed

lemma change_keeps_ok: "doc_change hash ttl ev reqs reqs' \<Longrightarrow> doc_ok reqs \<Longrightarrow> doc_ok reqs'"
proof (induction rule: doc_change.induct)
  case (drops ev reqs P)
  then show ?case by (simp add: doc_ok_def distinct_keys_filter distinct_codes_filter)
next
  case (adds code P reqs base dc draws now cutoff)
  then show ?case
    by (auto simp: doc_ok_def distinct_update distinct_keys_filter code_of_def pending_request_def
        intro!: distinct_codes_update_fresh distinct_codes_filter)
next
  case (revises P reqs d r r' ev)
  then have "distinct (codes_of (AList.update d (Request r') (filter P reqs)))"
    using distinct_codes_update_same [of "filter P reqs" d "Request r" "Request r'"]
    by (simp add: doc_ok_def distinct_codes_filter code_of_def)
  with revises show ?case by (simp add: doc_ok_def distinct_update distinct_keys_filter)
qed

lemma run_events_snoc: "run_events hash ttl (evs @ [ev]) f = apply_event hash ttl ev (run_events hash ttl evs f)"
  by (simp add: run_events_def)

lemma run_events_ok: "doc_ok (read_requests f) \<Longrightarrow> doc_ok (read_requests (run_events hash ttl evs f))"
proof (induction evs rule: rev_induct)
  case (snoc ev evs)
  then show ?case unfolding run_events_snoc by (blast intro: change_keeps_ok event_changes)
qed (simp add: run_events_def)

lemma doc_ok_empty: "doc_ok []"
  by (simp add: doc_ok_def)

subsection \<open>Distinct codes\<close>

text \<open>
  C27: at any point of any history of the store, no two requests carry the same user code, so a code
  a human types names at most one request.
\<close>

theorem user_codes_are_distinct:
  "distinct (codes_of (read_requests (run_events hash ttl evs NoFile)))"
  using run_events_ok [of NoFile hash ttl evs] by (simp add: doc_ok_def read_requests_def)

subsection \<open>No key without an approval\<close>

lemma change_lookup:
  assumes "doc_change hash ttl ev reqs reqs'" and "distinct (map fst reqs)"
    and "map_of reqs' d = Some (Request r)" and "status r = ''approved''"
  shows "map_of reqs d = Some (Request r) \<or> (\<exists>code key who name cutoff now r0.
      ev = Approve code key who name cutoff now \<and> r = approved_request key who name now r0)"
  using assms
proof (induction rule: doc_change.induct)
  case (adds code P reqs base dc draws now cutoff)
  show ?case
  proof (cases "d = hash dc")
    case True
    then show ?thesis
      using adds.prems(2,3) by (auto simp: update_conv' pending_request_def)
  next
    case False
    then have "map_of (filter P reqs) d = Some (Request r)"
      using adds.prems(2) by (simp add: update_conv')
    then show ?thesis using map_of_filter [OF adds.prems(1)] by blast
  qed
next
  case (revises P reqs d' r0 r' ev)
  show ?case
  proof (cases "d = d'")
    case True
    then have "r = r'" using revises.prems(2) by (simp add: update_conv')
    then show ?thesis using revises.hyps(3) revises.prems(3) by blast
  next
    case False
    then have "map_of (filter P reqs) d = Some (Request r)"
      using revises.prems(2) by (simp add: update_conv')
    then show ?thesis using map_of_filter [OF revises.prems(1)] by blast
  qed
qed (blast dest: map_of_filter)

lemma approved_entries_were_approved:
  assumes "map_of (read_requests (run_events hash ttl evs NoFile)) d = Some (Request r)"
    and "status r = ''approved''"
  shows "\<exists>code key who name cutoff now r0. Approve code key who name cutoff now \<in> set evs
    \<and> r = approved_request key who name now r0"
  using assms
proof (induction evs arbitrary: d r rule: rev_induct)
  case (snoc ev evs)
  let ?f = "run_events hash ttl evs NoFile"
  have ok: "doc_ok (read_requests ?f)"
    by (rule run_events_ok) (simp add: read_requests_def doc_ok_empty)
  then have "distinct (map fst (read_requests ?f))" by (simp add: doc_ok_def)
  from change_lookup [OF event_changes [OF ok] this snoc.prems [unfolded run_events_snoc]]
  show ?case
  proof
    assume "map_of (read_requests ?f) d = Some (Request r)"
    from snoc.IH [OF this snoc.prems(2)] show ?thesis
      by (simp only: set_append Un_iff) blast
  next
    assume "\<exists>code key who name cutoff now r0.
      ev = Approve code key who name cutoff now \<and> r = approved_request key who name now r0"
    then show ?thesis by (simp only: set_append list.set) blast
  qed
qed (simp add: run_events_def read_requests_def)

lemma redeem_ApprovedE:
  assumes "redeem hash f dc now = (Approved x, f')"
  obtains r where "dc \<noteq> []" "map_of (read_requests f) (hash dc) = Some (Request r)"
    "status r = ''approved''" "x = redeemed_of r" "now \<le> expires_at r"
    "f' = write_requests (AList.delete (hash dc) (read_requests f))"
  using assms by (auto simp: redeem_def Let_def split: if_splits option.splits entry.splits)

text \<open>
  C28: a poll that hands out a key hands out one some account approved: in every history that starts
  with no document, a redeemed key, its id and its user are those of an approval in the history.
\<close>

theorem redeemed_keys_were_approved:
  assumes "redeem hash (run_events hash ttl evs NoFile) dc now = (Approved x, f')"
  shows "\<exists>code key who name cutoff t. Approve code key who name cutoff t \<in> set evs
    \<and> api_key x = minted_key key \<and> api_key_id x = minted_id key \<and> api_user x = Some who"
  using assms
proof (cases rule: redeem_ApprovedE)
  case (1 r)
  from approved_entries_were_approved [OF 1(2,3)] show ?thesis
    unfolding 1(4) redeemed_of_def approved_request_def by fastforce
qed

subsection \<open>A key is handed out once\<close>

fun creates_code :: "event \<Rightarrow> string option" where
  "creates_code (Create base dc draws now cutoff) = Some dc"
| "creates_code ev = None"

lemma change_new_keys:
  "doc_change hash ttl ev reqs reqs' \<Longrightarrow> d \<in> fst ` set reqs'
   \<Longrightarrow> d \<in> fst ` set reqs \<or> map_option hash (creates_code ev) = Some d"
proof (induction rule: doc_change.induct)
  case (revises P reqs d' r r' ev)
  from revises.hyps(1) have "d' \<in> fst ` set reqs"
    by (metis filter_is_subset fst_conv image_eqI in_mono map_of_SomeD)
  with revises.prems show ?case by (auto simp: dom_update)
qed (auto simp: dom_update)

lemma absent_stays_absent:
  assumes "doc_ok (read_requests f)" and "d \<notin> fst ` set (read_requests f)"
    and "\<forall>ev \<in> set evs. map_option hash (creates_code ev) \<noteq> Some d"
  shows "d \<notin> fst ` set (read_requests (run_events hash ttl evs f))"
  using assms(3)
proof (induction evs rule: rev_induct)
  case Nil
  then show ?case using assms(2) by (simp add: run_events_def)
next
  case (snoc ev evs)
  then show ?case
    unfolding run_events_snoc
    using change_new_keys [OF event_changes [OF run_events_ok [OF assms(1)]], where d = d]
    by (metis Un_iff list.set_intros(1) set_append)
qed

text \<open>
  a key is returned exactly once. After a poll that returned it, whatever happens to the store,
  a poll with the same device code finds nothing, unless a new request was created under a device
  code with the same digest.
\<close>

theorem key_is_returned_once:
  assumes "doc_ok (read_requests f)" and "redeem hash f dc now = (Approved x, f')"
    and "\<forall>ev \<in> set evs. map_option hash (creates_code ev) \<noteq> Some (hash dc)"
  shows "redeem hash (run_events hash ttl evs f') dc later = (Unknown, run_events hash ttl evs f')"
  using assms(2)
proof (cases rule: redeem_ApprovedE)
  case (1 r)
  have "doc_ok (read_requests f')"
    using assms(1) by (simp add: 1(6) delete_filter doc_ok_def distinct_keys_filter distinct_codes_filter)
  moreover have "hash dc \<notin> fst ` set (read_requests f')"
    by (simp add: 1(6) delete_notin_dom)
  ultimately have "hash dc \<notin> fst ` set (read_requests (run_events hash ttl evs f'))"
    using assms(3) by (rule absent_stays_absent)
  then have "map_of (read_requests (run_events hash ttl evs f')) (hash dc) = None"
    by (simp add: map_of_eq_None_iff)
  then show ?thesis by (simp add: redeem_def Let_def)
qed

subsection \<open>Typed user codes\<close>

lemma alphabet_chars:
  "list_all (\<lambda>c. upper_char c = c \<and> upper_char (lower_char c) = c \<and> \<not> py_isspace c
     \<and> \<not> py_isspace (lower_char c) \<and> c \<noteq> CHR '' '' \<and> c \<noteq> CHR ''_'' \<and> c \<noteq> CHR ''-''
     \<and> c \<noteq> CHR ''/'') ALPHABET"
  by code_simp

lemma dash_char: "upper_char CHR ''-'' = CHR ''-''" "lower_char CHR ''-'' = CHR ''-''"
    "\<not> py_isspace CHR ''-''" "upper_char CHR ''_'' = CHR ''_''" "\<not> py_isspace CHR ''_''"
  by code_simp+

lemma is_pickD:
  assumes "is_pick picks" and "c \<in> set picks"
  shows "upper_char c = c" and "upper_char (lower_char c) = c" and "\<not> py_isspace c"
    and "\<not> py_isspace (lower_char c)" and "c \<noteq> CHR '' ''" and "c \<noteq> CHR ''_''" and "c \<noteq> CHR ''-''"
  using assms alphabet_chars by (auto simp: is_pick_def list_all_iff)

lemma length_pick: "is_pick picks \<Longrightarrow> length picks = 8"
  by (simp add: is_pick_def CODE_LEN_def)

lemma strip_ends: "s \<noteq> [] \<Longrightarrow> \<not> py_isspace (hd s) \<Longrightarrow> \<not> py_isspace (last s) \<Longrightarrow> py_strip s = s"
  by (simp add: text_simps)

lemma normalize_bare:
  assumes "is_pick picks" and "\<And>c. c \<in> set picks \<Longrightarrow> f c \<in> {c, lower_char c}"
  shows "normalize_user_code (Some (map f picks)) = new_user_code picks"
proof -
  have ne: "picks \<noteq> []" using length_pick [OF assms(1)] by auto
  have f: "\<not> py_isspace (f c) \<and> upper_char (f c) = c" if "c \<in> set picks" for c
    using is_pickD [OF assms(1) that] assms(2) [OF that] by auto
  have "py_strip (map f picks) = map f picks"
    using ne f by (intro strip_ends) (auto simp: hd_map last_map)
  moreover have "py_upper (map f picks) = picks"
    using f by (simp add: py_upper_def map_idI)
  moreover have "remove_char CHR '' '' picks = picks" "replace_char CHR ''_'' CHR ''-'' picks = picks"
    using is_pickD [OF assms(1)] by (auto simp: remove_char_def replace_char_def map_idI)
  moreover have "CHR ''-'' \<notin> set picks" using is_pickD(7) [OF assms(1)] by blast
  ultimately show ?thesis
    using length_pick [OF assms(1)]
    by (simp add: normalize_user_code_def opt_str_def Let_def new_user_code_def CODE_LEN_def)
qed

lemma normalize_dashed:
  assumes "is_pick picks" and "\<And>c. c \<in> set picks \<Longrightarrow> f c \<in> {c, lower_char c}"
    and "dash \<in> {CHR ''-'', CHR ''_''}"
  shows "normalize_user_code (Some (map f (take 4 picks) @ dash # map f (drop 4 picks))) = new_user_code picks"
proof -
  have len: "length picks = 8" by (rule length_pick [OF assms(1)])
  then have ne: "take 4 picks \<noteq> []" "drop 4 picks \<noteq> []" by auto
  have sub: "set (take 4 picks) \<subseteq> set picks" "set (drop 4 picks) \<subseteq> set picks"
    by (simp_all add: set_take_subset set_drop_subset)
  have f: "\<not> py_isspace (f c) \<and> upper_char (f c) = c" if "c \<in> set picks" for c
    using is_pickD [OF assms(1) that] assms(2) [OF that] by auto
  let ?s = "map f (take 4 picks) @ dash # map f (drop 4 picks)"
  have "hd (take 4 picks) \<in> set picks" "last (drop 4 picks) \<in> set picks"
    using ne sub hd_in_set last_in_set by blast+
  then have "py_strip ?s = ?s"
    using ne f by (intro strip_ends) (auto simp: hd_append hd_map last_map)
  moreover have "py_upper ?s = take 4 picks @ dash # drop 4 picks"
    using f sub assms(3) dash_char by (auto simp: py_upper_def intro!: map_idI)
  moreover have "remove_char CHR '' '' (take 4 picks @ dash # drop 4 picks) = take 4 picks @ dash # drop 4 picks"
  proof -
    have "filter (\<lambda>d. d \<noteq> CHR '' '') xs = xs" if "set xs \<subseteq> set picks" for xs
      using is_pickD(5) [OF assms(1)] that by (intro filter_True) blast
    then show ?thesis using sub assms(3) by (auto simp: remove_char_def)
  qed
  moreover have "replace_char CHR ''_'' CHR ''-'' (take 4 picks @ dash # drop 4 picks)
      = take 4 picks @ CHR ''-'' # drop 4 picks"
    using is_pickD(6) [OF assms(1)] sub assms(3) by (auto simp: replace_char_def intro!: map_idI)
  ultimately show ?thesis
    using len by (simp add: normalize_user_code_def opt_str_def Let_def new_user_code_def CODE_LEN_def)
qed

text \<open>
  A user code survives being typed back: the code as shown, in lower case, with an underscore for
  the dash or with no dash at all normalises to the code that was issued.
\<close>

theorem typed_codes_normalize:
  assumes "is_pick picks"
  shows "normalize_user_code (Some (new_user_code picks)) = new_user_code picks
    \<and> normalize_user_code (Some (py_lower (new_user_code picks))) = new_user_code picks
    \<and> normalize_user_code (Some (replace_char CHR ''-'' CHR ''_'' (new_user_code picks))) = new_user_code picks
    \<and> normalize_user_code (Some picks) = new_user_code picks
    \<and> normalize_user_code (Some (py_lower picks)) = new_user_code picks"
proof -
  have len: "length picks = 8" by (rule length_pick [OF assms])
  have code: "new_user_code picks = take 4 picks @ CHR ''-'' # drop 4 picks"
    using len by (simp add: new_user_code_def CODE_LEN_def)
  have under: "replace_char CHR ''-'' CHR ''_'' (new_user_code picks) = take 4 picks @ CHR ''_'' # drop 4 picks"
    using is_pickD(7) [OF assms] unfolding code
    by (auto simp: replace_char_def intro!: map_idI dest: in_set_takeD in_set_dropD)
  have lower: "py_lower (new_user_code picks)
      = map lower_char (take 4 picks) @ CHR ''-'' # map lower_char (drop 4 picks)"
    unfolding code by (simp add: py_lower_def dash_char)
  show ?thesis
    using normalize_dashed [OF assms, of "\<lambda>c. c" "CHR ''-''"]
      normalize_dashed [OF assms, of "\<lambda>c. c" "CHR ''_''"]
      normalize_dashed [OF assms, of lower_char "CHR ''-''"]
      normalize_bare [OF assms, of "\<lambda>c. c"] normalize_bare [OF assms, of lower_char]
    unfolding under lower py_lower_def by (simp add: code dash_char)
qed

subsection \<open>The flow from end to end\<close>

lemma find_unique_code:
  assumes "distinct (codes_of reqs)" and "(d, e) \<in> set reqs" and "has_code c e" and "distinct (map fst reqs)"
  shows "request_named c reqs = Some (d, e)"
proof -
  obtain x where x: "request_named c reqs = Some x"
    using assms(2,3) unfolding request_named_def
    by (metis (no_types, lifting) case_prod_conv find_None_iff not_Some_eq)
  then have "x \<in> set reqs" "has_code c (snd x)"
    using request_namedD [of c reqs "fst x" "snd x"] by simp_all
  moreover have "x = (d, e)" if "x \<in> set reqs" "c \<in> set (code_of (snd x))" for x
    using assms(1,2) that assms(3) [unfolded has_code_iff]
    by (induction reqs) (fastforce simp: set_codes_of disjoint_iff)+
  ultimately show ?thesis using x by (simp add: has_code_iff)
qed

text \<open>
  The three legs work together. A request created on any well-formed document, approved by its
  user code while it lasts and polled by its device code while it lasts, yields exactly the minted
  key and the approver; before the approval a poll answers pending; a second approval of the
  same code is refused.
\<close>

theorem device_flow_completes:
  assumes "doc_ok (read_requests f)" and "dc \<noteq> []" and "list_all (\<lambda>s. \<exists>p. is_pick p \<and> s = new_user_code p) draws"
    and "create hash ttl f base dc draws t0 c0 = Some (g, f1)"
    and "t1 \<le> t0 + ttl" and "t2 \<le> t0 + ttl"
  shows "fst (redeem hash f1 dc t1) = Pending
    \<and> (\<exists>f2. approve f1 (Some (grant_user_code g)) key who name t1 now = (Inr (grant_user_code g, minted_id key), f2)
        \<and> fst (approve f2 (Some (grant_user_code g)) key2 who2 name2 t2 now2) = Inl (AlreadyApproved (grant_user_code g))
        \<and> fst (redeem hash f2 dc t2) = Approved
            \<lparr>api_key = minted_key key, api_key_id = minted_id key, api_key_name = minted_name key,
             api_key_prefix = minted_prefix key, api_key_expires_at = minted_expires_at key,
             api_user = Some who, api_display_name = name\<rparr>)"
proof -
  let ?d = "hash dc" and ?code = "grant_user_code g"
  let ?p = "pending_request ?code t0 ttl"
  let ?a = "approved_request key who name now ?p"
  have f1: "f1 = write_requests (AList.update ?d (Request ?p) (purge c0 (read_requests f)))"
    and fresh: "fresh_code (purge c0 (read_requests f)) draws = Some ?code"
    using assms(4) by (auto simp: create_def Let_def split: option.splits)
  define reqs where "reqs = read_requests f1"
  have ok: "doc_ok reqs"
    unfolding reqs_def using event_changes [OF assms(1), of hash ttl "Create base dc draws t0 c0"] assms(4)
    by (auto intro: change_keeps_ok [OF _ assms(1)])
  have here: "map_of reqs ?d = Some (Request ?p)"
    by (simp add: reqs_def f1 update_conv')
  obtain picks where "is_pick picks" "?code = new_user_code picks"
    using fresh_code_not_used [OF fresh] assms(3) by (auto simp: list_all_iff)
  then have norm: "normalize_user_code (Some ?code) = ?code"
    using normalize_dashed [of picks "\<lambda>c. c" "CHR ''-''"] length_pick [of picks]
    by (simp add: new_user_code_def CODE_LEN_def)
  have find1: "request_named ?code (purge t reqs) = Some (?d, Request ?p)" if "t \<le> t0 + ttl" for t
    unfolding purge_def
    by (rule find_unique_code) (use ok here that map_of_SomeD [OF here] in \<open>auto simp: doc_ok_def distinct_codes_filter distinct_keys_filter
        live_entry_def expires_at_def pending_request_def has_code_def\<close>)
  define f2 where "f2 = write_requests (AList.update ?d (Request ?a) (purge t1 reqs))"
  have app: "approve f1 (Some ?code) key who name t1 now = (Inr (?code, minted_id key), f2)"
    using find1 [OF assms(5)] by (simp add: approve_def norm reqs_def [symmetric] Let_def f2_def pending_request_def)
  have ok2: "doc_ok (read_requests f2)"
    using change_keeps_ok [OF event_changes [OF ok [unfolded reqs_def], of hash ttl "Approve (Some ?code) key who name t1 now"]
        ok [unfolded reqs_def]] app by simp
  have here2: "map_of (read_requests f2) ?d = Some (Request ?a)"
    by (simp add: f2_def update_conv')
  have "request_named ?code (purge t2 (read_requests f2)) = Some (?d, Request ?a)"
    unfolding purge_def
    by (rule find_unique_code) (use ok2 assms(6) map_of_SomeD [OF here2] in \<open>auto simp: doc_ok_def distinct_codes_filter
        distinct_keys_filter live_entry_def expires_at_def approved_request_def pending_request_def has_code_def\<close>)
  then have "fst (approve f2 (Some ?code) key2 who2 name2 t2 now2) = Inl (AlreadyApproved ?code)"
    by (simp add: approve_def norm Let_def approved_request_def)
  moreover have "fst (redeem hash f1 dc t1) = Pending"
    using here assms(2,5) by (simp add: redeem_def Let_def reqs_def [symmetric] expires_at_def pending_request_def)
  moreover have "fst (redeem hash f2 dc t2) = Approved (redeemed_of ?a)"
    using here2 assms(2,6) by (simp add: redeem_def Let_def expires_at_def approved_request_def pending_request_def)
  ultimately show ?thesis
    using app by (auto simp: redeemed_of_def approved_request_def)
qed

subsection \<open>Concrete histories\<close>

abbreviation sample_key :: minted_key where
  "sample_key \<equiv> \<lparr>minted_key = Some ''cp_x'', minted_id = Some ''k_9'', minted_name = None,
     minted_prefix = None, minted_expires_at = None\<rparr>"

abbreviation sample_history :: "event list" where
  "sample_history \<equiv> [Create ''https://h/'' ''secret'' [''BBBB-CCCC''] 0 0,
     Approve (Some ''bbbb cccc'') sample_key ''ada'' None 5 5]"

abbreviation sample_approved :: device_request where
  "sample_approved \<equiv> approved_request sample_key ''ada'' None 5 (pending_request ''BBBB-CCCC'' 0 (seconds 900))"

lemma sample_normalize: "normalize_user_code (Some ''bbbb cccc'') = ''BBBB-CCCC''"
  by code_simp

lemma sample_run: "run_events (\<lambda>s. s) (seconds 900) sample_history NoFile
    = write_requests [(''secret'', Request sample_approved)]"
  by (simp add: run_events_def create_def read_requests_def [of NoFile] purge_def approve_def sample_normalize
      request_named_def has_code_def live_entry_def expires_at_def pending_request_def Let_def)

lemma sample_redeem: "redeem (\<lambda>s. s) (write_requests [(''secret'', Request sample_approved)]) ''secret'' 9
    = (Approved (redeemed_of sample_approved), write_requests [])"
  by (simp add: redeem_def Let_def expires_at_def approved_request_def pending_request_def)

theorem redeemed_keys_were_approved_witness:
  "\<exists>code key who name cutoff t. Approve code key who name cutoff t \<in> set sample_history \<and> minted_key key = Some ''cp_x''"
proof -
  from redeemed_keys_were_approved [of "\<lambda>s. s" "seconds 900" sample_history, unfolded sample_run, OF sample_redeem]
  show ?thesis by (simp add: redeemed_of_def approved_request_def)
qed

theorem key_is_returned_once_witness:
  "fst (redeem (\<lambda>s. s) (write_requests []) ''secret'' 10) = Unknown"
proof -
  have "doc_ok (read_requests (write_requests [(''secret'', Request sample_approved)]))"
    by (simp add: doc_ok_def codes_of_def code_of_def)
  from key_is_returned_once [OF this sample_redeem, of "[]"] show ?thesis by (simp add: run_events_def)
qed

theorem typed_codes_normalize_witness:
  "normalize_user_code (Some ''bbbbcccc'') = ''BBBB-CCCC''"
proof -
  have "is_pick ''BBBBCCCC''" by (simp add: is_pick_def CODE_LEN_def ALPHABET_def)
  from typed_codes_normalize [OF this]
  have "normalize_user_code (Some (py_lower ''BBBBCCCC'')) = new_user_code ''BBBBCCCC''" by blast
  moreover have "py_lower ''BBBBCCCC'' = ''bbbbcccc''" by code_simp
  moreover have "new_user_code ''BBBBCCCC'' = ''BBBB-CCCC''" by code_simp
  ultimately show ?thesis by simp
qed

theorem device_flow_completes_witness:
  "\<exists>f2 r. approve (run_events (\<lambda>s. s) (seconds 900) [Create ''https://h/'' ''secret'' [''BBBB-CCCC''] 0 0] NoFile)
       (Some ''BBBB-CCCC'') sample_key ''ada'' None 5 5 = (Inr (''BBBB-CCCC'', Some ''k_9''), f2)
    \<and> fst (redeem (\<lambda>s. s) f2 ''secret'' 9) = Approved r \<and> api_key r = Some ''cp_x''"
proof -
  have draws: "list_all (\<lambda>s. \<exists>p. is_pick p \<and> s = new_user_code p) [''BBBB-CCCC'']"
    by (auto simp: is_pick_def CODE_LEN_def ALPHABET_def new_user_code_def intro!: exI [of _ "''BBBBCCCC''"])
  have made: "\<exists>g f1. create (\<lambda>s. s) (seconds 900) NoFile ''https://h/'' ''secret'' [''BBBB-CCCC''] 0 0 = Some (g, f1)
      \<and> grant_user_code g = ''BBBB-CCCC''"
    by (simp add: create_def read_requests_def purge_def Let_def)
  then obtain g f1 where g: "create (\<lambda>s. s) (seconds 900) NoFile ''https://h/'' ''secret'' [''BBBB-CCCC''] 0 0 = Some (g, f1)"
    "grant_user_code g = ''BBBB-CCCC''" by blast
  have "doc_ok (read_requests NoFile)" by (simp add: read_requests_def doc_ok_empty)
  from device_flow_completes [OF this _ draws g(1), where ?t1.0 = 5 and ?t2.0 = 9 and key = sample_key
      and who = "''ada''" and name = None and now = 5 and ?key2.0 = sample_key and ?who2.0 = "[]"
      and ?name2.0 = None and ?now2.0 = 0]
  obtain f2 where "approve f1 (Some ''BBBB-CCCC'') sample_key ''ada'' None 5 5 = (Inr (''BBBB-CCCC'', Some ''k_9''), f2)"
    "\<exists>r. fst (redeem (\<lambda>s. s) f2 ''secret'' 9) = Approved r \<and> api_key r = Some ''cp_x''"
    using g(2) by auto
  then show ?thesis by (auto simp: g(1) [simplified] run_events_def)
qed

end
