(* ===== verification/StdText.thy ===== *)
theory StdText
  imports Prelude "HOL-Library.List_Lexorder" "HOL-Library.Char_ord"
begin

section \<open>Standard-library text formats the sources use\<close>

text \<open>
  \<open>json.dumps(v, sort_keys=True, separators=(",", ":"), ensure_ascii=True)\<close>, calendar dates with
  their order and ISO form, and \<open>fnmatch.fnmatch\<close> on a POSIX platform. JSON numbers that are no
  integers do not occur in these values as far as they are modelled.
\<close>

subsection \<open>JSON\<close>

definition hex_digit :: "nat \<Rightarrow> char" where
  "hex_digit d = (if d < 10 then char_of (48 + d) else char_of (87 + d))"

definition json_char :: "char \<Rightarrow> string" where
  "json_char c =
     (let n = of_char c :: nat in
      if n = 34 then [CHR 0x5C, CHR 0x22]
      else if n = 92 then [CHR 0x5C, CHR 0x5C]
      else if n = 10 then CHR 0x5C # ''n''
      else if n = 13 then CHR 0x5C # ''r''
      else if n = 9 then CHR 0x5C # ''t''
      else if n = 8 then CHR 0x5C # ''b''
      else if n = 12 then CHR 0x5C # ''f''
      else if n < 32 \<or> 126 < n then CHR 0x5C # ''u00'' @ [hex_digit (n div 16), hex_digit (n mod 16)]
      else [c])"

definition json_string :: "string \<Rightarrow> string" where
  "json_string s = [CHR 0x22] @ concat (map json_char s) @ [CHR 0x22]"

fun json_text :: "json \<Rightarrow> string" where
  "json_text JNull = ''null''"
| "json_text (JBool b) = (if b then ''true'' else ''false'')"
| "json_text (JInt i) = str_of_int i"
| "json_text (JStr s) = json_string s"
| "json_text (JList vs) = ''['' @ join '','' (map json_text vs) @ '']''"
| "json_text (JObj kvs) =
     ''{'' @ join '','' (map (\<lambda>(k, v). json_string k @ '':'' @ json_text v) kvs) @ ''}''"

fun sort_keys :: "json \<Rightarrow> json" where
  "sort_keys (JList vs) = JList (map sort_keys vs)"
| "sort_keys (JObj kvs) = JObj (sort_key fst (map (\<lambda>(k, v). (k, sort_keys v)) kvs))"
| "sort_keys v = v"

definition dumps :: "json \<Rightarrow> string" where
  "dumps v = json_text (sort_keys v)"

fun json_type_name :: "json \<Rightarrow> string" where
  "json_type_name JNull = ''NoneType''"
| "json_type_name (JBool b) = ''bool''"
| "json_type_name (JInt i) = ''int''"
| "json_type_name (JStr s) = ''str''"
| "json_type_name (JList vs) = ''list''"
| "json_type_name (JObj kvs) = ''dict''"

text \<open>\<open>entry.get(k)\<close> on a mapping (\<open>None\<close> is \<open>JNull\<close>), truthiness, and \<open>str\<close>.\<close>

definition jget :: "(string \<times> json) list \<Rightarrow> string \<Rightarrow> json" where
  "jget kvs k = (case map_of kvs k of None \<Rightarrow> JNull | Some v \<Rightarrow> v)"

fun truthy :: "json \<Rightarrow> bool" where
  "truthy JNull = False"
| "truthy (JBool b) = b"
| "truthy (JInt i) = (i \<noteq> 0)"
| "truthy (JStr s) = (s \<noteq> [])"
| "truthy (JList vs) = (vs \<noteq> [])"
| "truthy (JObj kvs) = (kvs \<noteq> [])"

fun py_str :: "(json \<Rightarrow> string) \<Rightarrow> json \<Rightarrow> string" where
  "py_str container_str JNull = ''None''"
| "py_str container_str (JBool b) = (if b then ''True'' else ''False'')"
| "py_str container_str (JInt i) = str_of_int i"
| "py_str container_str (JStr s) = s"
| "py_str container_str v = container_str v"

definition text_or :: "(json \<Rightarrow> string) \<Rightarrow> json \<Rightarrow> string \<Rightarrow> string" where
  "text_or container_str v fallback = (if v = JNull then fallback else py_str container_str v)"

text \<open>\<open>s.split()\<close>: the words between blanks.\<close>

fun words_from :: "string \<Rightarrow> string \<Rightarrow> string list" where
  "words_from acc [] = (if acc = [] then [] else [rev acc])"
| "words_from acc (c # s) =
     (if py_isspace c then (if acc = [] then words_from [] s else rev acc # words_from [] s)
      else words_from (c # acc) s)"

definition py_words :: "string \<Rightarrow> string list" where
  "py_words s = words_from [] s"

subsection \<open>Calendar dates\<close>

datatype date = Date nat nat nat

fun date_key :: "date \<Rightarrow> nat \<times> nat \<times> nat" where
  "date_key (Date y m d) = (y, m, d)"

fun date_less :: "date \<Rightarrow> date \<Rightarrow> bool" where
  "date_less (Date y m d) (Date y' m' d') \<longleftrightarrow> y < y' \<or> y = y' \<and> (m < m' \<or> m = m' \<and> d < d')"

instantiation date :: linorder
begin

definition less_date :: "date \<Rightarrow> date \<Rightarrow> bool" where
  "less_date a b = date_less a b"

definition less_eq_date :: "date \<Rightarrow> date \<Rightarrow> bool" where
  "less_eq_date a b \<longleftrightarrow> a = b \<or> date_less a b"

instance
proof
  fix a b c :: date
  show "a < b \<longleftrightarrow> a \<le> b \<and> \<not> b \<le> a"
    by (cases a; cases b) (auto simp: less_date_def less_eq_date_def)
  show "a \<le> a" by (simp add: less_eq_date_def)
  show "a \<le> b \<Longrightarrow> b \<le> c \<Longrightarrow> a \<le> c"
    by (cases a; cases b; cases c) (auto simp: less_eq_date_def)
  show "a \<le> b \<Longrightarrow> b \<le> a \<Longrightarrow> a = b"
    by (cases a; cases b) (auto simp: less_eq_date_def)
  show "a \<le> b \<or> b \<le> a"
    by (cases a; cases b) (auto simp: less_eq_date_def)
qed

end

definition zero_pad :: "nat \<Rightarrow> nat \<Rightarrow> string" where
  "zero_pad w n = (let s = str_of_nat n in replicate (w - length s) CHR ''0'' @ s)"

fun isoformat :: "date \<Rightarrow> string" where
  "isoformat (Date y m d) = zero_pad 4 y @ ''-'' @ zero_pad 2 m @ ''-'' @ zero_pad 2 d"

subsection \<open>Shell patterns\<close>

text \<open>
  A pattern is read left to right. A bracket with no closing one is a literal; a closing bracket
  or an exclamation mark first in the class belongs to it; \<open>a-z\<close> is a range, a hyphen with no
  character on one side is itself.
\<close>

datatype glob = Star | Any | Lit char | Class bool "(char \<times> char) list"

fun class_items :: "string \<Rightarrow> (char \<times> char) list" where
  "class_items [] = []"
| "class_items [c] = [(c, c)]"
| "class_items [c, d] = (c, c) # class_items [d]"
| "class_items (c # d # e # s) =
     (if d = CHR ''-'' then (c, e) # class_items s else (c, c) # class_items (d # e # s))"

text \<open>The class body after the opening bracket and what follows its closing bracket.\<close>

definition split_class :: "string \<Rightarrow> (string \<times> string) option" where
  "split_class s =
     (let n = (if take 1 s = ''!'' then 1 else 0);
          k = (if take 1 (drop n s) = '']'' then n + 1 else n);
          rest = dropWhile (\<lambda>c. c \<noteq> CHR '']'') (drop k s)
      in if rest = [] then None
         else Some (take k s @ takeWhile (\<lambda>c. c \<noteq> CHR '']'') (drop k s), tl rest))"

lemma split_class_length: "split_class s = Some (body, rest) \<Longrightarrow> length rest < length s"
proof -
  assume a: "split_class s = Some (body, rest)"
  have le: "length (dropWhile P (drop k s)) \<le> length s" for P k
    using length_dropWhile_le [of P "drop k s"] by simp
  from a obtain k where k: "dropWhile (\<lambda>c. c \<noteq> CHR '']'') (drop k s) \<noteq> []"
      "rest = tl (dropWhile (\<lambda>c. c \<noteq> CHR '']'') (drop k s))"
    by (auto simp: split_class_def Let_def split: if_splits)
  then have "length rest < length (dropWhile (\<lambda>c. c \<noteq> CHR '']'') (drop k s))" by simp
  with le show ?thesis using order_less_le_trans by blast
qed

definition class_of :: "string \<Rightarrow> glob" where
  "class_of body = (if take 1 body = ''!'' then Class False (class_items (drop 1 body))
                    else Class True (class_items body))"

function glob_of :: "string \<Rightarrow> glob list" where
  "glob_of [] = []"
| "glob_of (c # s) =
     (if c = CHR ''*'' then Star # glob_of s
      else if c = CHR ''?'' then Any # glob_of s
      else if c = CHR ''['' then
        (case split_class s of None \<Rightarrow> Lit c # glob_of s
         | Some (body, rest) \<Rightarrow> class_of body # glob_of rest)
      else Lit c # glob_of s)"
  by pat_completeness auto
termination
  by (relation "measure length") (auto dest: split_class_length)

definition in_class :: "(char \<times> char) list \<Rightarrow> char \<Rightarrow> bool" where
  "in_class rs c \<longleftrightarrow> list_ex (\<lambda>(a, b). a \<le> c \<and> c \<le> b) rs"

fun one_char :: "glob \<Rightarrow> char \<Rightarrow> bool" where
  "one_char Star c = False"
| "one_char Any c = True"
| "one_char (Lit d) c = (c = d)"
| "one_char (Class b rs) c = (in_class rs c = b)"

fun glob_match :: "glob list \<Rightarrow> string \<Rightarrow> bool" where
  "glob_match [] s = (s = [])"
| "glob_match (t # g) [] = (t = Star \<and> glob_match g [])"
| "glob_match (t # g) (c # s) =
     (if t = Star then glob_match g (c # s) \<or> glob_match (t # g) s
      else one_char t c \<and> glob_match g s)"

definition fnmatch :: "string \<Rightarrow> string \<Rightarrow> bool" where
  "fnmatch name pat = glob_match (glob_of pat) name"

lemma glob_match_Star: "glob_match (Star # g) s \<longleftrightarrow> (\<exists>n \<le> length s. glob_match g (drop n s))"
proof (induction s)
  case (Cons c s)
  have "(\<exists>n \<le> Suc (length s). glob_match g (drop n (c # s)))
      \<longleftrightarrow> glob_match g (c # s) \<or> (\<exists>n \<le> length s. glob_match g (drop n s))"
    by (metis Suc_le_mono drop0 drop_Suc_Cons not0_implies_Suc zero_le)
  with Cons show ?case by simp
qed simp

lemma glob_of_literal:
  "set s \<inter> {CHR ''*'', CHR ''?'', CHR ''[''} = {} \<Longrightarrow> glob_of s = map Lit s"
  by (induction s) auto

lemma glob_match_literal: "glob_match (map Lit s) t \<longleftrightarrow> t = s"
proof (induction s arbitrary: t)
  case (Cons c s)
  then show ?case by (cases t) auto
qed simp

end
