(* ===== verification/ReviewPolicy.thy ===== *)
theory ReviewPolicy
  imports StdText "HOL-Library.Multiset"
begin

section \<open>The review policy\<close>

text \<open>
  \<open>backend/services/review_policy.py\<close>: the policy document, the effective level of a rule on a
  path, validation, the canonical form the hash digests, and loading with the built-in default.
  Parameters: \<open>sha256\<close> (the digest), \<open>safe_load\<close>/\<open>safe_dump\<close> (PyYAML), \<open>model_validate\<close> (the schema check of
  pydantic) and \<open>float_repr\<close> (how \<open>json\<close> prints a check's timeout, a float kept opaque here).
\<close>

definition LEVEL_BLOCKING :: string where "LEVEL_BLOCKING = ''blocking''"
definition LEVEL_DEBT :: string where "LEVEL_DEBT = ''debt''"
definition LEVELS :: "string list" where "LEVELS = [LEVEL_BLOCKING, LEVEL_DEBT]"
definition EXCEPTION_STATUSES :: "string list" where "EXCEPTION_STATUSES = [''wontfix'', ''acknowledged'']"
definition PR_POLICIES :: "string list" where "PR_POLICIES = [''on_green'', ''always'', ''never'']"
definition CURATOR_MODES :: "string list" where "CURATOR_MODES = [''off'', ''bootstrap'', ''auto'']"
definition SOURCE_FILE :: string where "SOURCE_FILE = ''file''"
definition SOURCE_BUILTIN :: string where "SOURCE_BUILTIN = ''builtin-default''"

definition BUILTIN_RULES :: "string list" where
  "BUILTIN_RULES =
     [''backend.no-typing-optional'', ''backend.logger-name'', ''backend.dead-import'',
      ''backend.duplicate-implementation'', ''docs.missing-route-doc'', ''docs.route-table-drift'',
      ''openapi.schema-order'', ''gates.failed'', ''meta.rule-quality'']"

record policy_defaults =
  auto_review :: bool
  max_findings_per_run :: int
  pr_policy :: string
  auto_fix :: bool
  curator :: string
  curator_min_interval_seconds :: int

record rule_policy =
  rule_id :: string
  rule_level :: string
  default_due_days :: "int option"
  rule_autofix :: bool

record policy_exception =
  exc_rule :: string
  exc_paths :: "string list"
  exc_reason :: string
  exc_decided_by :: "string option"
  exc_due :: date
  exc_status :: string

record policy_escalation =
  rule_noise_threshold :: int
  rule_count_threshold :: int

record policy_check =
  check_id :: string
  check_command :: string
  check_cwd :: string
  check_timeout :: "string option"

record policy_document =
  version :: int
  defaults :: policy_defaults
  rules :: "rule_policy list"
  exceptions :: "policy_exception list"
  escalation :: policy_escalation
  checks :: "policy_check list"
  policy_source :: string
  policy_hash_field :: string
  policy_warnings :: "string list"
  policy_path :: "string option"

datatype policy_error = PolicyValidationError string | PolicyDependencyError

subsection \<open>Derived accessors\<close>

definition path_matches :: "string \<Rightarrow> string \<Rightarrow> bool" where
  "path_matches pattern path \<longleftrightarrow>
     fnmatch path pattern \<or> startswith path (rstrip_char CHR ''/'' pattern @ ''/'')"

definition covers :: "policy_exception \<Rightarrow> string \<Rightarrow> string option \<Rightarrow> bool" where
  "covers e rid path =
     (if exc_rule e \<noteq> rid then False
      else if exc_paths e = [] then True
      else (case path of None \<Rightarrow> False | Some p \<Rightarrow> list_ex (\<lambda>pat. path_matches pat p) (exc_paths e)))"

definition readonly :: "policy_document \<Rightarrow> bool" where
  "readonly doc \<longleftrightarrow> policy_source doc = SOURCE_BUILTIN"

definition find_rule :: "policy_document \<Rightarrow> string \<Rightarrow> rule_policy option" where
  "find_rule doc rid = find (\<lambda>r. rule_id r = rid) (rules doc)"

record rule_settings =
  set_id :: string
  set_level :: string
  set_due_days :: "int option"
  set_autofix :: bool
  set_known :: bool

definition rule :: "policy_document \<Rightarrow> string \<Rightarrow> rule_settings" where
  "rule doc rid =
     (case find_rule doc rid of
        None \<Rightarrow> \<lparr>set_id = rid, set_level = (if readonly doc then LEVEL_BLOCKING else LEVEL_DEBT),
                 set_due_days = None, set_autofix = False, set_known = False\<rparr>
      | Some r \<Rightarrow> \<lparr>set_id = rule_id r,
                   set_level = (if rule_level r \<in> set LEVELS then rule_level r else LEVEL_DEBT),
                   set_due_days = default_due_days r, set_autofix = rule_autofix r, set_known = True\<rparr>)"

fun apply_exceptions :: "string \<Rightarrow> string option \<Rightarrow> policy_exception list \<Rightarrow> string \<Rightarrow> string" where
  "apply_exceptions rid path [] level = level"
| "apply_exceptions rid path (e # es) level =
     (if \<not> covers e rid path then apply_exceptions rid path es level
      else if exc_status e = ''acknowledged'' \<and> level = LEVEL_BLOCKING
      then apply_exceptions rid path es level
      else apply_exceptions rid path es LEVEL_DEBT)"

definition effective_level :: "policy_document \<Rightarrow> string \<Rightarrow> string option \<Rightarrow> string" where
  "effective_level doc rid path = apply_exceptions rid path (exceptions doc) (set_level (rule doc rid))"

definition exception_for :: "policy_document \<Rightarrow> string \<Rightarrow> string option \<Rightarrow> policy_exception option" where
  "exception_for doc rid path = find (\<lambda>e. covers e rid path) (exceptions doc)"

subsection \<open>JSON views and the canonical form\<close>

fun opt_json :: "('a \<Rightarrow> json) \<Rightarrow> 'a option \<Rightarrow> json" where
  "opt_json f None = JNull"
| "opt_json f (Some x) = f x"

definition defaults_json :: "policy_defaults \<Rightarrow> json" where
  "defaults_json d = JObj
     [(''auto_review'', JBool (auto_review d)),
      (''max_findings_per_run'', JInt (max_findings_per_run d)),
      (''pr_policy'', JStr (pr_policy d)), (''auto_fix'', JBool (auto_fix d)),
      (''curator'', JStr (curator d)),
      (''curator_min_interval_seconds'', JInt (curator_min_interval_seconds d))]"

definition rule_json :: "rule_policy \<Rightarrow> json" where
  "rule_json r = JObj
     [(''id'', JStr (rule_id r)), (''level'', JStr (rule_level r)),
      (''default_due_days'', opt_json JInt (default_due_days r)), (''autofix'', JBool (rule_autofix r))]"

definition exception_json :: "policy_exception \<Rightarrow> json" where
  "exception_json e = JObj
     [(''rule'', JStr (exc_rule e)), (''paths'', JList (map JStr (exc_paths e))),
      (''reason'', JStr (exc_reason e)), (''decided_by'', opt_json JStr (exc_decided_by e)),
      (''due'', JStr (isoformat (exc_due e))), (''status'', JStr (exc_status e))]"

definition escalation_json :: "policy_escalation \<Rightarrow> json" where
  "escalation_json x = JObj
     [(''rule_noise_threshold'', JInt (rule_noise_threshold x)),
      (''rule_count_threshold'', JInt (rule_count_threshold x))]"

definition check_json :: "(string \<Rightarrow> json) \<Rightarrow> policy_check \<Rightarrow> json" where
  "check_json float_repr c = JObj
     [(''id'', JStr (check_id c)), (''command'', JStr (check_command c)),
      (''cwd'', JStr (check_cwd c)), (''timeout'', opt_json float_repr (check_timeout c))]"

definition policy_payload :: "(string \<Rightarrow> json) \<Rightarrow> policy_document \<Rightarrow> (string \<times> json) list" where
  "policy_payload float_repr doc =
     [(''version'', JInt (version doc)), (''defaults'', defaults_json (defaults doc)),
      (''rules'', JList (map rule_json (rules doc))),
      (''exceptions'', JList (map exception_json (exceptions doc))),
      (''escalation'', escalation_json (escalation doc))]
     @ (if checks doc \<noteq> [] then [(''checks'', JList (map (check_json float_repr) (checks doc)))] else [])"

definition canonical_json :: "(string \<Rightarrow> json) \<Rightarrow> policy_document \<Rightarrow> string" where
  "canonical_json float_repr doc = dumps (JObj (policy_payload float_repr doc))"

definition as_payload :: "(string \<Rightarrow> json) \<Rightarrow> policy_document \<Rightarrow> json" where
  "as_payload float_repr doc = JObj
     [(''version'', JInt (version doc)), (''defaults'', defaults_json (defaults doc)),
      (''rules'', JList (map rule_json (rules doc))),
      (''exceptions'', JList (map exception_json (exceptions doc))),
      (''escalation'', escalation_json (escalation doc)),
      (''checks'', JList (map (check_json float_repr) (checks doc))),
      (''policy_source'', JStr (policy_source doc)), (''policy_hash'', JStr (policy_hash_field doc)),
      (''warnings'', JList (map JStr (policy_warnings doc))),
      (''path'', opt_json JStr (policy_path doc)), (''readonly'', JBool (readonly doc))]"

definition policy_hash :: "(string \<Rightarrow> string) \<Rightarrow> (string \<Rightarrow> json) \<Rightarrow> policy_document \<Rightarrow> string" where
  "policy_hash sha256 float_repr doc = sha256 (canonical_json float_repr doc)"

definition hash_changed :: "string option \<Rightarrow> string option \<Rightarrow> bool" where
  "hash_changed previous current =
     (if opt_str previous = [] \<or> opt_str current = [] then False else previous \<noteq> current)"

definition dump :: "((string \<times> json) list \<Rightarrow> string) \<Rightarrow> (string \<Rightarrow> json) \<Rightarrow> policy_document \<Rightarrow> string" where
  "dump safe_dump float_repr doc = safe_dump (policy_payload float_repr doc)"

subsection \<open>Validation\<close>

text \<open>
  The three loops of \<open>validate_document\<close>, each stopping at the first violation (the em dash of the
  warning is written as two hyphens). Subscripts in the
  messages are positions in the file.
\<close>

definition indexed :: "string \<Rightarrow> nat \<Rightarrow> string" where
  "indexed what i = what @ ''['' @ str_of_nat i @ '']''"

fun validate_exceptions :: "date \<Rightarrow> string set \<Rightarrow> nat \<Rightarrow> policy_exception list \<Rightarrow> string list
    \<Rightarrow> policy_error + string list" where
  "validate_exceptions moment known i [] warnings = Inr warnings"
| "validate_exceptions moment known i (e # es) warnings =
     (if exc_due e \<le> moment then
        Inl (PolicyValidationError (indexed ''exceptions'' i @ '' ('' @ exc_rule e @ '') has due=''
          @ isoformat (exc_due e) @ '', which is not after today ('' @ isoformat moment @ '')''))
      else if exc_status e \<notin> set EXCEPTION_STATUSES then
        Inl (PolicyValidationError (indexed ''exceptions'' i @ '' ('' @ exc_rule e @ '') has status=''
          @ exc_status e @ ''; expected one of '' @ join '', '' EXCEPTION_STATUSES))
      else validate_exceptions moment known (Suc i) es
        (if exc_rule e \<in> known then warnings
         else warnings @ [indexed ''exceptions'' i @ '' references rule '' @ exc_rule e @ '', which this ''
           @ ''policy does not define (unknown rule -- the exception is inert until the rule exists)'']))"

fun validate_rules :: "string set \<Rightarrow> rule_policy list \<Rightarrow> policy_error option" where
  "validate_rules seen [] = None"
| "validate_rules seen (r # rs) =
     (if rule_id r \<in> seen
      then Some (PolicyValidationError (''rules declares '' @ rule_id r @ '' more than once''))
      else if rule_level r \<notin> set LEVELS
      then Some (PolicyValidationError (''rules['' @ rule_id r @ ''].level='' @ rule_level r
             @ ''; expected one of '' @ join '', '' LEVELS))
      else validate_rules (insert (rule_id r) seen) rs)"

fun validate_checks :: "string set \<Rightarrow> nat \<Rightarrow> policy_check list \<Rightarrow> policy_error option" where
  "validate_checks seen i [] = None"
| "validate_checks seen i (c # cs) =
     (if py_strip (check_id c) = []
      then Some (PolicyValidationError (indexed ''checks'' i @ '' has an empty id''))
      else if check_id c \<in> seen
      then Some (PolicyValidationError (''checks declares '' @ check_id c @ '' more than once''))
      else if py_strip (check_command c) = []
      then Some (PolicyValidationError (''checks['' @ check_id c @ ''].command is empty''))
      else validate_checks (insert (check_id c) seen) (Suc i) cs)"

definition validate_document :: "date \<Rightarrow> policy_document \<Rightarrow> policy_error + string list" where
  "validate_document moment doc =
     (if pr_policy (defaults doc) \<notin> set PR_POLICIES
      then Inl (PolicyValidationError (''defaults.pr_policy='' @ pr_policy (defaults doc)
             @ ''; expected one of '' @ join '', '' PR_POLICIES))
      else if curator (defaults doc) \<notin> set CURATOR_MODES
      then Inl (PolicyValidationError (''defaults.curator='' @ curator (defaults doc)
             @ ''; expected one of '' @ join '', '' CURATOR_MODES))
      else case validate_exceptions moment (set (map rule_id (rules doc))) 0 (exceptions doc) [] of
        Inl e \<Rightarrow> Inl e
      | Inr warnings \<Rightarrow>
          (case validate_rules {} (rules doc) of
             Some e \<Rightarrow> Inl e
           | None \<Rightarrow> (case validate_checks {} 0 (checks doc) of
               Some e \<Rightarrow> Inl e | None \<Rightarrow> Inr warnings)))"

definition check_warnings :: "date \<Rightarrow> policy_document \<Rightarrow> policy_error + string list" where
  "check_warnings today doc = validate_document today doc"

definition with_hash :: "(string \<Rightarrow> string) \<Rightarrow> (string \<Rightarrow> json) \<Rightarrow> date \<Rightarrow> policy_document
    \<Rightarrow> policy_error + policy_document" where
  "with_hash sha256 float_repr now doc =
     (case check_warnings now doc of
        Inl e \<Rightarrow> Inl e
      | Inr ws \<Rightarrow> let d = doc\<lparr>policy_warnings := ws\<rparr>
                  in Inr (d\<lparr>policy_hash_field := policy_hash sha256 float_repr d\<rparr>))"

subsection \<open>Built-in default, parsing and loading\<close>

definition builtin_defaults :: policy_defaults where
  "builtin_defaults = \<lparr>auto_review = True, max_findings_per_run = 50, pr_policy = ''on_green'',
     auto_fix = False, curator = ''bootstrap'', curator_min_interval_seconds = 3600\<rparr>"

definition builtin_escalation :: policy_escalation where
  "builtin_escalation = \<lparr>rule_noise_threshold = 3, rule_count_threshold = 20\<rparr>"

definition builtin_default :: "(string \<Rightarrow> string) \<Rightarrow> (string \<Rightarrow> json) \<Rightarrow> string option \<Rightarrow> policy_document" where
  "builtin_default sha256 float_repr path =
     (let doc = \<lparr>version = 1, defaults = builtin_defaults,
            rules = map (\<lambda>rid. \<lparr>rule_id = rid, rule_level = LEVEL_BLOCKING, default_due_days = None,
                              rule_autofix = False\<rparr>) BUILTIN_RULES,
            exceptions = [], escalation = builtin_escalation, checks = [],
            policy_source = SOURCE_BUILTIN, policy_hash_field = [], policy_warnings = [],
            policy_path = path\<rparr>
      in doc\<lparr>policy_hash_field := policy_hash sha256 float_repr doc\<rparr>)"

text \<open>
  What PyYAML can answer: not installed, a syntax error with its text, or a value.
\<close>

datatype yaml_result = YamlMissing | YamlError string | YamlValue json

definition parse_yaml :: "yaml_result \<Rightarrow> policy_error + (string \<times> json) list" where
  "parse_yaml loaded =
     (case loaded of
        YamlMissing \<Rightarrow> Inl PolicyDependencyError
      | YamlError exc \<Rightarrow> Inl (PolicyValidationError (''invalid YAML: '' @ exc))
      | YamlValue JNull \<Rightarrow> Inr []
      | YamlValue (JObj kvs) \<Rightarrow> Inr kvs
      | YamlValue v \<Rightarrow> Inl (PolicyValidationError
          (''the policy document must be a mapping, got '' @ json_type_name v)))"

definition parse_document :: "((string \<times> json) list \<Rightarrow> string + policy_document) \<Rightarrow> (string \<Rightarrow> string)
    \<Rightarrow> (string \<Rightarrow> json) \<Rightarrow> date \<Rightarrow> (string \<times> json) list \<Rightarrow> string \<Rightarrow> string option
    \<Rightarrow> policy_error + policy_document" where
  "parse_document model_validate sha256 float_repr today raw source path =
     (case model_validate raw of
        Inl exc \<Rightarrow> Inl (PolicyValidationError (''policy schema violation: '' @ exc))
      | Inr parsed \<Rightarrow>
          (let doc = parsed\<lparr>policy_source := source, policy_path := path\<rparr>
           in case validate_document today doc of
                Inl e \<Rightarrow> Inl e
              | Inr ws \<Rightarrow> (let d = doc\<lparr>policy_warnings := ws\<rparr>
                           in Inr (d\<lparr>policy_hash_field := policy_hash sha256 float_repr d\<rparr>))))"

record policy_load =
  load_document :: policy_document
  load_source :: string
  load_reason :: string

definition load_file :: "((string \<times> json) list \<Rightarrow> string + policy_document) \<Rightarrow> (string \<Rightarrow> string)
    \<Rightarrow> (string \<Rightarrow> json) \<Rightarrow> (string \<Rightarrow> yaml_result) \<Rightarrow> date \<Rightarrow> string \<Rightarrow> string option
    \<Rightarrow> policy_error + policy_load" where
  "load_file model_validate sha256 float_repr safe_load today location content =
     (case content of
        None \<Rightarrow> Inr \<lparr>load_document = builtin_default sha256 float_repr (Some location),
                     load_source = SOURCE_BUILTIN, load_reason = location @ '' does not exist''\<rparr>
      | Some text \<Rightarrow>
          (case parse_yaml (safe_load text) of
             Inl e \<Rightarrow> Inl e
           | Inr raw \<Rightarrow>
               (case parse_document model_validate sha256 float_repr today raw SOURCE_FILE (Some location) of
                  Inl e \<Rightarrow> Inl e
                | Inr doc \<Rightarrow> Inr \<lparr>load_document = doc, load_source = SOURCE_FILE, load_reason = []\<rparr>)))"

definition POLICY_RELATIVE_PATH :: string where "POLICY_RELATIVE_PATH = ''.agent/review-policy.yml''"

text \<open>\<open>load\<close>: the file system is the argument \<open>read_file\<close>, the content of a path if it is a file.\<close>

definition load_policy :: "((string \<times> json) list \<Rightarrow> string + policy_document) \<Rightarrow> (string \<Rightarrow> string)
    \<Rightarrow> (string \<Rightarrow> json) \<Rightarrow> (string \<Rightarrow> yaml_result) \<Rightarrow> date \<Rightarrow> (string \<Rightarrow> string option) \<Rightarrow> string
    \<Rightarrow> policy_error + policy_document" where
  "load_policy model_validate sha256 float_repr safe_load today read_file root =
     (let location = root @ ''/'' @ POLICY_RELATIVE_PATH
      in case load_file model_validate sha256 float_repr safe_load today location (read_file location) of
           Inl e \<Rightarrow> Inl e | Inr l \<Rightarrow> Inr (load_document l))"

subsection \<open>The level a rule has\<close>

lemma level_names [simp]: "LEVEL_BLOCKING \<noteq> LEVEL_DEBT" "LEVEL_DEBT \<noteq> LEVEL_BLOCKING"
  by (simp_all add: LEVEL_BLOCKING_def LEVEL_DEBT_def)

lemma set_level_in_LEVELS: "set_level (rule doc rid) \<in> {LEVEL_BLOCKING, LEVEL_DEBT}"
  by (auto simp: rule_def LEVELS_def split: option.split)

lemma apply_exceptions_debt: "apply_exceptions rid path es LEVEL_DEBT = LEVEL_DEBT"
  by (induction es) auto

lemma apply_exceptions_blocking:
  "apply_exceptions rid path es LEVEL_BLOCKING =
     (if list_ex (\<lambda>e. covers e rid path \<and> exc_status e \<noteq> ''acknowledged'') es
      then LEVEL_DEBT else LEVEL_BLOCKING)"
  by (induction es) (auto simp: apply_exceptions_debt)

lemma effective_level_eq:
  "effective_level doc rid path =
     (if set_level (rule doc rid) = LEVEL_BLOCKING
         \<and> (\<forall>e \<in> set (exceptions doc). covers e rid path \<longrightarrow> exc_status e = ''acknowledged'')
      then LEVEL_BLOCKING else LEVEL_DEBT)"
proof (cases "set_level (rule doc rid) = LEVEL_BLOCKING")
  case True
  then show ?thesis
    by (auto simp: effective_level_def apply_exceptions_blocking list_ex_iff)
next
  case False
  then have "set_level (rule doc rid) = LEVEL_DEBT" using set_level_in_LEVELS [of doc rid] by simp
  with False show ?thesis by (simp add: effective_level_def apply_exceptions_debt)
qed

text \<open>
  what an exception can do. A rule is blocking on a path exactly when its own level is blocking
  and every exception that covers it there is merely acknowledged; otherwise it is debt. So an
  exception never strengthens a rule, and the order of exceptions never matters.
\<close>

theorem effective_level_spec:
  "effective_level doc rid path =
     (if set_level (rule doc rid) = LEVEL_BLOCKING
         \<and> \<not> list_ex (\<lambda>e. covers e rid path \<and> exc_status e \<noteq> ''acknowledged'') (exceptions doc)
      then LEVEL_BLOCKING else LEVEL_DEBT)"
  unfolding effective_level_eq list_ex_iff by auto

subsection \<open>What validation accepts\<close>

lemma validate_exceptions_ok:
  "(\<exists>ws. validate_exceptions moment known i es w = Inr ws)
   \<longleftrightarrow> (\<forall>e \<in> set es. moment < exc_due e \<and> exc_status e \<in> set EXCEPTION_STATUSES)"
  by (induction es arbitrary: i w) (auto simp: not_le)

lemma validate_rules_ok:
  "validate_rules seen rs = None \<longleftrightarrow> distinct (map rule_id rs) \<and> set (map rule_id rs) \<inter> seen = {}
     \<and> (\<forall>r \<in> set rs. rule_level r \<in> set LEVELS)"
  by (induction rs arbitrary: seen) auto

lemma validate_checks_ok:
  "validate_checks seen i cs = None \<longleftrightarrow> distinct (map check_id cs) \<and> set (map check_id cs) \<inter> seen = {}
     \<and> (\<forall>c \<in> set cs. py_strip (check_id c) \<noteq> [] \<and> py_strip (check_command c) \<noteq> [])"
  by (induction cs arbitrary: seen i) auto

lemma validate_exceptions_warnings:
  "validate_exceptions moment known i es w = Inr ws
   \<Longrightarrow> length ws = length w + length (filter (\<lambda>e. exc_rule e \<notin> known) es)"
  by (induction es arbitrary: i w) (auto split: if_splits)

lemma validate_ok_iff:
  "(\<exists>ws. validate_document moment doc = Inr ws)
   \<longleftrightarrow> pr_policy (defaults doc) \<in> set PR_POLICIES \<and> curator (defaults doc) \<in> set CURATOR_MODES
     \<and> (\<forall>e \<in> set (exceptions doc). moment < exc_due e \<and> exc_status e \<in> set EXCEPTION_STATUSES)
     \<and> distinct (map rule_id (rules doc)) \<and> (\<forall>r \<in> set (rules doc). rule_level r \<in> set LEVELS)
     \<and> distinct (map check_id (checks doc))
     \<and> (\<forall>c \<in> set (checks doc). py_strip (check_id c) \<noteq> [] \<and> py_strip (check_command c) \<noteq> [])"
  (is "?accepted \<longleftrightarrow> ?spec")
proof -
  let ?v = "validate_exceptions moment (set (map rule_id (rules doc))) 0 (exceptions doc) []"
  have "?accepted \<longleftrightarrow> pr_policy (defaults doc) \<in> set PR_POLICIES \<and> curator (defaults doc) \<in> set CURATOR_MODES
      \<and> (\<exists>ws. ?v = Inr ws) \<and> validate_rules {} (rules doc) = None \<and> validate_checks {} 0 (checks doc) = None"
    by (auto simp: validate_document_def split: sum.splits option.splits)
  then show ?thesis
    by (simp add: validate_exceptions_ok validate_rules_ok validate_checks_ok)
qed

text \<open>
  Which documents validate: known run-level switches, every exception due strictly after today
  with a known status, rules with distinct ids and known levels, checks with distinct non-blank
  ids and non-blank commands. An accepted document has one warning per exception that names a rule it does
  not define.
\<close>

theorem validate_document_accepts:
  "(\<exists>ws. validate_document moment doc = Inr ws)
   \<longleftrightarrow> pr_policy (defaults doc) \<in> set PR_POLICIES \<and> curator (defaults doc) \<in> set CURATOR_MODES
     \<and> list_all (\<lambda>e. moment < exc_due e \<and> exc_status e \<in> set EXCEPTION_STATUSES) (exceptions doc)
     \<and> distinct (map rule_id (rules doc)) \<and> list_all (\<lambda>r. rule_level r \<in> set LEVELS) (rules doc)
     \<and> distinct (map check_id (checks doc))
     \<and> list_all (\<lambda>c. py_strip (check_id c) \<noteq> [] \<and> py_strip (check_command c) \<noteq> []) (checks doc)"
  unfolding validate_ok_iff list_all_iff ..

lemma find_unique_rule:
  "distinct (map rule_id rs) \<Longrightarrow> r \<in> set rs \<Longrightarrow> find (\<lambda>x. rule_id x = rule_id r) rs = Some r"
  by (induction rs) auto

text \<open>
  In a validated document the order of the rules and of the exceptions is irrelevant: two
  documents with the same rules and exceptions in any order give every rule the same level on every path.
\<close>

theorem levels_ignore_order:
  assumes "validate_document moment doc = Inr ws"
    and "mset (rules doc') = mset (rules doc)" and "mset (exceptions doc') = mset (exceptions doc)"
    and "policy_source doc' = policy_source doc"
  shows "effective_level doc' rid path = effective_level doc rid path"
proof -
  have dist: "distinct (map rule_id (rules doc))"
    using assms(1) validate_ok_iff by blast
  then have dist': "distinct (map rule_id (rules doc'))"
    using assms(2) by (metis mset_map mset_eq_imp_distinct_iff)
  have same: "set (rules doc') = set (rules doc)" "set (exceptions doc') = set (exceptions doc)"
    using assms(2,3) by (metis set_mset_mset)+
  have "find_rule doc' rid = find_rule doc rid"
  proof (cases "find_rule doc rid")
    case None
    then have "find_rule doc' rid = None"
      using same(1) by (simp add: find_rule_def find_None_iff)
    with None show ?thesis by simp
  next
    case (Some r)
    then have "r \<in> set (rules doc)" "rule_id r = rid" by (auto simp: find_rule_def dest: find_SomeD)
    then show ?thesis using find_unique_rule [OF dist'] same(1) Some by (auto simp: find_rule_def)
  qed
  then have "rule doc' rid = rule doc rid" by (simp add: rule_def readonly_def assms(4))
  then show ?thesis by (simp add: effective_level_eq same(2))
qed

text \<open>
  A repository without a policy file is reviewed under the strict default: loading succeeds, the
  document is read-only and valid on any day, every rule, listed or not, is blocking on every path and none may
  be fixed unattended.
\<close>

theorem missing_file_is_strict:
  "\<exists>l. load_file mv sha fr sl today loc None = Inr l \<and> readonly (load_document l)
     \<and> validate_document day (load_document l) = Inr []
     \<and> effective_level (load_document l) rid path = LEVEL_BLOCKING
     \<and> \<not> set_autofix (rule (load_document l) rid)"
proof -
  let ?doc = "builtin_default sha fr (Some loc)"
  have parts: "exceptions ?doc = []" "policy_source ?doc = SOURCE_BUILTIN"
      "rules ?doc = map (\<lambda>rid. \<lparr>rule_id = rid, rule_level = LEVEL_BLOCKING, default_due_days = None,
        rule_autofix = False\<rparr>) BUILTIN_RULES"
    by (simp_all add: builtin_default_def Let_def)
  have "set_level (rule ?doc rid) = LEVEL_BLOCKING \<and> \<not> set_autofix (rule ?doc rid)"
    by (auto simp: rule_def find_rule_def parts readonly_def LEVELS_def split: option.split dest!: find_SomeD)
  moreover have "validate_document day ?doc = Inr []"
    by (simp add: validate_document_def builtin_default_def Let_def builtin_defaults_def PR_POLICIES_def
        CURATOR_MODES_def BUILTIN_RULES_def LEVELS_def)
  ultimately show ?thesis
    by (simp add: load_file_def effective_level_eq parts readonly_def)
qed

text \<open>
  The hash covers the policy and nothing else: documents that differ only in the platform's
  annotations (source, path, warnings, stored hash) have the same canonical form.
\<close>

theorem canonical_json_ignores_annotations:
  "canonical_json fr (doc\<lparr>policy_source := s, policy_path := p, policy_warnings := w, policy_hash_field := h\<rparr>)
   = canonical_json fr doc"
  by (simp add: canonical_json_def policy_payload_def)

subsection \<open>Concrete policies\<close>

abbreviation sample_rule :: "string \<Rightarrow> rule_policy" where
  "sample_rule rid \<equiv> \<lparr>rule_id = rid, rule_level = LEVEL_BLOCKING, default_due_days = None, rule_autofix = False\<rparr>"

abbreviation sample_policy :: "rule_policy list \<Rightarrow> policy_document" where
  "sample_policy rs \<equiv> \<lparr>version = 1, defaults = builtin_defaults, rules = rs,
     exceptions = [\<lparr>exc_rule = ''a'', exc_paths = [''docs/*''], exc_reason = [], exc_decided_by = None,
       exc_due = Date 2030 1 1, exc_status = ''wontfix''\<rparr>],
     escalation = builtin_escalation, checks = [], policy_source = SOURCE_FILE,
     policy_hash_field = [], policy_warnings = [], policy_path = None\<rparr>"

lemma sorted_payload:
  "sort_key fst [(''version'', a), (''defaults'', b), (''rules'', c), (''exceptions'', d), (''escalation'', e)]
   = [(''defaults'', b), (''escalation'', e), (''exceptions'', d), (''rules'', c), (''version'', a :: json)]"
  by code_simp

lemma sorted_rule:
  "sort_key fst [(''id'', a), (''level'', b), (''default_due_days'', c), (''autofix'', d)]
   = [(''autofix'', d), (''default_due_days'', c), (''id'', a), (''level'', b :: json)]"
  by code_simp

lemma canonical_json_parts:
  assumes "checks doc = []"
  shows "canonical_json fr doc = ''{'' @ json_string ''defaults'' @ '':'' @ dumps (defaults_json (defaults doc))
    @ '','' @ json_string ''escalation'' @ '':'' @ dumps (escalation_json (escalation doc))
    @ '','' @ json_string ''exceptions'' @ '':'' @ dumps (JList (map exception_json (exceptions doc)))
    @ '','' @ json_string ''rules'' @ '':'' @ dumps (JList (map rule_json (rules doc)))
    @ '','' @ json_string ''version'' @ '':'' @ dumps (JInt (version doc)) @ ''}''"
  using assms by (simp add: canonical_json_def policy_payload_def dumps_def sorted_payload del: json_text.simps(5) sort_keys.simps(1))

lemma rule_text:
  "dumps (rule_json (sample_rule rid)) =
     ''{'' @ json_string ''autofix'' @ '':false,'' @ json_string ''default_due_days'' @ '':null,''
     @ json_string ''id'' @ '':'' @ json_string rid @ '','' @ json_string ''level'' @ '':'' @ json_string LEVEL_BLOCKING @ ''}''"
  by (simp add: rule_json_def dumps_def sorted_rule)

lemma rules_text:
  "dumps (JList [a, b]) = ''['' @ dumps a @ '','' @ dumps b @ '']''"
  by (simp add: dumps_def)

text \<open>
  the canonical form keeps the order of the rules: the same two rules in the other order give another
  text, so moving a rule in the file makes two reports incomparable.
\<close>

theorem canonical_json_keeps_rule_order:
  "\<exists>doc doc'. mset (rules doc') = mset (rules doc) \<and> doc' = doc\<lparr>rules := rules doc'\<rparr>
     \<and> canonical_json fr doc' \<noteq> canonical_json fr doc"
proof (intro exI conjI)
  let ?d = "sample_policy [sample_rule ''a'', sample_rule ''b'']"
  let ?e = "sample_policy [sample_rule ''b'', sample_rule ''a'']"
  show "mset (rules ?e) = mset (rules ?d)" by simp
  show "?e = ?d\<lparr>rules := rules ?e\<rparr>" by simp
  show "canonical_json fr ?e \<noteq> canonical_json fr ?d"
  proof -
    have "json_string ''a'' = [CHR 0x22, CHR ''a'', CHR 0x22]" "json_string ''b'' = [CHR 0x22, CHR ''b'', CHR 0x22]"
      by code_simp+
    then have "dumps (JList (map rule_json (rules ?e))) \<noteq> dumps (JList (map rule_json (rules ?d)))"
      by (simp add: rules_text rule_text)
    moreover have "length (dumps (JList (map rule_json (rules ?e)))) = length (dumps (JList (map rule_json (rules ?d))))"
      by (simp add: rules_text)
    ultimately show ?thesis
      by (simp only: canonical_json_parts policy_document.simps append_assoc same_append_eq append_eq_append_conv) simp
  qed
qed

theorem levels_ignore_order_witness:
  "effective_level (sample_policy [sample_rule ''b'', sample_rule ''a'']) ''a'' (Some ''docs/x.md'') = LEVEL_DEBT"
proof -
  have "\<exists>ws. validate_document (Date 2026 1 1) (sample_policy [sample_rule ''a'', sample_rule ''b'']) = Inr ws"
    unfolding validate_ok_iff
    by (simp add: builtin_defaults_def PR_POLICIES_def CURATOR_MODES_def EXCEPTION_STATUSES_def LEVELS_def
        less_date_def)
  then obtain ws where v: "validate_document (Date 2026 1 1) (sample_policy [sample_rule ''a'', sample_rule ''b'']) = Inr ws" ..
  have match: "path_matches ''docs/*'' ''docs/x.md''" by code_simp
  have "effective_level (sample_policy [sample_rule ''a'', sample_rule ''b'']) ''a'' (Some ''docs/x.md'') = LEVEL_DEBT"
    by (simp add: effective_level_eq covers_def match)
  then show ?thesis
    using levels_ignore_order [OF v, of "sample_policy [sample_rule ''b'', sample_rule ''a'']" "''a''" "Some ''docs/x.md''"]
    by (simp add: add_mset_commute)
qed

end
