(* ===== verification/Drift.thy ===== *)
theory Drift
  imports StdText "HOL-Library.Product_Lexorder"
begin

section \<open>Code drift\<close>

text \<open>
  The pure half of \<open>backend/services/findings.py\<close>: line intervals, the ranges a unified diff
  changes, where a symbol sits in a file, and the read-only git adapter that joins them. Parameters:
  \<open>py_ast\<close> (the definitions \<open>ast.parse\<close> finds, \<open>None\<close> on a syntax error) and \<open>git\<close> (one run of the
  command line tool). The em dash of a detail text is two hyphens here. Strings are ASCII, so \<open>\s\<close> and \<open>\d\<close> of the regular expressions are the ASCII classes.
\<close>

type_synonym ranges = "(int \<times> int) list"

record symbol_range =
  sym_path :: string
  sym_name :: string
  sym_start :: int
  sym_end :: int

record drift_context =
  drift_symbol :: "symbol_range option"
  drift_changed :: ranges
  drift_detail :: string

subsection \<open>Intervals\<close>

fun ordered_pair :: "int \<times> int \<Rightarrow> int \<times> int" where
  "ordered_pair (a, b) = (min a b, max a b)"

definition ranges_intersect :: "int \<times> int \<Rightarrow> int \<times> int \<Rightarrow> bool" where
  "ranges_intersect left right =
     (let (a_start, a_end) = ordered_pair left; (b_start, b_end) = ordered_pair right
      in a_start \<le> b_end \<and> b_start \<le> a_end)"

definition overlaps :: "symbol_range \<Rightarrow> ranges \<Rightarrow> bool" where
  "overlaps s rs = list_ex (\<lambda>r. ranges_intersect (sym_start s, sym_end s) r) rs"

fun add_range :: "ranges \<Rightarrow> int \<times> int \<Rightarrow> ranges" where
  "add_range merged (s, e) =
     (if merged \<noteq> [] \<and> s \<le> snd (last merged) + 1
      then butlast merged @ [(fst (last merged), max (snd (last merged)) e)]
      else merged @ [(s, e)])"

definition merge_ranges :: "ranges \<Rightarrow> ranges" where
  "merge_ranges rs = foldl add_range [] (sort (map ordered_pair rs))"

subsection \<open>Reading a unified diff\<close>

fun int_of_digits :: "nat \<Rightarrow> string \<Rightarrow> nat" where
  "int_of_digits n [] = n"
| "int_of_digits n (c # s) = int_of_digits (10 * n + (of_char c - 48)) s"

text \<open>\<open>(?:,(\d+))?\<close>: the digits after a comma, if there are any, and the rest.\<close>

definition opt_count :: "string \<Rightarrow> string option \<times> string" where
  "opt_count s =
     (if s \<noteq> [] \<and> hd s = CHR '','' \<and> takeWhile is_digit (tl s) \<noteq> []
      then (Some (takeWhile is_digit (tl s)), dropWhile is_digit (tl s)) else (None, s))"

text \<open>The two groups of \<open>_HUNK_RE\<close>, the start and, when written, the count of the new side.\<close>

definition hunk_match :: "string \<Rightarrow> (string \<times> string option) option" where
  "hunk_match line =
     (if \<not> startswith line ''@@ -'' then None
      else let old = drop 4 line; r1 = dropWhile is_digit old in
        if takeWhile is_digit old = [] then None
        else let r2 = snd (opt_count r1) in
          if \<not> startswith r2 '' +'' then None
          else let new = drop 2 r2; start = takeWhile is_digit new; r3 = dropWhile is_digit new in
            if start = [] then None
            else if startswith (snd (opt_count r3)) '' @@'' then Some (start, fst (opt_count r3)) else None)"

record diff_state =
  changed :: "(string \<times> ranges) list"
  current :: "string option"

definition setdefault :: "string \<Rightarrow> (string \<times> ranges) list \<Rightarrow> (string \<times> ranges) list" where
  "setdefault k d = (if k \<in> fst ` set d then d else d @ [(k, [])])"

definition append_to :: "string \<Rightarrow> int \<times> int \<Rightarrow> (string \<times> ranges) list \<Rightarrow> (string \<times> ranges) list" where
  "append_to k x d = map (\<lambda>(k', rs). if k' = k then (k', rs @ [x]) else (k', rs)) d"

definition header_path :: "string \<Rightarrow> string option" where
  "header_path line =
     (let path = py_strip (drop 4 line);
          path = (if startswith path [CHR 0x22] \<and> endswith path [CHR 0x22] then butlast (tl path) else path)
      in if path = ''/dev/null'' then None
         else Some (if startswith path ''b/'' then drop 2 path else path))"

definition diff_line :: "diff_state \<Rightarrow> string \<Rightarrow> diff_state" where
  "diff_line st line =
     (if startswith line ''+++ '' then
        (case header_path line of
           None \<Rightarrow> st\<lparr>current := None\<rparr>
         | Some p \<Rightarrow> st\<lparr>current := Some p, changed := setdefault p (changed st)\<rparr>)
      else (case (hunk_match line, current st) of
          (Some (s, c), Some p) \<Rightarrow>
            (let start = int (int_of_digits 0 s);
                 count = (case c of None \<Rightarrow> 1 | Some d \<Rightarrow> int (int_of_digits 0 d))
             in if count > 0 then st\<lparr>changed := append_to p (start, start + count - 1) (changed st)\<rparr> else st)
        | _ \<Rightarrow> st))"

definition diff_lines :: "string list \<Rightarrow> diff_state" where
  "diff_lines ls = foldl diff_line \<lparr>changed = [], current = None\<rparr> ls"

definition symbol_ranges_from_diff :: "string \<Rightarrow> (string \<times> ranges) list" where
  "symbol_ranges_from_diff diff_text =
     map (\<lambda>(p, items). (p, merge_ranges items))
       (filter (\<lambda>(p, items). items \<noteq> []) (changed (diff_lines (splitlines diff_text))))"

definition changed_lines_from_diff :: "string \<Rightarrow> string \<Rightarrow> ranges" where
  "changed_lines_from_diff diff_text file_path =
     (case map_of (symbol_ranges_from_diff diff_text) file_path of None \<Rightarrow> [] | Some rs \<Rightarrow> rs)"

subsection \<open>Anchoring a symbol\<close>

text \<open>
  What the search reads of the tree \<open>ast.parse\<close> builds: definitions with their lines and their
  child nodes, and nodes of any other kind, which the search does not enter.
\<close>

datatype ast_node = AstDef string int "int option" "ast_node list" | AstOther

fun is_prefix :: "string list \<Rightarrow> string list \<Rightarrow> bool" where
  "is_prefix here wanted \<longleftrightarrow> take (length here) wanted = here"

fun walk :: "string list \<Rightarrow> string list \<Rightarrow> ast_node list \<Rightarrow> (int \<times> int option) option" where
  "walk wanted prefix [] = None"
| "walk wanted prefix (AstOther # nodes) = walk wanted prefix nodes"
| "walk wanted prefix (AstDef name lineno end_lineno children # nodes) =
     (let here = prefix @ [name]
      in if here = wanted then Some (lineno, end_lineno)
         else if is_prefix here wanted
         then (case walk wanted here children of Some f \<Rightarrow> Some f | None \<Rightarrow> walk wanted prefix nodes)
         else walk wanted prefix nodes)"

definition python_symbol_range :: "(string \<Rightarrow> ast_node list option) \<Rightarrow> string \<Rightarrow> string \<Rightarrow> (int \<times> int) option" where
  "python_symbol_range py_ast source symbol =
     (case py_ast source of
        None \<Rightarrow> None
      | Some tree \<Rightarrow>
          (case walk (filter (\<lambda>p. p \<noteq> []) (split_on CHR ''.'' symbol)) [] tree of
             None \<Rightarrow> None
           | Some (lineno, end_lineno) \<Rightarrow>
               Some (lineno, (case end_lineno of Some e \<Rightarrow> if e \<noteq> 0 then e else lineno | None \<Rightarrow> lineno))))"

definition ident_start :: "char \<Rightarrow> bool" where
  "ident_start c \<longleftrightarrow> is_alpha c \<or> c = CHR ''_''"

definition ident_char :: "char \<Rightarrow> bool" where
  "ident_char c \<longleftrightarrow> ident_start c \<or> is_digit c"

text \<open>The rest after a keyword and at least one blank.\<close>

definition after_word :: "string \<Rightarrow> string \<Rightarrow> string option" where
  "after_word w s =
     (if startswith s w \<and> drop (length w) s \<noteq> [] \<and> py_isspace (hd (drop (length w) s))
      then Some (py_lstrip (drop (length w) s)) else None)"

definition anydef_match :: "string \<Rightarrow> string option" where
  "anydef_match line =
     (let s = py_lstrip line;
          s = (case after_word ''async'' s of Some t \<Rightarrow> t | None \<Rightarrow> s)
      in case (case after_word ''def'' s of Some t \<Rightarrow> Some t | None \<Rightarrow> after_word ''class'' s) of
           None \<Rightarrow> None
         | Some t \<Rightarrow> if t \<noteq> [] \<and> ident_start (hd t) then Some (takeWhile ident_char t) else None)"

definition indent_of :: "string \<Rightarrow> nat" where
  "indent_of line = length line - length (py_lstrip line)"

text \<open>The loop of \<open>_text_symbol_range\<close>; \<open>st\<close> is \<open>start\<close> with \<open>start_indent\<close>.\<close>

fun text_scan :: "string \<Rightarrow> int \<Rightarrow> (int \<times> nat) option \<Rightarrow> string list \<Rightarrow> (int \<times> int) option" where
  "text_scan wanted index st [] = (case st of Some (start, _) \<Rightarrow> Some (start, index) | None \<Rightarrow> None)"
| "text_scan wanted index st (line # ls) =
     (case anydef_match line of
        None \<Rightarrow> text_scan wanted (index + 1) st ls
      | Some name \<Rightarrow>
          (case st of
             Some (start, start_indent) \<Rightarrow>
               if indent_of line \<le> start_indent then Some (start, index)
               else text_scan wanted (index + 1) st ls
           | None \<Rightarrow>
               text_scan wanted (index + 1)
                 (if name = wanted then Some (index + 1, indent_of line) else None) ls))"

definition text_symbol_range :: "string \<Rightarrow> string \<Rightarrow> (int \<times> int) option" where
  "text_symbol_range source symbol =
     text_scan (last (split_on CHR ''.'' symbol)) 0 None (splitlines source)"

definition symbol_range_in :: "(string \<Rightarrow> ast_node list option) \<Rightarrow> string \<Rightarrow> string \<Rightarrow> string \<Rightarrow> symbol_range option" where
  "symbol_range_in py_ast source path symbol =
     (if py_strip symbol = [] then None
      else let found = (if endswith path ''.py'' then python_symbol_range py_ast source (py_strip symbol) else None)
        in case (case found of None \<Rightarrow> text_symbol_range source (py_strip symbol) | Some r \<Rightarrow> Some r) of
             None \<Rightarrow> None
           | Some (start, end') \<Rightarrow>
               Some \<lparr>sym_path = path, sym_name = symbol, sym_start = start, sym_end = max start end'\<rparr>)"

subsection \<open>The git adapter\<close>

text \<open>One run of git: not installed, could not be run, or finished with a code and its output.\<close>

datatype git_result = GitMissing | GitFailed string | GitExit int string string

datatype drift_error = DriftError string

definition git_output :: "(string list \<Rightarrow> git_result) \<Rightarrow> string list \<Rightarrow> drift_error + string" where
  "git_output git args =
     (case git args of
        GitMissing \<Rightarrow> Inl (DriftError ''the git CLI is not on PATH'')
      | GitFailed exc \<Rightarrow> Inl (DriftError (''git '' @ join '' '' args @ '' failed: '' @ exc))
      | GitExit code out err \<Rightarrow>
          if code \<noteq> 0 then Inl (DriftError (''git '' @ join '' '' args @ '' exited '' @ str_of_int code @ '': ''
            @ take 400 (py_strip err)))
          else Inr out)"

definition diff_text :: "(string list \<Rightarrow> git_result) \<Rightarrow> string \<Rightarrow> string \<Rightarrow> drift_error + string" where
  "diff_text git base head =
     git_output git [''diff'', ''--no-color'', ''--no-ext-diff'', ''-U0'', base, head]"

definition file_at :: "(string list \<Rightarrow> git_result) \<Rightarrow> string \<Rightarrow> string \<Rightarrow> string option" where
  "file_at git revision file_path =
     (case git_output git [''show'', revision @ '':'' @ file_path] of Inl _ \<Rightarrow> None | Inr out \<Rightarrow> Some out)"

definition changed_ranges :: "(string list \<Rightarrow> git_result) \<Rightarrow> string \<Rightarrow> string
    \<Rightarrow> drift_error + (string \<times> ranges) list" where
  "changed_ranges git base head =
     (case diff_text git base head of Inl e \<Rightarrow> Inl e | Inr t \<Rightarrow> Inr (symbol_ranges_from_diff t))"

definition drift_context_of :: "(string list \<Rightarrow> git_result) \<Rightarrow> (string \<Rightarrow> ast_node list option) \<Rightarrow> string \<Rightarrow> string
    \<Rightarrow> string \<Rightarrow> string \<Rightarrow> drift_error + drift_context" where
  "drift_context_of git py_ast file_path symbol base head =
     (case changed_ranges git base head of
        Inl e \<Rightarrow> Inl e
      | Inr all \<Rightarrow>
          (let changed = (case map_of all file_path of None \<Rightarrow> [] | Some rs \<Rightarrow> rs) in
           if changed = [] then Inr \<lparr>drift_symbol = None, drift_changed = [],
             drift_detail = ''no changed lines in this file''\<rparr>
           else let source = or_str (opt_str (file_at git head file_path)) (opt_str (file_at git base file_path)) in
             (case symbol_range_in py_ast source file_path symbol of
                None \<Rightarrow> Inr \<lparr>drift_symbol = None, drift_changed = changed,
                  drift_detail = ''symbol could not be anchored -- not treated as drift''\<rparr>
              | Some anchor \<Rightarrow> Inr \<lparr>drift_symbol = Some anchor, drift_changed = changed,
                  drift_detail = ''symbol '' @ file_path @ '':'' @ str_of_int (sym_start anchor) @ ''-''
                    @ str_of_int (sym_end anchor) @ '' vs changed '' @ str_of_nat (length changed) @ '' hunk(s)''\<rparr>)))"

end
