(* ===== verification/Findings.thy ===== *)
theory Findings
  imports Drift ReviewPolicy
begin

section \<open>Findings\<close>

text \<open>
  \<open>backend/services/findings.py\<close>: identity, the decision table, reactivation, ingesting a run,
  the escalation sweep and the rule-quality watch, over the tables \<open>findings\<close>,
  \<open>finding_events\<close>, \<open>finding_evidence\<close>, \<open>review_runs\<close> and \<open>repos\<close> as a session sees them (it flushes
  before each query, so a query sees the rows the operation wrote before it).

  Parameters: \<open>sha256\<close> (the digest of a text), \<open>container_str\<close> (\<open>str\<close> of a list or a mapping) and the drift adapter.
  The clock is an argument and does not move during one operation. The columns \<open>pr_url\<close>,
  \<open>created_at\<close> and \<open>updated_at\<close> are written elsewhere and left out; there is no column \<open>stop_reason\<close>,
  so the override is absent, as \<open>getattr\<close> makes it. Dashes in texts are two hyphens.
\<close>

definition STATUS_OPEN :: string where "STATUS_OPEN = ''open''"
definition STATUS_ACKNOWLEDGED :: string where "STATUS_ACKNOWLEDGED = ''acknowledged''"
definition STATUS_WONTFIX :: string where "STATUS_WONTFIX = ''wontfix''"
definition STATUS_FIXED :: string where "STATUS_FIXED = ''fixed''"
definition STATUS_STALE :: string where "STATUS_STALE = ''stale''"

definition FINDING_LEVEL :: "string list" where "FINDING_LEVEL = [LEVEL_BLOCKING, LEVEL_DEBT]"

definition DECISION_ACTIONS :: "string list" where
  "DECISION_ACTIONS = [''fix'', ''fixed'', ''acknowledge'', ''wontfix'', ''false_positive'']"

definition DEFER_ACTIONS :: "(string \<times> string) list" where
  "DEFER_ACTIONS = [(''acknowledge'', STATUS_ACKNOWLEDGED), (STATUS_WONTFIX, STATUS_WONTFIX)]"

definition REASON_FALSE_POSITIVE :: string where "REASON_FALSE_POSITIVE = ''false_positive''"
definition REASON_ACCEPTED :: string where "REASON_ACCEPTED = ''accepted''"
definition REASON_WONTFIX :: string where "REASON_WONTFIX = ''wontfix''"
definition REASON_DRIFT :: string where "REASON_DRIFT = ''code_drift''"
definition REASON_DUE :: string where "REASON_DUE = ''due''"
definition REASON_ESCALATION :: string where "REASON_ESCALATION = ''escalation''"
definition REASON_MATCHED :: string where "REASON_MATCHED = ''matched''"

definition SEVERITY_RANK :: "(string \<times> int) list" where
  "SEVERITY_RANK = [(''low'', 0), (''medium'', 1), (''high'', 2), (''critical'', 3)]"

definition RULE_QUALITY_RULE_ID :: string where "RULE_QUALITY_RULE_ID = ''meta.rule-quality''"
definition RULE_QUALITY_WINDOW_DAYS :: int where "RULE_QUALITY_WINDOW_DAYS = 30"
definition RULE_QUALITY_SYMBOL :: string where "RULE_QUALITY_SYMBOL = ''review-policy.rules''"
definition POLICY_ENTRY_PATH :: string where "POLICY_ENTRY_PATH = POLICY_RELATIVE_PATH"

subsection \<open>Rows\<close>

record finding =
  f_id :: int
  f_repo :: int
  f_fingerprint :: string
  f_rule :: string
  f_level :: string
  f_severity :: string
  f_status :: string
  f_file :: string
  f_symbol :: string
  f_line_hint :: json
  f_title :: string
  f_detail :: string
  f_first_run :: "int option"
  f_last_run :: "int option"
  f_seen :: int
  f_owner :: "string option"
  f_due :: "date option"
  f_decided_by :: "string option"
  f_decided_at :: "timestamp option"

record finding_event =
  ev_id :: int
  ev_finding :: int
  ev_at :: timestamp
  ev_actor :: string
  ev_from :: "string option"
  ev_to :: string
  ev_reason :: "string option"
  ev_run :: "int option"

record review_run =
  run_id :: int
  run_new :: int
  run_matched :: int

record findings_db =
  findings :: "finding list"
  events :: "finding_event list"
  evidence :: "(int \<times> json \<times> string) list"
  runs :: "review_run list"
  repo_slugs :: "(string \<times> int) list"
  next_finding :: int
  next_event :: int

datatype findings_error = FindingsError string | FindingNotFound int | DecisionInvalid string
  | ValueError string | DriftFailed drift_error | MultipleResultsFound

definition put_finding :: "finding \<Rightarrow> findings_db \<Rightarrow> findings_db" where
  "put_finding f db = db\<lparr>findings := map (\<lambda>r. if f_id r = f_id f then f else r) (findings db)\<rparr>"

definition session_get :: "findings_db \<Rightarrow> int \<Rightarrow> finding option" where
  "session_get db fid = find (\<lambda>r. f_id r = fid) (findings db)"

definition record_event :: "timestamp \<Rightarrow> finding \<Rightarrow> string \<Rightarrow> string option \<Rightarrow> string \<Rightarrow> string option \<Rightarrow> int option
    \<Rightarrow> findings_db \<Rightarrow> findings_db" where
  "record_event at f actor from_status to_status reason run db =
     db\<lparr>events := events db @ [\<lparr>ev_id = next_event db, ev_finding = f_id f, ev_at = at, ev_actor = actor,
           ev_from = from_status, ev_to = to_status, ev_reason = reason, ev_run = run\<rparr>],
        next_event := next_event db + 1\<rparr>"

definition add_finding :: "finding \<Rightarrow> findings_db \<Rightarrow> findings_db" where
  "add_finding f db = db\<lparr>findings := findings db @ [f], next_finding := next_finding db + 1\<rparr>"

subsection \<open>Identity\<close>

definition fingerprint_input :: "string \<Rightarrow> string \<Rightarrow> string \<Rightarrow> string \<Rightarrow> string" where
  "fingerprint_input rid path symbol context_key = join [CHR 0x00] [rid, path, symbol, context_key]"

definition fingerprint :: "(string \<Rightarrow> string) \<Rightarrow> string \<Rightarrow> string \<Rightarrow> string \<Rightarrow> string \<Rightarrow> string" where
  "fingerprint sha256 rid path symbol context_key = sha256 (fingerprint_input rid path symbol context_key)"

definition find_existing :: "findings_db \<Rightarrow> int \<Rightarrow> string \<Rightarrow> findings_error + finding option" where
  "find_existing db repo digest =
     (case filter (\<lambda>r. f_repo r = repo \<and> f_fingerprint r = digest) (findings db) of
        [] \<Rightarrow> Inr None | [r] \<Rightarrow> Inr (Some r) | _ \<Rightarrow> Inl MultipleResultsFound)"

subsection \<open>Reactivation\<close>

record reactivation_context =
  ctx_today :: "date option"
  ctx_drift :: "drift_context option"
  ctx_adapter :: "(string \<Rightarrow> string \<Rightarrow> string \<Rightarrow> string \<Rightarrow> drift_error + drift_context) option"
  ctx_base :: "string option"
  ctx_head :: "string option"
  ctx_open_count :: "int option"
  ctx_threshold :: "int option"
  ctx_previous_severity :: "string option"
  ctx_current_severity :: "string option"
  ctx_stop_reason :: "string option"

definition severity_rank :: "string \<Rightarrow> int" where
  "severity_rank s = (case map_of SEVERITY_RANK s of None \<Rightarrow> -1 | Some n \<Rightarrow> n)"

definition severity_raised :: "string option \<Rightarrow> string option \<Rightarrow> bool" where
  "severity_raised prev cur =
     (if opt_str prev = [] \<or> opt_str cur = [] then False
      else severity_rank (opt_str cur) > severity_rank (opt_str prev))"

definition drift_reason :: "finding \<Rightarrow> reactivation_context \<Rightarrow> drift_error + string option" where
  "drift_reason f ctx =
     (if opt_str (ctx_stop_reason ctx) \<noteq> [] then Inr None
      else case (case (ctx_drift ctx, ctx_adapter ctx) of
             (Some d, _) \<Rightarrow> Inr (Some d)
           | (None, None) \<Rightarrow> Inr None
           | (None, Some probe) \<Rightarrow>
               if opt_str (ctx_base ctx) \<noteq> [] \<and> opt_str (ctx_head ctx) \<noteq> []
               then (case probe (f_file f) (f_symbol f) (opt_str (ctx_base ctx)) (opt_str (ctx_head ctx)) of
                       Inl e \<Rightarrow> Inl e | Inr d \<Rightarrow> Inr (Some d))
               else Inr None) of
        Inl e \<Rightarrow> Inl e
      | Inr None \<Rightarrow> Inr None
      | Inr (Some d) \<Rightarrow>
          (case drift_symbol d of
             None \<Rightarrow> Inr None
           | Some anchor \<Rightarrow> if overlaps anchor (drift_changed d) then Inr (Some REASON_DRIFT) else Inr None))"

definition should_reactivate :: "date \<Rightarrow> finding \<Rightarrow> reactivation_context \<Rightarrow> drift_error + string option" where
  "should_reactivate utc_today f ctx =
     (if severity_raised (ctx_previous_severity ctx) (ctx_current_severity ctx) then Inr (Some REASON_ESCALATION)
      else if (case (ctx_threshold ctx, ctx_open_count ctx) of (Some t, Some n) \<Rightarrow> n > t | _ \<Rightarrow> False)
      then Inr (Some REASON_ESCALATION)
      else case drift_reason f ctx of
        Inl e \<Rightarrow> Inl e
      | Inr (Some _) \<Rightarrow> Inr (Some REASON_DRIFT)
      | Inr None \<Rightarrow>
          (case f_due f of
             None \<Rightarrow> Inr None
           | Some due \<Rightarrow>
               if opt_str (ctx_stop_reason ctx) = []
                 \<and> due \<le> (case ctx_today ctx of Some t \<Rightarrow> t | None \<Rightarrow> utc_today)
               then Inr (Some REASON_DUE) else Inr None))"

subsection \<open>The decision table\<close>

definition require_debt_fields :: "string \<Rightarrow> string option \<Rightarrow> date option \<Rightarrow> findings_error option" where
  "require_debt_fields action owner due =
     (let missing = (if py_strip (opt_str owner) = [] then [''owner''] else [])
                    @ (if due = None then [''due''] else [])
      in if missing \<noteq> [] then Some (DecisionInvalid (''action '' @ action @ '' requires '' @ join '' and '' missing
           @ '' (invariant I2)'')) else None)"

record decision =
  dec_finding :: finding
  dec_from :: string
  dec_to :: string
  dec_reason :: string

text \<open>The transition an action asks for, the target status and the reason, or the refusal.\<close>

definition transition :: "finding \<Rightarrow> string \<Rightarrow> string \<Rightarrow> string option \<Rightarrow> date option \<Rightarrow> string option \<Rightarrow> string option
    \<Rightarrow> findings_error + string \<times> string" where
  "transition f action actor owner due reason confirmed_by =
     (case map_of DEFER_ACTIONS action of
        Some to_status \<Rightarrow>
          if f_level f = LEVEL_BLOCKING
          then Inl (DecisionInvalid (''a blocking finding cannot be '' @ action @ '' (invariant I3); ''
                 @ ''fix it, or record a confirmed false positive''))
          else (case require_debt_fields action owner due of
              Some e \<Rightarrow> Inl e
            | None \<Rightarrow>
                if f_status f = STATUS_FIXED
                then Inl (DecisionInvalid (''a fixed finding cannot go back to a deferred state; open it ''
                       @ ''again through the review run that still matches it''))
                else Inr (to_status, or_str (opt_str reason)
                       (if to_status = STATUS_WONTFIX then REASON_WONTFIX else REASON_ACCEPTED)))
      | None \<Rightarrow>
          if action = STATUS_FIXED \<or> action = ''fix''
          then (let event_reason = or_str (opt_str reason) REASON_ACCEPTED in
                if event_reason = REASON_FALSE_POSITIVE \<and> opt_str confirmed_by = []
                then Inl (DecisionInvalid (''a false positive needs a second confirmation ''
                       @ ''(finding:decide by someone other than the proposer)''))
                else if event_reason = REASON_FALSE_POSITIVE \<and> py_strip (opt_str confirmed_by) = actor
                then Inl (DecisionInvalid ''the second confirmation must come from another account'')
                else Inr (STATUS_FIXED, event_reason))
          else Inl (DecisionInvalid (''unknown action '' @ action)))"

definition decide :: "timestamp \<Rightarrow> findings_db \<Rightarrow> int \<Rightarrow> string option \<Rightarrow> string option \<Rightarrow> string option \<Rightarrow> date option
    \<Rightarrow> string option \<Rightarrow> int option \<Rightarrow> string option \<Rightarrow> findings_error + (findings_db \<times> decision)" where
  "decide now db fid action actor owner due reason run confirmed_by =
     (case session_get db fid of
        None \<Rightarrow> Inl (FindingNotFound fid)
      | Some f \<Rightarrow>
          (let action = py_lower (py_strip (opt_str action));
               actor = or_str (py_strip (opt_str actor)) ''unknown''
           in if action \<notin> set DECISION_ACTIONS
              then Inl (DecisionInvalid (''unknown action '' @ action @ ''; expected one of '' @ join '', '' DECISION_ACTIONS))
              else (case transition f action actor owner due reason confirmed_by of
                Inl e \<Rightarrow> Inl e
              | Inr (to_status, event_reason) \<Rightarrow>
                  (let f1 = (if to_status \<in> {STATUS_ACKNOWLEDGED, STATUS_WONTFIX}
                             then f\<lparr>f_owner := Some (py_strip (opt_str owner)), f_due := due\<rparr> else f);
                       f2 = f1\<lparr>f_status := to_status, f_decided_by := Some actor, f_decided_at := Some now\<rparr>
                   in Inr (record_event now f2 actor (Some (f_status f)) to_status (Some event_reason) run
                             (put_finding f2 db),
                           \<lparr>dec_finding = f2, dec_from = f_status f, dec_to = to_status,
                            dec_reason = event_reason\<rparr>)))))"


subsection \<open>Reading an entry of a report\<close>

definition normalize_level :: "(json \<Rightarrow> string) \<Rightarrow> json \<Rightarrow> findings_error + string" where
  "normalize_level cs v =
     (let level = py_lower (py_strip (text_or cs v LEVEL_DEBT))
      in if level \<notin> set FINDING_LEVEL
         then Inl (ValueError (''level must be one of '' @ repr_tuple FINDING_LEVEL @ '', got '' @ py_str cs v))
         else Inr level)"

definition normalize_severity :: "(json \<Rightarrow> string) \<Rightarrow> json \<Rightarrow> string" where
  "normalize_severity cs v =
     (let severity = py_lower (py_strip (text_or cs v ''medium''))
      in if severity \<in> fst ` set SEVERITY_RANK then severity else ''medium'')"

datatype repo_ref = RepoId int | RepoText string

definition resolve_repo_id :: "findings_db \<Rightarrow> repo_ref \<Rightarrow> findings_error + int" where
  "resolve_repo_id db r =
     (case r of
        RepoId i \<Rightarrow> Inr i
      | RepoText s \<Rightarrow>
          if s \<noteq> [] \<and> list_all is_digit s then Inr (int (int_of_digits 0 s))
          else (case map_of (repo_slugs db) s of
                  None \<Rightarrow> Inl (FindingsError (''no repo with slug '' @ s)) | Some i \<Rightarrow> Inr i))"

fun json_objects :: "json list \<Rightarrow> (string \<times> json) list list" where
  "json_objects [] = []"
| "json_objects (JObj kvs # vs) = kvs # json_objects vs"
| "json_objects (_ # vs) = json_objects vs"

definition evidence_rows :: "(string \<times> json) list \<Rightarrow> (string \<times> json) list list" where
  "evidence_rows entry =
     (case jget entry ''evidence'' of JList vs \<Rightarrow> json_objects vs | _ \<Rightarrow> [])"

text \<open>
  \<open>_attach_evidence\<close>. An issue id is a JSON value compared as such.
\<close>

definition attach_row :: "(json \<Rightarrow> string) \<Rightarrow> int \<Rightarrow> (int \<times> json \<times> string) list \<Rightarrow> (string \<times> json) list
    \<Rightarrow> (int \<times> json \<times> string) list" where
  "attach_row cs fid links row =
     (let rel = text_or cs (jget row ''relation'') ''mentions'';
          rel = (if rel \<notin> {''mentions'', ''duplicate_of'', ''fixed_by''} then ''mentions'' else rel);
          issue = jget row ''repo_issue_id''
      in if issue = JNull then links
         else if (fid, issue, rel) \<in> set links then links
         else links @ [(fid, issue, rel)])"

definition attach_evidence :: "(json \<Rightarrow> string) \<Rightarrow> finding \<Rightarrow> (string \<times> json) list list \<Rightarrow> findings_db \<Rightarrow> findings_db" where
  "attach_evidence cs f rows db = db\<lparr>evidence := foldl (attach_row cs (f_id f)) (evidence db) rows\<rparr>"

subsection \<open>Ingesting a run\<close>

abbreviation is_deferred :: "finding \<Rightarrow> bool" where
  "is_deferred f \<equiv> f_status f \<in> {STATUS_ACKNOWLEDGED, STATUS_WONTFIX}"

definition count_threshold :: "policy_document option \<Rightarrow> int option" where
  "count_threshold policy = map_option (\<lambda>p. rule_count_threshold (escalation p)) policy"

text \<open>The arguments of \<open>ingest\<close> that stay the same for every entry of a run.\<close>

record ingest_input =
  in_run :: "int option"
  in_policy :: "policy_document option"
  in_adapter :: "(string \<Rightarrow> string \<Rightarrow> string \<Rightarrow> string \<Rightarrow> drift_error + drift_context) option"
  in_base :: "string option"
  in_head :: "string option"
  in_drift :: "drift_context option"
  in_today :: "date option"

definition context_for :: "ingest_input \<Rightarrow> findings_db \<Rightarrow> finding \<Rightarrow> reactivation_context" where
  "context_for inp db f =
     \<lparr>ctx_today = in_today inp, ctx_drift = in_drift inp, ctx_adapter = in_adapter inp,
      ctx_base = in_base inp, ctx_head = in_head inp,
      ctx_open_count = Some (int (count_where (\<lambda>r. f_repo r = f_repo f \<and> f_rule r = f_rule f
        \<and> f_status r \<in> {STATUS_OPEN, STATUS_ACKNOWLEDGED, STATUS_WONTFIX}) (findings db))),
      ctx_threshold = count_threshold (in_policy inp),
      ctx_previous_severity = None, ctx_current_severity = None, ctx_stop_reason = None\<rparr>"

definition reopened :: "finding \<Rightarrow> finding" where
  "reopened f = f\<lparr>f_status := STATUS_OPEN, f_owner := None, f_due := None\<rparr>"

text \<open>A fingerprint seen for the first time.\<close>

definition open_finding :: "(json \<Rightarrow> string) \<Rightarrow> timestamp \<Rightarrow> ingest_input \<Rightarrow> int \<Rightarrow> string \<Rightarrow> string \<times> string \<times> string
    \<Rightarrow> (string \<times> json) list \<Rightarrow> findings_db \<Rightarrow> findings_error + (findings_db \<times> finding)" where
  "open_finding cs now inp repo digest anchor entry db =
     (case normalize_level cs (jget entry ''level'') of
        Inl e \<Rightarrow> Inl e
      | Inr level \<Rightarrow>
          (let (rid, path, symbol) = anchor;
               f = \<lparr>f_id = next_finding db, f_repo = repo, f_fingerprint = digest, f_rule = rid, f_level = level,
                    f_severity = normalize_severity cs (jget entry ''severity''), f_status = STATUS_OPEN,
                    f_file = path, f_symbol = symbol, f_line_hint = jget entry ''line_hint'',
                    f_title = text_or cs (jget entry ''title'') rid,
                    f_detail = text_or cs (jget entry ''detail'') [],
                    f_first_run = in_run inp, f_last_run = in_run inp, f_seen = 1,
                    f_owner = None, f_due = None, f_decided_by = None, f_decided_at = None\<rparr>
           in Inr (attach_evidence cs f (evidence_rows entry)
                     (record_event now f ''agent'' None STATUS_OPEN (Some REASON_MATCHED) (in_run inp)
                       (add_finding f db)), f)))"

text \<open>A fingerprint seen again: the observation advances, then reactivation is considered.\<close>

definition observed :: "(json \<Rightarrow> string) \<Rightarrow> ingest_input \<Rightarrow> (string \<times> json) list \<Rightarrow> finding \<Rightarrow> finding" where
  "observed cs inp entry f =
     f\<lparr>f_last_run := in_run inp, f_seen := f_seen f + 1,
       f_line_hint := (case map_of entry ''line_hint'' of None \<Rightarrow> f_line_hint f | Some v \<Rightarrow> v),
       f_title := (if truthy (jget entry ''title'') then text_or cs (jget entry ''title'') [] else f_title f),
       f_detail := (if truthy (jget entry ''detail'') then text_or cs (jget entry ''detail'') [] else f_detail f)\<rparr>"

definition match_finding :: "(json \<Rightarrow> string) \<Rightarrow> timestamp \<Rightarrow> date \<Rightarrow> ingest_input \<Rightarrow> (string \<times> json) list \<Rightarrow> finding
    \<Rightarrow> findings_db \<Rightarrow> findings_error + (findings_db \<times> nat)" where
  "match_finding cs now utc_today inp entry f db =
     (let f1 = observed cs inp entry f; db1 = put_finding f1 db in
      if f_status f = STATUS_STALE then
        (let f2 = f1\<lparr>f_status := STATUS_OPEN\<rparr> in
         Inr (record_event now f2 ''agent'' (Some STATUS_STALE) STATUS_OPEN (Some REASON_DRIFT) (in_run inp)
                (put_finding f2 db1), 1))
      else if is_deferred f then
        (case should_reactivate utc_today f1 (context_for inp db1 f1) of
           Inl e \<Rightarrow> Inl (DriftFailed e)
         | Inr None \<Rightarrow> Inr (db1, 0)
         | Inr (Some reason) \<Rightarrow>
             (let f2 = reopened f1 in
              Inr (record_event now f2 ''system'' (Some (f_status f)) STATUS_OPEN (Some reason) (in_run inp)
                     (put_finding f2 db1), 1)))
      else Inr (db1, 0))"

record ingest_summary =
  sum_new :: nat
  sum_matched :: nat
  sum_reactivated :: nat
  sum_ids :: "int list"

text \<open>
  One pass of the loop over the entries. The error branches leave what the session holds behind; the
  caller closes it without a commit.
\<close>

definition ingest_entry :: "(string \<Rightarrow> string) \<Rightarrow> (json \<Rightarrow> string) \<Rightarrow> timestamp \<Rightarrow> date \<Rightarrow> ingest_input \<Rightarrow> int
    \<Rightarrow> (string \<times> json) list \<Rightarrow> findings_db \<times> ingest_summary \<Rightarrow> findings_error + (findings_db \<times> ingest_summary)" where
  "ingest_entry sha256 cs now utc_today inp repo entry st =
     (let (db, s) = st;
          rid = py_strip (text_or cs (jget entry ''rule_id'') []);
          path = py_strip (text_or cs (jget entry ''file_path'') []);
          symbol = py_strip (text_or cs (jget entry ''symbol'') [])
      in if rid = [] \<or> path = [] \<or> symbol = []
         then Inl (FindingsError (''a finding needs rule_id, file_path and symbol -- got rule_id='' @ rid
                @ '' file_path='' @ path @ '' symbol='' @ symbol))
         else let digest = fingerprint sha256 rid path symbol (text_or cs (jget entry ''context_key'') []) in
           (case find_existing db repo digest of
              Inl e \<Rightarrow> Inl e
            | Inr None \<Rightarrow>
                (case open_finding cs now inp repo digest (rid, path, symbol) entry db of
                   Inl e \<Rightarrow> Inl e
                 | Inr (db', f) \<Rightarrow> Inr (db', s\<lparr>sum_new := Suc (sum_new s), sum_ids := sum_ids s @ [f_id f]\<rparr>))
            | Inr (Some f) \<Rightarrow>
                (case match_finding cs now utc_today inp entry f db of
                   Inl e \<Rightarrow> Inl e
                 | Inr (db', n) \<Rightarrow>
                     Inr (db', s\<lparr>sum_matched := Suc (sum_matched s), sum_reactivated := sum_reactivated s + n,
                                 sum_ids := sum_ids s @ [f_id f]\<rparr>))))"

fun ingest_entries :: "(string \<Rightarrow> string) \<Rightarrow> (json \<Rightarrow> string) \<Rightarrow> timestamp \<Rightarrow> date \<Rightarrow> ingest_input \<Rightarrow> int
    \<Rightarrow> (string \<times> json) list list \<Rightarrow> findings_db \<times> ingest_summary \<Rightarrow> findings_error + (findings_db \<times> ingest_summary)" where
  "ingest_entries sha256 cs now utc_today inp repo [] st = Inr st"
| "ingest_entries sha256 cs now utc_today inp repo (entry # es) st =
     (case ingest_entry sha256 cs now utc_today inp repo entry st of
        Inl e \<Rightarrow> Inl e
      | Inr st' \<Rightarrow> ingest_entries sha256 cs now utc_today inp repo es st')"

text \<open>
  \<open>_apply_escalation\<close>: the deferred rows are read once, before the loop reopens any.
\<close>

definition deferred_rows :: "findings_db \<Rightarrow> int \<Rightarrow> finding list" where
  "deferred_rows db repo = filter (\<lambda>r. f_repo r = repo \<and> is_deferred r) (findings db)"

definition over_threshold :: "finding list \<Rightarrow> int \<Rightarrow> int list \<Rightarrow> finding \<Rightarrow> bool" where
  "over_threshold deferred threshold exclude r \<longleftrightarrow>
     f_id r \<notin> set exclude \<and> int (count_where (\<lambda>q. f_rule q = f_rule r) deferred) > threshold"

definition escalate_row :: "timestamp \<Rightarrow> int option \<Rightarrow> findings_db \<Rightarrow> finding \<Rightarrow> findings_db" where
  "escalate_row now run db r =
     record_event now (reopened r) ''system'' (Some (f_status r)) STATUS_OPEN (Some REASON_ESCALATION) run
       (put_finding (reopened r) db)"

definition apply_escalation :: "timestamp \<Rightarrow> findings_db \<Rightarrow> int \<Rightarrow> policy_document option \<Rightarrow> int option \<Rightarrow> int list
    \<Rightarrow> findings_db \<times> nat" where
  "apply_escalation now db repo policy run exclude =
     (case count_threshold policy of
        None \<Rightarrow> (db, 0)
      | Some threshold \<Rightarrow>
          (let deferred = deferred_rows db repo;
               rows = filter (over_threshold deferred threshold exclude) deferred
           in (foldl (escalate_row now run) db rows, length rows)))"

definition ingest :: "(string \<Rightarrow> string) \<Rightarrow> (json \<Rightarrow> string) \<Rightarrow> timestamp \<Rightarrow> date \<Rightarrow> ingest_input \<Rightarrow> findings_db
    \<Rightarrow> repo_ref \<Rightarrow> json list \<Rightarrow> findings_error + (findings_db \<times> ingest_summary)" where
  "ingest sha256 cs now utc_today inp db repo_id entries =
     (case resolve_repo_id db repo_id of
        Inl e \<Rightarrow> Inl e
      | Inr repo \<Rightarrow>
          if (case in_run inp of None \<Rightarrow> False | Some r \<Rightarrow> r \<notin> run_id ` set (runs db))
          then Inl (FindingsError (''review_run '' @ str_of_int (the (in_run inp))
            @ '' does not exist; create the ReviewRun before ingesting its findings''))
          else (case ingest_entries sha256 cs now utc_today inp repo (json_objects entries)
                   (db, \<lparr>sum_new = 0, sum_matched = 0, sum_reactivated = 0, sum_ids = []\<rparr>) of
              Inl e \<Rightarrow> Inl e
            | Inr (db1, s) \<Rightarrow>
                (let (db2, escalated) = apply_escalation now db1 repo (in_policy inp) (in_run inp) (sum_ids s);
                     db3 = db2\<lparr>runs := map (\<lambda>r. if Some (run_id r) = in_run inp
                         then r\<lparr>run_new := run_new r + int (sum_new s), run_matched := run_matched r + int (sum_matched s)\<rparr>
                         else r) (runs db2)\<rparr>
                 in Inr (db3, s\<lparr>sum_reactivated := sum_reactivated s + escalated\<rparr>))))"

subsection \<open>Rule governance\<close>

definition false_positives :: "findings_db \<Rightarrow> int \<Rightarrow> timestamp \<Rightarrow> string list" where
  "false_positives db repo since =
     concat (map (\<lambda>f. map (\<lambda>_. f_rule f)
         (filter (\<lambda>e. ev_finding e = f_id f \<and> ev_reason e = Some REASON_FALSE_POSITIVE \<and> since \<le> ev_at e) (events db)))
       (filter (\<lambda>f. f_repo f = repo) (findings db)))"

definition noisy_rules :: "findings_db \<Rightarrow> int \<Rightarrow> timestamp \<Rightarrow> int \<Rightarrow> (string \<times> nat) list" where
  "noisy_rules db repo since threshold =
     (let fps = false_positives db repo since
      in filter (\<lambda>(rid, n). rid \<noteq> RULE_QUALITY_RULE_ID \<and> threshold \<noteq> 0 \<and> int n \<ge> threshold)
           (sort (map (\<lambda>rid. (rid, count_list fps rid)) (remdups fps))))"

definition noise_detail :: "string \<Rightarrow> nat \<Rightarrow> int \<Rightarrow> int \<Rightarrow> string" where
  "noise_detail rid n days threshold =
     str_of_nat n @ '' confirmed false positive(s) for rule '' @ rid @ '' in the last '' @ str_of_int days
     @ '' days (threshold '' @ str_of_int threshold @ ''); the rule needs fixing or demoting to debt.''"

record watch_summary =
  watch_created :: "int list"
  watch_updated :: "int list"

definition watch_rule :: "(string \<Rightarrow> string) \<Rightarrow> timestamp \<Rightarrow> string \<Rightarrow> int \<Rightarrow> int \<Rightarrow> int
    \<Rightarrow> findings_db \<times> watch_summary \<Rightarrow> string \<times> nat \<Rightarrow> findings_error + (findings_db \<times> watch_summary)" where
  "watch_rule sha256 now actor repo days threshold st noisy =
     (let (db, s) = st; (rid, n) = noisy;
          digest = fingerprint sha256 RULE_QUALITY_RULE_ID POLICY_ENTRY_PATH RULE_QUALITY_SYMBOL rid;
          detail = noise_detail rid n days threshold
      in case find_existing db repo digest of
           Inl e \<Rightarrow> Inl e
         | Inr None \<Rightarrow>
             (let f = \<lparr>f_id = next_finding db, f_repo = repo, f_fingerprint = digest, f_rule = RULE_QUALITY_RULE_ID,
                       f_level = LEVEL_DEBT, f_severity = ''medium'', f_status = STATUS_OPEN,
                       f_file = POLICY_ENTRY_PATH, f_symbol = RULE_QUALITY_SYMBOL, f_line_hint = JNull,
                       f_title = ''Rule '' @ rid @ '' is noisy -- review or demote it'', f_detail = detail,
                       f_first_run = None, f_last_run = None, f_seen = 1, f_owner = None, f_due = None,
                       f_decided_by = None, f_decided_at = None\<rparr>
              in Inr (record_event now f actor None STATUS_OPEN (Some REASON_FALSE_POSITIVE) None (add_finding f db),
                      s\<lparr>watch_created := watch_created s @ [f_id f]\<rparr>))
         | Inr (Some f) \<Rightarrow>
             (let f1 = f\<lparr>f_detail := detail, f_seen := (if f_seen f = 0 then 1 else f_seen f) + 1\<rparr>;
                  s' = s\<lparr>watch_updated := watch_updated s @ [f_id f]\<rparr>
              in if f_status f = STATUS_FIXED
                 then let f2 = f1\<lparr>f_status := STATUS_OPEN\<rparr> in
                   Inr (record_event now f2 actor (Some STATUS_FIXED) STATUS_OPEN (Some REASON_ESCALATION) None
                          (put_finding f2 db), s')
                 else Inr (put_finding f1 db, s')))"

fun watch_rules :: "(string \<Rightarrow> string) \<Rightarrow> timestamp \<Rightarrow> string \<Rightarrow> int \<Rightarrow> int \<Rightarrow> int \<Rightarrow> (string \<times> nat) list
    \<Rightarrow> findings_db \<times> watch_summary \<Rightarrow> findings_error + (findings_db \<times> watch_summary)" where
  "watch_rules sha256 now actor repo days threshold [] st = Inr st"
| "watch_rules sha256 now actor repo days threshold (x # xs) st =
     (case watch_rule sha256 now actor repo days threshold st x of
        Inl e \<Rightarrow> Inl e
      | Inr st' \<Rightarrow> watch_rules sha256 now actor repo days threshold xs st')"

definition rule_quality_watch :: "(string \<Rightarrow> string) \<Rightarrow> timestamp \<Rightarrow> findings_db \<Rightarrow> repo_ref \<Rightarrow> policy_document option
    \<Rightarrow> string \<Rightarrow> int \<Rightarrow> findings_error + (findings_db \<times> watch_summary)" where
  "rule_quality_watch sha256 now db repo_id policy actor days =
     (case resolve_repo_id db repo_id of
        Inl e \<Rightarrow> Inl e
      | Inr repo \<Rightarrow>
          (let threshold = (case policy of None \<Rightarrow> 0 | Some p \<Rightarrow> rule_noise_threshold (escalation p))
           in watch_rules sha256 now actor repo days threshold
                (noisy_rules db repo (now - seconds (days * 86400)) threshold)
                (db, \<lparr>watch_created = [], watch_updated = []\<rparr>)))"

subsection \<open>Autofix and queries\<close>

definition autofix_allowed :: "string \<Rightarrow> policy_document option \<Rightarrow> bool" where
  "autofix_allowed rid policy = (case policy of None \<Rightarrow> False | Some p \<Rightarrow> set_autofix (rule p rid))"

definition list_findings :: "findings_db \<Rightarrow> int option \<Rightarrow> string option \<Rightarrow> string option \<Rightarrow> string option
    \<Rightarrow> string option \<Rightarrow> int \<Rightarrow> int \<Rightarrow> finding list \<times> nat" where
  "list_findings db repo status level rid owner limit offset =
     (let wanted = (\<lambda>v s. opt_str v = [] \<or> opt_str v = s);
          rows = filter (\<lambda>f. (case repo of None \<Rightarrow> True | Some r \<Rightarrow> r = 0 \<or> f_repo f = r)
              \<and> wanted status (f_status f) \<and> wanted level (f_level f) \<and> wanted rid (f_rule f)
              \<and> (opt_str owner = [] \<or> f_owner f = owner)) (findings db);
          ordered = sort_key (\<lambda>f. - f_id f) rows
      in (take (nat (max 1 (min limit 1000))) (drop (nat (max 0 offset)) ordered), length rows))"

definition get_finding :: "findings_db \<Rightarrow> int \<Rightarrow> findings_error + finding" where
  "get_finding db fid = (case session_get db fid of None \<Rightarrow> Inl (FindingNotFound fid) | Some f \<Rightarrow> Inr f)"

definition events_for :: "findings_db \<Rightarrow> int \<Rightarrow> finding_event list" where
  "events_for db fid = sort_key ev_id (filter (\<lambda>e. ev_finding e = fid) (events db))"

end
