(* ===== verification/DriftProps.thy ===== *)
theory DriftProps
  imports Drift
begin

section \<open>What the drift probe computes\<close>

text \<open>
  Merged ranges are a canonical form of the set of changed lines, an overlap is a shared line, and
  the diff parser reads back what git prints.
\<close>

subsection \<open>Merged ranges as a normal form\<close>

definition lines_of :: "ranges \<Rightarrow> int set" where
  "lines_of rs = (\<Union>r \<in> set rs. {fst (ordered_pair r)..snd (ordered_pair r)})"

text \<open>Proper intervals in increasing order with at least one line between any two.\<close>

fun separated :: "ranges \<Rightarrow> bool" where
  "separated [] \<longleftrightarrow> True"
| "separated [(a, b)] \<longleftrightarrow> a \<le> b"
| "separated ((a, b) # (c, d) # rs) \<longleftrightarrow> a \<le> b \<and> b + 1 < c \<and> separated ((c, d) # rs)"

lemma lines_of_simps [simp]:
  "lines_of [] = {}"
  "lines_of (r # rs) = {fst (ordered_pair r)..snd (ordered_pair r)} \<union> lines_of rs"
  "lines_of (rs @ ss) = lines_of rs \<union> lines_of ss"
  by (auto simp: lines_of_def)

lemma lines_of_sort: "lines_of (sort (map ordered_pair rs)) = lines_of rs"
  by (force simp: lines_of_def)

lemma separated_snoc:
  "separated (rs @ [(a, b)]) \<longleftrightarrow> separated rs \<and> a \<le> b \<and> (rs \<noteq> [] \<longrightarrow> snd (last rs) + 1 < a)"
  by (induction rs rule: separated.induct) auto

lemma separated_last: "separated (rs @ [(a, b)]) \<Longrightarrow> a \<le> b"
  by (simp add: separated_snoc)

lemma add_range_step:
  assumes "separated acc" and "s \<le> e" and "acc \<noteq> [] \<Longrightarrow> fst (last acc) \<le> s"
  shows "separated (add_range acc (s, e)) \<and> lines_of (add_range acc (s, e)) = lines_of acc \<union> {s..e}
    \<and> add_range acc (s, e) \<noteq> [] \<and> fst (last (add_range acc (s, e))) \<le> s"
proof (cases acc rule: rev_cases)
  case Nil
  with assms(2) show ?thesis by (simp add: min_def max_def)
next
  case (snoc ms m)
  obtain a b where m: "m = (a, b)" by (cases m)
  have "a \<le> b" "a \<le> s" using assms(1,3) snoc m by (simp_all add: separated_snoc)
  moreover have "{a..max b e} = {a..b} \<union> {s..e}" if "s \<le> b + 1"
    using that \<open>a \<le> b\<close> \<open>a \<le> s\<close> assms(2) by auto
  ultimately have union: "a \<le> b" "a \<le> s" "s \<le> b + 1 \<Longrightarrow> {a..max b e} = {a..b} \<union> {s..e}" by blast+

  show ?thesis
  proof (cases "s \<le> b + 1")
    case True
    have "lines_of (ms @ [(a, max b e)]) = lines_of (ms @ [(a, b)]) \<union> {s..e}"
      using union(3) [OF True] \<open>a \<le> b\<close> by (simp add: min_def max_def Un_assoc)
    moreover have "separated (ms @ [(a, max b e)])"
      using assms(1) snoc m by (simp add: separated_snoc le_max_iff_disj)
    ultimately show ?thesis using True snoc m \<open>a \<le> s\<close> by simp
  next
    case False
    then show ?thesis
      using assms(1,2) snoc m separated_snoc [of "ms @ [(a, b)]" s e]
      by (simp add: separated_snoc min_def max_def Un_assoc)
  qed
qed

lemma add_ranges_spec:
  assumes "sorted xs" and "\<forall>(s, e) \<in> set xs. s \<le> e" and "separated acc"
    and "acc \<noteq> [] \<Longrightarrow> \<forall>x \<in> set xs. fst (last acc) \<le> fst x"
  shows "separated (foldl add_range acc xs) \<and> lines_of (foldl add_range acc xs) = lines_of acc \<union> lines_of xs"
  using assms
proof (induction xs arbitrary: acc)
  case (Cons x xs)
  obtain s e where x: "x = (s, e)" by (cases x)
  have se: "s \<le> e" using Cons.prems(2) x by simp
  have step: "separated (add_range acc (s, e)) \<and> lines_of (add_range acc (s, e)) = lines_of acc \<union> {s..e}
      \<and> add_range acc (s, e) \<noteq> [] \<and> fst (last (add_range acc (s, e))) \<le> s"
    by (rule add_range_step [OF Cons.prems(3) se]) (use Cons.prems(4) x in auto)
  have "\<forall>y \<in> set xs. s \<le> fst y" using Cons.prems(1) x by (auto simp: less_eq_prod_def)
  then have "\<forall>y \<in> set xs. fst (last (add_range acc (s, e))) \<le> fst y" using step by (meson order_trans)
  then have "separated (foldl add_range (add_range acc (s, e)) xs)
      \<and> lines_of (foldl add_range (add_range acc (s, e)) xs) = lines_of (add_range acc (s, e)) \<union> lines_of xs"
    using Cons.prems(1,2) step by (intro Cons.IH) auto
  then show ?case using step se by (simp add: x min_def max_def Un_assoc)
qed simp

lemma merge_ranges_spec: "separated (merge_ranges rs)" "lines_of (merge_ranges rs) = lines_of rs"
proof -
  have "\<forall>(s, e) \<in> set (sort (map ordered_pair rs)). s \<le> e" by auto
  then have "separated (merge_ranges rs) \<and> lines_of (merge_ranges rs) = lines_of [] \<union> lines_of (sort (map ordered_pair rs))"
    unfolding merge_ranges_def by (intro add_ranges_spec) auto
  then show "separated (merge_ranges rs)" "lines_of (merge_ranges rs) = lines_of rs"
    by (simp_all add: lines_of_sort)
qed

lemma separated_bounds: "separated ((a, b) # rs) \<Longrightarrow> x \<in> lines_of rs \<Longrightarrow> b + 1 < x"
proof (induction rs arbitrary: a b)
  case (Cons r rs)
  obtain c d where r: "r = (c, d)" by (cases r)
  then have "b + 1 < c" and sep: "separated ((c, d) # rs)" using Cons.prems(1) by auto
  moreover have "c \<le> d" using sep by (cases rs) auto
  ultimately show ?case using Cons.IH [OF sep] Cons.prems(2) r by fastforce
qed simp

lemma separated_tl: "separated (r # rs) \<Longrightarrow> separated rs"
  by (cases r; cases rs) auto

lemma separated_unique: "separated rs \<Longrightarrow> separated ss \<Longrightarrow> lines_of rs = lines_of ss \<Longrightarrow> rs = ss"
proof (induction rs arbitrary: ss)
  case Nil
  then show ?case by (cases ss rule: separated.cases) auto
next
  case (Cons r rs)
  obtain a b where r: "r = (a, b)" by (cases r)
  have ab: "a \<le> b" using Cons.prems(1) r by (cases rs) auto
  obtain c d ss' where ss: "ss = (c, d) # ss'" using Cons.prems(3) ab r by (cases ss) auto
  have cd: "c \<le> d" using Cons.prems(2) ss by (cases ss') auto
  have L: "{a..b} \<union> lines_of rs = {c..d} \<union> lines_of ss'"
    using Cons.prems(3) ab cd by (simp add: r ss min_def max_def)
  have above: "b + 1 < x" if "x \<in> lines_of rs" for x using separated_bounds Cons.prems(1) r that by blast
  have above': "d + 1 < x" if "x \<in> lines_of ss'" for x using separated_bounds Cons.prems(2) ss that by blast
  have "a \<in> {c..d} \<union> lines_of ss'" "c \<in> {a..b} \<union> lines_of rs" using L ab cd by auto
  then have "a = c" using above above' ab cd by fastforce
  moreover have "b = d"
  proof (rule ccontr)
    assume "b \<noteq> d"
    then consider "b < d" | "d < b" by linarith
    then show False
    proof cases
      case 1
      then have "b + 1 \<in> {c..d}" using ab \<open>a = c\<close> by simp
      then have "b + 1 \<in> {a..b} \<union> lines_of rs" using L by blast
      then show False using above by auto
    next
      case 2
      then have "d + 1 \<in> {a..b}" using cd \<open>a = c\<close> by simp
      then have "d + 1 \<in> {c..d} \<union> lines_of ss'" using L by blast
      then show False using above' by auto
    qed
  qed
  moreover have "lines_of rs = lines_of ss'"
  proof -
    have "x \<in> lines_of rs \<longleftrightarrow> b < x \<and> x \<in> {a..b} \<union> lines_of rs" for x using above by fastforce
    moreover have "x \<in> lines_of ss' \<longleftrightarrow> d < x \<and> x \<in> {c..d} \<union> lines_of ss'" for x using above' by fastforce
    ultimately show ?thesis using L \<open>b = d\<close> by blast
  qed
  moreover have "rs = ss'"
    using Cons.IH separated_tl Cons.prems(1,2) ss \<open>lines_of rs = lines_of ss'\<close> by blast
  ultimately show ?case by (simp add: r ss)
qed

text \<open>
  C32: merged ranges are the canonical form of a set of lines: merging keeps exactly the lines, and
  two lists of ranges merge to the same list exactly when they cover the same lines, whatever their
  order, overlaps and orientation.
\<close>

theorem merge_ranges_canonical:
  "lines_of (merge_ranges rs) = lines_of rs \<and> separated (merge_ranges rs)
   \<and> (merge_ranges rs = merge_ranges ss \<longleftrightarrow> lines_of rs = lines_of ss)"
  using merge_ranges_spec separated_unique by metis

lemma ranges_intersect_lines:
  "ranges_intersect l r \<longleftrightarrow> {fst (ordered_pair l)..snd (ordered_pair l)} \<inter> {fst (ordered_pair r)..snd (ordered_pair r)} \<noteq> {}"
proof -
  obtain a b where l: "ordered_pair l = (a, b)" by (cases "ordered_pair l")
  obtain c d where r: "ordered_pair r = (c, d)" by (cases "ordered_pair r")
  have "a \<le> b" "c \<le> d" using l r by (cases l; cases r; auto)+
  then have "a \<le> d \<and> c \<le> b \<longleftrightarrow> max a c \<in> {a..b} \<inter> {c..d}" by auto
  then show ?thesis using \<open>a \<le> b\<close> \<open>c \<le> d\<close> by (auto simp: ranges_intersect_def l r)
qed

lemma overlaps_lines:
  "overlaps s rs \<longleftrightarrow> {min (sym_start s) (sym_end s)..max (sym_start s) (sym_end s)} \<inter> lines_of rs \<noteq> {}"
  unfolding overlaps_def list_ex_iff ranges_intersect_lines lines_of_def ordered_pair.simps fst_conv snd_conv
  by blast


subsection \<open>Reading back what git prints\<close>

text \<open>
  A hunk as \<open>git diff -U0\<close> prints it: the old side of its header, the new side's start and count (a
  count of one is left out), what follows the header, and its body, lines that begin with a plus or
  a minus sign. A file has its header lines and its hunks.
\<close>

record hunk =
  h_old :: "nat \<times> nat"
  h_start :: nat
  h_count :: nat
  h_trailer :: string
  h_body :: "string list"

record file_diff =
  f_path :: string
  f_preamble :: "string list"
  f_hunks :: "hunk list"

definition render_count :: "nat \<Rightarrow> string" where
  "render_count n = (if n = 1 then [] else CHR '','' # str_of_nat n)"

definition render_hunk :: "hunk \<Rightarrow> string list" where
  "render_hunk h =
     (''@@ -'' @ str_of_nat (fst (h_old h)) @ render_count (snd (h_old h)) @ '' +'' @ str_of_nat (h_start h)
       @ render_count (h_count h) @ '' @@'' @ h_trailer h) # h_body h"

definition render_file :: "file_diff \<Rightarrow> string list" where
  "render_file f = f_preamble f @ [''+++ b/'' @ f_path f] @ concat (map render_hunk (f_hunks f))"

definition hunk_range :: "hunk \<Rightarrow> ranges" where
  "hunk_range h = (if h_count h = 0 then [] else [(int (h_start h), int (h_start h + h_count h) - 1)])"

text \<open>
  What the reader relies on: a path git prints unquoted and without outer blanks, and no content
  line that reads as a file header or as a hunk header.
\<close>

definition inert_line :: "string \<Rightarrow> bool" where
  "inert_line l \<longleftrightarrow> \<not> startswith l ''+++ '' \<and> \<not> startswith l ''@@ -''"

definition plain_path :: "string \<Rightarrow> bool" where
  "plain_path p \<longleftrightarrow> p \<noteq> [] \<and> \<not> py_isspace (last p)"

definition file_ok :: "file_diff \<Rightarrow> bool" where
  "file_ok f \<longleftrightarrow> plain_path (f_path f) \<and> list_all inert_line (f_preamble f)
     \<and> list_all (\<lambda>h. list_all inert_line (h_body h)) (f_hunks f)"

lemma is_digit_digit_char: "d < 10 \<Longrightarrow> is_digit (digit_char d)"
  by (simp add: is_digit_def digit_char_def Let_def)

lemma str_of_nat_digits: "list_all is_digit (str_of_nat n)"
proof (induction n rule: str_of_nat.induct)
  case (1 n)
  then show ?case by (subst str_of_nat.simps) (auto simp: is_digit_digit_char)
qed

lemma str_of_nat_nonempty [simp]: "str_of_nat n \<noteq> []"
  by (subst str_of_nat.simps) simp

lemma takeWhile_number: "r = [] \<or> \<not> is_digit (hd r) \<Longrightarrow> takeWhile is_digit (str_of_nat n @ r) = str_of_nat n"
  using str_of_nat_digits(1) [of n] by (cases r) (auto simp: list_all_iff takeWhile_append)

lemma dropWhile_number: "r = [] \<or> \<not> is_digit (hd r) \<Longrightarrow> dropWhile is_digit (str_of_nat n @ r) = r"
  using str_of_nat_digits(1) [of n] by (cases r) (auto simp: list_all_iff dropWhile_append)

lemma int_of_digits_append: "int_of_digits n (s @ [digit_char d]) = 10 * int_of_digits n s + d" if "d < 10"
  using that by (induction s arbitrary: n) (auto simp: digit_char_def)

lemma int_of_digits_str [simp]: "int_of_digits 0 (str_of_nat n) = n"
proof (induction n rule: str_of_nat.induct)
  case (1 n)
  show ?case
    using 1 int_of_digits_append [of "n mod 10" 0 "str_of_nat (n div 10)"] int_of_digits_append [of n 0 "[]"]
    by (subst str_of_nat.simps) simp
qed

lemma not_digit [simp]: "\<not> is_digit CHR '',''" "\<not> is_digit CHR '' ''"
  by code_simp+

lemma take_number_count:
  "takeWhile is_digit (str_of_nat n @ render_count m @ CHR '' '' # r) = str_of_nat n"
  "dropWhile is_digit (str_of_nat n @ render_count m @ CHR '' '' # r) = render_count m @ CHR '' '' # r"
  by (simp_all add: takeWhile_number dropWhile_number render_count_def)

lemma take_number_blank:
  "takeWhile is_digit (str_of_nat n @ CHR '' '' # r) = str_of_nat n"
  "dropWhile is_digit (str_of_nat n @ CHR '' '' # r) = CHR '' '' # r"
  by (simp_all add: takeWhile_number dropWhile_number)

lemma hunk_match_render:
  "hunk_match (''@@ -'' @ str_of_nat a @ render_count b @ '' +'' @ str_of_nat s @ render_count c @ '' @@'' @ t)
   = Some (str_of_nat s, if c = 1 then None else Some (str_of_nat c))"
proof -
  have count: "opt_count (render_count n @ CHR '' '' # r) = (if n = 1 then None else Some (str_of_nat n), CHR '' '' # r)"
    for n r by (simp add: opt_count_def render_count_def take_number_blank)
  show ?thesis
    by (simp add: hunk_match_def Let_def take_number_count startswith_def count)
qed

lemma diff_line_inert: "inert_line l \<Longrightarrow> diff_line st l = st"
  by (simp add: diff_line_def hunk_match_def inert_line_def)

lemma diff_lines_inert: "list_all inert_line ls \<Longrightarrow> foldl diff_line st ls = st"
  by (induction ls arbitrary: st) (auto simp: diff_line_inert)

lemma diff_hunk:
  assumes "list_all inert_line (h_body h)" and "current st = Some p"
  shows "foldl diff_line st (render_hunk h)
    = (if h_count h = 0 then st
       else st\<lparr>changed := append_to p (int (h_start h), int (h_start h + h_count h) - 1) (changed st)\<rparr>)"
proof -
  let ?line = "''@@ -'' @ str_of_nat (fst (h_old h)) @ render_count (snd (h_old h)) @ '' +'' @ str_of_nat (h_start h)
       @ render_count (h_count h) @ '' @@'' @ h_trailer h"
  have "\<not> startswith ?line ''+++ ''" by (simp add: startswith_def)
  then have "diff_line st ?line = (if h_count h = 0 then st
       else st\<lparr>changed := append_to p (int (h_start h), int (h_start h + h_count h) - 1) (changed st)\<rparr>)"
    using assms(2) by (simp add: diff_line_def hunk_match_render Let_def del: append.simps)
  then show ?thesis using diff_lines_inert [OF assms(1)] by (simp add: render_hunk_def)
qed


lemma append_to_last: "p \<notin> fst ` set d \<Longrightarrow> append_to p x (d @ [(p, rs)]) = d @ [(p, rs @ [x])]"
  by (force simp: append_to_def intro!: map_idI)

lemma hunk_range_empty [simp]: "hunk_range h = [] \<longleftrightarrow> h_count h = 0"
  by (simp add: hunk_range_def)

lemma diff_hunks:
  assumes "p \<notin> fst ` set d" and "list_all (\<lambda>h. list_all inert_line (h_body h)) hs"
  shows "foldl diff_line \<lparr>changed = d @ [(p, rs)], current = Some p\<rparr> (concat (map render_hunk hs))
    = \<lparr>changed = d @ [(p, rs @ concat (map hunk_range hs))], current = Some p\<rparr>"
  using assms(2)
proof (induction hs arbitrary: rs)
  case (Cons h hs)
  have "foldl diff_line \<lparr>changed = d @ [(p, rs)], current = Some p\<rparr> (render_hunk h)
      = \<lparr>changed = d @ [(p, rs @ hunk_range h)], current = Some p\<rparr>"
    using Cons.prems by (simp add: diff_hunk append_to_last [OF assms(1)] hunk_range_def)
  then show ?case using Cons by simp
qed simp

lemma header_path_plain: "plain_path p \<Longrightarrow> header_path (''+++ b/'' @ p) = Some p"
proof -
  assume p: "plain_path p"
  have "\<not> py_isspace CHR ''b''" by code_simp
  then have "py_strip (''b/'' @ p) = ''b/'' @ p"
    using p by (intro py_strip_fix) (simp add: plain_path_def)
  then show ?thesis by (simp add: header_path_def startswith_def)
qed

lemma diff_file:
  assumes "f_path f \<notin> fst ` set d" and "file_ok f"
  shows "foldl diff_line \<lparr>changed = d, current = c\<rparr> (render_file f)
    = \<lparr>changed = d @ [(f_path f, concat (map hunk_range (f_hunks f)))], current = Some (f_path f)\<rparr>"
proof -
  have "startswith (''+++ b/'' @ f_path f) ''+++ ''" by (simp add: startswith_def)
  then have "diff_line \<lparr>changed = d, current = c\<rparr> (''+++ b/'' @ f_path f)
      = \<lparr>changed = d @ [(f_path f, [])], current = Some (f_path f)\<rparr>"
    using assms by (simp only: diff_line_def header_path_plain file_ok_def) (simp add: setdefault_def)
  moreover have "foldl diff_line \<lparr>changed = d @ [(f_path f, [])], current = Some (f_path f)\<rparr>
      (concat (map render_hunk (f_hunks f)))
      = \<lparr>changed = d @ [(f_path f, [] @ concat (map hunk_range (f_hunks f)))], current = Some (f_path f)\<rparr>"
    using assms by (intro diff_hunks) (auto simp: file_ok_def)
  ultimately show ?thesis
    using diff_lines_inert assms(2) by (simp add: render_file_def file_ok_def)
qed

lemma diff_files:
  assumes "distinct (map f_path fs)" and "\<forall>f \<in> set fs. file_ok f \<and> f_path f \<notin> fst ` set d"
  shows "changed (foldl diff_line \<lparr>changed = d, current = c\<rparr> (concat (map render_file fs)))
    = d @ map (\<lambda>f. (f_path f, concat (map hunk_range (f_hunks f)))) fs"
  using assms
proof (induction fs arbitrary: d c)
  case (Cons f fs)
  have "changed (foldl diff_line \<lparr>changed = d @ [(f_path f, concat (map hunk_range (f_hunks f)))],
        current = Some (f_path f)\<rparr> (concat (map render_file fs)))
      = (d @ [(f_path f, concat (map hunk_range (f_hunks f)))])
        @ map (\<lambda>f. (f_path f, concat (map hunk_range (f_hunks f)))) fs"
  proof (intro Cons.IH ballI conjI)
    show "distinct (map f_path fs)" using Cons.prems(1) by simp
    fix g assume g: "g \<in> set fs"
    then show "file_ok g" using Cons.prems(2) by simp
    have "f_path g \<noteq> f_path f" using Cons.prems(1) g by (metis distinct.simps(2) image_eqI list.simps(9) list.set_map)
    then show "f_path g \<notin> fst ` set (d @ [(f_path f, concat (map hunk_range (f_hunks f)))])"
      using Cons.prems(2) g by simp
  qed
  then show ?case using Cons.prems diff_file [of f d c] by simp
qed simp

lemma lines_from_line:
  "\<forall>c \<in> set l. \<not> is_linebreak c \<Longrightarrow> lines_from acc (l @ CHR 0x0A # s) = (rev acc @ l) # lines_from [] s"
proof (induction l arbitrary: acc)
  case Nil
  have "is_linebreak CHR 0x0A" by code_simp
  then show ?case by simp
next
  case (Cons c l)
  have "is_linebreak CHR 0x0D" by code_simp
  then have "c \<noteq> CHR 0x0D" using Cons.prems by auto
  with Cons show ?case by simp
qed

lemma splitlines_unlines:
  "\<forall>l \<in> set ls. \<forall>c \<in> set l. \<not> is_linebreak c \<Longrightarrow> splitlines (concat (map (\<lambda>l. l @ [CHR 0x0A]) ls)) = ls"
  by (induction ls) (auto simp: splitlines_def lines_from_line)

definition diff_of :: "file_diff list \<Rightarrow> string" where
  "diff_of fs = concat (map (\<lambda>l. l @ [CHR 0x0A]) (concat (map render_file fs)))"

definition one_line :: "string \<Rightarrow> bool" where
  "one_line l \<longleftrightarrow> (\<forall>c \<in> set l. \<not> is_linebreak c)"

text \<open>
  C33: the reader inverts git's printer, on the diffs it can read. The files have distinct paths, none of them empty or ending in a blank;
  no line between the headers, neither of a preamble nor of a hunk's content, reads as a file or hunk header (\<open>inert_line\<close>); and no line
  printed holds a line break of its own (\<open>one_line\<close>). Then exactly the files with a hunk that adds or rewrites lines are
  reported, each with the canonical form of its hunks' new-side ranges; pure deletions add nothing. An added line that starts with
  two plus signs and a blank is outside of this, and is misread (\<open>added_line_read_as_header\<close>).
\<close>

theorem diff_reads_back:
  assumes "distinct (map f_path fs)" and "list_all file_ok fs"
    and "list_all one_line (concat (map render_file fs))"
  shows "symbol_ranges_from_diff (diff_of fs)
    = map (\<lambda>f. (f_path f, merge_ranges (concat (map hunk_range (f_hunks f)))))
        (filter (\<lambda>f. \<exists>h \<in> set (f_hunks f). h_count h \<noteq> 0) fs)"
proof -
  have "splitlines (diff_of fs) = concat (map render_file fs)"
    unfolding diff_of_def using assms(3) by (intro splitlines_unlines) (auto simp: list_all_iff one_line_def)
  moreover have "changed (diff_lines (concat (map render_file fs)))
      = [] @ map (\<lambda>f. (f_path f, concat (map hunk_range (f_hunks f)))) fs"
    unfolding diff_lines_def using assms(1,2) by (intro diff_files) (auto simp: list_all_iff)
  ultimately show ?thesis
    unfolding symbol_ranges_from_diff_def by (simp add: filter_map comp_def)
qed

abbreviation sample_hunk :: "nat \<Rightarrow> nat \<Rightarrow> hunk" where
  "sample_hunk s c \<equiv> \<lparr>h_old = (7, 0), h_start = s, h_count = c, h_trailer = '' def f():'', h_body = [''+x = 1'']\<rparr>"

theorem diff_reads_back_witness:
  "symbol_ranges_from_diff (diff_of [\<lparr>f_path = ''a.py'', f_preamble = [''--- a/a.py''],
     f_hunks = [sample_hunk 10 3, sample_hunk 13 1, sample_hunk 40 2]\<rparr>]) = [(''a.py'', [(10, 13), (40, 41)])]"
proof -
  let ?f = "\<lparr>f_path = ''a.py'', f_preamble = [''--- a/a.py''],
     f_hunks = [sample_hunk 10 3, sample_hunk 13 1, sample_hunk 40 2]\<rparr>"
  have "list_all file_ok [?f]" by code_simp
  moreover have "list_all one_line (concat (map render_file [?f]))" by code_simp
  moreover have "merge_ranges (concat (map hunk_range (f_hunks ?f))) = [(10, 13), (40, 41)]" by code_simp
  ultimately show ?thesis using diff_reads_back [of "[?f]"] by simp
qed

subsection \<open>A content line that looks like a header\<close>

text \<open>
  An added line whose text begins with two plus signs and a blank is printed with three and read as a
  file header: every later hunk of the file is lost to it, so a symbol changed only there is not reported as drifted.
\<close>

theorem added_line_read_as_header:
  assumes "plain_path p" and "plain_path q" and "q \<noteq> p"
    and "list_all inert_line (h_body g)" and "list_all inert_line (h_body h)"
  shows "map_of (changed (diff_lines (render_file \<lparr>f_path = p, f_preamble = [],
           f_hunks = [g\<lparr>h_body := h_body g @ [''+++ b/'' @ q]\<rparr>, h]\<rparr>))) p = Some (hunk_range g)"
proof -
  let ?g = "\<lparr>f_path = p, f_preamble = [], f_hunks = [g]\<rparr>"
  have lines: "render_file \<lparr>f_path = p, f_preamble = [], f_hunks = [g\<lparr>h_body := h_body g @ [''+++ b/'' @ q]\<rparr>, h]\<rparr>
      = render_file ?g @ render_file \<lparr>f_path = q, f_preamble = [], f_hunks = [h]\<rparr>"
    by (simp add: render_file_def render_hunk_def)
  have "foldl diff_line \<lparr>changed = [], current = None\<rparr> (render_file ?g)
      = \<lparr>changed = [(p, hunk_range g)], current = Some p\<rparr>"
    using diff_file [of ?g "[]" None] assms by (simp add: file_ok_def)
  moreover have "foldl diff_line \<lparr>changed = [(p, hunk_range g)], current = Some p\<rparr>
      (render_file \<lparr>f_path = q, f_preamble = [], f_hunks = [h]\<rparr>)
      = \<lparr>changed = [(p, hunk_range g), (q, hunk_range h)], current = Some q\<rparr>"
    using diff_file [of "\<lparr>f_path = q, f_preamble = [], f_hunks = [h]\<rparr>" "[(p, hunk_range g)]" "Some p"] assms
    by (simp add: file_ok_def)
  ultimately have "changed (diff_lines (render_file ?g @ render_file \<lparr>f_path = q, f_preamble = [], f_hunks = [h]\<rparr>))
      = [(p, hunk_range g), (q, hunk_range h)]"
    unfolding diff_lines_def foldl_append by simp
  then show ?thesis unfolding lines by simp
qed

theorem added_line_read_as_header_witness:
  "map_of (changed (diff_lines (render_file \<lparr>f_path = ''a.c'', f_preamble = [],
      f_hunks = [(sample_hunk 5 1)\<lparr>h_body := [''+x = 1'', ''+++ b/n;'']\<rparr>, sample_hunk 40 2]\<rparr>))) ''a.c''
   = Some [(5, 5)]"
proof -
  have "plain_path ''a.c''" "plain_path ''n;''" "list_all inert_line (h_body (sample_hunk n m))"
      "hunk_range (sample_hunk 5 1) = [(5, 5)]" for n m
    by code_simp+
  then show ?thesis
    using added_line_read_as_header [of "''a.c''" "''n;''" "sample_hunk 5 1" "sample_hunk 40 2"] by simp
qed

end
