(* ===== verification/FindingsInv.thy ===== *)
theory FindingsInv
  imports Findings DriftProps
begin

section \<open>Invariants of the findings tables\<close>

text \<open>
  What every operation on the findings keeps: ids and identities are unique, a deferred finding is
  debt with an owner and a deadline, and a finding's events are an unbroken history ending at its status.
  Every operation is a sequence of three moves, proved once: a silent update of a row, a recorded change of
  status and a recorded opening.
\<close>

lemma status_names [simp]:
  "STATUS_OPEN \<noteq> STATUS_ACKNOWLEDGED" "STATUS_OPEN \<noteq> STATUS_WONTFIX" "STATUS_FIXED \<noteq> STATUS_ACKNOWLEDGED"
  "STATUS_FIXED \<noteq> STATUS_WONTFIX" "STATUS_STALE \<noteq> STATUS_ACKNOWLEDGED" "STATUS_STALE \<noteq> STATUS_WONTFIX"
  "STATUS_FIXED \<noteq> STATUS_OPEN" "STATUS_OPEN \<noteq> STATUS_FIXED" "STATUS_FIXED \<noteq> STATUS_STALE" "STATUS_STALE \<noteq> STATUS_FIXED"
  "STATUS_ACKNOWLEDGED \<noteq> STATUS_FIXED" "STATUS_WONTFIX \<noteq> STATUS_FIXED" "STATUS_ACKNOWLEDGED \<noteq> STATUS_WONTFIX"
  "STATUS_WONTFIX \<noteq> STATUS_ACKNOWLEDGED"
  by (simp_all add: STATUS_OPEN_def STATUS_ACKNOWLEDGED_def STATUS_WONTFIX_def STATUS_FIXED_def STATUS_STALE_def)

definition debt_ok :: "finding \<Rightarrow> bool" where
  "debt_ok f \<longleftrightarrow> (is_deferred f \<longrightarrow>
     f_level f \<noteq> LEVEL_BLOCKING \<and> py_strip (opt_str (f_owner f)) \<noteq> [] \<and> f_due f \<noteq> None)"

fun history :: "string option \<Rightarrow> finding_event list \<Rightarrow> string option \<Rightarrow> bool" where
  "history s [] t \<longleftrightarrow> s = t"
| "history s (e # es) t \<longleftrightarrow> ev_from e = s \<and> history (Some (ev_to e)) es t"

definition events_of :: "findings_db \<Rightarrow> int \<Rightarrow> finding_event list" where
  "events_of db fid = filter (\<lambda>e. ev_finding e = fid) (events db)"

definition identity :: "finding \<Rightarrow> int \<times> string" where
  "identity f = (f_repo f, f_fingerprint f)"

definition fdb_ok :: "findings_db \<Rightarrow> bool" where
  "fdb_ok db \<longleftrightarrow> distinct (map f_id (findings db)) \<and> distinct (map identity (findings db))
     \<and> (\<forall>f \<in> set (findings db). f_id f < next_finding db)
     \<and> (\<forall>e \<in> set (events db). ev_finding e < next_finding db)
     \<and> (\<forall>f \<in> set (findings db). debt_ok f \<and> history None (events_of db (f_id f)) (Some (f_status f)))"

lemma history_snoc: "history s (es @ [e]) t \<longleftrightarrow> history s es (ev_from e) \<and> t = Some (ev_to e)"
  by (induction es arbitrary: s) auto

lemma session_get_Some: "session_get db i = Some f \<Longrightarrow> f \<in> set (findings db) \<and> f_id f = i"
  unfolding session_get_def by (blast dest: find_SomeD)

lemma find_existing_Some:
  "find_existing db repo digest = Inr (Some f) \<Longrightarrow> f \<in> set (findings db) \<and> f_repo f = repo \<and> f_fingerprint f = digest"
proof -
  let ?fs = "filter (\<lambda>r. f_repo r = repo \<and> f_fingerprint r = digest) (findings db)"
  assume "find_existing db repo digest = Inr (Some f)"
  then have "?fs = [f]" unfolding find_existing_def by (auto split: list.splits)
  then have "f \<in> set ?fs" by simp
  then show ?thesis by simp
qed

lemma find_existing_None:
  "find_existing db repo digest = Inr None \<Longrightarrow> (repo, digest) \<notin> identity ` set (findings db)"
  unfolding find_existing_def identity_def by (auto simp: filter_empty_conv split: list.splits)

lemma find_existing_ok:
  assumes "distinct (map identity (findings db))"
  shows "find_existing db repo digest \<noteq> Inl e"
proof -
  let ?fs = "filter (\<lambda>r. f_repo r = repo \<and> f_fingerprint r = digest) (findings db)"
  have "distinct (map identity ?fs)" using assms by (rule distinct_map_filter)
  moreover have "identity r = (repo, digest)" if "r \<in> set ?fs" for r using that by (auto simp: identity_def)
  ultimately have "?fs = [] \<or> (\<exists>r. ?fs = [r])" by (cases ?fs rule: remdups_adj.cases) auto
  then show ?thesis by (auto simp: find_existing_def)
qed

subsection \<open>The three moves\<close>

text \<open>A row keeps its key, identity and level.\<close>

definition same_finding :: "finding \<Rightarrow> finding \<Rightarrow> bool" where
  "same_finding f g \<longleftrightarrow> f_id g = f_id f \<and> f_repo g = f_repo f \<and> f_fingerprint g = f_fingerprint f
     \<and> f_level g = f_level f"

lemma put_finding_map:
  assumes "\<And>r. r \<in> set (findings db) \<Longrightarrow> f_id r = f_id g \<Longrightarrow> k r = k g"
  shows "map k (findings (put_finding g db)) = map k (findings db)"
  using assms by (auto simp: put_finding_def)

lemma unique_row: "fdb_ok db \<Longrightarrow> f \<in> set (findings db) \<Longrightarrow> r \<in> set (findings db) \<Longrightarrow> f_id r = f_id f \<Longrightarrow> r = f"
  unfolding fdb_ok_def by (metis distinct_map inj_onD)

lemma put_finding_keeps:
  assumes ok: "fdb_ok db" and f: "f \<in> set (findings db)" and same: "same_finding f g"
  shows "distinct (map f_id (findings (put_finding g db)))" "distinct (map identity (findings (put_finding g db)))"
    and "r \<in> set (findings (put_finding g db)) \<Longrightarrow> r = g \<or> r \<in> set (findings db) \<and> f_id r \<noteq> f_id g"
proof -
  have "r = f" if "r \<in> set (findings db)" "f_id r = f_id g" for r
    using unique_row [OF ok f that(1)] that(2) same by (simp add: same_finding_def)
  then have "identity r = identity g" if "r \<in> set (findings db)" "f_id r = f_id g" for r
    using that same by (auto simp: identity_def same_finding_def)
  then have "map identity (findings (put_finding g db)) = map identity (findings db)"
    by (rule put_finding_map)
  moreover have "map f_id (findings (put_finding g db)) = map f_id (findings db)"
    by (rule put_finding_map)
  ultimately show "distinct (map f_id (findings (put_finding g db)))"
      "distinct (map identity (findings (put_finding g db)))"
    using ok by (simp_all add: fdb_ok_def)
  show "r \<in> set (findings (put_finding g db)) \<Longrightarrow> r = g \<or> r \<in> set (findings db) \<and> f_id r \<noteq> f_id g"
    by (auto simp: put_finding_def split: if_splits)
qed

lemma put_finding_frame [simp]:
  "events (put_finding g db) = events db" "next_finding (put_finding g db) = next_finding db"
  "next_event (put_finding g db) = next_event db" "runs (put_finding g db) = runs db"
  "repo_slugs (put_finding g db) = repo_slugs db" "evidence (put_finding g db) = evidence db"
  by (simp_all add: put_finding_def)

lemma record_event_frame [simp]:
  "findings (record_event at f a s t r n db) = findings db"
  "next_finding (record_event at f a s t r n db) = next_finding db"
  "runs (record_event at f a s t r n db) = runs db"
  "repo_slugs (record_event at f a s t r n db) = repo_slugs db"
  "evidence (record_event at f a s t r n db) = evidence db"
  by (simp_all add: record_event_def)

lemma events_of_record:
  "events_of (record_event at f a s t r n db) i =
     events_of db i @ (if i = f_id f then [\<lparr>ev_id = next_event db, ev_finding = f_id f, ev_at = at, ev_actor = a,
       ev_from = s, ev_to = t, ev_reason = r, ev_run = n\<rparr>] else [])"
  by (simp add: events_of_def record_event_def)

lemma silent_move:
  assumes ok: "fdb_ok db" and f: "f \<in> set (findings db)" and same: "same_finding f g"
    and st: "f_status g = f_status f" and g: "debt_ok g"
  shows "fdb_ok (put_finding g db)"
proof -
  note put = put_finding_keeps [OF ok f same]
  have evs: "events_of (put_finding g db) i = events_of db i" for i by (simp add: events_of_def)
  have "history None (events_of db (f_id g)) (Some (f_status g))" "f_id g < next_finding db"
    using ok f same st by (auto simp: fdb_ok_def same_finding_def)
  with g have "debt_ok r \<and> history None (events_of db (f_id r)) (Some (f_status r)) \<and> f_id r < next_finding db"
    if "r \<in> set (findings (put_finding g db))" for r
    using put(3) [OF that] ok by (auto simp: fdb_ok_def)
  then show ?thesis using put(1,2) ok by (simp add: fdb_ok_def evs)
qed

lemma status_move:
  assumes ok: "fdb_ok db" and f: "f \<in> set (findings db)" and same: "same_finding f g" and g: "debt_ok g"
  shows "fdb_ok (record_event at g a (Some (f_status f)) (f_status g) r n (put_finding g db))"
proof -
  note put = put_finding_keeps [OF ok f same]
  let ?db = "record_event at g a (Some (f_status f)) (f_status g) r n (put_finding g db)"
  have evs: "events_of (put_finding g db) i = events_of db i" for i by (simp add: events_of_def)
  have "history None (events_of db (f_id g)) (Some (f_status f))" and id: "f_id g < next_finding db"
    using ok f same by (auto simp: fdb_ok_def same_finding_def)
  then have "history None (events_of ?db (f_id g)) (Some (f_status g))"
    by (simp add: events_of_record evs history_snoc)
  with g id have "debt_ok q \<and> history None (events_of ?db (f_id q)) (Some (f_status q)) \<and> f_id q < next_finding db"
    if "q \<in> set (findings (put_finding g db))" for q
    using put(3) [OF that] ok by (auto simp: fdb_ok_def events_of_record evs)
  moreover have "\<forall>e \<in> set (events ?db). ev_finding e < next_finding db"
    using ok id by (auto simp: fdb_ok_def record_event_def)
  ultimately show ?thesis using put(1,2) by (simp add: fdb_ok_def)
qed

lemma opening_move:
  assumes ok: "fdb_ok db" and new: "identity f \<notin> identity ` set (findings db)" and id: "f_id f = next_finding db"
    and st: "f_status f = STATUS_OPEN"
  shows "fdb_ok (record_event at f a None STATUS_OPEN r n (add_finding f db))"
proof -
  let ?db = "record_event at f a None STATUS_OPEN r n (add_finding f db)"
  have evs: "events_of (add_finding f db) i = events_of db i" for i by (simp add: events_of_def add_finding_def)
  have "events_of db (next_finding db) = []" using ok by (auto simp: events_of_def fdb_ok_def filter_empty_conv)
  then have "history None (events_of ?db (f_id f)) (Some (f_status f))" by (simp add: events_of_record evs id st)
  moreover have "debt_ok f" using st by (simp add: debt_ok_def)
  moreover have old: "f_id g \<noteq> f_id f" if "g \<in> set (findings db)" for g using that ok id by (auto simp: fdb_ok_def)
  moreover have "\<forall>e \<in> set (events ?db). ev_finding e < next_finding db + 1"
    using ok id by (auto simp: fdb_ok_def record_event_def add_finding_def)
  moreover have "events_of ?db (f_id g) = events_of db (f_id g)" if "g \<in> set (findings db)" for g
    using old [OF that] by (simp add: events_of_record evs)
  moreover have "findings ?db = findings db @ [f]" "next_finding ?db = next_finding db + 1"
    by (simp_all add: add_finding_def)
  ultimately show ?thesis
    using ok new id unfolding fdb_ok_def by (simp only:) fastforce
qed

lemma fdb_ok_other [simp]:
  "fdb_ok (db\<lparr>evidence := e\<rparr>) = fdb_ok db" "fdb_ok (db\<lparr>runs := x\<rparr>) = fdb_ok db"
  "fdb_ok (db\<lparr>runs := x, repo_slugs := y\<rparr>) = fdb_ok db"
  by (simp_all add: fdb_ok_def events_of_def)


subsection \<open>Every operation keeps the invariant\<close>

lemma put_finding_mem: "f \<in> set (findings db) \<Longrightarrow> f_id g = f_id f \<Longrightarrow> g \<in> set (findings (put_finding g db))"
  by (force simp: put_finding_def)

lemma put_finding_other: "r \<in> set (findings db) \<Longrightarrow> f_id r \<noteq> f_id g \<Longrightarrow> r \<in> set (findings (put_finding g db))"
  by (force simp: put_finding_def)

lemma fdb_ok_row: "fdb_ok db \<Longrightarrow> f \<in> set (findings db) \<Longrightarrow> debt_ok f"
  by (simp add: fdb_ok_def)

lemma same_finding_reopened [simp]: "same_finding f (reopened f)" "f_status (reopened f) = STATUS_OPEN"
  "debt_ok (reopened f)"
  by (simp_all add: same_finding_def reopened_def debt_ok_def)

lemma observed_frame:
  "same_finding f (observed cs inp entry f)" "f_status (observed cs inp entry f) = f_status f"
  "debt_ok (observed cs inp entry f) = debt_ok f"
  by (simp_all add: same_finding_def observed_def debt_ok_def)

lemma same_finding_trans: "same_finding f g \<Longrightarrow> same_finding g h \<Longrightarrow> same_finding f h"
  by (simp add: same_finding_def)

lemma transition_debt:
  assumes "transition f action actor owner due reason confirmed_by = Inr (to_status, why)"
  shows "to_status = STATUS_FIXED \<or> to_status \<in> {STATUS_ACKNOWLEDGED, STATUS_WONTFIX}
    \<and> f_level f \<noteq> LEVEL_BLOCKING \<and> py_strip (opt_str owner) \<noteq> [] \<and> due \<noteq> None"
proof -
  have "to_status \<in> {STATUS_ACKNOWLEDGED, STATUS_WONTFIX}" if "map_of DEFER_ACTIONS action = Some to_status"
    using that by (auto simp: DEFER_ACTIONS_def split: if_splits)
  moreover have "py_strip (opt_str owner) \<noteq> [] \<and> due \<noteq> None" if "require_debt_fields action owner due = None"
    using that by (auto simp: require_debt_fields_def split: if_splits)
  ultimately show ?thesis
    using assms by (auto simp: transition_def Let_def split: option.splits if_splits)
qed

lemma decide_ok:
  assumes ok: "fdb_ok db" and d: "decide now db fid action actor owner due reason run cb = Inr (db', dec)"
  shows "fdb_ok db'"
proof -
  let ?action = "py_lower (py_strip (opt_str action))" and ?actor = "or_str (py_strip (opt_str actor)) ''unknown''"
  obtain f where f: "session_get db fid = Some f" using d by (auto simp: decide_def split: option.splits)
  obtain to_status why where t: "transition f ?action ?actor owner due reason cb = Inr (to_status, why)"
    using d f by (auto simp: decide_def Let_def split: if_splits sum.splits)
  let ?g = "(if to_status \<in> {STATUS_ACKNOWLEDGED, STATUS_WONTFIX}
      then f\<lparr>f_owner := Some (py_strip (opt_str owner)), f_due := due\<rparr> else f)
      \<lparr>f_status := to_status, f_decided_by := Some ?actor, f_decided_at := Some now\<rparr>"
  have db': "db' = record_event now ?g ?actor (Some (f_status f)) (f_status ?g) (Some why) run (put_finding ?g db)"
    using d f t by (auto simp: decide_def Let_def split: if_splits)
  have "same_finding f ?g" by (simp add: same_finding_def)
  moreover have "debt_ok ?g"
    using transition_debt [OF t] by (auto simp: debt_ok_def opt_str_def py_strip_idem)
  ultimately show ?thesis
    unfolding db' using ok session_get_Some [OF f] by (intro status_move) auto
qed

lemma match_finding_ok:
  assumes ok: "fdb_ok db" and f: "f \<in> set (findings db)"
    and m: "match_finding cs now today inp entry f db = Inr (db', n)"
  shows "fdb_ok db'"
proof -
  let ?f1 = "observed cs inp entry f"
  note fr = observed_frame [where f = f and cs = cs and inp = inp and entry = entry]
  have ok1: "fdb_ok (put_finding ?f1 db)"
    using fr fdb_ok_row [OF ok f] by (intro silent_move [OF ok f]) simp_all
  have f1: "?f1 \<in> set (findings (put_finding ?f1 db))"
    using put_finding_mem [OF f] fr(1) by (simp add: same_finding_def)
  have open_move: "fdb_ok (record_event now g a (Some (f_status f)) STATUS_OPEN r k (put_finding g (put_finding ?f1 db)))"
    if "same_finding ?f1 g" "f_status g = STATUS_OPEN" for g a r k
    using status_move [OF ok1 f1 that(1)] that(2) fr(2) by (simp add: debt_ok_def)
  show ?thesis
  proof (cases "f_status f = STATUS_STALE")
    case True
    then show ?thesis
      using m open_move [of "?f1\<lparr>f_status := STATUS_OPEN\<rparr>" "''agent''" "Some REASON_DRIFT" "in_run inp"]
      by (simp add: match_finding_def Let_def same_finding_def)
  next
    case False
    then show ?thesis
      using m ok1 open_move [OF same_finding_reopened(1)]
      by (auto simp: match_finding_def Let_def split: if_splits sum.splits option.splits)
  qed
qed

lemma open_finding_ok:
  assumes ok: "fdb_ok db" and new: "(repo, digest) \<notin> identity ` set (findings db)"
    and m: "open_finding cs now inp repo digest anchor entry db = Inr (db', f)"
  shows "fdb_ok db'"
proof -
  obtain rid path symbol where a: "anchor = (rid, path, symbol)" by (cases anchor)
  have f: "f_id f = next_finding db" "f_status f = STATUS_OPEN" "identity f = (repo, digest)"
    and db': "db' = attach_evidence cs f (evidence_rows entry)
      (record_event now f ''agent'' None STATUS_OPEN (Some REASON_MATCHED) (in_run inp) (add_finding f db))"
    using m by (auto simp: open_finding_def a Let_def identity_def split: sum.splits)
  show ?thesis
    unfolding db' attach_evidence_def using opening_move [OF ok _ f(1,2)] new f(3) by simp
qed

lemma existing_cases [case_names none found err]:
  obtains "find_existing db repo digest = Inr None"
    | f where "find_existing db repo digest = Inr (Some f)"
    | e where "find_existing db repo digest = Inl e"
  by (metis not_None_eq sum.exhaust)

lemma ingest_entry_ok:
  assumes ok: "fdb_ok db" and m: "ingest_entry sha256 cs now today inp repo entry (db, s) = Inr (db', s')"
  shows "fdb_ok db'"
proof -
  let ?digest = "fingerprint sha256 (py_strip (text_or cs (jget entry ''rule_id'') []))
    (py_strip (text_or cs (jget entry ''file_path'') [])) (py_strip (text_or cs (jget entry ''symbol'') []))
    (text_or cs (jget entry ''context_key'') [])"
  show ?thesis
  proof (cases db repo ?digest rule: existing_cases)
    case none
    then show ?thesis
      using m open_finding_ok [OF ok find_existing_None [OF none]]
      by (auto simp: ingest_entry_def Let_def split: if_splits sum.splits)
  next
    case found
    then show ?thesis
      using m match_finding_ok [OF ok conjunct1 [OF find_existing_Some [OF found]]]
      by (auto simp: ingest_entry_def Let_def split: if_splits sum.splits)
  next
    case err
    then show ?thesis using m by (auto simp: ingest_entry_def Let_def split: if_splits)
  qed
qed

lemma ingest_entries_ok:
  "fdb_ok (fst st) \<Longrightarrow> ingest_entries sha256 cs now today inp repo es st = Inr st' \<Longrightarrow> fdb_ok (fst st')"
proof (induction es arbitrary: st)
  case (Cons e es)
  obtain st1 where st1: "ingest_entry sha256 cs now today inp repo e st = Inr st1"
      "ingest_entries sha256 cs now today inp repo es st1 = Inr st'"
    using Cons.prems(2) by (auto split: sum.splits)
  have "fdb_ok (fst st1)"
    using ingest_entry_ok [of "fst st" sha256 cs now today inp repo e "snd st" "fst st1" "snd st1"] Cons.prems(1) st1(1)
    by simp
  then show ?case using Cons.IH st1(2) by blast
qed simp

lemma escalate_row_ok:
  assumes "fdb_ok db" and "r \<in> set (findings db)"
  shows "fdb_ok (escalate_row now run db r)"
  unfolding escalate_row_def
  using status_move [OF assms same_finding_reopened(1,3)] by (simp only: same_finding_reopened(2))

lemma escalate_row_keeps:
  "q \<in> set (findings db) \<Longrightarrow> f_id q \<noteq> f_id r \<Longrightarrow> q \<in> set (findings (escalate_row now run db r))"
  by (simp add: escalate_row_def put_finding_other reopened_def)

lemma escalate_rows_ok:
  "fdb_ok db \<Longrightarrow> set rows \<subseteq> set (findings db) \<Longrightarrow> distinct (map f_id rows)
   \<Longrightarrow> fdb_ok (foldl (escalate_row now run) db rows)"
proof (induction rows arbitrary: db)
  case (Cons r rows)
  have "fdb_ok (escalate_row now run db r)" using Cons.prems by (intro escalate_row_ok) auto
  moreover have "set rows \<subseteq> set (findings (escalate_row now run db r))"
  proof
    fix q assume "q \<in> set rows"
    then have "f_id q \<in> set (map f_id rows)" "q \<in> set (findings db)" using Cons.prems(2) by auto
    moreover have "f_id r \<notin> set (map f_id rows)" using Cons.prems(3) by simp
    ultimately have "q \<in> set (findings db)" "f_id q \<noteq> f_id r" by metis+
    then show "q \<in> set (findings (escalate_row now run db r))" by (rule escalate_row_keeps)
  qed
  ultimately show ?case using Cons.IH Cons.prems(3) by simp
qed simp

lemma deferred_rows_distinct: "fdb_ok db \<Longrightarrow> distinct (map f_id (filter p (deferred_rows db repo)))"
  unfolding deferred_rows_def by (intro distinct_map_filter) (simp add: fdb_ok_def)

lemma apply_escalation_ok: "fdb_ok db \<Longrightarrow> fdb_ok (fst (apply_escalation now db repo policy run exclude))"
proof -
  assume "fdb_ok db"
  then have "fdb_ok (foldl (escalate_row now run) db (filter p (deferred_rows db repo)))" for p
    by (intro escalate_rows_ok deferred_rows_distinct) (auto simp: deferred_rows_def)
  then show ?thesis
    using \<open>fdb_ok db\<close> by (simp add: apply_escalation_def Let_def split: option.split)
qed

abbreviation no_summary :: ingest_summary where
  "no_summary \<equiv> \<lparr>sum_new = 0, sum_matched = 0, sum_reactivated = 0, sum_ids = []\<rparr>"

lemma ingest_parts:
  assumes "ingest sha256 cs now today inp db repo_id entries = Inr (db', s)"
  shows "\<exists>repo db1 s1 db2 n. resolve_repo_id db repo_id = Inr repo
    \<and> ingest_entries sha256 cs now today inp repo (json_objects entries) (db, no_summary) = Inr (db1, s1)
    \<and> apply_escalation now db1 repo (in_policy inp) (in_run inp) (sum_ids s1) = (db2, n)
    \<and> s = s1\<lparr>sum_reactivated := sum_reactivated s1 + n\<rparr>
    \<and> \<not> (case in_run inp of None \<Rightarrow> False | Some r \<Rightarrow> r \<notin> run_id ` set (runs db))
    \<and> db' = db2\<lparr>runs := map (\<lambda>r. if Some (run_id r) = in_run inp
         then r\<lparr>run_new := run_new r + int (sum_new s1), run_matched := run_matched r + int (sum_matched s1)\<rparr>
         else r) (runs db2)\<rparr>"
  using assms unfolding ingest_def Let_def by (auto split: sum.splits if_splits prod.splits)

lemma ingest_runsE:
  assumes "ingest sha256 cs now today inp db repo_id entries = Inr (db', s)"
  obtains repo db1 s1 db2 n rs where "resolve_repo_id db repo_id = Inr repo"
    and "ingest_entries sha256 cs now today inp repo (json_objects entries) (db, no_summary) = Inr (db1, s1)"
    and "apply_escalation now db1 repo (in_policy inp) (in_run inp) (sum_ids s1) = (db2, n)"
    and "db' = db2\<lparr>runs := rs\<rparr>" and "s = s1\<lparr>sum_reactivated := sum_reactivated s1 + n\<rparr>"
    and "run_id ` set rs = run_id ` set (runs db2)"
    and "\<not> (case in_run inp of None \<Rightarrow> False | Some r \<Rightarrow> r \<notin> run_id ` set (runs db))"
proof -
  have "map run_id (map (\<lambda>r. if Some (run_id r) = in_run inp
      then r\<lparr>run_new := run_new r + a, run_matched := run_matched r + b\<rparr> else r) rs) = map run_id rs" for a b rs
    by simp
  then have "run_id ` set (map (\<lambda>r. if Some (run_id r) = in_run inp
      then r\<lparr>run_new := run_new r + a, run_matched := run_matched r + b\<rparr> else r) rs) = run_id ` set rs" for a b rs
    by (metis list.set_map)
  then show thesis using that ingest_parts [OF assms] by blast
qed

lemma ingestE:
  assumes "ingest sha256 cs now today inp db repo_id entries = Inr (db', s)"
  obtains repo db1 s1 db2 n rs where "resolve_repo_id db repo_id = Inr repo"
    and "ingest_entries sha256 cs now today inp repo (json_objects entries) (db, no_summary) = Inr (db1, s1)"
    and "apply_escalation now db1 repo (in_policy inp) (in_run inp) (sum_ids s1) = (db2, n)"
    and "db' = db2\<lparr>runs := rs\<rparr>" and "s = s1\<lparr>sum_reactivated := sum_reactivated s1 + n\<rparr>"
  using ingest_parts [OF assms] that by blast

lemma ingest_ok:
  assumes ok: "fdb_ok db" and m: "ingest sha256 cs now today inp db repo_id entries = Inr (db', s)"
  shows "fdb_ok db'"
proof -
  from m obtain repo db1 s1 db2 n rs where
      1: "ingest_entries sha256 cs now today inp repo (json_objects entries) (db, no_summary) = Inr (db1, s1)"
    and 2: "apply_escalation now db1 repo (in_policy inp) (in_run inp) (sum_ids s1) = (db2, n)"
    and db': "db' = db2\<lparr>runs := rs\<rparr>"
    by (rule ingestE)
  have "fdb_ok db1" using ingest_entries_ok [OF _ 1] ok by simp
  then have "fdb_ok db2" using apply_escalation_ok [of db1 now repo "in_policy inp" "in_run inp" "sum_ids s1"] 2 by simp
  then show ?thesis by (simp add: db')
qed

lemma watch_rule_ok:
  assumes ok: "fdb_ok db" and m: "watch_rule sha256 now actor repo days threshold (db, s) x = Inr (db', s')"
  shows "fdb_ok db'"
proof -
  obtain rid k where x: "x = (rid, k)" by (cases x)
  let ?digest = "fingerprint sha256 RULE_QUALITY_RULE_ID POLICY_ENTRY_PATH RULE_QUALITY_SYMBOL rid"
  show ?thesis
  proof (cases db repo ?digest rule: existing_cases)
    case none
    have new: "(repo, ?digest) \<notin> identity ` set (findings db)" by (rule find_existing_None [OF none])
    obtain f where db': "db' = record_event now f actor None STATUS_OPEN (Some REASON_FALSE_POSITIVE) None (add_finding f db)"
      and f: "f_id f = next_finding db" "f_status f = STATUS_OPEN" "identity f = (repo, ?digest)"
      using m none by (auto simp: watch_rule_def x Let_def identity_def)
    show ?thesis unfolding db' using opening_move [OF ok _ f(1,2)] new f(3) by simp
  next
    case (found f)
    then have f: "f \<in> set (findings db)" using find_existing_Some by blast
    have silent: "fdb_ok (put_finding (f\<lparr>f_detail := d, f_seen := k\<rparr>) db)" for d k
      using fdb_ok_row [OF ok f] by (intro silent_move [OF ok f]) (simp_all add: same_finding_def debt_ok_def)
    have reopen: "fdb_ok (record_event now (f\<lparr>f_detail := d, f_seen := k, f_status := STATUS_OPEN\<rparr>) actor
        (Some (f_status f)) STATUS_OPEN r n (put_finding (f\<lparr>f_detail := d, f_seen := k, f_status := STATUS_OPEN\<rparr>) db))"
      for d k r n
      using status_move [OF ok f, of "f\<lparr>f_detail := d, f_seen := k, f_status := STATUS_OPEN\<rparr>" now actor r n]
      by (simp add: same_finding_def debt_ok_def)
    show ?thesis
      using m found silent reopen by (auto simp: watch_rule_def x Let_def split: if_splits)
  next
    case err
    then show ?thesis using m by (auto simp: watch_rule_def x Let_def)
  qed
qed

lemma watch_rules_ok:
  "fdb_ok (fst st) \<Longrightarrow> watch_rules sha256 now actor repo days threshold xs st = Inr st' \<Longrightarrow> fdb_ok (fst st')"
proof (induction xs arbitrary: st)
  case (Cons x xs)
  obtain st1 where st1: "watch_rule sha256 now actor repo days threshold st x = Inr st1"
      "watch_rules sha256 now actor repo days threshold xs st1 = Inr st'"
    using Cons.prems(2) by (auto split: sum.splits)
  have "fdb_ok (fst st1)"
    using watch_rule_ok [of "fst st" sha256 now actor repo days threshold "snd st" x "fst st1" "snd st1"] Cons.prems(1) st1(1)
    by simp
  then show ?case using Cons.IH st1(2) by blast
qed simp

lemma rule_quality_watch_ok:
  "fdb_ok db \<Longrightarrow> rule_quality_watch sha256 now db repo_id policy actor days = Inr (db', s) \<Longrightarrow> fdb_ok db'"
  using watch_rules_ok [of "(db, \<lparr>watch_created = [], watch_updated = []\<rparr>)"]
  by (auto simp: rule_quality_watch_def Let_def split: sum.splits)

subsection \<open>Reachable tables\<close>

text \<open>
  Any history of the three operations, with the other writers of these tables between them: runs
  are opened and repositories registered.
\<close>

inductive findings_step :: "(string \<Rightarrow> string) \<Rightarrow> findings_db \<Rightarrow> findings_db \<Rightarrow> bool" for sha256 where
  step_decide: "decide now db fid action actor owner due reason run cb = Inr (db', d) \<Longrightarrow> findings_step sha256 db db'"
| step_ingest: "ingest sha256 cs now today inp db repo_id entries = Inr (db', s) \<Longrightarrow> findings_step sha256 db db'"
| step_watch: "rule_quality_watch sha256 now db repo_id policy actor days = Inr (db', w) \<Longrightarrow> findings_step sha256 db db'"
| step_other: "findings_step sha256 db (db\<lparr>runs := rs, repo_slugs := ss\<rparr>)"

definition empty_findings :: findings_db where
  "empty_findings = \<lparr>findings = [], events = [], evidence = [], runs = [], repo_slugs = [], next_finding = 1,
     next_event = 1\<rparr>"

inductive findings_reachable :: "(string \<Rightarrow> string) \<Rightarrow> findings_db \<Rightarrow> bool" for sha256 where
  reach_empty: "findings_reachable sha256 empty_findings"
| reach_step: "findings_reachable sha256 db \<Longrightarrow> findings_step sha256 db db' \<Longrightarrow> findings_reachable sha256 db'"

lemma findings_step_ok: "findings_step sha256 db db' \<Longrightarrow> fdb_ok db \<Longrightarrow> fdb_ok db'"
proof (induction rule: findings_step.induct)
  case step_decide
  then show ?case by (rule decide_ok [rotated])
next
  case step_ingest
  then show ?case by (rule ingest_ok [rotated])
next
  case step_watch
  then show ?case by (rule rule_quality_watch_ok [rotated])
qed simp

lemma findings_reachable_ok: "findings_reachable sha256 db \<Longrightarrow> fdb_ok db"
proof (induction rule: findings_reachable.induct)
  case reach_empty
  show ?case by (simp add: empty_findings_def fdb_ok_def)
next
  case (reach_step db db')
  show ?case by (rule findings_step_ok [OF reach_step.hyps(2) reach_step.IH])
qed

end
