(* ===== verification/FindingsProps.thy ===== *)
theory FindingsProps
  imports FindingsInv
begin

section \<open>What the findings operations guarantee\<close>

text \<open>
  The invariants of reachable tables read as properties, the decision table, what ingesting a report does to
  known and unknown identities, and which code changes reactivate a deferred finding.
\<close>

subsection \<open>Deferred findings and the event log\<close>

text \<open>
  C10: invariants I2 and I3 in every reachable state: a finding that is acknowledged or not to be fixed is no
  blocking one, has an owner who is not blank, and has a deadline, and no sequence of decisions, reports and
  sweeps leads around this.
\<close>

theorem deferrals_have_owner_and_deadline:
  assumes "findings_reachable sha256 db" and "f \<in> set (findings db)"
    and "f_status f \<in> {STATUS_ACKNOWLEDGED, STATUS_WONTFIX}"
  shows "f_level f \<noteq> LEVEL_BLOCKING \<and> py_strip (opt_str (f_owner f)) \<noteq> [] \<and> f_due f \<noteq> None"
  using findings_reachable_ok [OF assms(1)] assms(2,3) by (auto simp: fdb_ok_def debt_ok_def)

text \<open>
  C29: in every reachable state the event log explains every finding: its events, in the order
  they were written, start from nothing, each one starts in the status the one before it ended in, and the last one ended
  in the finding's present status; and no two findings of one repository have the same fingerprint.
\<close>

theorem event_log_explains_status:
  assumes "findings_reachable sha256 db" and "f \<in> set (findings db)"
  shows "history None (filter (\<lambda>e. ev_finding e = f_id f) (events db)) (Some (f_status f))
    \<and> (\<forall>g \<in> set (findings db). f_repo g = f_repo f \<and> f_fingerprint g = f_fingerprint f \<longrightarrow> g = f)"
proof -
  have ok: "fdb_ok db" by (rule findings_reachable_ok [OF assms(1)])
  then have "inj_on identity (set (findings db))" by (simp add: fdb_ok_def distinct_map)
  then show ?thesis
    using ok assms(2) unfolding fdb_ok_def events_of_def
    by (auto simp: inj_on_def identity_def)
qed

subsection \<open>The decision table\<close>

lemma defer_action: "map_of DEFER_ACTIONS a = (if a = ''acknowledge'' then Some STATUS_ACKNOWLEDGED
    else if a = ''wontfix'' then Some STATUS_WONTFIX else None)"
  by (simp add: DEFER_ACTIONS_def STATUS_WONTFIX_def)

lemma require_debt_fields_None:
  "require_debt_fields action owner due = None \<longleftrightarrow> py_strip (opt_str owner) \<noteq> [] \<and> due \<noteq> None"
  by (simp add: require_debt_fields_def)

lemma transition_other:
  assumes "map_of DEFER_ACTIONS action = None"
  shows "transition f action actor owner due reason cb =
    (if action = STATUS_FIXED \<or> action = ''fix'' then
       (if reason = Some REASON_FALSE_POSITIVE \<and> opt_str cb = [] 
        then Inl (DecisionInvalid (''a false positive needs a second confirmation ''
                       @ ''(finding:decide by someone other than the proposer)''))
        else if reason = Some REASON_FALSE_POSITIVE \<and> py_strip (opt_str cb) = actor
        then Inl (DecisionInvalid ''the second confirmation must come from another account'')
        else Inr (STATUS_FIXED, or_str (opt_str reason) REASON_ACCEPTED))
     else Inl (DecisionInvalid (''unknown action '' @ action)))"
proof -
  have reason: "or_str (opt_str reason) REASON_ACCEPTED = REASON_FALSE_POSITIVE \<longleftrightarrow> reason = Some REASON_FALSE_POSITIVE"
    by (auto simp: or_str_def opt_str_def REASON_ACCEPTED_def REASON_FALSE_POSITIVE_def split: option.splits)
  show ?thesis unfolding transition_def assms option.case Let_def reason by (rule refl)
qed

lemma transition_accepts:
  "(\<exists>x. transition f action actor owner due reason cb = Inr x) \<longleftrightarrow>
     action \<in> {''acknowledge'', ''wontfix''} \<and> f_level f \<noteq> LEVEL_BLOCKING \<and> f_status f \<noteq> STATUS_FIXED
       \<and> py_strip (opt_str owner) \<noteq> [] \<and> due \<noteq> None
     \<or> action \<in> {''fix'', ''fixed''}
       \<and> (reason = Some REASON_FALSE_POSITIVE \<longrightarrow> opt_str cb \<noteq> [] \<and> py_strip (opt_str cb) \<noteq> actor)"
proof -
  show ?thesis
  proof (cases "action \<in> {''acknowledge'', ''wontfix''}")
    case True
    then obtain st where "map_of DEFER_ACTIONS action = Some st" by (auto simp: defer_action)
    then have "(\<exists>x. transition f action actor owner due reason cb = Inr x) \<longleftrightarrow> f_level f \<noteq> LEVEL_BLOCKING
        \<and> require_debt_fields action owner due = None \<and> f_status f \<noteq> STATUS_FIXED"
      by (cases "require_debt_fields action owner due") (simp_all add: transition_def)
    then show ?thesis using True by (auto simp: require_debt_fields_None)
  next
    case False
    then have "map_of DEFER_ACTIONS action = None" by (simp add: defer_action)
    then have "(\<exists>x. transition f action actor owner due reason cb = Inr x) \<longleftrightarrow> (action = STATUS_FIXED \<or> action = ''fix'')
        \<and> (reason = Some REASON_FALSE_POSITIVE \<longrightarrow> opt_str cb \<noteq> [] \<and> py_strip (opt_str cb) \<noteq> actor)"
      by (subst transition_other) (auto simp del: append.simps append_Cons)
    moreover have "action = STATUS_FIXED \<or> action = ''fix'' \<longleftrightarrow> action \<in> {''fix'', ''fixed''}"
      by (auto simp: STATUS_FIXED_def)
    ultimately show ?thesis using False by argo
  qed
qed

text \<open>
  Which decisions are accepted, for every input. The finding must exist; deferring needs a finding
  that neither blocks nor is fixed, an owner and a deadline; fixing is always possible, except as a false positive
  without a confirmation or confirmed by the actor. Nothing else is accepted.
\<close>

theorem decide_accepts:
  "(\<exists>r. decide now db fid action actor owner due reason run cb = Inr r) \<longleftrightarrow>
     (\<exists>f. session_get db fid = Some f
       \<and> (py_lower (py_strip (opt_str action)) \<in> {''acknowledge'', ''wontfix''}
            \<and> f_level f \<noteq> LEVEL_BLOCKING \<and> f_status f \<noteq> STATUS_FIXED \<and> py_strip (opt_str owner) \<noteq> [] \<and> due \<noteq> None
          \<or> py_lower (py_strip (opt_str action)) \<in> {''fix'', ''fixed''}
            \<and> (if reason = Some REASON_FALSE_POSITIVE
               then opt_str cb \<noteq> [] \<and> py_strip (opt_str cb) \<noteq> or_str (py_strip (opt_str actor)) ''unknown'' else True)))"
proof (cases "session_get db fid")
  case None
  then show ?thesis by (simp add: decide_def)
next
  case (Some f)
  let ?a = "py_lower (py_strip (opt_str action))" and ?actor = "or_str (py_strip (opt_str actor)) ''unknown''"
  have "(\<exists>r. decide now db fid action actor owner due reason run cb = Inr r)
      \<longleftrightarrow> ?a \<in> set DECISION_ACTIONS \<and> (\<exists>x. transition f ?a ?actor owner due reason cb = Inr x)"
    by (cases "transition f ?a ?actor owner due reason cb") (auto simp: decide_def Some Let_def)
  then show ?thesis unfolding transition_accepts by (auto simp: Some DECISION_ACTIONS_def if_bool_eq_conj)
qed

text \<open>
  The action \<open>false_positive\<close>, which the service lists among the actions it accepts and the API
  documents, is refused for every finding and every confirmation.
\<close>

theorem false_positive_action_refused:
  assumes "session_get db fid = Some f" and "py_lower (py_strip (opt_str action)) = ''false_positive''"
  shows "''false_positive'' \<in> set DECISION_ACTIONS
    \<and> decide now db fid action actor owner due reason run cb = Inl (DecisionInvalid ''unknown action false_positive'')"
  using assms by (simp add: decide_def DECISION_ACTIONS_def transition_def defer_action Let_def STATUS_FIXED_def)

subsection \<open>Which code changes reactivate\<close>

text \<open>
  What the findings rely on when they ask for drift: an anchor in the file asked about, with its
  first line before its last.
\<close>

locale drift_probe =
  fixes probe :: "string \<Rightarrow> string \<Rightarrow> string \<Rightarrow> string \<Rightarrow> drift_error + drift_context"
  assumes anchored: "probe path symbol base head = Inr d \<Longrightarrow> drift_symbol d = Some a
    \<Longrightarrow> sym_path a = path \<and> sym_start a \<le> sym_end a"
begin

definition asking :: "string \<Rightarrow> string \<Rightarrow> reactivation_context \<Rightarrow> bool" where
  "asking base head ctx \<longleftrightarrow> ctx_drift ctx = None \<and> ctx_adapter ctx = Some probe \<and> ctx_base ctx = Some base
     \<and> ctx_head ctx = Some head \<and> base \<noteq> [] \<and> head \<noteq> [] \<and> ctx_stop_reason ctx = None"

lemma drift_reason_lines:
  assumes "asking base head ctx" and "probe (f_file f) (f_symbol f) base head = Inr d"
  shows "drift_reason f ctx = Inr (Some REASON_DRIFT) \<longleftrightarrow>
    (\<exists>a. drift_symbol d = Some a \<and> sym_path a = f_file f
       \<and> (\<exists>l \<in> lines_of (drift_changed d). sym_start a \<le> l \<and> l \<le> sym_end a))"
proof (cases "drift_symbol d")
  case None
  then show ?thesis using assms by (simp add: drift_reason_def asking_def opt_str_def)
next
  case (Some a)
  then have "sym_path a = f_file f \<and> sym_start a \<le> sym_end a" using anchored assms(2) by blast
  then show ?thesis
    using assms Some by (auto simp: drift_reason_def asking_def opt_str_def overlaps_lines)
qed

lemma failing_probe_raises:
  assumes "asking base head ctx" and "probe (f_file f) (f_symbol f) base head = Inl e"
    and "ctx_previous_severity ctx = None" and "ctx_threshold ctx = None"
  shows "should_reactivate today f ctx = Inl e"
  using assms by (simp add: should_reactivate_def severity_raised_def drift_reason_def asking_def opt_str_def)

end

lemma symbol_range_ordered:
  "symbol_range_in py_ast source path symbol = Some a \<Longrightarrow> sym_path a = path \<and> sym_start a \<le> sym_end a"
  by (auto simp: symbol_range_in_def Let_def split: if_splits option.splits)

interpretation git: drift_probe "drift_context_of git py_ast" for git py_ast
proof
  fix path symbol base head d a
  assume "drift_context_of git py_ast path symbol base head = Inr d" "drift_symbol d = Some a"
  then show "sym_path a = path \<and> sym_start a \<le> sym_end a"
    by (auto simp: drift_context_of_def Let_def dest: symbol_range_ordered split: sum.splits if_splits option.splits)
qed

abbreviation git_context :: "(string list \<Rightarrow> git_result) \<Rightarrow> (string \<Rightarrow> ast_node list option) \<Rightarrow> string \<Rightarrow> string
    \<Rightarrow> reactivation_context" where
  "git_context git py_ast base head \<equiv>
     \<lparr>ctx_today = None, ctx_drift = None, ctx_adapter = Some (drift_context_of git py_ast), ctx_base = Some base,
      ctx_head = Some head, ctx_open_count = None, ctx_threshold = None, ctx_previous_severity = None,
      ctx_current_severity = None, ctx_stop_reason = None\<rparr>"

text \<open>
  C30: code drift is about the symbol, not the file. Let both commands of git end with 0, the file at the new commit be non-empty, both
  commits be given, the finding have no deadline, and the context hold nothing but the drift (no thresholds, severity or stop reason). Then
  the finding is reactivated exactly when the symbol can be located in the new file and one of its lines is in a range
  \<open>changed_lines_from_diff\<close> reports for that file. The reader may report less than the diff changes
  (\<open>added_line_read_as_header\<close>), and a symbol changed only there is not reactivated.
\<close>

theorem drift_reactivates_exactly_the_symbol:
  assumes "git [''diff'', ''--no-color'', ''--no-ext-diff'', ''-U0'', base, head] = GitExit 0 diff e1"
    and "git [''show'', head @ '':'' @ f_file f] = GitExit 0 src e2" and "src \<noteq> []"
    and "base \<noteq> []" and "head \<noteq> []" and "f_due f = None"
  shows "should_reactivate today f (git_context git py_ast base head) =
    (if \<exists>a. symbol_range_in py_ast src (f_file f) (f_symbol f) = Some a
          \<and> (\<exists>l \<in> lines_of (changed_lines_from_diff diff (f_file f)). sym_start a \<le> l \<and> l \<le> sym_end a)
     then Inr (Some REASON_DRIFT) else Inr None)"
proof -
  let ?ctx = "git_context git py_ast base head"
  let ?ch = "changed_lines_from_diff diff (f_file f)"
  have git_diff: "changed_ranges git base head = Inr (symbol_ranges_from_diff diff)"
    using assms(1) by (simp add: changed_ranges_def diff_text_def git_output_def)
  have git_show: "or_str (opt_str (file_at git head (f_file f))) x = src" for x
    using assms(2,3) by (simp add: file_at_def git_output_def opt_str_def or_str_def)
  have "\<exists>d. drift_context_of git py_ast (f_file f) (f_symbol f) base head = Inr d
      \<and> drift_symbol d = (if ?ch = [] then None else symbol_range_in py_ast src (f_file f) (f_symbol f))
      \<and> drift_changed d = ?ch"
    unfolding drift_context_of_def git_diff git_show Let_def changed_lines_from_diff_def [symmetric] sum.case
    by (cases "?ch = []"; cases "symbol_range_in py_ast src (f_file f) (f_symbol f)") simp_all
  then obtain d where d: "drift_context_of git py_ast (f_file f) (f_symbol f) base head = Inr d"
    and anchor: "drift_symbol d = (if ?ch = [] then None else symbol_range_in py_ast src (f_file f) (f_symbol f))"
    and lines: "drift_changed d = ?ch"
    by blast
  have ask: "git.asking git py_ast base head ?ctx" using assms(4,5) by (simp add: git.asking_def)
  have "(drift_reason f ?ctx = Inr (Some REASON_DRIFT)) \<longleftrightarrow>
      (\<exists>a. symbol_range_in py_ast src (f_file f) (f_symbol f) = Some a
         \<and> (\<exists>l \<in> lines_of ?ch. sym_start a \<le> l \<and> l \<le> sym_end a))"
    unfolding git.drift_reason_lines [OF ask d] anchor lines by (auto dest: symbol_range_ordered)
  moreover have "drift_reason f ?ctx = Inr None \<or> drift_reason f ?ctx = Inr (Some REASON_DRIFT)"
    using d assms(4,5) by (auto simp: drift_reason_def opt_str_def split: option.splits)
  ultimately show ?thesis
    using assms(6) by (auto simp: should_reactivate_def severity_raised_def opt_str_def)
qed


subsection \<open>Reports of known and unknown identities\<close>

lemma put_identity:
  assumes "fdb_ok db" and "f \<in> set (findings db)" and "same_finding f g"
  shows "map identity (findings (put_finding g db)) = map identity (findings db)"
  using unique_row [OF assms(1,2)] assms(3)
  by (intro put_finding_map) (auto simp: same_finding_def identity_def)

definition identities :: "findings_db \<Rightarrow> (int \<times> string) set" where
  "identities db = identity ` set (findings db)"

definition entry_digest :: "(string \<Rightarrow> string) \<Rightarrow> (json \<Rightarrow> string) \<Rightarrow> (string \<times> json) list \<Rightarrow> string" where
  "entry_digest sha256 cs entry =
     fingerprint sha256 (py_strip (text_or cs (jget entry ''rule_id'') [])) (py_strip (text_or cs (jget entry ''file_path'') []))
       (py_strip (text_or cs (jget entry ''symbol'') [])) (text_or cs (jget entry ''context_key'') [])"

definition entry_anchored :: "(json \<Rightarrow> string) \<Rightarrow> (string \<times> json) list \<Rightarrow> bool" where
  "entry_anchored cs entry \<longleftrightarrow> py_strip (text_or cs (jget entry ''rule_id'') []) \<noteq> []
     \<and> py_strip (text_or cs (jget entry ''file_path'') []) \<noteq> [] \<and> py_strip (text_or cs (jget entry ''symbol'') []) \<noteq> []"

text \<open>One entry, by whether its identity is known.\<close>

lemma ingest_entry_new:
  assumes "find_existing db repo (entry_digest sha256 cs entry) = Inr None"
    and "ingest_entry sha256 cs now today inp repo entry (db, s) = Inr (db', s')"
  shows "entry_anchored cs entry \<and> (\<exists>f. f_id f = next_finding db \<and> findings db' = findings db @ [f]
     \<and> identity f = (repo, entry_digest sha256 cs entry)
     \<and> s' = s\<lparr>sum_new := Suc (sum_new s), sum_ids := sum_ids s @ [f_id f]\<rparr>)"
  using assms
  by (auto simp: ingest_entry_def Let_def entry_digest_def [symmetric] entry_anchored_def open_finding_def
      attach_evidence_def add_finding_def identity_def split: if_splits sum.splits)

lemma ingest_entry_match:
  assumes "find_existing db repo (entry_digest sha256 cs entry) = Inr (Some f)"
  shows "ingest_entry sha256 cs now today inp repo entry (db, s) = Inr (db', s') \<longleftrightarrow>
    entry_anchored cs entry \<and> (\<exists>n. match_finding cs now today inp entry f db = Inr (db', n)
      \<and> s' = s\<lparr>sum_matched := Suc (sum_matched s), sum_reactivated := sum_reactivated s + n, sum_ids := sum_ids s @ [f_id f]\<rparr>)"
  using assms
  by (auto simp: ingest_entry_def Let_def entry_digest_def [symmetric] entry_anchored_def split: sum.splits)

lemma match_finding_rows:
  assumes "match_finding cs now today inp entry f db = Inr (db', n)"
  shows "\<exists>g. same_finding f g \<and> (f_status f = STATUS_FIXED \<longrightarrow> f_status g = STATUS_FIXED)
    \<and> findings db' = findings (put_finding g db)"
proof -
  let ?f1 = "observed cs inp entry f"
  have twice: "findings (put_finding g (put_finding ?f1 db)) = findings (put_finding g db)" if "same_finding ?f1 g" for g
    using that observed_frame(1) [where f = f] by (auto simp: put_finding_def same_finding_def)
  consider "findings db' = findings (put_finding ?f1 db)"
    | g where "same_finding ?f1 g" "f_status f \<noteq> STATUS_FIXED" "findings db' = findings (put_finding g (put_finding ?f1 db))"
  proof (cases "f_status f = STATUS_STALE")
    case True
    then show ?thesis
      using assms by (intro that(2) [of "?f1\<lparr>f_status := STATUS_OPEN\<rparr>"])
        (auto simp: match_finding_def Let_def same_finding_def)
  next
    case False
    then show ?thesis
      using assms that(1) that(2) [of "reopened ?f1"]
      by (auto simp: match_finding_def Let_def split: if_splits sum.splits option.splits)
  qed
  then show ?thesis
  proof cases
    case 1
    then show ?thesis using observed_frame(1,2) by metis
  next
    case 2
    then show ?thesis using twice same_finding_trans [OF observed_frame(1)] by metis
  qed
qed

lemma match_finding_total:
  "in_adapter inp = None \<Longrightarrow> \<exists>db' n. match_finding cs now today inp entry f db = Inr (db', n)"
  by (auto simp: match_finding_def Let_def should_reactivate_def severity_raised_def drift_reason_def context_for_def
      opt_str_def split: sum.splits option.splits if_splits)

lemma find_existing_known:
  assumes "fdb_ok db" and "(repo, digest) \<in> identities db"
  obtains f where "find_existing db repo digest = Inr (Some f)"
proof (cases db repo digest rule: existing_cases)
  case none
  then show ?thesis using find_existing_None assms(2) by (auto simp: identities_def)
next
  case err
  then show ?thesis using find_existing_ok assms(1) by (auto simp: fdb_ok_def)
qed

lemma ingest_entry_spec:
  assumes ok: "fdb_ok db" and m: "ingest_entry sha256 cs now today inp repo entry (db, s) = Inr (db', s')"
  shows "entry_anchored cs entry" "identities db' = insert (repo, entry_digest sha256 cs entry) (identities db)"
    and "sum_new s' + sum_matched s' = Suc (sum_new s + sum_matched s)"
    and "length (sum_ids s') = Suc (length (sum_ids s))"
    and "(repo, entry_digest sha256 cs entry) \<in> identities db \<Longrightarrow> sum_new s' = sum_new s"
proof -
  let ?d = "entry_digest sha256 cs entry"
  have "entry_anchored cs entry \<and> identities db' = insert (repo, ?d) (identities db)
      \<and> sum_new s' + sum_matched s' = Suc (sum_new s + sum_matched s) \<and> length (sum_ids s') = Suc (length (sum_ids s))
      \<and> ((repo, ?d) \<in> identities db \<longrightarrow> sum_new s' = sum_new s)"
  proof (cases db repo ?d rule: existing_cases)
    case none
    then have "(repo, ?d) \<notin> identities db" using find_existing_None by (simp add: identities_def)
    then show ?thesis using ingest_entry_new [OF none m] by (auto simp: identities_def)
  next
    case (found f)
    then have f: "f \<in> set (findings db)" "identity f = (repo, ?d)"
      using find_existing_Some by (auto simp: identity_def)
    obtain g where g: "same_finding f g" "findings db' = findings (put_finding g db)"
      using m match_finding_rows unfolding ingest_entry_match [OF found] by blast
    then have "identities db' = identities db"
      using put_identity [OF ok f(1) g(1)] by (metis identities_def list.set_map)
    moreover have "(repo, ?d) \<in> identities db" using f by (force simp: identities_def)
    ultimately show ?thesis using m by (auto simp: ingest_entry_match [OF found] insert_absorb)
  next
    case (err e)
    then show ?thesis using find_existing_ok ok by (auto simp: fdb_ok_def)
  qed
  then show "entry_anchored cs entry" "identities db' = insert (repo, ?d) (identities db)"
      "sum_new s' + sum_matched s' = Suc (sum_new s + sum_matched s)"
      "length (sum_ids s') = Suc (length (sum_ids s))"
      "(repo, ?d) \<in> identities db \<Longrightarrow> sum_new s' = sum_new s"
    by blast+
qed

lemma ingest_entries_spec:
  assumes "fdb_ok db" and "ingest_entries sha256 cs now today inp repo es (db, s) = Inr (db', s')"
  shows "(\<forall>e \<in> set es. entry_anchored cs e)
    \<and> identities db' = (\<lambda>e. (repo, entry_digest sha256 cs e)) ` set es \<union> identities db
    \<and> sum_new s' + sum_matched s' = length es + (sum_new s + sum_matched s)
    \<and> length (sum_ids s') = length es + length (sum_ids s)"
  using assms
proof (induction es arbitrary: db s)
  case (Cons e es)
  obtain db1 s1 where 1: "ingest_entry sha256 cs now today inp repo e (db, s) = Inr (db1, s1)"
    and 2: "ingest_entries sha256 cs now today inp repo es (db1, s1) = Inr (db', s')"
    using Cons.prems(2) by (auto split: sum.splits)
  note spec = ingest_entry_spec [OF Cons.prems(1) 1]
  show ?case
    using Cons.IH [OF ingest_entry_ok [OF Cons.prems(1) 1] 2] spec(1-4) by auto
qed simp

lemma ingest_entries_known:
  assumes "fdb_ok db" and "\<forall>e \<in> set es. entry_anchored cs e \<and> (repo, entry_digest sha256 cs e) \<in> identities db"
    and "in_adapter inp = None"
  shows "\<exists>db' s'. ingest_entries sha256 cs now today inp repo es (db, s) = Inr (db', s')
    \<and> sum_new s' = sum_new s \<and> identities db' = identities db"
  using assms(1,2)
proof (induction es arbitrary: db s)
  case (Cons e es)
  obtain f where f: "find_existing db repo (entry_digest sha256 cs e) = Inr (Some f)"
    using find_existing_known Cons.prems by (metis list.set_intros(1))
  obtain db1 n where "match_finding cs now today inp e f db = Inr (db1, n)"
    using match_finding_total [OF assms(3)] by blast
  then obtain s1 where 1: "ingest_entry sha256 cs now today inp repo e (db, s) = Inr (db1, s1)"
    using ingest_entry_match [OF f] Cons.prems(2) by fastforce
  note spec = ingest_entry_spec [OF Cons.prems(1) 1]
  have same: "identities db1 = identities db" "sum_new s1 = sum_new s"
    using spec(2,5) Cons.prems(2) by (auto simp: insert_absorb)
  then obtain db' s' where "ingest_entries sha256 cs now today inp repo es (db1, s1) = Inr (db', s')"
      "sum_new s' = sum_new s1" "identities db' = identities db1"
    using Cons.IH [OF ingest_entry_ok [OF Cons.prems(1) 1]] Cons.prems(2) by (metis list.set_intros(2))
  then show ?case using 1 same by simp
qed simp

lemma escalate_identities:
  "fdb_ok db \<Longrightarrow> set rows \<subseteq> set (findings db) \<Longrightarrow> distinct (map f_id rows)
   \<Longrightarrow> identities (foldl (escalate_row now run) db rows) = identities db"
proof (induction rows arbitrary: db)
  case (Cons r rows)
  have r: "r \<in> set (findings db)" using Cons.prems(2) by simp
  have "map identity (findings (escalate_row now run db r)) = map identity (findings db)"
    unfolding escalate_row_def record_event_frame by (rule put_identity [OF Cons.prems(1) r same_finding_reopened(1)])
  then have "identities (escalate_row now run db r) = identities db" by (metis identities_def list.set_map)
  moreover have "set rows \<subseteq> set (findings (escalate_row now run db r))"
  proof
    fix q assume "q \<in> set rows"
    then have "f_id q \<in> set (map f_id rows)" "q \<in> set (findings db)" using Cons.prems(2) by auto
    moreover have "f_id r \<notin> set (map f_id rows)" using Cons.prems(3) by simp
    ultimately show "q \<in> set (findings (escalate_row now run db r))" by (metis escalate_row_keeps)
  qed
  ultimately show ?case using Cons.IH [OF escalate_row_ok [OF Cons.prems(1) r]] Cons.prems(3) by simp
qed simp

lemma apply_escalation_identities: "fdb_ok db \<Longrightarrow> identities (fst (apply_escalation now db repo policy run ex)) = identities db"
proof -
  assume "fdb_ok db"
  then have "identities (foldl (escalate_row now run) db (filter p (deferred_rows db repo))) = identities db" for p
    by (intro escalate_identities deferred_rows_distinct) (auto simp: deferred_rows_def)
  then show ?thesis by (simp add: apply_escalation_def Let_def split: option.split)
qed

lemma frame_simps [simp]:
  "repo_slugs (attach_evidence cs f rows db) = repo_slugs db" "runs (attach_evidence cs f rows db) = runs db"
  "repo_slugs (add_finding f db) = repo_slugs db" "runs (add_finding f db) = runs db"
  by (simp_all add: attach_evidence_def add_finding_def)

lemma ingest_entry_frame:
  "ingest_entry sha256 cs now today inp repo e (db, s) = Inr (db', s') \<Longrightarrow> repo_slugs db' = repo_slugs db \<and> runs db' = runs db"
  by (auto simp: ingest_entry_def open_finding_def match_finding_def Let_def split: if_splits sum.splits option.splits)

lemma ingest_entries_frame:
  "ingest_entries sha256 cs now today inp repo es (db, s) = Inr (db', s') \<Longrightarrow> repo_slugs db' = repo_slugs db \<and> runs db' = runs db"
proof (induction es arbitrary: db s)
  case (Cons e es)
  then obtain db1 s1 where 1: "ingest_entry sha256 cs now today inp repo e (db, s) = Inr (db1, s1)"
    and 2: "ingest_entries sha256 cs now today inp repo es (db1, s1) = Inr (db', s')"
    by (auto split: sum.splits)
  show ?case using Cons.IH [OF 2] ingest_entry_frame [OF 1] by simp
qed simp

lemma escalate_frame: "repo_slugs (foldl (escalate_row now run) db rows) = repo_slugs db
    \<and> runs (foldl (escalate_row now run) db rows) = runs db"
  by (induction rows arbitrary: db) (simp_all add: escalate_row_def)

lemma apply_escalation_frame:
  "repo_slugs (fst (apply_escalation now db repo policy run ex)) = repo_slugs db
   \<and> runs (fst (apply_escalation now db repo policy run ex)) = runs db"
  by (simp add: apply_escalation_def Let_def escalate_frame split: option.split)

text \<open>
  identity survives runs. A report that is accepted counts each of its entries once, as new or as matched;
  reporting it again, whatever the day, is accepted too, opens nothing and matches every entry, and the table
  has the same identities as before.
\<close>

theorem reingest_adds_nothing:
  assumes "findings_reachable sha256 db" and "in_adapter inp = None"
    and "ingest sha256 cs now today inp db repo_id entries = Inr (db1, s1)"
  shows "sum_new s1 + sum_matched s1 = length (json_objects entries)
    \<and> (\<exists>db2 s2. ingest sha256 cs now' today' inp db1 repo_id entries = Inr (db2, s2) \<and> sum_new s2 = 0
         \<and> sum_matched s2 = length (json_objects entries) \<and> identities db2 = identities db1)"
proof -
  let ?es = "json_objects entries"
  have ok: "fdb_ok db" by (rule findings_reachable_ok [OF assms(1)])
  from assms(3) obtain repo dba sa dbe n rs where res: "resolve_repo_id db repo_id = Inr repo"
    and es: "ingest_entries sha256 cs now today inp repo ?es (db, no_summary) = Inr (dba, sa)"
    and esc: "apply_escalation now dba repo (in_policy inp) (in_run inp) (sum_ids sa) = (dbe, n)"
    and db1: "db1 = dbe\<lparr>runs := rs\<rparr>" and s1: "s1 = sa\<lparr>sum_reactivated := sum_reactivated sa + n\<rparr>"
    and rs: "run_id ` set rs = run_id ` set (runs dbe)"
    and run: "\<not> (case in_run inp of None \<Rightarrow> False | Some r \<Rightarrow> r \<notin> run_id ` set (runs db))"
    by (rule ingest_runsE)
  have ok1: "fdb_ok db1" using ingest_ok [OF ok assms(3)] .
  have oka: "fdb_ok dba" using ingest_entries_ok [OF _ es] ok by simp
  have slugs: "repo_slugs db1 = repo_slugs db" "run_id ` set (runs db1) = run_id ` set (runs db)"
    using ingest_entries_frame [OF es] apply_escalation_frame [of now dba repo "in_policy inp" "in_run inp" "sum_ids sa"]
    by (simp_all add: db1 esc rs)
  have ids: "identities db1 = identities dba"
    using apply_escalation_identities [OF oka, of now repo "in_policy inp" "in_run inp" "sum_ids sa"] esc
    by (simp add: db1 identities_def)
  have spec: "\<forall>e \<in> set ?es. entry_anchored cs e \<and> (repo, entry_digest sha256 cs e) \<in> identities db1"
    and count: "sum_new s1 + sum_matched s1 = length ?es"
    using ingest_entries_spec [OF ok es] by (auto simp: ids s1)
  obtain dbb sb where eb: "ingest_entries sha256 cs now' today' inp repo ?es (db1, no_summary) = Inr (dbb, sb)"
    and sb: "sum_new sb = 0" "identities dbb = identities db1"
    using ingest_entries_known [OF ok1 spec assms(2), of now' today' no_summary] by auto
  have "sum_matched sb = length ?es" using ingest_entries_spec [OF ok1 eb] sb(1) by simp
  moreover have "fdb_ok dbb" using ingest_entries_ok [OF _ eb] ok1 by simp
  moreover have "resolve_repo_id db1 repo_id = Inr repo"
    using res by (cases repo_id) (auto simp: resolve_repo_id_def slugs split: if_splits)
  moreover have "\<not> (case in_run inp of None \<Rightarrow> False | Some r \<Rightarrow> r \<notin> run_id ` set (runs db1))"
    using run slugs(2) by (cases "in_run inp") auto
  ultimately show ?thesis
    using count sb eb apply_escalation_identities [of dbb now' repo "in_policy inp" "in_run inp" "sum_ids sb"]
    by (cases "apply_escalation now' dbb repo (in_policy inp) (in_run inp) (sum_ids sb)")
      (simp add: ingest_def Let_def identities_def)
qed

subsection \<open>What a report never undoes\<close>

definition fixed_row :: "findings_db \<Rightarrow> int \<Rightarrow> bool" where
  "fixed_row db i \<longleftrightarrow> (\<exists>f \<in> set (findings db). f_id f = i \<and> f_status f = STATUS_FIXED)"

lemma ingest_entry_fixed:
  assumes ok: "fdb_ok db" and m: "ingest_entry sha256 cs now today inp repo entry (db, s) = Inr (db', s')"
    and fixed: "fixed_row db i"
  shows "fixed_row db' i"
proof -
  let ?d = "entry_digest sha256 cs entry"
  obtain h where h: "h \<in> set (findings db)" "f_id h = i" "f_status h = STATUS_FIXED"
    using fixed by (auto simp: fixed_row_def)
  show ?thesis
  proof (cases db repo ?d rule: existing_cases)
    case none
    then show ?thesis using ingest_entry_new [OF none m] h by (auto simp: fixed_row_def)
  next
    case (found f)
    then have f: "f \<in> set (findings db)" using find_existing_Some by blast
    obtain g where g: "same_finding f g" "f_status f = STATUS_FIXED \<longrightarrow> f_status g = STATUS_FIXED"
        "findings db' = findings (put_finding g db)"
      using m match_finding_rows unfolding ingest_entry_match [OF found] by blast
    show ?thesis
    proof (cases "f_id f = i")
      case True
      then have "f = h" using unique_row [OF ok h(1) f] h(2) by simp
      then show ?thesis using g h put_finding_mem [OF f, of g] by (auto simp: fixed_row_def same_finding_def)
    next
      case False
      then show ?thesis using g h put_finding_other [OF h(1), of g] by (auto simp: fixed_row_def same_finding_def)
    qed
  next
    case (err e)
    then show ?thesis using find_existing_ok ok by (auto simp: fdb_ok_def)
  qed
qed

lemma ingest_entries_fixed:
  "fdb_ok db \<Longrightarrow> ingest_entries sha256 cs now today inp repo es (db, s) = Inr (db', s') \<Longrightarrow> fixed_row db i \<Longrightarrow> fixed_row db' i"
proof (induction es arbitrary: db s)
  case (Cons e es)
  obtain db1 s1 where 1: "ingest_entry sha256 cs now today inp repo e (db, s) = Inr (db1, s1)"
    and 2: "ingest_entries sha256 cs now today inp repo es (db1, s1) = Inr (db', s')"
    using Cons.prems(2) by (auto split: sum.splits)
  show ?case
    using Cons.IH [OF ingest_entry_ok [OF Cons.prems(1) 1] 2 ingest_entry_fixed [OF Cons.prems(1) 1 Cons.prems(3)]] .
qed simp

lemma escalate_fixed: "\<forall>r \<in> set rows. f_id r \<noteq> i \<Longrightarrow> fixed_row db i \<Longrightarrow> fixed_row (foldl (escalate_row now run) db rows) i"
proof (induction rows arbitrary: db)
  case (Cons r rows)
  have "fixed_row (escalate_row now run db r) i"
    using Cons.prems escalate_row_keeps [of _ db r] by (force simp: fixed_row_def)
  then show ?case using Cons by simp
qed simp

text \<open>
  A report never reopens a fixed finding. Whatever the run reports, the same identity included, and
  whatever the policy says, a finding that was fixed before is fixed after, although a refused deferral tells
  its caller to open it again through the review run that still matches it.
\<close>

theorem reports_never_reopen_fixed:
  assumes "findings_reachable sha256 db" and "f \<in> set (findings db)" and "f_status f = STATUS_FIXED"
    and "ingest sha256 cs now today inp db repo_id entries = Inr (db', s)"
  shows "\<exists>g \<in> set (findings db'). f_id g = f_id f \<and> f_status g = STATUS_FIXED"
proof -
  have ok: "fdb_ok db" by (rule findings_reachable_ok [OF assms(1)])
  from assms(4) obtain repo db1 s1 db2 n rs where
      es: "ingest_entries sha256 cs now today inp repo (json_objects entries) (db, no_summary) = Inr (db1, s1)"
    and esc: "apply_escalation now db1 repo (in_policy inp) (in_run inp) (sum_ids s1) = (db2, n)"
    and db': "db' = db2\<lparr>runs := rs\<rparr>"
    by (rule ingestE)
  have ok1: "fdb_ok db1" using ingest_entries_ok [OF _ es] ok by simp
  have fixed: "fixed_row db1 (f_id f)"
    using ingest_entries_fixed [OF ok es] assms(2,3) by (auto simp: fixed_row_def)
  then have other: "f_id r \<noteq> f_id f" if "r \<in> set (filter p (deferred_rows db1 repo))" for r p
    using that unique_row [OF ok1] by (force simp: fixed_row_def deferred_rows_def)
  have "fixed_row (fst (apply_escalation now db1 repo (in_policy inp) (in_run inp) (sum_ids s1))) (f_id f)"
    using fixed other by (auto simp: apply_escalation_def Let_def intro!: escalate_fixed split: option.split)
  then show ?thesis by (simp add: esc db' fixed_row_def)
qed


subsection \<open>Concrete runs\<close>

abbreviation cs0 :: "json \<Rightarrow> string" where "cs0 \<equiv> \<lambda>_. []"

abbreviation sample_entry :: "string \<Rightarrow> json" where
  "sample_entry level \<equiv> JObj [(''rule_id'', JStr ''r''), (''file_path'', JStr ''a.py''), (''symbol'', JStr ''f''),
     (''level'', JStr level)]"

abbreviation plain_input :: ingest_input where
  "plain_input \<equiv> \<lparr>in_run = None, in_policy = None, in_adapter = None, in_base = None, in_head = None,
     in_drift = None, in_today = None\<rparr>"

definition sample_finding :: finding where
  "sample_finding = \<lparr>f_id = 1, f_repo = 7, f_fingerprint = fingerprint (\<lambda>t. t) ''r'' ''a.py'' ''f'' [], f_rule = ''r'',
     f_level = ''debt'', f_severity = ''medium'', f_status = ''open'', f_file = ''a.py'', f_symbol = ''f'',
     f_line_hint = JNull, f_title = ''r'', f_detail = [], f_first_run = None, f_last_run = None, f_seen = 1,
     f_owner = None, f_due = None, f_decided_by = None, f_decided_at = None\<rparr>"

definition sample_db :: findings_db where
  "sample_db = \<lparr>findings = [sample_finding],
     events = [\<lparr>ev_id = 1, ev_finding = 1, ev_at = 0, ev_actor = ''agent'', ev_from = None, ev_to = ''open'',
       ev_reason = Some ''matched'', ev_run = None\<rparr>],
     evidence = [], runs = [], repo_slugs = [], next_finding = 2, next_event = 2\<rparr>"

abbreviation one_new :: ingest_summary where
  "one_new \<equiv> \<lparr>sum_new = 1, sum_matched = 0, sum_reactivated = 0, sum_ids = [1]\<rparr>"

lemma sample_ingest:
  "ingest (\<lambda>t. t) cs0 0 (Date 2026 1 1) plain_input empty_findings (RepoId 7) [sample_entry ''debt''] = Inr (sample_db, one_new)"
  by code_simp

lemma sample_findings_reachable: "findings_reachable (\<lambda>t. t) sample_db"
  using reach_empty step_ingest [OF sample_ingest] by (rule reach_step)

definition sample_decided :: "string \<Rightarrow> string \<Rightarrow> string option \<Rightarrow> date option \<Rightarrow> finding" where
  "sample_decided st actor owner due = sample_finding\<lparr>f_status := st, f_owner := owner, f_due := due,
     f_decided_by := Some actor, f_decided_at := Some 5\<rparr>"

definition sample_after :: "finding \<Rightarrow> string \<Rightarrow> findings_db" where
  "sample_after f reason = record_event 5 f ''amy'' (Some ''open'') (f_status f) (Some reason) None (put_finding f sample_db)"

lemma sample_defer:
  "decide 5 sample_db 1 (Some ''WontFix '') (Some ''amy'') (Some ''bob'') (Some (Date 2026 6 1)) None None None
   = Inr (sample_after (sample_decided ''wontfix'' ''amy'' (Some ''bob'') (Some (Date 2026 6 1))) ''wontfix'',
       \<lparr>dec_finding = sample_decided ''wontfix'' ''amy'' (Some ''bob'') (Some (Date 2026 6 1)), dec_from = ''open'',
        dec_to = ''wontfix'', dec_reason = ''wontfix''\<rparr>)"
  by code_simp

lemma sample_fix:
  "decide 5 sample_db 1 (Some ''fix'') (Some ''amy'') None None None None None
   = Inr (sample_after (sample_decided ''fixed'' ''amy'' None None) ''accepted'',
       \<lparr>dec_finding = sample_decided ''fixed'' ''amy'' None None, dec_from = ''open'',
        dec_to = ''fixed'', dec_reason = ''accepted''\<rparr>)"
  by code_simp

lemma sample_rows: "findings (sample_after (sample_decided st a w d) r) = [sample_decided st a w d]"
  by (simp add: sample_after_def put_finding_def sample_db_def sample_decided_def sample_finding_def)

theorem deferrals_have_owner_and_deadline_witness:
  "f_level (sample_decided ''wontfix'' ''amy'' (Some ''bob'') (Some (Date 2026 6 1))) \<noteq> LEVEL_BLOCKING"
  using deferrals_have_owner_and_deadline [OF reach_step [OF sample_findings_reachable step_decide [OF sample_defer]],
      of "sample_decided ''wontfix'' ''amy'' (Some ''bob'') (Some (Date 2026 6 1))"]
  by (simp add: sample_rows) (simp add: sample_decided_def STATUS_WONTFIX_def)

theorem event_log_explains_status_witness:
  "history None (filter (\<lambda>e. ev_finding e = 1) (events (sample_after (sample_decided ''fixed'' ''amy'' None None) ''accepted'')))
     (Some ''fixed'')"
  using event_log_explains_status [OF reach_step [OF sample_findings_reachable step_decide [OF sample_fix]],
      of "sample_decided ''fixed'' ''amy'' None None"]
  by (simp add: sample_rows) (simp add: sample_decided_def sample_finding_def)

theorem false_positive_action_refused_witness:
  "decide 5 sample_db 1 (Some ''false_positive'') (Some ''amy'') None None None None (Some ''bob'')
   = Inl (DecisionInvalid ''unknown action false_positive'')"
proof -
  have "session_get sample_db 1 = Some sample_finding" by code_simp
  moreover have "py_lower (py_strip (opt_str (Some ''false_positive''))) = ''false_positive''" by code_simp
  ultimately show ?thesis by (rule conjunct2 [OF false_positive_action_refused])
qed

theorem reingest_adds_nothing_witness:
  "\<exists>db2 s2. ingest (\<lambda>t. t) cs0 9 (Date 2026 1 2) plain_input sample_db (RepoId 7) [sample_entry ''debt''] = Inr (db2, s2)
     \<and> sum_new s2 = 0 \<and> sum_matched s2 = 1"
  using reingest_adds_nothing [OF reach_empty _ sample_ingest, of 9 "Date 2026 1 2"] by auto

lemma sample_match:
  "ingest (\<lambda>t. t) cs0 9 (Date 2026 1 2) plain_input (sample_after (sample_decided ''fixed'' ''amy'' None None) ''accepted'')
     (RepoId 7) [sample_entry ''blocking'']
   = Inr (put_finding (sample_decided ''fixed'' ''amy'' None None\<lparr>f_seen := 2\<rparr>)
            (sample_after (sample_decided ''fixed'' ''amy'' None None) ''accepted''),
       \<lparr>sum_new = 0, sum_matched = 1, sum_reactivated = 0, sum_ids = [1]\<rparr>)"
  by code_simp

theorem reports_never_reopen_fixed_witness:
  "\<exists>g \<in> set (findings (put_finding (sample_decided ''fixed'' ''amy'' None None\<lparr>f_seen := 2\<rparr>)
      (sample_after (sample_decided ''fixed'' ''amy'' None None) ''accepted''))). f_id g = 1 \<and> f_status g = STATUS_FIXED"
proof -
  let ?f = "sample_decided ''fixed'' ''amy'' None None"
  have "?f \<in> set (findings (sample_after ?f ''accepted''))" by (simp add: sample_rows)
  moreover have "f_status ?f = STATUS_FIXED" "f_id ?f = 1"
    by (simp_all add: sample_decided_def sample_finding_def STATUS_FIXED_def)
  ultimately show ?thesis
    using reports_never_reopen_fixed [OF reach_step [OF sample_findings_reachable step_decide [OF sample_fix]] _ _ sample_match]
    by metis
qed

text \<open>A repository whose diff rewrites line 2 of the two-line definition \<open>f\<close>, and a finding on \<open>f\<close>.\<close>

definition sample_git :: "string list \<Rightarrow> git_result" where
  "sample_git args = (if hd args = ''diff''
     then GitExit 0 (''+++ b/a.sh'' @ [CHR 0x0A] @ ''@@ -2 +2 @@'' @ [CHR 0x0A]) []
     else GitExit 0 (''def f:'' @ [CHR 0x0A] @ '' x'' @ [CHR 0x0A]) [])"

theorem drift_reactivates_exactly_the_symbol_witness:
  "should_reactivate (Date 2026 1 1) (sample_finding\<lparr>f_file := ''a.sh''\<rparr>)
     (git_context sample_git (\<lambda>_. None) ''v1'' ''v2'') = Inr (Some REASON_DRIFT)"
proof -
  let ?diff = "''+++ b/a.sh'' @ [CHR 0x0A] @ ''@@ -2 +2 @@'' @ [CHR 0x0A]"
  let ?src = "''def f:'' @ [CHR 0x0A] @ '' x'' @ [CHR 0x0A]"
  have range: "symbol_range_in (\<lambda>_. None) ?src ''a.sh'' ''f''
      = Some \<lparr>sym_path = ''a.sh'', sym_name = ''f'', sym_start = 1, sym_end = 2\<rparr>" by code_simp
  have "changed_lines_from_diff ?diff ''a.sh'' = [(2, 2)]" by code_simp
  then have "2 \<in> lines_of (changed_lines_from_diff ?diff ''a.sh'')" by simp
  then have line: "\<exists>l \<in> lines_of (changed_lines_from_diff ?diff ''a.sh''). 1 \<le> l \<and> l \<le> 2"
    by (rule bexI [rotated]) simp
  have "\<exists>a. symbol_range_in (\<lambda>_. None) ?src ''a.sh'' ''f'' = Some a
      \<and> (\<exists>l \<in> lines_of (changed_lines_from_diff ?diff ''a.sh''). sym_start a \<le> l \<and> l \<le> sym_end a)"
    by (intro exI conjI, rule range) (simp only: symbol_range.simps line)
  moreover have "should_reactivate (Date 2026 1 1) (sample_finding\<lparr>f_file := ''a.sh''\<rparr>)
      (git_context sample_git (\<lambda>_. None) ''v1'' ''v2'')
    = (if \<exists>a. symbol_range_in (\<lambda>_. None) ?src (f_file (sample_finding\<lparr>f_file := ''a.sh''\<rparr>))
            (f_symbol (sample_finding\<lparr>f_file := ''a.sh''\<rparr>)) = Some a
          \<and> (\<exists>l \<in> lines_of (changed_lines_from_diff ?diff (f_file (sample_finding\<lparr>f_file := ''a.sh''\<rparr>))).
                sym_start a \<le> l \<and> l \<le> sym_end a)
       then Inr (Some REASON_DRIFT) else Inr None)"
    by (rule drift_reactivates_exactly_the_symbol) (simp_all add: sample_git_def sample_finding_def)
  ultimately show ?thesis by (simp add: sample_finding_def)
qed

end
