(* ===== verification/Authz.thy ===== *)
theory Authz
  imports StdText "HOL-Library.AList"
begin

section \<open>Authorization\<close>

text \<open>
  \<open>backend/services/authz.py\<close> over the tables of \<open>backend/models/rbac.py\<close>, with the permission points of
  \<open>backend/auth/permissions.py\<close>: seeding, accounts, roles, grants, and the versioned grant cache in front of
  the permission check. One operation is one transaction: it commits or leaves the tables as they were. Foreign keys
  are on, so deleting a role deletes its links. Link tables are sets of pairs (their primary key); who granted a
  role and when is not kept. The Chinese display names are arguments.
\<close>

subsection \<open>Permission points\<close>

definition AUTHENTICATED_SEED :: "string list" where
  "AUTHENTICATED_SEED =
     [''package:read'', ''package:write'', ''build:read'', ''build:download'', ''build:sha256'',
      ''nodebuild:read'', ''nodebuild:download'', ''nodebuild:sha256'',
      ''tool:read'', ''tool:download'', ''npm:read'', ''npm:download'', ''npm:publish'',
      ''model:read'', ''model:resolve'', ''docker:read'', ''docker:download'', ''debian:read'', ''debian:download'',
      ''doc:read'', ''app:read'', ''repo:read'', ''repo:push'', ''finding:read'', ''agent:run'',
      ''key:list'', ''key:create'', ''key:delete'', ''key:stats'']"

definition ANONYMOUS_SEED :: "string list" where "ANONYMOUS_SEED = [''doc:read'']"

definition ANONYMOUS_ROLE :: string where "ANONYMOUS_ROLE = ''anonymous''"
definition AUTHENTICATED_ROLE :: string where "AUTHENTICATED_ROLE = ''authenticated''"
definition ADMIN_ROLE :: string where "ADMIN_ROLE = ''admin''"

definition SEED_TOPUPS :: "(string \<times> string \<times> string list) list" where
  "SEED_TOPUPS =
     [(''2026-09-npm-download'', AUTHENTICATED_ROLE, [''npm:download'']),
      (''2026-09-nodebuild'', AUTHENTICATED_ROLE, [''nodebuild:read'', ''nodebuild:download'', ''nodebuild:sha256'']),
      (''2026-09-app-read'', AUTHENTICATED_ROLE, [''app:read'']),
      (''2026-09-model-resolve'', AUTHENTICATED_ROLE, [''model:resolve'']),
      (''2026-09-npm-publish'', AUTHENTICATED_ROLE, [''npm:publish'']),
      (''2026-09-doc-read'', AUTHENTICATED_ROLE, [''doc:read'']),
      (''2026-09-anonymous-doc-read'', ANONYMOUS_ROLE, [''doc:read'']),
      (''2026-09-agent-hub'', AUTHENTICATED_ROLE, [''repo:read'', ''repo:push'', ''finding:read'', ''agent:run''])]"

text \<open>The built-in roles: code, built-in, anonymous default, granted automatically.\<close>

definition BUILTIN_ROLES :: "(string \<times> bool \<times> bool \<times> bool) list" where
  "BUILTIN_ROLES = [(ANONYMOUS_ROLE, True, True, False), (AUTHENTICATED_ROLE, True, False, True),
     (ADMIN_ROLE, True, False, False)]"

definition module_of :: "string \<Rightarrow> string" where
  "module_of code = takeWhile (\<lambda>c. c \<noteq> CHR '':'') code"

type_synonym declared_points = "(string \<times> string option \<times> string option) list"

datatype authz_error = ValueError string | IntegrityError

definition or_opt :: "string option \<Rightarrow> string option \<Rightarrow> string option" where
  "or_opt a b = (if opt_str a \<noteq> [] then a else b)"

definition declare_point :: "declared_points \<Rightarrow> string \<Rightarrow> string option \<Rightarrow> string option
    \<Rightarrow> authz_error + declared_points" where
  "declare_point points code name desc =
     (if code = [] \<or> CHR '':'' \<notin> set code
      then Inl (ValueError (''permission code '' @ code @ '' must be namespaced as '' @ repr_str ''module:action''))
      else case map_of points code of
          None \<Rightarrow> Inr (points @ [(code, name, desc)])
        | Some _ \<Rightarrow> Inr (map (\<lambda>(c, n, d). if c = code then (c, or_opt n name, or_opt d desc) else (c, n, d)) points))"

type_synonym seed_points = "(string \<times> string \<times> string option \<times> string) list"

definition seed_catalog :: "(string \<times> string \<times> string) list \<Rightarrow> declared_points \<Rightarrow> seed_points" where
  "seed_catalog builtin points =
     map (\<lambda>(code, name, desc). (code, name, Some desc, module_of code)) builtin
     @ map (\<lambda>(code, name, desc). (code, or_str (opt_str name) code, desc, module_of code))
         (filter (\<lambda>p. fst p \<notin> fst ` set builtin) points)"

subsection \<open>Tables\<close>

record role =
  role_id :: int
  role_code :: string
  role_name :: string
  role_desc :: "string option"
  is_builtin :: bool
  is_anonymous_default :: bool
  auto_grant :: bool

record permission =
  perm_id :: int
  perm_code :: string
  perm_name :: string
  perm_module :: "string option"
  perm_desc :: "string option"

record user =
  user_id :: int
  user_provider :: string
  external_id :: string
  display_name :: string
  user_email :: "string option"
  is_superuser :: bool
  is_active :: bool
  last_login_at :: "timestamp option"

record rbac_db =
  users :: "user list"
  roles :: "role list"
  permissions :: "permission list"
  user_roles :: "(int \<times> int) set"
  role_permissions :: "(int \<times> int) set"
  seed_migrations :: "string list"
  next_user :: int
  next_role :: int
  next_perm :: int

definition find_role :: "rbac_db \<Rightarrow> string \<Rightarrow> role option" where
  "find_role db code = find (\<lambda>r. role_code r = code) (roles db)"

definition get_role :: "rbac_db \<Rightarrow> int \<Rightarrow> role option" where
  "get_role db rid = find (\<lambda>r. role_id r = rid) (roles db)"

definition get_user :: "rbac_db \<Rightarrow> int \<Rightarrow> user option" where
  "get_user db uid = find (\<lambda>u. user_id u = uid) (users db)"

definition find_user :: "rbac_db \<Rightarrow> string \<Rightarrow> string option \<Rightarrow> user option" where
  "find_user db ext provider =
     find (\<lambda>u. external_id u = ext \<and> (opt_str provider = [] \<or> user_provider u = opt_str provider)) (users db)"

definition perm_ids :: "rbac_db \<Rightarrow> (string \<times> int) list" where
  "perm_ids db = map (\<lambda>p. (perm_code p, perm_id p)) (permissions db)"

definition put_user :: "user \<Rightarrow> rbac_db \<Rightarrow> rbac_db" where
  "put_user u db = db\<lparr>users := map (\<lambda>v. if user_id v = user_id u then u else v) (users db)\<rparr>"

definition put_role :: "role \<Rightarrow> rbac_db \<Rightarrow> rbac_db" where
  "put_role r db = db\<lparr>roles := map (\<lambda>q. if role_id q = role_id r then r else q) (roles db)\<rparr>"

subsection \<open>What the tables grant\<close>

definition role_codes_of :: "rbac_db \<Rightarrow> role \<Rightarrow> string set" where
  "role_codes_of db r =
     set (map perm_code (filter (\<lambda>p. (role_id r, perm_id p) \<in> role_permissions db) (permissions db)))"

definition grants_for_user :: "rbac_db \<Rightarrow> int \<Rightarrow> string set" where
  "grants_for_user db uid = \<Union> (role_codes_of db ` set (filter (\<lambda>r. (uid, role_id r) \<in> user_roles db) (roles db)))"

definition anonymous_codes :: "rbac_db \<Rightarrow> string set" where
  "anonymous_codes db = \<Union> (role_codes_of db ` set (filter is_anonymous_default (roles db)))"

definition role_permission_codes :: "rbac_db \<Rightarrow> string \<Rightarrow> string set" where
  "role_permission_codes db code = (case find_role db code of None \<Rightarrow> {} | Some r \<Rightarrow> role_codes_of db r)"

subsection \<open>Seeding\<close>

text \<open>\<open>sync_permissions\<close>, one entry of the catalogue; \<open>known\<close> is what the table held at the start.\<close>

definition sync_point :: "string set \<Rightarrow> rbac_db \<times> nat \<Rightarrow> string \<times> string \<times> string option \<times> string \<Rightarrow> rbac_db \<times> nat" where
  "sync_point known st entry =
     (let (db, created) = st; (code, name, desc, modul) = entry
      in if code \<notin> known
         then (db\<lparr>permissions := permissions db @ [\<lparr>perm_id = next_perm db, perm_code = code, perm_name = name,
                   perm_module = Some modul, perm_desc = desc\<rparr>], next_perm := next_perm db + 1\<rparr>, Suc created)
         else (db\<lparr>permissions := map (\<lambda>p. if perm_code p = code \<and> perm_module p = None
                   then p\<lparr>perm_module := Some modul\<rparr> else p) (permissions db)\<rparr>, created))"

definition sync_permissions :: "seed_points \<Rightarrow> rbac_db \<Rightarrow> rbac_db \<times> nat" where
  "sync_permissions catalog db = foldl (sync_point (perm_code ` set (permissions db))) (db, 0) catalog"

text \<open>
  \<open>_set_role_permissions\<close>: the ids of the known codes are added; with \<open>replace\<close> all others are
  taken away. The flag \<open>additive\<close> of the source is not read by it.
\<close>

definition wanted_ids :: "(string \<times> int) list \<Rightarrow> string list \<Rightarrow> int set" where
  "wanted_ids perms codes = set (List.map_filter (\<lambda>c. map_of perms c) codes)"

definition set_role_links :: "int \<Rightarrow> string list \<Rightarrow> (string \<times> int) list \<Rightarrow> bool \<Rightarrow> rbac_db \<Rightarrow> rbac_db" where
  "set_role_links rid codes perms replace db =
     (let wanted = wanted_ids perms codes;
          kept = (if replace then Set.filter (\<lambda>(r, p). r \<noteq> rid \<or> p \<in> wanted) (role_permissions db)
                  else role_permissions db)
      in db\<lparr>role_permissions := kept \<union> (\<lambda>p. (rid, p)) ` wanted\<rparr>)"

definition seed_of :: "(string \<times> int) list \<Rightarrow> string \<Rightarrow> string list" where
  "seed_of perms code =
     (if code = ANONYMOUS_ROLE then ANONYMOUS_SEED
      else if code = AUTHENTICATED_ROLE then AUTHENTICATED_SEED else map fst perms)"

definition sync_role :: "(string \<Rightarrow> string \<times> string) \<Rightarrow> (string \<times> int) list \<Rightarrow> rbac_db
    \<Rightarrow> string \<times> bool \<times> bool \<times> bool \<Rightarrow> rbac_db" where
  "sync_role labels perms db spec =
     (let (code, builtin, anon, auto) = spec
      in case find_role db code of
           None \<Rightarrow>
             (let r = \<lparr>role_id = next_role db, role_code = code, role_name = fst (labels code),
                       role_desc = Some (snd (labels code)), is_builtin = builtin, is_anonymous_default = anon,
                       auto_grant = auto\<rparr>
              in set_role_links (role_id r) (seed_of perms code) perms False
                   (db\<lparr>roles := roles db @ [r], next_role := next_role db + 1\<rparr>))
         | Some r \<Rightarrow> put_role (r\<lparr>is_builtin := True, is_anonymous_default := anon, auto_grant := auto\<rparr>) db)"

definition apply_topup :: "(string \<times> int) list \<Rightarrow> rbac_db \<Rightarrow> string \<times> string \<times> string list \<Rightarrow> rbac_db" where
  "apply_topup perms db entry =
     (let (migration, code, codes) = entry
      in if migration \<in> set (seed_migrations db) then db
         else case find_role db code of
             None \<Rightarrow> db
           | Some r \<Rightarrow> (let db' = set_role_links (role_id r) codes perms False db
                       in db'\<lparr>seed_migrations := seed_migrations db' @ [migration]\<rparr>))"

definition apply_seed_topups :: "(string \<times> int) list \<Rightarrow> rbac_db \<Rightarrow> rbac_db" where
  "apply_seed_topups perms db = foldl (apply_topup perms) db SEED_TOPUPS"

definition sync_builtin_roles :: "(string \<Rightarrow> string \<times> string) \<Rightarrow> rbac_db \<Rightarrow> rbac_db" where
  "sync_builtin_roles labels db =
     (let perms = perm_ids db;
          db1 = foldl (sync_role labels perms) db BUILTIN_ROLES;
          db2 = (case find_role db1 ADMIN_ROLE of
                   None \<Rightarrow> db1 | Some admin \<Rightarrow> set_role_links (role_id admin) (map fst perms) perms False db1)
      in apply_seed_topups perms db2)"

subsection \<open>Accounts\<close>

definition LOGIN_TOUCH_INTERVAL :: timestamp where "LOGIN_TOUCH_INTERVAL = seconds 300"

definition should_touch_login :: "timestamp \<Rightarrow> timestamp option \<Rightarrow> bool" where
  "should_touch_login now touched = (case touched of None \<Rightarrow> True | Some t \<Rightarrow> now - t > LOGIN_TOUCH_INTERVAL)"

definition apply_auto_grant :: "int \<Rightarrow> rbac_db \<Rightarrow> rbac_db" where
  "apply_auto_grant uid db =
     db\<lparr>user_roles := user_roles db \<union> (\<lambda>r. (uid, role_id r)) ` set (filter auto_grant (roles db))\<rparr>"

definition touch_login :: "timestamp \<Rightarrow> user \<Rightarrow> user" where
  "touch_login now u = (if should_touch_login now (last_login_at u) then u\<lparr>last_login_at := Some now\<rparr> else u)"

definition provision_user :: "timestamp \<Rightarrow> string option \<Rightarrow> string option \<Rightarrow> string option \<Rightarrow> string option \<Rightarrow> rbac_db
    \<Rightarrow> (rbac_db \<times> user) option" where
  "provision_user now provider ext name email db =
     (let ext = py_strip (opt_str ext);
          provider = or_str (py_strip (or_str (opt_str provider) ''local'')) ''local''
      in if ext = [] then None
         else case find_user db ext None of
             None \<Rightarrow>
               (let u = touch_login now \<lparr>user_id = next_user db, user_provider = provider, external_id = ext,
                      display_name = or_str (opt_str name) ext, user_email = email, is_superuser = False,
                      is_active = True, last_login_at = None\<rparr>
                in Some (apply_auto_grant (user_id u) (db\<lparr>users := users db @ [u], next_user := next_user db + 1\<rparr>), u))
           | Some u \<Rightarrow>
               (let u1 = (if opt_str name \<noteq> [] then u\<lparr>display_name := opt_str name\<rparr> else u);
                    u2 = (if opt_str email \<noteq> [] \<and> opt_str (user_email u) = [] then u1\<lparr>user_email := email\<rparr> else u1);
                    u3 = touch_login now u2
                in Some (put_user u3 db, u3)))"

subsection \<open>Roles and grants\<close>

definition is_alnum :: "char \<Rightarrow> bool" where
  "is_alnum c \<longleftrightarrow> is_alpha c \<or> is_digit c"

definition create_role :: "string option \<Rightarrow> string option \<Rightarrow> string option \<Rightarrow> rbac_db \<Rightarrow> authz_error + (rbac_db \<times> role)" where
  "create_role code name desc db =
     (let code = py_strip (opt_str code);
          bare = remove_char CHR ''_'' (remove_char CHR ''-'' code)
      in if code = [] then Inl (ValueError ''role code is required'')
         else if \<not> (bare \<noteq> [] \<and> list_all is_alnum bare)
         then Inl (ValueError (''role code may only contain letters, digits, '' @ repr_str ''-'' @ '' and '' @ repr_str ''_''))
         else if find_role db code \<noteq> None then Inl (ValueError (''role '' @ code @ '' already exists''))
         else let r = \<lparr>role_id = next_role db, role_code = code, role_name = py_strip (or_str (opt_str name) code),
                       role_desc = desc, is_builtin = False, is_anonymous_default = False, auto_grant = False\<rparr>
              in Inr (db\<lparr>roles := roles db @ [r], next_role := next_role db + 1\<rparr>, r))"

definition delete_role :: "int \<Rightarrow> rbac_db \<Rightarrow> authz_error + rbac_db" where
  "delete_role rid db =
     (case get_role db rid of
        None \<Rightarrow> Inl (ValueError ''role not found'')
      | Some r \<Rightarrow>
          if is_builtin r then Inl (ValueError (''role '' @ role_code r @ '' is built-in and cannot be deleted''))
          else Inr (db\<lparr>roles := filter (\<lambda>q. role_id q \<noteq> rid) (roles db),
                       user_roles := Set.filter (\<lambda>(u, q). q \<noteq> rid) (user_roles db),
                       role_permissions := Set.filter (\<lambda>(q, p). q \<noteq> rid) (role_permissions db)\<rparr>))"

text \<open>
  The loop that creates unknown points: the list of them is made before any is created, so a code given
  twice is inserted twice, which the unique constraint refuses.
\<close>

definition add_points :: "string list \<Rightarrow> rbac_db \<Rightarrow> rbac_db" where
  "add_points codes db = foldl (\<lambda>db code. db\<lparr>permissions := permissions db @ [\<lparr>perm_id = next_perm db, perm_code = code,
       perm_name = code, perm_module = Some (module_of code), perm_desc = Some ''created in the console''\<rparr>],
       next_perm := next_perm db + 1\<rparr>) db codes"

definition set_role_permissions :: "int \<Rightarrow> string list \<Rightarrow> rbac_db \<Rightarrow> authz_error + (rbac_db \<times> string set)" where
  "set_role_permissions rid codes db =
     (case get_role db rid of
        None \<Rightarrow> Inl (ValueError ''role not found'')
      | Some r \<Rightarrow>
          (let unknown = filter (\<lambda>c. c \<notin> perm_code ` set (permissions db)) codes
           in if \<not> distinct unknown then Inl IntegrityError
              else let db' = add_points unknown db
                   in Inr (set_role_links (role_id r) codes (perm_ids db') True db', set codes)))"

definition grant_role :: "int \<Rightarrow> string \<Rightarrow> rbac_db \<Rightarrow> authz_error + (rbac_db \<times> bool)" where
  "grant_role uid code db =
     (case find_role db code of
        None \<Rightarrow> Inl (ValueError (''role '' @ code @ '' not found''))
      | Some r \<Rightarrow>
          if get_user db uid = None then Inl (ValueError (''user '' @ str_of_int uid @ '' not found''))
          else if (uid, role_id r) \<in> user_roles db then Inr (db, False)
          else Inr (db\<lparr>user_roles := insert (uid, role_id r) (user_roles db)\<rparr>, True))"

definition revoke_role :: "int \<Rightarrow> string \<Rightarrow> rbac_db \<Rightarrow> rbac_db \<times> bool" where
  "revoke_role uid code db =
     (case find_role db code of
        None \<Rightarrow> (db, False)
      | Some r \<Rightarrow> (db\<lparr>user_roles := user_roles db - {(uid, role_id r)}\<rparr>, (uid, role_id r) \<in> user_roles db))"

definition set_superuser :: "int \<Rightarrow> bool \<Rightarrow> rbac_db \<Rightarrow> authz_error + rbac_db" where
  "set_superuser uid v db =
     (case get_user db uid of
        None \<Rightarrow> Inl (ValueError (''user '' @ str_of_int uid @ '' not found''))
      | Some u \<Rightarrow> Inr (put_user (u\<lparr>is_superuser := v\<rparr>) db))"

definition set_active :: "int \<Rightarrow> bool \<Rightarrow> rbac_db \<Rightarrow> authz_error + rbac_db" where
  "set_active uid v db =
     (case get_user db uid of
        None \<Rightarrow> Inl (ValueError (''user '' @ str_of_int uid @ '' not found''))
      | Some u \<Rightarrow> Inr (put_user (u\<lparr>is_active := v\<rparr>) db))"

definition count_superusers :: "rbac_db \<Rightarrow> nat" where
  "count_superusers db = count_where is_superuser (users db)"


subsection \<open>The cached permission check\<close>

text \<open>
  The service of one process: its tables, its version counter and what it remembers. A mutating operation
  that commits bumps the version and forgets everything; \<open>now\<close> is the monotonic clock.
\<close>

type_synonym cache_entry = "nat \<times> timestamp \<times> string set"

record authz =
  db :: rbac_db
  service_version :: nat
  grant_cache :: "(int \<times> cache_entry) list"
  anon_cache :: "cache_entry option"

record principal =
  pr_superuser :: bool
  pr_user :: "int option"

definition CACHE_TTL :: timestamp where "CACHE_TTL = seconds 30"

definition invalidate :: "authz \<Rightarrow> authz" where
  "invalidate a = a\<lparr>service_version := service_version a + 1, grant_cache := [], anon_cache := None\<rparr>"

definition commit_db :: "rbac_db \<Rightarrow> authz \<Rightarrow> authz" where
  "commit_db d a = invalidate (a\<lparr>db := d\<rparr>)"

fun fresh :: "timestamp \<Rightarrow> cache_entry option \<Rightarrow> nat \<Rightarrow> string set option" where
  "fresh now None v = None"
| "fresh now (Some (entry_version, stamped_at, grants)) v =
     (if entry_version \<noteq> v then None
      else if now - stamped_at > CACHE_TTL then None
      else Some grants)"

text \<open>
  A miss asks the tables and then stamps what they said with the version and the clock of that later moment. Here nothing comes
  between the two; \<open>AuthzThreads\<close> takes them apart.
\<close>

definition remember_user :: "timestamp \<Rightarrow> int \<Rightarrow> string set \<Rightarrow> authz \<Rightarrow> authz" where
  "remember_user now uid grants a = a\<lparr>grant_cache := AList.update uid (service_version a, now, grants) (grant_cache a)\<rparr>"

definition remember_anonymous :: "timestamp \<Rightarrow> string set \<Rightarrow> authz \<Rightarrow> authz" where
  "remember_anonymous now grants a = a\<lparr>anon_cache := Some (service_version a, now, grants)\<rparr>"

definition user_grants :: "timestamp \<Rightarrow> authz \<Rightarrow> int \<Rightarrow> string set \<times> authz" where
  "user_grants now a uid =
     (case fresh now (map_of (grant_cache a) uid) (service_version a) of
        Some grants \<Rightarrow> (grants, a)
      | None \<Rightarrow> (let grants = grants_for_user (db a) uid in (grants, remember_user now uid grants a)))"

definition anonymous_grants :: "timestamp \<Rightarrow> authz \<Rightarrow> string set \<times> authz" where
  "anonymous_grants now a =
     (case fresh now (anon_cache a) (service_version a) of
        Some grants \<Rightarrow> (grants, a)
      | None \<Rightarrow> (let grants = anonymous_codes (db a) in (grants, remember_anonymous now grants a)))"

definition has_permission :: "timestamp \<Rightarrow> authz \<Rightarrow> principal option \<Rightarrow> string \<Rightarrow> bool \<times> authz" where
  "has_permission now a p code =
     (case p of
        None \<Rightarrow> map_prod (\<lambda>g. code \<in> g) id (anonymous_grants now a)
      | Some q \<Rightarrow>
          if pr_superuser q then (True, a)
          else (case pr_user q of
              None \<Rightarrow> map_prod (\<lambda>g. code \<in> g) id (anonymous_grants now a)
            | Some uid \<Rightarrow> map_prod (\<lambda>g. code \<in> g) id (user_grants now a uid)))"

definition permission_codes :: "timestamp \<Rightarrow> authz \<Rightarrow> principal option \<Rightarrow> string set \<times> authz" where
  "permission_codes now a p =
     (case p of
        None \<Rightarrow> anonymous_grants now a
      | Some q \<Rightarrow>
          if pr_superuser q then (perm_code ` set (permissions (db a)), a)
          else (case pr_user q of None \<Rightarrow> anonymous_grants now a | Some uid \<Rightarrow> user_grants now a uid))"

subsection \<open>The service's operations\<close>

datatype authz_op = SyncPermissions seed_points | SyncRoles "string \<Rightarrow> string \<times> string"
  | Provision timestamp "string option" "string option" "string option" "string option"
  | CreateRole "string option" "string option" "string option" | DeleteRole int
  | SetRolePermissions int "string list" | GrantRole int string | RevokeRole int string
  | SetSuperuser int bool | SetActive int bool

text \<open>
  What an operation does to the process: a failure changes nothing, a grant that is already held or
  a revocation of an unknown role commits nothing, and \<open>sync_permissions\<close> commits without dropping the cache.
\<close>

definition committed :: "authz \<Rightarrow> authz_error + rbac_db \<Rightarrow> authz" where
  "committed a r = (case r of Inl _ \<Rightarrow> a | Inr d \<Rightarrow> commit_db d a)"

fun apply_op :: "authz \<Rightarrow> authz_op \<Rightarrow> authz" where
  "apply_op a (SyncPermissions catalog) = a\<lparr>db := fst (sync_permissions catalog (db a))\<rparr>"
| "apply_op a (SyncRoles labels) = commit_db (sync_builtin_roles labels (db a)) a"
| "apply_op a (Provision now provider ext name email) =
     (case provision_user now provider ext name email (db a) of None \<Rightarrow> a | Some (d, _) \<Rightarrow> commit_db d a)"
| "apply_op a (CreateRole code name desc) = committed a (map_sum id fst (create_role code name desc (db a)))"
| "apply_op a (DeleteRole rid) = committed a (delete_role rid (db a))"
| "apply_op a (SetRolePermissions rid codes) = committed a (map_sum id fst (set_role_permissions rid codes (db a)))"
| "apply_op a (GrantRole uid code) =
     (case grant_role uid code (db a) of Inr (d, True) \<Rightarrow> commit_db d a | _ \<Rightarrow> a)"
| "apply_op a (RevokeRole uid code) =
     (if find_role (db a) code = None then a else commit_db (fst (revoke_role uid code (db a))) a)"
| "apply_op a (SetSuperuser uid v) = committed a (set_superuser uid v (db a))"
| "apply_op a (SetActive uid v) = committed a (set_active uid v (db a))"

text \<open>\<open>bootstrap\<close>, with the two drift reports of the catalogue.\<close>

definition orphan_permissions :: "seed_points \<Rightarrow> rbac_db \<Rightarrow> string set" where
  "orphan_permissions catalog d =
     fst ` set catalog - set (map perm_code (filter (\<lambda>p. perm_id p \<in> snd ` role_permissions d) (permissions d)))"

definition stale_permissions :: "seed_points \<Rightarrow> rbac_db \<Rightarrow> string set" where
  "stale_permissions catalog d = perm_code ` set (permissions d) - fst ` set catalog"

definition bootstrap :: "seed_points \<Rightarrow> (string \<Rightarrow> string \<times> string) \<Rightarrow> authz \<Rightarrow> authz" where
  "bootstrap catalog labels a = apply_op (apply_op a (SyncPermissions catalog)) (SyncRoles labels)"

end
