(* ===== verification/AuthzProps.thy ===== *)
theory AuthzProps
  imports Authz
begin

section \<open>What the authorization service guarantees\<close>

text \<open>
  With one thread the cache never answers differently from the tables, the admin role holds every
  point after a start, a restart neither resurrects a revoked grant nor touches a role of the administrators, and what a fresh
  deployment grants.
\<close>

subsection \<open>Well-formed tables\<close>

definition rbac_ok :: "rbac_db \<Rightarrow> bool" where
  "rbac_ok d \<longleftrightarrow> distinct (map role_id (roles d)) \<and> distinct (map role_code (roles d))
     \<and> (\<forall>r \<in> set (roles d). role_id r < next_role d) \<and> (\<forall>p \<in> set (permissions d). perm_id p < next_perm d)
     \<and> (\<forall>(r, p) \<in> role_permissions d. r < next_role d \<and> p < next_perm d)
     \<and> (\<forall>(u, r) \<in> user_roles d. r < next_role d)"

lemmas remember_defs = remember_user_def remember_anonymous_def

lemma find_role_Some: "find_role d code = Some r \<Longrightarrow> r \<in> set (roles d) \<and> role_code r = code"
  unfolding find_role_def by (blast dest: find_SomeD)

lemma get_role_Some: "get_role d i = Some r \<Longrightarrow> r \<in> set (roles d) \<and> role_id r = i"
  unfolding get_role_def by (blast dest: find_SomeD)

lemma find_role_None: "find_role d code = None \<longleftrightarrow> code \<notin> role_code ` set (roles d)"
  by (auto simp: find_role_def find_None_iff)

lemma perm_ids_range: "map_of (perm_ids d) c = Some i \<Longrightarrow> \<exists>p \<in> set (permissions d). perm_code p = c \<and> perm_id p = i"
proof -
  assume "map_of (perm_ids d) c = Some i"
  then have "(c, i) \<in> set (perm_ids d)" by (rule map_of_SomeD)
  then show ?thesis by (auto simp: perm_ids_def)
qed

lemma wanted_ids_iff: "i \<in> wanted_ids perms codes \<longleftrightarrow> (\<exists>c \<in> set codes. map_of perms c = Some i)"
  unfolding wanted_ids_def by (force simp: List.map_filter_def)

lemma wanted_ids_perms: "i \<in> wanted_ids (perm_ids d) codes \<Longrightarrow> \<exists>p \<in> set (permissions d). perm_id p = i"
  unfolding wanted_ids_iff by (blast dest: perm_ids_range)

lemma set_role_links_frame [simp]:
  "roles (set_role_links r c p b d) = roles d" "permissions (set_role_links r c p b d) = permissions d"
  "users (set_role_links r c p b d) = users d" "user_roles (set_role_links r c p b d) = user_roles d"
  "seed_migrations (set_role_links r c p b d) = seed_migrations d" "next_role (set_role_links r c p b d) = next_role d"
  "next_perm (set_role_links r c p b d) = next_perm d"
  by (simp_all add: set_role_links_def Let_def)

lemma set_role_links_perms:
  "role_permissions (set_role_links r c p False d) = role_permissions d \<union> (\<lambda>i. (r, i)) ` wanted_ids p c"
  by (simp add: set_role_links_def Let_def)

lemma set_role_links_sub:
  "role_permissions (set_role_links r c p b d) \<subseteq> role_permissions d \<union> (\<lambda>i. (r, i)) ` wanted_ids p c"
  by (auto simp: set_role_links_def Let_def)

lemma set_role_links_ok:
  assumes "rbac_ok d" and "r < next_role d" and "\<forall>i \<in> wanted_ids p c. i < next_perm d"
  shows "rbac_ok (set_role_links r c p b d)"
proof -
  have "\<forall>(q, i) \<in> role_permissions (set_role_links r c p b d). q < next_role d \<and> i < next_perm d"
    using set_role_links_sub [of r c p b d] assms by (fastforce simp: rbac_ok_def)
  then show ?thesis using assms(1) by (simp add: rbac_ok_def)
qed

lemma map_put: "(\<And>q. q \<in> set xs \<Longrightarrow> key q = key r \<Longrightarrow> f q = f r) \<Longrightarrow> map f (map (\<lambda>q. if key q = key r then r else q) xs) = map f xs"
  by (induction xs) auto

lemma put_role_frame [simp]:
  "permissions (put_role r d) = permissions d" "role_permissions (put_role r d) = role_permissions d"
  "user_roles (put_role r d) = user_roles d" "seed_migrations (put_role r d) = seed_migrations d"
  "next_role (put_role r d) = next_role d" "next_perm (put_role r d) = next_perm d" "users (put_role r d) = users d"
  by (simp_all add: put_role_def)

lemma put_role_keys:
  assumes "rbac_ok d" and "r \<in> set (roles d)" and "role_id q = role_id r" and "role_code q = role_code r"
  shows "map role_id (roles (put_role q d)) = map role_id (roles d)"
    and "map role_code (roles (put_role q d)) = map role_code (roles d)"
proof -
  have "s = r" if "s \<in> set (roles d)" "role_id s = role_id q" for s
    using assms that unfolding rbac_ok_def by (metis distinct_map inj_onD)
  then show "map role_id (roles (put_role q d)) = map role_id (roles d)"
    and "map role_code (roles (put_role q d)) = map role_code (roles d)"
    unfolding put_role_def using assms(4) by (simp_all add: comp_def)
qed

lemma put_role_ok:
  assumes "rbac_ok d" and "r \<in> set (roles d)" and "role_id q = role_id r" and "role_code q = role_code r"
  shows "rbac_ok (put_role q d)"
proof -
  note keys = put_role_keys [OF assms]
  have "role_id s < next_role d" if "s \<in> set (roles (put_role q d))" for s
  proof -
    have "role_id s \<in> set (map role_id (roles d))" using that keys(1) by (metis image_eqI list.set_map)
    then show ?thesis using assms(1) by (auto simp: rbac_ok_def)
  qed
  then show ?thesis using assms(1) keys by (simp add: rbac_ok_def)
qed

subsection \<open>Every operation keeps the tables well-formed\<close>

lemma wanted_ids_bound: "rbac_ok d \<Longrightarrow> i \<in> wanted_ids (perm_ids d) codes \<Longrightarrow> i < next_perm d"
  using wanted_ids_perms by (fastforce simp: rbac_ok_def)

text \<open>Seeding never changes the points, so the ids read at its start stay good.\<close>

lemma sync_role_step:
  assumes ok: "rbac_ok d" and p: "\<forall>c. \<forall>i \<in> wanted_ids perms c. i < next_perm d"
  shows "rbac_ok (sync_role labels perms d spec)" "permissions (sync_role labels perms d spec) = permissions d"
    "next_perm (sync_role labels perms d spec) = next_perm d"
    "seed_migrations (sync_role labels perms d spec) = seed_migrations d"
    "role_code ` set (roles (sync_role labels perms d spec)) = insert (fst spec) (role_code ` set (roles d))"
proof -
  obtain code builtin anon auto where spec: "spec = (code, builtin, anon, auto)" by (cases spec)
  let ?d' = "sync_role labels perms d spec"
  have "rbac_ok ?d' \<and> permissions ?d' = permissions d \<and> next_perm ?d' = next_perm d
      \<and> seed_migrations ?d' = seed_migrations d \<and> role_code ` set (roles ?d') = insert (fst spec) (role_code ` set (roles d))"
  proof (cases "find_role d code")
    case None
    let ?r = "\<lparr>role_id = next_role d, role_code = code, role_name = fst (labels code), role_desc = Some (snd (labels code)),
      is_builtin = builtin, is_anonymous_default = anon, auto_grant = auto\<rparr>"
    let ?e = "d\<lparr>roles := roles d @ [?r], next_role := next_role d + 1\<rparr>"
    have "code \<notin> role_code ` set (roles d)" using None by (simp add: find_role_None)
    moreover have "\<forall>r \<in> set (roles d). role_id r < next_role d" using ok by (simp add: rbac_ok_def)
    ultimately have "rbac_ok ?e"
      using ok by (fastforce simp: rbac_ok_def)
    then have "rbac_ok (set_role_links (next_role d) (seed_of perms code) perms False ?e)"
      using p by (intro set_role_links_ok) auto
    then show ?thesis using None by (simp add: sync_role_def spec Let_def insert_commute)
  next
    case (Some r)
    then have r: "r \<in> set (roles d)" "role_code r = code" using find_role_Some by blast+
    let ?q = "r\<lparr>is_builtin := True, is_anonymous_default := anon, auto_grant := auto\<rparr>"
    have "rbac_ok (put_role ?q d)" by (rule put_role_ok [OF ok r(1)]) simp_all
    moreover have "role_code ` set (roles (put_role ?q d)) = role_code ` set (roles d)"
      using put_role_keys(2) [OF ok r(1), of ?q] by (metis list.set_map role.select_convs(1,2) role.surjective role.update_convs(5,6,7))
    moreover have "code \<in> role_code ` set (roles d)" using r by blast
    ultimately show ?thesis using Some by (simp add: sync_role_def spec Let_def insert_absorb)
  qed
  then show "rbac_ok ?d'" "permissions ?d' = permissions d" "next_perm ?d' = next_perm d"
    "seed_migrations ?d' = seed_migrations d" "role_code ` set (roles ?d') = insert (fst spec) (role_code ` set (roles d))"
    by blast+
qed


lemma sync_roles_fold:
  assumes "rbac_ok d" and "\<forall>c. \<forall>i \<in> wanted_ids perms c. i < next_perm d"
  shows "rbac_ok (foldl (sync_role labels perms) d specs)
    \<and> permissions (foldl (sync_role labels perms) d specs) = permissions d
    \<and> next_perm (foldl (sync_role labels perms) d specs) = next_perm d
    \<and> seed_migrations (foldl (sync_role labels perms) d specs) = seed_migrations d
    \<and> role_code ` set (roles (foldl (sync_role labels perms) d specs)) = fst ` set specs \<union> role_code ` set (roles d)"
  using assms
proof (induction specs arbitrary: d)
  case (Cons spec specs)
  note step = sync_role_step [OF Cons.prems, of labels spec]
  show ?case
    using Cons.IH [OF step(1)] Cons.prems(2) step(2-5) by auto
qed simp

lemma apply_topup_frame [simp]:
  "roles (apply_topup perms d e) = roles d" "permissions (apply_topup perms d e) = permissions d"
  "next_perm (apply_topup perms d e) = next_perm d" "next_role (apply_topup perms d e) = next_role d"
  "user_roles (apply_topup perms d e) = user_roles d" "users (apply_topup perms d e) = users d"
  by (cases e; simp add: apply_topup_def Let_def split: option.split)+

lemma apply_topup_ok:
  assumes "rbac_ok d" and "\<forall>c. \<forall>i \<in> wanted_ids perms c. i < next_perm d"
  shows "rbac_ok (apply_topup perms d e)"
proof -
  obtain m code codes where e: "e = (m, code, codes)" by (cases e)
  have mig: "rbac_ok (x\<lparr>seed_migrations := y\<rparr>) = rbac_ok x" for x y by (simp add: rbac_ok_def)
  show ?thesis
  proof (cases "find_role d code")
    case (Some r)
    then have "role_id r < next_role d" using find_role_Some assms(1) by (auto simp: rbac_ok_def)
    then have "rbac_ok (set_role_links (role_id r) codes perms False d)" using assms by (intro set_role_links_ok) auto
    then show ?thesis using assms(1) Some by (simp add: apply_topup_def e Let_def mig)
  qed (simp add: apply_topup_def e assms)
qed

lemma apply_topup_mono: "role_permissions d \<subseteq> role_permissions (apply_topup perms d e)"
  by (cases e) (auto simp: apply_topup_def Let_def set_role_links_perms split: option.split)

lemma apply_topup_migrations:
  "set (seed_migrations d) \<subseteq> set (seed_migrations (apply_topup perms d e))"
  "fst (snd e) \<in> role_code ` set (roles d) \<Longrightarrow> fst e \<in> set (seed_migrations (apply_topup perms d e))"
  by (cases e; auto simp: apply_topup_def Let_def find_role_None split: option.split)+

lemma topups_fold:
  assumes "rbac_ok d" and "\<forall>c. \<forall>i \<in> wanted_ids perms c. i < next_perm d"
  shows "rbac_ok (foldl (apply_topup perms) d es) \<and> roles (foldl (apply_topup perms) d es) = roles d
    \<and> permissions (foldl (apply_topup perms) d es) = permissions d
    \<and> role_permissions d \<subseteq> role_permissions (foldl (apply_topup perms) d es)
    \<and> set (seed_migrations d) \<subseteq> set (seed_migrations (foldl (apply_topup perms) d es))
    \<and> ((\<forall>e \<in> set es. fst (snd e) \<in> role_code ` set (roles d))
        \<longrightarrow> fst ` set es \<subseteq> set (seed_migrations (foldl (apply_topup perms) d es)))"
  using assms
proof (induction es arbitrary: d)
  case (Cons e es)
  have ok: "rbac_ok (apply_topup perms d e)" by (rule apply_topup_ok [OF Cons.prems])
  have p: "\<forall>c. \<forall>i \<in> wanted_ids perms c. i < next_perm (apply_topup perms d e)" using Cons.prems(2) by simp
  show ?case
    using Cons.IH [OF ok p] apply_topup_mono [where d = d and perms = perms and e = e]
      apply_topup_migrations [where d = d and perms = perms and e = e]
    by auto
qed simp

lemma topups_done: "fst ` set es \<subseteq> set (seed_migrations d) \<Longrightarrow> foldl (apply_topup perms) d es = d"
  by (induction es arbitrary: d) (auto simp: apply_topup_def)

subsection \<open>Seeding\<close>

lemma seed_topups_roles: "\<forall>e \<in> set SEED_TOPUPS. fst (snd e) \<in> fst ` set BUILTIN_ROLES"
  by (simp add: SEED_TOPUPS_def BUILTIN_ROLES_def)

text \<open>What \<open>sync_builtin_roles\<close> leaves: the stages of it, with the facts each one keeps.\<close>

lemma sync_builtin_roles_spec:
  assumes ok: "rbac_ok d"
  obtains d1 admin where "d1 = foldl (sync_role labels (perm_ids d)) d BUILTIN_ROLES" and "rbac_ok d1"
    and "permissions d1 = permissions d" and "seed_migrations d1 = seed_migrations d" and "find_role d1 ADMIN_ROLE = Some admin"
    and "sync_builtin_roles labels d
      = apply_seed_topups (perm_ids d) (set_role_links (role_id admin) (map fst (perm_ids d)) (perm_ids d) False d1)"
    and "rbac_ok (set_role_links (role_id admin) (map fst (perm_ids d)) (perm_ids d) False d1)"
    and "\<forall>c. \<forall>i \<in> wanted_ids (perm_ids d) c. i < next_perm d1"
    and "fst ` set BUILTIN_ROLES \<subseteq> role_code ` set (roles d1)"
proof -
  let ?d1 = "foldl (sync_role labels (perm_ids d)) d BUILTIN_ROLES"
  have bound: "\<forall>c. \<forall>i \<in> wanted_ids (perm_ids d) c. i < next_perm d" using wanted_ids_bound [OF ok] by blast
  note fold = sync_roles_fold [OF ok bound, of labels BUILTIN_ROLES]
  have "ADMIN_ROLE \<in> role_code ` set (roles ?d1)" using fold by (simp add: BUILTIN_ROLES_def)
  then obtain admin where admin: "find_role ?d1 ADMIN_ROLE = Some admin"
    by (cases "find_role ?d1 ADMIN_ROLE") (auto simp: find_role_None)
  then have "role_id admin < next_role ?d1" using find_role_Some fold by (auto simp: rbac_ok_def)
  then have "rbac_ok (set_role_links (role_id admin) (map fst (perm_ids d)) (perm_ids d) False ?d1)"
    using fold bound by (intro set_role_links_ok) auto
  then show thesis
    using fold bound admin by (intro that [of ?d1 admin]) (auto simp: sync_builtin_roles_def Let_def)
qed

lemma sync_builtin_roles_ok: "rbac_ok d \<Longrightarrow> rbac_ok (sync_builtin_roles labels d)"
proof (erule sync_builtin_roles_spec [of d labels])
  fix d1 :: rbac_db and admin :: role
  assume "rbac_ok (set_role_links (role_id admin) (map fst (perm_ids d)) (perm_ids d) False d1)"
    "\<forall>c. \<forall>i \<in> wanted_ids (perm_ids d) c. i < next_perm d1"
    "sync_builtin_roles labels d
      = apply_seed_topups (perm_ids d) (set_role_links (role_id admin) (map fst (perm_ids d)) (perm_ids d) False d1)"
  then show "rbac_ok (sync_builtin_roles labels d)"
    using topups_fold by (simp add: apply_seed_topups_def)
qed

lemma role_codes_of_mono:
  "permissions d' = permissions d \<Longrightarrow> role_permissions d \<subseteq> role_permissions d' \<Longrightarrow> role_codes_of d r \<subseteq> role_codes_of d' r"
  by (auto simp: role_codes_of_def)

lemma perm_ids_of_code: "p \<in> set (permissions d) \<Longrightarrow> \<exists>i. map_of (perm_ids d) (perm_code p) = Some i"
proof -
  assume "p \<in> set (permissions d)"
  then have "perm_code p \<in> fst ` set (perm_ids d)" by (force simp: perm_ids_def)
  then show ?thesis using map_of_eq_None_iff [of "perm_ids d" "perm_code p"] by (cases "map_of (perm_ids d) (perm_code p)") auto
qed

lemma admin_links_all:
  assumes "permissions d1 = permissions d"
  shows "role_codes_of (set_role_links (role_id r) (map fst (perm_ids d)) (perm_ids d) False d1) r
    = perm_code ` set (permissions d)"
proof -
  let ?d = "set_role_links (role_id r) (map fst (perm_ids d)) (perm_ids d) False d1"
  have "perm_code p \<in> role_codes_of ?d r" if p: "p \<in> set (permissions d)" for p
  proof -
    obtain i where i: "map_of (perm_ids d) (perm_code p) = Some i" using perm_ids_of_code [OF p] ..
    then obtain q where q: "q \<in> set (permissions d)" "perm_code q = perm_code p" "perm_id q = i"
      using perm_ids_range by blast
    have "perm_code p \<in> set (map fst (perm_ids d))" using p by (auto simp: perm_ids_def)
    then have "perm_id q \<in> wanted_ids (perm_ids d) (map fst (perm_ids d))"
      using i q(3) unfolding wanted_ids_iff by blast
    then have "(role_id r, perm_id q) \<in> role_permissions ?d" by (simp add: set_role_links_perms)
    moreover have "q \<in> set (permissions ?d)" using q(1) assms by simp
    ultimately have "perm_code q \<in> role_codes_of ?d r"
      unfolding role_codes_of_def set_map set_filter by (intro image_eqI [where x = q]) auto
    then show ?thesis using q(2) by simp
  qed
  then show ?thesis using assms by (auto simp: role_codes_of_def)
qed


lemma new_point_ok:
  assumes "rbac_ok d" and "perm_id p = next_perm d"
  shows "rbac_ok (d\<lparr>permissions := permissions d @ [p], next_perm := next_perm d + 1\<rparr>)"
  using assms by (fastforce simp: rbac_ok_def)

lemma sync_point_spec:
  assumes ok: "rbac_ok d" and m: "sync_point known (d, n) e = (d', n')"
  shows "rbac_ok d' \<and> roles d' = roles d \<and> user_roles d' = user_roles d \<and> seed_migrations d' = seed_migrations d
    \<and> (\<forall>r. role_codes_of d' r = role_codes_of d r)"
proof -
  obtain code name desc modul where e: "e = (code, name, desc, modul)" by (cases e)
  show ?thesis
  proof (cases "code \<in> known")
    case False
    have "(i, next_perm d) \<notin> role_permissions d" for i using ok by (auto simp: rbac_ok_def)
    moreover have "rbac_ok d'"
      using new_point_ok [OF ok] m False by (auto simp: sync_point_def e)
    ultimately show ?thesis using m False by (auto simp: sync_point_def e role_codes_of_def)
  next
    case True
    let ?f = "\<lambda>p. if perm_code p = code \<and> perm_module p = None then p\<lparr>perm_module := Some modul\<rparr> else p"
    have d': "d' = d\<lparr>permissions := map ?f (permissions d)\<rparr>" using m True by (simp add: sync_point_def e)
    have f: "perm_id (?f p) = perm_id p" "perm_code (?f p) = perm_code p" for p by simp_all
    have "rbac_ok d'" unfolding d' using ok by (auto simp: rbac_ok_def)
    moreover have "permissions d' = map ?f (permissions d)" "role_permissions d' = role_permissions d" by (simp_all add: d')
    then have "role_codes_of d' r = role_codes_of d r" for r
      unfolding role_codes_of_def by (simp only: filter_map list.map_comp comp_def f)
    ultimately show ?thesis by (simp add: d')
  qed
qed

lemma sync_points_spec:
  "rbac_ok d \<Longrightarrow> foldl (sync_point known) (d, n) es = (d', n')
   \<Longrightarrow> rbac_ok d' \<and> roles d' = roles d \<and> user_roles d' = user_roles d \<and> seed_migrations d' = seed_migrations d
     \<and> (\<forall>r. role_codes_of d' r = role_codes_of d r)"
proof (induction es arbitrary: d n)
  case (Cons e es)
  obtain d1 n1 where 1: "sync_point known (d, n) e = (d1, n1)" by (cases "sync_point known (d, n) e")
  note s = sync_point_spec [OF Cons.prems(1) 1]
  show ?case using Cons.IH [of d1 n1] s Cons.prems(2) 1 by simp
qed simp

lemma sync_permissions_spec:
  assumes "rbac_ok d"
  shows "rbac_ok (fst (sync_permissions catalog d))" "roles (fst (sync_permissions catalog d)) = roles d"
    "user_roles (fst (sync_permissions catalog d)) = user_roles d"
    "seed_migrations (fst (sync_permissions catalog d)) = seed_migrations d"
    "role_codes_of (fst (sync_permissions catalog d)) r = role_codes_of d r"
  using sync_points_spec [OF assms, of "perm_code ` set (permissions d)" 0 catalog]
  by (cases "sync_permissions catalog d"; simp add: sync_permissions_def)+

lemma rbac_ok_users [simp]: "rbac_ok (put_user u d) = rbac_ok d"
  by (simp add: put_user_def rbac_ok_def)

lemma grant_links_ok:
  assumes "rbac_ok d" and "\<forall>(u, r) \<in> G. (u, r) \<in> user_roles d \<or> (\<exists>q \<in> set (roles d). role_id q = r)"
  shows "rbac_ok (d\<lparr>user_roles := G\<rparr>)"
  using assms by (fastforce simp: rbac_ok_def)

lemma add_points_ok:
  "rbac_ok d \<Longrightarrow> rbac_ok (add_points codes d) \<and> roles (add_points codes d) = roles d
    \<and> next_role (add_points codes d) = next_role d \<and> seed_migrations (add_points codes d) = seed_migrations d"
proof (induction codes arbitrary: d)
  case (Cons c cs)
  let ?d = "d\<lparr>permissions := permissions d @ [\<lparr>perm_id = next_perm d, perm_code = c, perm_name = c,
      perm_module = Some (module_of c), perm_desc = Some ''created in the console''\<rparr>], next_perm := next_perm d + 1\<rparr>"
  have "rbac_ok ?d" using Cons.prems by (intro new_point_ok) simp_all
  moreover have "add_points (c # cs) d = add_points cs ?d" by (simp add: add_points_def)
  ultimately show ?case using Cons.IH [of ?d] by simp
qed (simp add: add_points_def)

lemma rbac_okD: "rbac_ok d \<Longrightarrow> r \<in> set (roles d) \<Longrightarrow> role_id r < next_role d"
  by (simp add: rbac_ok_def)

lemma apply_auto_grant_ok: "rbac_ok d \<Longrightarrow> rbac_ok (apply_auto_grant uid d)"
  unfolding apply_auto_grant_def by (rule grant_links_ok) auto

lemma rbac_ok_new_user [simp]: "rbac_ok (d\<lparr>users := us, next_user := n\<rparr>) = rbac_ok d"
  by (simp add: rbac_ok_def)

lemma provision_user_ok: "rbac_ok d \<Longrightarrow> provision_user now p e n m d = Some (d', u) \<Longrightarrow> rbac_ok d'"
  unfolding provision_user_def Let_def
  by (auto simp: apply_auto_grant_ok split: if_split_asm option.split_asm)

lemma create_role_ok: "rbac_ok d \<Longrightarrow> create_role c n m d = Inr (d', r) \<Longrightarrow> rbac_ok d'"
  by (auto simp: create_role_def Let_def rbac_ok_def find_role_None add_strict_increasing2 split: if_splits)
    (auto simp: image_iff)

lemma delete_role_ok: "rbac_ok d \<Longrightarrow> delete_role rid d = Inr d' \<Longrightarrow> rbac_ok d'"
  by (auto simp: delete_role_def rbac_ok_def distinct_map_filter split: option.splits if_splits)

lemma set_role_permissions_ok: "rbac_ok d \<Longrightarrow> set_role_permissions rid codes d = Inr (d', s) \<Longrightarrow> rbac_ok d'"
proof -
  assume ok: "rbac_ok d" and m: "set_role_permissions rid codes d = Inr (d', s)"
  obtain r where r: "get_role d rid = Some r" using m by (auto simp: set_role_permissions_def split: option.splits)
  let ?e = "add_points (filter (\<lambda>c. c \<notin> perm_code ` set (permissions d)) codes) d"
  have d': "d' = set_role_links (role_id r) codes (perm_ids ?e) True ?e"
    using m r by (auto simp: set_role_permissions_def Let_def split: if_splits)
  have e: "rbac_ok ?e" "next_role ?e = next_role d" using add_points_ok [OF ok] by blast+
  have "role_id r < next_role d" using rbac_okD [OF ok] get_role_Some [OF r] by blast
  then show ?thesis unfolding d' using e wanted_ids_bound [OF e(1)] by (intro set_role_links_ok) auto
qed

lemma grant_role_ok: "rbac_ok d \<Longrightarrow> grant_role uid c d = Inr (d', b) \<Longrightarrow> rbac_ok d'"
  by (auto simp: grant_role_def split: option.splits if_splits
      intro!: grant_links_ok dest!: find_role_Some)

lemma revoke_role_ok: "rbac_ok d \<Longrightarrow> rbac_ok (fst (revoke_role uid c d))"
  by (auto simp: revoke_role_def split: option.split intro!: grant_links_ok)

subsection \<open>Reachable services\<close>

definition empty_rbac :: rbac_db where
  "empty_rbac = \<lparr>users = [], roles = [], permissions = [], user_roles = {}, role_permissions = {},
     seed_migrations = [], next_user = 1, next_role = 1, next_perm = 1\<rparr>"

definition new_authz :: "rbac_db \<Rightarrow> authz" where
  "new_authz d = \<lparr>db = d, service_version = 0, grant_cache = [], anon_cache = None\<rparr>"

text \<open>
  One process over its tables: operations, permission checks at any time, listings, and a restart, which keeps
  the tables and loses the cache.
\<close>

inductive authz_step :: "authz \<Rightarrow> authz \<Rightarrow> bool" where
  step_op: "authz_step a (apply_op a oper)"
| step_check: "authz_step a (snd (has_permission now a p code))"
| step_list: "authz_step a (snd (permission_codes now a p))"
| step_restart: "authz_step a (new_authz (db a))"

inductive authz_reachable :: "authz \<Rightarrow> bool" where
  reach_new: "authz_reachable (new_authz empty_rbac)"
| reach_step: "authz_reachable a \<Longrightarrow> authz_step a b \<Longrightarrow> authz_reachable b"

lemma commit_db_simps [simp]:
  "db (commit_db d a) = d" "grant_cache (commit_db d a) = []" "anon_cache (commit_db d a) = None"
  by (simp_all add: commit_db_def invalidate_def)


lemma map_sum_Inr: "map_sum id fst x = Inr d \<longleftrightarrow> (\<exists>y. x = Inr (d, y))"
  by (cases x) auto

lemma apply_op_ok: "rbac_ok (db a) \<Longrightarrow> rbac_ok (db (apply_op a oper))"
proof (cases oper)
  case (SyncPermissions c)
  then show "rbac_ok (db a) \<Longrightarrow> ?thesis" by (simp add: sync_permissions_spec)
qed (auto simp: committed_def map_sum_Inr sync_builtin_roles_ok revoke_role_ok set_superuser_def set_active_def
    split: option.splits sum.splits prod.splits bool.splits
    dest: provision_user_ok create_role_ok delete_role_ok set_role_permissions_ok grant_role_ok)


lemma reachable_rbac_ok: "authz_reachable a \<Longrightarrow> rbac_ok (db a)"
proof (induction rule: authz_reachable.induct)
  case reach_new
  show ?case by (simp add: new_authz_def empty_rbac_def rbac_ok_def)
next
  case (reach_step a b)
  from reach_step.hyps(2) reach_step.IH show ?case
  proof cases
    case step_op
    then show ?thesis using apply_op_ok reach_step.IH by simp
  next
    case step_check
    then show ?thesis using reach_step.IH
      by (auto simp: has_permission_def anonymous_grants_def user_grants_def remember_defs Let_def split: option.splits)
  next
    case step_list
    then show ?thesis using reach_step.IH
      by (auto simp: permission_codes_def anonymous_grants_def user_grants_def remember_defs Let_def split: option.splits)
  next
    case step_restart
    then show ?thesis using reach_step.IH by (simp add: new_authz_def)
  qed
qed

subsection \<open>The cache\<close>

text \<open>
  A read through the cache: what it should answer (\<open>truth\<close>), what is remembered for it, and the two ways it goes. An entry is
  sound when it remembers the truth; a read of a sound entry answers the truth and leaves it sound.
\<close>

locale cached_read =
  fixes read :: "timestamp \<Rightarrow> authz \<Rightarrow> string set \<times> authz"
    and truth :: "rbac_db \<Rightarrow> string set"
    and entry :: "authz \<Rightarrow> cache_entry option"
  assumes hit: "fresh now (entry a) (service_version a) = Some g \<Longrightarrow> read now a = (g, a)"
    and miss: "fresh now (entry a) (service_version a) = None \<Longrightarrow>
      fst (read now a) = truth (db a) \<and> db (snd (read now a)) = db a
      \<and> entry (snd (read now a)) = Some (service_version a, now, truth (db a))"
begin

definition sound :: "authz \<Rightarrow> bool" where
  "sound a \<longleftrightarrow> (\<forall>v t g. entry a = Some (v, t, g) \<longrightarrow> g = truth (db a))"

lemma fresh_entry: "fresh now e v = Some g \<Longrightarrow> \<exists>t. e = Some (v, t, g) \<and> now - t \<le> CACHE_TTL"
  by (cases e) (auto split: if_splits)

lemma read_truth: "sound a \<Longrightarrow> fst (read now a) = truth (db a)"
  using hit miss fresh_entry unfolding sound_def
  by (metis fst_conv not_Some_eq)

lemma read_sound: "sound a \<Longrightarrow> sound (snd (read now a)) \<and> db (snd (read now a)) = db a"
proof (cases "fresh now (entry a) (service_version a)")
  case None
  then show ?thesis using miss by (simp add: sound_def)
next
  case (Some g)
  moreover assume "sound a"
  ultimately show ?thesis using hit [OF Some] by simp
qed

end

interpretation anon: cached_read anonymous_grants anonymous_codes anon_cache
  by unfold_locales (auto simp: anonymous_grants_def remember_defs Let_def)

interpretation user: cached_read "\<lambda>now a. user_grants now a uid" "\<lambda>d. grants_for_user d uid"
  "\<lambda>a. map_of (grant_cache a) uid" for uid
  by unfold_locales (auto simp: user_grants_def remember_defs Let_def update_conv)

definition cache_sound :: "authz \<Rightarrow> bool" where
  "cache_sound a \<longleftrightarrow> anon.sound a \<and> (\<forall>uid. user.sound uid a)"

lemma cache_sound_cleared: "grant_cache a = [] \<Longrightarrow> anon_cache a = None \<Longrightarrow> cache_sound a"
  by (simp add: cache_sound_def anon.sound_def user.sound_def)

lemma user_read_sound:
  assumes "cache_sound a"
  shows "cache_sound (snd (user_grants now a uid))"
proof -
  have "user.sound q (snd (user_grants now a uid))" for q
    using assms user.read_sound [of uid a now]
    by (cases "q = uid") (auto simp: cache_sound_def user.sound_def user_grants_def remember_defs Let_def update_conv split: option.splits)
  moreover have "anon.sound (snd (user_grants now a uid))"
    using assms by (auto simp: cache_sound_def anon.sound_def user_grants_def remember_defs Let_def split: option.splits)
  ultimately show ?thesis by (simp add: cache_sound_def)
qed

lemma anonymous_read_sound:
  assumes "cache_sound a"
  shows "cache_sound (snd (anonymous_grants now a))"
  using assms anon.read_sound [of a now]
  by (auto simp: cache_sound_def user.sound_def anonymous_grants_def remember_defs Let_def split: option.splits)

lemma apply_op_sound:
  assumes "cache_sound a" and "rbac_ok (db a)"
  shows "cache_sound (apply_op a oper)"
proof (cases "\<exists>catalog. oper = SyncPermissions catalog")
  case True
  then obtain catalog where oper: "oper = SyncPermissions catalog" ..
  let ?d = "fst (sync_permissions catalog (db a))"
  have "role_codes_of ?d = role_codes_of (db a)" using sync_permissions_spec(5) [OF assms(2)] by blast
  then have "grants_for_user ?d uid = grants_for_user (db a) uid" "anonymous_codes ?d = anonymous_codes (db a)" for uid
    using sync_permissions_spec(2,3) [OF assms(2)] by (simp_all add: grants_for_user_def anonymous_codes_def)
  then show ?thesis using assms(1) by (simp add: oper cache_sound_def anon.sound_def user.sound_def)
next
  case False
  then have "apply_op a oper = a \<or> (\<exists>d. apply_op a oper = commit_db d a)"
    by (cases oper) (auto simp: committed_def split: option.splits sum.splits prod.splits bool.splits)
  then show ?thesis using assms(1) cache_sound_cleared by (metis commit_db_simps(2,3))
qed

lemma reachable_cache_sound: "authz_reachable a \<Longrightarrow> cache_sound a"
proof (induction rule: authz_reachable.induct)
  case reach_new
  show ?case by (rule cache_sound_cleared) (simp_all add: new_authz_def)
next
  case (reach_step a b)
  from reach_step.hyps(2) show ?case
  proof cases
    case step_op
    then show ?thesis using apply_op_sound reach_step.IH reachable_rbac_ok [OF reach_step.hyps(1)] by simp
  next
    case step_check
    then show ?thesis using reach_step.IH anonymous_read_sound user_read_sound
      by (auto simp: has_permission_def split: option.splits)
  next
    case step_list
    then show ?thesis using reach_step.IH anonymous_read_sound user_read_sound
      by (auto simp: permission_codes_def split: option.splits)
  next
    case step_restart
    then show ?thesis by (simp add: cache_sound_cleared new_authz_def)
  qed
qed

text \<open>What the tables say a principal may do.\<close>

definition granted :: "rbac_db \<Rightarrow> principal option \<Rightarrow> string \<Rightarrow> bool" where
  "granted d p code \<longleftrightarrow> (case p of
       None \<Rightarrow> code \<in> anonymous_codes d
     | Some q \<Rightarrow> pr_superuser q \<or> code \<in> (case pr_user q of None \<Rightarrow> anonymous_codes d | Some uid \<Rightarrow> grants_for_user d uid))"

text \<open>
  A check with nothing running beside it answers exactly what the tables grant at that moment, in every state one process reaches
  by any operations, checks and restarts at any times. What changes and other processes that come in between do to it is in
  \<open>AuthzThreads\<close>.
\<close>

lemma lone_check_is_exact:
  assumes "authz_reachable a"
  shows "fst (has_permission now a p code) \<longleftrightarrow> granted (db a) p code"
proof -
  have s: "anon.sound a" "user.sound uid a" for uid using reachable_cache_sound [OF assms] by (simp_all add: cache_sound_def)
  have "fst (anonymous_grants now a) = anonymous_codes (db a)" by (rule anon.read_truth [OF s(1)])
  moreover have "fst (user_grants now a uid) = grants_for_user (db a) uid" for uid by (rule user.read_truth [OF s(2)])
  ultimately show ?thesis
    by (cases p) (auto simp: has_permission_def granted_def split: option.splits)
qed

subsection \<open>Starting and restarting\<close>

text \<open>
  After seeding, the built-in admin role holds every permission point there is, whatever an
  administrator removed from it before.
\<close>

theorem admin_role_holds_everything:
  assumes "authz_reachable a"
  shows "role_permission_codes (db (apply_op a (SyncRoles labels))) ADMIN_ROLE
    = perm_code ` set (permissions (db (apply_op a (SyncRoles labels))))"
proof -
  let ?d = "db a"
  from reachable_rbac_ok [OF assms] obtain d1 admin where
      perms: "permissions d1 = permissions ?d" and admin: "find_role d1 ADMIN_ROLE = Some admin"
    and sync: "sync_builtin_roles labels ?d
      = apply_seed_topups (perm_ids ?d) (set_role_links (role_id admin) (map fst (perm_ids ?d)) (perm_ids ?d) False d1)"
    and ok2: "rbac_ok (set_role_links (role_id admin) (map fst (perm_ids ?d)) (perm_ids ?d) False d1)"
    and bound: "\<forall>c. \<forall>i \<in> wanted_ids (perm_ids ?d) c. i < next_perm d1"
    by (rule sync_builtin_roles_spec)
  let ?d2 = "set_role_links (role_id admin) (map fst (perm_ids ?d)) (perm_ids ?d) False d1"
  have t: "roles (sync_builtin_roles labels ?d) = roles d1" "permissions (sync_builtin_roles labels ?d) = permissions d1"
      "role_permissions ?d2 \<subseteq> role_permissions (sync_builtin_roles labels ?d)"
    using topups_fold [OF ok2, of "perm_ids ?d" SEED_TOPUPS] bound by (simp_all add: sync apply_seed_topups_def)
  have "find_role (sync_builtin_roles labels ?d) ADMIN_ROLE = Some admin" using admin t(1) by (simp add: find_role_def)
  moreover have "role_codes_of ?d2 admin \<subseteq> role_codes_of (sync_builtin_roles labels ?d) admin"
    using t(2,3) by (intro role_codes_of_mono) simp_all
  moreover have "role_codes_of ?d2 admin = perm_code ` set (permissions ?d)" by (rule admin_links_all [OF perms])
  ultimately show ?thesis
    using t(2) perms by (auto simp: role_permission_codes_def role_codes_of_def)
qed


definition role_key :: "role \<Rightarrow> int \<times> string" where
  "role_key r = (role_id r, role_code r)"

lemma find_role_key:
  assumes "rbac_ok d" and "(i, code) \<in> role_key ` set (roles d)"
  obtains r where "find_role d code = Some r" and "role_id r = i"
proof -
  obtain q where q: "q \<in> set (roles d)" "role_id q = i" "role_code q = code" using assms(2) by (auto simp: role_key_def)
  then obtain r where r: "find_role d code = Some r" using find_role_None by (cases "find_role d code") auto
  moreover have "inj_on role_code (set (roles d))" using assms(1) by (simp add: rbac_ok_def distinct_map)
  ultimately have "r = q" using find_role_Some [OF r] q by (metis inj_onD)
  then show thesis using that r q(2) by blast
qed

definition same_role :: "rbac_db \<Rightarrow> int \<times> string \<Rightarrow> rbac_db \<Rightarrow> bool" where
  "same_role d k d' \<longleftrightarrow> k \<in> role_key ` set (roles d') \<and> permissions d' = permissions d
     \<and> (\<forall>p. (fst k, p) \<in> role_permissions d' \<longleftrightarrow> (fst k, p) \<in> role_permissions d)"

lemma same_role_codes:
  assumes "rbac_ok d" and "rbac_ok d'" and "(i, code) \<in> role_key ` set (roles d)" and "same_role d (i, code) d'"
  shows "role_permission_codes d' code = role_permission_codes d code"
proof -
  obtain r where r: "find_role d code = Some r" "role_id r = i" by (rule find_role_key [OF assms(1,3)])
  obtain r' where r': "find_role d' code = Some r'" "role_id r' = i"
    using find_role_key [OF assms(2)] assms(4) by (metis same_role_def)
  show ?thesis using assms(4) by (simp add: role_permission_codes_def role_codes_of_def r r' same_role_def)
qed

lemma same_role_trans: "same_role d k d1 \<Longrightarrow> same_role d1 k d2 \<Longrightarrow> same_role d k d2"
  by (simp add: same_role_def)

lemma sync_role_same:
  assumes ok: "rbac_ok d" and k: "k \<in> role_key ` set (roles d)"
  shows "same_role d k (sync_role labels perms d spec)"
proof -
  obtain code builtin anon auto where spec: "spec = (code, builtin, anon, auto)" by (cases spec)
  have i: "fst k < next_role d" using ok k by (auto simp: rbac_ok_def role_key_def)
  show ?thesis
  proof (cases "find_role d code")
    case None
    then show ?thesis using i k by (auto simp: sync_role_def spec Let_def same_role_def set_role_links_perms)
  next
    case (Some r)
    then have r: "r \<in> set (roles d)" using find_role_Some by blast
    let ?q = "r\<lparr>is_builtin := True, is_anonymous_default := anon, auto_grant := auto\<rparr>"
    have "s = r" if "s \<in> set (roles d)" "role_id s = role_id r" for s
      using ok r that unfolding rbac_ok_def by (metis distinct_map inj_onD)
    then have "map role_key (map (\<lambda>s. if role_id s = role_id ?q then ?q else s) (roles d)) = map role_key (roles d)"
      by (auto simp: role_key_def)
    then have "role_key ` set (roles (put_role ?q d)) = role_key ` set (roles d)"
      unfolding put_role_def by (metis (no_types, lifting) list.set_map rbac_db.select_convs(2) rbac_db.surjective rbac_db.update_convs(2))
    then show ?thesis using Some k by (simp add: sync_role_def spec same_role_def)
  qed
qed

lemma sync_roles_same:
  "rbac_ok d \<Longrightarrow> \<forall>c. \<forall>i \<in> wanted_ids perms c. i < next_perm d \<Longrightarrow> k \<in> role_key ` set (roles d)
   \<Longrightarrow> same_role d k (foldl (sync_role labels perms) d specs)"
proof (induction specs arbitrary: d)
  case (Cons spec specs)
  note step = sync_role_step [OF Cons.prems(1,2), of labels spec] and same = sync_role_same [OF Cons.prems(1,3), of labels perms spec]
  have "same_role (sync_role labels perms d spec) k (foldl (sync_role labels perms) (sync_role labels perms d spec) specs)"
    using Cons.IH [OF step(1)] Cons.prems(2) step(3) same by (simp add: same_role_def)
  then show ?case using same_role_trans [OF same] by simp
qed (simp add: same_role_def)

definition topups_recorded :: "rbac_db \<Rightarrow> bool" where
  "topups_recorded d \<longleftrightarrow> fst ` set SEED_TOPUPS \<subseteq> set (seed_migrations d)"

lemma seeding_records_topups:
  assumes "rbac_ok d"
  shows "topups_recorded (sync_builtin_roles labels d)"
  using assms
proof (rule sync_builtin_roles_spec [of d labels])
  fix d1 :: rbac_db and admin :: role
  let ?d2 = "set_role_links (role_id admin) (map fst (perm_ids d)) (perm_ids d) False d1"
  assume sync: "sync_builtin_roles labels d = apply_seed_topups (perm_ids d) ?d2"
    and ok2: "rbac_ok ?d2" and bound: "\<forall>c. \<forall>i \<in> wanted_ids (perm_ids d) c. i < next_perm d1"
    and roles: "fst ` set BUILTIN_ROLES \<subseteq> role_code ` set (roles d1)"
  have "\<forall>e \<in> set SEED_TOPUPS. fst (snd e) \<in> role_code ` set (roles ?d2)"
    using seed_topups_roles roles by auto
  then show ?thesis
    using topups_fold [OF ok2, of "perm_ids d" SEED_TOPUPS] bound
    by (simp add: sync apply_seed_topups_def topups_recorded_def)
qed

lemma seeding_again:
  assumes ok: "rbac_ok d" and recorded: "topups_recorded d" and k: "(i, code) \<in> role_key ` set (roles d)"
    and "code \<noteq> ADMIN_ROLE"
  shows "same_role d (i, code) (sync_builtin_roles labels d)"
  using ok
proof (rule sync_builtin_roles_spec [of d labels])
  fix d1 :: rbac_db and admin :: role
  let ?d2 = "set_role_links (role_id admin) (map fst (perm_ids d)) (perm_ids d) False d1"
  assume d1: "d1 = foldl (sync_role labels (perm_ids d)) d BUILTIN_ROLES" and ok1: "rbac_ok d1"
    and mig: "seed_migrations d1 = seed_migrations d" and admin: "find_role d1 ADMIN_ROLE = Some admin"
    and sync: "sync_builtin_roles labels d = apply_seed_topups (perm_ids d) ?d2"
  have same: "same_role d (i, code) d1"
    unfolding d1 using wanted_ids_bound [OF ok] by (intro sync_roles_same [OF ok _ k]) blast
  then obtain r where "find_role d1 code = Some r" "role_id r = i"
    using find_role_key [OF ok1] by (metis same_role_def)
  then have "r \<in> set (roles d1)" "role_code r = code" "role_id r = i" using find_role_Some by blast+
  moreover have "admin \<in> set (roles d1)" "role_code admin = ADMIN_ROLE" using find_role_Some admin by blast+
  ultimately have "i \<noteq> role_id admin" using ok1 assms(4) unfolding rbac_ok_def by (metis distinct_map inj_onD)
  then have "same_role d1 (i, code) ?d2" using same by (simp add: same_role_def set_role_links_perms) auto
  moreover have "apply_seed_topups (perm_ids d) ?d2 = ?d2"
    unfolding apply_seed_topups_def using recorded mig by (intro topups_done) (simp add: topups_recorded_def)
  ultimately show ?thesis using same_role_trans [OF same] by (simp add: sync)
qed

lemma step_keeps_topups:
  assumes "authz_step a b" and "rbac_ok (db a)" and "topups_recorded (db a)"
  shows "topups_recorded (db b)"
  using assms(1)
proof cases
  case (step_op oper)
  have links: "seed_migrations (foldl f d xs) = seed_migrations d" if "\<And>d x. seed_migrations (f d x) = seed_migrations d"
    for f :: "rbac_db \<Rightarrow> string \<Rightarrow> rbac_db" and d xs
    using that by (induction xs arbitrary: d) simp_all
  have add: "seed_migrations (add_points codes d) = seed_migrations d" for codes d
    unfolding add_points_def by (rule links) simp
  show ?thesis
  proof (cases oper)
    case (SyncRoles labels)
    then show ?thesis using step_op seeding_records_topups assms(2) by simp
  next
    case (SyncPermissions c)
    then show ?thesis using step_op sync_permissions_spec(4) [OF assms(2)] assms(3) by (simp add: topups_recorded_def)
  qed (use step_op assms(3) in \<open>auto simp: committed_def map_sum_Inr topups_recorded_def provision_user_def apply_auto_grant_def
      put_user_def create_role_def delete_role_def set_role_permissions_def grant_role_def revoke_role_def set_superuser_def
      set_active_def Let_def add split: option.splits sum.splits prod.splits bool.splits if_splits\<close>)
next
  case step_check
  then show ?thesis using assms(3)
    by (auto simp: has_permission_def anonymous_grants_def user_grants_def remember_defs Let_def split: option.splits)
next
  case step_list
  then show ?thesis using assms(3)
    by (auto simp: permission_codes_def anonymous_grants_def user_grants_def remember_defs Let_def split: option.splits)
next
  case step_restart
  then show ?thesis using assms(3) by (simp add: new_authz_def)
qed

lemma steps_keep_topups:
  "authz_step\<^sup>*\<^sup>* a b \<Longrightarrow> authz_reachable a \<Longrightarrow> topups_recorded (db a) \<Longrightarrow> authz_reachable b \<and> topups_recorded (db b)"
proof (induction rule: rtranclp_induct)
  case (step b c)
  then show ?case using step_keeps_topups reachable_rbac_ok authz_reachable.reach_step by blast
qed simp

text \<open>
  C34: seeding never overrules the administrators. Once a deployment has been seeded, then after any
  operations, seeding again at the next start leaves the permissions of every role but admin as they are: a revoked
  point stays revoked, although every top-up still names it.
\<close>

theorem restart_respects_revocations:
  assumes "authz_reachable a" and "authz_step\<^sup>*\<^sup>* (apply_op a (SyncRoles labels)) b"
    and "find_role (db b) code = Some r" and "code \<noteq> ADMIN_ROLE"
  shows "role_permission_codes (db (apply_op b (SyncRoles labels'))) code = role_permission_codes (db b) code"
proof -
  have "authz_reachable (apply_op a (SyncRoles labels))" using reach_step [OF assms(1) step_op] .
  moreover have "topups_recorded (db (apply_op a (SyncRoles labels)))"
    using seeding_records_topups reachable_rbac_ok [OF assms(1)] by simp
  ultimately have b: "authz_reachable b" "topups_recorded (db b)" using steps_keep_topups [OF assms(2)] by blast+
  have ok: "rbac_ok (db b)" by (rule reachable_rbac_ok [OF b(1)])
  have k: "(role_id r, code) \<in> role_key ` set (roles (db b))"
    using find_role_Some [OF assms(3)] by (force simp: role_key_def)
  show ?thesis
    using same_role_codes [OF ok sync_builtin_roles_ok [OF ok] k seeding_again [OF ok b(2) k assms(4)]] by simp
qed


subsection \<open>A concrete deployment\<close>

abbreviation sample_catalog :: seed_points where
  "sample_catalog \<equiv> [(''doc:read'', ''docs'', None, ''doc''), (''tool:upload'', ''upload'', None, ''tool'')]"

abbreviation sample_labels :: "string \<Rightarrow> string \<times> string" where
  "sample_labels \<equiv> \<lambda>code. (code, [])"

definition points_only :: authz where
  "points_only = apply_op (new_authz empty_rbac) (SyncPermissions sample_catalog)"

definition seeded :: authz where
  "seeded = apply_op points_only (SyncRoles sample_labels)"

definition revoked :: authz where
  "revoked = apply_op seeded (SetRolePermissions 1 [])"

lemma points_only_reachable: "authz_reachable points_only"
  unfolding points_only_def using reach_step [OF reach_new step_op] .

lemma seeded_reachable: "authz_reachable seeded"
  unfolding seeded_def using reach_step [OF points_only_reachable step_op] .

theorem admin_role_holds_everything_witness:
  "role_permission_codes (db seeded) ADMIN_ROLE = {''doc:read'', ''tool:upload''}"
proof -
  have "perm_code ` set (permissions (db seeded)) = {''doc:read'', ''tool:upload''}" by code_simp
  then show ?thesis using admin_role_holds_everything [OF points_only_reachable, of sample_labels] by (simp add: seeded_def)
qed

theorem restart_respects_revocations_witness:
  "role_permission_codes (db (apply_op revoked (SyncRoles sample_labels))) ANONYMOUS_ROLE = {}"
proof -
  have "authz_step\<^sup>*\<^sup>* seeded revoked" unfolding revoked_def using step_op by blast
  moreover have "\<exists>r. find_role (db revoked) ANONYMOUS_ROLE = Some r"
  proof -
    have "find_role (db revoked) ANONYMOUS_ROLE \<noteq> None" by code_simp
    then show ?thesis by blast
  qed
  moreover have "ANONYMOUS_ROLE \<noteq> ADMIN_ROLE" by code_simp
  moreover have "role_permission_codes (db revoked) ANONYMOUS_ROLE = {}" by code_simp
  ultimately show ?thesis
    using restart_respects_revocations [OF points_only_reachable, of sample_labels revoked ANONYMOUS_ROLE _ sample_labels]
    by (auto simp: seeded_def)
qed

end
