(* ===== verification/AuthzThreads.thy ===== *)
theory AuthzThreads
  imports AuthzProps
begin

section \<open>Permission checks beside other threads and processes\<close>

text \<open>
  The cache of \<open>AuthzService\<close> as a deployment has it: processes that each keep a version and a cache, threads in each of them, and
  one database. A check that misses asks the tables and stamps the answer later, a change commits and drops the cache of its own
  process later, and anything may come in between. The last four fields of a state are there for the statements only: the tables there have
  been, with the time each became current, those there have been since a process last dropped its cache, and whether a question of it was
  under way then. \<open>delay\<close> is how long a question to the tables may take.
\<close>

datatype grant_key = AnonymousKey | UserKey int

fun truth_of :: "grant_key \<Rightarrow> rbac_db \<Rightarrow> string set" where
  "truth_of AnonymousKey d = anonymous_codes d"
| "truth_of (UserKey uid) d = grants_for_user d uid"

fun entry_of :: "grant_key \<Rightarrow> authz \<Rightarrow> cache_entry option" where
  "entry_of AnonymousKey a = anon_cache a"
| "entry_of (UserKey uid) a = map_of (grant_cache a) uid"

fun remember :: "grant_key \<Rightarrow> timestamp \<Rightarrow> string set \<Rightarrow> authz \<Rightarrow> authz" where
  "remember AnonymousKey now grants a = remember_anonymous now grants a"
| "remember (UserKey uid) now grants a = remember_user now uid grants a"

definition cached :: "grant_key \<Rightarrow> timestamp \<Rightarrow> authz \<Rightarrow> string set option" where
  "cached k now a = fresh now (entry_of k a) (service_version a)"

text \<open>A question under way: whose, for whom, what the tables said, and when.\<close>

record reading =
  rd_process :: nat
  rd_key :: grant_key
  rd_grants :: "string set"
  rd_asked :: timestamp

record deployment =
  dp_now :: timestamp
  dp_tables :: rbac_db
  dp_process :: "nat \<Rightarrow> authz"
  dp_readings :: "reading list"
  dp_past :: "(timestamp \<times> rbac_db) list"
  dp_own :: "nat \<Rightarrow> rbac_db list"
  dp_overtaken :: "nat \<Rightarrow> bool"

definition started :: "timestamp \<Rightarrow> rbac_db \<Rightarrow> deployment" where
  "started t d = \<lparr>dp_now = t, dp_tables = d, dp_process = (\<lambda>i. new_authz d), dp_readings = [], dp_past = [(t, d)],
     dp_own = (\<lambda>i. [d]), dp_overtaken = (\<lambda>i. False)\<rparr>"

definition ask_tables :: "nat \<Rightarrow> grant_key \<Rightarrow> deployment \<Rightarrow> deployment" where
  "ask_tables i k dp = dp\<lparr>dp_readings :=
     \<lparr>rd_process = i, rd_key = k, rd_grants = truth_of k (dp_tables dp), rd_asked = dp_now dp\<rparr> # dp_readings dp\<rparr>"

definition stamp :: "reading \<Rightarrow> deployment \<Rightarrow> deployment" where
  "stamp r dp = dp\<lparr>dp_readings := remove1 r (dp_readings dp),
     dp_process := (dp_process dp)(rd_process r := remember (rd_key r) (dp_now dp) (rd_grants r) (dp_process dp (rd_process r)))\<rparr>"

definition commit_tables :: "rbac_db \<Rightarrow> deployment \<Rightarrow> deployment" where
  "commit_tables d dp = dp\<lparr>dp_tables := d, dp_past := (dp_now dp, d) # dp_past dp, dp_own := (\<lambda>i. d # dp_own dp i)\<rparr>"

definition drop_cache :: "nat \<Rightarrow> deployment \<Rightarrow> deployment" where
  "drop_cache i dp = dp\<lparr>dp_process := (dp_process dp)(i := invalidate (dp_process dp i)), dp_own := (dp_own dp)(i := [dp_tables dp]),
     dp_overtaken := (dp_overtaken dp)(i := list_ex (\<lambda>r. rd_process r = i) (dp_readings dp))\<rparr>"

definition restart_process :: "nat \<Rightarrow> deployment \<Rightarrow> deployment" where
  "restart_process i dp = dp\<lparr>dp_process := (dp_process dp)(i := new_authz (dp_tables dp)),
     dp_readings := filter (\<lambda>r. rd_process r \<noteq> i) (dp_readings dp), dp_own := (dp_own dp)(i := [dp_tables dp]),
     dp_overtaken := (dp_overtaken dp)(i := False)\<rparr>"

inductive deployment_step :: "timestamp \<Rightarrow> deployment \<Rightarrow> deployment \<Rightarrow> bool" for delay :: timestamp where
  time_passes: "dp_now dp \<le> t \<Longrightarrow> list_all (\<lambda>r. t - rd_asked r \<le> delay) (dp_readings dp) \<Longrightarrow> deployment_step delay dp (dp\<lparr>dp_now := t\<rparr>)"
| check_misses: "cached k (dp_now dp) (dp_process dp i) = None \<Longrightarrow> deployment_step delay dp (ask_tables i k dp)"
| check_stamps: "r \<in> set (dp_readings dp) \<Longrightarrow> deployment_step delay dp (stamp r dp)"
| change_commits: "d = db (apply_op (a\<lparr>db := dp_tables dp\<rparr>) oper) \<Longrightarrow> deployment_step delay dp (commit_tables d dp)"
| change_invalidates: "deployment_step delay dp (drop_cache i dp)"
| process_restarts: "deployment_step delay dp (restart_process i dp)"

inductive deployed :: "timestamp \<Rightarrow> deployment \<Rightarrow> bool" for delay :: timestamp where
  deployed_start: "deployed delay (started t d)"
| deployed_step: "deployed delay dp \<Longrightarrow> deployment_step delay dp dp' \<Longrightarrow> deployed delay dp'"

text \<open>What a check of a process answers with: what it finds, or what a question of it brought back.\<close>

definition answers :: "deployment \<Rightarrow> nat \<Rightarrow> grant_key \<Rightarrow> string set \<Rightarrow> bool" where
  "answers dp i k g \<longleftrightarrow> cached k (dp_now dp) (dp_process dp i) = Some g
     \<or> list_ex (\<lambda>r. rd_process r = i \<and> rd_key r = k \<and> rd_grants r = g) (dp_readings dp)"

text \<open>The tables that were current at some moment from \<open>t\<close> on.\<close>

fun tables_since :: "timestamp \<Rightarrow> (timestamp \<times> rbac_db) list \<Rightarrow> rbac_db list" where
  "tables_since t [] = []"
| "tables_since t ((since, d) # past) = d # (if t \<le> since then tables_since t past else [])"

subsection \<open>An answer is recent\<close>

lemma since_mono: "s \<le> t \<Longrightarrow> d \<in> set (tables_since t past) \<Longrightarrow> d \<in> set (tables_since s past)"
  by (induction past) (auto split: if_splits)

lemma since_commit: "s \<le> t \<Longrightarrow> d \<in> set (tables_since s past) \<Longrightarrow> d \<in> set (tables_since s ((t, d') # past))"
  by simp

definition vouched :: "deployment \<Rightarrow> nat \<Rightarrow> grant_key \<Rightarrow> timestamp \<Rightarrow> string set \<Rightarrow> bool" where
  "vouched dp i k t g \<longleftrightarrow> (\<exists>d \<in> set (tables_since t (dp_past dp)). g = truth_of k d \<and> (d \<in> set (dp_own dp i) \<or> dp_overtaken dp i))"

definition threads_ok :: "timestamp \<Rightarrow> deployment \<Rightarrow> bool" where
  "threads_ok delay dp \<longleftrightarrow> 0 \<le> delay
     \<and> (\<exists>t past. dp_past dp = (t, dp_tables dp) # past \<and> t \<le> dp_now dp) \<and> (\<forall>i. dp_tables dp \<in> set (dp_own dp i))
     \<and> (\<forall>r \<in> set (dp_readings dp). rd_asked r \<le> dp_now dp \<and> dp_now dp - rd_asked r \<le> delay
          \<and> vouched dp (rd_process r) (rd_key r) (rd_asked r) (rd_grants r))
     \<and> (\<forall>i k t g. entry_of k (dp_process dp i) = Some (service_version (dp_process dp i), t, g) \<longrightarrow> t \<le> dp_now dp \<and> vouched dp i k (t - delay) g)"

lemma entry_remember:
  "entry_of k (remember k' t g a) = (if k = k' then Some (service_version a, t, g) else entry_of k a)"
  "service_version (remember k' t g a) = service_version a"
  by (cases k; cases k'; auto simp: remember_defs update_conv)+

lemma entry_cleared: "entry_of k (invalidate a) = None" "entry_of k (new_authz d) = None"
  by (cases k; simp add: invalidate_def new_authz_def)+

lemma threads_ok_started: "0 \<le> delay \<Longrightarrow> threads_ok delay (started t d)"
  by (simp add: threads_ok_def started_def entry_cleared)

lemma vouched_mono: "vouched dp i k t g \<Longrightarrow> s \<le> t \<Longrightarrow> vouched dp i k s g"
  unfolding vouched_def using since_mono by blast

lemma vouched_commit: "vouched dp i k t g \<Longrightarrow> t \<le> dp_now dp \<Longrightarrow> vouched (commit_tables d dp) i k t g"
  by (auto simp: vouched_def commit_tables_def)

lemma vouched_same:
  "dp_past dp' = dp_past dp \<Longrightarrow> dp_own dp' i = dp_own dp i \<Longrightarrow> dp_overtaken dp' i = dp_overtaken dp i \<Longrightarrow> vouched dp' i k t g = vouched dp i k t g"
  by (simp add: vouched_def)


lemma current_since: "dp_past dp = (t, dp_tables dp) # past \<Longrightarrow> dp_tables dp \<in> set (tables_since s (dp_past dp))"
  by simp

lemma ask_ok:
  assumes "threads_ok delay dp"
  shows "threads_ok delay (ask_tables i k dp)"
proof -
  have "vouched dp i k (dp_now dp) (truth_of k (dp_tables dp))"
    using assms unfolding threads_ok_def vouched_def by (metis current_since)
  then show ?thesis using assms by (auto simp: threads_ok_def ask_tables_def vouched_def)
qed

lemma stamp_ok:
  assumes "threads_ok delay dp" and "r \<in> set (dp_readings dp)"
  shows "threads_ok delay (stamp r dp)"
proof -
  have r: "rd_asked r \<le> dp_now dp" "dp_now dp - rd_asked r \<le> delay" "vouched dp (rd_process r) (rd_key r) (rd_asked r) (rd_grants r)"
    using assms by (auto simp: threads_ok_def)
  then have "vouched dp (rd_process r) (rd_key r) (dp_now dp - delay) (rd_grants r)" using vouched_mono by fastforce
  moreover have "set (remove1 r (dp_readings dp)) \<subseteq> set (dp_readings dp)" by (rule set_remove1_subset)
  moreover have "vouched (stamp r dp) i k t g = vouched dp i k t g" for i k t g by (rule vouched_same) (simp_all add: stamp_def)
  ultimately show ?thesis using assms(1)
    by (simp add: threads_ok_def stamp_def entry_remember subset_iff)
qed

lemma commit_ok:
  assumes "threads_ok delay dp"
  shows "threads_ok delay (commit_tables d dp)"
proof -
  have 0: "0 \<le> delay" using assms by (simp add: threads_ok_def)
  have later: "vouched (commit_tables d dp) i k t g" if "vouched dp i k t g" "t \<le> dp_now dp" for i k t g
    using that by (rule vouched_commit)
  have entries: "\<forall>i k t g. entry_of k (dp_process dp i) = Some (service_version (dp_process dp i), t, g) \<longrightarrow>
      t \<le> dp_now dp \<and> vouched (commit_tables d dp) i k (t - delay) g"
  proof (intro allI impI)
    fix i k t g assume "entry_of k (dp_process dp i) = Some (service_version (dp_process dp i), t, g)"
    then have "t \<le> dp_now dp" "vouched dp i k (t - delay) g" using assms by (simp_all add: threads_ok_def)
    moreover from this(1) 0 have "t - delay \<le> dp_now dp" by linarith
    ultimately show "t \<le> dp_now dp \<and> vouched (commit_tables d dp) i k (t - delay) g" using later by blast
  qed
  have readings: "\<forall>r \<in> set (dp_readings dp). rd_asked r \<le> dp_now dp \<and> dp_now dp - rd_asked r \<le> delay
      \<and> vouched (commit_tables d dp) (rd_process r) (rd_key r) (rd_asked r) (rd_grants r)"
    using assms later by (auto simp: threads_ok_def)
  have "dp_process (commit_tables d dp) = dp_process dp" "dp_readings (commit_tables d dp) = dp_readings dp" "dp_now (commit_tables d dp) = dp_now dp"
    "dp_past (commit_tables d dp) = (dp_now dp, d) # dp_past dp" "dp_tables (commit_tables d dp) = d" "d \<in> set (dp_own (commit_tables d dp) i)" for i
    by (simp_all add: commit_tables_def)
  then show ?thesis unfolding threads_ok_def using 0 entries readings by simp
qed

lemma drop_ok:
  assumes "threads_ok delay dp"
  shows "threads_ok delay (drop_cache i dp)"
proof -
  have other: "vouched (drop_cache i dp) j k t g = vouched dp j k t g" if "j \<noteq> i" for j k t g
    by (rule vouched_same) (simp_all add: drop_cache_def that)
  have "vouched (drop_cache i dp) i k t g" if "r \<in> set (dp_readings dp)" "rd_process r = i" "vouched dp i k t g" for r k t g
    using that by (auto simp: vouched_def drop_cache_def list_ex_iff)
  then have "vouched (drop_cache i dp) (rd_process r) (rd_key r) (rd_asked r) (rd_grants r)" if "r \<in> set (dp_readings dp)" for r
    using that assms other by (cases "rd_process r = i") (auto simp: threads_ok_def)
  then show ?thesis using assms other by (simp add: threads_ok_def) (auto simp: drop_cache_def entry_cleared)
qed

lemma restart_ok:
  assumes "threads_ok delay dp"
  shows "threads_ok delay (restart_process i dp)"
proof -
  have other: "vouched (restart_process i dp) j k t g = vouched dp j k t g" if "j \<noteq> i" for j k t g
    by (rule vouched_same) (simp_all add: restart_process_def that)
  then show ?thesis using assms by (simp add: threads_ok_def) (auto simp: restart_process_def entry_cleared)
qed

lemma tick_ok:
  assumes "threads_ok delay dp" and "dp_now dp \<le> t" and "list_all (\<lambda>r. t - rd_asked r \<le> delay) (dp_readings dp)"
  shows "threads_ok delay (dp\<lparr>dp_now := t\<rparr>)"
proof -
  have "vouched (dp\<lparr>dp_now := t\<rparr>) i k s g = vouched dp i k s g" for i k s g by (rule vouched_same) simp_all
  then show ?thesis using assms by (fastforce simp: threads_ok_def list_all_iff)
qed

lemma deployed_ok: "deployed delay dp \<Longrightarrow> 0 \<le> delay \<Longrightarrow> threads_ok delay dp"
proof (induction rule: deployed.induct)
  case (deployed_step dp dp')
  from deployed_step.hyps(2) deployed_step.IH [OF deployed_step.prems] show ?case
    by (cases rule: deployment_step.cases) (auto intro: ask_ok stamp_ok commit_ok drop_ok restart_ok tick_ok)
qed (rule threads_ok_started)

text \<open>
  C9: a check may answer from the past, but not for long. Whatever threads and processes do beside it, an answer is what the tables
  granted at some moment of the last thirty seconds and the time one question to them takes; and unless a question of the same process was
  under way when it last dropped its cache, that moment lies after it did, so a process never forgets a change it has made.
\<close>

theorem checks_are_recent:
  assumes "deployed delay dp" and "0 \<le> delay" and "answers dp i k g"
  shows "list_ex (\<lambda>d. g = truth_of k d \<and> (d \<in> set (dp_own dp i) \<or> dp_overtaken dp i)) (tables_since (dp_now dp - (CACHE_TTL + delay)) (dp_past dp))"
proof -
  have ok: "threads_ok delay dp" by (rule deployed_ok [OF assms(1,2)])
  have "vouched dp i k (dp_now dp - (CACHE_TTL + delay)) g"
  proof (cases "cached k (dp_now dp) (dp_process dp i) = Some g")
    case True
    then obtain t where t: "entry_of k (dp_process dp i) = Some (service_version (dp_process dp i), t, g)" "dp_now dp - t \<le> CACHE_TTL"
      unfolding cached_def using user.fresh_entry by blast
    then have "vouched dp i k (t - delay) g" using ok by (auto simp: threads_ok_def)
    then show ?thesis by (rule vouched_mono) (use t(2) in linarith)
  next
    case False
    then obtain r where r: "r \<in> set (dp_readings dp)" "rd_process r = i" "rd_key r = k" "rd_grants r = g"
      using assms(3) by (auto simp: answers_def list_ex_iff)
    then have "vouched dp i k (rd_asked r) g" "dp_now dp - rd_asked r \<le> delay" using ok by (auto simp: threads_ok_def)
    moreover from this(2) have "dp_now dp - (CACHE_TTL + delay) \<le> rd_asked r" by (simp add: CACHE_TTL_def)
    ultimately show ?thesis using vouched_mono by blast
  qed
  then show ?thesis by (simp add: vouched_def list_ex_iff Bex_def)
qed

text \<open>
  The exception is real: a question asked before a change and stamped after the cache was dropped carries the new version, and
  for thirty seconds the process that made the change answers as if it had not.
\<close>

lemma overtaken_question_survives:
  assumes "deployed delay dp" and "cached k (dp_now dp) (dp_process dp i) = None" and "d = db (apply_op (a\<lparr>db := dp_tables dp\<rparr>) oper)"
  shows "\<exists>dp'. deployed delay dp' \<and> dp_tables dp' = d \<and> dp_own dp' i = [d] \<and> dp_now dp' = dp_now dp
    \<and> cached k (dp_now dp) (dp_process dp' i) = Some (truth_of k (dp_tables dp))"
proof -
  let ?r = "\<lparr>rd_process = i, rd_key = k, rd_grants = truth_of k (dp_tables dp), rd_asked = dp_now dp\<rparr>"
  let ?asked = "ask_tables i k dp"
  let ?dropped = "drop_cache i (commit_tables d ?asked)"
  have "deployed delay ?asked" by (rule deployed.deployed_step [OF assms(1) check_misses [OF assms(2)]])
  then have "deployed delay (commit_tables d ?asked)"
    by (rule deployed.deployed_step [OF _ change_commits [where a = a and oper = oper]]) (simp add: assms(3) ask_tables_def)
  then have "deployed delay ?dropped" by (rule deployed.deployed_step [OF _ change_invalidates])
  then have "deployed delay (stamp ?r ?dropped)"
    by (rule deployed.deployed_step [OF _ check_stamps]) (simp add: drop_cache_def commit_tables_def ask_tables_def)
  moreover have "dp_tables (stamp ?r ?dropped) = d" "dp_own (stamp ?r ?dropped) i = [d]" "dp_now (stamp ?r ?dropped) = dp_now dp"
    by (simp_all add: stamp_def drop_cache_def commit_tables_def ask_tables_def)
  moreover have "dp_process (stamp ?r ?dropped) i = remember k (dp_now dp) (truth_of k (dp_tables dp)) (dp_process ?dropped i)"
    by (simp add: stamp_def drop_cache_def commit_tables_def ask_tables_def)
  then have "cached k (dp_now dp) (dp_process (stamp ?r ?dropped) i) = Some (truth_of k (dp_tables dp))"
    by (simp only: cached_def entry_remember) (simp add: CACHE_TTL_def)
  ultimately show ?thesis by blast
qed

text \<open>A check right after the start, in a deployment whose anonymous visitors may read.\<close>

theorem checks_are_recent_witness:
  "list_ex (\<lambda>d. truth_of AnonymousKey d = {''doc:read''})
     (tables_since (- 30000001) (dp_past (ask_tables 3 AnonymousKey (started 0 (db seeded)))))"
proof -
  let ?dp = "ask_tables 3 AnonymousKey (started 0 (db seeded))"
  have "cached AnonymousKey (dp_now (started 0 (db seeded))) (dp_process (started 0 (db seeded)) 3) = None"
    by (simp add: cached_def started_def entry_cleared)
  then have dep: "deployed 1 ?dp" by (rule deployed.deployed_step [OF deployed_start check_misses])
  have ans: "answers ?dp 3 AnonymousKey (anonymous_codes (db seeded))" by (simp add: answers_def ask_tables_def started_def)
  have codes: "anonymous_codes (db seeded) = {''doc:read''}" by code_simp
  have now: "dp_now ?dp - (CACHE_TTL + 1) = - 30000001" by (simp add: ask_tables_def started_def CACHE_TTL_def)
  have "list_ex (\<lambda>d. anonymous_codes (db seeded) = truth_of AnonymousKey d \<and> (d \<in> set (dp_own ?dp 3) \<or> dp_overtaken ?dp 3))
      (tables_since (dp_now ?dp - (CACHE_TTL + 1)) (dp_past ?dp))"
    by (rule checks_are_recent [OF dep _ ans]) simp
  then show ?thesis unfolding now codes list_ex_iff by metis
qed

end
