(* ===== verification/Gates.thy ===== *)
theory Gates
  imports StdText
begin

section \<open>Quality gates\<close>

text \<open>
  \<open>backend/services/gates.py\<close>: check commands and suites, the three outcomes, running a suite and
  counting its results. Parameters: the executor (one run of a command, which may raise), \<open>sha256\<close>, and
  \<open>py_repr\<close>, Python's \<open>repr\<close> of the normalized suite. Times are microseconds. The reasons a summary or a suite carries
  for its reader are Chinese sentences that nothing decides on; they are not kept. The ellipsis of the truncation
  marker is three full stops.
\<close>

definition DEFAULT_GATE_TIMEOUT :: timestamp where "DEFAULT_GATE_TIMEOUT = seconds 120"
definition STDOUT_TAIL_LIMIT :: nat where "STDOUT_TAIL_LIMIT = 4096"
definition TRUNCATION_MARKER :: string where "TRUNCATION_MARKER = ''...[output truncated]'' @ [CHR 0x0A]"
definition TIMEOUT_EXIT_CODE :: int where "TIMEOUT_EXIT_CODE = 124"

definition PASSED :: string where "PASSED = ''passed''"
definition FAILED :: string where "FAILED = ''failed''"
definition UNVERIFIED :: string where "UNVERIFIED = ''unverified''"
definition GATE_STATUSES :: "string list" where "GATE_STATUSES = [PASSED, FAILED, UNVERIFIED]"

definition SOURCE_AGENT_CHECKS :: string where "SOURCE_AGENT_CHECKS = ''agent-checks''"
definition SOURCE_POLICY :: string where "SOURCE_POLICY = ''policy''"
definition SOURCE_DISCOVERY :: string where "SOURCE_DISCOVERY = ''discovery''"
definition SOURCE_EXPLICIT :: string where "SOURCE_EXPLICIT = ''explicit''"
definition SOURCE_UNVERIFIED :: string where "SOURCE_UNVERIFIED = ''unverified''"
definition SUITE_SOURCES :: "string list" where
  "SUITE_SOURCES = [SOURCE_AGENT_CHECKS, SOURCE_POLICY, SOURCE_DISCOVERY, SOURCE_EXPLICIT, SOURCE_UNVERIFIED]"

definition VALIDATED :: string where "VALIDATED = ''validated''"
definition UNVALIDATED :: string where "UNVALIDATED = ''unvalidated''"
definition VALIDATIONS :: "string list" where "VALIDATIONS = [VALIDATED, UNVALIDATED]"

subsection \<open>Results and summaries\<close>

text \<open>The models validate themselves when built; \<open>None\<close> is a validation error.\<close>

record gate_result =
  gate :: string
  passed :: bool
  status :: string
  exit_code :: int
  stdout_tail :: string
  duration_ms :: int
  timed_out :: bool

definition sync_status :: "gate_result \<Rightarrow> gate_result option" where
  "sync_status g =
     (if status g \<notin> set GATE_STATUSES then None
      else if status g = UNVERIFIED then Some (g\<lparr>passed := False\<rparr>)
      else if \<not> passed g then Some (g\<lparr>status := FAILED\<rparr>)
      else Some g)"

record gate_summary =
  gates :: "gate_result list"
  total :: nat
  n_passed :: nat
  n_failed :: nat
  n_unverified :: nat
  sum_duration :: int
  state :: string
  suite_source :: string
  suite_hash :: string

definition sync_state :: "gate_summary \<Rightarrow> gate_summary option" where
  "sync_state s =
     (if state s \<noteq> [] \<and> state s \<notin> set GATE_STATUSES then None
      else if state s = [] then
        Some (s\<lparr>state := (if n_failed s \<noteq> 0 then FAILED
                         else if n_unverified s \<noteq> 0 \<and> n_passed s = 0 then UNVERIFIED else PASSED)\<rparr>)
      else Some s)"

definition summary_ok :: "gate_summary \<Rightarrow> bool" where
  "summary_ok s \<longleftrightarrow> state s = PASSED \<and> n_failed s = 0"

definition verified :: "gate_summary \<Rightarrow> bool" where
  "verified s \<longleftrightarrow> state s \<noteq> UNVERIFIED"

subsection \<open>Commands and suites\<close>

record check_command =
  cmd_id :: string
  cmd_argv :: "string list"
  cmd_cwd :: string
  cmd_timeout :: "timestamp option"
  cmd_validation :: string
  cmd_source :: string

definition command_valid :: "check_command \<Rightarrow> bool" where
  "command_valid c \<longleftrightarrow> py_strip (cmd_id c) \<noteq> [] \<and> cmd_argv c \<noteq> [] \<and> py_strip (hd (cmd_argv c)) \<noteq> []
     \<and> cmd_validation c \<in> set VALIDATIONS"

definition gating :: "check_command \<Rightarrow> bool" where
  "gating c \<longleftrightarrow> cmd_validation c = VALIDATED"

record check_suite =
  suite_checks :: "check_command list"
  source_of :: string

fun repeated :: "string set \<Rightarrow> string list \<Rightarrow> bool" where
  "repeated ids [] = False"
| "repeated ids (i # is) = (if i \<in> ids then True else repeated (insert i ids) is)"

definition suite_valid :: "check_suite \<Rightarrow> bool" where
  "suite_valid s \<longleftrightarrow> source_of s \<in> set SUITE_SOURCES \<and> \<not> repeated {} (map cmd_id (suite_checks s))"

definition gating_checks :: "check_suite \<Rightarrow> check_command list" where
  "gating_checks s = filter gating (suite_checks s)"

definition reporting_checks :: "check_suite \<Rightarrow> check_command list" where
  "reporting_checks s = filter (\<lambda>c. \<not> gating c) (suite_checks s)"

definition resolved :: "check_suite \<Rightarrow> bool" where
  "resolved s \<longleftrightarrow> gating_checks s \<noteq> []"

type_synonym normalized_check = "string \<times> string list \<times> string \<times> timestamp option \<times> string"

definition suite_fingerprint :: "(string \<Rightarrow> string) \<Rightarrow> (normalized_check list \<Rightarrow> string) \<Rightarrow> check_suite \<Rightarrow> string" where
  "suite_fingerprint sha256 py_repr s =
     sha256 (source_of s @ '':'' @ py_repr
       (map (\<lambda>c. (cmd_id c, cmd_argv c, cmd_cwd c, cmd_timeout c, cmd_validation c)) (suite_checks s)))"

subsection \<open>Executing\<close>

record exec_outcome =
  out_code :: int
  out_text :: string
  out_timed_out :: bool
  out_ms :: int

datatype exec_result = Outcome exec_outcome | ExecRaised string

type_synonym executor = "check_command \<Rightarrow> timestamp \<Rightarrow> exec_result"

text \<open>
  \<open>SubprocessGateExecutor.run_command\<close> over one spawn of a process: it ends, is killed at the timeout, cannot be
  started, or its sandbox identity is unusable. \<open>show_secs\<close> prints a timeout with \<open>:g\<close>.
\<close>

datatype spawn_result = Exited int string string | Killed string string | SpawnError string | IdentityError string

definition subprocess_run :: "(timestamp \<Rightarrow> string) \<Rightarrow> (check_command \<Rightarrow> timestamp \<Rightarrow> spawn_result \<times> int) \<Rightarrow> executor" where
  "subprocess_run show_secs spawn c timeout =
     (let (r, ms) = spawn c timeout in
      Outcome (case r of
        Exited code out err \<Rightarrow> \<lparr>out_code = code, out_text = out @ err, out_timed_out = False, out_ms = ms\<rparr>
      | Killed out err \<Rightarrow> \<lparr>out_code = TIMEOUT_EXIT_CODE,
          out_text = out @ err @ [CHR 0x0A] @ ''[timeout] check '' @ cmd_id c @ '' exceeded '' @ show_secs timeout
            @ ''s and was killed'' @ [CHR 0x0A], out_timed_out = True, out_ms = ms\<rparr>
      | SpawnError exc \<Rightarrow> \<lparr>out_code = 127, out_text = ''[error] cannot execute check '' @ cmd_id c @ '' (''
            @ hd (cmd_argv c) @ ''): '' @ exc @ [CHR 0x0A], out_timed_out = False, out_ms = ms\<rparr>
      | IdentityError exc \<Rightarrow> \<lparr>out_code = 127, out_text = ''[error] sandbox identity unusable for check '' @ cmd_id c
            @ '': '' @ exc @ [CHR 0x0A], out_timed_out = False, out_ms = ms\<rparr>))"

definition tail :: "nat \<Rightarrow> string \<Rightarrow> string" where
  "tail limit body = (if length body \<le> limit then body else TRUNCATION_MARKER @ drop (length body - limit) body)"

definition unverified_summary :: "string \<Rightarrow> string \<Rightarrow> gate_summary" where
  "unverified_summary reason source =
     \<lparr>gates = [\<lparr>gate = ''suite:'' @ source, passed = False, status = UNVERIFIED, exit_code = -1, stdout_tail = reason,
        duration_ms = 0, timed_out = False\<rparr>],
      total = 1, n_passed = 0, n_failed = 0, n_unverified = 1, sum_duration = 0, state = UNVERIFIED,
      suite_source = source, suite_hash = []\<rparr>"

definition summarize :: "gate_result list \<Rightarrow> gate_summary" where
  "summarize items =
     (let p = count_where (\<lambda>g. status g = PASSED) items;
          f = count_where (\<lambda>g. status g = FAILED) items;
          u = count_where (\<lambda>g. status g = UNVERIFIED) items
      in \<lparr>gates = items, total = length items, n_passed = p, n_failed = f, n_unverified = u,
          sum_duration = sum_list (map duration_ms items),
          state = (if f \<noteq> 0 then FAILED else if p \<noteq> 0 then PASSED else UNVERIFIED),
          suite_source = [], suite_hash = []\<rparr>)"

text \<open>One check of a suite: a crash of the executor is an outcome of its own; a check that may not gate only reports.\<close>

definition run_check :: "executor \<Rightarrow> timestamp \<Rightarrow> check_command \<Rightarrow> gate_result" where
  "run_check exec timeout c =
     (let budget = (case cmd_timeout c of None \<Rightarrow> timeout | Some t \<Rightarrow> if t = 0 then timeout else t);
          outcome = (case exec c budget of
              Outcome r \<Rightarrow> r
            | ExecRaised exc \<Rightarrow> \<lparr>out_code = 1, out_text = ''[error] executor crashed: '' @ exc @ [CHR 0x0A],
                out_timed_out = False, out_ms = 0\<rparr>);
          good = (out_code outcome = 0 \<and> \<not> out_timed_out outcome);
          st = (if \<not> gating c then UNVERIFIED else if good then PASSED else FAILED)
      in \<lparr>gate = cmd_id c, passed = (good \<and> st \<noteq> UNVERIFIED), status = st, exit_code = out_code outcome,
          stdout_tail = tail STDOUT_TAIL_LIMIT (out_text outcome), duration_ms = out_ms outcome,
          timed_out = out_timed_out outcome\<rparr>)"

definition run_suite :: "(string \<Rightarrow> string) \<Rightarrow> (normalized_check list \<Rightarrow> string) \<Rightarrow> executor \<Rightarrow> timestamp \<Rightarrow> string
    \<Rightarrow> check_suite \<Rightarrow> gate_summary" where
  "run_suite sha256 py_repr exec timeout reason suite =
     (if suite_checks suite = [] then unverified_summary reason (source_of suite)
      else let s = summarize (map (run_check exec timeout) (suite_checks suite));
               s = s\<lparr>suite_source := source_of suite, suite_hash := suite_fingerprint sha256 py_repr suite\<rparr>
           in if resolved suite then s else s\<lparr>state := UNVERIFIED\<rparr>)"

subsection \<open>What a verdict means\<close>

lemma gate_status_names [simp]:
  "PASSED \<noteq> FAILED" "PASSED \<noteq> UNVERIFIED" "FAILED \<noteq> PASSED" "FAILED \<noteq> UNVERIFIED" "UNVERIFIED \<noteq> PASSED" "UNVERIFIED \<noteq> FAILED"
  by (simp_all add: PASSED_def FAILED_def UNVERIFIED_def)

text \<open>A check that ran, in its budget, ended with exit code 0.\<close>

definition succeeds :: "executor \<Rightarrow> timestamp \<Rightarrow> check_command \<Rightarrow> bool" where
  "succeeds exec timeout c \<longleftrightarrow>
     (\<exists>r. exec c (case cmd_timeout c of None \<Rightarrow> timeout | Some t \<Rightarrow> if t = 0 then timeout else t) = Outcome r
        \<and> out_code r = 0 \<and> \<not> out_timed_out r)"

lemma run_check_status:
  "status (run_check exec timeout c) = (if \<not> gating c then UNVERIFIED else if succeeds exec timeout c then PASSED else FAILED)"
  by (auto simp: run_check_def succeeds_def Let_def split: exec_result.splits)

lemma run_check_consistent: "sync_status (run_check exec timeout c) = Some (run_check exec timeout c)"
  by (simp add: sync_status_def run_check_def Let_def GATE_STATUSES_def)

lemma count_where_map: "count_where P (map f xs) = count_where (\<lambda>x. P (f x)) xs"
  by (induction xs) auto

lemma run_suite_state:
  "state (run_suite sha256 py_repr exec timeout reason suite) =
     (if \<not> resolved suite then UNVERIFIED
      else if list_all (succeeds exec timeout) (gating_checks suite) then PASSED else FAILED)"
proof (cases "resolved suite")
  case False
  then show ?thesis by (simp add: run_suite_def unverified_summary_def Let_def)
next
  case True
  let ?rs = "map (run_check exec timeout) (suite_checks suite)"
  have ne: "suite_checks suite \<noteq> []" and some: "\<exists>c \<in> set (suite_checks suite). gating c"
    using True by (auto simp: resolved_def gating_checks_def filter_empty_conv)
  have failed: "count_where (\<lambda>g. status g = FAILED) ?rs = 0 \<longleftrightarrow> list_all (succeeds exec timeout) (gating_checks suite)"
    unfolding count_where_map count_where_zero run_check_status gating_checks_def list_all_iff by auto
  have "count_where (\<lambda>g. status g = PASSED) ?rs \<noteq> 0" if "list_all (succeeds exec timeout) (gating_checks suite)"
    using some that unfolding count_where_map count_where_zero run_check_status gating_checks_def list_all_iff by auto
  then show ?thesis using True ne failed by (auto simp: run_suite_def Let_def summarize_def)
qed

text \<open>
  The verdict of a suite, for any executor. It is passed exactly when some check may gate and every
  check that may gate ran within its budget and succeeded; it is unverified exactly when no check may gate; a check that
  only reports never changes it, and a crash of the executor counts as a failure. The suite's fingerprint is on the
  summary unless it was empty, and there is one result for each check, in order.
\<close>

theorem run_suite_verdict:
  "let s = run_suite sha256 py_repr exec timeout reason suite in
    (state s = PASSED \<longleftrightarrow> (\<exists>c \<in> set (suite_checks suite). gating c) \<and>
             set (filter gating (suite_checks suite)) \<subseteq> {c. succeeds exec timeout c})
    \<and> (state s = UNVERIFIED \<longleftrightarrow> filter gating (suite_checks suite) = [])
    \<and> (map gate (gates s), suite_hash s) =
        (if suite_checks suite = [] then ([''suite:'' @ source_of suite], [])
         else (map cmd_id (suite_checks suite), suite_fingerprint sha256 py_repr suite))"
proof -
  let ?s = "run_suite sha256 py_repr exec timeout reason suite"
  have "map gate (map (run_check exec timeout) cs) = map cmd_id cs" for cs
    by (simp add: run_check_def Let_def comp_def)
  then have third: "(map gate (gates ?s), suite_hash ?s) =
        (if suite_checks suite = [] then ([''suite:'' @ source_of suite], [])
         else (map cmd_id (suite_checks suite), suite_fingerprint sha256 py_repr suite))"
    by (simp add: run_suite_def unverified_summary_def summarize_def Let_def del: map_map)
  then show ?thesis
    unfolding Let_def run_suite_state by (auto simp: resolved_def gating_checks_def list_all_iff filter_empty_conv)
qed

end
