(* ===== verification/CheckSuite.thy ===== *)
theory CheckSuite
  imports Gates
begin

section \<open>The check suites of a repository and their guards\<close>

text \<open>
  \<open>backend/services/check_suite.py\<close>: how the two suites are resolved and frozen, and which paths a fix or a curator run may
  not write. Arguments: the names of the regular files of \<open>.agent/checks\<close> (\<open>None\<close> when there is no such
  directory), \<open>manifest\<close> (reading and validating a manifest file, \<open>None\<close> when it is broken), \<open>to_float\<close> (\<open>float\<close> of a JSON
  value) and the suite that discovery found. \<open>None\<close> as a result is the validation error of a suite or a command.
\<close>

definition CHECK_DIR_RELPATH :: string where "CHECK_DIR_RELPATH = ''.agent/checks''"
definition CHECK_MANIFEST_NAMES :: "string list" where "CHECK_MANIFEST_NAMES = [''checks.yml'', ''checks.yaml'']"
definition CHECK_SCRIPT_GLOB :: string where "CHECK_SCRIPT_GLOB = ''check_*.py''"
definition FIX_PROTECTED_PREFIXES :: "string list" where "FIX_PROTECTED_PREFIXES = [CHECK_DIR_RELPATH]"
definition FIX_PROTECTED_PATHS :: "string list" where "FIX_PROTECTED_PATHS = [''.agent/review-policy.yml'']"

definition SUITE_DECLARATION_NAMES :: "string list" where
  "SUITE_DECLARATION_NAMES =
     [''Makefile'', ''makefile'', ''GNUmakefile'',
      ''package.json'', ''package-lock.json'', ''pnpm-lock.yaml'', ''yarn.lock'',
      ''pyproject.toml'', ''setup.cfg'', ''setup.py'', ''tox.ini'', ''pytest.ini'',
      ''conftest.py'', ''noxfile.py'',
      ''Cargo.toml'', ''Cargo.lock'', ''go.mod'', ''go.sum'',
      ''pom.xml'', ''build.gradle'', ''build.gradle.kts'', ''settings.gradle'',
      ''tsconfig.json'', ''jest.config.js'', ''jest.config.ts'',
      ''vitest.config.js'', ''vitest.config.ts'', ''vite.config.js'', ''vite.config.ts'',
      ''.mocharc.yml'', ''.mocharc.json'']"

definition SCRIPT_SUFFIXES :: "string list" where
  "SCRIPT_SUFFIXES = [''.py'', ''.sh'', ''.bash'', ''.js'', ''.mjs'', ''.cjs'', ''.ts'', ''.rb'', ''.pl'', ''.ps1'']"

definition LOCK_UNSAFE_DECLARATIONS :: "string list" where
  "LOCK_UNSAFE_DECLARATIONS = [''package-lock.json'', ''pnpm-lock.yaml'', ''yarn.lock'', ''Cargo.lock'', ''go.sum'']"

subsection \<open>Resolving\<close>

record manifest_check =
  mc_id :: string
  mc_command :: string
  mc_cwd :: string
  mc_timeout :: "timestamp option"
  mc_validated :: bool

definition make_suite :: "check_command list \<Rightarrow> string \<Rightarrow> check_suite option" where
  "make_suite cs source =
     (let s = \<lparr>suite_checks = cs, source_of = source\<rparr>
      in if list_all command_valid cs \<and> suite_valid s then Some s else None)"

definition manifest_command :: "manifest_check \<Rightarrow> check_command" where
  "manifest_command e = \<lparr>cmd_id = mc_id e, cmd_argv = py_words (mc_command e), cmd_cwd = mc_cwd e,
     cmd_timeout = mc_timeout e, cmd_validation = (if mc_validated e then VALIDATED else UNVALIDATED),
     cmd_source = SOURCE_AGENT_CHECKS\<rparr>"

definition load_manifest :: "manifest_check list option \<Rightarrow> check_suite option" where
  "load_manifest parsed =
     (case parsed of
        None \<Rightarrow> make_suite [] SOURCE_AGENT_CHECKS
      | Some entries \<Rightarrow>
          make_suite (map manifest_command (filter (\<lambda>e. py_words (mc_command e) \<noteq> []) entries)) SOURCE_AGENT_CHECKS)"

definition stem :: "string \<Rightarrow> string" where
  "stem name = (let r = rev (tl (dropWhile (\<lambda>c. c \<noteq> CHR ''.'') (rev name))) in if r = [] then name else r)"

definition script_command :: "string \<Rightarrow> check_command" where
  "script_command name = \<lparr>cmd_id = stem name, cmd_argv = [''python'', CHECK_DIR_RELPATH @ ''/'' @ name],
     cmd_cwd = ''.'', cmd_timeout = None, cmd_validation = UNVALIDATED, cmd_source = SOURCE_AGENT_CHECKS\<rparr>"

definition load_agent_checks :: "(string \<Rightarrow> manifest_check list option) \<Rightarrow> string list option \<Rightarrow> check_suite option" where
  "load_agent_checks manifest files =
     (case files of
        None \<Rightarrow> make_suite [] SOURCE_AGENT_CHECKS
      | Some names \<Rightarrow>
          (case find (\<lambda>n. n \<in> set names) CHECK_MANIFEST_NAMES of
             Some n \<Rightarrow> load_manifest (manifest n)
           | None \<Rightarrow> make_suite (map script_command (sort (filter (\<lambda>n. fnmatch n CHECK_SCRIPT_GLOB) names)))
                       SOURCE_AGENT_CHECKS))"

text \<open>\<open>policy_checks\<close>: the entries are JSON values; the index of the loop names an entry without an id.\<close>

definition policy_command :: "(json \<Rightarrow> string) \<Rightarrow> (json \<Rightarrow> timestamp option) \<Rightarrow> nat \<Rightarrow> json \<Rightarrow> check_command option" where
  "policy_command cs to_float index entry =
     (case entry of
        JObj kvs \<Rightarrow>
          (let text = (\<lambda>k d. if truthy (jget kvs k) then py_str cs (jget kvs k) else d);
               argv = py_words (py_strip (text ''command'' []))
           in if argv = [] then None
              else Some \<lparr>cmd_id = py_strip (text ''id'' (''policy:'' @ str_of_nat index)), cmd_argv = argv,
                cmd_cwd = text ''cwd'' ''.'',
                cmd_timeout = (if jget kvs ''timeout'' = JNull then None else to_float (jget kvs ''timeout'')),
                cmd_validation = VALIDATED, cmd_source = SOURCE_POLICY\<rparr>)
      | _ \<Rightarrow> None)"

definition policy_checks :: "(json \<Rightarrow> string) \<Rightarrow> (json \<Rightarrow> timestamp option) \<Rightarrow> json list \<Rightarrow> check_suite option" where
  "policy_checks cs to_float entries =
     make_suite (List.map_filter (\<lambda>(i, e). policy_command cs to_float i e) (enumerate 0 entries)) SOURCE_POLICY"

definition resolve_user_suite :: "check_suite option \<Rightarrow> check_suite \<Rightarrow> check_suite option" where
  "resolve_user_suite from_policy discovered =
     (case from_policy of
        None \<Rightarrow> None
      | Some p \<Rightarrow> if suite_checks p \<noteq> [] then Some p
                  else if suite_checks discovered \<noteq> [] then Some discovered
                  else make_suite [] SOURCE_UNVERIFIED)"

record suite_pair =
  user_suite :: check_suite
  ai_suite :: check_suite

definition resolve_suites :: "check_suite option \<Rightarrow> check_suite option \<Rightarrow> check_suite \<Rightarrow> suite_pair option" where
  "resolve_suites agent from_policy discovered =
     (case (resolve_user_suite from_policy discovered, agent) of
        (Some u, Some a) \<Rightarrow> Some \<lparr>user_suite = u, ai_suite = a\<rparr> | _ \<Rightarrow> None)"

definition resolve_suite :: "check_suite option \<Rightarrow> check_suite option \<Rightarrow> check_suite \<Rightarrow> check_suite option" where
  "resolve_suite agent from_policy discovered =
     (case agent of
        None \<Rightarrow> None
      | Some a \<Rightarrow> if suite_checks a \<noteq> [] then Some a
          else (case resolve_user_suite from_policy discovered of
                  None \<Rightarrow> None
                | Some u \<Rightarrow> if suite_checks u \<noteq> [] then Some u else make_suite [] SOURCE_UNVERIFIED))"

record frozen_suite =
  frozen :: check_suite
  fingerprint_of :: string
  base_sha :: string

definition freeze_suite :: "(string \<Rightarrow> string) \<Rightarrow> (normalized_check list \<Rightarrow> string) \<Rightarrow> check_suite \<Rightarrow> string option \<Rightarrow> frozen_suite" where
  "freeze_suite sha256 py_repr s base =
     \<lparr>frozen = s, fingerprint_of = suite_fingerprint sha256 py_repr s, base_sha = opt_str base\<rparr>"

subsection \<open>Path guards\<close>

fun strip_dot_slash :: "string \<Rightarrow> string" where
  "strip_dot_slash (c # d # s) = (if c = CHR ''.'' \<and> d = CHR ''/'' then strip_dot_slash s else c # d # s)"
| "strip_dot_slash s = s"

definition normalize_repo_path :: "string \<Rightarrow> string" where
  "normalize_repo_path path = lstrip_char CHR ''/'' (strip_dot_slash (replace_char CHR 0x5C CHR ''/'' (py_strip path)))"

definition under :: "string \<Rightarrow> string \<Rightarrow> bool" where
  "under path prefix \<longleftrightarrow> path = prefix \<or> startswith path (rstrip_char CHR ''/'' prefix @ ''/'')"

definition base_name :: "string \<Rightarrow> string" where
  "base_name path = last (split_on CHR ''/'' path)"

text \<open>\<open>text.lstrip("./")\<close> takes away every leading full stop and slash.\<close>

definition lstrip_dots_slashes :: "string \<Rightarrow> string" where
  "lstrip_dots_slashes s = dropWhile (\<lambda>c. c = CHR ''.'' \<or> c = CHR ''/'') s"

definition script_of_part :: "string \<Rightarrow> string option" where
  "script_of_part part =
     (let text = normalize_repo_path part
      in if text = [] then None
         else if CHR ''/'' \<in> set text \<or> list_ex (endswith (base_name text)) SCRIPT_SUFFIXES
         then Some (lstrip_dots_slashes text) else None)"

definition suite_script_paths :: "check_suite \<Rightarrow> string list" where
  "suite_script_paths suite =
     concat (map (\<lambda>c. List.map_filter script_of_part (cmd_argv c)) (suite_checks suite))"

text \<open>\<open>suite_protected_paths\<close>; \<open>is_file\<close> says which paths exist under the root, if there is one.\<close>

definition suite_protected_paths :: "(string \<Rightarrow> bool) option \<Rightarrow> check_suite \<Rightarrow> string list" where
  "suite_protected_paths is_file suite =
     (case is_file of
        None \<Rightarrow> remdups (sort (suite_script_paths suite))
      | Some f \<Rightarrow> remdups (sort (filter f (suite_script_paths suite
          @ filter f (filter (\<lambda>n. n \<notin> set LOCK_UNSAFE_DECLARATIONS) SUITE_DECLARATION_NAMES)))))"

definition TEST_PATTERNS :: "string list" where
  "TEST_PATTERNS = [''test_*.py'', ''*_test.py'', ''*.test.js'', ''*.test.ts'', ''*.test.tsx'', ''*.test.jsx'',
     ''*.spec.js'', ''*.spec.ts'', ''*.spec.tsx'', ''*.spec.jsx'', ''*_test.go'', ''*_test.rs'']"

definition TEST_DIRS :: "string list" where "TEST_DIRS = [''tests'', ''test'']"

definition is_test_path :: "string \<Rightarrow> bool" where
  "is_test_path path =
     (let normalized = normalize_repo_path path
      in if list_ex (fnmatch (base_name normalized)) TEST_PATTERNS then True
         else list_ex (\<lambda>segment. segment \<in> set TEST_DIRS) (butlast (split_on CHR ''/'' normalized)))"

definition fix_violation :: "string list \<Rightarrow> string \<Rightarrow> bool" where
  "fix_violation executed normalized =
     (if normalized \<in> set FIX_PROTECTED_PATHS then True
      else if list_ex (under normalized) FIX_PROTECTED_PREFIXES then True
      else if is_test_path normalized then True
      else if normalized \<in> set executed then True
      else base_name normalized \<in> set SUITE_DECLARATION_NAMES)"

definition fix_guard_violations :: "string list \<Rightarrow> check_suite option \<Rightarrow> string list" where
  "fix_guard_violations paths suite =
     (let executed = (case suite of None \<Rightarrow> [] | Some s \<Rightarrow> suite_script_paths s)
      in filter (fix_violation executed) (map normalize_repo_path paths))"

definition curator_guard_violations :: "string list \<Rightarrow> string list" where
  "curator_guard_violations paths =
     filter (\<lambda>n. \<not> (under n CHECK_DIR_RELPATH \<or> is_test_path n)) (map normalize_repo_path paths)"


subsection \<open>Which executed scripts the guard protects\<close>

lemma normalize_no_slash: "normalize_repo_path p \<noteq> [] \<Longrightarrow> hd (normalize_repo_path p) \<noteq> CHR ''/''"
  unfolding normalize_repo_path_def lstrip_char_def by (rule hd_dropWhile)

lemma lstrip_dots_hd: "lstrip_dots_slashes s \<noteq> [] \<Longrightarrow> hd (lstrip_dots_slashes s) \<noteq> CHR ''.''"
  using hd_dropWhile [of "\<lambda>c. c = CHR ''.'' \<or> c = CHR ''/''" s] by (simp add: lstrip_dots_slashes_def)

lemma lstrip_dots_id: "s = [] \<or> hd s \<noteq> CHR ''.'' \<and> hd s \<noteq> CHR ''/'' \<Longrightarrow> lstrip_dots_slashes s = s"
  by (cases s) (auto simp: lstrip_dots_slashes_def)

lemma suite_script_paths_iff:
  "t \<in> set (suite_script_paths s) \<longleftrightarrow> (\<exists>c \<in> set (suite_checks s). \<exists>part \<in> set (cmd_argv c). script_of_part part = Some t)"
  by (force simp: suite_script_paths_def List.map_filter_def)

lemma startswith_dot: "startswith s [CHR ''.''] \<longleftrightarrow> s \<noteq> [] \<and> hd s = CHR ''.''"
  by (cases s) (auto simp: startswith_def)

lemma executed_never_dotted: "t \<in> set (suite_script_paths s) \<Longrightarrow> \<not> startswith t ''.''"
  unfolding suite_script_paths_iff startswith_dot
  using lstrip_dots_hd by (auto simp: script_of_part_def Let_def split: if_splits)

text \<open>
  what freezing a suite protects. A script the suite executes, protected by nothing but being executed, is refused
  to a fix exactly when its path does not begin with a full stop: for a script in a hidden
  directory the stripped name that is compared is another one, so a fix may rewrite the check that judges it.
\<close>

theorem hidden_scripts_escape_the_guard:
  assumes "c \<in> set (suite_checks s)" and "part \<in> set (cmd_argv c)"
    and "CHR ''/'' \<in> set (normalize_repo_path part) \<or> list_ex (endswith (base_name (normalize_repo_path part))) SCRIPT_SUFFIXES"
    and "normalize_repo_path part \<noteq> []"
    and "\<not> fix_violation [] (normalize_repo_path part)"
  shows "fix_guard_violations [part] (Some s) =
    (if startswith (normalize_repo_path part) ''.'' then [] else [normalize_repo_path part])"
proof -
  let ?n = "normalize_repo_path part"
  have other: "fix_violation ex ?n \<longleftrightarrow> ?n \<in> set ex" for ex
    using assms(5) unfolding fix_violation_def by (simp split: if_splits)
  have "?n \<in> set (suite_script_paths s)" if "\<not> startswith ?n ''.''"
  proof -
    have "lstrip_dots_slashes ?n = ?n"
      using that normalize_no_slash [OF assms(4)] assms(4) by (intro lstrip_dots_id) (simp add: startswith_dot)
    then have "script_of_part part = Some ?n" using assms(3,4) by (auto simp: script_of_part_def Let_def)
    then show ?thesis using assms(1,2) unfolding suite_script_paths_iff by blast
  qed
  moreover have "?n \<notin> set (suite_script_paths s)" if "startswith ?n ''.''"
    using that executed_never_dotted by blast
  ultimately show ?thesis by (auto simp: fix_guard_violations_def other)
qed

abbreviation runs_script :: "string \<Rightarrow> check_suite" where
  "runs_script p \<equiv> \<lparr>suite_checks = [\<lparr>cmd_id = ''ci'', cmd_argv = [''sh'', p], cmd_cwd = ''.'', cmd_timeout = None,
     cmd_validation = VALIDATED, cmd_source = SOURCE_POLICY\<rparr>], source_of = SOURCE_POLICY\<rparr>"

theorem hidden_scripts_escape_the_guard_witness:
  "fix_guard_violations [''.ci/run.sh''] (Some (runs_script ''.ci/run.sh'')) = []
   \<and> fix_guard_violations [''ci/run.sh''] (Some (runs_script ''ci/run.sh'')) = [''ci/run.sh'']"
proof -
  have "normalize_repo_path ''.ci/run.sh'' = ''.ci/run.sh''" "\<not> fix_violation [] ''.ci/run.sh''"
    and "normalize_repo_path ''ci/run.sh'' = ''ci/run.sh''" "\<not> fix_violation [] ''ci/run.sh''"
    by code_simp+
  then show ?thesis
    using hidden_scripts_escape_the_guard [of _ "runs_script ''.ci/run.sh''" "''.ci/run.sh''"]
      hidden_scripts_escape_the_guard [of _ "runs_script ''ci/run.sh''" "''ci/run.sh''"]
    by (simp add: startswith_dot)
qed

end
