(* ===== verification/CheckValidation.thy ===== *)
theory CheckValidation
  imports CheckSuite Complex_Main
begin

section \<open>Falsifiability and the run history of checks\<close>

text \<open>
  \<open>backend/services/check_validation.py\<close>: applying a fault seed to a copy of a checkout, the verdict whether a check may
  gate, and the history of its runs. A checkout is a map from paths to the text of readable files. Arguments: the executor in a
  checkout, the copier (\<open>None\<close> is an \<open>OSError\<close>) and the seeders (\<open>None\<close> is an exception, which is swallowed). A rate is a
  rational number. The Chinese reason of a verdict is not kept.
\<close>

definition DEFAULT_MAX_SEEDS :: int where "DEFAULT_MAX_SEEDS = 6"
definition TEST_HINTS :: "string list" where
  "TEST_HINTS = [''test_'', ''_test.'', ''/tests/'', ''/test/'', ''.test.'', ''.spec.'']"

definition COMPARISONS :: "(string \<times> string) list" where
  "COMPARISONS = [(''=='', ''!=''), (''!='', ''==''), (''<='', ''>''), (''>='', ''<''), (''<'', ''>=''), (''>'', ''<='')]"

definition JS_COMPARISONS :: "(string \<times> string) list" where
  "JS_COMPARISONS = [(''==='', ''!==''), (''!=='', ''===''), (''=='', ''!=''), (''!='', ''==''), (''<='', ''>''), (''>='', ''<'')]"

subsection \<open>Seeds\<close>

type_synonym checkout = "string \<rightharpoonup> string"

record seed_edit =
  edit_path :: string
  edit_old :: string
  edit_new :: string

record fault_seed =
  seed_id :: string
  seed_language :: string
  seed_edits :: "seed_edit list"

text \<open>\<open>None\<close> when the text does not occur; otherwise its first occurrence is replaced.\<close>

fun replace_first :: "string \<Rightarrow> string \<Rightarrow> string \<Rightarrow> string option" where
  "replace_first old new [] = (if old = [] then Some new else None)"
| "replace_first old new (c # s) =
     (if startswith (c # s) old then Some (new @ drop (length old) (c # s))
      else map_option ((#) c) (replace_first old new s))"

definition is_hinted_test :: "string \<Rightarrow> bool" where
  "is_hinted_test path =
     (let lowered = py_lower (replace_char CHR 0x5C CHR ''/'' path)
      in list_ex (\<lambda>hint. replace_first hint [] lowered \<noteq> None) TEST_HINTS)"

fun flip_comparison_seed :: "checkout \<Rightarrow> string \<Rightarrow> (string \<times> string) list \<Rightarrow> string \<Rightarrow> fault_seed option" where
  "flip_comparison_seed repo rel [] language = None"
| "flip_comparison_seed repo rel ((old_op, new_op) # rest) language =
     (case repo rel of
        None \<Rightarrow> None
      | Some body \<Rightarrow>
          if replace_first old_op new_op body = None then flip_comparison_seed repo rel rest language
          else Some \<lparr>seed_id = rel @ '':flip-'' @ old_op, seed_language = language,
            seed_edits = [\<lparr>edit_path = rel, edit_old = old_op, edit_new = new_op\<rparr>]\<rparr>)"

fun apply_edits :: "checkout \<Rightarrow> seed_edit list \<Rightarrow> checkout option" where
  "apply_edits repo [] = Some repo"
| "apply_edits repo (e # es) =
     (case repo (edit_path e) of
        None \<Rightarrow> None
      | Some body \<Rightarrow>
          (case replace_first (edit_old e) (edit_new e) body of
             None \<Rightarrow> None
           | Some body' \<Rightarrow>
               if edit_old e = edit_new e then None else apply_edits (repo(edit_path e \<mapsto> body')) es))"

subsection \<open>The verdict\<close>

record check_verdict =
  v_check :: string
  v_status :: string
  baseline_passed :: bool
  faults_attempted :: nat
  faults_detected :: nat
  detected_by :: "string list"

definition v_validated :: "check_verdict \<Rightarrow> bool" where
  "v_validated v \<longleftrightarrow> v_status v = VALIDATED"

definition detection_rate :: "check_verdict \<Rightarrow> rat" where
  "detection_rate v = (if faults_attempted v = 0 then 0 else of_nat (faults_detected v) / of_nat (faults_attempted v))"

definition probe :: "check_command \<Rightarrow> check_command" where
  "probe c = c\<lparr>cmd_validation := VALIDATED\<rparr>"

definition probe_status :: "(string \<Rightarrow> string) \<Rightarrow> (normalized_check list \<Rightarrow> string) \<Rightarrow> (checkout \<Rightarrow> executor) \<Rightarrow> timestamp
    \<Rightarrow> check_command \<Rightarrow> checkout \<Rightarrow> string" where
  "probe_status sha256 py_repr exec timeout c repo =
     (case gates (run_suite sha256 py_repr (exec repo) timeout [] \<lparr>suite_checks = [probe c], source_of = SOURCE_EXPLICIT\<rparr>) of
        [] \<Rightarrow> UNVERIFIED | g # _ \<Rightarrow> status g)"

text \<open>The copy of the checkout with a seed applied, if the seed can be applied.\<close>

definition seeded :: "(checkout \<Rightarrow> checkout option) \<Rightarrow> checkout \<Rightarrow> fault_seed \<Rightarrow> checkout option" where
  "seeded copier repo seed = (case copier repo of None \<Rightarrow> None | Some t \<Rightarrow> apply_edits t (seed_edits seed))"

fun try_seeds :: "(checkout \<Rightarrow> string) \<Rightarrow> (fault_seed \<Rightarrow> checkout option) \<Rightarrow> fault_seed list \<Rightarrow> nat \<Rightarrow> nat \<times> string list" where
  "try_seeds st mk [] attempted = (attempted, [])"
| "try_seeds st mk (seed # seeds) attempted =
     (case mk seed of
        None \<Rightarrow> try_seeds st mk seeds attempted
      | Some t \<Rightarrow> if st t = FAILED then (attempted + 1, [seed_id seed]) else try_seeds st mk seeds (attempted + 1))"

definition all_seeds :: "(checkout \<Rightarrow> fault_seed list option) list \<Rightarrow> checkout \<Rightarrow> fault_seed list" where
  "all_seeds seeders repo = concat (map (\<lambda>seeder. case seeder repo of None \<Rightarrow> [] | Some seeds \<Rightarrow> seeds) seeders)"

definition validate_check :: "(string \<Rightarrow> string) \<Rightarrow> (normalized_check list \<Rightarrow> string) \<Rightarrow> (checkout \<Rightarrow> executor) \<Rightarrow> timestamp
    \<Rightarrow> (checkout \<Rightarrow> fault_seed list option) list \<Rightarrow> int \<Rightarrow> (checkout \<Rightarrow> checkout option) \<Rightarrow> checkout \<Rightarrow> check_command
    \<Rightarrow> check_verdict" where
  "validate_check sha256 py_repr exec timeout seeders max_seeds copier repo c =
     (let st = probe_status sha256 py_repr exec timeout c in
      if st repo \<noteq> PASSED
      then \<lparr>v_check = cmd_id c, v_status = UNVALIDATED, baseline_passed = False, faults_attempted = 0,
            faults_detected = 0, detected_by = []\<rparr>
      else let (attempted, detected) =
                 try_seeds st (seeded copier repo) (take (nat (max 0 max_seeds)) (all_seeds seeders repo)) 0
           in \<lparr>v_check = cmd_id c, v_status = (if detected \<noteq> [] then VALIDATED else UNVALIDATED), baseline_passed = True,
               faults_attempted = attempted, faults_detected = length detected, detected_by = detected\<rparr>)"

subsection \<open>The run history\<close>

record run_record =
  r_check :: string
  r_state :: string
  r_suite_hash :: string
  r_commit :: string
  r_exit :: "int option"
  r_duration :: int
  r_at :: timestamp
  r_validation :: string
  r_weakened :: bool

record history_summary =
  h_check :: string
  h_runs :: nat
  h_failures :: nat
  h_unverified :: nat
  h_validation :: string
  h_weakened :: bool

definition flake_rate :: "history_summary \<Rightarrow> rat" where
  "flake_rate h = (if h_runs h = 0 then 0 else of_nat (h_failures h) / of_nat (h_runs h))"

definition never_failed :: "history_summary \<Rightarrow> bool" where
  "never_failed h \<longleftrightarrow> h_runs h > 0 \<and> h_failures h = 0 \<and> h_unverified h = 0"

definition record_from_gate :: "gate_result \<Rightarrow> string \<Rightarrow> string \<Rightarrow> timestamp \<Rightarrow> string \<Rightarrow> run_record" where
  "record_from_gate g hash commit_sha now validation =
     \<lparr>r_check = gate g, r_state = status g, r_suite_hash = hash, r_commit = commit_sha, r_exit = Some (exit_code g),
      r_duration = duration_ms g, r_at = now, r_validation = validation, r_weakened = False\<rparr>"

text \<open>One turn of the loop over the records: the list of ids seen and the bucket of each.\<close>

definition fresh_bucket :: "run_record \<Rightarrow> history_summary" where
  "fresh_bucket r = \<lparr>h_check = r_check r, h_runs = 0, h_failures = 0, h_unverified = 0,
     h_validation = r_validation r, h_weakened = False\<rparr>"

definition count_run :: "run_record \<Rightarrow> history_summary \<Rightarrow> history_summary" where
  "count_run r b = b\<lparr>h_runs := h_runs b + 1,
     h_failures := (if r_state r = FAILED then h_failures b + 1 else h_failures b),
     h_unverified := (if r_state r = FAILED then h_unverified b
                      else if r_state r = UNVERIFIED then h_unverified b + 1 else h_unverified b),
     h_validation := r_validation r,
     h_weakened := (h_weakened b \<or> r_weakened r)\<rparr>"

definition add_run :: "run_record \<Rightarrow> string list \<times> (string \<rightharpoonup> history_summary) \<Rightarrow> string list \<times> (string \<rightharpoonup> history_summary)" where
  "add_run r acc =
     (let (order, buckets) = acc;
          order' = (if buckets (r_check r) = None then order @ [r_check r] else order);
          bucket = (case buckets (r_check r) of None \<Rightarrow> fresh_bucket r | Some b \<Rightarrow> b)
      in (order', buckets(r_check r \<mapsto> count_run r bucket)))"

definition summarize_history :: "run_record list \<Rightarrow> history_summary list" where
  "summarize_history records =
     (let (order, buckets) = fold add_run records ([], Map.empty) in map (\<lambda>i. the (buckets i)) order)"


subsection \<open>When a check may gate\<close>

lemma probe_status: "probe_status sha256 py_repr exec timeout c repo =
    (if succeeds (exec repo) timeout (probe c) then PASSED else FAILED)"
proof -
  have "gating (probe c)" by (simp add: gating_def probe_def)
  then show ?thesis
    by (simp add: probe_status_def run_suite_def Let_def summarize_def resolved_def gating_checks_def run_check_status)
qed

lemma try_seeds_attempted: "n \<le> fst (try_seeds st mk seeds n)"
proof (induction seeds arbitrary: n)
  case (Cons s seeds)
  have "n \<le> fst (try_seeds st mk seeds (n + 1))" using Cons [of "n + 1"] by simp
  then show ?case using Cons [of n] by (simp split: option.splits)
qed simp

lemma try_seeds_detected:
  "snd (try_seeds st mk seeds n) \<noteq> [] \<longleftrightarrow> (\<exists>seed \<in> set seeds. \<exists>t. mk seed = Some t \<and> st t = FAILED)"
  by (induction seeds arbitrary: n) (auto split: option.splits)

lemma try_seeds_one: "snd (try_seeds st mk seeds n) \<noteq> [] \<Longrightarrow>
    length (snd (try_seeds st mk seeds n)) = 1 \<and> n < fst (try_seeds st mk seeds n)"
proof (induction seeds arbitrary: n)
  case (Cons s seeds)
  show ?case
  proof (cases "mk s")
    case None
    then show ?thesis using Cons by simp
  next
    case (Some t)
    show ?thesis
    proof (cases "st t = FAILED")
      case False
      then have "length (snd (try_seeds st mk seeds (n + 1))) = 1 \<and> n + 1 < fst (try_seeds st mk seeds (n + 1))"
        using Cons.prems Some by (intro Cons.IH) simp
      then show ?thesis using Some False by simp
    qed (use Some in simp)
  qed
qed simp

text \<open>
  C15: a check earns the right to gate exactly when its command succeeds on the checkout as it is, and fails on the
  copy of one of the first \<open>max_seeds\<close> seeds that can be applied. What the check called itself before plays no part.
\<close>

theorem validated_iff_falsifiable:
  "v_validated (validate_check sha256 py_repr exec timeout seeders max_seeds copier repo c) \<longleftrightarrow>
     succeeds (exec repo) timeout (probe c) \<and>
     (\<exists>seed \<in> set (take (nat (max 0 max_seeds)) (all_seeds seeders repo)).
        \<exists>t. seeded copier repo seed = Some t \<and> \<not> succeeds (exec t) timeout (probe c))"
proof -
  have ne: "UNVALIDATED \<noteq> VALIDATED" by (simp add: UNVALIDATED_def VALIDATED_def)
  let ?r = "try_seeds (probe_status sha256 py_repr exec timeout c) (seeded copier repo)
    (take (nat (max 0 max_seeds)) (all_seeds seeders repo)) 0"
  have "snd ?r \<noteq> [] \<longleftrightarrow> (\<exists>seed \<in> set (take (nat (max 0 max_seeds)) (all_seeds seeders repo)).
        \<exists>t. seeded copier repo seed = Some t \<and> \<not> succeeds (exec t) timeout (probe c))"
    unfolding try_seeds_detected probe_status by (simp add: if_split_eq1)
  then show ?thesis
    by (simp add: validate_check_def Let_def v_validated_def probe_status case_prod_beta ne)
qed

text \<open>
  The loop stops at the first fault that is detected, so at most one is ever counted: the rate is the reciprocal of the
  number of faults tried, and 1 only when the first of them was detected.
\<close>

lemma detection_rate_reciprocal:
  assumes "v = validate_check sha256 py_repr exec timeout seeders max_seeds copier repo c"
  shows "detection_rate v = (if v_validated v then 1 / of_nat (faults_attempted v) else 0)"
    and "v_validated v \<Longrightarrow> faults_attempted v > 0"
proof -
  have ne: "UNVALIDATED \<noteq> VALIDATED" by (simp add: UNVALIDATED_def VALIDATED_def)
  let ?r = "try_seeds (probe_status sha256 py_repr exec timeout c) (seeded copier repo)
    (take (nat (max 0 max_seeds)) (all_seeds seeders repo)) 0"
  have one: "snd ?r \<noteq> [] \<Longrightarrow> length (snd ?r) = 1 \<and> 0 < fst ?r" by (rule try_seeds_one)
  show "detection_rate v = (if v_validated v then 1 / of_nat (faults_attempted v) else 0)"
    using one by (cases "snd ?r = []")
      (simp_all add: assms validate_check_def Let_def detection_rate_def v_validated_def case_prod_beta ne)
  show "v_validated v \<Longrightarrow> faults_attempted v > 0"
    using one by (cases "snd ?r = []")
      (simp_all add: assms validate_check_def Let_def v_validated_def case_prod_beta ne split: if_splits)
qed

lemma detection_rate_one:
  assumes "v = validate_check sha256 py_repr exec timeout seeders max_seeds copier repo c"
  shows "detection_rate v = 1 \<longleftrightarrow> v_validated v \<and> faults_attempted v = 1"
  using detection_rate_reciprocal [OF assms] by (auto simp: divide_eq_eq)

lemma check_of_verdict [simp]:
  "v_check (validate_check sha256 py_repr exec timeout seeders max_seeds copier repo c) = cmd_id c"
  by (simp add: validate_check_def Let_def case_prod_beta)

subsection \<open>The history as counts\<close>

definition runs_of :: "string \<Rightarrow> run_record list \<Rightarrow> run_record list" where
  "runs_of i records = filter (\<lambda>r. r_check r = i) records"

definition summary_of :: "string \<Rightarrow> run_record list \<Rightarrow> history_summary" where
  "summary_of i records =
     (let own = runs_of i records
      in \<lparr>h_check = i, h_runs = length own, h_failures = count_where (\<lambda>r. r_state r = FAILED) own,
          h_unverified = count_where (\<lambda>r. r_state r = UNVERIFIED) own,
          h_validation = r_validation (last own), h_weakened = list_ex r_weakened own\<rparr>)"

fun first_seen :: "run_record list \<Rightarrow> string list" where
  "first_seen [] = []"
| "first_seen (r # rs) = r_check r # filter (\<lambda>i. i \<noteq> r_check r) (first_seen rs)"

lemma first_seen_snoc:
  "first_seen (rs @ [r]) = first_seen rs @ (if r_check r \<in> r_check ` set rs then [] else [r_check r])"
  by (induction rs) auto

lemma set_first_seen: "set (first_seen rs) = r_check ` set rs"
  by (induction rs) auto

lemma distinct_first_seen: "distinct (first_seen rs)"
  by (induction rs) auto

lemma runs_of_snoc: "runs_of i (rs @ [r]) = runs_of i rs @ (if r_check r = i then [r] else [])"
  by (simp add: runs_of_def)

lemma runs_of_none: "i \<notin> r_check ` set rs \<Longrightarrow> runs_of i rs = []"
  by (auto simp: runs_of_def filter_empty_conv)

lemma summary_of_other: "r_check r \<noteq> i \<Longrightarrow> summary_of i (rs @ [r]) = summary_of i rs"
  by (simp add: summary_of_def runs_of_snoc)

lemma summary_of_again: "count_run r (summary_of (r_check r) rs) = summary_of (r_check r) (rs @ [r])"
  by (simp add: count_run_def summary_of_def runs_of_snoc Let_def)

lemma summary_of_first: "r_check r \<notin> r_check ` set rs \<Longrightarrow> count_run r (fresh_bucket r) = summary_of (r_check r) (rs @ [r])"
  by (simp add: count_run_def fresh_bucket_def summary_of_def runs_of_snoc runs_of_none Let_def)

lemma fold_add_run:
  "fold add_run rs ([], Map.empty) =
     (first_seen rs, \<lambda>i. if i \<in> r_check ` set rs then Some (summary_of i rs) else None)"
proof (induction rs rule: rev_induct)
  case (snoc r rs)
  let ?B = "\<lambda>i. if i \<in> r_check ` set rs then Some (summary_of i rs) else None"
  have "fold add_run (rs @ [r]) ([], Map.empty) = add_run r (first_seen rs, ?B)"
    using snoc by simp
  also have "\<dots> = (first_seen (rs @ [r]), ?B(r_check r \<mapsto> summary_of (r_check r) (rs @ [r])))"
    by (simp add: add_run_def Let_def first_seen_snoc summary_of_again summary_of_first)
  also have "?B(r_check r \<mapsto> summary_of (r_check r) (rs @ [r])) =
      (\<lambda>i. if i \<in> r_check ` set (rs @ [r]) then Some (summary_of i (rs @ [r])) else None)"
    by (auto simp: fun_eq_iff summary_of_other)
  finally show ?case .
qed auto

lemma fold_add_run_summary: "summarize_history records = map (\<lambda>i. summary_of i records) (first_seen records)"
  unfolding summarize_history_def fold_add_run by (simp add: set_first_seen)

text \<open>
  the history is exactly counted. The loop over the buckets returns one summary per check that ever ran, in
  the order of its first run, with the numbers of its runs, failures and unverified runs over the whole list, the validation
  of its last run, and whether any run weakened it.
\<close>

theorem summarize_history_counts:
  "summarize_history records = map (\<lambda>i. summary_of i records) (first_seen records)
    \<and> distinct (first_seen records) \<and> set (first_seen records) = r_check ` set records"
  by (simp add: fold_add_run_summary distinct_first_seen set_first_seen)

end
