(* ===== verification/CheckTrust.thy ===== *)
theory CheckTrust
  imports CheckValidation
begin

section \<open>What a verified run is allowed to do\<close>

text \<open>
  \<open>backend/services/check_trust.py\<close>: the ladder of assurance over the summaries of the two suites, the criteria
  that promote an AI check, and the findings about gaps. The Chinese descriptions, reasons, titles and details are not kept.
\<close>

definition L0 :: string where "L0 = ''L0''"
definition L1 :: string where "L1 = ''L1''"
definition L2 :: string where "L2 = ''L2''"
definition L3 :: string where "L3 = ''L3''"
definition MAY_AUTO_MERGE :: bool where "MAY_AUTO_MERGE = False"
definition LABEL_PREFIX :: string where "LABEL_PREFIX = ''ai-checks''"

record l3_criteria =
  l3_enabled :: bool
  min_detection_rate :: rat
  min_runs :: nat
  max_flake_rate :: rat
  require_never_weakened :: bool

definition DEFAULT_L3_CRITERIA :: l3_criteria where
  "DEFAULT_L3_CRITERIA = \<lparr>l3_enabled = False, min_detection_rate = 1, min_runs = 20, max_flake_rate = 0,
     require_never_weakened = True\<rparr>"

record assurance =
  a_level :: string
  may_open_pr :: bool
  may_auto_merge :: bool
  a_label :: string
  user_state :: string
  ai_state :: string
  verified_by :: "string list"

definition state_of :: "gate_summary option \<Rightarrow> string" where
  "state_of s = (case s of None \<Rightarrow> UNVERIFIED | Some g \<Rightarrow> or_str (state g) UNVERIFIED)"

definition label_for :: "string \<Rightarrow> string" where
  "label_for level = LABEL_PREFIX @ ''/'' @ level"

text \<open>A dict built from a list keeps the last item of a key.\<close>

definition verdict_by_id :: "check_verdict list \<Rightarrow> string \<rightharpoonup> check_verdict" where
  "verdict_by_id vs = map_of (rev (map (\<lambda>v. (v_check v, v)) vs))"

definition history_by_id :: "history_summary list \<Rightarrow> string \<rightharpoonup> history_summary" where
  "history_by_id hs = map_of (rev (map (\<lambda>h. (h_check h, h)) hs))"

definition meets :: "l3_criteria \<Rightarrow> check_verdict option \<Rightarrow> history_summary option \<Rightarrow> bool" where
  "meets criteria verdict record =
     (case verdict of
        None \<Rightarrow> True
      | Some v \<Rightarrow>
          if \<not> v_validated v then False
          else if detection_rate v < min_detection_rate criteria then False
          else (case record of
                  None \<Rightarrow> False
                | Some h \<Rightarrow>
                    if h_runs h < min_runs criteria then False
                    else if flake_rate h > max_flake_rate criteria then False
                    else if require_never_weakened criteria \<and> h_weakened h then False
                    else True))"

definition check_l3_eligible :: "check_verdict list \<Rightarrow> history_summary list \<Rightarrow> l3_criteria \<Rightarrow> bool" where
  "check_l3_eligible verdicts history criteria =
     (if \<not> l3_enabled criteria then False
      else if verdicts = [] then False
      else list_all (\<lambda>i. meets criteria (verdict_by_id verdicts i) (history_by_id history i)) (map v_check verdicts))"

definition assess_assurance :: "gate_summary option \<Rightarrow> gate_summary option \<Rightarrow> bool \<Rightarrow> l3_criteria \<Rightarrow> assurance" where
  "assess_assurance user ai l3_eligible criteria =
     (let us = state_of user; as = state_of ai in
      if us \<noteq> UNVERIFIED then
        \<lparr>a_level = L2, may_open_pr = (us = PASSED), may_auto_merge = MAY_AUTO_MERGE, a_label = label_for L2,
         user_state = us, ai_state = as, verified_by = [''repository'']\<rparr>
      else if as \<noteq> UNVERIFIED then
        (let level = (if l3_eligible \<and> l3_enabled criteria then L3 else L1)
         in \<lparr>a_level = level, may_open_pr = (as = PASSED), may_auto_merge = MAY_AUTO_MERGE, a_label = label_for level,
             user_state = us, ai_state = as, verified_by = [''ai'']\<rparr>)
      else
        \<lparr>a_level = L0, may_open_pr = False, may_auto_merge = MAY_AUTO_MERGE, a_label = label_for L0,
         user_state = us, ai_state = as, verified_by = []\<rparr>)"

subsection \<open>Governance findings\<close>

definition RULE_NO_VERIFICATION :: string where "RULE_NO_VERIFICATION = ''checks.no-automated-verification''"
definition RULE_NEVER_FAILED :: string where "RULE_NEVER_FAILED = ''checks.never-failed''"
definition RULE_AI_SUITE_DIVERGES :: string where "RULE_AI_SUITE_DIVERGES = ''checks.ai-suite-diverges''"

record gap_finding =
  gap_rule :: string
  gap_level :: string
  gap_severity :: string
  gap_path :: string
  gap_symbol :: string

definition gap :: "string \<Rightarrow> string \<Rightarrow> string \<Rightarrow> string \<Rightarrow> gap_finding" where
  "gap rule path symbol severity =
     \<lparr>gap_rule = rule, gap_level = ''debt'', gap_severity = severity, gap_path = path, gap_symbol = symbol\<rparr>"

definition suite_ids :: "check_suite option \<Rightarrow> string list" where
  "suite_ids s = (case s of None \<Rightarrow> [] | Some t \<Rightarrow> map cmd_id (suite_checks t))"

definition governance_findings :: "check_suite option \<Rightarrow> check_suite option \<Rightarrow> history_summary list \<Rightarrow> gap_finding list" where
  "governance_findings user ai history =
     (let us = suite_ids user; as = suite_ids ai;
          none = (if us = [] \<and> as = []
                  then [gap RULE_NO_VERIFICATION ''.agent/review-policy.yml'' ''checks'' ''high''] else []);
          never = map (\<lambda>h. gap RULE_NEVER_FAILED ''.agent/checks/checks.yml'' (h_check h) ''medium'')
                    (filter (\<lambda>h. never_failed h \<and> h_validation h = VALIDATED) history);
          only_ai = filter (\<lambda>i. i \<notin> set us) as; only_user = filter (\<lambda>i. i \<notin> set as) us;
          diverges = (if us \<noteq> [] \<and> as \<noteq> [] \<and> (only_ai \<noteq> [] \<or> only_user \<noteq> [])
                      then [gap RULE_AI_SUITE_DIVERGES ''.agent/checks/checks.yml'' ''suite'' ''medium''] else [])
      in none @ never @ diverges)"

subsection \<open>Who decides whether a pull request opens\<close>

lemma state_of_run: "state_of (Some (run_suite sha256 py_repr exec timeout reason s)) =
    state (run_suite sha256 py_repr exec timeout reason s)"
  using run_suite_state [of sha256 py_repr exec timeout reason s]
  by (auto simp: state_of_def or_str_def PASSED_def FAILED_def UNVERIFIED_def)

definition all_succeed :: "executor \<Rightarrow> timestamp \<Rightarrow> check_suite \<Rightarrow> bool" where
  "all_succeed exec timeout s \<longleftrightarrow> list_all (succeeds exec timeout) (gating_checks s)"

text \<open>
  C14: the authority of the repository's own suite. Running both suites and assessing the result, a pull request may
  open exactly when the checks of the user's suite that may gate all succeed or, if it has none, the AI suite has some
  and they all succeed; the AI suite never outweighs a user's check, and nothing ever merges by itself.
\<close>

theorem who_opens_a_pull_request:
  "let a = assess_assurance (Some (run_suite sha256 py_repr exec timeout reason user))
        (Some (run_suite sha256 py_repr exec timeout reason ai)) l3 criteria
   in (may_open_pr a \<longleftrightarrow>
        (if resolved user then all_succeed exec timeout user else resolved ai \<and> all_succeed exec timeout ai))
    \<and> \<not> may_auto_merge a
    \<and> a_level a = (if resolved user then L2 else if \<not> resolved ai then L0 else if l3 \<and> l3_enabled criteria then L3 else L1)"
  by (simp add: assess_assurance_def Let_def state_of_run run_suite_state all_succeed_def MAY_AUTO_MERGE_def)

subsection \<open>What promotion asks for\<close>

lemma map_of_rev_key:
  assumes "distinct (map key xs)" and "x \<in> set xs"
  shows "map_of (rev (map (\<lambda>y. (key y, y)) xs)) (key x) = Some x"
proof (rule map_of_is_SomeI)
  show "distinct (map fst (rev (map (\<lambda>y. (key y, y)) xs)))" using assms(1) by (simp add: rev_map [symmetric] comp_def)
qed (use assms(2) in auto)


lemma history_by_id_counts:
  "history_by_id (summarize_history records) i = (if runs_of i records = [] then None else Some (summary_of i records))"
proof (cases "i \<in> r_check ` set records")
  case True
  then have mem: "summary_of i records \<in> set (summarize_history records)"
    unfolding fold_add_run_summary by (auto simp: set_first_seen)
  have "map h_check (summarize_history records) = first_seen records"
    unfolding fold_add_run_summary by (simp add: summary_of_def Let_def comp_def)
  then have "history_by_id (summarize_history records) (h_check (summary_of i records)) = Some (summary_of i records)"
    unfolding history_by_id_def using mem distinct_first_seen by (intro map_of_rev_key) simp_all
  moreover have "runs_of i records \<noteq> []" using True by (auto simp: runs_of_def filter_empty_conv)
  ultimately show ?thesis by (simp add: summary_of_def Let_def)
next
  case False
  then have "map_of (rev (map (\<lambda>h. (h_check h, h)) (summarize_history records))) i = None"
    unfolding map_of_eq_None_iff fold_add_run_summary
    by (auto simp: set_first_seen summary_of_def Let_def)
  then show ?thesis using False by (simp add: history_by_id_def runs_of_none)
qed

text \<open>
  What the default thresholds promote. If the verdicts of the candidates make them eligible, no run of any candidate
  ever failed, and of the faults tried on it the very first was detected. Such a check, when its
  history is free of unverified runs and its last run is recorded as validated, is one the governance report lists as
  never having failed.
\<close>

theorem promotion_needs_no_failure:
  assumes "check_l3_eligible (map (validate_check sha256 py_repr exec timeout seeders max_seeds copier repo) checks)
      (summarize_history records) criteria"
    and "min_detection_rate criteria = min_detection_rate DEFAULT_L3_CRITERIA"
    and "max_flake_rate criteria = max_flake_rate DEFAULT_L3_CRITERIA" and "min_runs criteria > 0"
    and "distinct (map cmd_id checks)" and "c \<in> set checks"
  shows "runs_of (cmd_id c) records \<noteq> []
    \<and> count_where (\<lambda>r. r_state r = FAILED) (runs_of (cmd_id c) records) = 0
    \<and> faults_attempted (validate_check sha256 py_repr exec timeout seeders max_seeds copier repo c) = 1
    \<and> (count_where (\<lambda>r. r_state r = UNVERIFIED) (runs_of (cmd_id c) records) = 0
        \<and> r_validation (last (runs_of (cmd_id c) records)) = VALIDATED
       \<longrightarrow> gap RULE_NEVER_FAILED ''.agent/checks/checks.yml'' (cmd_id c) ''medium''
             \<in> set (governance_findings user ai (summarize_history records)))"
proof -
  let ?vc = "validate_check sha256 py_repr exec timeout seeders max_seeds copier repo"
  let ?own = "runs_of (cmd_id c) records" and ?h = "summary_of (cmd_id c) records"
  have keys: "map v_check (map ?vc checks) = map cmd_id checks" by simp
  have "verdict_by_id (map ?vc checks) (v_check (?vc c)) = Some (?vc c)"
    unfolding verdict_by_id_def using assms(5,6) keys by (intro map_of_rev_key) (simp_all add: comp_def)
  moreover have "meets criteria (verdict_by_id (map ?vc checks) (cmd_id c))
      (history_by_id (summarize_history records) (cmd_id c))"
    using assms(1,6) by (auto simp: check_l3_eligible_def list_all_iff split: if_splits)
  ultimately have met: "meets criteria (Some (?vc c)) (if ?own = [] then None else Some ?h)"
    by (simp add: history_by_id_counts)
  then have ne: "?own \<noteq> []" and rate: "detection_rate (?vc c) \<ge> 1" and flake: "flake_rate ?h \<le> 0" and val: "v_validated (?vc c)"
    using assms(2,3) by (auto simp: meets_def DEFAULT_L3_CRITERIA_def split: if_splits)
  have one: "faults_attempted (?vc c) = 1"
    using rate val detection_rate_reciprocal [OF refl, of sha256 py_repr exec timeout seeders max_seeds copier repo c]
    by (simp add: le_divide_eq)
  have none: "count_where (\<lambda>r. r_state r = FAILED) ?own = 0"
    using flake ne by (simp add: flake_rate_def summary_of_def Let_def divide_le_0_iff)
  have "cmd_id c \<in> r_check ` set records" using ne runs_of_none by blast
  then have "?h \<in> set (summarize_history records)"
    unfolding fold_add_run_summary set_map set_first_seen by (rule imageI)
  then have "gap RULE_NEVER_FAILED ''.agent/checks/checks.yml'' (cmd_id c) ''medium''
             \<in> set (governance_findings user ai (summarize_history records))"
    if "never_failed ?h" and "h_validation ?h = VALIDATED"
    using that unfolding governance_findings_def Let_def set_append set_map set_filter
    by (intro UnI2 UnI1 image_eqI [where x = ?h]) (auto simp: summary_of_def Let_def)
  then show ?thesis using ne none one by (simp add: never_failed_def summary_of_def Let_def)
qed


abbreviation never_red :: "run_record" where
  "never_red \<equiv> \<lparr>r_check = ''unit'', r_state = PASSED, r_suite_hash = [], r_commit = [], r_exit = Some 0, r_duration = 1,
     r_at = 0, r_validation = VALIDATED, r_weakened = False\<rparr>"

abbreviation reads_limit :: "checkout \<Rightarrow> executor" where
  "reads_limit t c b \<equiv> Outcome \<lparr>out_code = (if t ''a.py'' = Some ''a==b'' then 0 else 1), out_text = [], out_timed_out = False,
     out_ms = 1\<rparr>"

abbreviation unit_check :: check_command where
  "unit_check \<equiv> \<lparr>cmd_id = ''unit'', cmd_argv = [''pytest''], cmd_cwd = ''.'', cmd_timeout = None,
     cmd_validation = UNVALIDATED, cmd_source = SOURCE_AGENT_CHECKS\<rparr>"

abbreviation flip_seeder :: "checkout \<Rightarrow> fault_seed list option" where
  "flip_seeder t \<equiv> Some (case flip_comparison_seed t ''a.py'' COMPARISONS ''python'' of None \<Rightarrow> [] | Some s \<Rightarrow> [s])"

abbreviation one_run :: l3_criteria where
  "one_run \<equiv> DEFAULT_L3_CRITERIA\<lparr>l3_enabled := True, min_runs := 1\<rparr>"

lemma unit_verdict:
  "validate_check id (\<lambda>_. []) reads_limit 60 [flip_seeder] 6 Some [''a.py'' \<mapsto> ''a==b''] unit_check =
     \<lparr>v_check = ''unit'', v_status = VALIDATED, baseline_passed = True, faults_attempted = 1, faults_detected = 1,
      detected_by = [''a.py:flip-=='']\<rparr>"
proof -
  have p: "probe_status id (\<lambda>_. []) reads_limit 60 unit_check t = (if t ''a.py'' = Some ''a==b'' then PASSED else FAILED)" for t
    by (simp add: probe_status succeeds_def)
  have f: "flip_comparison_seed [''a.py'' \<mapsto> ''a==b''] ''a.py'' COMPARISONS ''python'' =
      Some \<lparr>seed_id = ''a.py:flip-=='', seed_language = ''python'',
        seed_edits = [\<lparr>edit_path = ''a.py'', edit_old = ''=='', edit_new = ''!=''\<rparr>]\<rparr>"
    by (simp add: COMPARISONS_def startswith_def take_Cons')
  have s: "apply_edits [''a.py'' \<mapsto> ''a==b''] [\<lparr>edit_path = ''a.py'', edit_old = ''=='', edit_new = ''!=''\<rparr>] =
      Some [''a.py'' \<mapsto> ''a!=b'']"
    by (simp add: startswith_def take_Cons')
  show ?thesis by (simp add: validate_check_def Let_def p all_seeds_def f seeded_def startswith_def)
qed

theorem promotion_needs_no_failure_witness:
  "gap RULE_NEVER_FAILED ''.agent/checks/checks.yml'' ''unit'' ''medium''
     \<in> set (governance_findings None None (summarize_history [never_red]))"
proof -
  have el: "check_l3_eligible (map (validate_check id (\<lambda>_. []) reads_limit 60 [flip_seeder] 6 Some [''a.py'' \<mapsto> ''a==b''])
      [unit_check]) (summarize_history [never_red]) one_run"
    unfolding list.map unit_verdict
    by (simp add: check_l3_eligible_def meets_def verdict_by_id_def history_by_id_def fold_add_run_summary summary_of_def
        runs_of_def DEFAULT_L3_CRITERIA_def v_validated_def detection_rate_def flake_rate_def)
  show ?thesis
    using promotion_needs_no_failure [OF el, where c = unit_check and user = None and ai = None]
    by (simp add: DEFAULT_L3_CRITERIA_def runs_of_def)
qed

end
