(* ===== verification/CheckStore.thy ===== *)
theory CheckStore
  imports CheckTrust TaskQueueSteps
begin

section \<open>The store of check suites, verdicts and runs\<close>

text \<open>
  \<open>backend/services/check_store.py\<close> on its three tables in \<open>backend/models/agent_hub.py\<close> and on the task queue of the same
  database. An operation that writes is one flushed transaction; \<open>None\<close> is the \<open>IntegrityError\<close> of a broken constraint.
  Rows are kept in the order of their ids. The descriptor column holds the commands themselves, not their JSON text; the
  Chinese reasons of verdicts and refusals are not kept. The value of \<open>onupdate\<close> is written when a column changes.
\<close>

definition CHECK_SUITE_KIND :: "string list" where "CHECK_SUITE_KIND = [''user'', ''ai'']"
definition CHECK_SUITE_STATUS :: "string list" where "CHECK_SUITE_STATUS = [''proposed'', ''active'', ''retired'']"
definition CHECK_AUTHOR :: "string list" where "CHECK_AUTHOR = [''human'', ''ai'']"
definition CHECK_RUN_STATE :: "string list" where "CHECK_RUN_STATE = [''passed'', ''failed'', ''unverified'', ''error'']"
definition OPEN_TASK_STATUSES :: "task_status list" where "OPEN_TASK_STATUSES = [Queued, Leased, Running]"

record snapshot =
  sn_id :: int
  sn_repo :: int
  sn_kind :: string
  sn_source :: string
  sn_hash :: string
  sn_checks :: "check_command list"
  sn_base :: string
  sn_author :: string
  sn_model :: string
  sn_task :: "int option"
  sn_status :: string
  sn_updated :: timestamp

record verdict_row =
  vr_id :: int
  vr_repo :: int
  vr_check :: string
  vr_base :: string
  vr_rate :: rat
  vr_seeded :: nat
  vr_validated :: bool
  vr_status :: string

record run_row =
  rr_id :: int
  rr_repo :: int
  rr_check :: string
  rr_hash :: string
  rr_revision :: string
  rr_state :: string
  rr_exit :: "int option"
  rr_duration :: int
  rr_weakened :: bool
  rr_created :: timestamp

record check_db =
  queue_of :: queue_db
  snapshots :: "snapshot list"
  verdict_rows :: "verdict_row list"
  run_rows :: "run_row list"
  next_row :: int

subsection \<open>Snapshots\<close>

definition snapshot_row :: "check_db \<Rightarrow> int \<Rightarrow> string \<Rightarrow> string \<Rightarrow> snapshot option" where
  "snapshot_row db repo kind h =
     find (\<lambda>s. sn_repo s = repo \<and> sn_kind s = kind \<and> sn_hash s = h) (snapshots db)"

text \<open>The check constraints of the table and its foreign key.\<close>

definition snapshot_valid :: "check_db \<Rightarrow> snapshot \<Rightarrow> bool" where
  "snapshot_valid db s \<longleftrightarrow> sn_repo s \<in> set (repos (queue_of db)) \<and> sn_kind s \<in> set CHECK_SUITE_KIND
     \<and> sn_status s \<in> set CHECK_SUITE_STATUS \<and> sn_author s \<in> set CHECK_AUTHOR"

definition refresh_snapshot :: "check_suite \<Rightarrow> string option \<Rightarrow> string \<Rightarrow> string \<Rightarrow> int option \<Rightarrow> string \<Rightarrow> timestamp
    \<Rightarrow> snapshot \<Rightarrow> snapshot" where
  "refresh_snapshot suite base author model task st now row =
     (let row' = row\<lparr>sn_source := source_of suite, sn_checks := suite_checks suite, sn_base := opt_str base,
        sn_author := or_str author (sn_author row), sn_model := or_str model (sn_model row),
        sn_task := (case task of None \<Rightarrow> sn_task row | Some t \<Rightarrow> Some t), sn_status := st\<rparr>
      in if row' = row then row else row'\<lparr>sn_updated := now\<rparr>)"

definition new_snapshot :: "check_db \<Rightarrow> int \<Rightarrow> string \<Rightarrow> string \<Rightarrow> check_suite \<Rightarrow> string option \<Rightarrow> string \<Rightarrow> string \<Rightarrow> int option
    \<Rightarrow> string \<Rightarrow> timestamp \<Rightarrow> snapshot" where
  "new_snapshot db repo kind h suite base author model task st now =
     \<lparr>sn_id = next_row db, sn_repo = repo, sn_kind = kind, sn_source = source_of suite, sn_hash = h,
      sn_checks = suite_checks suite, sn_base = opt_str base, sn_author = or_str author ''ai'', sn_model = model,
      sn_task = task, sn_status = st, sn_updated = now\<rparr>"

definition record_suite_snapshot :: "(string \<Rightarrow> string) \<Rightarrow> (normalized_check list \<Rightarrow> string) \<Rightarrow> check_db \<Rightarrow> int \<Rightarrow> string
    \<Rightarrow> check_suite \<Rightarrow> string option \<Rightarrow> string \<Rightarrow> string \<Rightarrow> int option \<Rightarrow> string \<Rightarrow> timestamp \<Rightarrow> (snapshot \<times> check_db) option" where
  "record_suite_snapshot sha256 py_repr db repo kind suite base author model task st now =
     (let h = suite_fingerprint sha256 py_repr suite in
      case snapshot_row db repo kind h of
        None \<Rightarrow>
          (let row = new_snapshot db repo kind h suite base author model task st now
           in if \<not> snapshot_valid db row then None
              else Some (row, db\<lparr>snapshots := snapshots db @ [row], next_row := next_row db + 1\<rparr>))
      | Some old \<Rightarrow>
          (let row = refresh_snapshot suite base author model task st now old
           in if \<not> snapshot_valid db row then None
              else Some (row, db\<lparr>snapshots := map (\<lambda>s. if sn_id s = sn_id old then row else s) (snapshots db)\<rparr>)))"

definition record_proposal_snapshot :: "(string \<Rightarrow> string) \<Rightarrow> (normalized_check list \<Rightarrow> string) \<Rightarrow> check_db \<Rightarrow> int
    \<Rightarrow> check_suite \<Rightarrow> string option \<Rightarrow> string \<Rightarrow> int option \<Rightarrow> timestamp \<Rightarrow> (snapshot \<times> check_db) option" where
  "record_proposal_snapshot sha256 py_repr db repo suite base model task now =
     record_suite_snapshot sha256 py_repr db repo ''ai'' suite base ''ai'' model task ''proposed'' now"

fun newest :: "snapshot list \<Rightarrow> snapshot option" where
  "newest [] = None"
| "newest (s # rest) =
     (case newest rest of
        None \<Rightarrow> Some s
      | Some b \<Rightarrow> if sn_updated s > sn_updated b \<or> sn_updated s = sn_updated b \<and> sn_id s > sn_id b then Some s else Some b)"

definition active_suite :: "check_db \<Rightarrow> int \<Rightarrow> string \<Rightarrow> snapshot option" where
  "active_suite db repo kind =
     newest (filter (\<lambda>s. sn_repo s = repo \<and> sn_kind s = kind \<and> sn_status s = ''active'') (snapshots db))"

definition has_ai_snapshot :: "check_db \<Rightarrow> int \<Rightarrow> bool" where
  "has_ai_snapshot db repo \<longleftrightarrow> list_ex (\<lambda>s. sn_repo s = repo \<and> sn_kind s = ''ai'') (snapshots db)"

subsection \<open>Verdicts and runs\<close>

definition record_validation :: "check_db \<Rightarrow> int \<Rightarrow> check_verdict \<Rightarrow> string option \<Rightarrow> check_db option" where
  "record_validation db repo v base =
     (if repo \<notin> set (repos (queue_of db)) then None
      else Some (db\<lparr>verdict_rows := verdict_rows db @ [\<lparr>vr_id = next_row db, vr_repo = repo, vr_check = v_check v,
                     vr_base = opt_str base, vr_rate = detection_rate v, vr_seeded = faults_attempted v,
                     vr_validated = v_validated v, vr_status = v_status v\<rparr>],
                   next_row := next_row db + 1\<rparr>))"

definition run_row_of :: "int \<Rightarrow> timestamp \<Rightarrow> int \<Rightarrow> run_record \<Rightarrow> run_row" where
  "run_row_of repo now i r =
     \<lparr>rr_id = i, rr_repo = repo, rr_check = r_check r, rr_hash = r_suite_hash r, rr_revision = r_commit r,
      rr_state = r_state r, rr_exit = r_exit r, rr_duration = r_duration r, rr_weakened = r_weakened r, rr_created = now\<rparr>"

fun run_rows_of :: "int \<Rightarrow> timestamp \<Rightarrow> int \<Rightarrow> run_record list \<Rightarrow> run_row list" where
  "run_rows_of repo now i [] = []"
| "run_rows_of repo now i (r # rs) = run_row_of repo now i r # run_rows_of repo now (i + 1) rs"

definition record_runs :: "check_db \<Rightarrow> int \<Rightarrow> run_record list \<Rightarrow> timestamp \<Rightarrow> (nat \<times> check_db) option" where
  "record_runs db repo records now =
     (if records \<noteq> [] \<and> repo \<notin> set (repos (queue_of db)) then None
      else if \<not> list_all (\<lambda>r. r_state r \<in> set CHECK_RUN_STATE) records then None
      else Some (length records,
                 db\<lparr>run_rows := run_rows db @ run_rows_of repo now (next_row db) records,
                   next_row := next_row db + int (length records)\<rparr>))"

definition row_to_record :: "run_row \<Rightarrow> string \<Rightarrow> run_record" where
  "row_to_record row validation =
     \<lparr>r_check = rr_check row, r_state = rr_state row, r_suite_hash = rr_hash row, r_commit = rr_revision row,
      r_exit = rr_exit row, r_duration = rr_duration row, r_at = rr_created row, r_validation = validation,
      r_weakened = rr_weakened row\<rparr>"

text \<open>The dict of statuses: of the verdict rows of a check, in the order of their ids, the last one stays.\<close>

definition verdict_status :: "check_db \<Rightarrow> int \<Rightarrow> string \<Rightarrow> string" where
  "verdict_status db repo check =
     (case map_of (rev (map (\<lambda>v. (vr_check v, vr_status v)) (filter (\<lambda>v. vr_repo v = repo) (verdict_rows db)))) check of
        None \<Rightarrow> ''unvalidated'' | Some s \<Rightarrow> s)"

definition history_records :: "check_db \<Rightarrow> int \<Rightarrow> string option \<Rightarrow> run_record list" where
  "history_records db repo check =
     map (\<lambda>row. row_to_record row (verdict_status db repo (rr_check row)))
       (filter (\<lambda>row. rr_repo row = repo \<and> (case check of None \<Rightarrow> True | Some c \<Rightarrow> rr_check row = c)) (run_rows db))"

definition history_summaries :: "check_db \<Rightarrow> int \<Rightarrow> history_summary list" where
  "history_summaries db repo = summarize_history (history_records db repo None)"

definition store_append :: "check_db \<Rightarrow> int \<Rightarrow> run_record list \<Rightarrow> timestamp \<Rightarrow> check_db option" where
  "store_append db repo records now =
     (if records = [] then Some db
      else case record_runs db repo records now of None \<Rightarrow> None | Some (n, db') \<Rightarrow> Some db')"

subsection \<open>When a proposal may be queued\<close>

datatype enqueue_verdict = MayEnqueue | OpenTask int task_status | AlreadyBootstrapped | CoolingOff int

definition checks_task :: "int \<Rightarrow> agent_task \<Rightarrow> bool" where
  "checks_task repo t \<longleftrightarrow> task_repo t = repo \<and> task_kind t = ''checks''"

definition open_checks_task :: "int \<Rightarrow> agent_task \<Rightarrow> bool" where
  "open_checks_task repo t \<longleftrightarrow> checks_task repo t \<and> task_status t \<in> set OPEN_TASK_STATUSES"

fun latest_created :: "agent_task list \<Rightarrow> agent_task option" where
  "latest_created [] = None"
| "latest_created (t # ts) =
     (case latest_created ts of None \<Rightarrow> Some t | Some b \<Rightarrow> if created_at b > created_at t then Some b else Some t)"

definition curator_should_enqueue :: "check_db \<Rightarrow> int \<Rightarrow> string \<Rightarrow> int \<Rightarrow> timestamp \<Rightarrow> enqueue_verdict" where
  "curator_should_enqueue db repo mode interval now =
     (let ts = tasks (queue_of db) in
      case find (open_checks_task repo) ts of
        Some t \<Rightarrow> OpenTask (task_id t) (task_status t)
      | None \<Rightarrow>
          if mode = ''bootstrap'' \<and> has_ai_snapshot db repo then AlreadyBootstrapped
          else if interval > 0 then
            (case latest_created (filter (\<lambda>t. checks_task repo t \<and> created_at t \<ge> now - seconds interval) ts) of
               Some t \<Rightarrow> CoolingOff (task_id t)
             | None \<Rightarrow> MayEnqueue)
          else MayEnqueue)"

definition proposal_in_flight_for_hash :: "(json \<Rightarrow> string) \<Rightarrow> check_db \<Rightarrow> int \<Rightarrow> string \<Rightarrow> bool" where
  "proposal_in_flight_for_hash cs db repo h =
     (if h = [] then False
      else list_ex (\<lambda>t. let v = jget (task_payload t) ''suite_hash'' in (if truthy v then py_str cs v else []) = h)
             (filter (open_checks_task repo) (tasks (queue_of db))))"

end
