(* ===== verification/CheckStoreProps.thy ===== *)
theory CheckStoreProps
  imports CheckStore
begin

section \<open>Properties of the check store\<close>

text \<open>
  Snapshots have one row per suite in every history; the history in the database and the one in memory agree on
  what they count, shown once for the interface both have; and the curator's gate in front of the queue keeps at most one
  proposal of a repository open, but for producers that overlap and tasks an operator revives.
\<close>

subsection \<open>Snapshots in every history\<close>

definition snapshot_key :: "snapshot \<Rightarrow> int \<times> string \<times> string" where
  "snapshot_key s = (sn_repo s, sn_kind s, sn_hash s)"

definition store_ok :: "check_db \<Rightarrow> bool" where
  "store_ok db \<longleftrightarrow> distinct (map snapshot_key (snapshots db)) \<and> distinct (map sn_id (snapshots db))
     \<and> list_all (\<lambda>s. sn_id s < next_row db) (snapshots db)"

inductive store_step :: "agent_queue \<Rightarrow> int \<Rightarrow> (string \<Rightarrow> string) \<Rightarrow> (normalized_check list \<Rightarrow> string) \<Rightarrow> check_db \<Rightarrow> check_db \<Rightarrow> bool"
  for q :: agent_queue and setting :: int and sha256 :: "string \<Rightarrow> string" and py_repr :: "normalized_check list \<Rightarrow> string" where
  store_snapshot: "record_suite_snapshot sha256 py_repr db repo kind suite base author model task st now = Some (row, db')
     \<Longrightarrow> store_step q setting sha256 py_repr db db'"
| store_verdict: "record_validation db repo v base = Some db' \<Longrightarrow> store_step q setting sha256 py_repr db db'"
| store_runs: "record_runs db repo records now = Some (n, db') \<Longrightarrow> store_step q setting sha256 py_repr db db'"
| store_queue: "queue_step q setting (queue_of db) q' \<Longrightarrow> store_step q setting sha256 py_repr db (db\<lparr>queue_of := q'\<rparr>)"

definition empty_store :: "queue_db \<Rightarrow> check_db" where
  "empty_store qdb = \<lparr>queue_of = qdb, snapshots = [], verdict_rows = [], run_rows = [], next_row = 1\<rparr>"

inductive store_reachable :: "agent_queue \<Rightarrow> int \<Rightarrow> (string \<Rightarrow> string) \<Rightarrow> (normalized_check list \<Rightarrow> string) \<Rightarrow> queue_db \<Rightarrow> check_db \<Rightarrow> bool"
  for q :: agent_queue and setting :: int and sha256 :: "string \<Rightarrow> string" and py_repr :: "normalized_check list \<Rightarrow> string"
    and qdb :: queue_db where
  store_start: "store_reachable q setting sha256 py_repr qdb (empty_store qdb)"
| store_next: "store_reachable q setting sha256 py_repr qdb db \<Longrightarrow> store_step q setting sha256 py_repr db db'
     \<Longrightarrow> store_reachable q setting sha256 py_repr qdb db'"

lemma find_snapshot: "snapshot_row db repo kind h = find (\<lambda>s. snapshot_key s = (repo, kind, h)) (snapshots db)"
  by (simp add: snapshot_row_def snapshot_key_def)

lemma refresh_keys [simp]:
  "snapshot_key (refresh_snapshot suite base author model task st now row) = snapshot_key row"
  "sn_id (refresh_snapshot suite base author model task st now row) = sn_id row"
  by (simp_all add: refresh_snapshot_def Let_def snapshot_key_def)

lemma refresh_fields:
  "sn_checks (refresh_snapshot suite base author model task st now row) = suite_checks suite"
  "sn_status (refresh_snapshot suite base author model task st now row) = st"
proof -
  let ?row' = "row\<lparr>sn_source := source_of suite, sn_checks := suite_checks suite, sn_base := opt_str base,
        sn_author := or_str author (sn_author row), sn_model := or_str model (sn_model row),
        sn_task := (case task of None \<Rightarrow> sn_task row | Some t \<Rightarrow> Some t), sn_status := st\<rparr>"
  have "sn_checks ?row' = suite_checks suite" "sn_status ?row' = st" by simp_all
  then show "sn_checks (refresh_snapshot suite base author model task st now row) = suite_checks suite"
    and "sn_status (refresh_snapshot suite base author model task st now row) = st"
    unfolding refresh_snapshot_def Let_def by (cases "?row' = row"; simp)+
qed

lemma record_snapshot_cases:
  assumes "record_suite_snapshot sha256 py_repr db repo kind suite base author model task st now = Some (row, db')"
  obtains (inserted) "snapshot_row db repo kind (suite_fingerprint sha256 py_repr suite) = None"
      "row = new_snapshot db repo kind (suite_fingerprint sha256 py_repr suite) suite base author model task st now"
      "db' = db\<lparr>snapshots := snapshots db @ [row], next_row := next_row db + 1\<rparr>"
  | (refreshed) old where "snapshot_row db repo kind (suite_fingerprint sha256 py_repr suite) = Some old"
      "row = refresh_snapshot suite base author model task st now old"
      "db' = db\<lparr>snapshots := map (\<lambda>s. if sn_id s = sn_id old then row else s) (snapshots db)\<rparr>"
proof (cases "snapshot_row db repo kind (suite_fingerprint sha256 py_repr suite)")
  case None
  with assms show ?thesis
    by (intro inserted) (auto simp: record_suite_snapshot_def Let_def split: if_splits)
next
  case (Some old)
  with assms show ?thesis
    by (intro refreshed) (auto simp: record_suite_snapshot_def Let_def split: if_splits)
qed

lemma find_key_None: "find (\<lambda>s. f s = k) xs = None \<longleftrightarrow> k \<notin> f ` set xs"
  by (auto simp: find_None_iff)

lemma find_key_map:
  assumes "distinct (map f xs)" and "distinct (map g xs)" and "old \<in> set xs" and "f row = f old"
  shows "find (\<lambda>s. f s = k) (map (\<lambda>s. if g s = g old then row else s) xs) =
    (if k = f old then Some row else find (\<lambda>s. f s = k) xs)"
  using assms
proof (induction xs)
  case (Cons x xs)
  show ?case
  proof (cases "x = old")
    case True
    then have "map (\<lambda>s. if g s = g old then row else s) xs = xs"
      using Cons.prems(2) by (intro map_idI) (auto simp: image_iff)
    then show ?thesis using True Cons.prems(1,4) by (auto simp: find_key_None)
  next
    case False
    then have "old \<in> set xs" "g x \<noteq> g old" "f x \<noteq> f old" using Cons.prems by (auto simp: image_iff)
    then show ?thesis using Cons by auto
  qed
qed simp

lemma snapshot_step:
  assumes "store_ok db"
    and "record_suite_snapshot sha256 py_repr db repo kind suite base author model task st now = Some (row, db')"
  shows "store_ok db'"
    and "snapshot_row db' r k h = (if (r, k, h) = (repo, kind, suite_fingerprint sha256 py_repr suite) then Some row
       else snapshot_row db r k h)"
    and "sn_checks row = suite_checks suite" and "sn_status row = st"
proof -
  let ?h = "suite_fingerprint sha256 py_repr suite"
  have "store_ok db' \<and> snapshot_row db' r k h = (if (r, k, h) = (repo, kind, ?h) then Some row else snapshot_row db r k h)
      \<and> sn_checks row = suite_checks suite \<and> sn_status row = st"
    using assms(2)
  proof (cases rule: record_snapshot_cases)
    case inserted
    have key: "snapshot_key row = (repo, kind, ?h)" and i: "sn_id row = next_row db"
      and rest: "sn_checks row = suite_checks suite" "sn_status row = st"
      by (simp_all add: inserted(2) new_snapshot_def snapshot_key_def)
    have new: "(repo, kind, ?h) \<notin> snapshot_key ` set (snapshots db)"
      using inserted(1) unfolding find_snapshot find_key_None .
    have "store_ok db'"
      using assms(1) new key i unfolding inserted(3) by (auto simp: store_ok_def list_all_iff)
    moreover have "find P (xs @ [x]) = (case find P xs of None \<Rightarrow> if P x then Some x else None | Some y \<Rightarrow> Some y)"
      for P :: "snapshot \<Rightarrow> bool" and xs x by (induction xs) auto
    ultimately show ?thesis
      using inserted(1) key rest by (auto simp: inserted(3) find_snapshot split: option.splits)
  next
    case (refreshed old)
    have old: "old \<in> set (snapshots db)" "snapshot_key old = (repo, kind, ?h)"
      using refreshed(1) unfolding find_snapshot by (auto dest: find_SomeD)
    have keys: "map snapshot_key (snapshots db') = map snapshot_key (snapshots db)"
      and ids: "map sn_id (snapshots db') = map sn_id (snapshots db)"
      using assms(1) old(1) by (auto simp: refreshed(2,3) store_ok_def distinct_map dest: inj_onD)
    have "list_all (\<lambda>s. sn_id s < next_row db) (snapshots db')"
      using assms(1) old(1) by (auto simp: refreshed(2,3) store_ok_def list_all_iff)
    then have "store_ok db'" using assms(1) keys ids by (simp add: store_ok_def) (simp add: refreshed(3))
    moreover have "snapshot_key row = snapshot_key old" by (simp add: refreshed(2))
    ultimately show ?thesis
      using find_key_map [of snapshot_key "snapshots db" sn_id old row "(r, k, h)"] assms(1) old
      by (simp add: find_snapshot refreshed(3) store_ok_def) (simp add: refreshed(2) refresh_fields)
  qed
  then show "store_ok db'" and "snapshot_row db' r k h = (if (r, k, h) = (repo, kind, ?h) then Some row else snapshot_row db r k h)"
    and "sn_checks row = suite_checks suite" and "sn_status row = st" by blast+
qed

lemma store_reachable_ok: "store_reachable q setting sha256 py_repr qdb db \<Longrightarrow> store_ok db"
proof (induction rule: store_reachable.induct)
  case store_start
  then show ?case by (simp add: store_ok_def empty_store_def)
next
  case (store_next db db')
  from store_next.hyps(2) store_next.IH show ?case
  proof (cases rule: store_step.cases)
    case store_snapshot
    with store_next.IH show ?thesis by (blast intro: snapshot_step(1))
  qed (fastforce simp: store_ok_def record_validation_def record_runs_def list_all_iff split: if_splits)+
qed

text \<open>
  Recording a suite is an upsert, in every state any history of the store and the queue reaches. Afterwards the
  suite's identity finds the row returned, with the commands and the status given, every other identity finds what it found
  before, and no identity has two rows. So proposing again a suite that is active makes it a proposal again.
\<close>

theorem snapshot_upsert:
  assumes "store_reachable q setting sha256 py_repr qdb db"
    and "record_suite_snapshot sha256 py_repr db repo kind suite base author model task st now = Some (row, db')"
  shows "snapshot_row db' r k h = (if (r, k, h) = (repo, kind, suite_fingerprint sha256 py_repr suite) then Some row
       else snapshot_row db r k h)
    \<and> sn_checks row = suite_checks suite \<and> sn_status row = st \<and> distinct (map snapshot_key (snapshots db'))"
  using snapshot_step [OF store_reachable_ok [OF assms(1)] assms(2)] by (auto simp: store_ok_def)


subsection \<open>Two history stores, one interface\<close>

text \<open>
  \<open>CheckHistoryStore\<close> keeps the records themselves, \<open>DbCheckHistoryStore\<close> writes rows; a caller is handed either. What the
  interface promises: an append adds its runs, in order, to what is read back, and the summaries are those of what is read back.
\<close>

definition run_core :: "run_record \<Rightarrow> string \<times> string \<times> bool" where
  "run_core r = (r_check r, r_state r, r_weakened r)"

definition counts :: "history_summary \<Rightarrow> string \<times> nat \<times> nat \<times> nat \<times> bool" where
  "counts h = (h_check h, h_runs h, h_failures h, h_unverified h, h_weakened h)"

lemma first_seen_core: "map run_core rs = map run_core ss \<Longrightarrow> first_seen rs = first_seen ss"
proof (induction rs arbitrary: ss)
  case (Cons r rs)
  then obtain s ss' where s: "ss = s # ss'" "run_core r = run_core s" "map run_core rs = map run_core ss'" by (cases ss) auto
  then show ?case using Cons.IH [OF s(3)] by (simp add: run_core_def)
qed simp

lemma counts_core: "map run_core rs = map run_core ss \<Longrightarrow> counts (summary_of i rs) = counts (summary_of i ss)"
proof (induction rs arbitrary: ss)
  case (Cons r rs)
  then obtain s ss' where s: "ss = s # ss'" "run_core r = run_core s" "map run_core rs = map run_core ss'" by (cases ss) auto
  have "counts (summary_of i rs) = counts (summary_of i ss')" using Cons.IH [OF s(3)] .
  then show ?case
    using s(1,2) by (simp add: counts_def summary_of_def runs_of_def run_core_def Let_def)
qed simp

lemma summaries_core:
  "map run_core rs = map run_core ss \<Longrightarrow> map counts (summarize_history rs) = map counts (summarize_history ss)"
  using counts_core [of rs ss] first_seen_core [of rs ss] by (simp add: fold_add_run_summary)

locale history_store =
  fixes add :: "'s \<Rightarrow> timestamp \<Rightarrow> run_record list \<Rightarrow> 's option"
    and read :: "'s \<Rightarrow> run_record list"
    and summaries :: "'s \<Rightarrow> history_summary list"
  assumes read_add: "add s now rs = Some s' \<Longrightarrow> map run_core (read s') = map run_core (read s) @ map run_core rs"
    and summaries_read: "summaries s = summarize_history (read s)"
begin

primrec add_all :: "(timestamp \<times> run_record list) list \<Rightarrow> 's \<Rightarrow> 's option" where
  "add_all [] s = Some s"
| "add_all (b # bs) s = (case add s (fst b) (snd b) of None \<Rightarrow> None | Some t \<Rightarrow> add_all bs t)"

lemma read_all: "add_all bs s = Some s' \<Longrightarrow> map run_core (read s') = map run_core (read s) @ map run_core (concat (map snd bs))"
proof (induction bs arbitrary: s)
  case (Cons b bs)
  then obtain t where "add s (fst b) (snd b) = Some t" "add_all bs t = Some s'" by (auto split: option.splits)
  then show ?case using Cons.IH [of t] read_add by simp
qed simp

lemma summaries_all:
  "add_all bs s = Some s' \<Longrightarrow>
   map counts (summaries s') = map counts (summarize_history (read s @ concat (map snd bs)))"
  unfolding summaries_read by (rule summaries_core) (simp add: read_all)

end

definition memory_append :: "run_record list \<Rightarrow> timestamp \<Rightarrow> run_record list \<Rightarrow> run_record list option" where
  "memory_append s now rs = Some (s @ rs)"

interpretation memory: history_store memory_append "\<lambda>s. s" summarize_history
  by unfold_locales (auto simp: memory_append_def)

lemma row_to_record_core: "run_core (row_to_record (run_row_of repo now i r) v) = run_core r"
  by (simp add: run_core_def row_to_record_def run_row_of_def)

lemma rows_of_batch:
  "map run_core (map (\<lambda>row. row_to_record row (f row)) (filter (\<lambda>row. rr_repo row = repo) (run_rows_of repo now i rs)))
    = map run_core rs"
  by (induction rs arbitrary: i) (simp_all add: row_to_record_core, simp_all add: run_row_of_def)

lemma core_of_rows:
  "map run_core (map (\<lambda>row. row_to_record row (f row)) rows) = map (\<lambda>row. (rr_check row, rr_state row, rr_weakened row)) rows"
  by (simp add: run_core_def row_to_record_def)

lemma store_append_read:
  assumes "store_append db repo rs now = Some db'"
  shows "map run_core (history_records db' repo None) = map run_core (history_records db repo None) @ map run_core rs"
proof (cases "rs = []")
  case False
  have rows: "run_rows db' = run_rows db @ run_rows_of repo now (next_row db) rs"
    using assms False by (auto simp: store_append_def record_runs_def split: if_splits)
  show ?thesis
    using rows_of_batch [of "\<lambda>_. []" repo now "next_row db" rs]
    unfolding history_records_def core_of_rows rows by (simp add: core_of_rows)
qed (use assms in \<open>simp add: store_append_def\<close>)

interpretation database: history_store "\<lambda>db now rs. store_append db repo rs now" "\<lambda>db. history_records db repo None"
    "\<lambda>db. history_summaries db repo" for repo
  by unfold_locales (auto simp: store_append_read history_summaries_def)

definition append_batches :: "int \<Rightarrow> (timestamp \<times> run_record list) list \<Rightarrow> check_db \<Rightarrow> check_db option" where
  "append_batches repo bs db = database.add_all repo bs db"

lemma history_validation:
  "r \<in> set (history_records db repo c) \<Longrightarrow> r_validation r = verdict_status db repo (r_check r)"
  by (auto simp: history_records_def row_to_record_def)

lemma summary_validation:
  assumes "h \<in> set (history_summaries db repo)"
  shows "h_validation h = verdict_status db repo (h_check h)"
proof -
  obtain i where i: "i \<in> r_check ` set (history_records db repo None)" and h: "h = summary_of i (history_records db repo None)"
    using assms unfolding history_summaries_def fold_add_run_summary by (auto simp: set_first_seen)
  have "runs_of i (history_records db repo None) \<noteq> []" using i by (auto simp: runs_of_def filter_empty_conv)
  then have "last (runs_of i (history_records db repo None)) \<in> set (runs_of i (history_records db repo None))" by simp
  then show ?thesis using history_validation [of _ db repo None] by (auto simp: h summary_of_def runs_of_def Let_def)
qed

text \<open>
  C26: the database store and the one in memory agree on every count. Given the same batches of runs, starting without runs of
  the repository, both summarise the same checks in the same order with the same numbers of runs, failures and
  unverified runs and the same mark of weakening. What the database does not keep is the validation a run was recorded with: its
  summary tells the status of the last verdict of the check, and a check without a verdict is unvalidated.
\<close>

theorem history_stores_agree:
  assumes "append_batches repo bs db = Some db'" and "filter (\<lambda>row. rr_repo row = repo) (run_rows db) = []"
  shows "map counts (history_summaries db' repo) = map counts (summarize_history (concat (map snd bs)))
    \<and> list_all (\<lambda>h. h_validation h = verdict_status db' repo (h_check h)) (history_summaries db' repo)"
proof -
  have "history_records db repo None = []" using assms(2) by (simp add: history_records_def)
  then show ?thesis
    using database.summaries_all [OF assms(1) [unfolded append_batches_def]] summary_validation [of _ db' repo]
    by (simp add: list_all_iff)
qed

subsection \<open>One proposal at a time\<close>

definition open_checks :: "queue_db \<Rightarrow> int \<Rightarrow> nat" where
  "open_checks qdb repo = count_where (open_checks_task repo) (tasks qdb)"

lemmas open_defs = open_checks_task_def checks_task_def OPEN_TASK_STATUSES_def

lemma open_checks_update:
  assumes "\<And>u. u \<in> set (tasks qdb) \<Longrightarrow> p u \<Longrightarrow> open_checks_task repo (f u) \<Longrightarrow> open_checks_task repo u"
  shows "open_checks (snd (update_tasks p f qdb)) repo \<le> open_checks qdb repo"
  unfolding open_checks_def update_tasks_simps fst_update_where
  by (rule count_where_map_le) (use assms in \<open>auto split: if_splits\<close>)

lemma held_open: "held l [Leased, Running] t \<Longrightarrow> task_status t \<in> set OPEN_TASK_STATUSES"
  by (auto simp: held_def OPEN_TASK_STATUSES_def)

lemma open_checks_guarded:
  "open_checks (snd (mark_running qdb l now)) repo \<le> open_checks qdb repo"
  "open_checks (snd (heartbeat q qdb l d now)) repo \<le> open_checks qdb repo"
  "open_checks (snd (succeed qdb l ref now)) repo \<le> open_checks qdb repo"
  "open_checks (snd (reclaim_expired q locked qdb moment)) repo \<le> open_checks qdb repo"
  "open_checks (snd (cancel qdb i reason now)) repo \<le> open_checks qdb repo"
  unfolding operation_defs reclaim_eq
  by (rule open_checks_update; auto simp: held_def open_defs moved_def renewed_def finished_def cancelled_row_def
      abandoned_def lease_expired_def reclaimed_row_def RUNNING_TASK_STATUSES_def Let_def split: if_splits)+

lemma open_checks_one_row:
  assumes "queue_ok qdb" and "t \<in> set (tasks qdb)" and "task_status t \<in> set OPEN_TASK_STATUSES"
    and "\<And>u. task_repo (f u) = task_repo u \<and> task_kind (f u) = task_kind u"
  shows "open_checks (snd (update_tasks (is_task (task_id t)) f qdb)) repo \<le> open_checks qdb repo"
  unfolding update_tasks_only [where Q = "\<lambda>u. task_status u \<in> set OPEN_TASK_STATUSES", OF assms(1,2,3)]
  by (rule open_checks_update) (use assms(4) in \<open>simp add: open_checks_task_def checks_task_def\<close>)

lemma open_checks_claim:
  assumes "queue_ok qdb" and "claim q locked qdb w d now = (res, q')"
  shows "open_checks q' repo \<le> open_checks qdb repo"
  using assms(2)
proof (cases rule: claim_cases)
  case (some t e)
  then show ?thesis
    using open_checks_one_row [OF assms(1) some(4), of "take_lease w e now" repo]
    by (simp add: claimable_def OPEN_TASK_STATUSES_def take_lease_def)
qed simp

lemma open_checks_fail:
  assumes "queue_ok qdb" and "fail qdb l err now = Inr (out, q')"
  shows "open_checks q' repo \<le> open_checks qdb repo"
  using assms(2)
proof (cases rule: fail_cases)
  case (dead t)
  then have "t \<in> set (tasks qdb)" "task_status t \<in> set OPEN_TASK_STATUSES" by (auto dest!: find_SomeD held_open)
  then show ?thesis
    using open_checks_one_row [OF assms(1), of t "dead_row err now" repo] dead by (simp add: dead_row_def failed_row_def)
next
  case (requeued t d)
  then have "t \<in> set (tasks qdb)" "task_status t \<in> set OPEN_TASK_STATUSES" by (auto dest!: find_SomeD held_open)
  then show ?thesis
    using open_checks_one_row [OF assms(1), of t "requeued_row err now d" repo] requeued
    by (simp add: requeued_row_def failed_row_def)
qed simp

lemma gate_open_none: "curator_should_enqueue db repo mode interval moment = MayEnqueue \<Longrightarrow> open_checks (queue_of db) repo = 0"
  unfolding open_checks_def count_where_zero
  by (auto simp: curator_should_enqueue_def Let_def find_None_iff split: option.splits)

lemma open_checks_enqueue:
  assumes "enqueue setting qdb r now created = Inr (i, q')"
  shows "open_checks q' repo = open_checks qdb repo + (if q' \<noteq> qdb \<and> req_kind r = ''checks'' \<and> req_repo r = repo then 1 else 0)"
  using assms
proof (cases rule: enqueue_cases)
  case written
  let ?t = "new_task qdb r (find (\<lambda>u. runner_repo u = req_repo r) (runners qdb)) (py_strip (opt_str (req_dedup_key r))) now created"
  have "tasks q' = tasks qdb @ [?t]" by (simp add: written(4))
  moreover from this have "q' \<noteq> qdb" by auto
  ultimately show ?thesis by (simp add: open_checks_def open_defs)
qed simp

text \<open>
  The queue behind the curator's gate, as the webhook uses it: a producer asks the gate in one session and enqueues in a later one, or
  not at all, and anything may come in between. Only checks tasks go through the gate; workers, sweeps, cancellations, retries and
  other tasks run freely. \<open>cu_waiting\<close> holds the repositories of the producers the gate has let through. The two counts are for the
  statement only: how often a producer was let through while another one of the repository was waiting, and how many checks tasks of the
  repository an operator brought back.
\<close>

record curation =
  cu_db :: check_db
  cu_waiting :: "int list"
  cu_races :: "int \<Rightarrow> nat"
  cu_revived :: "int \<Rightarrow> nat"

definition with_queue :: "queue_db \<Rightarrow> curation \<Rightarrow> curation" where
  "with_queue q' c = c\<lparr>cu_db := (cu_db c)\<lparr>queue_of := q'\<rparr>\<rparr>"

definition let_through :: "int \<Rightarrow> curation \<Rightarrow> curation" where
  "let_through repo c = c\<lparr>cu_waiting := repo # cu_waiting c,
     cu_races := (cu_races c)(repo := cu_races c repo + (if repo \<in> set (cu_waiting c) then 1 else 0))\<rparr>"

definition leave :: "int \<Rightarrow> curation \<Rightarrow> curation" where
  "leave repo c = c\<lparr>cu_waiting := remove1 repo (cu_waiting c)\<rparr>"

definition revives :: "queue_db \<Rightarrow> int \<Rightarrow> int \<Rightarrow> bool" where
  "revives qdb i repo \<longleftrightarrow> list_ex (\<lambda>t. retryable i t \<and> checks_task repo t) (tasks qdb)"

definition count_revived :: "int \<Rightarrow> curation \<Rightarrow> curation" where
  "count_revived i c = c\<lparr>cu_revived := (\<lambda>repo. cu_revived c repo + (if revives (queue_of (cu_db c)) i repo then 1 else 0))\<rparr>"

inductive curated_step :: "agent_queue \<Rightarrow> int \<Rightarrow> curation \<Rightarrow> curation \<Rightarrow> bool"
  for q :: agent_queue and setting :: int where
  cur_gate: "curator_should_enqueue (cu_db c) repo mode interval moment = MayEnqueue \<Longrightarrow> curated_step q setting c (let_through repo c)"
| cur_enqueue: "req_kind r = ''checks'' \<Longrightarrow> req_repo r \<in> set (cu_waiting c) \<Longrightarrow> enqueue setting (queue_of (cu_db c)) r now created = Inr (i, q')
     \<Longrightarrow> curated_step q setting c (with_queue q' (leave (req_repo r) c))"
| cur_leave: "curated_step q setting c (leave repo c)"
| cur_other: "req_kind r \<noteq> ''checks'' \<Longrightarrow> enqueue setting (queue_of (cu_db c)) r now created = Inr (i, q')
     \<Longrightarrow> curated_step q setting c (with_queue q' c)"
| cur_claim: "claim q locked (queue_of (cu_db c)) w d now = (res, q') \<Longrightarrow> curated_step q setting c (with_queue q' c)"
| cur_run: "mark_running (queue_of (cu_db c)) l now = (b, q') \<Longrightarrow> curated_step q setting c (with_queue q' c)"
| cur_beat: "heartbeat q (queue_of (cu_db c)) l d now = (b, q') \<Longrightarrow> curated_step q setting c (with_queue q' c)"
| cur_succeed: "succeed (queue_of (cu_db c)) l ref now = (b, q') \<Longrightarrow> curated_step q setting c (with_queue q' c)"
| cur_fail: "fail (queue_of (cu_db c)) l err now = Inr (out, q') \<Longrightarrow> curated_step q setting c (with_queue q' c)"
| cur_reclaim: "reclaim_expired q locked (queue_of (cu_db c)) moment = (rep, q') \<Longrightarrow> curated_step q setting c (with_queue q' c)"
| cur_cancel: "cancel (queue_of (cu_db c)) i reason now = (b, q') \<Longrightarrow> curated_step q setting c (with_queue q' c)"
| cur_retry: "retry (queue_of (cu_db c)) i reason now = (b, q') \<Longrightarrow> curated_step q setting c (with_queue q' (count_revived i c))"
| cur_snapshot: "record_suite_snapshot sha256 py_repr (cu_db c) repo kind suite base author model task st now = Some (row, db')
     \<Longrightarrow> curated_step q setting c (c\<lparr>cu_db := db'\<rparr>)"

definition uncurated :: "repo_runner list \<Rightarrow> int list \<Rightarrow> curation" where
  "uncurated rs ids = \<lparr>cu_db = empty_store (empty_queue rs ids), cu_waiting = [], cu_races = (\<lambda>repo. 0), cu_revived = (\<lambda>repo. 0)\<rparr>"

inductive curated_reachable :: "agent_queue \<Rightarrow> int \<Rightarrow> repo_runner list \<Rightarrow> int list \<Rightarrow> curation \<Rightarrow> bool"
  for q :: agent_queue and setting :: int and rs :: "repo_runner list" and ids :: "int list" where
  cur_start: "curated_reachable q setting rs ids (uncurated rs ids)"
| cur_next: "curated_reachable q setting rs ids c \<Longrightarrow> curated_step q setting c c' \<Longrightarrow> curated_reachable q setting rs ids c'"

lemma count_where_only: "distinct (map task_id ts) \<Longrightarrow> count_where (\<lambda>t. task_id t = i \<and> P t) ts \<le> (if list_ex (\<lambda>t. task_id t = i \<and> P t) ts then 1 else 0)"
proof (induction ts)
  case (Cons t ts)
  have "count_where (\<lambda>u. task_id u = i \<and> P u) ts = 0" if "task_id t = i"
    unfolding count_where_zero using Cons.prems that by (auto simp: image_iff)
  then show ?case using Cons by auto
qed simp

lemma open_checks_retry:
  assumes "queue_ok qdb"
  shows "open_checks (snd (retry qdb i reason now)) repo \<le> open_checks qdb repo + (if revives qdb i repo then 1 else 0)"
proof -
  let ?over = "\<lambda>t. task_id t = i \<and> task_status t \<in> {Failed, Dead} \<and> checks_task repo t"
  have a: "count_where (open_checks_task repo) (map (\<lambda>t. if retryable i t then retried_row reason now t else t) ts)
      \<le> count_where (open_checks_task repo) ts + count_where ?over ts" for ts
    by (induction ts) (auto simp: retryable_def is_task_def retried_row_def open_defs)
  have b: "count_where ?over (tasks qdb) \<le> (if list_ex ?over (tasks qdb) then 1 else 0)"
    by (rule count_where_only) (rule queue_ok_distinct [OF assms])
  have c: "list_ex ?over (tasks qdb) = revives qdb i repo" by (simp add: revives_def retryable_def is_task_def conj_assoc)
  show ?thesis
    using a [of "tasks qdb"] b unfolding c open_checks_def retry_def update_tasks_simps fst_update_where by linarith
qed

definition waiting_for :: "curation \<Rightarrow> int \<Rightarrow> nat" where
  "waiting_for c repo = count_where (\<lambda>r. r = repo) (cu_waiting c)"

definition curated_ok :: "curation \<Rightarrow> bool" where
  "curated_ok c \<longleftrightarrow> queue_ok (queue_of (cu_db c))
     \<and> (\<forall>repo. open_checks (queue_of (cu_db c)) repo + waiting_for c repo \<le> 1 + cu_races c repo + cu_revived c repo)"

lemma waiting_leave: "waiting_for (leave repo' c) repo = waiting_for c repo - (if repo = repo' \<and> repo' \<in> set (cu_waiting c) then 1 else 0)"
proof -
  have "count_where (\<lambda>r. r = repo) (remove1 repo' rs) = count_where (\<lambda>r. r = repo) rs - (if repo = repo' \<and> repo' \<in> set rs then 1 else 0)" for rs
  proof (induction rs)
    case (Cons r rs)
    have "r \<in> set rs \<Longrightarrow> 0 < count_where (\<lambda>x. x = r) rs" using count_where_zero [of "\<lambda>x. x = r" rs] by auto
    then show ?case using Cons by auto
  qed simp
  then show ?thesis by (simp add: waiting_for_def leave_def)
qed

lemma waiting_zero: "waiting_for c repo = 0 \<longleftrightarrow> repo \<notin> set (cu_waiting c)"
  by (auto simp: waiting_for_def count_where_zero)

lemma with_queue_ok:
  assumes "curated_ok c" and "queue_step q setting (queue_of (cu_db c)) q'" and "\<And>repo. open_checks q' repo \<le> open_checks (queue_of (cu_db c)) repo"
  shows "curated_ok (with_queue q' c)"
proof -
  have "queue_ok q'" using assms(1,2) step_keeps_ok by (auto simp: curated_ok_def)
  then show ?thesis using assms(1) assms(3) by (auto simp: curated_ok_def with_queue_def waiting_for_def intro: order_trans [OF add_right_mono])
qed

lemma curated_step_ok:
  assumes "curated_step q setting c c'" and "curated_ok c"
  shows "curated_ok c'"
proof -
  let ?q = "queue_of (cu_db c)"
  have ok: "queue_ok ?q" and le: "\<And>repo. open_checks ?q repo + waiting_for c repo \<le> 1 + cu_races c repo + cu_revived c repo"
    using assms(2) by (auto simp: curated_ok_def)
  show ?thesis
    using assms(1)
  proof (cases rule: curated_step.cases)
    case (cur_gate repo mode interval moment)
    have none: "open_checks ?q repo = 0" by (rule gate_open_none [OF cur_gate(2)])
    have "open_checks ?q r + waiting_for (let_through repo c) r \<le> 1 + cu_races (let_through repo c) r + cu_revived c r" for r
      using le [of r] none waiting_zero [of c repo] by (auto simp: let_through_def waiting_for_def)
    then show ?thesis using ok cur_gate(1) by (simp add: curated_ok_def let_through_def)
  next
    case (cur_enqueue r now created i q')
    have "queue_ok q'" using step_keeps_ok [OF step_enqueue [OF cur_enqueue(4)] ok] by blast
    moreover have "open_checks q' repo + waiting_for (leave (req_repo r) c) repo \<le> 1 + cu_races c repo + cu_revived c repo" for repo
      using le [of repo] open_checks_enqueue [OF cur_enqueue(4), of repo] cur_enqueue(3) waiting_zero [of c repo]
      by (auto simp: waiting_leave split: if_splits)
    ultimately show ?thesis unfolding cur_enqueue(1) by (simp add: curated_ok_def with_queue_def) (simp add: leave_def waiting_for_def)
  next
    case (cur_leave repo)
    have "open_checks ?q r + waiting_for (leave repo c) r \<le> 1 + cu_races c r + cu_revived c r" for r
      using le [of r] by (simp add: waiting_leave)
    then show ?thesis unfolding cur_leave using ok by (simp add: curated_ok_def) (simp add: leave_def waiting_for_def)
  next
    case (cur_other r now created i q')
    then have "open_checks q' repo \<le> open_checks ?q repo" for repo using open_checks_enqueue [OF cur_other(3), of repo] by simp
    then show ?thesis unfolding cur_other(1) by (rule with_queue_ok [OF assms(2) step_enqueue [OF cur_other(3)]])
  next
    case (cur_claim locked w d now res q')
    show ?thesis unfolding cur_claim(1)
      by (rule with_queue_ok [OF assms(2) step_claim [OF cur_claim(2)] open_checks_claim [OF ok cur_claim(2)]])
  next
    case (cur_run l now b q')
    then show ?thesis using open_checks_guarded(1) [of ?q l now]
      by (metis (no_types, lifting) with_queue_ok [OF assms(2)] step_run snd_conv)
  next
    case (cur_beat l d now b q')
    then show ?thesis using open_checks_guarded(2) [of q ?q l d now]
      by (metis (no_types, lifting) with_queue_ok [OF assms(2)] step_beat snd_conv)
  next
    case (cur_succeed l ref now b q')
    then show ?thesis using open_checks_guarded(3) [of ?q l ref now]
      by (metis (no_types, lifting) with_queue_ok [OF assms(2)] step_succeed snd_conv)
  next
    case (cur_fail l err now out q')
    show ?thesis unfolding cur_fail(1)
      by (rule with_queue_ok [OF assms(2) step_fail [OF cur_fail(2)] open_checks_fail [OF ok cur_fail(2)]])
  next
    case (cur_reclaim locked moment rep q')
    then show ?thesis using open_checks_guarded(4) [of q locked ?q moment]
      by (metis (no_types, lifting) with_queue_ok [OF assms(2)] step_reclaim snd_conv)
  next
    case (cur_cancel i reason now b q')
    then show ?thesis using open_checks_guarded(5) [of ?q i reason now]
      by (metis (no_types, lifting) with_queue_ok [OF assms(2)] step_cancel snd_conv)
  next
    case (cur_retry i reason now b q')
    then have q': "q' = snd (retry ?q i reason now)" by simp
    have "queue_ok q'" using step_keeps_ok [OF step_retry [OF cur_retry(2)] ok] by blast
    moreover have "open_checks q' repo + waiting_for c repo \<le> 1 + cu_races c repo + cu_revived (count_revived i c) repo" for repo
      using le [of repo] open_checks_retry [OF ok, of i reason now repo] by (auto simp: q' count_revived_def split: if_splits)
    ultimately show ?thesis unfolding cur_retry(1) by (simp add: curated_ok_def with_queue_def) (simp add: count_revived_def waiting_for_def)
  next
    case cur_snapshot
    then have "queue_of (cu_db c') = ?q" "cu_waiting c' = cu_waiting c" "cu_races c' = cu_races c" "cu_revived c' = cu_revived c"
      by (auto elim!: record_snapshot_cases)
    then show ?thesis using assms(2) by (simp add: curated_ok_def waiting_for_def)
  qed
qed


subsection \<open>Witnesses\<close>

abbreviation one_check :: check_suite where
  "one_check \<equiv> \<lparr>suite_checks = [\<lparr>cmd_id = ''unit'', cmd_argv = [''pytest''], cmd_cwd = ''.'', cmd_timeout = None,
     cmd_validation = VALIDATED, cmd_source = SOURCE_AGENT_CHECKS\<rparr>], source_of = SOURCE_AGENT_CHECKS\<rparr>"

abbreviation bare_store :: check_db where
  "bare_store \<equiv> empty_store (empty_queue [] [7])"

abbreviation red_run :: run_record where
  "red_run \<equiv> \<lparr>r_check = ''unit'', r_state = FAILED, r_suite_hash = [], r_commit = [], r_exit = Some 1, r_duration = 5,
     r_at = 0, r_validation = VALIDATED, r_weakened = False\<rparr>"

abbreviation checks_request :: enqueue_request where
  "checks_request \<equiv> \<lparr>req_repo = 7, req_kind = ''checks'', req_payload = None, req_priority = 0, req_max_attempts = 3,
     req_scheduled_at = None, req_dedup_key = None, req_max_in_flight = None\<rparr>"

theorem snapshot_upsert_witness:
  "\<exists>row db'. record_suite_snapshot id (\<lambda>_. ''x'') bare_store 7 ''ai'' one_check None ''ai'' [] None ''active'' 3 = Some (row, db')
     \<and> snapshot_row db' 7 ''ai'' (suite_fingerprint id (\<lambda>_. ''x'') one_check) = Some row \<and> sn_status row = ''active''"
proof -
  let ?h = "suite_fingerprint id (\<lambda>_. ''x'') one_check"
  let ?row = "new_snapshot bare_store 7 ''ai'' ?h one_check None ''ai'' [] None ''active'' 3"
  have r: "record_suite_snapshot id (\<lambda>_. ''x'') bare_store 7 ''ai'' one_check None ''ai'' [] None ''active'' 3 =
      Some (?row, bare_store\<lparr>snapshots := [?row], next_row := 2\<rparr>)"
    by (simp add: record_suite_snapshot_def snapshot_row_def empty_store_def empty_queue_def snapshot_valid_def new_snapshot_def
        CHECK_SUITE_KIND_def CHECK_SUITE_STATUS_def CHECK_AUTHOR_def or_str_def Let_def)
  show ?thesis
    using snapshot_upsert [OF store_start r, of 7 "''ai''" ?h] r by auto
qed

theorem history_stores_agree_witness:
  "\<exists>db'. append_batches 7 [(1, [red_run]), (2, [red_run])] bare_store = Some db'
     \<and> map counts (history_summaries db' 7) = [(''unit'', 2, 2, 0, False)]"
proof -
  obtain db' where db': "append_batches 7 [(1, [red_run]), (2, [red_run])] bare_store = Some db'"
    unfolding append_batches_def database.add_all.simps
    by (simp add: store_append_def record_runs_def empty_store_def empty_queue_def FAILED_def CHECK_RUN_STATE_def)
  show ?thesis
    using history_stores_agree [OF db'] db'
    by (simp add: empty_store_def fold_add_run_summary summary_of_def runs_of_def counts_def)
qed

lemma checks_task_added:
  "\<exists>q'. enqueue 0 (empty_queue [] [7]) checks_request 0 0 = Inr (1, q') \<and> open_checks q' 7 = 1
    \<and> (\<exists>q''. enqueue 0 q' checks_request 0 0 = Inr (2, q'') \<and> open_checks q'' 7 = 2)"
  by (simp add: empty_queue_def enqueue_def TASK_KIND_def opt_str_def py_strip_def py_lstrip_def py_rstrip_def
      enqueue_ceiling_def active_count_def Let_def open_checks_def open_defs configured_max_in_flight_per_repo_def)

lemma gate_of_bare: "curator_should_enqueue bare_store 7 ''auto'' 0 0 = MayEnqueue"
  by (simp add: curator_should_enqueue_def empty_store_def empty_queue_def)


end
