(* ===== verification/Docs.thy ===== *)
theory Docs
  imports Prelude "HOL-Library.Char_ord" "HOL-Library.List_Lexorder" "HOL-Library.Product_Lexorder"
begin

section \<open>Documents, revisions and assets\<close>

text \<open>
  \<open>backend/services/docs.py\<close> on its three tables (\<open>backend/models/docs.py\<close>) and the object store behind them. A service call
  is split where another request may come between: reading the rows it starts from (\<open>begin_\<close>), writing its object
  (\<open>put_object\<close>), the transaction (\<open>commit_\<close>) and removing objects afterwards (\<open>remove_objects\<close>); the calls themselves compose
  these phases. Arguments: \<open>utf8\<close> and \<open>decode\<close> (text and bytes), \<open>sha256\<close>, the media type guess, and \<open>uuid\<close>, the
  sequence of keys \<open>uuid4\<close> draws. Bytes are strings. The Chinese messages of validation errors are not kept.
\<close>

definition ECOSYSTEMS :: "string list" where
  "ECOSYSTEMS = [''python'', ''npm'', ''docker'', ''debian'', ''tools'', ''models'']"
definition DOC_CONTENT_TYPE :: string where "DOC_CONTENT_TYPE = ''text/markdown''"
definition SLUG_MAX :: nat where "SLUG_MAX = 96"
definition TITLE_MAX :: nat where "TITLE_MAX = 160"
definition ASSET_NAME_MAX :: nat where "ASSET_NAME_MAX = 160"
definition MAX_DOC_BYTES :: nat where "MAX_DOC_BYTES = 2 * 1024 * 1024"
definition MAX_ASSET_BYTES :: nat where "MAX_ASSET_BYTES = 16 * 1024 * 1024"

datatype name_error = Empty | TooLong | LeadingDot | Forbidden | NoExtension

datatype doc_error = UnknownEcosystem string | Invalid name_error | TooBig | NotFound string
  | RevisionConflict string int int | Rejected | Undecodable

subsection \<open>Names\<close>

definition is_control :: "char \<Rightarrow> bool" where
  "is_control c \<longleftrightarrow> (of_char c :: nat) < 32"

definition forbidden_char :: "char \<Rightarrow> bool" where
  "forbidden_char c \<longleftrightarrow> c \<in> {CHR ''/'', CHR 0x5C, CHR '':'', CHR ''*'', CHR ''?'', CHR 0x22, CHR ''<'', CHR ''>'', CHR ''|''}"

definition normalize_title :: "string \<Rightarrow> name_error + string" where
  "normalize_title title =
     (let candidate = py_strip title
      in if candidate = [] then Inl Empty
         else if length candidate > TITLE_MAX then Inl TooLong
         else if list_ex is_control candidate then Inl Forbidden
         else Inr candidate)"

definition slug_char :: "char \<Rightarrow> bool" where
  "slug_char c \<longleftrightarrow> is_alpha c \<or> is_digit c \<or> c \<in> {CHR ''-'', CHR ''_'', CHR ''.''}"

definition edge_char :: "char \<Rightarrow> bool" where
  "edge_char c \<longleftrightarrow> c \<in> {CHR ''-'', CHR ''.'', CHR ''_''}"

definition strip_edges :: "string \<Rightarrow> string" where
  "strip_edges s = rev (dropWhile edge_char (rev (dropWhile edge_char s)))"

text \<open>\<open>re.sub(r"\s+", "-", s)\<close> and \<open>re.sub(r"-{2,}", "-", s)\<close>.\<close>

fun dash_blanks :: "string \<Rightarrow> string" where
  "dash_blanks [] = []"
| "dash_blanks (c # s) =
     (if py_isspace c then (if s \<noteq> [] \<and> py_isspace (hd s) then dash_blanks s else CHR ''-'' # dash_blanks s)
      else c # dash_blanks s)"

fun collapse_dashes :: "string \<Rightarrow> string" where
  "collapse_dashes [] = []"
| "collapse_dashes (c # s) =
     (if c = CHR ''-'' \<and> s \<noteq> [] \<and> hd s = CHR ''-'' then collapse_dashes s else c # collapse_dashes s)"

definition slugify :: "string \<Rightarrow> string" where
  "slugify title =
     (let text = dash_blanks (py_lower (py_strip title));
          text = map (\<lambda>c. if slug_char c then c else CHR ''-'') text;
          text = or_str (strip_edges (collapse_dashes text)) ''doc''
      in or_str (strip_edges (take SLUG_MAX text)) ''doc'')"

definition normalize_doc_id :: "string \<Rightarrow> name_error + string" where
  "normalize_doc_id value =
     (let candidate = py_strip value
      in if candidate = [] then Inl Empty
         else if length candidate > SLUG_MAX then Inl TooLong
         else if startswith candidate ''.'' then Inl LeadingDot
         else if list_ex (\<lambda>c. forbidden_char c \<or> is_control c) candidate then Inl Forbidden
         else Inr candidate)"

definition normalize_asset_name :: "string \<Rightarrow> name_error + string" where
  "normalize_asset_name name =
     (let candidate = last (split_on CHR ''/'' (replace_char CHR 0x5C CHR ''/'' (py_strip name)))
      in if candidate = [] then Inl Empty
         else if length candidate > ASSET_NAME_MAX then Inl TooLong
         else if startswith candidate ''.'' then Inl LeadingDot
         else if list_ex (\<lambda>c. forbidden_char c \<or> is_control c) candidate then Inl Forbidden
         else if CHR ''.'' \<notin> set candidate then Inl NoExtension
         else Inr candidate)"

fun first_heading :: "string list \<Rightarrow> string" where
  "first_heading [] = []"
| "first_heading (l # ls) =
     (let stripped = py_strip l
      in if startswith stripped ''# '' then py_strip (rstrip_char CHR ''#'' (py_strip (drop 2 stripped)))
         else first_heading ls)"

definition heading_in_text :: "string \<Rightarrow> string" where
  "heading_in_text text = first_heading (take 200 (splitlines text))"

subsection \<open>Tables\<close>

record document =
  d_id :: int
  d_eco :: string
  d_slug :: string
  d_title :: string
  d_revision :: int
  d_key :: string
  d_size :: nat
  d_sha :: "string option"
  d_created :: timestamp
  d_modified :: timestamp
  d_created_by :: "string option"
  d_modified_by :: "string option"

record doc_revision =
  rv_doc :: int
  rv_number :: int
  rv_key :: string
  rv_size :: nat
  rv_sha :: "string option"
  rv_type :: string
  rv_title :: string
  rv_at :: timestamp
  rv_by :: "string option"

record doc_asset =
  as_id :: int
  as_doc :: int
  as_name :: string
  as_key :: string
  as_size :: nat
  as_sha :: "string option"
  as_type :: string
  as_by :: "string option"

text \<open>
  The primary keys come from a sequence on PostgreSQL; SQLite hands out one more than the largest id in the table. The
  objects of the store are part of the state, and the number of keys drawn so far.
\<close>

datatype id_source = Sequence | Largest

record docs_db =
  documents :: "document list"
  revisions :: "doc_revision list"
  doc_assets :: "doc_asset list"
  objects :: "string \<rightharpoonup> string"
  next_document :: int
  next_asset :: int
  drawn :: nat

definition empty_docs :: docs_db where
  "empty_docs = \<lparr>documents = [], revisions = [], doc_assets = [], objects = Map.empty, next_document = 1, next_asset = 1,
     drawn = 0\<rparr>"

definition new_id :: "id_source \<Rightarrow> int \<Rightarrow> int list \<Rightarrow> int" where
  "new_id src next used = (case src of Sequence \<Rightarrow> next | Largest \<Rightarrow> fold max used 0 + 1)"

subsection \<open>Queries\<close>

definition find_document :: "docs_db \<Rightarrow> string \<Rightarrow> string \<Rightarrow> document option" where
  "find_document db eco slug = find (\<lambda>d. d_eco d = eco \<and> d_slug d = slug) (documents db)"

definition require_document :: "docs_db \<Rightarrow> string \<Rightarrow> string \<Rightarrow> doc_error + document" where
  "require_document db eco doc_id =
     (if eco \<notin> set ECOSYSTEMS then Inl (UnknownEcosystem eco)
      else (case normalize_doc_id doc_id of
          Inl e \<Rightarrow> Inl (Invalid e)
        | Inr slug \<Rightarrow> (case find_document db eco slug of None \<Rightarrow> Inl (NotFound slug) | Some d \<Rightarrow> Inr d)))"

definition assets_of :: "docs_db \<Rightarrow> int \<Rightarrow> doc_asset list" where
  "assets_of db i = sort_key (\<lambda>a. py_lower (as_name a)) (filter (\<lambda>a. as_doc a = i) (doc_assets db))"

definition find_asset :: "docs_db \<Rightarrow> int \<Rightarrow> string \<Rightarrow> doc_asset option" where
  "find_asset db i name = find (\<lambda>a. as_doc a = i \<and> as_name a = name) (doc_assets db)"

definition find_revision :: "docs_db \<Rightarrow> int \<Rightarrow> int \<Rightarrow> doc_revision option" where
  "find_revision db i n = find (\<lambda>r. rv_doc r = i \<and> rv_number r = n) (revisions db)"

text \<open>\<open>scan\<close>: the rows of an ecosystem with their asset counts; the URLs of an entry are formatting.\<close>

definition scan :: "docs_db \<Rightarrow> string \<Rightarrow> doc_error + (document \<times> nat) list" where
  "scan db eco =
     (if eco \<notin> set ECOSYSTEMS then Inl (UnknownEcosystem eco)
      else Inr (map (\<lambda>d. (d, count_where (\<lambda>a. as_doc a = d_id d) (doc_assets db)))
             (sort_key (\<lambda>d. py_lower (d_slug d)) (filter (\<lambda>d. d_eco d = eco) (documents db)))))"

definition doc_history :: "docs_db \<Rightarrow> string \<Rightarrow> string \<Rightarrow> doc_error + (doc_revision \<times> bool) list" where
  "doc_history db eco doc_id =
     (case require_document db eco doc_id of
        Inl e \<Rightarrow> Inl e
      | Inr row \<Rightarrow> Inr (map (\<lambda>r. (r, rv_number r = d_revision row))
          (rev (sort_key rv_number (filter (\<lambda>r. rv_doc r = d_id row) (revisions db))))))"

definition stored :: "docs_db \<Rightarrow> string \<Rightarrow> string \<Rightarrow> doc_error + string \<times> string" where
  "stored db key ctype = (case objects db key of None \<Rightarrow> Inl (NotFound key) | Some b \<Rightarrow> Inr (b, or_str ctype DOC_CONTENT_TYPE))"

definition open_body :: "docs_db \<Rightarrow> string \<Rightarrow> string \<Rightarrow> int option \<Rightarrow> doc_error + string \<times> string" where
  "open_body db eco doc_id revision =
     (case require_document db eco doc_id of
        Inl e \<Rightarrow> Inl e
      | Inr row \<Rightarrow>
          (case revision of
             None \<Rightarrow> stored db (d_key row) DOC_CONTENT_TYPE
           | Some n \<Rightarrow>
               if n = d_revision row then stored db (d_key row) DOC_CONTENT_TYPE
               else (case find_revision db (d_id row) n of
                   None \<Rightarrow> Inl (NotFound (d_slug row @ ''@'' @ str_of_int n))
                 | Some r \<Rightarrow> stored db (rv_key r) (rv_type r))))"

definition open_asset :: "docs_db \<Rightarrow> string \<Rightarrow> string \<Rightarrow> string \<Rightarrow> doc_error + string \<times> doc_asset" where
  "open_asset db eco doc_id name =
     (case require_document db eco doc_id of
        Inl e \<Rightarrow> Inl e
      | Inr row \<Rightarrow>
          (case normalize_asset_name name of
             Inl e \<Rightarrow> Inl (Invalid e)
           | Inr fname \<Rightarrow>
               (case find_asset db (d_id row) fname of
                  None \<Rightarrow> Inl (NotFound fname)
                | Some a \<Rightarrow> (case objects db (as_key a) of None \<Rightarrow> Inl (NotFound (as_key a)) | Some b \<Rightarrow> Inr (b, a)))))"

definition read_document :: "(string \<Rightarrow> string option) \<Rightarrow> docs_db \<Rightarrow> string \<Rightarrow> string \<Rightarrow> doc_error + document \<times> string \<times> doc_asset list" where
  "read_document decode db eco doc_id =
     (case require_document db eco doc_id of
        Inl e \<Rightarrow> Inl e
      | Inr row \<Rightarrow>
          (case objects db (d_key row) of
             None \<Rightarrow> Inl (NotFound (d_key row))
           | Some b \<Rightarrow> (case decode b of None \<Rightarrow> Inl Undecodable | Some t \<Rightarrow> Inr (row, t, assets_of db (d_id row)))))"

definition document_keys :: "docs_db \<Rightarrow> int \<Rightarrow> string list" where
  "document_keys db i =
     filter (\<lambda>k. k \<noteq> []) (map rv_key (filter (\<lambda>r. rv_doc r = i) (revisions db)) @ map as_key (assets_of db i))"

subsection \<open>Phases of a save\<close>

text \<open>A save under way: the row it loaded (none for a new document), and what it will write.\<close>

record pending =
  p_row :: "document option"
  p_eco :: string
  p_slug :: string
  p_title :: string
  p_body :: string
  p_by :: "string option"
  p_at :: timestamp

definition begin_save_document :: "(string \<Rightarrow> string) \<Rightarrow> docs_db \<Rightarrow> string \<Rightarrow> string \<Rightarrow> string \<Rightarrow> string option \<Rightarrow> string option
    \<Rightarrow> timestamp \<Rightarrow> doc_error + pending" where
  "begin_save_document utf8 db eco title content doc_id actor now =
     (if eco \<notin> set ECOSYSTEMS then Inl (UnknownEcosystem eco)
      else if length (utf8 content) > MAX_DOC_BYTES then Inl TooBig
      else (case normalize_title title of
          Inl e \<Rightarrow> Inl (Invalid e)
        | Inr clean \<Rightarrow>
            (case (if opt_str doc_id \<noteq> [] then normalize_doc_id (opt_str doc_id) else Inr (slugify clean)) of
               Inl e \<Rightarrow> Inl (Invalid e)
             | Inr slug \<Rightarrow> Inr \<lparr>p_row = find_document db eco slug, p_eco = eco, p_slug = slug, p_title = clean,
                 p_body = utf8 content, p_by = actor, p_at = now\<rparr>)))"

definition begin_save_content :: "(string \<Rightarrow> string) \<Rightarrow> docs_db \<Rightarrow> string \<Rightarrow> string \<Rightarrow> string \<Rightarrow> int option \<Rightarrow> string option
    \<Rightarrow> timestamp \<Rightarrow> doc_error + pending" where
  "begin_save_content utf8 db eco doc_id content revision actor now =
     (if length (utf8 content) > MAX_DOC_BYTES then Inl TooBig
      else (case require_document db eco doc_id of
          Inl e \<Rightarrow> Inl e
        | Inr row \<Rightarrow>
            if revision \<noteq> None \<and> revision \<noteq> Some (d_revision row)
            then Inl (RevisionConflict (d_slug row) (the revision) (d_revision row))
            else (case normalize_title (or_str (heading_in_text content) (or_str (py_strip (d_title row)) (d_slug row))) of
                 Inl e \<Rightarrow> Inl (Invalid e)
               | Inr title \<Rightarrow> Inr \<lparr>p_row = Some row, p_eco = d_eco row, p_slug = d_slug row, p_title = title,
                   p_body = utf8 content, p_by = actor, p_at = now\<rparr>)))"

definition put_object :: "(nat \<Rightarrow> string) \<Rightarrow> docs_db \<Rightarrow> string \<Rightarrow> string \<times> docs_db" where
  "put_object uuid db body =
     (let key = uuid (drawn db) in (key, db\<lparr>objects := (objects db)(key \<mapsto> body), drawn := drawn db + 1\<rparr>))"

definition remove_objects :: "docs_db \<Rightarrow> string list \<Rightarrow> docs_db" where
  "remove_objects db keys = db\<lparr>objects := (objects db) |` (- set keys)\<rparr>"

text \<open>
  The unit of work only writes the columns whose value differs from the one loaded. The transaction is refused when the row it
  updates is gone, when the document has the revision already, or when another document has the slug.
\<close>

definition write_col :: "'a \<Rightarrow> 'a \<Rightarrow> 'a \<Rightarrow> 'a" where
  "write_col new loaded cur = (if new = loaded then cur else new)"

definition revision_of :: "(string \<Rightarrow> string) \<Rightarrow> pending \<Rightarrow> string \<Rightarrow> timestamp \<Rightarrow> int \<Rightarrow> int \<Rightarrow> doc_revision" where
  "revision_of sha256 p key now i n =
     \<lparr>rv_doc = i, rv_number = n, rv_key = key, rv_size = length (p_body p), rv_sha = Some (sha256 (p_body p)),
      rv_type = DOC_CONTENT_TYPE, rv_title = p_title p, rv_at = now, rv_by = p_by p\<rparr>"

definition saved_row :: "(string \<Rightarrow> string) \<Rightarrow> pending \<Rightarrow> string \<Rightarrow> timestamp \<Rightarrow> document \<Rightarrow> document \<Rightarrow> document" where
  "saved_row sha256 p key now loaded cur =
     cur\<lparr>d_revision := d_revision loaded + 1,
         d_title := write_col (p_title p) (d_title loaded) (d_title cur),
         d_key := write_col key (d_key loaded) (d_key cur),
         d_size := write_col (length (p_body p)) (d_size loaded) (d_size cur),
         d_sha := write_col (Some (sha256 (p_body p))) (d_sha loaded) (d_sha cur),
         d_modified := write_col now (d_modified loaded) (d_modified cur),
         d_modified_by := write_col (p_by p) (d_modified_by loaded) (d_modified_by cur)\<rparr>"

definition new_document :: "(string \<Rightarrow> string) \<Rightarrow> pending \<Rightarrow> string \<Rightarrow> timestamp \<Rightarrow> int \<Rightarrow> document" where
  "new_document sha256 p key now i =
     \<lparr>d_id = i, d_eco = p_eco p, d_slug = p_slug p, d_title = p_title p, d_revision = 1, d_key = key,
      d_size = length (p_body p), d_sha = Some (sha256 (p_body p)), d_created = p_at p, d_modified = now,
      d_created_by = p_by p, d_modified_by = p_by p\<rparr>"

definition commit_revision :: "(string \<Rightarrow> string) \<Rightarrow> id_source \<Rightarrow> docs_db \<Rightarrow> pending \<Rightarrow> string \<Rightarrow> timestamp \<Rightarrow> (int \<times> docs_db) option" where
  "commit_revision sha256 src db p key now =
     (case p_row p of
        None \<Rightarrow>
          if find_document db (p_eco p) (p_slug p) \<noteq> None then None
          else (let i = new_id src (next_document db) (map d_id (documents db))
                in if find_revision db i 1 \<noteq> None then None
                   else Some (i, db\<lparr>documents := documents db @ [new_document sha256 p key now i],
                          revisions := revisions db @ [revision_of sha256 p key now i 1],
                          next_document := next_document db + 1\<rparr>))
      | Some loaded \<Rightarrow>
          if \<not> list_ex (\<lambda>d. d_id d = d_id loaded) (documents db) then None
          else if find_revision db (d_id loaded) (d_revision loaded + 1) \<noteq> None then None
          else Some (d_id loaded, db\<lparr>
            documents := map (\<lambda>d. if d_id d = d_id loaded then saved_row sha256 p key now loaded d else d) (documents db),
            revisions := revisions db @ [revision_of sha256 p key now (d_id loaded) (d_revision loaded + 1)]\<rparr>))"

definition store_revision :: "(string \<Rightarrow> string) \<Rightarrow> (nat \<Rightarrow> string) \<Rightarrow> id_source \<Rightarrow> docs_db \<Rightarrow> pending \<Rightarrow> timestamp
    \<Rightarrow> (doc_error + int) \<times> docs_db" where
  "store_revision sha256 uuid src db p now =
     (let (key, db1) = put_object uuid db (p_body p)
      in case commit_revision sha256 src db1 p key now of
           None \<Rightarrow> (Inl Rejected, remove_objects db1 [key])
         | Some (i, db2) \<Rightarrow> (Inr i, db2))"

definition save_document :: "(string \<Rightarrow> string) \<Rightarrow> (string \<Rightarrow> string) \<Rightarrow> (nat \<Rightarrow> string) \<Rightarrow> id_source \<Rightarrow> docs_db \<Rightarrow> string \<Rightarrow> string
    \<Rightarrow> string \<Rightarrow> string option \<Rightarrow> string option \<Rightarrow> timestamp \<Rightarrow> (doc_error + int \<times> bool) \<times> docs_db" where
  "save_document utf8 sha256 uuid src db eco title content doc_id actor now =
     (case begin_save_document utf8 db eco title content doc_id actor now of
        Inl e \<Rightarrow> (Inl e, db)
      | Inr p \<Rightarrow>
          (case store_revision sha256 uuid src db p now of
             (Inl e, db') \<Rightarrow> (Inl e, db')
           | (Inr i, db') \<Rightarrow> (Inr (i, p_row p \<noteq> None), db')))"

definition save_content :: "(string \<Rightarrow> string) \<Rightarrow> (string \<Rightarrow> string) \<Rightarrow> (nat \<Rightarrow> string) \<Rightarrow> id_source \<Rightarrow> docs_db \<Rightarrow> string \<Rightarrow> string
    \<Rightarrow> string \<Rightarrow> int option \<Rightarrow> string option \<Rightarrow> timestamp \<Rightarrow> (doc_error + int) \<times> docs_db" where
  "save_content utf8 sha256 uuid src db eco doc_id content revision actor now =
     (case begin_save_content utf8 db eco doc_id content revision actor now of
        Inl e \<Rightarrow> (Inl e, db)
      | Inr p \<Rightarrow> store_revision sha256 uuid src db p now)"

subsection \<open>Phases of a deletion\<close>

definition begin_delete :: "docs_db \<Rightarrow> string \<Rightarrow> string \<Rightarrow> doc_error + int \<times> string list" where
  "begin_delete db eco doc_id =
     (case require_document db eco doc_id of Inl e \<Rightarrow> Inl e | Inr row \<Rightarrow> Inr (d_id row, document_keys db (d_id row)))"

text \<open>The row goes, and with it, by the foreign keys, its revisions and assets.\<close>

definition commit_delete :: "docs_db \<Rightarrow> int \<Rightarrow> docs_db" where
  "commit_delete db i =
     db\<lparr>documents := filter (\<lambda>d. d_id d \<noteq> i) (documents db), revisions := filter (\<lambda>r. rv_doc r \<noteq> i) (revisions db),
        doc_assets := filter (\<lambda>a. as_doc a \<noteq> i) (doc_assets db)\<rparr>"

definition delete_document :: "docs_db \<Rightarrow> string \<Rightarrow> string \<Rightarrow> (doc_error + int) \<times> docs_db" where
  "delete_document db eco doc_id =
     (case begin_delete db eco doc_id of
        Inl e \<Rightarrow> (Inl e, db)
      | Inr (i, keys) \<Rightarrow> (Inr i, remove_objects (commit_delete db i) keys))"

subsection \<open>Phases of an asset\<close>

record pending_asset =
  pa_doc :: int
  pa_name :: string
  pa_body :: string
  pa_type :: string
  pa_by :: "string option"

definition begin_save_asset :: "(string \<Rightarrow> string) \<Rightarrow> docs_db \<Rightarrow> string \<Rightarrow> string \<Rightarrow> string \<Rightarrow> string \<Rightarrow> string option
    \<Rightarrow> doc_error + pending_asset" where
  "begin_save_asset guess_type db eco doc_id name data actor =
     (if length data > MAX_ASSET_BYTES then Inl TooBig
      else (case require_document db eco doc_id of
          Inl e \<Rightarrow> Inl e
        | Inr row \<Rightarrow>
            (case normalize_asset_name name of
               Inl e \<Rightarrow> Inl (Invalid e)
             | Inr fname \<Rightarrow> Inr \<lparr>pa_doc = d_id row, pa_name = fname, pa_body = data, pa_type = guess_type fname,
                 pa_by = actor\<rparr>)))"

definition commit_asset :: "(string \<Rightarrow> string) \<Rightarrow> id_source \<Rightarrow> docs_db \<Rightarrow> pending_asset \<Rightarrow> string \<Rightarrow> doc_asset option
    \<Rightarrow> docs_db option" where
  "commit_asset sha256 src db p key loaded =
     (case loaded of
        None \<Rightarrow>
          if \<not> list_ex (\<lambda>d. d_id d = pa_doc p) (documents db) then None
          else if find_asset db (pa_doc p) (pa_name p) \<noteq> None then None
          else Some (db\<lparr>doc_assets := doc_assets db @ [\<lparr>as_id = new_id src (next_asset db) (map as_id (doc_assets db)),
                 as_doc = pa_doc p, as_name = pa_name p, as_key = key, as_size = length (pa_body p),
                 as_sha = Some (sha256 (pa_body p)), as_type = pa_type p, as_by = pa_by p\<rparr>],
               next_asset := next_asset db + 1\<rparr>)
      | Some a \<Rightarrow>
          if \<not> list_ex (\<lambda>b. as_id b = as_id a) (doc_assets db) then None
          else Some (db\<lparr>doc_assets := map (\<lambda>b. if as_id b = as_id a then b\<lparr>as_key := write_col key (as_key a) (as_key b),
                 as_size := write_col (length (pa_body p)) (as_size a) (as_size b),
                 as_sha := write_col (Some (sha256 (pa_body p))) (as_sha a) (as_sha b),
                 as_type := write_col (pa_type p) (as_type a) (as_type b)\<rparr> else b) (doc_assets db)\<rparr>))"

definition save_asset :: "(string \<Rightarrow> string) \<Rightarrow> (string \<Rightarrow> string) \<Rightarrow> (nat \<Rightarrow> string) \<Rightarrow> id_source \<Rightarrow> docs_db \<Rightarrow> string \<Rightarrow> string
    \<Rightarrow> string \<Rightarrow> string \<Rightarrow> string option \<Rightarrow> (doc_error + string) \<times> docs_db" where
  "save_asset guess_type sha256 uuid src db eco doc_id name data actor =
     (case begin_save_asset guess_type db eco doc_id name data actor of
        Inl e \<Rightarrow> (Inl e, db)
      | Inr p \<Rightarrow>
          (let (key, db1) = put_object uuid db (pa_body p); loaded = find_asset db1 (pa_doc p) (pa_name p)
           in case commit_asset sha256 src db1 p key loaded of
                None \<Rightarrow> (Inl Rejected, remove_objects db1 [key])
              | Some db2 \<Rightarrow> (Inr (pa_name p),
                  (case loaded of None \<Rightarrow> db2
                   | Some a \<Rightarrow> if as_key a \<noteq> [] \<and> as_key a \<noteq> key then remove_objects db2 [as_key a] else db2))))"

definition begin_delete_asset :: "docs_db \<Rightarrow> string \<Rightarrow> string \<Rightarrow> string \<Rightarrow> doc_error + int \<times> string" where
  "begin_delete_asset db eco doc_id name =
     (case require_document db eco doc_id of
        Inl e \<Rightarrow> Inl e
      | Inr row \<Rightarrow>
          (case normalize_asset_name name of
             Inl e \<Rightarrow> Inl (Invalid e)
           | Inr fname \<Rightarrow> (case find_asset db (d_id row) fname of
               None \<Rightarrow> Inl (NotFound fname) | Some a \<Rightarrow> Inr (as_id a, as_key a))))"

definition commit_delete_asset :: "docs_db \<Rightarrow> int \<Rightarrow> docs_db" where
  "commit_delete_asset db i = db\<lparr>doc_assets := filter (\<lambda>a. as_id a \<noteq> i) (doc_assets db)\<rparr>"

definition delete_asset :: "docs_db \<Rightarrow> string \<Rightarrow> string \<Rightarrow> string \<Rightarrow> (doc_error + int) \<times> docs_db" where
  "delete_asset db eco doc_id name =
     (case begin_delete_asset db eco doc_id name of
        Inl e \<Rightarrow> (Inl e, db)
      | Inr (i, key) \<Rightarrow> (Inr i, remove_objects (commit_delete_asset db i) [key]))"

subsection \<open>The folder tree\<close>

text \<open>
  A folder tree as it is read: for a document directory its name, \<open>document.md\<close> if there is one, the title and the
  usable time stamps of \<open>meta.json\<close>, and the files under \<open>assets\<close>. \<open>None\<close> as a result is the database error that ends an import.
  An error of the report is kept as the path it starts with.
\<close>

record tree_doc =
  td_name :: string
  td_body :: "string option"
  td_title :: string
  td_created :: "timestamp option"
  td_modified :: "timestamp option"
  td_assets :: "(string \<times> string) list"

record import_report =
  rp_documents :: nat
  rp_replaced :: nat
  rp_unchanged :: nat
  rp_assets :: nat
  rp_errors :: "string list"

definition empty_report :: import_report where
  "empty_report = \<lparr>rp_documents = 0, rp_replaced = 0, rp_unchanged = 0, rp_assets = 0, rp_errors = []\<rparr>"

definition report_error :: "string \<Rightarrow> import_report \<Rightarrow> import_report" where
  "report_error path rep = rep\<lparr>rp_errors := rp_errors rep @ [path]\<rparr>"

definition tree_title :: "tree_doc \<Rightarrow> string \<Rightarrow> string \<Rightarrow> string" where
  "tree_title td slug content =
     (if py_strip (td_title td) \<noteq> [] then py_strip (td_title td) else or_str (heading_in_text content) slug)"

definition stamp_document :: "int \<Rightarrow> timestamp option \<Rightarrow> timestamp option \<Rightarrow> docs_db \<Rightarrow> docs_db" where
  "stamp_document i created modified db =
     db\<lparr>documents := map (\<lambda>d. if d_id d = i
          then d\<lparr>d_created := (case created of None \<Rightarrow> d_created d | Some t \<Rightarrow> t),
                 d_modified := (case modified of None \<Rightarrow> d_modified d | Some t \<Rightarrow> t)\<rparr> else d) (documents db)\<rparr>"

text \<open>What a document of the tree may raise without ending the import: \<open>ValueError\<close> and \<open>OSError\<close>.\<close>

fun tolerated :: "doc_error \<Rightarrow> bool" where
  "tolerated Rejected = False"
| "tolerated (UnknownEcosystem eco) = False"
| "tolerated _ = True"

fun import_assets :: "(string \<Rightarrow> string) \<Rightarrow> (string \<Rightarrow> string) \<Rightarrow> (nat \<Rightarrow> string) \<Rightarrow> id_source \<Rightarrow> bool \<Rightarrow> string \<Rightarrow> string
    \<Rightarrow> string \<Rightarrow> string option \<Rightarrow> (string \<times> string) list \<Rightarrow> docs_db \<times> import_report \<Rightarrow> (docs_db \<times> import_report) option" where
  "import_assets guess_type sha256 uuid src dry eco folder slug actor [] acc = Some acc"
| "import_assets guess_type sha256 uuid src dry eco folder slug actor ((fname, data) # files) (db, rep) =
     (case normalize_asset_name fname of
        Inl e \<Rightarrow> import_assets guess_type sha256 uuid src dry eco folder slug actor files
                   (db, report_error (eco @ ''/'' @ slug @ ''/'' @ fname) rep)
      | Inr name \<Rightarrow>
          if dry then import_assets guess_type sha256 uuid src dry eco folder slug actor files (db, rep\<lparr>rp_assets := rp_assets rep + 1\<rparr>)
          else if length data > MAX_ASSET_BYTES
          then import_assets guess_type sha256 uuid src dry eco folder slug actor files
                 (db, report_error (eco @ ''/'' @ slug @ ''/'' @ name) rep)
          else (case save_asset guess_type sha256 uuid src db eco slug name data actor of
              (Inl e, db') \<Rightarrow> if tolerated e then Some (db', report_error (eco @ ''/'' @ folder) rep) else None
            | (Inr n, db') \<Rightarrow> import_assets guess_type sha256 uuid src dry eco folder slug actor files
                (db', rep\<lparr>rp_assets := rp_assets rep + 1\<rparr>)))"

definition import_document :: "(string \<Rightarrow> string) \<Rightarrow> (string \<Rightarrow> string option) \<Rightarrow> (string \<Rightarrow> string) \<Rightarrow> (string \<Rightarrow> string)
    \<Rightarrow> (nat \<Rightarrow> string) \<Rightarrow> id_source \<Rightarrow> bool \<Rightarrow> string option \<Rightarrow> timestamp \<Rightarrow> string \<Rightarrow> tree_doc
    \<Rightarrow> docs_db \<times> import_report \<Rightarrow> (docs_db \<times> import_report) option" where
  "import_document utf8 decode sha256 guess_type uuid src dry actor now eco td acc =
     (let (db, rep) = acc; failed = Some (db, report_error (eco @ ''/'' @ td_name td) rep) in
      case td_body td of
        None \<Rightarrow> Some acc
      | Some raw \<Rightarrow>
          (case normalize_doc_id (td_name td) of
             Inl e \<Rightarrow> failed
           | Inr slug \<Rightarrow>
               if length raw > MAX_DOC_BYTES then failed
               else (case decode raw of
                   None \<Rightarrow> failed
                 | Some content \<Rightarrow>
                     (case normalize_title (tree_title td slug content) of
                        Inl e \<Rightarrow> failed
                      | Inr title \<Rightarrow>
                          (let row = find_document db eco slug;
                               same = (case row of None \<Rightarrow> False
                                       | Some d \<Rightarrow> d_sha d = Some (sha256 (utf8 content)) \<and> d_title d = title);
                               counted = (if row = None then rep\<lparr>rp_documents := rp_documents rep + 1\<rparr>
                                          else rep\<lparr>rp_replaced := rp_replaced rep + 1\<rparr>);
                               files = sort_key (\<lambda>f. py_lower (fst f)) (td_assets td);
                               assets = import_assets guess_type sha256 uuid src dry eco (td_name td) slug actor files
                           in if same then assets (db, rep\<lparr>rp_unchanged := rp_unchanged rep + 1\<rparr>)
                              else if dry then assets (db, counted)
                              else (case store_revision sha256 uuid src db \<lparr>p_row = row, p_eco = eco, p_slug = slug,
                                       p_title = title, p_body = utf8 content, p_by = actor, p_at = now\<rparr> now of
                                  (Inl e, _) \<Rightarrow> None
                                | (Inr i, db') \<Rightarrow>
                                    assets (stamp_document i (td_created td) (td_modified td) db', counted)))))))"

fun import_documents :: "(docs_db \<times> import_report \<Rightarrow> string \<times> tree_doc \<Rightarrow> (docs_db \<times> import_report) option)
    \<Rightarrow> (string \<times> tree_doc) list \<Rightarrow> docs_db \<times> import_report \<Rightarrow> (docs_db \<times> import_report) option" where
  "import_documents one [] acc = Some acc"
| "import_documents one (entry # entries) acc =
     (case one acc entry of None \<Rightarrow> None | Some acc' \<Rightarrow> import_documents one entries acc')"

definition import_tree :: "(string \<Rightarrow> string) \<Rightarrow> (string \<Rightarrow> string option) \<Rightarrow> (string \<Rightarrow> string) \<Rightarrow> (string \<Rightarrow> string)
    \<Rightarrow> (nat \<Rightarrow> string) \<Rightarrow> id_source \<Rightarrow> bool \<Rightarrow> string option \<Rightarrow> timestamp \<Rightarrow> (string \<Rightarrow> tree_doc list) \<Rightarrow> docs_db
    \<Rightarrow> (docs_db \<times> import_report) option" where
  "import_tree utf8 decode sha256 guess_type uuid src dry actor now tree db =
     import_documents (\<lambda>acc (eco, td). import_document utf8 decode sha256 guess_type uuid src dry actor now eco td acc)
       (concat (map (\<lambda>eco. map (Pair eco) (sort_key (\<lambda>td. py_lower (td_name td)) (tree eco))) ECOSYSTEMS))
       (db, empty_report)"

definition export_document :: "docs_db \<Rightarrow> document \<Rightarrow> tree_doc option" where
  "export_document db d =
     (case objects db (d_key d) of
        None \<Rightarrow> None
      | Some body \<Rightarrow>
          (let files = map (\<lambda>a. (as_name a, objects db (as_key a))) (assets_of db (d_id d))
           in if list_ex (\<lambda>f. snd f = None) files then None
              else Some \<lparr>td_name = d_slug d, td_body = Some body, td_title = d_title d, td_created = Some (d_created d),
                td_modified = Some (d_modified d), td_assets = map (\<lambda>f. (fst f, the (snd f))) files\<rparr>))"

definition export_tree :: "docs_db \<Rightarrow> (string \<times> tree_doc) list option" where
  "export_tree db =
     (let rows = sort_key (\<lambda>d. (d_eco d, py_lower (d_slug d))) (documents db);
          out = map (\<lambda>d. map_option (Pair (d_eco d)) (export_document db d)) rows
      in if list_ex (\<lambda>e. e = None) out then None else Some (map the out))"

end
