(* ===== verification/DocsConcurrent.thy ===== *)
theory DocsConcurrent
  imports Docs "HOL-Library.Multiset"
begin

section \<open>Documents under concurrent requests\<close>

text \<open>
  Any number of requests at once: each is a job that goes through the phases of its call, and between two phases of
  one the others move. A transaction may also fail for reasons of its own, and a process may die at any point. Keys are drawn from
  \<open>uuid\<close>, which does not repeat itself.
\<close>

datatype job =
    Saving pending
  | Written pending string
  | AssetSaving pending_asset
  | AssetWritten pending_asset string
  | AssetLoaded pending_asset string "doc_asset option"
  | Deleting int "string list"
  | DeletingAsset int string
  | Cleanup "string list"

definition superseded :: "doc_asset option \<Rightarrow> string \<Rightarrow> string list" where
  "superseded loaded key =
     (case loaded of None \<Rightarrow> [] | Some a \<Rightarrow> if as_key a \<noteq> [] \<and> as_key a \<noteq> key then [as_key a] else [])"

inductive docs_step :: "(string \<Rightarrow> string) \<Rightarrow> (string \<Rightarrow> string) \<Rightarrow> (string \<Rightarrow> string) \<Rightarrow> (nat \<Rightarrow> string) \<Rightarrow> id_source
    \<Rightarrow> docs_db \<times> job multiset \<Rightarrow> docs_db \<times> job multiset \<Rightarrow> bool"
  for utf8 sha256 guess_type :: "string \<Rightarrow> string" and uuid :: "nat \<Rightarrow> string" and src :: id_source where
  save_begins: "begin_save_document utf8 db eco title content doc_id actor now = Inr p
     \<Longrightarrow> docs_step utf8 sha256 guess_type uuid src (db, J) (db, add_mset (Saving p) J)"
| edit_begins: "begin_save_content utf8 db eco slug content base actor now = Inr p
     \<Longrightarrow> docs_step utf8 sha256 guess_type uuid src (db, J) (db, add_mset (Saving p) J)"
| body_written: "put_object uuid db (p_body p) = (key, db')
     \<Longrightarrow> docs_step utf8 sha256 guess_type uuid src (db, add_mset (Saving p) J) (db', add_mset (Written p key) J)"
| save_commits: "commit_revision sha256 src db p key now = Some (i, db')
     \<Longrightarrow> docs_step utf8 sha256 guess_type uuid src (db, add_mset (Written p key) J) (db', J)"
| save_fails: "docs_step utf8 sha256 guess_type uuid src (db, add_mset (Written p key) J) (db, add_mset (Cleanup [key]) J)"
| asset_begins: "begin_save_asset guess_type db eco slug name data actor = Inr pa
     \<Longrightarrow> docs_step utf8 sha256 guess_type uuid src (db, J) (db, add_mset (AssetSaving pa) J)"
| asset_written: "put_object uuid db (pa_body pa) = (key, db')
     \<Longrightarrow> docs_step utf8 sha256 guess_type uuid src (db, add_mset (AssetSaving pa) J) (db', add_mset (AssetWritten pa key) J)"
| asset_loads: "docs_step utf8 sha256 guess_type uuid src (db, add_mset (AssetWritten pa key) J)
     (db, add_mset (AssetLoaded pa key (find_asset db (pa_doc pa) (pa_name pa))) J)"
| asset_commits: "commit_asset sha256 src db pa key loaded = Some db'
     \<Longrightarrow> docs_step utf8 sha256 guess_type uuid src (db, add_mset (AssetLoaded pa key loaded) J)
           (db', add_mset (Cleanup (superseded loaded key)) J)"
| asset_fails: "docs_step utf8 sha256 guess_type uuid src (db, add_mset (AssetLoaded pa key loaded) J)
     (db, add_mset (Cleanup [key]) J)"
| delete_begins: "begin_delete db eco slug = Inr (i, keys)
     \<Longrightarrow> docs_step utf8 sha256 guess_type uuid src (db, J) (db, add_mset (Deleting i keys) J)"
| delete_commits: "docs_step utf8 sha256 guess_type uuid src (db, add_mset (Deleting i keys) J)
     (commit_delete db i, add_mset (Cleanup keys) J)"
| asset_delete_begins: "begin_delete_asset db eco slug name = Inr (i, key)
     \<Longrightarrow> docs_step utf8 sha256 guess_type uuid src (db, J) (db, add_mset (DeletingAsset i key) J)"
| asset_delete_commits: "docs_step utf8 sha256 guess_type uuid src (db, add_mset (DeletingAsset i key) J)
     (commit_delete_asset db i, add_mset (Cleanup [key]) J)"
| object_removed: "docs_step utf8 sha256 guess_type uuid src (db, add_mset (Cleanup (k # ks)) J)
     (remove_objects db [k], add_mset (Cleanup ks) J)"
| import_stamps: "docs_step utf8 sha256 guess_type uuid src (db, J) (stamp_document i created modified db, J)"
| process_dies: "docs_step utf8 sha256 guess_type uuid src (db, add_mset j J) (db, J)"

inductive docs_reachable :: "(string \<Rightarrow> string) \<Rightarrow> (string \<Rightarrow> string) \<Rightarrow> (string \<Rightarrow> string) \<Rightarrow> (nat \<Rightarrow> string) \<Rightarrow> id_source
    \<Rightarrow> docs_db \<times> job multiset \<Rightarrow> bool"
  for utf8 sha256 guess_type :: "string \<Rightarrow> string" and uuid :: "nat \<Rightarrow> string" and src :: id_source where
  docs_start: "docs_reachable utf8 sha256 guess_type uuid src (empty_docs, {#})"
| docs_next: "docs_reachable utf8 sha256 guess_type uuid src s \<Longrightarrow> docs_step utf8 sha256 guess_type uuid src s s'
     \<Longrightarrow> docs_reachable utf8 sha256 guess_type uuid src s'"

subsection \<open>Who refers to a key\<close>

datatype owner = OfRevision int | OfAsset int int | OfJob

fun held :: "job \<Rightarrow> (string \<times> owner) multiset" where
  "held (Written p key) = {#(key, OfJob)#}"
| "held (AssetWritten pa key) = {#(key, OfJob)#}"
| "held (AssetLoaded pa key loaded) = {#(key, OfJob)#}"
| "held _ = {#}"

definition rev_ref :: "doc_revision \<Rightarrow> string \<times> owner" where "rev_ref r = (rv_key r, OfRevision (rv_doc r))"
definition asset_ref :: "doc_asset \<Rightarrow> string \<times> owner" where "asset_ref a = (as_key a, OfAsset (as_id a) (as_doc a))"

definition row_refs :: "docs_db \<Rightarrow> (string \<times> owner) multiset" where
  "row_refs db = image_mset rev_ref (mset (revisions db)) + image_mset asset_ref (mset (doc_assets db))"

definition refs :: "docs_db \<Rightarrow> job multiset \<Rightarrow> (string \<times> owner) multiset" where
  "refs db J = row_refs db + sum_mset (image_mset held J)"

definition once :: "'a multiset \<Rightarrow> bool" where
  "once M \<longleftrightarrow> (\<forall>k. count M k \<le> 1)"

definition drawn_keys :: "(nat \<Rightarrow> string) \<Rightarrow> docs_db \<Rightarrow> string set" where
  "drawn_keys uuid db = uuid ` {..<drawn db}"

text \<open>What a job relies on: the keys it will remove are referred to by nothing that survives its transaction.\<close>

fun job_ok :: "string set \<Rightarrow> (string \<rightharpoonup> string) \<Rightarrow> (string \<times> owner) multiset \<Rightarrow> job \<Rightarrow> bool" where
  "job_ok U Obj R (Saving p) = (\<forall>l. p_row p = Some l \<longrightarrow> d_key l \<in> U)"
| "job_ok U Obj R (Written p key) = (Obj key = Some (p_body p) \<and> key \<in> U \<and> (\<forall>l. p_row p = Some l \<longrightarrow> d_key l \<noteq> key))"
| "job_ok U Obj R (AssetSaving pa) = True"
| "job_ok U Obj R (AssetWritten pa key) = (Obj key = Some (pa_body pa) \<and> key \<in> U)"
| "job_ok U Obj R (AssetLoaded pa key loaded) = (Obj key = Some (pa_body pa) \<and> key \<in> U
     \<and> (\<forall>a. loaded = Some a \<longrightarrow> as_key a \<in> U \<and> as_key a \<noteq> key
          \<and> (\<forall>x \<in># R. fst x = as_key a \<longrightarrow> (\<exists>d. snd x = OfAsset (as_id a) d))))"
| "job_ok U Obj R (Deleting i keys) = (set keys \<subseteq> U
     \<and> (\<forall>x \<in># R. fst x \<in> set keys \<longrightarrow> snd x = OfRevision i \<or> (\<exists>a. snd x = OfAsset a i)))"
| "job_ok U Obj R (DeletingAsset i key) = (key \<in> U \<and> (\<forall>x \<in># R. fst x = key \<longrightarrow> (\<exists>d. snd x = OfAsset i d)))"
| "job_ok U Obj R (Cleanup keys) = (set keys \<subseteq> U \<and> (\<forall>x \<in># R. fst x \<notin> set keys))"

definition docs_inv :: "(string \<Rightarrow> string) \<Rightarrow> (nat \<Rightarrow> string) \<Rightarrow> id_source \<Rightarrow> docs_db \<times> job multiset \<Rightarrow> bool" where
  "docs_inv sha256 uuid src s \<longleftrightarrow> (let (db, J) = s in
     once (image_mset fst (refs db J))
     \<and> (\<forall>x \<in># refs db J. fst x \<in> drawn_keys uuid db)
     \<and> (\<forall>a \<in> set (doc_assets db). objects db (as_key a) \<noteq> None)
     \<and> (\<forall>r \<in> set (revisions db). \<exists>b. objects db (rv_key r) = Some b \<and> rv_size r = length b \<and> rv_sha r = Some (sha256 b))
     \<and> (\<forall>d \<in> set (documents db). \<exists>r \<in> set (revisions db). rv_doc r = d_id d \<and> rv_key r = d_key d)
     \<and> distinct (map as_id (doc_assets db))
     \<and> (src = Sequence \<longrightarrow> (\<forall>a \<in> set (doc_assets db). as_id a < next_asset db))
     \<and> (\<forall>j \<in># J. job_ok (drawn_keys uuid db) (objects db) (refs db J) j))"

subsection \<open>Keys are referred to once\<close>

lemma once_sub: "once N \<Longrightarrow> M \<subseteq># N \<Longrightarrow> once M"
  unfolding once_def by (meson mset_subset_eq_count order_trans)

lemma once_unique:
  assumes "once (image_mset f R)" and "x \<in># R" and "y \<in># R" and "f x = f y"
  shows "x = y"
proof (rule ccontr)
  assume "x \<noteq> y"
  then obtain R' where "R = add_mset x (add_mset y R')"
    using assms(2,3) by (metis insert_noteq_member multi_member_split)
  then have "count (image_mset f R) (f x) \<ge> 2" using assms(4) by simp
  then show False using assms(1) unfolding once_def by (metis Suc_1 not_less_eq_eq)
qed

lemma once_add: "once (add_mset k M) \<longleftrightarrow> k \<notin># M \<and> once M"
proof
  assume "once (add_mset k M)"
  then have "\<forall>x. count (add_mset k M) x \<le> 1" unfolding once_def .
  then have "count M k = 0" and "once M"
    unfolding once_def by (metis One_nat_def count_add_mset le_zero_eq not_less_eq_eq, metis Suc_leD count_add_mset)
  then show "k \<notin># M \<and> once M" by (simp add: not_in_iff)
qed (auto simp: once_def not_in_iff)

lemma fresh_key: "inj uuid \<Longrightarrow> uuid (drawn db) \<notin> drawn_keys uuid db"
  by (auto simp: drawn_keys_def inj_def)

lemma refs_jobs: "refs db (add_mset j J) = refs db J + held j"
  by (simp add: refs_def)

lemma revision_ref: "r \<in> set (revisions db) \<Longrightarrow> (rv_key r, OfRevision (rv_doc r)) \<in># refs db J"
  by (auto simp: refs_def row_refs_def rev_ref_def image_iff)

lemma asset_ref_in: "a \<in> set (doc_assets db) \<Longrightarrow> (as_key a, OfAsset (as_id a) (as_doc a)) \<in># refs db J"
  by (auto simp: refs_def row_refs_def asset_ref_def image_iff)

lemma refs_cases:
  assumes "x \<in># refs db J"
  obtains (revision) r where "r \<in> set (revisions db)" "x = rev_ref r"
  | (asset) a where "a \<in> set (doc_assets db)" "x = asset_ref a"
  | (job) j where "j \<in># J" "x \<in># held j"
  using assms by (auto simp: refs_def row_refs_def)

text \<open>
  What keeps a job's reliance intact: the objects it holds stay, and whatever refers to a key now either did before,
  or has a key no job knows, or took the key over from the job that held it.
\<close>

lemma job_ok_mono:
  assumes "job_ok U Obj R j" and "U \<subseteq> U'" and "\<And>k. (k, OfJob) \<in># held j \<Longrightarrow> Obj' k = Obj k"
    and "\<And>x. x \<in># R' \<Longrightarrow> x \<in># R \<or> fst x \<notin> U \<or> (fst x, OfJob) \<in># R"
  shows "job_ok U' Obj' R' j"
proof -
  have R: "x \<in># R \<or> fst x \<notin> U \<or> (fst x, OfJob) \<in># R" if "x \<in># R'" for x using assms(4) that .
  show ?thesis
  proof (cases j)
    case (AssetLoaded pa key loaded)
    have "\<exists>d. snd x = OfAsset (as_id a) d" if "loaded = Some a" "x \<in># R'" "fst x = as_key a" for a x
      using assms(1) R [of x] that unfolding AssetLoaded by fastforce
    then show ?thesis using assms(1-3) unfolding AssetLoaded by auto
  next
    case (Deleting i keys)
    have "snd x = OfRevision i \<or> (\<exists>a. snd x = OfAsset a i)" if "x \<in># R'" "fst x \<in> set keys" for x
      using assms(1) R [of x] that unfolding Deleting by fastforce
    then show ?thesis using assms(1,2) unfolding Deleting by auto
  next
    case (DeletingAsset i key)
    have "\<exists>d. snd x = OfAsset i d" if "x \<in># R'" "fst x = key" for x
      using assms(1) R [of x] that unfolding DeletingAsset by fastforce
    then show ?thesis using assms(1,2) unfolding DeletingAsset by auto
  next
    case (Cleanup keys)
    have "fst x \<notin> set keys" if "x \<in># R'" for x
      using assms(1) R [of x] that unfolding Cleanup by fastforce
    then show ?thesis using assms(1,2) unfolding Cleanup by auto
  qed (use assms(1-3) in auto)
qed

subsection \<open>The invariant, in parts\<close>

definition tables_ok :: "(string \<Rightarrow> string) \<Rightarrow> id_source \<Rightarrow> docs_db \<Rightarrow> bool" where
  "tables_ok sha256 src db \<longleftrightarrow>
     (\<forall>a \<in> set (doc_assets db). objects db (as_key a) \<noteq> None)
     \<and> (\<forall>r \<in> set (revisions db). \<exists>b. objects db (rv_key r) = Some b \<and> rv_size r = length b \<and> rv_sha r = Some (sha256 b))
     \<and> (\<forall>d \<in> set (documents db). \<exists>r \<in> set (revisions db). rv_doc r = d_id d \<and> rv_key r = d_key d)
     \<and> distinct (map as_id (doc_assets db))
     \<and> (src = Sequence \<longrightarrow> (\<forall>a \<in> set (doc_assets db). as_id a < next_asset db))"

definition keys_ok :: "string set \<Rightarrow> (string \<times> owner) multiset \<Rightarrow> bool" where
  "keys_ok U R \<longleftrightarrow> once (image_mset fst R) \<and> (\<forall>x \<in># R. fst x \<in> U)"

definition jobs_ok :: "string set \<Rightarrow> (string \<rightharpoonup> string) \<Rightarrow> (string \<times> owner) multiset \<Rightarrow> job multiset \<Rightarrow> bool" where
  "jobs_ok U Obj R J \<longleftrightarrow> (\<forall>j \<in># J. job_ok U Obj R j)"

lemma docs_inv_parts:
  "docs_inv sha256 uuid src (db, J) \<longleftrightarrow> keys_ok (drawn_keys uuid db) (refs db J) \<and> tables_ok sha256 src db
     \<and> jobs_ok (drawn_keys uuid db) (objects db) (refs db J) J"
  by (auto simp: docs_inv_def keys_ok_def tables_ok_def jobs_ok_def)

lemma keys_ok_sub: "keys_ok U R \<Longrightarrow> R' \<subseteq># R \<Longrightarrow> keys_ok U R'"
  unfolding keys_ok_def using once_sub image_mset_subseteq_mono by (metis mset_subset_eqD)

lemma jobs_ok_mono:
  assumes "jobs_ok U Obj R J" and "U \<subseteq> U'" and "\<And>j k. j \<in># J \<Longrightarrow> (k, OfJob) \<in># held j \<Longrightarrow> Obj' k = Obj k"
    and "\<And>x. x \<in># R' \<Longrightarrow> x \<in># R \<or> fst x \<notin> U \<or> (fst x, OfJob) \<in># R"
  shows "jobs_ok U' Obj' R' J"
  unfolding jobs_ok_def
proof
  fix j assume j: "j \<in># J"
  then have "job_ok U Obj R j" using assms(1) unfolding jobs_ok_def by blast
  then show "job_ok U' Obj' R' j"
    by (rule job_ok_mono) (use assms(2-4) j in \<open>simp_all\<close>)
qed

lemma jobs_ok_add: "jobs_ok U Obj R (add_mset j J) \<longleftrightarrow> job_ok U Obj R j \<and> jobs_ok U Obj R J"
  by (auto simp: jobs_ok_def)

text \<open>A job that neither holds a key nor changes the tables.\<close>

lemma inv_new_job:
  assumes "docs_inv sha256 uuid src (db, J)" and "held j = {#}" and "job_ok (drawn_keys uuid db) (objects db) (refs db J) j"
  shows "docs_inv sha256 uuid src (db, add_mset j J)"
  using assms unfolding docs_inv_parts refs_jobs jobs_ok_add by simp

lemma inv_drop_job:
  assumes "docs_inv sha256 uuid src (db, add_mset j J)"
  shows "docs_inv sha256 uuid src (db, J)"
proof -
  have "refs db J \<subseteq># refs db (add_mset j J)" by (simp add: refs_jobs)
  then have "keys_ok (drawn_keys uuid db) (refs db J)"
    using assms keys_ok_sub unfolding docs_inv_parts by blast
  moreover have "jobs_ok (drawn_keys uuid db) (objects db) (refs db J) J"
    by (rule jobs_ok_mono [where R = "refs db (add_mset j J)" and Obj = "objects db" and U = "drawn_keys uuid db"])
      (use assms in \<open>simp_all add: docs_inv_parts jobs_ok_add refs_jobs\<close>)
  ultimately show ?thesis using assms unfolding docs_inv_parts by blast
qed

text \<open>What a request reads: the rows it loads exist, and their keys are referred to by them alone.\<close>

lemma document_key_drawn:
  assumes "docs_inv sha256 uuid src (db, J)" and "d \<in> set (documents db)"
  shows "d_key d \<in> drawn_keys uuid db"
proof -
  obtain r where "r \<in> set (revisions db)" "rv_key r = d_key d"
    using assms unfolding docs_inv_parts tables_ok_def by blast
  then show ?thesis
    using assms(1) revision_ref [of r db J] unfolding docs_inv_parts keys_ok_def by force
qed

lemma asset_key_owner:
  assumes "docs_inv sha256 uuid src (db, J)" and "a \<in> set (doc_assets db)"
  shows "as_key a \<in> drawn_keys uuid db"
    and "x \<in># refs db J \<Longrightarrow> fst x = as_key a \<Longrightarrow> snd x = OfAsset (as_id a) (as_doc a)"
proof -
  have R: "(as_key a, OfAsset (as_id a) (as_doc a)) \<in># refs db J" using assms(2) by (rule asset_ref_in)
  then show "as_key a \<in> drawn_keys uuid db" using assms(1) unfolding docs_inv_parts keys_ok_def by force
  show "x \<in># refs db J \<Longrightarrow> fst x = as_key a \<Longrightarrow> snd x = OfAsset (as_id a) (as_doc a)"
    using once_unique [OF _ _ R, of fst x] assms(1) unfolding docs_inv_parts keys_ok_def by force
qed

lemma document_keys_owner:
  assumes "docs_inv sha256 uuid src (db, J)" and "k \<in> set (document_keys db i)"
  shows "k \<in> drawn_keys uuid db"
    and "x \<in># refs db J \<Longrightarrow> fst x = k \<Longrightarrow> snd x = OfRevision i \<or> (\<exists>a. snd x = OfAsset a i)"
proof -
  obtain w where R: "(k, w) \<in># refs db J" and w: "w = OfRevision i \<or> (\<exists>a. w = OfAsset a i)"
    using assms(2) revision_ref [of _ db J] asset_ref_in [of _ db J]
    by (auto simp: document_keys_def assets_of_def)
  then show "k \<in> drawn_keys uuid db" using assms(1) unfolding docs_inv_parts keys_ok_def by force
  show "x \<in># refs db J \<Longrightarrow> fst x = k \<Longrightarrow> snd x = OfRevision i \<or> (\<exists>a. snd x = OfAsset a i)"
    using once_unique [OF _ _ R, of fst x] assms(1) w unfolding docs_inv_parts keys_ok_def by auto
qed

lemma find_document_mem: "find_document db eco slug = Some d \<Longrightarrow> d \<in> set (documents db) \<and> d_eco d = eco \<and> d_slug d = slug"
  by (auto simp: find_document_def dest: find_SomeD)

lemma require_document_mem:
  "require_document db eco slug = Inr d \<Longrightarrow> d \<in> set (documents db) \<and> d_eco d = eco \<and> normalize_doc_id slug = Inr (d_slug d)"
  by (auto simp: require_document_def split: if_splits sum.splits option.splits dest: find_document_mem)

end
