(* ===== verification/DocsSafety.thy ===== *)
theory DocsSafety
  imports DocsConcurrent
begin

section \<open>No request breaks the references of another\<close>

text \<open>Each phase keeps the invariant of \<open>DocsConcurrent\<close>; what follows for every interleaving is at the end.\<close>

lemma held_by_job: "x \<in># held j \<Longrightarrow> snd x = OfJob"
  by (cases j) auto

lemma inv_put:
  assumes "inj uuid" and "docs_inv sha256 uuid src (db, J)" and "put_object uuid db body = (key, db')"
    and "held j = {#(key, OfJob)#}" and "job_ok (drawn_keys uuid db') (objects db') (refs db' (add_mset j J)) j"
  shows "docs_inv sha256 uuid src (db', add_mset j J)"
proof -
  have key: "key = uuid (drawn db)" and db': "db' = db\<lparr>objects := (objects db)(key \<mapsto> body), drawn := drawn db + 1\<rparr>"
    using assms(3) by (auto simp: put_object_def Let_def)
  have new: "key \<notin> drawn_keys uuid db" unfolding key by (rule fresh_key [OF assms(1)])
  have drawn: "drawn_keys uuid db' = insert key (drawn_keys uuid db)"
    by (simp add: drawn_keys_def db' key lessThan_Suc)
  have refs: "refs db' J = refs db J" by (simp add: refs_def row_refs_def db')
  have known: "\<And>x. x \<in># refs db J \<Longrightarrow> fst x \<in> drawn_keys uuid db"
    using assms(2) unfolding docs_inv_parts keys_ok_def by blast
  then have "key \<notin># image_mset fst (refs db J)" using new by auto
  then have "keys_ok (drawn_keys uuid db') (refs db' (add_mset j J))"
    using assms(2) known unfolding docs_inv_parts keys_ok_def refs_jobs refs assms(4) drawn by (auto simp: once_add)
  moreover have "tables_ok sha256 src db'"
  proof -
    have "objects db' (as_key a) = objects db (as_key a)" if "a \<in> set (doc_assets db)" for a
      using known [OF asset_ref_in [OF that]] new by (auto simp: db')
    moreover have "objects db' (rv_key r) = objects db (rv_key r)" if "r \<in> set (revisions db)" for r
      using known [OF revision_ref [OF that]] new by (auto simp: db')
    ultimately show ?thesis using assms(2) unfolding docs_inv_parts tables_ok_def by (simp add: db')
  qed
  moreover have "jobs_ok (drawn_keys uuid db') (objects db') (refs db' (add_mset j J)) J"
  proof (rule jobs_ok_mono [where R = "refs db J" and Obj = "objects db" and U = "drawn_keys uuid db"])
    show "objects db' k = objects db k" if "i \<in># J" "(k, OfJob) \<in># held i" for i k
    proof -
      have "(k, OfJob) \<in># refs db J" using that by (auto simp: refs_def)
      then show ?thesis using known new by (fastforce simp: db')
    qed
  qed (use assms(2,4) new in \<open>auto simp: docs_inv_parts drawn refs_jobs refs\<close>)
  ultimately show ?thesis using assms(5) unfolding docs_inv_parts jobs_ok_add by blast
qed

lemma inv_save_commits:
  assumes "docs_inv sha256 uuid src (db, add_mset (Written p key) J)"
    and "commit_revision sha256 src db p key now = Some (i, db')"
  shows "docs_inv sha256 uuid src (db', J)"
proof -
  let ?R0 = "refs db (add_mset (Written p key) J)"
  have job: "objects db key = Some (p_body p)" "\<And>l. p_row p = Some l \<Longrightarrow> d_key l \<noteq> key"
    using assms(1) unfolding docs_inv_parts jobs_ok_add by auto
  obtain n where revs: "revisions db' = revisions db @ [revision_of sha256 p key now i n]"
    and same: "doc_assets db' = doc_assets db" "objects db' = objects db" "drawn db' = drawn db" "next_asset db' = next_asset db"
    and docs: "\<And>d. d \<in> set (documents db') \<Longrightarrow> (\<exists>d0 \<in> set (documents db). d_id d = d_id d0 \<and> d_key d = d_key d0)
        \<or> (d_id d = i \<and> d_key d = key)"
    using assms(2) job(2)
    by (fastforce simp: commit_revision_def Let_def saved_row_def write_col_def new_document_def split: option.splits if_splits)
  have refs: "refs db' J = add_mset (key, OfRevision i) (refs db J)"
    by (simp add: refs_def row_refs_def revs same rev_ref_def revision_of_def)
  have refs0: "?R0 = add_mset (key, OfJob) (refs db J)" by (simp add: refs_jobs)
  have drawn: "drawn_keys uuid db' = drawn_keys uuid db" by (simp add: drawn_keys_def same)
  have "keys_ok (drawn_keys uuid db') (refs db' J)"
    using assms(1) unfolding docs_inv_parts keys_ok_def refs refs0 drawn by auto
  moreover have "tables_ok sha256 src db'"
  proof -
    have "\<exists>r \<in> set (revisions db'). rv_doc r = d_id d \<and> rv_key r = d_key d" if "d \<in> set (documents db')" for d
      using docs [OF that] assms(1) unfolding docs_inv_parts tables_ok_def revs
      by (auto simp: revision_of_def)
    then show ?thesis
      using assms(1) job(1) unfolding docs_inv_parts tables_ok_def same revs
      by (auto simp: revision_of_def)
  qed
  moreover have "jobs_ok (drawn_keys uuid db') (objects db') (refs db' J) J"
    by (rule jobs_ok_mono [where R = ?R0 and Obj = "objects db" and U = "drawn_keys uuid db"])
      (use assms(1) in \<open>auto simp: docs_inv_parts jobs_ok_add drawn same refs refs0\<close>)
  ultimately show ?thesis unfolding docs_inv_parts by blast
qed

lemma new_id_fresh:
  assumes "src = Sequence \<longrightarrow> (\<forall>u \<in> set used. u < next)"
  shows "new_id src next used \<notin> set used"
proof (cases src)
  case Sequence
  then show ?thesis using assms by (auto simp: new_id_def)
next
  case Largest
  have "fold max used m \<ge> m \<and> (\<forall>u \<in> set used. u \<le> fold max used m)" for m :: int
  proof (induction used arbitrary: m)
    case (Cons a used)
    show ?case using Cons.IH [of "max a m"] by (auto simp: max.bounded_iff)
  qed simp
  from this [of 0] show ?thesis by (auto simp: new_id_def Largest)
qed

lemma inv_asset_inserts:
  assumes "docs_inv sha256 uuid src (db, add_mset (AssetLoaded pa key None) J)"
    and "commit_asset sha256 src db pa key None = Some db'"
  shows "docs_inv sha256 uuid src (db', add_mset (Cleanup []) J)"
proof -
  let ?R0 = "refs db (add_mset (AssetLoaded pa key None) J)"
  obtain a where assets: "doc_assets db' = doc_assets db @ [a]" and a: "as_key a = key"
      "as_id a = new_id src (next_asset db) (map as_id (doc_assets db))"
    and same: "revisions db' = revisions db" "documents db' = documents db" "objects db' = objects db" "drawn db' = drawn db"
      "next_asset db' = next_asset db + 1"
    using assms(2) by (auto simp: commit_asset_def split: if_splits)
  have refs: "refs db' J = add_mset (key, OfAsset (as_id a) (as_doc a)) (refs db J)"
    by (simp add: refs_def row_refs_def assets same asset_ref_def a(1))
  have refs0: "?R0 = add_mset (key, OfJob) (refs db J)" by (simp add: refs_jobs)
  have drawn: "drawn_keys uuid db' = drawn_keys uuid db" by (simp add: drawn_keys_def same)
  have job: "objects db key = Some (pa_body pa)" using assms(1) unfolding docs_inv_parts jobs_ok_add by auto
  have seq: "src = Sequence \<longrightarrow> (\<forall>b \<in> set (doc_assets db). as_id b < next_asset db)"
    using assms(1) unfolding docs_inv_parts tables_ok_def by blast
  then have "as_id a \<notin> as_id ` set (doc_assets db)"
    unfolding a(2) using new_id_fresh [of src "map as_id (doc_assets db)" "next_asset db"] by simp
  moreover have "src = Sequence \<Longrightarrow> as_id a = next_asset db" by (simp add: a(2) new_id_def)
  ultimately have "tables_ok sha256 src db'"
    using assms(1) job a(1) seq unfolding docs_inv_parts tables_ok_def same assets by fastforce
  moreover have "keys_ok (drawn_keys uuid db') (refs db' J)"
    using assms(1) unfolding docs_inv_parts keys_ok_def refs refs0 drawn by auto
  moreover have "jobs_ok (drawn_keys uuid db') (objects db') (refs db' J) J"
    by (rule jobs_ok_mono [where R = ?R0 and Obj = "objects db" and U = "drawn_keys uuid db"])
      (use assms(1) in \<open>auto simp: docs_inv_parts jobs_ok_add drawn same refs refs0\<close>)
  ultimately have "docs_inv sha256 uuid src (db', J)" unfolding docs_inv_parts by blast
  then show ?thesis by (rule inv_new_job) simp_all
qed

lemma inv_asset_updates:
  assumes "docs_inv sha256 uuid src (db, add_mset (AssetLoaded pa key (Some a)) J)"
    and "commit_asset sha256 src db pa key (Some a) = Some db'"
  shows "docs_inv sha256 uuid src (db', add_mset (Cleanup (superseded (Some a) key)) J)"
proof -
  let ?R0 = "refs db (add_mset (AssetLoaded pa key (Some a)) J)"
  let ?upd = "\<lambda>b. b\<lparr>as_key := write_col key (as_key a) (as_key b),
      as_size := write_col (length (pa_body pa)) (as_size a) (as_size b),
      as_sha := write_col (Some (sha256 (pa_body pa))) (as_sha a) (as_sha b),
      as_type := write_col (pa_type pa) (as_type a) (as_type b)\<rparr>"
  have job: "objects db key = Some (pa_body pa)" "key \<noteq> as_key a" "as_key a \<in> drawn_keys uuid db"
      "\<And>x. x \<in># ?R0 \<Longrightarrow> fst x = as_key a \<Longrightarrow> \<exists>d. snd x = OfAsset (as_id a) d"
    using assms(1) unfolding docs_inv_parts jobs_ok_add by auto
  have db': "db' = db\<lparr>doc_assets := map (\<lambda>b. if as_id b = as_id a then ?upd b else b) (doc_assets db)\<rparr>"
    and "\<exists>b \<in> set (doc_assets db). as_id b = as_id a"
    using assms(2) by (auto simp: commit_asset_def list_ex_iff split: if_splits)
  then obtain b xs ys where split: "doc_assets db = xs @ b # ys" and b: "as_id b = as_id a"
    by (meson split_list)
  have dist: "distinct (map as_id (doc_assets db))" using assms(1) unfolding docs_inv_parts tables_ok_def by blast
  have "as_id a \<notin> as_id ` set (xs @ ys)" using dist b unfolding split by auto
  then have rest: "\<And>c. c \<in> set (xs @ ys) \<Longrightarrow> as_id c \<noteq> as_id a" by (metis imageI)
  have "map (\<lambda>c. if as_id c = as_id a then ?upd c else c) xs = xs" "map (\<lambda>c. if as_id c = as_id a then ?upd c else c) ys = ys"
    by (rule map_idI, use rest in auto)+
  then have assets: "doc_assets db' = xs @ ?upd b # ys"
    using b by (simp add: db' split)
  have kb: "as_key (?upd b) = key" using job(2) by (simp add: write_col_def)
  have same: "revisions db' = revisions db" "documents db' = documents db" "objects db' = objects db" "drawn db' = drawn db"
      "next_asset db' = next_asset db" by (simp_all add: db')
  define X where "X = image_mset rev_ref (mset (revisions db)) + image_mset asset_ref (mset (xs @ ys)) + sum_mset (image_mset held J)"
  have refs0: "?R0 = add_mset (asset_ref b) (add_mset (key, OfJob) X)"
    by (simp add: X_def refs_def row_refs_def split)
  have refs: "refs db' J = add_mset (key, OfAsset (as_id a) (as_doc b)) X"
    using kb b by (simp add: X_def refs_def row_refs_def assets same asset_ref_def)
  have drawn: "drawn_keys uuid db' = drawn_keys uuid db" by (simp add: drawn_keys_def same)
  have "tables_ok sha256 src db'"
  proof -
    have "map as_id (doc_assets db') = map as_id (doc_assets db)" by (simp add: assets split)
    moreover have "\<forall>c \<in> set (doc_assets db'). objects db' (as_key c) \<noteq> None"
      using assms(1) job(1) kb unfolding docs_inv_parts tables_ok_def same assets split by auto
    moreover have "src = Sequence \<longrightarrow> (\<forall>c \<in> set (doc_assets db'). as_id c < next_asset db')"
      using assms(1) unfolding docs_inv_parts tables_ok_def same assets split by auto
    ultimately show ?thesis using assms(1) unfolding docs_inv_parts tables_ok_def same by simp
  qed
  moreover have "keys_ok (drawn_keys uuid db') (refs db' J)"
    using assms(1) unfolding docs_inv_parts keys_ok_def refs refs0 drawn by (auto simp: once_add)
  moreover have "jobs_ok (drawn_keys uuid db') (objects db') (refs db' J) J"
    by (rule jobs_ok_mono [where R = ?R0 and Obj = "objects db" and U = "drawn_keys uuid db"])
      (use assms(1) in \<open>auto simp: docs_inv_parts jobs_ok_add drawn same refs refs0\<close>)
  ultimately have inv: "docs_inv sha256 uuid src (db', J)" unfolding docs_inv_parts by blast
  have "fst x \<noteq> as_key a" if "x \<in># refs db' J" for x
  proof
    assume fx: "fst x = as_key a"
    then have x: "x \<in># X" using that job(2) by (auto simp: refs)
    then obtain d where "snd x = OfAsset (as_id a) d" using job(4) [of x] fx by (auto simp: refs0)
    then show False using x rest by (auto simp: X_def rev_ref_def asset_ref_def dest: held_by_job)
  qed
  then show ?thesis
    using job(3) by (intro inv_new_job [OF inv]) (auto simp: superseded_def drawn)
qed


text \<open>Rows go, and with them their references: what the job of the deletion will remove is referred to by nothing else.\<close>

lemma inv_rows_removed:
  assumes "docs_inv sha256 uuid src (db, J)" and "db' = db\<lparr>documents := ds, revisions := rs, doc_assets := as\<rparr>"
    and "rs = filter P (revisions db)" and "as = filter Q (doc_assets db)"
    and "\<And>d. d \<in> set ds \<Longrightarrow> \<exists>r \<in> set rs. rv_doc r = d_id d \<and> rv_key r = d_key d"
  shows "docs_inv sha256 uuid src (db', J)" and "refs db' J \<subseteq># refs db J"
proof -
  have "row_refs db' \<subseteq># row_refs db"
    unfolding row_refs_def assms(2,3,4) by (auto intro!: subset_mset.add_mono image_mset_subseteq_mono simp: mset_filter)
  then show sub: "refs db' J \<subseteq># refs db J" by (simp add: refs_def)
  have drawn: "drawn_keys uuid db' = drawn_keys uuid db" by (simp add: drawn_keys_def assms(2))
  have "keys_ok (drawn_keys uuid db') (refs db' J)"
    using assms(1) sub keys_ok_sub unfolding docs_inv_parts drawn by blast
  moreover have "tables_ok sha256 src db'"
    using assms(1,5) unfolding docs_inv_parts tables_ok_def
    by (simp add: assms(2-4) distinct_map_filter)
  moreover have "jobs_ok (drawn_keys uuid db') (objects db') (refs db' J) J"
    by (rule jobs_ok_mono [where R = "refs db J" and Obj = "objects db" and U = "drawn_keys uuid db"])
      (use assms(1) mset_subset_eqD [OF sub] in \<open>auto simp: docs_inv_parts drawn\<close>, simp add: assms(2))
  ultimately show "docs_inv sha256 uuid src (db', J)" unfolding docs_inv_parts by blast
qed

lemma inv_delete_commits:
  assumes "docs_inv sha256 uuid src (db, add_mset (Deleting i keys) J)"
  shows "docs_inv sha256 uuid src (commit_delete db i, add_mset (Cleanup keys) J)"
proof -
  have inv: "docs_inv sha256 uuid src (db, J)" using assms by (rule inv_drop_job)
  have job: "set keys \<subseteq> drawn_keys uuid db"
      "\<And>x. x \<in># refs db J \<Longrightarrow> fst x \<in> set keys \<Longrightarrow> snd x = OfRevision i \<or> (\<exists>a. snd x = OfAsset a i)"
    using assms unfolding docs_inv_parts jobs_ok_add by (auto simp: refs_jobs)
  have docs: "\<exists>r \<in> set (revisions (commit_delete db i)). rv_doc r = d_id d \<and> rv_key r = d_key d"
    if "d \<in> set (documents (commit_delete db i))" for d
  proof -
    have d: "d \<in> set (documents db)" "d_id d \<noteq> i" using that by (auto simp: commit_delete_def)
    then obtain r where "r \<in> set (revisions db)" "rv_doc r = d_id d" "rv_key r = d_key d"
      using inv unfolding docs_inv_parts tables_ok_def by blast
    then show ?thesis using d(2) by (auto simp: commit_delete_def)
  qed
  note removed = inv_rows_removed [OF inv commit_delete_def refl refl]
  have "docs_inv sha256 uuid src (commit_delete db i, J)"
    by (rule removed(1)) (use docs in \<open>simp add: commit_delete_def\<close>)
  moreover have "refs (commit_delete db i) J \<subseteq># refs db J"
    by (rule removed(2)) (use docs in \<open>simp add: commit_delete_def\<close>)
  moreover have "fst x \<notin> set keys" if x: "x \<in># refs (commit_delete db i) J" for x
  proof
    assume "fst x \<in> set keys"
    then have "snd x = OfRevision i \<or> (\<exists>a. snd x = OfAsset a i)"
      using job(2) mset_subset_eqD [OF \<open>refs (commit_delete db i) J \<subseteq># refs db J\<close> x] by blast
    then show False
      using x by (auto simp: refs_def row_refs_def commit_delete_def rev_ref_def asset_ref_def dest: held_by_job)
  qed
  ultimately show ?thesis
    using job(1) by (intro inv_new_job) (auto simp: drawn_keys_def commit_delete_def)
qed

lemma inv_asset_delete_commits:
  assumes "docs_inv sha256 uuid src (db, add_mset (DeletingAsset i key) J)"
  shows "docs_inv sha256 uuid src (commit_delete_asset db i, add_mset (Cleanup [key]) J)"
proof -
  let ?db = "commit_delete_asset db i"
  have inv: "docs_inv sha256 uuid src (db, J)" using assms by (rule inv_drop_job)
  have job: "key \<in> drawn_keys uuid db" "\<And>x. x \<in># refs db J \<Longrightarrow> fst x = key \<Longrightarrow> \<exists>d. snd x = OfAsset i d"
    using assms unfolding docs_inv_parts jobs_ok_add by (auto simp: refs_jobs)
  have shape: "?db = db\<lparr>documents := documents db, revisions := filter (\<lambda>_. True) (revisions db),
      doc_assets := filter (\<lambda>a. as_id a \<noteq> i) (doc_assets db)\<rparr>"
    by (simp add: commit_delete_asset_def)
  have docs: "\<exists>r \<in> set (filter (\<lambda>_. True) (revisions db)). rv_doc r = d_id d \<and> rv_key r = d_key d"
    if "d \<in> set (documents db)" for d using inv that unfolding docs_inv_parts tables_ok_def by auto
  note removed = inv_rows_removed [OF inv shape refl refl docs]
  have "fst x \<noteq> key" if x: "x \<in># refs ?db J" for x
  proof
    assume "fst x = key"
    then have "\<exists>d. snd x = OfAsset i d" using job(2) mset_subset_eqD [OF removed(2) x] by blast
    then show False
      using x by (auto simp: refs_def row_refs_def commit_delete_asset_def rev_ref_def asset_ref_def dest: held_by_job)
  qed
  then show ?thesis
    using job(1) by (intro inv_new_job removed(1)) (auto simp: drawn_keys_def commit_delete_asset_def)
qed

lemma inv_object_removed:
  assumes "docs_inv sha256 uuid src (db, add_mset (Cleanup (k # ks)) J)"
  shows "docs_inv sha256 uuid src (remove_objects db [k], add_mset (Cleanup ks) J)"
proof -
  let ?db = "remove_objects db [k]"
  have inv: "docs_inv sha256 uuid src (db, J)" using assms by (rule inv_drop_job)
  have job: "set (k # ks) \<subseteq> drawn_keys uuid db" "\<And>x. x \<in># refs db J \<Longrightarrow> fst x \<notin> set (k # ks)"
    using assms unfolding docs_inv_parts jobs_ok_add by (auto simp: refs_jobs)
  have refs: "refs ?db J = refs db J" and drawn: "drawn_keys uuid ?db = drawn_keys uuid db"
    by (simp_all add: refs_def row_refs_def remove_objects_def drawn_keys_def)
  have other: "objects ?db (fst x) = objects db (fst x)" if "x \<in># refs db J" for x
    using job(2) [OF that] by (auto simp: remove_objects_def restrict_map_def)
  have "tables_ok sha256 src ?db"
    using inv other [OF revision_ref] other [OF asset_ref_in] unfolding docs_inv_parts tables_ok_def
    by (simp add: remove_objects_def)
  moreover have "jobs_ok (drawn_keys uuid ?db) (objects ?db) (refs ?db J) J"
  proof (rule jobs_ok_mono [where R = "refs db J" and Obj = "objects db" and U = "drawn_keys uuid db"])
    show "objects ?db q = objects db q" if "j \<in># J" "(q, OfJob) \<in># held j" for j q
    proof -
      have "(q, OfJob) \<in># refs db J" using that by (auto simp: refs_def)
      then show ?thesis using other [of "(q, OfJob)"] by simp
    qed
  qed (use inv in \<open>auto simp: docs_inv_parts refs drawn\<close>)
  ultimately have "docs_inv sha256 uuid src (?db, J)" using inv unfolding docs_inv_parts refs drawn by blast
  then show ?thesis using job by (intro inv_new_job) (auto simp: refs drawn)
qed

lemma inv_stamped:
  assumes "docs_inv sha256 uuid src (db, J)"
  shows "docs_inv sha256 uuid src (stamp_document i created modified db, J)"
proof -
  let ?db = "stamp_document i created modified db"
  have same: "revisions ?db = revisions db" "doc_assets ?db = doc_assets db" "objects ?db = objects db" "drawn ?db = drawn db"
      "next_asset ?db = next_asset db" by (simp_all add: stamp_document_def)
  have "\<exists>r \<in> set (revisions db). rv_doc r = d_id d \<and> rv_key r = d_key d" if "d \<in> set (documents ?db)" for d
    using assms that unfolding docs_inv_parts tables_ok_def by (auto simp: stamp_document_def split: if_splits)
  then show ?thesis
    using assms unfolding docs_inv_parts tables_ok_def same drawn_keys_def refs_def row_refs_def by simp
qed


subsection \<open>Every step, every interleaving\<close>

lemma saving_job_ok:
  assumes "docs_inv sha256 uuid src (db, J)" and "p_row p = None \<or> (\<exists>d \<in> set (documents db). p_row p = Some d)"
  shows "docs_inv sha256 uuid src (db, add_mset (Saving p) J)"
  using assms document_key_drawn [OF assms(1)] by (intro inv_new_job) auto

lemma begin_save_document_row:
  "begin_save_document utf8 db eco title content doc_id actor now = Inr p
     \<Longrightarrow> p_row p = find_document db (p_eco p) (p_slug p)"
  by (auto simp: begin_save_document_def split: if_splits sum.splits)

lemma begin_save_content_row:
  "begin_save_content utf8 db eco slug content base actor now = Inr p
     \<Longrightarrow> \<exists>d. p_row p = Some d \<and> require_document db eco slug = Inr d"
  by (auto simp: begin_save_content_def split: if_splits sum.splits)

lemma inv_save_begins:
  assumes "docs_inv sha256 uuid src (db, J)" and "begin_save_document utf8 db eco title content doc_id actor now = Inr p"
  shows "docs_inv sha256 uuid src (db, add_mset (Saving p) J)"
  using begin_save_document_row [OF assms(2)] find_document_mem [of db "p_eco p" "p_slug p"]
  by (intro saving_job_ok [OF assms(1)]) (cases "p_row p", auto)

lemma inv_edit_begins:
  assumes "docs_inv sha256 uuid src (db, J)" and "begin_save_content utf8 db eco slug content base actor now = Inr p"
  shows "docs_inv sha256 uuid src (db, add_mset (Saving p) J)"
  using begin_save_content_row [OF assms(2)] require_document_mem
  by (intro saving_job_ok [OF assms(1)]) blast

lemma inv_body_written:
  assumes "inj uuid" and "docs_inv sha256 uuid src (db, add_mset (Saving p) J)" and "put_object uuid db (p_body p) = (key, db')"
  shows "docs_inv sha256 uuid src (db', add_mset (Written p key) J)"
proof -
  have "p_row p = Some l \<Longrightarrow> d_key l \<noteq> uuid (drawn db)" for l
    using assms(2) fresh_key [OF assms(1), of db] unfolding docs_inv_parts jobs_ok_add by auto
  then show ?thesis
    using assms(3) by (intro inv_put [OF assms(1) inv_drop_job [OF assms(2)] assms(3)])
      (auto simp: put_object_def Let_def drawn_keys_def lessThan_Suc)
qed

lemma inv_asset_written:
  assumes "inj uuid" and "docs_inv sha256 uuid src (db, add_mset (AssetSaving pa) J)"
    and "put_object uuid db (pa_body pa) = (key, db')"
  shows "docs_inv sha256 uuid src (db', add_mset (AssetWritten pa key) J)"
  using assms(3) by (intro inv_put [OF assms(1) inv_drop_job [OF assms(2)] assms(3)])
    (auto simp: put_object_def Let_def drawn_keys_def lessThan_Suc)

lemma inv_asset_loads:
  assumes "docs_inv sha256 uuid src (db, add_mset (AssetWritten pa key) J)"
  shows "docs_inv sha256 uuid src (db, add_mset (AssetLoaded pa key (find_asset db (pa_doc pa) (pa_name pa))) J)"
proof -
  let ?R = "refs db (add_mset (AssetWritten pa key) J)"
  have "as_key a \<in> drawn_keys uuid db \<and> as_key a \<noteq> key \<and> (\<forall>x \<in># ?R. fst x = as_key a \<longrightarrow> (\<exists>d. snd x = OfAsset (as_id a) d))"
    if "find_asset db (pa_doc pa) (pa_name pa) = Some a" for a
  proof -
    have a: "a \<in> set (doc_assets db)" using that by (auto simp: find_asset_def dest: find_SomeD)
    have "(key, OfJob) \<in># ?R" by (simp add: refs_jobs)
    then show ?thesis using asset_key_owner [OF assms a] by force
  qed
  then show ?thesis using assms unfolding docs_inv_parts jobs_ok_add refs_jobs by auto
qed

lemma inv_delete_begins:
  assumes "docs_inv sha256 uuid src (db, J)" and "begin_delete db eco slug = Inr (i, keys)"
  shows "docs_inv sha256 uuid src (db, add_mset (Deleting i keys) J)"
proof -
  have "keys = document_keys db i" using assms(2) by (auto simp: begin_delete_def split: sum.splits)
  then show ?thesis
    using document_keys_owner [OF assms(1)] by (intro inv_new_job [OF assms(1)]) auto
qed

lemma inv_asset_delete_begins:
  assumes "docs_inv sha256 uuid src (db, J)" and "begin_delete_asset db eco slug name = Inr (i, key)"
  shows "docs_inv sha256 uuid src (db, add_mset (DeletingAsset i key) J)"
proof -
  obtain a where "a \<in> set (doc_assets db)" "i = as_id a" "key = as_key a"
    using assms(2) by (auto simp: begin_delete_asset_def find_asset_def split: sum.splits option.splits dest: find_SomeD)
  then show ?thesis
    using asset_key_owner [OF assms(1)] by (intro inv_new_job [OF assms(1)]) auto
qed

lemma inv_held_fails:
  assumes "docs_inv sha256 uuid src (db, add_mset j J)" and "held j = {#(key, OfJob)#}"
  shows "docs_inv sha256 uuid src (db, add_mset (Cleanup [key]) J)"
proof -
  have "keys_ok (drawn_keys uuid db) (add_mset (key, OfJob) (refs db J))"
    using assms unfolding docs_inv_parts refs_jobs by simp
  then show ?thesis
    by (intro inv_new_job [OF inv_drop_job [OF assms(1)]]) (auto simp: keys_ok_def once_add)
qed

lemma docs_inv_step:
  assumes "inj uuid" and "docs_step utf8 sha256 guess_type uuid src s s'" and "docs_inv sha256 uuid src s"
  shows "docs_inv sha256 uuid src s'"
  using assms(2,3)
proof cases
  case (asset_commits db pa key loaded db' J)
  then show ?thesis
    using assms(3) inv_asset_inserts inv_asset_updates by (cases loaded) (auto simp: superseded_def)
qed (use assms(1,3) in \<open>auto intro: inv_save_begins inv_edit_begins inv_body_written inv_save_commits inv_asset_written
      inv_asset_loads inv_delete_begins inv_delete_commits inv_asset_delete_begins inv_asset_delete_commits inv_object_removed
      inv_stamped inv_drop_job inv_held_fails inv_new_job\<close>)

lemma docs_inv_reachable:
  assumes "inj uuid" and "docs_reachable utf8 sha256 guess_type uuid src s"
  shows "docs_inv sha256 uuid src s"
  using assms(2)
proof induction
  case docs_start
  then show ?case
    by (simp add: docs_inv_parts keys_ok_def tables_ok_def jobs_ok_def refs_def row_refs_def empty_docs_def once_def)
qed (rule docs_inv_step [OF assms(1)])

end
