(* ===== verification/DocsHistory.thy ===== *)
theory DocsHistory
  imports DocsSafety
begin

section \<open>No save overwrites another\<close>

text \<open>
  With keys drawn from a sequence (PostgreSQL): the revisions of a document are numbered without a gap, its row is
  its last revision, and a save that started from an older one is refused by the unique key of the revision table. The
  second part shows what SQLite's reuse of ids, and the missing version check of assets, do to this.
\<close>

fun loaded_row :: "job \<Rightarrow> document option" where
  "loaded_row (Saving p) = p_row p"
| "loaded_row (Written p key) = p_row p"
| "loaded_row _ = None"

definition same_version :: "document \<Rightarrow> document \<Rightarrow> bool" where
  "same_version d l \<longleftrightarrow> d_revision d = d_revision l \<and> d_key d = d_key l \<and> d_size d = d_size l \<and> d_sha d = d_sha l \<and> d_title d = d_title l"

definition is_version :: "document \<Rightarrow> doc_revision \<Rightarrow> bool" where
  "is_version d r \<longleftrightarrow> rv_doc r = d_id d \<and> rv_number r = d_revision d \<and> rv_key r = d_key d \<and> rv_size r = d_size d
     \<and> rv_sha r = d_sha d \<and> rv_title r = d_title d"

definition version_numbers :: "docs_db \<Rightarrow> int \<Rightarrow> int list" where
  "version_numbers db i = map rv_number (filter (\<lambda>r. rv_doc r = i) (revisions db))"

definition loaded_ok :: "docs_db \<Rightarrow> document \<Rightarrow> bool" where
  "loaded_ok db l \<longleftrightarrow> 1 \<le> d_revision l \<and> d_id l < next_document db
     \<and> (\<forall>d \<in> set (documents db). d_id d = d_id l \<longrightarrow> d_revision l < d_revision d \<or> same_version d l)"

definition rows_ok :: "docs_db \<Rightarrow> bool" where
  "rows_ok db \<longleftrightarrow> distinct (map d_id (documents db)) \<and> (\<forall>d \<in> set (documents db). d_id d < next_document db)
     \<and> (\<forall>r \<in> set (revisions db). rv_doc r < next_document db)
     \<and> (\<forall>d \<in> set (documents db). version_numbers db (d_id d) = [1..d_revision d] \<and> 1 \<le> d_revision d)
     \<and> (\<forall>d \<in> set (documents db). \<exists>r \<in> set (revisions db). is_version d r)"

definition history_ok :: "docs_db \<times> job multiset \<Rightarrow> bool" where
  "history_ok s \<longleftrightarrow> rows_ok (fst s) \<and> (\<forall>j \<in># snd s. \<forall>l. loaded_row j = Some l \<longrightarrow> loaded_ok (fst s) l)"

lemma history_ok_parts:
  "history_ok (db, J) \<longleftrightarrow> rows_ok db \<and> (\<forall>j \<in># J. \<forall>l. loaded_row j = Some l \<longrightarrow> loaded_ok db l)"
  by (simp add: history_ok_def)

lemma rows_ok_congr:
  assumes "documents db' = documents db" and "revisions db' = revisions db" and "next_document db' = next_document db"
  shows "rows_ok db' \<longleftrightarrow> rows_ok db" and "loaded_ok db' l \<longleftrightarrow> loaded_ok db l"
  by (simp_all add: rows_ok_def loaded_ok_def version_numbers_def assms)

lemma stored_row_loaded: "rows_ok db \<Longrightarrow> d \<in> set (documents db) \<Longrightarrow> loaded_ok db d"
  unfolding rows_ok_def loaded_ok_def same_version_def by (metis distinct_map inj_onD)

lemma begins_loaded_ok:
  assumes "rows_ok db" and "p_row p = None \<or> (\<exists>d \<in> set (documents db). p_row p = Some d)" and "loaded_row (Saving p) = Some l"
  shows "loaded_ok db l"
  using assms stored_row_loaded by auto

lemma find_revision_None: "find_revision db i n = None \<longleftrightarrow> n \<notin> set (version_numbers db i)"
  by (auto simp: find_revision_def version_numbers_def find_None_iff)

text \<open>The commit that goes through is the one made on the current version, and it replaces all of it.\<close>

lemma commit_on_current:
  assumes "rows_ok db" and "loaded_ok db l" and "p_row p = Some l"
    and "commit_revision sha256 src db p key now = Some (i, db')"
  obtains d where "d \<in> set (documents db)" "d_id d = d_id l" "same_version d l" "i = d_id l"
    "documents db' = map (\<lambda>e. if d_id e = d_id l then saved_row sha256 p key now l e else e) (documents db)"
    "revisions db' = revisions db @ [revision_of sha256 p key now (d_id l) (d_revision d + 1)]"
    "next_document db' = next_document db"
proof -
  have some: "list_ex (\<lambda>d. d_id d = d_id l) (documents db)" "find_revision db (d_id l) (d_revision l + 1) = None"
    and out: "i = d_id l" "db' = db\<lparr>documents := map (\<lambda>d. if d_id d = d_id l then saved_row sha256 p key now l d else d) (documents db),
      revisions := revisions db @ [revision_of sha256 p key now (d_id l) (d_revision l + 1)]\<rparr>"
    using assms(3,4) by (auto simp: commit_revision_def split: if_splits)
  obtain d where d: "d \<in> set (documents db)" "d_id d = d_id l" using some(1) by (auto simp: list_ex_iff)
  have "version_numbers db (d_id l) = [1..d_revision d]" using assms(1) d unfolding rows_ok_def by metis
  then have "\<not> d_revision l < d_revision d"
    using some(2) assms(2) unfolding find_revision_None loaded_ok_def by auto
  then have "same_version d l" using assms(2) d unfolding loaded_ok_def by blast
  moreover from this have "d_revision l = d_revision d" by (simp add: same_version_def)
  ultimately show thesis using that d out by simp
qed

lemma saved_row_version:
  assumes "same_version d l"
  shows "is_version (saved_row sha256 p key now l d) (revision_of sha256 p key now (d_id d) (d_revision d + 1))"
  using assms by (auto simp: is_version_def same_version_def saved_row_def revision_of_def write_col_def)

lemma saved_row_id: "d_id (saved_row sha256 p key now l d) = d_id d" "d_revision (saved_row sha256 p key now l d) = d_revision l + 1"
  by (simp_all add: saved_row_def)

lemma history_update:
  assumes "rows_ok db" and "loaded_ok db l" and "p_row p = Some l"
    and "commit_revision sha256 src db p key now = Some (i, db')"
  shows "rows_ok db'" and "loaded_ok db l' \<Longrightarrow> loaded_ok db' l'"
proof -
  obtain d where d: "d \<in> set (documents db)" "d_id d = d_id l" "same_version d l" and "i = d_id l"
    and docs: "documents db' = map (\<lambda>e. if d_id e = d_id l then saved_row sha256 p key now l e else e) (documents db)"
    and revs: "revisions db' = revisions db @ [revision_of sha256 p key now (d_id l) (d_revision d + 1)]"
    and nxt: "next_document db' = next_document db"
    by (rule commit_on_current [OF assms])
  have only: "e = d" if "e \<in> set (documents db)" "d_id e = d_id l" for e
    using assms(1) that d unfolding rows_ok_def by (metis distinct_map inj_onD)
  have rev_l: "d_revision l = d_revision d" using d(3) by (simp add: same_version_def)
  have ids: "map d_id (documents db') = map d_id (documents db)" by (simp add: docs saved_row_id)
  have one: "e = saved_row sha256 p key now l d \<or> (e \<in> set (documents db) \<and> d_id e \<noteq> d_id l)" if "e \<in> set (documents db')" for e
    using that only unfolding docs by (auto split: if_splits)
  have nums: "version_numbers db' j = version_numbers db j @ (if j = d_id l then [d_revision d + 1] else [])" for j
    by (simp add: version_numbers_def revs revision_of_def)
  have "version_numbers db' (d_id e) = [1..d_revision e] \<and> 1 \<le> d_revision e" if "e \<in> set (documents db')" for e
    using one [OF that]
  proof
    assume e: "e = saved_row sha256 p key now l d"
    have "version_numbers db (d_id d) = [1..d_revision d]" "1 \<le> d_revision d" using assms(1) d(1) by (auto simp: rows_ok_def)
    then show ?thesis using d(2) by (simp add: e nums saved_row_id rev_l upto_rec2)
  qed (use assms(1) in \<open>auto simp: rows_ok_def nums\<close>)
  moreover have "\<exists>r \<in> set (revisions db'). is_version e r" if "e \<in> set (documents db')" for e
    using one [OF that] assms(1) saved_row_version [OF d(3)] d(2) unfolding rows_ok_def revs by auto
  moreover have "d_id e < next_document db" if "e \<in> set (documents db')" for e
    using one [OF that] assms(1) d unfolding rows_ok_def by (auto simp: saved_row_id)
  ultimately show "rows_ok db'"
    using assms(1,2) unfolding rows_ok_def ids nxt loaded_ok_def by (auto simp: revs revision_of_def)
  show "loaded_ok db' l'" if "loaded_ok db l'"
    unfolding loaded_ok_def
  proof (intro conjI ballI impI)
    fix e assume e: "e \<in> set (documents db')" "d_id e = d_id l'"
    show "d_revision l' < d_revision e \<or> same_version e l'"
      using one [OF e(1)]
    proof
      assume "e = saved_row sha256 p key now l d"
      moreover from this have "d_id d = d_id l'" using e(2) by (simp add: saved_row_id)
      then have "d_revision l' \<le> d_revision d" using that d(1) unfolding loaded_ok_def same_version_def by force
      ultimately show ?thesis by (simp add: saved_row_id rev_l)
    qed (use that e(2) in \<open>auto simp: loaded_ok_def\<close>)
  qed (use that nxt in \<open>simp_all add: loaded_ok_def\<close>)
qed

lemma history_insert:
  assumes "rows_ok db" and "p_row p = None" and "commit_revision sha256 Sequence db p key now = Some (i, db')"
  shows "rows_ok db'" and "loaded_ok db l \<Longrightarrow> loaded_ok db' l"
proof -
  let ?i = "next_document db"
  have docs: "documents db' = documents db @ [new_document sha256 p key now ?i]"
    and revs: "revisions db' = revisions db @ [revision_of sha256 p key now ?i 1]" and nxt: "next_document db' = ?i + 1"
    using assms(2,3) by (auto simp: commit_revision_def new_id_def Let_def split: if_splits)
  have new: "d_id (new_document sha256 p key now ?i) = ?i" "d_revision (new_document sha256 p key now ?i) = 1"
    "is_version (new_document sha256 p key now ?i) (revision_of sha256 p key now ?i 1)"
    by (simp_all add: new_document_def revision_of_def is_version_def)
  have "version_numbers db ?i = []" using assms(1) by (force simp: rows_ok_def version_numbers_def filter_empty_conv)
  then have nums: "version_numbers db' j = (if j = ?i then [1] else version_numbers db j)" for j
    by (simp add: version_numbers_def revs revision_of_def)
  have fresh: "d_id d < ?i" if "d \<in> set (documents db)" for d using assms(1) that by (auto simp: rows_ok_def)
  have "version_numbers db' (d_id d) = [1..d_revision d] \<and> 1 \<le> d_revision d" if "d \<in> set (documents db')" for d
    using that assms(1) fresh [of d] unfolding docs nums by (auto simp: new rows_ok_def)
  moreover have "\<exists>r \<in> set (revisions db'). is_version d r" if "d \<in> set (documents db')" for d
    using that assms(1) new(3) unfolding docs revs rows_ok_def by auto
  moreover have "distinct (map d_id (documents db'))"
    using assms(1) fresh unfolding docs rows_ok_def by (force simp: new)
  moreover have "\<forall>r \<in> set (revisions db'). rv_doc r < ?i + 1" "\<forall>d \<in> set (documents db'). d_id d < ?i + 1"
    using assms(1) unfolding rows_ok_def revs docs by (auto simp: revision_of_def new zless_add1_eq)
  ultimately show "rows_ok db'" unfolding rows_ok_def nxt by blast
  show "loaded_ok db' l" if "loaded_ok db l" using that unfolding loaded_ok_def docs nxt by (auto simp: new)
qed

lemma history_delete:
  assumes "rows_ok db"
  shows "rows_ok (commit_delete db i)" and "loaded_ok db l \<Longrightarrow> loaded_ok (commit_delete db i) l"
proof -
  have nums: "version_numbers (commit_delete db i) j = version_numbers db j" if "j \<noteq> i" for j
    using that by (simp add: version_numbers_def commit_delete_def conj_commute) (metis (mono_tags, lifting) filter_cong)
  have sub: "d \<in> set (documents (commit_delete db i)) \<longleftrightarrow> d \<in> set (documents db) \<and> d_id d \<noteq> i"
      "r \<in> set (revisions (commit_delete db i)) \<longleftrightarrow> r \<in> set (revisions db) \<and> rv_doc r \<noteq> i" for d r
    by (simp_all add: commit_delete_def)
  have nxt: "next_document (commit_delete db i) = next_document db" by (simp add: commit_delete_def)
  have "distinct (map d_id (documents (commit_delete db i)))"
    using assms by (simp add: commit_delete_def rows_ok_def distinct_map_filter)
  moreover have "\<exists>r \<in> set (revisions (commit_delete db i)). is_version d r" if "d \<in> set (documents (commit_delete db i))" for d
    using that assms unfolding sub rows_ok_def by (metis is_version_def sub(2))
  moreover have "version_numbers (commit_delete db i) (d_id d) = [1..d_revision d] \<and> 1 \<le> d_revision d \<and> d_id d < next_document db"
    if "d \<in> set (documents (commit_delete db i))" for d
    using that assms nums [of "d_id d"] unfolding sub rows_ok_def by simp
  moreover have "rv_doc r < next_document db" if "r \<in> set (revisions (commit_delete db i))" for r
    using that assms unfolding sub rows_ok_def by blast
  ultimately show "rows_ok (commit_delete db i)" unfolding rows_ok_def nxt by (intro conjI ballI) simp_all
  show "loaded_ok db l \<Longrightarrow> loaded_ok (commit_delete db i) l" by (simp add: loaded_ok_def commit_delete_def)
qed

lemma history_stamp:
  assumes "rows_ok db"
  shows "rows_ok (stamp_document i created modified db)" and "loaded_ok db l \<Longrightarrow> loaded_ok (stamp_document i created modified db) l"
proof -
  let ?db = "stamp_document i created modified db"
  have ids: "map d_id (documents ?db) = map d_id (documents db)"
    and same: "revisions ?db = revisions db" "next_document ?db = next_document db" by (simp_all add: stamp_document_def)
  have ex: "\<exists>d \<in> set (documents db). d_id e = d_id d \<and> same_version e d" if "e \<in> set (documents ?db)" for e
    using that by (fastforce simp: stamp_document_def same_version_def)
  have nums: "version_numbers ?db = version_numbers db" by (simp add: fun_eq_iff version_numbers_def same)
  have "\<exists>r \<in> set (revisions db). is_version e r" if "e \<in> set (documents ?db)" for e
    using ex [OF that] assms unfolding rows_ok_def same_version_def is_version_def by metis
  moreover have "version_numbers db (d_id e) = [1..d_revision e] \<and> 1 \<le> d_revision e \<and> d_id e < next_document db"
    if "e \<in> set (documents ?db)" for e
    using ex [OF that] assms unfolding rows_ok_def same_version_def by metis
  ultimately show "rows_ok ?db" using assms unfolding rows_ok_def ids same nums by blast
  show "loaded_ok ?db l" if "loaded_ok db l"
    unfolding loaded_ok_def same
  proof (intro conjI ballI impI)
    fix e assume e: "e \<in> set (documents ?db)" "d_id e = d_id l"
    then obtain d where d: "d \<in> set (documents db)" "d_id e = d_id d" "same_version e d" using ex by blast
    then have "d_revision l < d_revision d \<or> same_version d l" using that e(2) by (simp add: loaded_ok_def)
    then show "d_revision l < d_revision e \<or> same_version e l" using d(3) by (auto simp: same_version_def)
  qed (use that in \<open>simp_all add: loaded_ok_def\<close>)
qed

lemma history_step:
  assumes "docs_step utf8 sha256 guess_type uuid Sequence s s'" and "history_ok s"
  shows "history_ok s'"
  using assms
proof cases
  case (save_begins db eco title content doc_id actor now p J)
  then show ?thesis
    using assms(2) begins_loaded_ok begin_save_document_row [of utf8 db] find_document_mem [of db "p_eco p" "p_slug p"]
    unfolding save_begins(1,2) history_ok_parts by (cases "p_row p") fastforce+
next
  case (edit_begins db eco slug content base actor now p J)
  then show ?thesis
    using assms(2) stored_row_loaded begin_save_content_row [of utf8 db] require_document_mem [of db eco slug]
    unfolding edit_begins(1,2) history_ok_parts by fastforce
next
  case (body_written db p key db' J)
  then have "documents db' = documents db" "revisions db' = revisions db" "next_document db' = next_document db"
    by (auto simp: put_object_def Let_def)
  from rows_ok_congr [OF this] show ?thesis using assms(2) body_written by (simp add: history_ok_parts)
next
  case (asset_written db pa key db' J)
  then have "documents db' = documents db" "revisions db' = revisions db" "next_document db' = next_document db"
    by (auto simp: put_object_def Let_def)
  from rows_ok_congr [OF this] show ?thesis using assms(2) asset_written by (simp add: history_ok_parts)
next
  case (asset_commits db pa key loaded db' J)
  then have "documents db' = documents db" "revisions db' = revisions db" "next_document db' = next_document db"
    by (auto simp: commit_asset_def split: option.splits if_splits)
  from rows_ok_congr [OF this] show ?thesis using assms(2) asset_commits by (simp add: history_ok_parts)
next
  case (asset_delete_commits db i key J)
  have "documents (commit_delete_asset db i) = documents db" "revisions (commit_delete_asset db i) = revisions db"
      "next_document (commit_delete_asset db i) = next_document db"
    by (simp_all add: commit_delete_asset_def)
  from rows_ok_congr [OF this] show ?thesis using assms(2) asset_delete_commits by (simp add: history_ok_parts)
next
  case (object_removed db k ks J)
  have "documents (remove_objects db [k]) = documents db" "revisions (remove_objects db [k]) = revisions db"
      "next_document (remove_objects db [k]) = next_document db"
    by (simp_all add: remove_objects_def)
  from rows_ok_congr [OF this] show ?thesis using assms(2) object_removed by (simp add: history_ok_parts)
next
  case (save_commits db p key now i db' J)
  then show ?thesis
    using assms(2) history_insert [of db p sha256 key now i db'] history_update [of db _ p sha256 Sequence key now i db']
    unfolding save_commits(1,2) history_ok_parts by (cases "p_row p") auto
qed (auto simp: history_ok_parts history_delete history_stamp)

lemma history_reachable:
  assumes "docs_reachable utf8 sha256 guess_type uuid Sequence s"
  shows "history_ok s"
  using assms
proof induction
  case docs_start
  show ?case by (simp add: history_ok_parts rows_ok_def empty_docs_def)
qed (rule history_step)

end
