(* ===== verification/DocsCatalog.thy ===== *)
theory DocsCatalog
  imports DocsHistory
begin

section \<open>What the rows of the catalogue look like\<close>

text \<open>Names are in normal form, addresses are unique, bodies are within their budget; in every interleaving.\<close>

definition save_ok :: "pending \<Rightarrow> bool" where
  "save_ok p \<longleftrightarrow> p_eco p \<in> set ECOSYSTEMS \<and> normalize_doc_id (p_slug p) = Inr (p_slug p)
     \<and> normalize_title (p_title p) = Inr (p_title p) \<and> length (p_body p) \<le> MAX_DOC_BYTES"

fun job_normal :: "job \<Rightarrow> bool" where
  "job_normal (Saving p) = save_ok p"
| "job_normal (Written p key) = save_ok p"
| "job_normal _ = True"

definition document_normal :: "document \<Rightarrow> bool" where
  "document_normal d \<longleftrightarrow> d_eco d \<in> set ECOSYSTEMS \<and> normalize_doc_id (d_slug d) = Inr (d_slug d)
     \<and> normalize_title (d_title d) = Inr (d_title d)"

definition tables_normal :: "docs_db \<Rightarrow> bool" where
  "tables_normal db \<longleftrightarrow> (\<forall>d \<in> set (documents db). document_normal d)
     \<and> distinct (map (\<lambda>d. (d_eco d, d_slug d)) (documents db))
     \<and> (\<forall>r \<in> set (revisions db). rv_size r \<le> MAX_DOC_BYTES)"

definition catalog_ok :: "docs_db \<times> job multiset \<Rightarrow> bool" where
  "catalog_ok s \<longleftrightarrow> tables_normal (fst s) \<and> (\<forall>j \<in># snd s. job_normal j)"

lemma catalog_ok_parts [simp]: "catalog_ok (db, J) \<longleftrightarrow> tables_normal db \<and> (\<forall>j \<in># J. job_normal j)"
  by (simp add: catalog_ok_def)

subsection \<open>Slugs\<close>

lemma slug_char_plain: "slug_char c \<Longrightarrow> \<not> py_isspace c \<and> \<not> forbidden_char c \<and> \<not> is_control c"
  by (auto simp: slug_char_def is_alpha_def is_digit_def py_isspace_def forbidden_char_def is_control_def Let_def)

lemma dropWhile_ends:
  "set (dropWhile P xs) \<subseteq> set xs" "length (dropWhile P xs) \<le> length xs"
  by (auto dest: set_dropWhileD simp: length_dropWhile_le)

lemma strip_edges_parts:
  "set (strip_edges s) \<subseteq> set s" "length (strip_edges s) \<le> length s" "strip_edges s \<noteq> [] \<Longrightarrow> \<not> edge_char (hd (strip_edges s))"
proof -
  let ?l = "dropWhile edge_char s"
  show "set (strip_edges s) \<subseteq> set s" unfolding strip_edges_def by (auto dest!: set_dropWhileD)
  show "length (strip_edges s) \<le> length s"
    unfolding strip_edges_def using dropWhile_ends(2) [of edge_char s] dropWhile_ends(2) [of edge_char "rev ?l"] by simp
  obtain t where t: "?l = strip_edges s @ t"
    unfolding strip_edges_def by (metis rev_append rev_rev_ident takeWhile_dropWhile_id)
  then show "strip_edges s \<noteq> [] \<Longrightarrow> \<not> edge_char (hd (strip_edges s))"
    by (metis append_is_Nil_conv hd_append2 hd_dropWhile)
qed

lemma collapse_dashes_set: "set (collapse_dashes s) \<subseteq> set s"
  by (induction s rule: collapse_dashes.induct) auto

lemma strip_edges_last: "strip_edges s \<noteq> [] \<Longrightarrow> \<not> edge_char (last (strip_edges s))"
  unfolding strip_edges_def by (metis hd_dropWhile last_rev rev_is_Nil_conv)

lemma slugify_shape:
  "slugify t \<noteq> []" "list_all slug_char (slugify t)" "length (slugify t) \<le> SLUG_MAX" "\<not> edge_char (hd (slugify t))"
proof -
  define m where "m = map (\<lambda>c. if slug_char c then c else CHR ''-'') (dash_blanks (py_lower (py_strip t)))"
  define u where "u = or_str (strip_edges (collapse_dashes m)) ''doc''"
  define v where "v = strip_edges (take SLUG_MAX u)"
  have s: "slugify t = or_str v ''doc''" by (simp add: slugify_def Let_def m_def u_def v_def)
  have doc: "list_all slug_char ''doc''" "length ''doc'' \<le> SLUG_MAX" "\<not> edge_char (hd ''doc'')" by code_simp+
  have "slug_char CHR ''-''" by code_simp
  then have "\<forall>c \<in> set m. slug_char c" by (auto simp: m_def)
  then have "\<forall>c \<in> set u. slug_char c"
    using strip_edges_parts(1) [of "collapse_dashes m"] collapse_dashes_set [of m] doc(1)
    by (auto simp: u_def or_str_def list_all_iff split: if_splits)
  then have v: "\<forall>c \<in> set v. slug_char c"
    using strip_edges_parts(1) [of "take SLUG_MAX u"] set_take_subset [of SLUG_MAX u] unfolding v_def by blast
  show "slugify t \<noteq> []" by (simp add: s or_str_def)
  show "list_all slug_char (slugify t)" using v doc(1) by (simp add: s or_str_def list_all_iff)
  show "length (slugify t) \<le> SLUG_MAX"
    using strip_edges_parts(2) [of "take SLUG_MAX u"] doc(2) by (simp add: s or_str_def v_def del: length_Cons)
  show "\<not> edge_char (hd (slugify t))" using strip_edges_parts(3) [of "take SLUG_MAX u"] doc(3) by (simp add: s or_str_def v_def)
qed

lemma slugify_normal: "normalize_doc_id (slugify title) = Inr (slugify title)"
proof -
  have plain: "\<forall>c \<in> set (slugify title). \<not> py_isspace c \<and> \<not> forbidden_char c \<and> \<not> is_control c"
    using slugify_shape(2) slug_char_plain by (auto simp: list_all_iff)
  then have "py_strip (slugify title) = slugify title"
    using slugify_shape(1) by (intro py_strip_fix) simp
  moreover have "\<not> startswith (slugify title) ''.''"
    using slugify_shape(1,4) [of title] by (cases "slugify title") (auto simp: startswith_def edge_char_def)
  moreover have "\<not> list_ex (\<lambda>c. forbidden_char c \<or> is_control c) (slugify title)"
    using plain by (auto simp: list_ex_iff)
  ultimately show ?thesis
    using slugify_shape(1,3) [of title] by (simp add: normalize_doc_id_def Let_def)
qed

subsection \<open>Normal forms\<close>

lemma normalize_doc_id_normal: "normalize_doc_id v = Inr s \<Longrightarrow> normalize_doc_id s = Inr s"
  unfolding normalize_doc_id_def Let_def by (auto simp: py_strip_idem split: if_splits)

lemma normalize_title_normal: "normalize_title v = Inr s \<Longrightarrow> normalize_title s = Inr s"
  unfolding normalize_title_def Let_def by (auto simp: py_strip_idem split: if_splits)

lemma begin_save_document_ok:
  assumes "begin_save_document utf8 db eco title content doc_id actor now = Inr p"
  shows "save_ok p"
  using assms normalize_title_normal [of title]
  by (auto simp: begin_save_document_def save_ok_def dest: normalize_doc_id_normal split: if_splits sum.splits intro: slugify_normal)

lemma begin_save_content_ok:
  assumes "tables_normal db" and "begin_save_content utf8 db eco slug content base actor now = Inr p"
  shows "save_ok p"
  using assms require_document_mem [of db eco slug]
  by (auto simp: begin_save_content_def save_ok_def tables_normal_def document_normal_def split: if_splits sum.splits
      dest: normalize_title_normal)

subsection \<open>Commits\<close>

lemma find_document_None:
  "find_document db eco slug = None \<longleftrightarrow> (eco, slug) \<notin> set (map (\<lambda>d. (d_eco d, d_slug d)) (documents db))"
  by (auto simp: find_document_def find_None_iff)

lemma saved_row_normal:
  assumes "document_normal d" and "save_ok p"
  shows "document_normal (saved_row sha256 p key now l d)"
  using assms by (auto simp: document_normal_def save_ok_def saved_row_def write_col_def)

lemma saved_row_address: "(d_eco (saved_row sha256 p key now l d), d_slug (saved_row sha256 p key now l d)) = (d_eco d, d_slug d)"
  by (simp add: saved_row_def)

lemma normal_save_commits:
  assumes "tables_normal db" and "save_ok p" and "commit_revision sha256 src db p key now = Some (i, db')"
  shows "tables_normal db'"
proof (cases "p_row p")
  case None
  then have free: "find_document db (p_eco p) (p_slug p) = None"
    and docs: "documents db' = documents db @ [new_document sha256 p key now i]"
    and revs: "revisions db' = revisions db @ [revision_of sha256 p key now i 1]"
    using assms(3) by (auto simp: commit_revision_def Let_def split: if_splits)
  then show ?thesis
    using assms(1,2) unfolding tables_normal_def docs revs find_document_None
    by (auto simp: new_document_def document_normal_def save_ok_def revision_of_def)
next
  case (Some l)
  then have docs: "documents db' = map (\<lambda>d. if d_id d = d_id l then saved_row sha256 p key now l d else d) (documents db)"
    and revs: "revisions db' = revisions db @ [revision_of sha256 p key now (d_id l) (d_revision l + 1)]"
    using assms(3) by (auto simp: commit_revision_def split: if_splits)
  have "map (\<lambda>d. (d_eco d, d_slug d)) (documents db') = map (\<lambda>d. (d_eco d, d_slug d)) (documents db)"
    unfolding docs by (simp add: saved_row_def)
  moreover have "\<forall>d \<in> set (documents db'). document_normal d"
    using assms(1,2) saved_row_normal unfolding tables_normal_def docs by auto
  moreover have "\<forall>r \<in> set (revisions db'). rv_size r \<le> MAX_DOC_BYTES"
    using assms(1,2) unfolding tables_normal_def revs by (auto simp: revision_of_def save_ok_def)
  ultimately show ?thesis using assms(1) unfolding tables_normal_def by simp
qed

lemma tables_normal_congr:
  "documents db' = documents db \<Longrightarrow> revisions db' = revisions db \<Longrightarrow> tables_normal db' \<longleftrightarrow> tables_normal db"
  by (simp add: tables_normal_def)

lemma tables_normal_delete: "tables_normal db \<Longrightarrow> tables_normal (commit_delete db i)"
  by (simp add: tables_normal_def commit_delete_def distinct_map_filter)

lemma tables_normal_stamp: "tables_normal db \<Longrightarrow> tables_normal (stamp_document i created modified db)"
proof -
  assume db: "tables_normal db"
  have "map (\<lambda>d. (d_eco d, d_slug d)) (documents (stamp_document i created modified db)) = map (\<lambda>d. (d_eco d, d_slug d)) (documents db)"
    by (simp add: stamp_document_def)
  moreover have "document_normal d" if "d \<in> set (documents (stamp_document i created modified db))" for d
    using that db by (auto simp: stamp_document_def tables_normal_def document_normal_def)
  ultimately show ?thesis using db by (simp add: tables_normal_def) (simp add: stamp_document_def)
qed

lemma catalog_step:
  assumes "docs_step utf8 sha256 guess_type uuid src s s'" and "catalog_ok s"
  shows "catalog_ok s'"
  using assms
proof cases
  case (body_written db p key db' J)
  then have "documents db' = documents db" "revisions db' = revisions db" by (auto simp: put_object_def Let_def)
  from tables_normal_congr [OF this] show ?thesis using assms(2) body_written by simp
next
  case (asset_written db pa key db' J)
  then have "documents db' = documents db" "revisions db' = revisions db" by (auto simp: put_object_def Let_def)
  from tables_normal_congr [OF this] show ?thesis using assms(2) asset_written by simp
next
  case (asset_commits db pa key loaded db' J)
  then have "documents db' = documents db" "revisions db' = revisions db"
    by (auto simp: commit_asset_def split: option.splits if_splits)
  from tables_normal_congr [OF this] show ?thesis using assms(2) asset_commits by simp
next
  case (asset_delete_commits db i key J)
  have "documents (commit_delete_asset db i) = documents db" "revisions (commit_delete_asset db i) = revisions db"
    by (simp_all add: commit_delete_asset_def)
  from tables_normal_congr [OF this] show ?thesis using assms(2) asset_delete_commits by simp
next
  case (object_removed db k ks J)
  have "documents (remove_objects db [k]) = documents db" "revisions (remove_objects db [k]) = revisions db"
    by (simp_all add: remove_objects_def)
  from tables_normal_congr [OF this] show ?thesis using assms(2) object_removed by simp
qed (auto intro: begin_save_document_ok begin_save_content_ok normal_save_commits tables_normal_delete tables_normal_stamp)

lemma catalog_reachable:
  assumes "docs_reachable utf8 sha256 guess_type uuid src s"
  shows "catalog_ok s"
  using assms
proof induction
  case docs_start
  show ?case by (simp add: tables_normal_def empty_docs_def)
qed (rule catalog_step)

end
