(* ===== verification/DocsProps.thy ===== *)
theory DocsProps
  imports DocsCatalog
begin

section \<open>What the document catalogue guarantees\<close>

text \<open>
  C35: whatever the title, the slug derived from it is accepted unchanged as a document id: one path segment, not empty, not hidden,
  within the length of the column.
\<close>

theorem slugs_are_document_ids: "normalize_doc_id (slugify title) = Inr (slugify title)"
  by (rule slugify_normal)


subsection \<open>Concurrent requests\<close>

lemma find_snoc: "find P xs = None \<Longrightarrow> find P (xs @ [x]) = (if P x then Some x else None)"
  by (induction xs) (auto split: if_splits)

lemma docs_saved:
  assumes "docs_reachable utf8 sha256 guess_type uuid src (db, J)"
    and "begin_save_document utf8 db eco title content doc_id actor now = Inr p"
    and "put_object uuid db (p_body p) = (key, db1)" and "commit_revision sha256 src db1 p key now' = Some (i, db2)"
  shows "docs_reachable utf8 sha256 guess_type uuid src (db2, J)"
  using assms docs_next save_begins body_written save_commits by metis

definition demo_keys :: "nat \<Rightarrow> string" where "demo_keys n = replicate (Suc n) CHR ''k''"

lemma inj_demo_keys: "inj demo_keys"
  by (rule injI) (simp add: demo_keys_def)

definition demo_save :: pending where
  "demo_save = \<lparr>p_row = None, p_eco = ''npm'', p_slug = ''a'', p_title = ''A'', p_body = ''# A'', p_by = None, p_at = 0\<rparr>"

definition demo_doc :: document where
  "demo_doc = \<lparr>d_id = 1, d_eco = ''npm'', d_slug = ''a'', d_title = ''A'', d_revision = 1, d_key = ''k'', d_size = 3,
     d_sha = Some ''# A'', d_created = 0, d_modified = 0, d_created_by = None, d_modified_by = None\<rparr>"

definition demo_docs :: docs_db where
  "demo_docs = \<lparr>documents = [demo_doc], revisions = [\<lparr>rv_doc = 1, rv_number = 1, rv_key = ''k'', rv_size = 3, rv_sha = Some ''# A'',
       rv_type = DOC_CONTENT_TYPE, rv_title = ''A'', rv_at = 0, rv_by = None\<rparr>], doc_assets = [],
     objects = [''k'' \<mapsto> ''# A''], next_document = 2, next_asset = 1, drawn = 1\<rparr>"

lemma demo_reachable: "docs_reachable (\<lambda>s. s) (\<lambda>s. s) guess_type demo_keys Sequence (demo_docs, {#})"
proof (rule docs_saved [OF docs_start])
  have "''npm'' \<in> set ECOSYSTEMS" "normalize_title ''A'' = Inr ''A''" "slugify ''A'' = ''a''" by code_simp+
  then show "begin_save_document (\<lambda>s. s) empty_docs ''npm'' ''A'' ''# A'' None None 0 = Inr demo_save"
    by (simp add: begin_save_document_def MAX_DOC_BYTES_def opt_str_def find_document_def empty_docs_def demo_save_def)
  show "put_object demo_keys empty_docs (p_body demo_save)
      = (''k'', empty_docs\<lparr>objects := [''k'' \<mapsto> ''# A''], drawn := 1\<rparr>)"
    by (simp add: put_object_def Let_def demo_keys_def empty_docs_def demo_save_def)
  show "commit_revision (\<lambda>s. s) Sequence (empty_docs\<lparr>objects := [''k'' \<mapsto> ''# A''], drawn := 1\<rparr>) demo_save ''k'' 0
      = Some (1, demo_docs)"
    by (simp add: commit_revision_def demo_save_def find_document_def empty_docs_def new_id_def find_revision_def demo_docs_def
        demo_doc_def new_document_def revision_of_def)
qed

text \<open>
  however saves, uploads and deletions interleave, fail half-way or die, every revision has its object with
  the recorded size and digest, and every document and asset row has its object: no clean-up removes bytes a row still names.
\<close>

theorem rows_never_dangle:
  assumes "inj uuid" and "docs_reachable utf8 sha256 guess_type uuid src (db, J)"
  shows "list_all (\<lambda>r. \<exists>b. objects db (rv_key r) = Some b \<and> rv_size r = length b \<and> rv_sha r = Some (sha256 b)) (revisions db)
    \<and> list_all (\<lambda>d. objects db (d_key d) \<noteq> None) (documents db) \<and> list_all (\<lambda>a. objects db (as_key a) \<noteq> None) (doc_assets db)"
proof -
  have "tables_ok sha256 src db" using docs_inv_reachable [OF assms] unfolding docs_inv_parts by blast
  then show ?thesis unfolding tables_ok_def list_all_iff by fastforce
qed

theorem rows_never_dangle_witness:
  "list_all (\<lambda>d. objects demo_docs (d_key d) \<noteq> None) (documents demo_docs) \<and> documents demo_docs \<noteq> []"
  using rows_never_dangle [OF inj_demo_keys demo_reachable [of "\<lambda>s. s"]] by (simp add: demo_docs_def)

text \<open>
  C37: with ids from a sequence, a document's revisions are numbered 1 to its current revision without a gap, in the
  order they were made, and its row shows exactly its last revision, whatever requests interleave.
\<close>

theorem revisions_have_no_gap:
  assumes "docs_reachable utf8 sha256 guess_type uuid Sequence (db, J)"
  shows "list_all (\<lambda>d. version_numbers db (d_id d) = [1..d_revision d] \<and> list_ex (is_version d) (revisions db)) (documents db)"
  using history_reachable [OF assms] unfolding history_ok_parts rows_ok_def list_all_iff list_ex_iff by blast

theorem revisions_have_no_gap_witness:
  "list_all (\<lambda>d. version_numbers demo_docs (d_id d) = [1..d_revision d]) (documents demo_docs) \<and> length (documents demo_docs) = 1"
  using revisions_have_no_gap [OF demo_reachable [of "\<lambda>s. s"]] by (simp add: list_all_iff) (simp add: demo_docs_def)

text \<open>
  C7: with ids from a sequence no edit is lost: a save commits only when the version it was started from is still the current
  one, and then its body, title and size become the next revision.
\<close>

theorem no_edit_is_lost:
  assumes "docs_reachable utf8 sha256 guess_type uuid Sequence (db, add_mset (Written p key) J)" and "p_row p = Some l"
    and "commit_revision sha256 Sequence db p key now = Some (i, db')"
  shows "(\<exists>d \<in> set (documents db). d_id d = i \<and> same_version d l)
    \<and> (\<exists>e \<in> set (documents db'). d_id e = i \<and> d_revision e = d_revision l + 1 \<and> d_key e = key \<and> d_title e = p_title p
         \<and> d_size e = length (p_body p) \<and> d_sha e = Some (sha256 (p_body p)))"
proof -
  have ok: "rows_ok db" "loaded_ok db l"
    using history_reachable [OF assms(1)] assms(2) unfolding history_ok_parts by auto
  obtain d where d: "d \<in> set (documents db)" "d_id d = d_id l" "same_version d l" "i = d_id l"
    and docs: "documents db' = map (\<lambda>e. if d_id e = d_id l then saved_row sha256 p key now l e else e) (documents db)"
    and "revisions db' = revisions db @ [revision_of sha256 p key now (d_id l) (d_revision d + 1)]"
    and "next_document db' = next_document db"
    by (rule commit_on_current [OF ok assms(2,3)])
  have "saved_row sha256 p key now l d \<in> set (documents db')" using d unfolding docs by auto
  moreover have "is_version (saved_row sha256 p key now l d) (revision_of sha256 p key now (d_id d) (d_revision d + 1))"
    using d(3) by (rule saved_row_version)
  moreover from this have "d_id (saved_row sha256 p key now l d) = i" using d(2,4) by (simp add: saved_row_id)
  ultimately show ?thesis
    using d(1-3) d(4) by (intro conjI bexI [of _ d] bexI [of _ "saved_row sha256 p key now l d"])
      (simp_all add: is_version_def revision_of_def saved_row_id)
qed

lemma demo_edit_reachable:
  "docs_reachable (\<lambda>s. s) (\<lambda>s. s) (\<lambda>s. s) demo_keys Sequence
     (demo_docs\<lparr>objects := [''k'' \<mapsto> ''# A'', ''kk'' \<mapsto> ''# B''], drawn := 2\<rparr>,
      {#Written (demo_save\<lparr>p_row := Some demo_doc, p_title := ''B'', p_body := ''# B''\<rparr>) ''kk''#})"
proof (rule docs_next [OF docs_next [OF demo_reachable edit_begins] body_written])
  have facts: "''npm'' \<in> set ECOSYSTEMS" "normalize_title ''B'' = Inr ''B''" "normalize_doc_id ''a'' = Inr ''a''"
    "heading_in_text ''# B'' = ''B''" by code_simp+
  have "require_document demo_docs ''npm'' ''a'' = Inr demo_doc"
    by (simp add: require_document_def facts find_document_def demo_docs_def demo_doc_def)
  then show "begin_save_content (\<lambda>s. s) demo_docs ''npm'' ''a'' ''# B'' (Some 1) None 0
      = Inr (demo_save\<lparr>p_row := Some demo_doc, p_title := ''B'', p_body := ''# B''\<rparr>)"
    by (simp add: begin_save_content_def facts MAX_DOC_BYTES_def or_str_def) (simp add: demo_doc_def demo_save_def)
  show "put_object demo_keys demo_docs (p_body (demo_save\<lparr>p_row := Some demo_doc, p_title := ''B'', p_body := ''# B''\<rparr>))
      = (''kk'', demo_docs\<lparr>objects := [''k'' \<mapsto> ''# A'', ''kk'' \<mapsto> ''# B''], drawn := 2\<rparr>)"
    by (simp add: put_object_def Let_def demo_keys_def demo_docs_def numeral_2_eq_2)
qed

theorem no_edit_is_lost_witness:
  "case commit_revision (\<lambda>s. s) Sequence (demo_docs\<lparr>objects := [''k'' \<mapsto> ''# A'', ''kk'' \<mapsto> ''# B''], drawn := 2\<rparr>)
       (demo_save\<lparr>p_row := Some demo_doc, p_title := ''B'', p_body := ''# B''\<rparr>) ''kk'' 0 of
     None \<Rightarrow> False | Some (i, db') \<Rightarrow> \<exists>e \<in> set (documents db'). d_revision e = 2 \<and> d_key e = ''kk''"
proof -
  let ?db = "demo_docs\<lparr>objects := [''k'' \<mapsto> ''# A'', ''kk'' \<mapsto> ''# B''], drawn := 2\<rparr>"
  let ?p = "demo_save\<lparr>p_row := Some demo_doc, p_title := ''B'', p_body := ''# B''\<rparr>"
  have "commit_revision (\<lambda>s. s) Sequence ?db ?p ''kk'' 0 \<noteq> None"
    by (simp add: commit_revision_def demo_docs_def demo_doc_def find_revision_def)
  then obtain i db' where c: "commit_revision (\<lambda>s. s) Sequence ?db ?p ''kk'' 0 = Some (i, db')" by fast
  show ?thesis
    using no_edit_is_lost [OF demo_edit_reachable _ c] unfolding c by (auto simp: demo_doc_def)
qed


subsection \<open>Ids that come back\<close>

text \<open>
  on SQLite, which gives the largest id out again once its row is gone: a save that started on a document deleted since
  commits onto the document created next, and that document then shows the stale body under the stale title.
\<close>

theorem stale_save_lands_elsewhere:
  assumes "documents db = ds @ [l]" and "new_id Largest 0 (map d_id ds) = d_id l" and "d_revision l = 1"
    and "p_row p = Some l" and "kp \<noteq> d_key l" and "p_title p \<noteq> d_title l" and "p_row q = None"
    and "find_document (db\<lparr>documents := ds\<rparr>) (p_eco q) (p_slug q) = None"
  shows "case commit_revision sha256 Largest (commit_delete db (d_id l)) q kq t1 of None \<Rightarrow> False | Some (i, db1) \<Rightarrow>
     (case commit_revision sha256 Largest db1 p kp t2 of None \<Rightarrow> False | Some (j, db2) \<Rightarrow>
        i = d_id l \<and> j = i \<and> (\<exists>e. find_document db2 (p_eco q) (p_slug q) = Some e \<and> d_key e = kp \<and> d_title e = p_title p))"
proof -
  have "d_id l \<notin> d_id ` set ds" using new_id_fresh [of Largest "map d_id ds" 0] assms(2) by simp
  then have below: "d_id d \<noteq> d_id l" if "d \<in> set ds" for d using that by (metis imageI)
  then have del: "commit_delete db (d_id l) = db\<lparr>documents := ds, revisions := filter (\<lambda>r. rv_doc r \<noteq> d_id l) (revisions db),
      doc_assets := filter (\<lambda>a. as_doc a \<noteq> d_id l) (doc_assets db)\<rparr>"
    by (auto simp: commit_delete_def assms(1) filter_id_conv)
  have free: "find_document (commit_delete db (d_id l)) (p_eco q) (p_slug q) = None"
    using assms(8) by (simp add: find_document_def del)
  have gone: "find_revision (commit_delete db (d_id l)) (d_id l) n = None" for n
    by (auto simp: find_revision_def commit_delete_def find_None_iff)
  have new: "new_id Largest m (map d_id (documents (commit_delete db (d_id l)))) = d_id l" for m
    using assms(2) by (simp add: new_id_def del)
  let ?n = "new_document sha256 q kq t1 (d_id l)"
  define db1 where "db1 = commit_delete db (d_id l)\<lparr>documents := ds @ [?n],
    revisions := filter (\<lambda>r. rv_doc r \<noteq> d_id l) (revisions db) @ [revision_of sha256 q kq t1 (d_id l) 1],
    next_document := next_document db + 1\<rparr>"
  have c1: "commit_revision sha256 Largest (commit_delete db (d_id l)) q kq t1 = Some (d_id l, db1)"
    using free gone by (simp add: commit_revision_def assms(7) new Let_def db1_def) (simp add: del)
  have d1: "documents db1 = ds @ [?n]" "find_revision db1 (d_id l) 2 = None" and id: "d_id ?n = d_id l"
    by (auto simp: db1_def find_revision_def find_None_iff revision_of_def new_document_def)
  let ?e = "saved_row sha256 p kp t2 l ?n"
  have "map (\<lambda>d. if d_id d = d_id l then saved_row sha256 p kp t2 l d else d) ds = ds"
    by (rule map_idI) (use below in simp)
  then obtain db2 where c2: "commit_revision sha256 Largest db1 p kp t2 = Some (d_id l, db2)" and d2: "documents db2 = ds @ [?e]"
    using d1 id assms(3) by (simp add: commit_revision_def assms(4))
  have "find_document db2 (p_eco q) (p_slug q) = Some ?e"
    using assms(8) d2 by (simp add: find_document_def find_snoc saved_row_def new_document_def)
  then show ?thesis using assms(5,6) by (auto simp: c1 c2 saved_row_def write_col_def)
qed

theorem stale_save_lands_elsewhere_witness:
  "case commit_revision (\<lambda>s. s) Largest (commit_delete demo_docs 1) (demo_save\<lparr>p_slug := ''b''\<rparr>) ''kk'' 0 of None \<Rightarrow> False
   | Some (i, db1) \<Rightarrow>
     (case commit_revision (\<lambda>s. s) Largest db1 (demo_save\<lparr>p_row := Some demo_doc, p_title := ''B''\<rparr>) ''kkk'' 0 of None \<Rightarrow> False
      | Some (j, db2) \<Rightarrow> \<exists>e. find_document db2 ''npm'' ''b'' = Some e \<and> d_key e = ''kkk'' \<and> d_title e = ''B'')"
proof -
  let ?p = "demo_save\<lparr>p_row := Some demo_doc, p_title := ''B''\<rparr>" and ?q = "demo_save\<lparr>p_slug := ''b''\<rparr>"
  have one: "d_id demo_doc = 1" and addr: "p_eco ?q = ''npm''" "p_slug ?q = ''b''" "p_title ?p = ''B''"
    by (simp_all add: demo_doc_def demo_save_def)
  have "case commit_revision (\<lambda>s. s) Largest (commit_delete demo_docs (d_id demo_doc)) ?q ''kk'' 0 of None \<Rightarrow> False | Some (i, db1) \<Rightarrow>
     (case commit_revision (\<lambda>s. s) Largest db1 ?p ''kkk'' 0 of None \<Rightarrow> False | Some (j, db2) \<Rightarrow>
        i = d_id demo_doc \<and> j = i
        \<and> (\<exists>e. find_document db2 (p_eco ?q) (p_slug ?q) = Some e \<and> d_key e = ''kkk'' \<and> d_title e = p_title ?p))"
    by (rule stale_save_lands_elsewhere [where ds = "[]"])
      (simp_all add: demo_docs_def demo_doc_def demo_save_def new_id_def find_document_def)
  then show ?thesis unfolding one addr by (auto split: option.splits)
qed

lemma commit_asset_updates:
  assumes "c \<in> set (doc_assets db)" and "as_id c = as_id a"
  obtains db' where "commit_asset sha256 src db p k (Some a) = Some db'"
    "c\<lparr>as_key := write_col k (as_key a) (as_key c), as_size := write_col (length (pa_body p)) (as_size a) (as_size c),
       as_sha := write_col (Some (sha256 (pa_body p))) (as_sha a) (as_sha c),
       as_type := write_col (pa_type p) (as_type a) (as_type c)\<rparr> \<in> set (doc_assets db')"
proof -
  have "list_ex (\<lambda>b. as_id b = as_id a) (doc_assets db)" using assms by (auto simp: list_ex_iff)
  then show thesis using that assms by (auto simp: commit_asset_def intro!: rev_image_eqI [of c])
qed

text \<open>
  Two uploads of one asset that both loaded the old row: when the second one carries the old content again, its object
  becomes current but the size and the digest stay those of the first, since columns that did not change are not written.
\<close>

theorem asset_metadata_of_another_upload:
  assumes "a \<in> set (doc_assets db)" and "k1 \<noteq> as_key a" and "k2 \<noteq> as_key a"
    and "as_sha a = Some (sha256 (pa_body p2))" and "sha256 (pa_body p1) \<noteq> sha256 (pa_body p2)"
    and "as_size a = length (pa_body p2)" and "length (pa_body p1) \<noteq> length (pa_body p2)"
  shows "case commit_asset sha256 src db p1 k1 (Some a) of None \<Rightarrow> False | Some db1 \<Rightarrow>
     (case commit_asset sha256 src db1 p2 k2 (Some a) of None \<Rightarrow> False | Some db2 \<Rightarrow>
        \<exists>b \<in> set (doc_assets db2). as_id b = as_id a \<and> as_key b = k2
          \<and> as_sha b = Some (sha256 (pa_body p1)) \<and> as_size b = length (pa_body p1))"
proof -
  let ?f = "\<lambda>p k b. b\<lparr>as_key := write_col k (as_key a) (as_key b), as_size := write_col (length (pa_body p)) (as_size a) (as_size b),
     as_sha := write_col (Some (sha256 (pa_body p))) (as_sha a) (as_sha b), as_type := write_col (pa_type p) (as_type a) (as_type b)\<rparr>"
  obtain db1 where c1: "commit_asset sha256 src db p1 k1 (Some a) = Some db1" "?f p1 k1 a \<in> set (doc_assets db1)"
    using assms(1) by (rule commit_asset_updates) simp
  obtain db2 where c2: "commit_asset sha256 src db1 p2 k2 (Some a) = Some db2" "?f p2 k2 (?f p1 k1 a) \<in> set (doc_assets db2)"
    using c1(2) by (rule commit_asset_updates) simp
  have "as_key (?f p2 k2 (?f p1 k1 a)) = k2" "as_sha (?f p2 k2 (?f p1 k1 a)) = Some (sha256 (pa_body p1))"
    "as_size (?f p2 k2 (?f p1 k1 a)) = length (pa_body p1)" "as_id (?f p2 k2 (?f p1 k1 a)) = as_id a"
    using assms(2-7) by (simp_all add: write_col_def)
  then show ?thesis unfolding c1(1) option.case c2(1) using c2(2) by blast
qed

definition demo_asset :: doc_asset where
  "demo_asset = \<lparr>as_id = 1, as_doc = 1, as_name = ''x.png'', as_key = ''k'', as_size = 1, as_sha = Some ''o'', as_type = '''', as_by = None\<rparr>"

theorem asset_metadata_of_another_upload_witness:
  "case commit_asset (\<lambda>s. s) Sequence (empty_docs\<lparr>doc_assets := [demo_asset]\<rparr>) \<lparr>pa_doc = 1, pa_name = ''x.png'', pa_body = ''new'',
       pa_type = '''', pa_by = None\<rparr> ''kk'' (Some demo_asset) of None \<Rightarrow> False | Some db1 \<Rightarrow>
     (case commit_asset (\<lambda>s. s) Sequence db1 \<lparr>pa_doc = 1, pa_name = ''x.png'', pa_body = ''o'', pa_type = '''', pa_by = None\<rparr>
        ''kkk'' (Some demo_asset) of None \<Rightarrow> False | Some db2 \<Rightarrow>
        \<exists>b \<in> set (doc_assets db2). as_key b = ''kkk'' \<and> as_sha b = Some ''new'')"
  using asset_metadata_of_another_upload [of demo_asset "empty_docs\<lparr>doc_assets := [demo_asset]\<rparr>" "''kk''" "''kkk''" "\<lambda>s. s"
      "\<lparr>pa_doc = 1, pa_name = ''x.png'', pa_body = ''o'', pa_type = '''', pa_by = None\<rparr>"
      "\<lparr>pa_doc = 1, pa_name = ''x.png'', pa_body = ''new'', pa_type = '''', pa_by = None\<rparr>" Sequence]
  by (auto simp: demo_asset_def split: option.splits)

subsection \<open>Names of assets\<close>

text \<open>
  The name of an asset is stripped before its directory is cut off, so a blank after the last separator stays in the
  name that is stored, and the stored name is looked up as another: that asset cannot be opened or deleted.
\<close>

theorem asset_with_a_leading_blank_is_lost:
  assumes "require_document db eco slug = Inr d" and "find_asset db (d_id d) ''x.png'' = None"
  shows "(case begin_save_asset guess_type db eco slug (''dir/'' @ '' x.png'') data actor of
       Inl e \<Rightarrow> e = TooBig | Inr pa \<Rightarrow> pa_name pa = '' x.png'')
    \<and> open_asset db eco slug '' x.png'' = Inl (NotFound ''x.png'')
    \<and> begin_delete_asset db eco slug '' x.png'' = Inl (NotFound ''x.png'')"
proof -
  have "normalize_asset_name ''dir/ x.png'' = Inr '' x.png''" "normalize_asset_name '' x.png'' = Inr ''x.png''" by code_simp+
  then show ?thesis using assms by (simp add: begin_save_asset_def open_asset_def begin_delete_asset_def)
qed

theorem asset_with_a_leading_blank_is_lost_witness:
  "open_asset demo_docs ''npm'' ''a'' '' x.png'' = Inl (NotFound ''x.png'')"
proof -
  have facts: "''npm'' \<in> set ECOSYSTEMS" "normalize_doc_id ''a'' = Inr ''a''" by code_simp+
  have "require_document demo_docs ''npm'' ''a'' = Inr demo_doc"
    by (simp add: require_document_def facts find_document_def demo_docs_def demo_doc_def)
  then show ?thesis
    using asset_with_a_leading_blank_is_lost [of demo_docs "''npm''" "''a''" demo_doc]
    by (simp add: find_asset_def demo_docs_def)
qed


subsection \<open>The exported tree\<close>

lemma commit_asset_documents:
  "commit_asset sha256 src db p key loaded = Some db' \<Longrightarrow> documents db' = documents db \<and> revisions db' = revisions db"
  by (auto simp: commit_asset_def split: option.splits if_splits)

lemma save_asset_keeps_documents:
  assumes "require_document db eco slug = Inr d"
  shows "case save_asset guess_type sha256 uuid src db eco slug fname data actor of
     (Inl e, db') \<Rightarrow> tolerated e \<and> documents db' = documents db \<and> revisions db' = revisions db
   | (Inr n, db') \<Rightarrow> documents db' = documents db \<and> revisions db' = revisions db"
proof (cases "begin_save_asset guess_type db eco slug fname data actor")
  case (Inl e)
  then have "tolerated e" using assms by (auto simp: begin_save_asset_def split: if_splits sum.splits)
  then show ?thesis by (simp add: save_asset_def Inl)
next
  case (Inr p)
  obtain key db1 where put: "put_object uuid db (pa_body p) = (key, db1)"
    by (cases "put_object uuid db (pa_body p)")
  have d: "pa_doc p = d_id d" "d \<in> set (documents db)"
    using Inr assms require_document_mem [OF assms] by (auto simp: begin_save_asset_def split: if_splits sum.splits)
  have same: "documents db1 = documents db" "revisions db1 = revisions db" using put by (auto simp: put_object_def Let_def)
  let ?l = "find_asset db1 (pa_doc p) (pa_name p)"
  have "list_ex (\<lambda>d. d_id d = pa_doc p) (documents db1)" using d by (auto simp: same list_ex_iff)
  moreover have "list_ex (\<lambda>b. as_id b = as_id a) (doc_assets db1)" if "?l = Some a" for a
    using that by (auto simp: find_asset_def list_ex_iff dest: find_SomeD)
  ultimately have "commit_asset sha256 src db1 p key ?l \<noteq> None"
    by (cases ?l) (simp_all add: commit_asset_def)
  then obtain db2 where c: "commit_asset sha256 src db1 p key ?l = Some db2" by fast
  then have "documents db2 = documents db" "revisions db2 = revisions db"
    using commit_asset_documents [OF c] same by simp_all
  then show ?thesis
    using c by (simp add: save_asset_def Inr put split: option.split) (simp add: remove_objects_def)
qed

lemma import_assets_keeps_documents:
  assumes "require_document db eco slug = Inr d"
  shows "\<exists>db' rep'. import_assets guess_type sha256 uuid src False eco folder slug actor files (db, rep) = Some (db', rep')
     \<and> documents db' = documents db \<and> revisions db' = revisions db \<and> rp_documents rep' = rp_documents rep
     \<and> rp_replaced rep' = rp_replaced rep \<and> rp_unchanged rep' = rp_unchanged rep"
  using assms
proof (induction files arbitrary: db rep)
  case (Cons f files)
  obtain fname data where f: "f = (fname, data)" by (cases f)
  note keeps = save_asset_keeps_documents [OF Cons.prems, of guess_type sha256 uuid src _ data actor]
  have req: "require_document db' eco slug = Inr d" if "documents db' = documents db" for db'
    using Cons.prems unfolding require_document_def find_document_def that .
  show ?case
  proof (cases "normalize_asset_name fname")
    case (Inl e)
    show ?thesis using Cons.IH [OF Cons.prems, of "report_error (eco @ ''/'' @ slug @ ''/'' @ fname) rep"]
      by (simp add: f Inl report_error_def)
  next
    case (Inr n)
    show ?thesis
    proof (cases "length data > MAX_ASSET_BYTES")
      case True
      then show ?thesis using Cons.IH [OF Cons.prems, of "report_error (eco @ ''/'' @ slug @ ''/'' @ n) rep"]
        by (simp add: f Inr report_error_def)
    next
      case False
      obtain res db1 where save: "save_asset guess_type sha256 uuid src db eco slug n data actor = (res, db1)"
        by (cases "save_asset guess_type sha256 uuid src db eco slug n data actor")
      show ?thesis
      proof (cases res)
        case (Inl e)
        then show ?thesis using keeps [of n] False by (simp add: f \<open>normalize_asset_name fname = Inr n\<close> save report_error_def)
      next
        case (Inr m)
        then have "documents db1 = documents db" "revisions db1 = revisions db" using keeps [of n] by (simp_all add: save)
        then show ?thesis
          using Cons.IH [OF req, of db1 "rep\<lparr>rp_assets := rp_assets rep + 1\<rparr>"] False
          by (simp add: f \<open>normalize_asset_name fname = Inr n\<close> save Inr)
      qed
    qed
  qed
qed simp

lemma find_document_unique:
  assumes "tables_normal db" and "d \<in> set (documents db)"
  shows "find_document db (d_eco d) (d_slug d) = Some d"
proof -
  obtain e where e: "find_document db (d_eco d) (d_slug d) = Some e"
    using assms(2) find_document_None [of db "d_eco d" "d_slug d"] by force
  then have "e \<in> set (documents db) \<and> d_eco e = d_eco d \<and> d_slug e = d_slug d" by (rule find_document_mem)
  then show ?thesis using assms e unfolding tables_normal_def distinct_map inj_on_def by auto
qed

text \<open>
  in every state a sequence of requests leaves behind, importing a document as it was exported changes no document and adds
  no revision: it counts as unchanged, wherever it came from and whatever its assets are.
\<close>

theorem reimport_adds_nothing:
  assumes "inj uuid" and "docs_reachable utf8 sha256 guess_type uuid Sequence (db, J)" and "d \<in> set (documents db)"
    and "export_document db d = Some td" and "td_body td = Some raw" and "decode raw = Some content" and "utf8 content = raw"
  shows "case import_document utf8 decode sha256 guess_type uuid Sequence False actor now (d_eco d) td (db, rep) of
      None \<Rightarrow> False
    | Some (db', rep') \<Rightarrow> documents db' = documents db \<and> revisions db' = revisions db
        \<and> rp_unchanged rep' = rp_unchanged rep + 1 \<and> rp_documents rep' = rp_documents rep \<and> rp_replaced rep' = rp_replaced rep"
proof -
  have norm: "tables_normal db" and rows: "rows_ok db" and tables: "tables_ok sha256 Sequence db"
    using catalog_reachable [OF assms(2)] history_reachable [OF assms(2)] docs_inv_reachable [OF assms(1,2)]
    by (simp_all add: history_ok_parts docs_inv_parts)
  have td: "td_name td = d_slug d" "td_title td = d_title d" "objects db (d_key d) = Some raw"
    using assms(4,5) by (auto simp: export_document_def Let_def split: option.splits if_splits)
  have names: "d_eco d \<in> set ECOSYSTEMS" "normalize_doc_id (d_slug d) = Inr (d_slug d)" "normalize_title (d_title d) = Inr (d_title d)"
    using norm assms(3) by (auto simp: tables_normal_def document_normal_def)
  obtain r where r: "r \<in> set (revisions db)" "is_version d r" using rows assms(3) unfolding rows_ok_def by blast
  then have sha: "d_sha d = Some (sha256 raw)" and len: "rv_size r = length raw"
    using tables td(3) unfolding tables_ok_def is_version_def by fastforce+
  have small: "length raw \<le> MAX_DOC_BYTES" using norm r(1) len unfolding tables_normal_def by metis
  have title: "tree_title td (d_slug d) content = d_title d"
    using names(3) by (auto simp: tree_title_def td normalize_title_def Let_def split: if_splits)
  have find: "find_document db (d_eco d) (d_slug d) = Some d" using norm assms(3) by (rule find_document_unique)
  have req: "require_document db (d_eco d) (d_slug d) = Inr d" using names find by (simp add: require_document_def)
  let ?assets = "import_assets guess_type sha256 uuid Sequence False (d_eco d) (d_slug d) (d_slug d) actor
      (sort_key (\<lambda>f. py_lower (fst f)) (td_assets td)) (db, rep\<lparr>rp_unchanged := rp_unchanged rep + 1\<rparr>)"
  have "import_document utf8 decode sha256 guess_type uuid Sequence False actor now (d_eco d) td (db, rep) = ?assets"
    using small by (simp add: import_document_def assms(5-7) td names title find sha Let_def)
  then show ?thesis
    using import_assets_keeps_documents [OF req, of guess_type sha256 uuid Sequence "d_slug d" actor
      "sort_key (\<lambda>f. py_lower (fst f)) (td_assets td)" "rep\<lparr>rp_unchanged := rp_unchanged rep + 1\<rparr>"] by auto
qed

theorem reimport_adds_nothing_witness:
  "case import_document (\<lambda>s. s) Some (\<lambda>s. s) (\<lambda>s. s) demo_keys Sequence False None 5 ''npm'' \<lparr>td_name = ''a'', td_body = Some ''# A'',
       td_title = ''A'', td_created = Some 0, td_modified = Some 0, td_assets = []\<rparr> (demo_docs, empty_report) of
     None \<Rightarrow> False | Some (db', rep') \<Rightarrow> revisions db' = revisions demo_docs \<and> rp_unchanged rep' = 1"
proof -
  let ?td = "\<lparr>td_name = ''a'', td_body = Some ''# A'', td_title = ''A'', td_created = Some 0, td_modified = Some 0, td_assets = []\<rparr>"
  have "export_document demo_docs demo_doc = Some ?td"
    by (simp add: export_document_def assets_of_def demo_docs_def demo_doc_def Let_def)
  moreover have "demo_doc \<in> set (documents demo_docs)" "d_eco demo_doc = ''npm''"
    by (simp_all add: demo_docs_def demo_doc_def)
  ultimately show ?thesis
    using reimport_adds_nothing [OF inj_demo_keys demo_reachable [of "\<lambda>s. s"],
        where d = demo_doc and td = "?td" and raw = "''# A''" and decode = "Some" and content = "''# A''" and actor = "None" and now = "5"
          and rep = "empty_report"]
    by (auto simp: empty_report_def split: option.splits)
qed

end
