(* ===== verification/Boundaries.thy ===== *)
theory Boundaries
  imports Prelude "HOL-Library.Word" "HOL-Library.AList" "HOL-Library.Char_ord" "HOL-Library.List_Lexorder"
begin

section \<open>What may cross a boundary\<close>

text \<open>
  The small modules every service asks before a value leaves its process: header values (\<open>services/headers.py\<close>), sealed
  columns (\<open>services/sealing.py\<close>), outbound URLs (\<open>services/urlsafety.py\<close>), path segments (\<open>services/paths.py\<close>),
  the environment of untrusted children (\<open>services/sandbox_env.py\<close>) and git credentials (\<open>services/git_auth.py\<close>). Fernet,
  SHA-256, the URL parser, DNS and Werkzeug's two path functions are arguments. A header mapping or an environment is an association
  list with distinct keys.
\<close>

subsection \<open>Header values\<close>

datatype value_policy = TOKEN | LINE

definition printable_ascii :: "char \<Rightarrow> bool" where
  "printable_ascii c \<longleftrightarrow> (let n = of_char c :: nat in 32 \<le> n \<and> n < 127)"

definition is_header_value_safe :: "value_policy \<Rightarrow> string \<Rightarrow> bool" where
  "is_header_value_safe policy text =
     (text \<noteq> [] \<and> list_all (\<lambda>c. printable_ascii c \<and> (policy = LINE \<or> c \<noteq> CHR '' '')) text)"

definition safe_header_value :: "value_policy \<Rightarrow> string \<Rightarrow> string option" where
  "safe_header_value policy v = (let text = py_strip v in if is_header_value_safe policy text then Some text else None)"

definition SPACE_PERMITTED_HEADERS :: "string list" where
  "SPACE_PERMITTED_HEADERS =
     [''accept'', ''accept-charset'', ''accept-encoding'', ''accept-language'', ''authorization'', ''cache-control'',
      ''content-disposition'', ''content-language'', ''content-type'', ''if-modified-since'', ''if-none-match'', ''if-range'',
      ''if-unmodified-since'', ''link'', ''pragma'', ''proxy-authorization'', ''vary'', ''via'', ''warning'',
      ''www-authenticate'', ''x-accel-buffering'']"

definition policy_for :: "string \<Rightarrow> value_policy" where
  "policy_for name = (if py_lower (py_strip name) \<in> set SPACE_PERMITTED_HEADERS then LINE else TOKEN)"

definition effective_policy :: "value_policy option \<Rightarrow> string \<Rightarrow> value_policy" where
  "effective_policy policy name = (case policy of Some p \<Rightarrow> p | None \<Rightarrow> policy_for name)"

definition unsafe_header_names :: "value_policy option \<Rightarrow> (string \<times> string) list \<Rightarrow> string list" where
  "unsafe_header_names policy headers =
     sort (map fst (filter (\<lambda>(name, v). \<not> is_header_value_safe (effective_policy policy name) v) headers))"

text \<open>\<open>Inl\<close>: the names that may not be sent.\<close>

definition checked_headers :: "value_policy option \<Rightarrow> (string \<times> string) list \<Rightarrow> string list + (string \<times> string) list" where
  "checked_headers policy headers =
     (let unsafe = unsafe_header_names policy headers in if unsafe \<noteq> [] then Inl unsafe else Inr headers)"

text \<open>\<open>SafeHeaderSession.request\<close>: the headers of the session, updated with those of the call, and \<open>None\<close> when nothing is sent.\<close>

definition session_request :: "(string \<times> string) list \<Rightarrow> (string \<times> string) list \<Rightarrow> ((string \<times> string) list \<Rightarrow> 'a) \<Rightarrow> 'a option" where
  "session_request session_headers call_headers send =
     (let headers = AList.updates (map fst call_headers) (map snd call_headers) session_headers
      in case checked_headers None headers of Inl _ \<Rightarrow> None | Inr _ \<Rightarrow> Some (send headers))"

definition attachment_disposition :: "(string \<Rightarrow> string) \<Rightarrow> string \<Rightarrow> string list + string" where
  "attachment_disposition dump_options filename =
     (let disposition = dump_options filename
      in case checked_headers None [(''Content-Disposition'', disposition)] of Inl e \<Rightarrow> Inl e | Inr _ \<Rightarrow> Inr disposition)"

subsection \<open>Sealed columns\<close>

text \<open>\<open>encrypt\<close> and \<open>decrypt\<close> are Fernet under the key derived from the secret; \<open>None\<close> is \<open>InvalidToken\<close>.\<close>

record sealer =
  sl_secret :: string
  sl_prefix :: string

definition available :: "sealer \<Rightarrow> bool" where
  "available s \<longleftrightarrow> py_strip (sl_secret s) \<noteq> []"

definition is_sealed :: "sealer \<Rightarrow> string \<Rightarrow> bool" where
  "is_sealed s v = startswith v (sl_prefix s)"

definition derive_key :: "(string \<Rightarrow> string) \<Rightarrow> sealer \<Rightarrow> string option" where
  "derive_key sha256 s = (let raw = py_strip (sl_secret s) in if raw = [] then None else Some (sha256 raw))"

definition seal :: "(string \<Rightarrow> string) \<Rightarrow> (string \<Rightarrow> string \<Rightarrow> string) \<Rightarrow> sealer \<Rightarrow> string \<Rightarrow> string option" where
  "seal sha256 encrypt s v = (case derive_key sha256 s of None \<Rightarrow> None | Some k \<Rightarrow> Some (sl_prefix s @ encrypt k v))"

definition unseal :: "(string \<Rightarrow> string) \<Rightarrow> (string \<Rightarrow> string \<Rightarrow> string option) \<Rightarrow> sealer \<Rightarrow> string \<Rightarrow> string option" where
  "unseal sha256 decrypt s v =
     (if \<not> is_sealed s v then None
      else (case derive_key sha256 s of None \<Rightarrow> None | Some k \<Rightarrow> decrypt k (drop (length (sl_prefix s)) v)))"

subsection \<open>Outbound URLs\<close>

datatype ip = V4 "32 word" | V6 "128 word"

datatype network = Net4 "32 word" nat | Net6 "128 word" nat

definition BLOCKED_NETWORKS :: "network list" where
  "BLOCKED_NETWORKS =
     [Net4 0xA9FE0000 16, Net6 0xFE800000000000000000000000000000 10, Net4 0x64400000 10, Net4 0xE0000000 4,
      Net6 0xFF000000000000000000000000000000 8, Net4 0 32, Net6 0 128, Net4 0xF0000000 4]"

definition BLOCKED_HOSTS :: "string list" where
  "BLOCKED_HOSTS = [''metadata'', ''metadata.google.internal'', ''metadata.goog'', ''instance-data'', ''instance-data.ec2.internal'']"

fun in_network :: "ip \<Rightarrow> network \<Rightarrow> bool" where
  "in_network (V4 a) (Net4 n len) = (drop_bit (32 - len) a = drop_bit (32 - len) n)"
| "in_network (V6 a) (Net6 n len) = (drop_bit (128 - len) a = drop_bit (128 - len) n)"
| "in_network _ _ = False"

definition blocked :: "ip \<Rightarrow> bool" where
  "blocked a = list_ex (in_network a) BLOCKED_NETWORKS"

datatype url_refusal = NotHttp | Credentials | NotAllowed | MetadataHost | Unresolvable | BlockedAddress ip

record http_url =
  u_user :: "string option"
  u_password :: "string option"
  u_host :: string
  u_port :: int
  u_text :: string

text \<open>A literal address resolves to itself; a name to what DNS answers, of which only parseable addresses count.\<close>

definition addresses :: "(string \<Rightarrow> ip option) \<Rightarrow> (string \<Rightarrow> string list option) \<Rightarrow> string \<Rightarrow> url_refusal + ip list" where
  "addresses parse_ip getaddrinfo host =
     (case parse_ip host of
        Some a \<Rightarrow> Inr [a]
      | None \<Rightarrow> (case getaddrinfo host of
            None \<Rightarrow> Inl Unresolvable
          | Some infos \<Rightarrow> (let out = List.map_filter parse_ip infos in if out = [] then Inl Unresolvable else Inr out)))"

definition check_outbound_url :: "(string \<Rightarrow> http_url option) \<Rightarrow> (string \<Rightarrow> ip option) \<Rightarrow> (string \<Rightarrow> string list option)
    \<Rightarrow> string list \<Rightarrow> string \<Rightarrow> url_refusal + string" where
  "check_outbound_url parse_url parse_ip getaddrinfo allowed_hosts url =
     (case parse_url (py_strip url) of
        None \<Rightarrow> Inl NotHttp
      | Some u \<Rightarrow>
          if opt_str (u_user u) \<noteq> [] \<or> opt_str (u_password u) \<noteq> [] then Inl Credentials
          else (let hosts = map (\<lambda>h. py_lower (py_strip h)) (filter (\<lambda>h. py_strip h \<noteq> []) allowed_hosts)
                in if hosts \<noteq> [] \<and> py_lower (u_host u) \<notin> set hosts
                       \<and> py_lower (u_host u @ '':'' @ str_of_int (u_port u)) \<notin> set hosts
                   then Inl NotAllowed
                   else if py_lower (u_host u) \<in> set BLOCKED_HOSTS then Inl MetadataHost
                   else (case addresses parse_ip getaddrinfo (u_host u) of
                       Inl e \<Rightarrow> Inl e
                     | Inr addrs \<Rightarrow> (case find blocked addrs of
                         Some a \<Rightarrow> Inl (BlockedAddress a) | None \<Rightarrow> Inr (u_text u)))))"

subsection \<open>Paths\<close>

definition MAX_NAME_BYTES :: nat where "MAX_NAME_BYTES = 255"

datatype path_error = EmptyName | LongName | DotName | HasSeparator | ManySegments | HasControl

definition safe_name :: "(string \<Rightarrow> string) \<Rightarrow> (string \<Rightarrow> string) \<Rightarrow> string \<Rightarrow> path_error + string" where
  "safe_name secure_filename utf8 filename =
     (let name = secure_filename filename
      in if name = [] then Inl EmptyName else if length (utf8 name) > MAX_NAME_BYTES then Inl LongName else Inr name)"

text \<open>\<open>contained\<close> is \<open>safe_join\<close> with the refusal made an error; \<open>contained_resolved\<close> resolves symbolic links before it compares.\<close>

definition contained :: "(string \<Rightarrow> string list \<Rightarrow> string option) \<Rightarrow> string \<Rightarrow> string list \<Rightarrow> string option" where
  "contained safe_join base parts = safe_join base parts"

definition contained_resolved :: "(string \<Rightarrow> string list \<Rightarrow> string option) \<Rightarrow> (string \<Rightarrow> string) \<Rightarrow> (string \<Rightarrow> string \<Rightarrow> bool)
    \<Rightarrow> string \<Rightarrow> string list \<Rightarrow> string option" where
  "contained_resolved safe_join resolve is_relative_to base parts =
     (case contained safe_join base parts of
        None \<Rightarrow> None
      | Some candidate \<Rightarrow>
          (let target = resolve candidate in if is_relative_to target (resolve base) then Some target else None))"

definition is_separator :: "char \<Rightarrow> bool" where
  "is_separator c \<longleftrightarrow> c = CHR ''/'' \<or> c = CHR 0x5C \<or> c = CHR 0x00"

definition is_slash :: "char \<Rightarrow> bool" where
  "is_slash c \<longleftrightarrow> c = CHR ''/'' \<or> c = CHR 0x5C"

fun split_slashes :: "string \<Rightarrow> string list" where
  "split_slashes [] = [[]]"
| "split_slashes (c # s) =
     (if is_slash c then [] # split_slashes s
      else (case split_slashes s of [] \<Rightarrow> [[c]] | w # ws \<Rightarrow> (c # w) # ws))"

definition single_segment :: "(string \<Rightarrow> string) \<Rightarrow> string \<Rightarrow> path_error + string" where
  "single_segment utf8 v =
     (if v = [] then Inl EmptyName
      else if length (utf8 v) > MAX_NAME_BYTES then Inl LongName
      else if v = ''.'' \<or> v = ''..'' \<or> startswith v ''.'' then Inl DotName
      else if list_ex is_separator v then Inl HasSeparator
      else if List.last (split_slashes (rev (dropWhile is_slash (rev v)))) \<noteq> v then Inl ManySegments
      else if list_ex (\<lambda>c. (of_char c :: nat) < 32 \<or> (of_char c :: nat) = 127) v then Inl HasControl
      else Inr v)"

subsection \<open>The environment of untrusted code\<close>

definition ALLOWED_NAMES :: "string list" where
  "ALLOWED_NAMES =
     [''PATH'', ''HOME'', ''USER'', ''LOGNAME'', ''SHELL'', ''TERM'', ''TZ'', ''TMPDIR'', ''TEMP'', ''TMP'', ''HOSTNAME'', ''PWD'',
      ''LANG'', ''LANGUAGE'', ''LC_ALL'', ''TERM_PROGRAM'', ''NO_COLOR'', ''FORCE_COLOR'', ''CLICOLOR'', ''CI'',
      ''PYTHONPATH'', ''PYTHONHOME'', ''PYTHONUNBUFFERED'', ''PYTHONDONTWRITEBYTECODE'', ''PYTHONIOENCODING'', ''PYTHONUTF8'',
      ''PYTHONHASHSEED'', ''VIRTUAL_ENV'', ''PIP_INDEX_URL'', ''PIP_EXTRA_INDEX_URL'', ''PIP_TRUSTED_HOST'',
      ''PIP_DISABLE_PIP_VERSION_CHECK'', ''NODE_PATH'', ''NODE_OPTIONS'', ''JAVA_HOME'', ''MAVEN_OPTS'', ''GRADLE_USER_HOME'',
      ''GOROOT'', ''GOPATH'', ''GOFLAGS'', ''GOPROXY'', ''CARGO_HOME'', ''RUSTUP_HOME'', ''CC'', ''CXX'', ''CFLAGS'', ''CXXFLAGS'',
      ''LDFLAGS'', ''MAKE'', ''MAKEFLAGS'', ''MAKELEVEL'', ''SSL_CERT_FILE'', ''SSL_CERT_DIR'', ''REQUESTS_CA_BUNDLE'',
      ''CURL_CA_BUNDLE'', ''GIT_SSL_CAINFO'', ''GIT_TERMINAL_PROMPT'', ''GIT_CONFIG_NOSYSTEM'', ''GIT_SSH_COMMAND'']"

definition ALLOWED_PREFIXES :: "string list" where
  "ALLOWED_PREFIXES = [''LC_'', ''XDG_'', ''npm_config_'', ''NPM_CONFIG_'', ''UV_'']"

definition PLATFORM_SECRETS :: "string list" where
  "PLATFORM_SECRETS =
     [''SECRET_KEY'', ''FORGEJO_ADMIN_TOKEN'', ''FORGEJO_RUNNER_TOKEN'', ''FORGEJO_WEBHOOK_SECRET'', ''GIT_IDENTITY_KEY'',
      ''RUNNER_CREDENTIAL_KEY'', ''DATABASE_URL'', ''OAUTH2_CLIENT_SECRET'', ''OAUTH2_CA_BUNDLE'', ''NPM_UPSTREAM_TOKEN'',
      ''DOCKER_UPSTREAM_PASSWORD'', ''IMPORT_SOURCE_TOKEN'']"

definition allowed :: "string \<Rightarrow> bool" where
  "allowed name \<longleftrightarrow> name \<in> set ALLOWED_NAMES \<or> list_ex (startswith name) ALLOWED_PREFIXES"

definition sandbox_env :: "(string \<times> string) list \<Rightarrow> (string \<times> string) list \<Rightarrow> (string \<times> string) list" where
  "sandbox_env origin extra = AList.updates (map fst extra) (map snd extra) (filter (\<lambda>e. allowed (fst e)) origin)"

subsection \<open>Git credentials\<close>

definition GIT_TOKEN_ENV :: string where "GIT_TOKEN_ENV = ''OPENFISH_GIT_TOKEN''"
definition GIT_HOST_ENV :: string where "GIT_HOST_ENV = ''OPENFISH_GIT_HOST''"

definition without_suffix :: "string \<Rightarrow> string \<Rightarrow> string" where
  "without_suffix suffix host = (if endswith host suffix then take (length host - length suffix) host else host)"

text \<open>\<open>netloc\<close> is the authority part of the URL, \<open>None\<close> when it does not parse.\<close>

definition git_host_of :: "(string \<Rightarrow> string option) \<Rightarrow> string \<Rightarrow> string" where
  "git_host_of netloc url =
     (case netloc url of
        None \<Rightarrow> []
      | Some n \<Rightarrow> without_suffix '':80'' (without_suffix '':443'' (py_lower (List.last (split_on CHR ''@'' n)))))"

definition git_env :: "string \<Rightarrow> string \<Rightarrow> (string \<times> string) list" where
  "git_env token host = (if token \<noteq> [] then [(GIT_TOKEN_ENV, token)] else []) @ (if host \<noteq> [] then [(GIT_HOST_ENV, host)] else [])"

text \<open>What the helper answers to a \<open>get\<close> for a host: the token, to the pinned host only.\<close>

definition strip_port :: "string \<Rightarrow> string" where
  "strip_port host = without_suffix '':80'' (without_suffix '':443'' host)"

definition helper_answers :: "(string \<times> string) list \<Rightarrow> string \<Rightarrow> string \<Rightarrow> string option" where
  "helper_answers env operation host =
     (if operation \<noteq> ''get'' then None
      else if strip_port host = [] \<or> strip_port host \<noteq> opt_str (map_of env GIT_HOST_ENV) then None
      else Some (opt_str (map_of env GIT_TOKEN_ENV)))"

end
