(* ===== verification/BoundariesProps.thy ===== *)
theory BoundariesProps
  imports Boundaries
begin

section \<open>What the boundaries keep out\<close>

subsection \<open>The environment of untrusted code\<close>

lemma updates_keys: "length ks = length vs \<Longrightarrow> fst ` set (AList.updates ks vs al) = fst ` set al \<union> set ks"
proof -
  assume "length ks = length vs"
  then have "dom (map_of (AList.updates ks vs al)) = dom (map_of al) \<union> set ks"
    by (simp add: updates_conv' dom_map_upds Un_commute)
  then show ?thesis by (simp add: dom_map_of_conv_image_fst Un_commute)
qed

text \<open>
  whatever the worker's own environment holds, a child that runs repository code sees no platform secret the caller did not
  grant by name, and nothing else that is not on the list.
\<close>

theorem sandbox_hides_platform_secrets:
  "list_all (\<lambda>e. allowed (fst e) \<or> fst e \<in> fst ` set extra) (sandbox_env origin extra)
    \<and> list_all (\<lambda>s. \<not> allowed s) PLATFORM_SECRETS
    \<and> fst ` set (sandbox_env origin extra) \<inter> set PLATFORM_SECRETS \<subseteq> fst ` set extra"
proof -
  have keys: "fst ` set (sandbox_env origin extra) = fst ` set (filter (\<lambda>e. allowed (fst e)) origin) \<union> fst ` set extra"
    unfolding sandbox_env_def by (subst updates_keys) auto
  have "allowed (fst e) \<or> fst e \<in> fst ` set extra" if "e \<in> set (sandbox_env origin extra)" for e
  proof -
    have "fst e \<in> fst ` set (sandbox_env origin extra)" using that by (rule imageI)
    then show ?thesis unfolding keys by auto
  qed
  then have "list_all (\<lambda>e. allowed (fst e) \<or> fst e \<in> fst ` set extra) (sandbox_env origin extra)"
    by (simp add: list_all_iff)
  moreover have secrets: "list_all (\<lambda>s. \<not> allowed s) PLATFORM_SECRETS" by code_simp
  ultimately show ?thesis using keys by (auto simp: list_all_iff)
qed

subsection \<open>Addresses\<close>

lemma uint_drop: "uint (drop_bit n a) = uint a div 2 ^ n"
proof -
  have "uint (drop_bit n a) = drop_bit n (uint a)" by (transfer fixing: n) (simp add: take_bit_drop_bit)
  then show ?thesis by (simp add: drop_bit_eq_div)
qed

lemma div_range:
  fixes x m q :: int
  assumes "0 < m"
  shows "x div m = q \<longleftrightarrow> q * m \<le> x \<and> x < q * m + m"
proof
  assume "x div m = q"
  then have "x = q * m + x mod m" by auto
  then show "q * m \<le> x \<and> x < q * m + m" using pos_mod_bound [OF assms, of x] pos_mod_sign [OF assms, of x] by linarith
next
  assume "q * m \<le> x \<and> x < q * m + m"
  then show "x div m = q" by (intro int_div_pos_eq [of x m q "x - q * m"]) (auto simp: algebra_simps)
qed

text \<open>
  Which IPv4 addresses the guard refuses, as intervals: link-local with the cloud metadata service, carrier-grade NAT,
  multicast and reserved, and the unspecified address; loopback and the private ranges stay reachable.
\<close>

theorem blocked_ipv4:
  "blocked (V4 a) \<longleftrightarrow> (let n = uint a in
     (0xA9FE0000 \<le> n \<and> n \<le> 0xA9FEFFFF) \<or> (0x64400000 \<le> n \<and> n \<le> 0x647FFFFF) \<or> 0xE0000000 \<le> n \<or> n = 0)"
proof -
  have "uint a < 2 ^ 32" using uint_lt2p [of a] by simp
  then show ?thesis
    unfolding blocked_def BLOCKED_NETWORKS_def Let_def
    by (simp add: word_uint_eq_iff uint_drop div_range) arith
qed

text \<open>
  the IPv4 metadata address written as an IPv4-mapped IPv6 address passes the guard: a URL naming it is returned as one the
  server may call.
\<close>

theorem mapped_metadata_address_passes:
  assumes "parse_url (py_strip url) = Some u" and "opt_str (u_user u) = []" and "opt_str (u_password u) = []"
    and "py_lower (u_host u) \<notin> set BLOCKED_HOSTS"
    and "parse_ip (u_host u) = Some (V6 (0xFFFF00000000 + ucast (0xA9FEA9FE :: 32 word)))"
  shows "check_outbound_url parse_url parse_ip getaddrinfo [] url = Inr (u_text u) \<and> blocked (V4 0xA9FEA9FE)"
proof -
  have "\<not> blocked (V6 (0xFFFF00000000 + ucast (0xA9FEA9FE :: 32 word)))" "blocked (V4 0xA9FEA9FE)"
    by code_simp+
  then show ?thesis
    using assms by (simp add: check_outbound_url_def addresses_def Let_def)
qed

theorem mapped_metadata_address_passes_witness:
  "check_outbound_url (\<lambda>t. Some \<lparr>u_user = None, u_password = None, u_host = ''::ffff:169.254.169.254'', u_port = 80, u_text = t\<rparr>)
     (\<lambda>h. Some (V6 (0xFFFF00000000 + ucast (0xA9FEA9FE :: 32 word)))) (\<lambda>h. None) [] ''http://[::ffff:169.254.169.254]/''
   = Inr ''http://[::ffff:169.254.169.254]/''"
proof -
  have "py_lower ''::ffff:169.254.169.254'' \<notin> set BLOCKED_HOSTS"
    "py_strip ''http://[::ffff:169.254.169.254]/'' = ''http://[::ffff:169.254.169.254]/''" by code_simp+
  then show ?thesis
    using mapped_metadata_address_passes [of "\<lambda>t. Some \<lparr>u_user = None, u_password = None, u_host = ''::ffff:169.254.169.254'',
        u_port = 80, u_text = t\<rparr>" "''http://[::ffff:169.254.169.254]/''" _ "\<lambda>h. Some (V6 (0xFFFF00000000 + ucast (0xA9FEA9FE :: 32 word)))"
        "\<lambda>h. None"] by (simp add: opt_str_def)
qed

text \<open>A name that is accepted is a path segment: no separator, no leading full stop, no control character, and unchanged.\<close>

lemma split_slashes_plain: "\<not> list_ex is_separator v \<Longrightarrow> split_slashes v = [v]"
  by (induction v) (auto simp: is_slash_def is_separator_def)

theorem single_segment_accepts:
  "single_segment utf8 v = Inr w \<longleftrightarrow>
     w = v \<and> v \<noteq> [] \<and> length (utf8 v) \<le> MAX_NAME_BYTES \<and> hd v \<noteq> CHR ''.''
     \<and> list_all (\<lambda>c. \<not> is_separator c \<and> 32 \<le> (of_char c :: nat) \<and> (of_char c :: nat) \<noteq> 127) v"
proof -
  have strip: "\<not> list_ex is_separator v \<Longrightarrow> rev (dropWhile is_slash (rev v)) = v"
    by (cases v rule: rev_cases) (auto simp: is_slash_def is_separator_def)
  have dot: "v \<noteq> [] \<Longrightarrow> (v = ''.'' \<or> v = ''..'' \<or> startswith v ''.'') \<longleftrightarrow> hd v = CHR ''.''"
    by (cases v) (auto simp: startswith_def)
  show ?thesis
    using dot strip split_slashes_plain [of v] unfolding single_segment_def
    by (auto simp: list_ex_iff list_all_iff not_le)
qed

end
