(* ===== verification/ModelRoutes.thy ===== *)
theory ModelRoutes
  imports StdText Boundaries
begin

section \<open>The table of model routes\<close>

text \<open>
  \<open>services/model_routes.py\<close> on the table of \<open>models/model_route.py\<close>: normalising a request body, the life of an API
  key from the body through the sealed column into a header, the two read views, the edits and the probe. A body and a
  stored entry are JSON objects. A TEXT column holding JSON is kept as what \<open>json.loads\<close> makes of it. Arguments: \<open>cs\<close>, the text of a
  container; \<open>urlsplit\<close>, giving scheme and authority; the sealing cipher; the upstream. Rows are in insertion order.
\<close>

definition PROVIDERS :: "string list" where "PROVIDERS = [''openai'', ''anthropic'']"
definition KINDS :: "string list" where
  "KINDS = [''chat'', ''completion'', ''embedding'', ''rerank'', ''ocr'', ''asr'', ''tts'']"
definition MODALITIES :: "string list" where "MODALITIES = [''text'', ''image'', ''audio'']"
definition THINKING_FORMATS :: "string list" where
  "THINKING_FORMATS = [''openai'', ''deepseek'', ''openrouter'', ''together'', ''baseten'', ''zai'', ''qwen'', ''chat-template'',
     ''qwen-chat-template'', ''string-thinking'', ''ant-ling'']"
definition THINKING_LEVELS :: "string list" where
  "THINKING_LEVELS = [''off'', ''minimal'', ''low'', ''medium'', ''high'', ''xhigh'', ''max'']"
definition MAX_NAME :: nat where "MAX_NAME = 128"
definition MAX_DESCRIPTION :: nat where "MAX_DESCRIPTION = 500"
definition API_KEY_PREFIX :: string where "API_KEY_PREFIX = ''enc:v1:''"

definition DEFAULT_KINDS :: "(string \<times> string) list" where "DEFAULT_KINDS = [(''openai'', ''chat''), (''anthropic'', ''chat'')]"
definition MAX_CONTEXT_WINDOW :: int where "MAX_CONTEXT_WINDOW = 10000000"
definition MAX_OUTPUT_TOKENS :: int where "MAX_OUTPUT_TOKENS = 4000000"
definition PROVIDER_ALIASES :: "(string \<times> string) list" where
  "PROVIDER_ALIASES = [(''openai'', ''openai''), (''openai-compatible'', ''openai''), (''openai_compatible'', ''openai''),
     (''openai_compat'', ''openai''), (''anthropic'', ''anthropic''), (''claude'', ''anthropic'')]"
definition DEFAULT_PATHS :: "(string \<times> string) list" where
  "DEFAULT_PATHS = [(''openai'', ''/v1/chat/completions''), (''anthropic'', ''/v1/messages'')]"
definition RESERVED_NAMES :: "string list" where "RESERVED_NAMES = [''probe'']"
definition ANTHROPIC_VERSION :: string where "ANTHROPIC_VERSION = ''2023-06-01''"
definition PROBE_USER_AGENT :: string where "PROBE_USER_AGENT = ''cpypiserver-model-probe/1.0''"
definition KEY_SOURCES :: "string list" where "KEY_SOURCES = [''stored'', ''plaintext'', ''unreadable'', ''none'']"

datatype route_error = BadValue string | SealingKeyMissing | RouteNotFound string | DuplicateRoute string

type_synonym dict = "(string \<times> json) list"

definition has_key :: "dict \<Rightarrow> string \<Rightarrow> bool" where "has_key d k \<longleftrightarrow> map_of d k \<noteq> None"

text \<open>\<open>str(value or "")\<close>.\<close>

definition text_of :: "(json \<Rightarrow> string) \<Rightarrow> json \<Rightarrow> string" where
  "text_of cs v = (if truthy v then py_str cs v else [])"

subsection \<open>Values\<close>

definition canonical_provider :: "(json \<Rightarrow> string) \<Rightarrow> json \<Rightarrow> string" where
  "canonical_provider cs v =
     (let text = py_strip (text_of cs v)
      in if text = [] then ''openai'' else case map_of PROVIDER_ALIASES (py_lower text) of Some p \<Rightarrow> p | None \<Rightarrow> py_lower text)"

definition normalize_provider :: "(json \<Rightarrow> string) \<Rightarrow> json \<Rightarrow> route_error + string" where
  "normalize_provider cs v =
     (let p = canonical_provider cs v in if p \<in> set PROVIDERS then Inr p else Inl (BadValue ''provider''))"

definition default_kind :: "(json \<Rightarrow> string) \<Rightarrow> json \<Rightarrow> string" where
  "default_kind cs provider = (case map_of DEFAULT_KINDS (canonical_provider cs provider) of Some k \<Rightarrow> k | None \<Rightarrow> ''chat'')"

definition normalize_kind :: "(json \<Rightarrow> string) \<Rightarrow> json \<Rightarrow> json \<Rightarrow> route_error + string" where
  "normalize_kind cs v provider =
     (let text = py_lower (py_strip (text_of cs v))
      in if text = [] then Inr (default_kind cs provider)
         else if text \<in> set KINDS then Inr text else Inl (BadValue ''kind''))"

definition effective_kind :: "(json \<Rightarrow> string) \<Rightarrow> dict \<Rightarrow> string" where
  "effective_kind cs route =
     (let text = py_lower (py_strip (text_of cs (jget route ''kind'')))
      in if text \<in> set KINDS then text else default_kind cs (jget route ''provider''))"

definition normalize_name :: "(json \<Rightarrow> string) \<Rightarrow> json \<Rightarrow> route_error + string" where
  "normalize_name cs v =
     (let name = py_strip (text_of cs v)
      in if name = [] \<or> length name > MAX_NAME \<or> py_lower name \<in> set RESERVED_NAMES
            \<or> list_ex (\<lambda>c. c = CHR ''/'' \<or> c = CHR 0x5C \<or> (of_char c :: nat) < 32) name
         then Inl (BadValue ''name'') else Inr name)"

definition normalize_description :: "(json \<Rightarrow> string) \<Rightarrow> json \<Rightarrow> route_error + string" where
  "normalize_description cs v =
     (let text = py_strip (text_of cs v)
      in if text = [] \<or> length text > MAX_DESCRIPTION then Inl (BadValue ''description'') else Inr text)"

definition normalize_base_url :: "(json \<Rightarrow> string) \<Rightarrow> (string \<Rightarrow> string \<times> string) \<Rightarrow> json \<Rightarrow> route_error + string" where
  "normalize_base_url cs urlsplit v =
     (let url = py_strip (text_of cs v); (scheme, netloc) = urlsplit url
      in if url = [] \<or> (scheme \<noteq> ''http'' \<and> scheme \<noteq> ''https'') \<or> netloc = [] then Inl (BadValue ''base_url'') else Inr url)"

definition default_path :: "string \<Rightarrow> string" where
  "default_path provider = (case map_of DEFAULT_PATHS provider of Some p \<Rightarrow> p | None \<Rightarrow> ''/v1/chat/completions'')"

definition with_slash :: "string \<Rightarrow> string" where
  "with_slash path = (if startswith path ''/'' then path else CHR ''/'' # path)"

definition normalize_path :: "(json \<Rightarrow> string) \<Rightarrow> json \<Rightarrow> string \<Rightarrow> string" where
  "normalize_path cs v provider =
     (let path = py_strip (text_of cs v) in if path = [] then default_path provider else with_slash path)"

text \<open>The items of a list, or of a string split at its commas.\<close>

definition items_of :: "json \<Rightarrow> json list option" where
  "items_of v =
     (case v of JNull \<Rightarrow> Some [] | JStr s \<Rightarrow> Some (if s = [] then [] else map JStr (split_on CHR '','' s))
      | JList vs \<Rightarrow> Some vs | _ \<Rightarrow> None)"

fun keep_new :: "string list \<Rightarrow> string list \<Rightarrow> string list" where
  "keep_new seen [] = []"
| "keep_new seen (t # ts) = (if t = [] \<or> t \<in> set seen then keep_new seen ts else t # keep_new (t # seen) ts)"

definition normalize_aliases :: "(json \<Rightarrow> string) \<Rightarrow> json \<Rightarrow> route_error + string list" where
  "normalize_aliases cs v =
     (case items_of v of
        None \<Rightarrow> Inl (BadValue ''aliases'') | Some items \<Rightarrow> Inr (keep_new [] (map (\<lambda>i. py_strip (text_of cs i)) items)))"

fun int_of_digits :: "nat \<Rightarrow> string \<Rightarrow> nat" where
  "int_of_digits n [] = n"
| "int_of_digits n (c # s) = int_of_digits (10 * n + (of_char c - 48)) s"

definition positive_token_count :: "string \<Rightarrow> int \<Rightarrow> json \<Rightarrow> route_error + int option" where
  "positive_token_count label ceiling v =
     (let check = (\<lambda>n. if 1 \<le> n \<and> n \<le> ceiling then Inr (Some n) else Inl (BadValue label)) in
      case v of
        JNull \<Rightarrow> Inr None
      | JInt n \<Rightarrow> check n
      | JStr s \<Rightarrow> if s = [] then Inr None
          else if py_strip s \<noteq> [] \<and> list_all is_digit (py_strip s) then check (int (int_of_digits 0 (py_strip s)))
          else Inl (BadValue label)
      | _ \<Rightarrow> Inl (BadValue label))"

definition normalize_context_window :: "json \<Rightarrow> route_error + int option" where
  "normalize_context_window v = positive_token_count ''context_window'' MAX_CONTEXT_WINDOW v"

definition normalize_max_tokens :: "json \<Rightarrow> route_error + int option" where
  "normalize_max_tokens v = positive_token_count ''max_tokens'' MAX_OUTPUT_TOKENS v"

text \<open>The words a list names, in the order of the vocabulary; blanks are left out and an unknown word is refused.\<close>

definition canonical_words :: "(json \<Rightarrow> string) \<Rightarrow> string \<Rightarrow> string list \<Rightarrow> json \<Rightarrow> route_error + string list" where
  "canonical_words cs label vocabulary v =
     (case items_of v of
        None \<Rightarrow> Inl (BadValue label)
      | Some items \<Rightarrow>
          (let words = filter (\<lambda>t. t \<noteq> []) (map (\<lambda>i. py_lower (py_strip (text_of cs i))) items)
           in if list_all (\<lambda>w. w \<in> set vocabulary) words then Inr (filter (\<lambda>w. w \<in> set words) vocabulary)
              else Inl (BadValue label)))"

definition normalize_modalities :: "(json \<Rightarrow> string) \<Rightarrow> json \<Rightarrow> route_error + string list option" where
  "normalize_modalities cs v =
     and_then (canonical_words cs ''modalities'' MODALITIES v) (\<lambda>ws. Inr (if ws = [] then None else Some ws))"

definition normalize_thinking_levels :: "(json \<Rightarrow> string) \<Rightarrow> json \<Rightarrow> route_error + string list" where
  "normalize_thinking_levels cs v = canonical_words cs ''efforts'' THINKING_LEVELS v"

record reasoning =
  rs_format :: "string option"
  rs_efforts :: "string list"

definition normalize_reasoning :: "(json \<Rightarrow> string) \<Rightarrow> json \<Rightarrow> string \<Rightarrow> route_error + reasoning option" where
  "normalize_reasoning cs v provider =
     (if v = JNull \<or> v = JStr [] \<or> v = JObj [] then Inr None
      else (case v of
          JObj d \<Rightarrow>
            if \<not> list_all (\<lambda>k. k \<in> {''format'', ''efforts''}) (map fst d) then Inl (BadValue ''reasoning'')
            else (let text = py_lower (py_strip (text_of cs (jget d ''format'')));
                      dialect = (if text = [] then None else Some text)
                  in if dialect \<noteq> None \<and> text \<notin> set THINKING_FORMATS then Inl (BadValue ''format'')
                     else if dialect \<noteq> None \<and> provider \<noteq> ''openai'' then Inl (BadValue ''format'')
                     else and_then (normalize_thinking_levels cs (jget d ''efforts''))
                       (\<lambda>efforts. if efforts = [] then Inl (BadValue ''efforts'')
                          else if \<not> list_ex (\<lambda>l. l \<noteq> ''off'') efforts then Inl (BadValue ''efforts'')
                          else Inr (Some \<lparr>rs_format = dialect, rs_efforts = efforts\<rparr>)))
        | _ \<Rightarrow> Inl (BadValue ''reasoning'')))"

definition payload_field :: "dict \<Rightarrow> dict \<Rightarrow> string \<Rightarrow> json" where
  "payload_field payload existing k = (if has_key payload k then jget payload k else jget existing k)"

fun normalize_enabled :: "json \<Rightarrow> bool" where
  "normalize_enabled (JBool b) = b"
| "normalize_enabled JNull = True"
| "normalize_enabled (JStr s) = (py_lower (py_strip s) \<notin> {[], ''0'', ''false'', ''no'', ''off''})"
| "normalize_enabled v = truthy v"

subsection \<open>The API key\<close>

record cipher =
  c_sha256 :: "string \<Rightarrow> string"
  c_encrypt :: "string \<Rightarrow> string \<Rightarrow> string"
  c_decrypt :: "string \<Rightarrow> string \<Rightarrow> string option"
  c_secret :: string

definition api_key_sealer :: "cipher \<Rightarrow> sealer" where
  "api_key_sealer c = \<lparr>sl_secret = c_secret c, sl_prefix = API_KEY_PREFIX\<rparr>"

definition is_header_safe :: "string \<Rightarrow> bool" where
  "is_header_safe v = is_header_value_safe TOKEN v"

definition normalize_api_key :: "(json \<Rightarrow> string) \<Rightarrow> json \<Rightarrow> route_error + string" where
  "normalize_api_key cs v =
     (let text = py_strip (text_of cs v)
      in if text = [] then Inr [] else if \<not> is_header_safe text then Inl (BadValue ''api_key'') else Inr text)"

definition seal_text :: "cipher \<Rightarrow> string \<Rightarrow> route_error + string" where
  "seal_text c text =
     (case seal (c_sha256 c) (c_encrypt c) (api_key_sealer c) text of None \<Rightarrow> Inl SealingKeyMissing | Some e \<Rightarrow> Inr e)"

definition seal_api_key :: "(json \<Rightarrow> string) \<Rightarrow> cipher \<Rightarrow> json \<Rightarrow> route_error + string" where
  "seal_api_key cs c v = and_then (normalize_api_key cs v) (\<lambda>text. if text = [] then Inr [] else seal_text c text)"

definition resolve_api_key :: "(json \<Rightarrow> string) \<Rightarrow> cipher \<Rightarrow> dict \<Rightarrow> dict \<Rightarrow> route_error + string" where
  "resolve_api_key cs c payload existing =
     (if \<not> has_key payload ''api_key'' \<or> jget payload ''api_key'' = JNull then Inr (text_of cs (jget existing ''api_key''))
      else seal_api_key cs c (jget payload ''api_key''))"

definition safe_plaintext :: "string \<Rightarrow> string \<Rightarrow> string \<times> string" where
  "safe_plaintext plaintext source =
     (let text = py_strip plaintext in if text = [] \<or> \<not> is_header_safe text then ([], source) else (text, source))"

definition effective_api_key :: "(json \<Rightarrow> string) \<Rightarrow> cipher \<Rightarrow> dict \<Rightarrow> string \<times> string" where
  "effective_api_key cs c route =
     (let raw = py_strip (text_of cs (jget route ''api_key''))
      in if raw = [] then ([], ''none'')
         else if \<not> is_sealed (api_key_sealer c) raw then safe_plaintext raw ''plaintext''
         else (case unseal (c_sha256 c) (c_decrypt c) (api_key_sealer c) raw of
             None \<Rightarrow> ([], ''unreadable'') | Some plaintext \<Rightarrow> safe_plaintext plaintext ''stored''))"

text \<open>A bullet is outside the modelled characters; \<open>BULLET\<close> stands for it.\<close>

definition BULLET :: char where "BULLET = CHR 0x95"

definition mask_api_key :: "string \<Rightarrow> string option" where
  "mask_api_key k =
     (if k = [] then None
      else if length k \<le> 4 then Some (replicate (length k) BULLET)
      else Some (replicate 4 BULLET @ drop (length k - 4) k))"

subsection \<open>Entries and rows\<close>

record route_entry =
  re_name :: string
  re_provider :: string
  re_kind :: string
  re_base_url :: string
  re_api_key :: string
  re_model :: string
  re_aliases :: "string list"
  re_path :: string
  re_enabled :: bool
  re_description :: string
  re_context :: "int option"
  re_tokens :: "int option"
  re_modalities :: "string list option"
  re_reasoning :: "reasoning option"

definition build_route :: "(json \<Rightarrow> string) \<Rightarrow> (string \<Rightarrow> string \<times> string) \<Rightarrow> cipher \<Rightarrow> json \<Rightarrow> dict \<Rightarrow> route_error + route_entry" where
  "build_route cs urlsplit c body existing =
     (case body of
        JObj payload \<Rightarrow>
          (let field = payload_field payload existing in
           and_then (normalize_provider cs (field ''provider'')) (\<lambda>provider.
           and_then (normalize_context_window (field ''context_window'')) (\<lambda>window.
           and_then (normalize_max_tokens (field ''max_tokens'')) (\<lambda>tokens.
           if window \<noteq> None \<and> tokens \<noteq> None \<and> the tokens > the window then Inl (BadValue ''max_tokens'')
           else
           and_then (normalize_name cs (field ''name'')) (\<lambda>name.
           and_then (normalize_kind cs (field ''kind'') (JStr provider)) (\<lambda>kind.
           and_then (normalize_base_url cs urlsplit (field ''base_url'')) (\<lambda>url.
           and_then (resolve_api_key cs c payload existing) (\<lambda>key.
           and_then (normalize_aliases cs (field ''aliases'')) (\<lambda>aliases.
           and_then (normalize_description cs (field ''description'')) (\<lambda>description.
           and_then (normalize_modalities cs (field ''modalities'')) (\<lambda>modalities.
           and_then (normalize_reasoning cs (field ''reasoning'') provider) (\<lambda>reasoning.
           Inr \<lparr>re_name = name, re_provider = provider, re_kind = kind, re_base_url = url, re_api_key = key,
                re_model = py_strip (text_of cs (field ''model'')), re_aliases = aliases,
                re_path = normalize_path cs (field ''path'') provider,
                re_enabled = (if has_key payload ''enabled'' then normalize_enabled (jget payload ''enabled'')
                  else if has_key existing ''enabled'' then normalize_enabled (jget existing ''enabled'') else True),
                re_description = description, re_context = window, re_tokens = tokens, re_modalities = modalities,
                re_reasoning = reasoning\<rparr>))))))))))))
      | _ \<Rightarrow> Inl (BadValue ''body''))"

datatype column = Absent | Corrupt | Parsed json

record model_route =
  mr_name :: string
  mr_provider :: string
  mr_kind :: string
  mr_base_url :: string
  mr_path :: string
  mr_model :: string
  mr_api_key :: string
  mr_aliases :: column
  mr_enabled :: bool
  mr_description :: string
  mr_context :: "int option"
  mr_tokens :: "int option"
  mr_modalities :: column
  mr_reasoning :: column
  mr_health :: column

definition strings_of :: "(json \<Rightarrow> string) \<Rightarrow> column \<Rightarrow> string list" where
  "strings_of cs col = (case col of Parsed (JList vs) \<Rightarrow> map (py_str cs) vs | _ \<Rightarrow> [])"

definition dict_of :: "column \<Rightarrow> json" where
  "dict_of col = (case col of Parsed (JObj d) \<Rightarrow> JObj d | _ \<Rightarrow> JNull)"

definition reasoning_json :: "reasoning \<Rightarrow> json" where
  "reasoning_json r =
     JObj [(''format'', case rs_format r of None \<Rightarrow> JNull | Some f \<Rightarrow> JStr f), (''efforts'', JList (map JStr (rs_efforts r)))]"

definition int_json :: "int option \<Rightarrow> json" where
  "int_json n = (case n of None \<Rightarrow> JNull | Some i \<Rightarrow> JInt i)"

text \<open>\<open>_entry\<close>: the row as the mapping the validators read.\<close>

definition entry_of :: "(json \<Rightarrow> string) \<Rightarrow> model_route \<Rightarrow> dict" where
  "entry_of cs r =
     [(''name'', JStr (mr_name r)), (''provider'', JStr (mr_provider r)), (''kind'', JStr (mr_kind r)),
      (''base_url'', JStr (mr_base_url r)), (''api_key'', JStr (mr_api_key r)), (''model'', JStr (mr_model r)),
      (''aliases'', JList (map JStr (strings_of cs (mr_aliases r)))), (''path'', JStr (mr_path r)),
      (''enabled'', JBool (mr_enabled r)), (''description'', JStr (mr_description r)),
      (''context_window'', int_json (mr_context r)), (''max_tokens'', int_json (mr_tokens r)),
      (''modalities'', JList (map JStr (strings_of cs (mr_modalities r)))), (''reasoning'', dict_of (mr_reasoning r))]"

definition apply_entry :: "model_route \<Rightarrow> route_entry \<Rightarrow> model_route" where
  "apply_entry r e =
     r\<lparr>mr_name := re_name e, mr_provider := re_provider e, mr_kind := re_kind e, mr_base_url := re_base_url e,
       mr_path := re_path e, mr_model := re_model e, mr_api_key := re_api_key e,
       mr_aliases := Parsed (JList (map JStr (re_aliases e))), mr_enabled := re_enabled e, mr_description := re_description e,
       mr_context := re_context e, mr_tokens := re_tokens e,
       mr_modalities := (case re_modalities e of None \<Rightarrow> Absent
          | Some ws \<Rightarrow> if ws = [] then Absent else Parsed (JList (map JStr ws))),
       mr_reasoning := (case re_reasoning e of None \<Rightarrow> Absent | Some q \<Rightarrow> Parsed (reasoning_json q))\<rparr>"

definition new_route :: "string \<Rightarrow> model_route" where
  "new_route name =
     \<lparr>mr_name = name, mr_provider = ''openai'', mr_kind = ''chat'', mr_base_url = [], mr_path = [], mr_model = [], mr_api_key = [],
      mr_aliases = Parsed (JList []), mr_enabled = True, mr_description = [], mr_context = None, mr_tokens = None,
      mr_modalities = Absent, mr_reasoning = Absent, mr_health = Absent\<rparr>"

subsection \<open>The read views\<close>

record capabilities =
  cap_context :: "int option"
  cap_tokens :: "int option"
  cap_modalities :: "string list option"
  cap_reasoning :: "reasoning option"

definition or_none :: "'e + 'a option \<Rightarrow> 'a option" where
  "or_none r = (case r of Inl e \<Rightarrow> None | Inr v \<Rightarrow> v)"

definition capability_fields :: "(json \<Rightarrow> string) \<Rightarrow> dict \<Rightarrow> capabilities" where
  "capability_fields cs item =
     \<lparr>cap_context = or_none (positive_token_count ''metadata'' MAX_CONTEXT_WINDOW (jget item ''context_window'')),
      cap_tokens = or_none (positive_token_count ''metadata'' MAX_OUTPUT_TOKENS (jget item ''max_tokens'')),
      cap_modalities = or_none (normalize_modalities cs (jget item ''modalities'')),
      cap_reasoning = or_none (normalize_reasoning cs (jget item ''reasoning'') (canonical_provider cs (jget item ''provider'')))\<rparr>"

record public_route =
  pr_name :: string
  pr_provider :: string
  pr_kind :: string
  pr_base_url :: string
  pr_has_key :: bool
  pr_key_hint :: "string option"
  pr_key_source :: string
  pr_model :: string
  pr_aliases :: "string list"
  pr_path :: string
  pr_enabled :: bool
  pr_capabilities :: capabilities

definition or_list :: "'e + 'a list \<Rightarrow> 'a list" where
  "or_list r = (case r of Inl e \<Rightarrow> [] | Inr v \<Rightarrow> v)"

definition public_route_of :: "(json \<Rightarrow> string) \<Rightarrow> cipher \<Rightarrow> dict \<Rightarrow> public_route" where
  "public_route_of cs c item =
     (let (key, source) = effective_api_key cs c item; text = (\<lambda>k. text_of cs (jget item k))
      in \<lparr>pr_name = or_str (text ''name'') (or_str (text ''model'') ''unnamed''),
          pr_provider = canonical_provider cs (jget item ''provider''), pr_kind = effective_kind cs item,
          pr_base_url = or_str (text ''base_url'') (text ''baseUrl''), pr_has_key = (key \<noteq> []),
          pr_key_hint = mask_api_key key, pr_key_source = source, pr_model = text ''model'',
          pr_aliases = or_list (normalize_aliases cs (jget item ''aliases'')),
          pr_path = or_str (text ''path'') (normalize_path cs (JStr []) (canonical_provider cs (jget item ''provider''))),
          pr_enabled = (\<not> has_key item ''enabled'' \<or> jget item ''enabled'' \<noteq> JBool False),
          pr_capabilities = capability_fields cs item\<rparr>)"

definition endpoint_url :: "(json \<Rightarrow> string) \<Rightarrow> (string \<Rightarrow> string \<times> string) \<Rightarrow> dict \<Rightarrow> route_error + string" where
  "endpoint_url cs urlsplit route =
     and_then (normalize_base_url cs urlsplit (jget route ''base_url''))
       (\<lambda>base. let path = py_strip (text_of cs (jget route ''path''))
          in Inr (if path = [] then base else rstrip_char CHR ''/'' base @ with_slash path))"

record resolved_route =
  rr_name :: string
  rr_provider :: string
  rr_kind :: string
  rr_base_url :: string
  rr_api_key :: string
  rr_key_source :: string
  rr_model :: string
  rr_aliases :: "string list"
  rr_path :: string
  rr_enabled :: bool
  rr_endpoint :: string
  rr_capabilities :: capabilities

definition resolved_of :: "(json \<Rightarrow> string) \<Rightarrow> (string \<Rightarrow> string \<times> string) \<Rightarrow> cipher \<Rightarrow> model_route \<Rightarrow> resolved_route" where
  "resolved_of cs urlsplit c r =
     (let entry = entry_of cs r; (key, source) = effective_api_key cs c entry;
          provider = canonical_provider cs (JStr (mr_provider r));
          path = or_str (mr_path r) (normalize_path cs (JStr []) provider)
      in \<lparr>rr_name = mr_name r, rr_provider = provider, rr_kind = effective_kind cs entry, rr_base_url = mr_base_url r,
          rr_api_key = key, rr_key_source = source, rr_model = mr_model r,
          rr_aliases = or_list (normalize_aliases cs (jget entry ''aliases'')), rr_path = path, rr_enabled = mr_enabled r,
          rr_endpoint = (case endpoint_url cs urlsplit [(''base_url'', JStr (mr_base_url r)), (''path'', JStr path)] of
             Inl e \<Rightarrow> [] | Inr u \<Rightarrow> u),
          rr_capabilities = capability_fields cs entry\<rparr>)"

definition load_routes :: "(json \<Rightarrow> string) \<Rightarrow> cipher \<Rightarrow> model_route list \<Rightarrow> (public_route \<times> json) list" where
  "load_routes cs c rows = map (\<lambda>r. (public_route_of cs c (entry_of cs r), dict_of (mr_health r))) rows"

definition resolve_routes :: "(json \<Rightarrow> string) \<Rightarrow> (string \<Rightarrow> string \<times> string) \<Rightarrow> cipher \<Rightarrow> model_route list \<Rightarrow> resolved_route list" where
  "resolve_routes cs urlsplit c rows = map (resolved_of cs urlsplit c) rows"

subsection \<open>Edits\<close>

definition find_route :: "model_route list \<Rightarrow> string \<Rightarrow> model_route option" where
  "find_route rows name = find (\<lambda>r. mr_name r = name) rows"

definition raw_route :: "(json \<Rightarrow> string) \<Rightarrow> model_route list \<Rightarrow> string \<Rightarrow> route_error + dict" where
  "raw_route cs rows name = (case find_route rows name of None \<Rightarrow> Inl (RouteNotFound name) | Some r \<Rightarrow> Inr (entry_of cs r))"

definition create_route :: "(json \<Rightarrow> string) \<Rightarrow> (string \<Rightarrow> string \<times> string) \<Rightarrow> cipher \<Rightarrow> model_route list \<Rightarrow> json
    \<Rightarrow> route_error + model_route list" where
  "create_route cs urlsplit c rows body =
     and_then (build_route cs urlsplit c body [])
       (\<lambda>e. if find_route rows (re_name e) \<noteq> None then Inl (DuplicateRoute (re_name e))
            else Inr (rows @ [apply_entry (new_route (re_name e)) e]))"

definition update_route :: "(json \<Rightarrow> string) \<Rightarrow> (string \<Rightarrow> string \<times> string) \<Rightarrow> cipher \<Rightarrow> model_route list \<Rightarrow> string \<Rightarrow> json
    \<Rightarrow> route_error + model_route list" where
  "update_route cs urlsplit c rows name body =
     (case find_route rows name of
        None \<Rightarrow> Inl (RouteNotFound name)
      | Some row \<Rightarrow>
          and_then (build_route cs urlsplit c body (entry_of cs row))
            (\<lambda>e. if re_name e \<noteq> name \<and> find_route rows (re_name e) \<noteq> None then Inl (DuplicateRoute (re_name e))
                 else Inr (map (\<lambda>r. if mr_name r = name then apply_entry r e else r) rows)))"

definition delete_route :: "model_route list \<Rightarrow> string \<Rightarrow> route_error + model_route list" where
  "delete_route rows name =
     (case find_route rows name of None \<Rightarrow> Inl (RouteNotFound name) | Some _ \<Rightarrow> Inr (filter (\<lambda>r. mr_name r \<noteq> name) rows))"

definition record_health :: "model_route list \<Rightarrow> string \<Rightarrow> dict \<Rightarrow> model_route list" where
  "record_health rows name health = map (\<lambda>r. if mr_name r = name then r\<lparr>mr_health := Parsed (JObj health)\<rparr> else r) rows"

text \<open>Nothing is committed before every row was sealed: one key that cannot be normalised ends the migration.\<close>

fun reseal :: "(json \<Rightarrow> string) \<Rightarrow> cipher \<Rightarrow> model_route list \<Rightarrow> route_error + model_route list \<times> string list" where
  "reseal cs c [] = Inr ([], [])"
| "reseal cs c (r # rows) =
     (if mr_api_key r = [] \<or> is_sealed (api_key_sealer c) (mr_api_key r)
      then and_then (reseal cs c rows) (\<lambda>(rs, names). Inr (r # rs, names))
      else and_then (normalize_api_key cs (JStr (mr_api_key r))) (\<lambda>text.
           and_then (seal_text c text) (\<lambda>e.
           and_then (reseal cs c rows) (\<lambda>(rs, names). Inr (r\<lparr>mr_api_key := e\<rparr> # rs, mr_name r # names)))))"

definition migrate_plaintext_keys :: "(json \<Rightarrow> string) \<Rightarrow> cipher \<Rightarrow> model_route list \<Rightarrow> route_error + model_route list \<times> string list" where
  "migrate_plaintext_keys cs c rows =
     (if \<not> available (api_key_sealer c) then Inl SealingKeyMissing else reseal cs c rows)"

subsection \<open>The probe\<close>

definition probe_url :: "(json \<Rightarrow> string) \<Rightarrow> (string \<Rightarrow> string \<times> string) \<Rightarrow> dict \<Rightarrow> route_error + string" where
  "probe_url cs urlsplit route =
     and_then (normalize_base_url cs urlsplit (jget route ''base_url''))
       (\<lambda>url. let base = rstrip_char CHR ''/'' url
          in Inr (if canonical_provider cs (jget route ''provider'') = ''anthropic''
                  then without_suffix ''/v1'' base @ ''/v1/models'' else base @ ''/models''))"

definition request_headers :: "(json \<Rightarrow> string) \<Rightarrow> cipher \<Rightarrow> dict \<Rightarrow> string list + (string \<times> string) list" where
  "request_headers cs c route =
     (let (key, source) = effective_api_key cs c route
      in checked_headers None ([(''User-Agent'', PROBE_USER_AGENT), (''Accept'', ''*/*'')]
           @ (if key \<noteq> [] \<and> is_header_safe key
              then (if canonical_provider cs (jget route ''provider'') = ''anthropic''
                    then [(''x-api-key'', key), (''anthropic-version'', ANTHROPIC_VERSION)]
                    else [(''Authorization'', ''Bearer '' @ key)])
              else [])))"

definition classify :: "int \<Rightarrow> string" where
  "classify code =
     (if 200 \<le> code \<and> code < 400 then ''ok''
      else if code = 401 \<or> code = 403 then ''auth''
      else if code = 404 then ''not_found''
      else if code = 405 then ''method''
      else if 400 \<le> code \<and> code < 500 then ''client_error''
      else ''server_error'')"

record health =
  h_reachable :: bool
  h_ok :: bool
  h_status :: string
  h_code :: "int option"
  h_url :: string

definition unreachable :: "string \<Rightarrow> health" where
  "unreachable url = \<lparr>h_reachable = False, h_ok = False, h_status = ''unreachable'', h_code = None, h_url = url\<rparr>"

definition reachable :: "string \<Rightarrow> int \<Rightarrow> health" where
  "reachable url code =
     \<lparr>h_reachable = True, h_ok = (classify code = ''ok''), h_status = classify code, h_code = Some code, h_url = url\<rparr>"

text \<open>What the client answers to one listing: it may refuse to be built, get a status, or fail to connect.\<close>

datatype answer = ClientRefused | Status int | NoConnection

definition probe :: "(json \<Rightarrow> string) \<Rightarrow> (string \<Rightarrow> string \<times> string) \<Rightarrow> cipher \<Rightarrow> (string \<Rightarrow> url_refusal + string)
    \<Rightarrow> (string \<Rightarrow> (string \<times> string) list \<Rightarrow> answer) \<Rightarrow> dict \<Rightarrow> health" where
  "probe cs urlsplit c check_url upstream route =
     (case probe_url cs urlsplit route of
        Inl e \<Rightarrow> unreachable []
      | Inr url \<Rightarrow>
          (case check_url url of
             Inl e \<Rightarrow> unreachable url
           | Inr checked \<Rightarrow>
               (case request_headers cs c route of
                  Inl e \<Rightarrow> unreachable checked
                | Inr headers \<Rightarrow>
                    (case upstream checked headers of Status code \<Rightarrow> reachable checked code | _ \<Rightarrow> unreachable checked))))"

definition probe_target :: "(json \<Rightarrow> string) \<Rightarrow> (string \<Rightarrow> string \<times> string) \<Rightarrow> cipher \<Rightarrow> (string \<Rightarrow> url_refusal + string)
    \<Rightarrow> (string \<Rightarrow> (string \<times> string) list \<Rightarrow> answer) \<Rightarrow> json \<Rightarrow> route_error + health" where
  "probe_target cs urlsplit c check_url upstream body =
     (case body of
        JObj payload \<Rightarrow>
          (let provider = canonical_provider cs (jget payload ''provider'') in
           and_then (normalize_base_url cs urlsplit (jget payload ''base_url'')) (\<lambda>url.
           and_then (normalize_api_key cs (jget payload ''api_key'')) (\<lambda>key.
           Inr (probe cs urlsplit c check_url upstream
             [(''provider'', JStr provider), (''base_url'', JStr url), (''api_key'', JStr key),
              (''path'', JStr (normalize_path cs (jget payload ''path'') provider))]))))
      | _ \<Rightarrow> Inl (BadValue ''body''))"

definition health_dict :: "health \<Rightarrow> dict" where
  "health_dict h =
     [(''reachable'', JBool (h_reachable h)), (''ok'', JBool (h_ok h)), (''status'', JStr (h_status h)),
      (''http_status'', int_json (h_code h)), (''url'', JStr (h_url h))]"

definition probe_and_record :: "(json \<Rightarrow> string) \<Rightarrow> (string \<Rightarrow> string \<times> string) \<Rightarrow> cipher \<Rightarrow> (string \<Rightarrow> url_refusal + string)
    \<Rightarrow> (string \<Rightarrow> (string \<times> string) list \<Rightarrow> answer) \<Rightarrow> model_route list \<Rightarrow> string \<Rightarrow> route_error + health \<times> model_route list" where
  "probe_and_record cs urlsplit c check_url upstream rows name =
     and_then (raw_route cs rows name)
       (\<lambda>route. let h = probe cs urlsplit c check_url upstream route in Inr (h, record_health rows name (health_dict h)))"

end
