(* ===== verification/ModelRoutesProps.thy ===== *)
theory ModelRoutesProps
  imports ModelRoutes
begin

section \<open>What the route table guarantees\<close>

subsection \<open>Nothing unsafe becomes a header\<close>

lemma safe_plaintext_safe: "safe_plaintext p src = (k, s) \<Longrightarrow> k = [] \<or> is_header_safe k"
  by (auto simp: safe_plaintext_def Let_def split: if_splits)

lemma effective_api_key_safe: "effective_api_key cs c route = (k, s) \<Longrightarrow> k = [] \<or> is_header_safe k"
  unfolding effective_api_key_def Let_def
  by (cases "unseal (c_sha256 c) (c_decrypt c) (api_key_sealer c) (py_strip (text_of cs (jget route ''api_key'')))")
    (auto dest: safe_plaintext_safe split: if_splits)

lemma token_is_line: "is_header_value_safe TOKEN v \<Longrightarrow> is_header_value_safe policy v"
  by (auto simp: is_header_value_safe_def list_all_iff)

lemma bearer_safe: "is_header_safe k \<Longrightarrow> is_header_value_safe LINE (''Bearer '' @ k)"
proof -
  assume k: "is_header_safe k"
  have "is_header_value_safe LINE ''Bearer ''" by code_simp
  then show ?thesis
    using k unfolding is_header_safe_def is_header_value_safe_def list_all_append by (auto simp: list_all_iff)
qed

lemma checked_headers_Inr:
  "checked_headers None hs = Inr out \<longleftrightarrow> out = hs \<and> list_all (\<lambda>(n, v). is_header_value_safe (policy_for n) v) hs"
proof -
  have "set (unsafe_header_names None hs) = fst ` {(n, v) \<in> set hs. \<not> is_header_value_safe (policy_for n) v}"
    by (auto simp: unsafe_header_names_def effective_policy_def)
  then have "unsafe_header_names None hs = [] \<longleftrightarrow> list_all (\<lambda>(n, v). is_header_value_safe (policy_for n) v) hs"
    by (auto simp: list_all_iff simp flip: set_empty)
  then show ?thesis by (auto simp: checked_headers_def Let_def)
qed

text \<open>
  C38: whatever a stored row or a draft holds in its key column, sealed, legacy or corrupt, the headers of a probe are built
  without an error and every value of them is one line of printable ASCII.
\<close>

theorem probe_headers_are_safe:
  "case request_headers cs c route of
     Inl e \<Rightarrow> False | Inr hs \<Rightarrow> list_all (\<lambda>h. snd h \<noteq> [] \<and> list_all printable_ascii (snd h)) hs"
proof -
  obtain k s where ks: "effective_api_key cs c route = (k, s)" by fastforce
  define auth where "auth = (if k \<noteq> [] \<and> is_header_safe k
      then (if canonical_provider cs (jget route ''provider'') = ''anthropic''
            then [(''x-api-key'', k), (''anthropic-version'', ANTHROPIC_VERSION)] else [(''Authorization'', ''Bearer '' @ k)])
      else [])"
  have fixed: "list_all (\<lambda>(n, v). is_header_value_safe (policy_for n) v) [(''User-Agent'', PROBE_USER_AGENT), (''Accept'', ''*/*'')]"
    and version: "is_header_value_safe (policy_for ''anthropic-version'') ANTHROPIC_VERSION"
    and line: "policy_for ''Authorization'' = LINE" by code_simp+
  have "list_all (\<lambda>(n, v). is_header_value_safe (policy_for n) v) auth"
    using version line bearer_safe [of k] token_is_line [of k "policy_for ''x-api-key''"]
    by (auto simp: auth_def is_header_safe_def)
  then have all: "list_all (\<lambda>(n, v). is_header_value_safe (policy_for n) v)
      ([(''User-Agent'', PROBE_USER_AGENT), (''Accept'', ''*/*'')] @ auth)"
    using fixed by (simp only: list_all_append)
  then have "request_headers cs c route = Inr ([(''User-Agent'', PROBE_USER_AGENT), (''Accept'', ''*/*'')] @ auth)"
    unfolding request_headers_def ks Let_def prod.case auth_def [symmetric] checked_headers_Inr by blast
  then show ?thesis using all by (auto simp: list_all_iff is_header_value_safe_def simp del: append_Cons)
qed

subsection \<open>The life of a key\<close>

definition opens :: "cipher \<Rightarrow> bool" where
  "opens c \<longleftrightarrow> (\<forall>k v. c_decrypt c k (c_encrypt c k v) = Some v)"

lemma build_route_parts:
  assumes "build_route cs urlsplit c (JObj payload) existing = Inr e"
  shows "resolve_api_key cs c payload existing = Inr (re_api_key e)
    \<and> normalize_name cs (payload_field payload existing ''name'') = Inr (re_name e)
    \<and> normalize_provider cs (payload_field payload existing ''provider'') = Inr (re_provider e)
    \<and> normalize_context_window (payload_field payload existing ''context_window'') = Inr (re_context e)
    \<and> normalize_max_tokens (payload_field payload existing ''max_tokens'') = Inr (re_tokens e)
    \<and> normalize_modalities cs (payload_field payload existing ''modalities'') = Inr (re_modalities e)
    \<and> normalize_reasoning cs (payload_field payload existing ''reasoning'') (re_provider e) = Inr (re_reasoning e)
    \<and> re_path e = normalize_path cs (payload_field payload existing ''path'') (re_provider e)"
  using assms unfolding build_route_def json.case Let_def by (auto simp: and_then_Inr split: if_split_asm)

lemma build_route_Inr:
  assumes "build_route cs urlsplit c (JObj payload) existing = Inr e"
  shows "resolve_api_key cs c payload existing = Inr (re_api_key e)"
    and "normalize_name cs (payload_field payload existing ''name'') = Inr (re_name e)"
    and "normalize_provider cs (payload_field payload existing ''provider'') = Inr (re_provider e)"
    and "normalize_context_window (payload_field payload existing ''context_window'') = Inr (re_context e)"
    and "normalize_max_tokens (payload_field payload existing ''max_tokens'') = Inr (re_tokens e)"
    and "normalize_modalities cs (payload_field payload existing ''modalities'') = Inr (re_modalities e)"
    and "normalize_reasoning cs (payload_field payload existing ''reasoning'') (re_provider e) = Inr (re_reasoning e)"
    and "re_path e = normalize_path cs (payload_field payload existing ''path'') (re_provider e)"
  using build_route_parts [OF assms] by (simp_all only: simp_thms)

lemma normalize_api_key_shape:
  "normalize_api_key cs v = Inr k \<Longrightarrow> k \<noteq> [] \<Longrightarrow> is_header_safe k \<and> py_strip k = k"
  by (auto simp: normalize_api_key_def Let_def py_strip_idem split: if_splits)

lemma text_of_JStr [simp]: "text_of cs (JStr s) = s"
  by (simp add: text_of_def)

lemma sealed_prefix_visible: "startswith (API_KEY_PREFIX @ t) API_KEY_PREFIX" by simp

lemma py_strip_prefix: "c # s = t \<Longrightarrow> \<not> py_isspace c \<Longrightarrow> \<exists>u. py_strip t = c # u"
proof -
  assume t: "c # s = t" and c: "\<not> py_isspace c"
  have "py_lstrip t = c # s" using c by (simp add: py_lstrip_def flip: t)
  then have strip: "py_strip t = py_rstrip (c # s)" by (simp add: py_strip_def)
  obtain w where w: "c # s = py_rstrip (c # s) @ w" using py_rstrip_prefix by blast
  have "py_rstrip (c # s) \<noteq> []"
    using c by (simp add: py_rstrip_def dropWhile_eq_Nil_conv)
  then show ?thesis using w strip by (metis append_eq_Cons_conv)
qed

text \<open>
  a key accepted by a create is sealed in the row and comes back, to the letter, as the key the route authenticates
  with, provided the cipher opens what it sealed and its tokens neither begin nor end with a blank.
\<close>

theorem stored_key_comes_back:
  assumes "create_route cs urlsplit c rows (JObj payload) = Inr rows'" and "opens c"
    and "normalize_api_key cs (jget payload ''api_key'') = Inr k" and "k \<noteq> []"
    and "\<not> py_isspace (last (c_encrypt c (c_sha256 c (py_strip (c_secret c))) k))"
    and "c_encrypt c (c_sha256 c (py_strip (c_secret c))) k \<noteq> []"
  shows "effective_api_key cs c (entry_of cs (last rows')) = (k, ''stored'')
    \<and> is_sealed (api_key_sealer c) (mr_api_key (last rows'))"
proof -
  obtain e where e: "build_route cs urlsplit c (JObj payload) [] = Inr e"
    and rows': "rows' = rows @ [apply_entry (new_route (re_name e)) e]"
    using assms(1) by (auto simp: create_route_def and_then_Inr split: if_splits)
  have given: "has_key payload ''api_key''" "jget payload ''api_key'' \<noteq> JNull"
    using assms(3,4)
    by (auto simp: normalize_api_key_def text_of_def has_key_def jget_def Let_def py_strip_fix split: option.splits if_splits)
  then have "seal_text c k = Inr (re_api_key e)"
    using build_route_Inr(1) [OF e] assms(3,4) by (simp add: resolve_api_key_def seal_api_key_def)
  then obtain t where key: "derive_key (c_sha256 c) (api_key_sealer c) = Some (c_sha256 c (py_strip (c_secret c)))"
    and t: "t = c_encrypt c (c_sha256 c (py_strip (c_secret c))) k" and stored: "re_api_key e = API_KEY_PREFIX @ t"
    by (auto simp: seal_text_def seal_def derive_key_def api_key_sealer_def Let_def split: option.splits if_splits)
  have "py_strip (API_KEY_PREFIX @ t) = API_KEY_PREFIX @ t"
    using assms(5,6) by (intro py_strip_fix) (auto simp: API_KEY_PREFIX_def py_isspace_def t)
  moreover have "unseal (c_sha256 c) (c_decrypt c) (api_key_sealer c) (API_KEY_PREFIX @ t) = Some k"
    using assms(2) key by (simp add: unseal_def is_sealed_def api_key_sealer_def opens_def t)
  moreover have "safe_plaintext k ''stored'' = (k, ''stored'')"
    using normalize_api_key_shape [OF assms(3,4)] assms(4) by (simp add: safe_plaintext_def Let_def)
  moreover have "jget (entry_of cs (apply_entry (new_route (re_name e)) e)) ''api_key'' = JStr (API_KEY_PREFIX @ t)"
    by (simp add: entry_of_def jget_def apply_entry_def stored)
  ultimately have "effective_api_key cs c (entry_of cs (last rows')) = (k, ''stored'')"
    by (simp add: effective_api_key_def rows' is_sealed_def api_key_sealer_def Let_def) (simp add: API_KEY_PREFIX_def)
  then show ?thesis by (simp add: rows' apply_entry_def stored is_sealed_def api_key_sealer_def)
qed

definition demo_cipher :: cipher where
  "demo_cipher = \<lparr>c_sha256 = (\<lambda>s. s), c_encrypt = (\<lambda>k v. ''t'' @ v), c_decrypt = (\<lambda>k t. Some (tl t)), c_secret = ''master''\<rparr>"

definition demo_body :: dict where
  "demo_body = [(''name'', JStr ''r''), (''base_url'', JStr ''http://h''), (''api_key'', JStr ''sk-1''), (''description'', JStr ''d'')]"

definition demo_split :: "string \<Rightarrow> string \<times> string" where "demo_split url = (''http'', ''h'')"

definition demo_entry :: route_entry where
  "demo_entry = \<lparr>re_name = ''r'', re_provider = ''openai'', re_kind = ''chat'', re_base_url = ''http://h'',
     re_api_key = ''enc:v1:tsk-1'', re_model = [], re_aliases = [], re_path = ''/v1/chat/completions'', re_enabled = True,
     re_description = ''d'', re_context = None, re_tokens = None, re_modalities = None, re_reasoning = None\<rparr>"

lemma demo_builds: "build_route (\<lambda>j. []) demo_split demo_cipher (JObj demo_body) [] = Inr demo_entry"
  by code_simp

theorem stored_key_comes_back_witness:
  "effective_api_key (\<lambda>j. []) demo_cipher (entry_of (\<lambda>j. []) (apply_entry (new_route ''r'') demo_entry)) = (''sk-1'', ''stored'')"
proof -
  have "create_route (\<lambda>j. []) demo_split demo_cipher [] (JObj demo_body) = Inr [apply_entry (new_route ''r'') demo_entry]"
    by (simp add: create_route_def demo_builds find_route_def) (simp add: demo_entry_def)
  moreover have "opens demo_cipher" by (simp add: opens_def demo_cipher_def)
  moreover have "normalize_api_key (\<lambda>j. []) (jget demo_body ''api_key'') = Inr ''sk-1''" by code_simp
  ultimately show ?thesis
    using stored_key_comes_back [of "\<lambda>j. []" demo_split demo_cipher "[]" demo_body "[apply_entry (new_route ''r'') demo_entry]" "''sk-1''"]
    by (simp add: demo_cipher_def py_isspace_def)
qed

subsection \<open>What is declared is what is published\<close>

lemma filter_vocabulary:
  "list_all (\<lambda>w. w \<in> set vocabulary \<and> w \<noteq> []) (filter (\<lambda>w. w \<in> S) vocabulary) \<longleftrightarrow> [] \<notin> S \<inter> set vocabulary"
  by (auto simp: list_all_iff)

text \<open>The words of a vocabulary are in lower case without blanks around them.\<close>

definition plain_words :: "string list \<Rightarrow> bool" where
  "plain_words ws \<longleftrightarrow> list_all (\<lambda>w. w \<noteq> [] \<and> py_lower (py_strip w) = w) ws"

lemma canonical_words_stored:
  assumes "canonical_words cs label vocabulary v = Inr ws" and "plain_words vocabulary" and "distinct vocabulary"
  shows "canonical_words cs' label' vocabulary (JList (map JStr ws)) = Inr ws"
proof -
  have "\<exists>S. ws = filter (\<lambda>w. w \<in> set S) vocabulary"
    using assms(1) unfolding canonical_words_def Let_def by (cases "items_of v") (auto simp only: option.case split: if_splits)
  then obtain S where ws: "ws = filter (\<lambda>w. w \<in> S) vocabulary" by blast
  have "map (\<lambda>i. py_lower (py_strip (text_of cs' i))) (map JStr ws) = ws"
    using assms(2) unfolding ws plain_words_def by (auto simp: list_all_iff intro!: map_idI)
  moreover have "filter (\<lambda>t. t \<noteq> []) ws = ws"
    using assms(2) unfolding ws plain_words_def by (auto simp: list_all_iff intro!: filter_cong)
  moreover have "list_all (\<lambda>w. w \<in> set vocabulary) ws" by (auto simp: ws list_all_iff)
  moreover have "filter (\<lambda>w. w \<in> set ws) vocabulary = ws" by (auto simp: ws intro: filter_cong)
  ultimately show ?thesis by (simp add: canonical_words_def items_of_def Let_def del: map_map)
qed

lemma vocabularies: "plain_words MODALITIES" "distinct MODALITIES" "plain_words THINKING_LEVELS" "distinct THINKING_LEVELS"
  "plain_words THINKING_FORMATS"
  by code_simp+

lemma strings_of_JStr [simp]: "strings_of cs (Parsed (JList (map JStr ws))) = ws"
  by (simp add: strings_of_def comp_def)

lemma modalities_stored:
  assumes "normalize_modalities cs v = Inr m"
  shows "normalize_modalities cs' (JList (map JStr (case m of None \<Rightarrow> [] | Some ws \<Rightarrow> ws))) = Inr m"
proof -
  obtain ws where ws: "canonical_words cs ''modalities'' MODALITIES v = Inr ws" "m = (if ws = [] then None else Some ws)"
    using assms by (auto simp: normalize_modalities_def and_then_Inr)
  have "(case m of None \<Rightarrow> [] | Some ws \<Rightarrow> ws) = ws" by (simp add: ws(2))
  then show ?thesis
    using canonical_words_stored [OF ws(1) vocabularies(1,2)] by (simp add: normalize_modalities_def ws(2))
qed

lemma token_count_stored:
  "positive_token_count label ceiling v = Inr n \<Longrightarrow> positive_token_count label' ceiling (int_json n) = Inr n"
  by (auto simp: positive_token_count_def int_json_def Let_def split: json.splits if_splits)

lemma reasoning_stored:
  assumes "normalize_reasoning cs v provider = Inr r"
  shows "normalize_reasoning cs' (case r of None \<Rightarrow> JNull | Some q \<Rightarrow> reasoning_json q) provider = Inr r"
proof (cases r)
  case None
  then show ?thesis by (simp add: normalize_reasoning_def)
next
  case (Some q)
  then obtain d dialect efforts where d: "q = \<lparr>rs_format = dialect, rs_efforts = efforts\<rparr>"
    and efforts: "normalize_thinking_levels cs (jget d ''efforts'') = Inr efforts" "efforts \<noteq> []" "list_ex (\<lambda>l. l \<noteq> ''off'') efforts"
    and dialect: "dialect = None \<or> (\<exists>t. dialect = Some t \<and> t \<in> set THINKING_FORMATS \<and> provider = ''openai'')"
    using assms unfolding normalize_reasoning_def Let_def
    by (auto simp: and_then_Inr split: if_splits json.splits)
  have levels: "normalize_thinking_levels cs' (JList (map JStr efforts)) = Inr efforts"
    using canonical_words_stored [OF _ vocabularies(3,4)] efforts(1) unfolding normalize_thinking_levels_def by blast
  have keys: "jget [(''format'', x), (''efforts'', y)] ''format'' = x" "jget [(''format'', x), (''efforts'', y)] ''efforts'' = y" for x y
    by (simp_all add: jget_def)
  have low: "py_lower (py_strip (text_of cs' (case dialect of None \<Rightarrow> JNull | Some f \<Rightarrow> JStr f))) = opt_str dialect"
    using dialect vocabularies(5) by (auto simp: plain_words_def list_all_iff opt_str_def text_of_def py_strip_fix py_lower_def)
  have "opt_str dialect = [] \<longleftrightarrow> dialect = None"
    using dialect vocabularies(5) by (auto simp: plain_words_def list_all_iff opt_str_def)
  then show ?thesis
    using levels efforts dialect low unfolding Some d reasoning_json_def option.case reasoning.simps normalize_reasoning_def keys
    by (auto simp: Let_def keys opt_str_def)
qed

text \<open>
  The capabilities a create or an edit declares are published exactly as declared: what the read view recomputes from the
  stored columns is what was validated.
\<close>

theorem capabilities_published_as_declared:
  assumes "build_route cs urlsplit c (JObj payload) existing = Inr e"
  shows "capability_fields cs' (entry_of cs' (apply_entry row e))
    = \<lparr>cap_context = re_context e, cap_tokens = re_tokens e, cap_modalities = re_modalities e, cap_reasoning = re_reasoning e\<rparr>"
proof -
  note b = build_route_Inr [OF assms]
  let ?item = "entry_of cs' (apply_entry row e)"
  have item: "jget ?item ''context_window'' = int_json (re_context e)" "jget ?item ''max_tokens'' = int_json (re_tokens e)"
      "jget ?item ''modalities'' = JList (map JStr (case re_modalities e of None \<Rightarrow> [] | Some ws \<Rightarrow> ws))"
      "jget ?item ''reasoning'' = (case re_reasoning e of None \<Rightarrow> JNull | Some q \<Rightarrow> reasoning_json q)"
      "jget ?item ''provider'' = JStr (re_provider e)"
    by (auto simp: entry_of_def jget_def apply_entry_def dict_of_def reasoning_json_def strings_of_def comp_def split: option.splits)
  have "re_provider e \<in> set PROVIDERS" using b(3) by (auto simp: normalize_provider_def Let_def split: if_splits)
  moreover have "canonical_provider cs' (JStr p) = p" if "p \<in> set PROVIDERS" for p
  proof -
    have "list_all (\<lambda>p. canonical_provider (\<lambda>j. []) (JStr p) = p) PROVIDERS" by code_simp
    moreover have "canonical_provider cs' (JStr p) = canonical_provider (\<lambda>j. []) (JStr p)" by (simp add: canonical_provider_def)
    ultimately show ?thesis using that by (auto simp: list_all_iff)
  qed
  ultimately have provider: "canonical_provider cs' (JStr (re_provider e)) = re_provider e" by blast
  have "positive_token_count ''metadata'' MAX_CONTEXT_WINDOW (int_json (re_context e)) = Inr (re_context e)"
    "positive_token_count ''metadata'' MAX_OUTPUT_TOKENS (int_json (re_tokens e)) = Inr (re_tokens e)"
    using b(4,5) token_count_stored unfolding normalize_context_window_def normalize_max_tokens_def by blast+
  then show ?thesis
    using modalities_stored [OF b(6), of cs'] reasoning_stored [OF b(7), of cs']
    by (simp add: capability_fields_def item provider or_none_def)
qed

theorem capabilities_published_as_declared_witness:
  "capability_fields (\<lambda>j. []) (entry_of (\<lambda>j. []) (apply_entry (new_route ''r'') demo_entry))
   = \<lparr>cap_context = None, cap_tokens = None, cap_modalities = None, cap_reasoning = None\<rparr>"
  using capabilities_published_as_declared [OF demo_builds, of "\<lambda>j. []" "new_route ''r''"] by (simp add: demo_entry_def)

subsection \<open>The migration of legacy keys\<close>

text \<open>
  One legacy key that is no longer acceptable stops the whole migration, although the read path copes with it: no row is
  sealed, however many could be.
\<close>

theorem one_bad_key_stops_the_migration:
  assumes "r \<in> set rows" and "\<not> is_sealed (api_key_sealer c) (mr_api_key r)"
    and "mr_api_key r \<noteq> []" and "py_strip (mr_api_key r) = mr_api_key r" and "\<not> is_header_safe (mr_api_key r)"
  shows "(\<exists>e. migrate_plaintext_keys cs c rows = Inl e) \<and> fst (effective_api_key cs c (entry_of cs r)) = []"
proof -
  have "\<exists>e. reseal cs c rows = Inl e"
    using assms
  proof (induction rows)
    case (Cons q rows)
    show ?case
    proof (cases "q = r")
      case True
      then show ?thesis using Cons.prems by (auto simp: normalize_api_key_def Let_def)
    next
      case False
      then obtain e where "reseal cs c rows = Inl e" using Cons by auto
      then show ?thesis by (auto simp: and_then_def split: sum.splits)
    qed
  qed simp
  moreover have "jget (entry_of cs r) ''api_key'' = JStr (mr_api_key r)" by (simp add: entry_of_def jget_def)
  ultimately show ?thesis
    using assms(2-5) by (auto simp: migrate_plaintext_keys_def effective_api_key_def safe_plaintext_def Let_def)
qed

theorem one_bad_key_stops_the_migration_witness:
  "\<exists>e. migrate_plaintext_keys (\<lambda>j. []) demo_cipher [(new_route ''a'')\<lparr>mr_api_key := ''good''\<rparr>, (new_route ''r'')\<lparr>mr_api_key := ''a b''\<rparr>]
     = Inl e"
proof -
  have "\<not> is_header_safe ''a b''" "\<not> is_sealed (api_key_sealer demo_cipher) ''a b''" "py_strip ''a b'' = ''a b''" by code_simp+
  then show ?thesis
    using one_bad_key_stops_the_migration [of "(new_route ''r'')\<lparr>mr_api_key := ''a b''\<rparr>"
      "[(new_route ''a'')\<lparr>mr_api_key := ''good''\<rparr>, (new_route ''r'')\<lparr>mr_api_key := ''a b''\<rparr>]" demo_cipher "\<lambda>j. []"] by simp
qed

end
