(* ===== verification/RunnerBase.thy ===== *)
theory RunnerBase
  imports ModelRoutes CheckTrust
begin

section \<open>What the agent runner decides before it acts\<close>

text \<open>
  The pure parts of \<open>services/agent_runner.py\<close>: which branch may be pushed, where a task works, which model route it
  uses and what its environment shows, how secrets are masked, and what a policy allows. An exception of the runner's own
  (\<open>AgentRunnerError\<close> and its subclasses) is one of the constructors of \<open>run_error\<close> before these two, any other exception is
  \<open>OsError\<close> (an \<open>OSError\<close>) or \<open>Unexpected\<close>. The Chinese sentences of the errors are not kept.
\<close>

definition AGENT_BRANCH_PREFIX :: string where "AGENT_BRANCH_PREFIX = ''agent/''"
definition PROTECTED_BRANCHES :: "string list" where
  "PROTECTED_BRANCHES = [''main'', ''master'', ''trunk'', ''develop'', ''release'']"
definition PR_POLICY_ON_GREEN :: string where "PR_POLICY_ON_GREEN = ''on_green''"
definition PR_POLICY_ALWAYS :: string where "PR_POLICY_ALWAYS = ''always''"
definition PR_POLICY_NEVER :: string where "PR_POLICY_NEVER = ''never''"
definition PR_POLICIES :: "string list" where "PR_POLICIES = [PR_POLICY_ON_GREEN, PR_POLICY_ALWAYS, PR_POLICY_NEVER]"
definition DEFAULT_PR_POLICY :: string where "DEFAULT_PR_POLICY = PR_POLICY_ON_GREEN"
definition MODEL_ENV_PREFIX :: string where "MODEL_ENV_PREFIX = ''OPENFISH_MODEL''"
definition SECRET_HINTS :: "string list" where "SECRET_HINTS = [''KEY'', ''TOKEN'', ''SECRET'', ''PASSWORD'']"
definition STEPS :: "string list" where "STEPS = [''clone'', ''read'', ''gates'', ''review'', ''search'', ''emit'']"

datatype run_error =
    EmptyBranch | ProtectedBranch string | NotAgentBranch string | BadBranchChar string | BadRef string
  | BadTaskId string | NoRoute | UnknownRoute string | SandboxIdentity string | NoChangedPaths
  | CuratorWroteSource "string list" | FixTouchedSuite "string list" | LeaseUnknown string | BadResult
  | Withheld string "string list" | RunnerError string | OsError string | Unexpected string

fun is_runner_error :: "run_error \<Rightarrow> bool" where
  "is_runner_error (Unexpected text) = False"
| "is_runner_error (OsError text) = False"
| "is_runner_error _ = True"

subsection \<open>The push guard\<close>

definition branch_char :: "char \<Rightarrow> bool" where
  "branch_char c \<longleftrightarrow> is_alpha c \<or> is_digit c \<or> c \<in> {CHR ''.'', CHR ''_'', CHR ''/'', CHR ''-''}"

definition forbidden_branch_char :: "char \<Rightarrow> bool" where
  "forbidden_branch_char c \<longleftrightarrow>
     c \<in> {CHR '' '', CHR ''~'', CHR ''^'', CHR '':'', CHR ''?'', CHR ''*'', CHR ''['', CHR 0x5C, CHR 0x7F} \<or> (of_char c :: nat) < 32"

text \<open>\<open>s in t\<close> on strings.\<close>

fun occurs :: "string \<Rightarrow> string \<Rightarrow> bool" where
  "occurs s [] \<longleftrightarrow> s = []"
| "occurs s (c # t) \<longleftrightarrow> startswith (c # t) s \<or> occurs s t"

definition branch_shape :: "string \<Rightarrow> bool" where
  "branch_shape name \<longleftrightarrow>
     (let rest = drop (length AGENT_BRANCH_PREFIX) name
      in startswith name AGENT_BRANCH_PREFIX \<and> rest \<noteq> [] \<and> (is_alpha (hd rest) \<or> is_digit (hd rest)) \<and> list_all branch_char rest)"

definition assert_pushable :: "string \<Rightarrow> run_error + string" where
  "assert_pushable branch =
     (let name = py_strip branch;
          plain = (if startswith name ''refs/heads/'' then drop (length ''refs/heads/'') name else name)
      in if name = [] then Inl EmptyBranch
         else if plain \<in> set PROTECTED_BRANCHES then Inl (ProtectedBranch plain)
         else if \<not> startswith name AGENT_BRANCH_PREFIX then Inl (NotAgentBranch name)
         else if list_ex forbidden_branch_char name then Inl (BadBranchChar name)
         else if occurs ''..'' name \<or> occurs (''@'' @ ''{'') name \<or> occurs ''//'' name \<or> endswith name ''/'' \<or> endswith name ''.lock''
         then Inl (BadRef name)
         else if \<not> branch_shape name then Inl (BadRef name)
         else Inr name)"

subsection \<open>Where a task works\<close>

definition workdir_for :: "(string \<Rightarrow> string) \<Rightarrow> string \<Rightarrow> string \<Rightarrow> nat \<Rightarrow> run_error + string" where
  "workdir_for utf8 work_root task_id attempt =
     (case single_segment utf8 (py_strip task_id) of
        Inl e \<Rightarrow> Inl (BadTaskId task_id)
      | Inr component \<Rightarrow>
          Inr (work_root @ ''/'' @ (if attempt > 0 then component @ ''-attempt'' @ str_of_nat attempt else component)))"

text \<open>\<open>sweep_workdirs\<close>: the directories in name order, each with the time of its marker, if it has one.\<close>

definition sweep_workdirs :: "timestamp \<Rightarrow> timestamp \<Rightarrow> (string \<times> timestamp option) list \<Rightarrow> string list" where
  "sweep_workdirs now retention entries =
     map fst (filter (\<lambda>(name, finished_at). case finished_at of None \<Rightarrow> False | Some t \<Rightarrow> t \<le> now - max 0 retention) entries)"

definition TRANSIENT_MARKERS :: "string \<Rightarrow> string list" where
  "TRANSIENT_MARKERS sandbox_home =
     [''__pycache__/'', ''.pytest_cache/'', ''.mypy_cache/'', ''.ruff_cache/'', sandbox_home @ ''/'']"

definition is_transient_path :: "string \<Rightarrow> string \<Rightarrow> bool" where
  "is_transient_path sandbox_home path =
     (let normalized = replace_char CHR 0x5C CHR ''/'' path
      in if endswith normalized ''.pyc'' \<or> endswith normalized ''.pyo'' then True
         else list_ex (\<lambda>m. occurs m normalized) (TRANSIENT_MARKERS sandbox_home))"

subsection \<open>The model route and its environment\<close>

definition select_route :: "resolved_route list \<Rightarrow> string option \<Rightarrow> run_error + resolved_route" where
  "select_route routes wanted =
     (let enabled = filter rr_enabled routes
      in if enabled = [] then Inl NoRoute
         else if opt_str wanted \<noteq> []
         then (case find (\<lambda>r. opt_str wanted \<in> set (rr_name r # rr_model r # rr_aliases r)) enabled of
             None \<Rightarrow> Inl (UnknownRoute (opt_str wanted)) | Some r \<Rightarrow> Inr r)
         else Inr (hd enabled))"

definition PROVIDER_NAMES :: "(string \<times> string \<times> string) list" where
  "PROVIDER_NAMES = [(''openai'', ''OPENAI_API_KEY'', ''OPENAI_BASE_URL''), (''anthropic'', ''ANTHROPIC_API_KEY'', ''ANTHROPIC_BASE_URL'')]"

definition build_model_env :: "resolved_route \<Rightarrow> (string \<times> string) list" where
  "build_model_env r =
     (let provider = or_str (rr_provider r) ''openai''; key = rr_api_key r in
      [(MODEL_ENV_PREFIX @ ''_PROVIDER'', provider), (MODEL_ENV_PREFIX @ ''_BASE_URL'', rr_base_url r),
       (MODEL_ENV_PREFIX @ ''_PATH'', rr_path r), (MODEL_ENV_PREFIX @ ''_MODEL'', rr_model r)]
      @ (if key \<noteq> [] then [(MODEL_ENV_PREFIX @ ''_API_KEY'', key)] else [])
      @ (case map_of PROVIDER_NAMES provider of
           None \<Rightarrow> []
         | Some (key_name, url_name) \<Rightarrow> (if key \<noteq> [] then [(key_name, key)] else []) @ [(url_name, rr_base_url r)]))"

definition resolve_model_env :: "resolved_route list \<Rightarrow> string option \<Rightarrow> run_error + (string \<times> string) list" where
  "resolve_model_env routes wanted = and_then (select_route routes wanted) (\<lambda>r. Inr (build_model_env r))"

definition secret_name :: "string \<Rightarrow> bool" where
  "secret_name name = list_ex (\<lambda>hint. occurs hint (py_upper name)) SECRET_HINTS"

definition masked :: "string \<Rightarrow> string" where
  "masked v = or_str (opt_str (mask_api_key v)) (replicate 4 BULLET)"

definition mask_env :: "(string \<times> string) list \<Rightarrow> (string \<times> string) list" where
  "mask_env env = map (\<lambda>(name, v). (name, if secret_name name \<and> v \<noteq> [] then masked v else v)) env"

definition secret_values :: "(string \<times> string) list \<Rightarrow> string list" where
  "secret_values env = map snd (filter (\<lambda>(name, v). v \<noteq> [] \<and> secret_name name) env)"

text \<open>\<open>s.replace(old, new)\<close> for a non-empty \<open>old\<close>.\<close>

function replace_text :: "string \<Rightarrow> string \<Rightarrow> string \<Rightarrow> string" where
  "replace_text old new s =
     (if s = [] then []
      else if old \<noteq> [] \<and> startswith s old then new @ replace_text old new (drop (length old) s)
      else hd s # replace_text old new (tl s))"
  by pat_completeness auto

termination
proof (relation "measure (\<lambda>(old, new, s). length s)")
  show "wf (measure (\<lambda>(old, new, s :: string). length s))" by simp
qed (auto simp: length_greater_0_conv)

declare replace_text.simps [simp del]

fun mask_secrets :: "string \<Rightarrow> string list \<Rightarrow> string" where
  "mask_secrets text [] = text"
| "mask_secrets text (secret # secrets) =
     mask_secrets (if secret \<noteq> [] then replace_text secret (masked secret) text else text) secrets"

fun scrub_payload :: "string list \<Rightarrow> json \<Rightarrow> json" where
  "scrub_payload secrets (JStr s) = JStr (mask_secrets s secrets)"
| "scrub_payload secrets (JObj kvs) = JObj (map (\<lambda>(k, v). (k, scrub_payload secrets v)) kvs)"
| "scrub_payload secrets (JList vs) = JList (map (scrub_payload secrets) vs)"
| "scrub_payload secrets v = v"

subsection \<open>The policy, as far as the runner reads it\<close>

definition normalize_pr_policy :: "string \<Rightarrow> string option" where
  "normalize_pr_policy v =
     (let name = py_lower (py_strip v) in if name = [] \<or> name \<notin> set PR_POLICIES then None else Some name)"

record policy_view =
  pv_source :: string
  pv_hash :: string
  pv_max_findings :: int
  pv_pr_policy :: string
  pv_auto_fix :: bool
  pv_checks :: "json list"

definition BUILTIN_POLICY_TEXT :: string where
  "BUILTIN_POLICY_TEXT = ''version: 1'' @ [CHR 0x0A] @ ''source: builtin-default'' @ [CHR 0x0A]"

definition DEFAULT_MAX_FINDINGS :: int where "DEFAULT_MAX_FINDINGS = 50"

definition plain_policy :: "string \<Rightarrow> string \<Rightarrow> policy_view" where
  "plain_policy source digest =
     \<lparr>pv_source = source, pv_hash = digest, pv_max_findings = DEFAULT_MAX_FINDINGS, pv_pr_policy = DEFAULT_PR_POLICY,
      pv_auto_fix = False, pv_checks = []\<rparr>"

definition builtin_default_policy :: "(string \<Rightarrow> string) \<Rightarrow> policy_view" where
  "builtin_default_policy sha256 = plain_policy ''builtin-default'' (sha256 BUILTIN_POLICY_TEXT)"

text \<open>The parser, if there is one, owns the missing file too; a parser that raises leaves the identity of the text.\<close>

definition load_policy :: "(string \<Rightarrow> string) \<Rightarrow> (string option \<Rightarrow> policy_view option) option \<Rightarrow> string option \<Rightarrow> policy_view" where
  "load_policy sha256 parser text =
     (case parser of
        Some parse \<Rightarrow> (case parse text of Some v \<Rightarrow> v | None \<Rightarrow> plain_policy ''repo-unparsed'' (sha256 (opt_str text)))
      | None \<Rightarrow>
          if py_strip (opt_str text) = [] then builtin_default_policy sha256 else plain_policy ''repo'' (sha256 (opt_str text)))"

subsection \<open>Deployment settings against the policy\<close>

record runner_config =
  rc_work_root :: string
  rc_max_findings :: int
  rc_pr_policy :: "string option"
  rc_auto_fix :: "bool option"
  rc_env :: "(string \<times> string) list"
  rc_secrets :: "string list"

text \<open>The constructor: an explicit argument, else the deployment's setting; what is not a known policy counts as unset.\<close>

definition pr_policy_override :: "string option \<Rightarrow> string \<Rightarrow> string option" where
  "pr_policy_override explicit setting =
     (case explicit of Some v \<Rightarrow> normalize_pr_policy v | None \<Rightarrow> normalize_pr_policy setting)"

definition effective_max_findings :: "runner_config \<Rightarrow> policy_view \<Rightarrow> int" where
  "effective_max_findings cfg p =
     (let budget = (if pv_max_findings p = 0 then rc_max_findings cfg else pv_max_findings p)
      in max 1 (min budget (rc_max_findings cfg)))"

definition effective_pr_policy :: "runner_config \<Rightarrow> policy_view \<Rightarrow> string" where
  "effective_pr_policy cfg p =
     (case rc_pr_policy cfg of
        Some v \<Rightarrow> v | None \<Rightarrow> (case normalize_pr_policy (pv_pr_policy p) of Some v \<Rightarrow> v | None \<Rightarrow> DEFAULT_PR_POLICY))"

definition effective_auto_fix :: "runner_config \<Rightarrow> policy_view \<Rightarrow> bool" where
  "effective_auto_fix cfg p = (case rc_auto_fix cfg of Some b \<Rightarrow> b | None \<Rightarrow> pv_auto_fix p)"

subsection \<open>Which branches pass\<close>

lemma startswith_Cons [simp]: "startswith (c # s) (d # p) \<longleftrightarrow> c = d \<and> startswith s p"
  by (auto simp: startswith_def)

lemma startswith_Nil [simp]: "startswith s []" "startswith [] p \<longleftrightarrow> p = []"
  by (auto simp: startswith_def)

text \<open>
  A branch that may be pushed lies in the agent's name space, is none of the protected branches, and consists of
  characters no command line and no ref syntax gives a meaning.
\<close>

theorem only_agent_branches_pass:
  "case assert_pushable branch of
     Inl e \<Rightarrow> is_runner_error e
   | Inr name \<Rightarrow> name = py_strip branch \<and> (\<exists>rest. name = ''agent/'' @ rest \<and> rest \<noteq> [] \<and> list_all branch_char rest)
       \<and> name \<notin> set PROTECTED_BRANCHES \<and> \<not> occurs ''..'' name \<and> \<not> startswith name ''-''"
proof (cases "assert_pushable branch")
  case (Inl e)
  then show ?thesis by (auto simp: assert_pushable_def Let_def split: if_splits)
next
  case (Inr name)
  then have name: "name = py_strip branch" "\<not> occurs ''..'' name" and shape: "branch_shape name"
    by (simp_all add: assert_pushable_def Let_def split: if_splits)
  then obtain rest where rest: "name = ''agent/'' @ rest" and chars: "rest \<noteq> []" "list_all branch_char rest"
    unfolding branch_shape_def Let_def AGENT_BRANCH_PREFIX_def by (metis append_eq_conv_conj startswithE)
  have "name \<notin> set PROTECTED_BRANCHES" using rest by (auto simp: PROTECTED_BRANCHES_def)
  moreover have "\<not> startswith name ''-''" using rest by simp
  ultimately show ?thesis unfolding Inr sum.case using name rest chars by blast
qed

end
