(* ===== verification/RunnerResult.thy ===== *)
theory RunnerResult
  imports RunnerBase
begin

section \<open>The result document\<close>

text \<open>
  The models \<open>RunMeta\<close>, \<open>Evidence\<close>, \<open>Finding\<close>, \<open>GateEntry\<close> and \<open>Result\<close> of \<open>services/agent_runner.py\<close>: strict
  validation of a JSON object (no conversion between types, a default for an absent field, unknown fields dropped) and
  \<open>model_dump\<close>. \<open>None\<close> is a validation error.
\<close>

subsection \<open>Strict fields\<close>

definition str_field :: "dict \<Rightarrow> string \<Rightarrow> string option \<Rightarrow> string option" where
  "str_field d k fallback =
     (case map_of d k of None \<Rightarrow> fallback | Some (JStr s) \<Rightarrow> Some s | Some _ \<Rightarrow> None)"

definition opt_str_field :: "dict \<Rightarrow> string \<Rightarrow> string option option" where
  "opt_str_field d k =
     (case map_of d k of None \<Rightarrow> Some None | Some JNull \<Rightarrow> Some None | Some (JStr s) \<Rightarrow> Some (Some s) | Some _ \<Rightarrow> None)"

definition opt_int_field :: "dict \<Rightarrow> string \<Rightarrow> int option option" where
  "opt_int_field d k =
     (case map_of d k of None \<Rightarrow> Some None | Some JNull \<Rightarrow> Some None | Some (JInt i) \<Rightarrow> Some (Some i) | Some _ \<Rightarrow> None)"

definition int_field :: "dict \<Rightarrow> string \<Rightarrow> int \<Rightarrow> int option" where
  "int_field d k fallback = (case map_of d k of None \<Rightarrow> Some fallback | Some (JInt i) \<Rightarrow> Some i | Some _ \<Rightarrow> None)"

definition bool_field :: "dict \<Rightarrow> string \<Rightarrow> bool option \<Rightarrow> bool option" where
  "bool_field d k fallback = (case map_of d k of None \<Rightarrow> fallback | Some (JBool b) \<Rightarrow> Some b | Some _ \<Rightarrow> None)"

definition literal_field :: "string list \<Rightarrow> dict \<Rightarrow> string \<Rightarrow> string option \<Rightarrow> string option" where
  "literal_field values d k fallback =
     Option.bind (str_field d k fallback) (\<lambda>s. if s \<in> set values then Some s else None)"

fun all_of :: "'a option list \<Rightarrow> 'a list option" where
  "all_of [] = Some []"
| "all_of (x # xs) = Option.bind x (\<lambda>v. Option.bind (all_of xs) (\<lambda>vs. Some (v # vs)))"

definition list_field :: "(json \<Rightarrow> 'a option) \<Rightarrow> dict \<Rightarrow> string \<Rightarrow> 'a list option \<Rightarrow> 'a list option" where
  "list_field parse d k fallback =
     (case map_of d k of None \<Rightarrow> fallback | Some (JList vs) \<Rightarrow> all_of (map parse vs) | Some _ \<Rightarrow> None)"

subsection \<open>The models\<close>

record run_meta =
  rm_commit :: string
  rm_policy_hash :: string
  rm_started :: string
  rm_finished :: "string option"
  rm_task :: "string option"
  rm_repo :: "string option"
  rm_policy_source :: string
  rm_mode :: string
  rm_suite_hash :: string
  rm_suite_source :: string
  rm_suite_state :: string
  rm_ai_suite_hash :: string
  rm_ai_suite_source :: string
  rm_ai_suite_state :: string
  rm_level :: string
  rm_label :: string

record run_evidence =
  ev_kind :: string
  ev_number :: "int option"
  ev_relation :: string
  ev_url :: "string option"
  ev_title :: "string option"

record run_finding =
  rf_rule :: string
  rf_level :: string
  rf_severity :: string
  rf_path :: string
  rf_symbol :: string
  rf_title :: string
  rf_detail :: string
  rf_line :: "int option"
  rf_context :: string
  rf_evidence :: "run_evidence list"
  rf_autofix :: bool

record gate_entry =
  ge_gate :: string
  ge_passed :: bool
  ge_status :: string
  ge_exit :: "int option"
  ge_tail :: string
  ge_ms :: int

record run_result =
  res_run :: run_meta
  res_findings :: "run_finding list"
  res_gates :: "gate_entry list"
  res_ai_gates :: "gate_entry list"
  res_curator :: "dict option"

definition parse_meta :: "json \<Rightarrow> run_meta option" where
  "parse_meta v =
     (case v of
        JObj d \<Rightarrow>
          Option.bind (str_field d ''commit_sha'' None) (\<lambda>commit.
          Option.bind (str_field d ''policy_hash'' None) (\<lambda>phash.
          Option.bind (str_field d ''started_at'' None) (\<lambda>started.
          Option.bind (opt_str_field d ''finished_at'') (\<lambda>finished.
          Option.bind (opt_str_field d ''task_id'') (\<lambda>task.
          Option.bind (opt_str_field d ''repo'') (\<lambda>repo.
          Option.bind (str_field d ''policy_source'' (Some ''repo'')) (\<lambda>psource.
          Option.bind (str_field d ''mode'' (Some ''review'')) (\<lambda>mode.
          Option.bind (str_field d ''suite_hash'' (Some [])) (\<lambda>shash.
          Option.bind (str_field d ''suite_source'' (Some [])) (\<lambda>ssource.
          Option.bind (str_field d ''suite_state'' (Some [])) (\<lambda>sstate.
          Option.bind (str_field d ''ai_suite_hash'' (Some [])) (\<lambda>ahash.
          Option.bind (str_field d ''ai_suite_source'' (Some [])) (\<lambda>asource.
          Option.bind (str_field d ''ai_suite_state'' (Some [])) (\<lambda>astate.
          Option.bind (str_field d ''assurance_level'' (Some [])) (\<lambda>level.
          Option.bind (str_field d ''assurance_label'' (Some [])) (\<lambda>label.
          Some \<lparr>rm_commit = commit, rm_policy_hash = phash, rm_started = started, rm_finished = finished, rm_task = task,
            rm_repo = repo, rm_policy_source = psource, rm_mode = mode, rm_suite_hash = shash, rm_suite_source = ssource,
            rm_suite_state = sstate, rm_ai_suite_hash = ahash, rm_ai_suite_source = asource, rm_ai_suite_state = astate,
            rm_level = level, rm_label = label\<rparr>))))))))))))))))
      | _ \<Rightarrow> None)"

definition parse_evidence :: "json \<Rightarrow> run_evidence option" where
  "parse_evidence v =
     (case v of
        JObj d \<Rightarrow>
          Option.bind (literal_field [''issue'', ''pr'', ''commit''] d ''kind'' (Some ''issue'')) (\<lambda>kind.
          Option.bind (opt_int_field d ''number'') (\<lambda>number.
          Option.bind (literal_field [''mentions'', ''duplicate_of'', ''fixed_by''] d ''relation'' (Some ''mentions'')) (\<lambda>relation.
          Option.bind (opt_str_field d ''url'') (\<lambda>url.
          Option.bind (opt_str_field d ''title'') (\<lambda>title.
          Some \<lparr>ev_kind = kind, ev_number = number, ev_relation = relation, ev_url = url, ev_title = title\<rparr>)))))
      | _ \<Rightarrow> None)"

definition parse_finding :: "json \<Rightarrow> run_finding option" where
  "parse_finding v =
     (case v of
        JObj d \<Rightarrow>
          Option.bind (str_field d ''rule_id'' None) (\<lambda>rule.
          Option.bind (literal_field [''blocking'', ''debt''] d ''level'' None) (\<lambda>level.
          Option.bind (literal_field [''critical'', ''high'', ''medium'', ''low''] d ''severity'' None) (\<lambda>severity.
          Option.bind (str_field d ''file_path'' None) (\<lambda>path.
          Option.bind (str_field d ''symbol'' None) (\<lambda>symbol.
          Option.bind (str_field d ''title'' None) (\<lambda>title.
          Option.bind (str_field d ''detail'' (Some [])) (\<lambda>detail.
          Option.bind (opt_int_field d ''line_hint'') (\<lambda>line.
          Option.bind (str_field d ''context_key'' (Some [])) (\<lambda>context.
          Option.bind (list_field parse_evidence d ''evidence'' (Some [])) (\<lambda>evidence.
          Option.bind (bool_field d ''autofix'' (Some False)) (\<lambda>autofix.
          Some \<lparr>rf_rule = rule, rf_level = level, rf_severity = severity, rf_path = path, rf_symbol = symbol, rf_title = title,
            rf_detail = detail, rf_line = line, rf_context = context, rf_evidence = evidence, rf_autofix = autofix\<rparr>)))))))))))
      | _ \<Rightarrow> None)"

definition parse_gate :: "json \<Rightarrow> gate_entry option" where
  "parse_gate v =
     (case v of
        JObj d \<Rightarrow>
          Option.bind (str_field d ''gate'' None) (\<lambda>gate.
          Option.bind (bool_field d ''passed'' None) (\<lambda>passed.
          Option.bind (str_field d ''status'' (Some ''passed'')) (\<lambda>status.
          Option.bind (opt_int_field d ''exit_code'') (\<lambda>exit.
          Option.bind (str_field d ''stdout_tail'' (Some [])) (\<lambda>tail.
          Option.bind (int_field d ''duration_ms'' 0) (\<lambda>ms.
          Some \<lparr>ge_gate = gate, ge_passed = passed, ge_status = status, ge_exit = exit, ge_tail = tail, ge_ms = ms\<rparr>))))))
      | _ \<Rightarrow> None)"

definition curator_field :: "dict \<Rightarrow> dict option option" where
  "curator_field d =
     (case map_of d ''curator'' of None \<Rightarrow> Some None | Some JNull \<Rightarrow> Some None | Some (JObj c) \<Rightarrow> Some (Some c) | Some _ \<Rightarrow> None)"

definition validate_result :: "json \<Rightarrow> run_result option" where
  "validate_result payload =
     (case payload of
        JObj d \<Rightarrow>
          Option.bind (Option.bind (map_of d ''run'') parse_meta) (\<lambda>run.
          Option.bind (list_field parse_finding d ''findings'' (Some [])) (\<lambda>findings.
          Option.bind (list_field parse_gate d ''gates'' None) (\<lambda>gates.
          Option.bind (list_field parse_gate d ''ai_gates'' (Some [])) (\<lambda>ai.
          Option.bind (curator_field d) (\<lambda>curator.
          Some \<lparr>res_run = run, res_findings = findings, res_gates = gates, res_ai_gates = ai, res_curator = curator\<rparr>)))))
      | _ \<Rightarrow> None)"

subsection \<open>The dump\<close>

definition opt_json :: "string option \<Rightarrow> json" where
  "opt_json s = (case s of None \<Rightarrow> JNull | Some t \<Rightarrow> JStr t)"

definition dump_meta :: "run_meta \<Rightarrow> json" where
  "dump_meta m = JObj
     [(''commit_sha'', JStr (rm_commit m)), (''policy_hash'', JStr (rm_policy_hash m)), (''started_at'', JStr (rm_started m)),
      (''finished_at'', opt_json (rm_finished m)), (''task_id'', opt_json (rm_task m)), (''repo'', opt_json (rm_repo m)),
      (''policy_source'', JStr (rm_policy_source m)), (''mode'', JStr (rm_mode m)), (''suite_hash'', JStr (rm_suite_hash m)),
      (''suite_source'', JStr (rm_suite_source m)), (''suite_state'', JStr (rm_suite_state m)),
      (''ai_suite_hash'', JStr (rm_ai_suite_hash m)), (''ai_suite_source'', JStr (rm_ai_suite_source m)),
      (''ai_suite_state'', JStr (rm_ai_suite_state m)), (''assurance_level'', JStr (rm_level m)),
      (''assurance_label'', JStr (rm_label m))]"

definition dump_evidence :: "run_evidence \<Rightarrow> json" where
  "dump_evidence e = JObj
     [(''kind'', JStr (ev_kind e)), (''number'', int_json (ev_number e)), (''relation'', JStr (ev_relation e)),
      (''url'', opt_json (ev_url e)), (''title'', opt_json (ev_title e))]"

definition dump_finding :: "run_finding \<Rightarrow> json" where
  "dump_finding f = JObj
     [(''rule_id'', JStr (rf_rule f)), (''level'', JStr (rf_level f)), (''severity'', JStr (rf_severity f)),
      (''file_path'', JStr (rf_path f)), (''symbol'', JStr (rf_symbol f)), (''title'', JStr (rf_title f)),
      (''detail'', JStr (rf_detail f)), (''line_hint'', int_json (rf_line f)), (''context_key'', JStr (rf_context f)),
      (''evidence'', JList (map dump_evidence (rf_evidence f))), (''autofix'', JBool (rf_autofix f))]"

definition dump_gate :: "gate_entry \<Rightarrow> json" where
  "dump_gate g = JObj
     [(''gate'', JStr (ge_gate g)), (''passed'', JBool (ge_passed g)), (''status'', JStr (ge_status g)),
      (''exit_code'', int_json (ge_exit g)), (''stdout_tail'', JStr (ge_tail g)), (''duration_ms'', JInt (ge_ms g))]"

definition dump_result :: "run_result \<Rightarrow> json" where
  "dump_result r = JObj
     [(''run'', dump_meta (res_run r)), (''findings'', JList (map dump_finding (res_findings r))),
      (''gates'', JList (map dump_gate (res_gates r))), (''ai_gates'', JList (map dump_gate (res_ai_gates r))),
      (''curator'', case res_curator r of None \<Rightarrow> JNull | Some c \<Rightarrow> JObj c)]"

definition gate_entry_of :: "gate_result \<Rightarrow> gate_entry" where
  "gate_entry_of g =
     \<lparr>ge_gate = gate g, ge_passed = passed g, ge_status = status g, ge_exit = Some (exit_code g), ge_tail = stdout_tail g,
      ge_ms = duration_ms g\<rparr>"

definition failed_gate_names :: "gate_entry list \<Rightarrow> string list" where
  "failed_gate_names entries = map ge_gate (filter (\<lambda>g. \<not> ge_passed g \<and> ge_status g \<noteq> UNVERIFIED) entries)"

subsection \<open>A dumped document validates\<close>

lemma all_of_map: "(\<And>x. x \<in> set xs \<Longrightarrow> parse (dump x) = Some x) \<Longrightarrow> all_of (map parse (map dump xs)) = Some xs"
  by (induction xs) auto

lemma all_of_Some: "all_of (map parse vs) = Some xs \<longleftrightarrow> list_all2 (\<lambda>v x. parse v = Some x) vs xs"
proof (induction vs arbitrary: xs)
  case (Cons v vs)
  then show ?case by (cases xs) (auto simp: Option.bind_eq_Some_conv)
qed auto

lemma fields_dumped [simp]:
  "opt_str_field [] k = Some None"
  "opt_str_field ((k, opt_json s) # d) k = Some s" "k' \<noteq> k \<Longrightarrow> opt_str_field ((k', v) # d) k = opt_str_field d k"
  "opt_int_field ((k, int_json n) # d) k = Some n" "k' \<noteq> k \<Longrightarrow> opt_int_field ((k', v) # d) k = opt_int_field d k"
  "str_field ((k, JStr t) # d) k df = Some t" "k' \<noteq> k \<Longrightarrow> str_field ((k', v) # d) k df = str_field d k df"
  "int_field ((k, JInt i) # d) k i0 = Some i" "k' \<noteq> k \<Longrightarrow> int_field ((k', v) # d) k i0 = int_field d k i0"
  "bool_field ((k, JBool b) # d) k b0 = Some b" "k' \<noteq> k \<Longrightarrow> bool_field ((k', v) # d) k b0 = bool_field d k b0"
  "literal_field vals ((k, JStr t) # d) k df = (if t \<in> set vals then Some t else None)"
  "k' \<noteq> k \<Longrightarrow> literal_field vals ((k', v) # d) k df = literal_field vals d k df"
  "list_field parse ((k, JList vs) # d) k l0 = all_of (map parse vs)" "k' \<noteq> k \<Longrightarrow> list_field parse ((k', v) # d) k l0 = list_field parse d k l0"
  by (auto simp: opt_str_field_def opt_int_field_def str_field_def int_field_def bool_field_def literal_field_def list_field_def
      opt_json_def int_json_def split: option.splits)

lemma parse_dump_meta: "parse_meta (dump_meta m) = Some m"
  by (simp add: parse_meta_def dump_meta_def)

lemma parse_dump_gate: "parse_gate (dump_gate g) = Some g"
  by (simp add: parse_gate_def dump_gate_def)

text \<open>What the literal types demand of a finding.\<close>

definition evidence_ok :: "run_evidence \<Rightarrow> bool" where
  "evidence_ok e \<longleftrightarrow> ev_kind e \<in> {''issue'', ''pr'', ''commit''} \<and> ev_relation e \<in> {''mentions'', ''duplicate_of'', ''fixed_by''}"

definition finding_ok :: "run_finding \<Rightarrow> bool" where
  "finding_ok f \<longleftrightarrow> rf_level f \<in> {''blocking'', ''debt''} \<and> rf_severity f \<in> {''critical'', ''high'', ''medium'', ''low''}
     \<and> list_all evidence_ok (rf_evidence f)"

lemma parse_dump_evidence: "evidence_ok e \<Longrightarrow> parse_evidence (dump_evidence e) = Some e"
  by (simp add: parse_evidence_def dump_evidence_def evidence_ok_def)

lemma parse_dump_finding: "finding_ok f \<Longrightarrow> parse_finding (dump_finding f) = Some f"
  unfolding parse_finding_def dump_finding_def finding_ok_def
  by (simp add: all_of_map [of "rf_evidence f" parse_evidence dump_evidence, simplified] parse_dump_evidence list_all_iff)

lemma literal_field_Some: "literal_field vals d k df = Some s \<Longrightarrow> s \<in> set vals"
  by (auto simp: literal_field_def Option.bind_eq_Some_conv split: if_splits)

lemma list_field_all:
  assumes "list_field parse d k (Some []) = Some xs" "\<And>v x. parse v = Some x \<Longrightarrow> P x"
  shows "list_all P xs"
proof -
  have "xs = [] \<or> (\<exists>vs. all_of (map parse vs) = Some xs)"
    using assms(1) by (auto simp: list_field_def split: option.splits json.splits)
  then show ?thesis using assms(2) by (auto simp: all_of_Some list_all_length list_all2_conv_all_nth)
qed

lemma parsed_evidence_ok: "parse_evidence v = Some e \<Longrightarrow> evidence_ok e"
  unfolding parse_evidence_def evidence_ok_def
  by (auto simp: Option.bind_eq_Some_conv dest!: literal_field_Some split: json.splits)

lemma parsed_finding_ok: "parse_finding v = Some f \<Longrightarrow> finding_ok f"
proof -
  assume "parse_finding v = Some f"
  then obtain d where "literal_field [''blocking'', ''debt''] d ''level'' None = Some (rf_level f)"
      "literal_field [''critical'', ''high'', ''medium'', ''low''] d ''severity'' None = Some (rf_severity f)"
      and ev: "list_field parse_evidence d ''evidence'' (Some []) = Some (rf_evidence f)"
    unfolding parse_finding_def by (cases v) (auto simp: Option.bind_eq_Some_conv)
  then have "rf_level f \<in> {''blocking'', ''debt''}" "rf_severity f \<in> {''critical'', ''high'', ''medium'', ''low''}"
    by (auto dest: literal_field_Some)
  moreover have "list_all evidence_ok (rf_evidence f)" by (rule list_field_all [OF ev]) (rule parsed_evidence_ok)
  ultimately show ?thesis by (simp add: finding_ok_def)
qed

lemma validated_findings_ok:
  assumes "validate_result v = Some r"
  shows "list_all finding_ok (res_findings r)"
proof -
  obtain d where "list_field parse_finding d ''findings'' (Some []) = Some (res_findings r)"
    using assms unfolding validate_result_def by (cases v) (auto simp: Option.bind_eq_Some_conv)
  then show ?thesis by (rule list_field_all) (auto intro: parsed_finding_ok)
qed

lemma validate_dump: "list_all finding_ok (res_findings r) \<Longrightarrow> validate_result (dump_result r) = Some r"
  unfolding validate_result_def dump_result_def
  by (simp add: parse_dump_meta all_of_map [of _ parse_finding dump_finding, simplified] list_all_iff parse_dump_finding
      all_of_map [of _ parse_gate dump_gate, simplified] parse_dump_gate curator_field_def split: option.split)

text \<open>
  Validation is strict and stable: what it accepts names its rules and levels from the closed vocabularies, and the dump of an
  accepted document is accepted again as the same document.
\<close>

theorem result_round_trip:
  "case validate_result payload of
     None \<Rightarrow> True | Some r \<Rightarrow> list_all finding_ok (res_findings r) \<and> validate_result (dump_result r) = Some r"
  by (cases "validate_result payload") (simp_all add: validated_findings_ok validate_dump)

end
