(* ===== verification/Runner.thy ===== *)
theory Runner
  imports RunnerResult
begin

section \<open>The life of one task\<close>

text \<open>
  \<open>AgentRunner.run\<close> of \<open>services/agent_runner.py\<close> in full. Everything outside the module, the adapter (git, the model, the
  checks), the task sink, the publish guard and the file system, is a record of functions on an abstract world \<open>'w\<close>, each of
  which may raise. The runner's own state is what \<open>run\<close> keeps in local variables that outlive an exception (the steps and the
  frozen suite), and a trace of the calls it made, the latest first, each with whether it returned or with what.
\<close>

subsection \<open>What the runner is given\<close>

record task_request =
  tr_id :: string
  tr_url :: string
  tr_commit :: string
  tr_kind :: string
  tr_base :: string
  tr_branch :: "string option"
  tr_repo :: "string option"
  tr_attempt :: nat

record read_context =
  rx_agents :: "string option"
  rx_policy :: "string option"

text \<open>The text of a pull request, by what it is made of: a curator's proposal, or the findings with the two suites.\<close>

datatype pr_text =
    Proposal int int dict string
  | FixText run_result assurance gate_summary gate_summary check_suite check_suite

text \<open>What may raise, on a state.\<close>

type_synonym ('s, 'a) op = "'s \<Rightarrow> (run_error + 'a) \<times> 's"

record 'w host =
  set_model_env :: "(string \<times> string) list \<Rightarrow> ('w, unit) op"
  prepare :: "string \<Rightarrow> ('w, unit) op"
  clone :: "string \<Rightarrow> string \<Rightarrow> string \<Rightarrow> ('w, unit) op"
  hand_over :: "string \<Rightarrow> ('w, unit) op"
  read_files :: "string \<Rightarrow> ('w, read_context) op"
  agent_checks_of :: "string \<Rightarrow> 'w \<Rightarrow> check_suite option"
  discovered_of :: "string \<Rightarrow> 'w \<Rightarrow> check_suite"
  file_of :: "string \<Rightarrow> 'w \<Rightarrow> string \<Rightarrow> bool"
  run_gates :: "string \<Rightarrow> timestamp \<Rightarrow> check_suite \<Rightarrow> ('w, gate_summary) op"
  ai_gates_method :: "(string \<Rightarrow> timestamp \<Rightarrow> check_suite \<Rightarrow> ('w, gate_summary) op) option"
  review :: "string \<Rightarrow> policy_view \<Rightarrow> task_request \<Rightarrow> read_context \<Rightarrow> ('w, dict list) op"
  curate_method :: "(string \<Rightarrow> timestamp \<Rightarrow> ('w, dict option) op) option"
  search :: "string \<Rightarrow> dict \<Rightarrow> task_request \<Rightarrow> read_context \<Rightarrow> ('w, dict) op"
  changed_method :: "(string \<Rightarrow> ('w, string list) op) option"
  protect_suite_method :: "(string \<Rightarrow> bool \<Rightarrow> ('w, unit) op) option"
  protect_paths_method :: "(string \<Rightarrow> string list \<Rightarrow> bool \<Rightarrow> ('w, unit) op) option"
  emit :: "string \<Rightarrow> dict \<Rightarrow> ('w, string) op"
  commit_op :: "string \<Rightarrow> string \<Rightarrow> string \<Rightarrow> run_result \<Rightarrow> ('w, unit) op"
  push_op :: "string \<Rightarrow> string \<Rightarrow> string \<Rightarrow> string \<Rightarrow> ('w, unit) op"
  open_pr :: "string \<Rightarrow> string \<Rightarrow> string \<Rightarrow> pr_text \<Rightarrow> ('w, string option) op"
  publish_guard :: "('w, unit) op option"
  mark_running :: "string \<Rightarrow> ('w, unit) op"
  mark_failed :: "string \<Rightarrow> run_error \<Rightarrow> ('w, unit) op"
  record_findings :: "string \<Rightarrow> run_result \<Rightarrow> ('w, unit) op"
  mark_done :: "string \<Rightarrow> string \<Rightarrow> string option \<Rightarrow> ('w, unit) op"
  mark_finished :: "string \<Rightarrow> ('w, unit) op"
  clock :: "'w \<Rightarrow> string"

text \<open>The standard library and the policy parser, as far as a run calls them.\<close>

record runner_lib =
  lib_sha256 :: "string \<Rightarrow> string"
  lib_repr :: "normalized_check list \<Rightarrow> string"
  lib_utf8 :: "string \<Rightarrow> string"
  lib_str :: "json \<Rightarrow> string"
  lib_float :: "json \<Rightarrow> timestamp option"
  lib_int :: "json \<Rightarrow> int option"
  lib_parser :: "(string option \<Rightarrow> policy_view option) option"
  lib_timeout :: timestamp

record outcome =
  oc_status :: string
  oc_steps :: "string list"
  oc_run :: "json option"
  oc_findings :: "json list"
  oc_gates :: "json list"
  oc_ai_gates :: "json list"
  oc_curator :: "dict option"
  oc_ref :: "string option"
  oc_url :: "string option"
  oc_error :: "run_error option"

subsection \<open>The trace, and actions that keep it\<close>

datatype event =
    EnvSet "(string \<times> string) list" bool
  | Running bool | Prepared bool | Cloned bool | HandedOver bool | ContextRead "read_context option"
  | Froze check_suite check_suite
  | LockedSuite bool bool | LockedPaths "string list" bool bool
  | Gated check_suite "gate_summary option" | AiGated check_suite "gate_summary option"
  | Reviewed bool | Curated bool | Searched bool
  | Changed "string list option" | Committed string bool
  | Emitted dict bool | Recorded bool | LeaseAsked bool | Pushed string bool | Proposed string bool
  | DoneMarked bool | FailedMarked run_error bool | Finished bool

record 'w run_state =
  world :: 'w
  trace :: "event list"
  steps :: "string list"
  frozen_user :: "check_suite option"

type_synonym ('w, 'a) act = "('w run_state, 'a) op"

definition give :: "'a \<Rightarrow> ('s, 'a) op" where "give x s = (Inr x, s)"

definition raised :: "run_error \<Rightarrow> ('s, 'a) op" where "raised e s = (Inl e, s)"

definition checked :: "run_error + 'a \<Rightarrow> ('s, 'a) op" where "checked r s = (r, s)"

definition andthen :: "('s, 'a) op \<Rightarrow> ('a \<Rightarrow> ('s, 'b) op) \<Rightarrow> ('s, 'b) op" where
  "andthen m f s = (case m s of (Inl e, s') \<Rightarrow> (Inl e, s') | (Inr x, s') \<Rightarrow> f x s')"

text \<open>\<open>try: m except Exception: ...\<close>.\<close>

definition handling :: "('s, 'a) op \<Rightarrow> (run_error \<Rightarrow> ('s, 'a) op) \<Rightarrow> ('s, 'a) op" where
  "handling m h s = (case m s of (Inl e, s') \<Rightarrow> h e s' | (Inr x, s') \<Rightarrow> (Inr x, s'))"

definition observe :: "('w \<Rightarrow> 'a) \<Rightarrow> ('w, 'a) act" where "observe f s = (Inr (f (world s)), s)"

definition call :: "((run_error + 'a) \<Rightarrow> event) \<Rightarrow> ('w, 'a) op \<Rightarrow> ('w, 'a) act" where
  "call mk f s = (case f (world s) of (r, w) \<Rightarrow> (r, s\<lparr>world := w, trace := mk r # trace s\<rparr>))"

definition logged :: "event \<Rightarrow> ('w, unit) act" where
  "logged e s = (Inr (), s\<lparr>trace := e # trace s\<rparr>)"

definition step :: "string \<Rightarrow> ('w, unit) act" where
  "step name s = (Inr (), s\<lparr>steps := steps s @ [name]\<rparr>)"

text \<open>\<open>try: m except OSError: pass\<close> and \<open>try: m finally: c\<close>.\<close>

definition best_effort :: "('w, unit) act \<Rightarrow> ('w, unit) act" where
  "best_effort m s = (case m s of (Inl (OsError e), s') \<Rightarrow> (Inr (), s') | (r, s') \<Rightarrow> (r, s'))"

definition always_then :: "('w, 'a) act \<Rightarrow> ('w, unit) act \<Rightarrow> ('w, 'a) act" where
  "always_then m c s = (case m s of (r, s') \<Rightarrow> (case c s' of (Inl e, s'') \<Rightarrow> (Inl e, s'') | (Inr u, s'') \<Rightarrow> (r, s'')))"

definition returned :: "run_error + 'a \<Rightarrow> bool" where "returned r = (case r of Inl e \<Rightarrow> False | Inr x \<Rightarrow> True)"

definition got :: "run_error + 'a \<Rightarrow> 'a option" where "got r = (case r of Inl e \<Rightarrow> None | Inr x \<Rightarrow> Some x)"


subsection \<open>The adapter's optional methods\<close>

definition ai_gates_of :: "runner_lib \<Rightarrow> 'w host \<Rightarrow> string \<Rightarrow> check_suite \<Rightarrow> ('w, gate_summary) act" where
  "ai_gates_of lib h wd suite =
     (case ai_gates_method h of
        None \<Rightarrow> andthen (logged (AiGated suite (Some (unverified_summary [] SOURCE_AGENT_CHECKS))))
                  (\<lambda>_. give (unverified_summary [] SOURCE_AGENT_CHECKS))
      | Some f \<Rightarrow> call (\<lambda>r. AiGated suite (got r)) (f wd (lib_timeout lib) suite))"

definition gates_of :: "runner_lib \<Rightarrow> 'w host \<Rightarrow> string \<Rightarrow> check_suite \<Rightarrow> ('w, gate_summary) act" where
  "gates_of lib h wd suite = call (\<lambda>r. Gated suite (got r)) (run_gates h wd (lib_timeout lib) suite)"

definition curate :: "runner_lib \<Rightarrow> 'w host \<Rightarrow> string \<Rightarrow> ('w, dict option) act" where
  "curate lib h wd =
     (case curate_method h of None \<Rightarrow> give None | Some f \<Rightarrow> call (\<lambda>r. Curated (returned r)) (f wd (lib_timeout lib)))"

definition protect_suite :: "'w host \<Rightarrow> string \<Rightarrow> bool \<Rightarrow> ('w, unit) act" where
  "protect_suite h wd readonly =
     (case protect_suite_method h of
        None \<Rightarrow> give ()
      | Some f \<Rightarrow> best_effort (call (\<lambda>r. LockedSuite readonly (returned r)) (f wd readonly)))"

definition protect_paths :: "'w host \<Rightarrow> string \<Rightarrow> string list \<Rightarrow> bool \<Rightarrow> ('w, unit) act" where
  "protect_paths h wd paths readonly =
     (case protect_paths_method h of
        None \<Rightarrow> give ()
      | Some f \<Rightarrow> if paths = [] then give ()
          else best_effort (call (\<lambda>r. LockedPaths paths readonly (returned r)) (f wd paths readonly)))"

definition adapter_changed_paths :: "'w host \<Rightarrow> string \<Rightarrow> ('w, string list) act" where
  "adapter_changed_paths h wd =
     (case changed_method h of
        None \<Rightarrow> raised NoChangedPaths | Some f \<Rightarrow> call (\<lambda>r. Changed (got r)) (f wd))"

text \<open>The paths a run may not have written, by its role.\<close>

definition violations_of :: "string \<Rightarrow> bool \<Rightarrow> check_suite \<Rightarrow> string list \<Rightarrow> string list" where
  "violations_of kind escalate suite changed =
     (if kind = ''checks'' then curator_guard_violations changed
      else if kind = ''fix'' \<or> escalate then fix_guard_violations changed (Some suite)
      else [])"

definition guard_task_paths :: "'w host \<Rightarrow> string \<Rightarrow> string \<Rightarrow> bool \<Rightarrow> check_suite \<Rightarrow> ('w, unit) act" where
  "guard_task_paths h wd kind escalate suite =
     andthen (adapter_changed_paths h wd) (\<lambda>changed.
       (let violations = violations_of kind escalate suite changed
        in if violations = [] then give ()
           else raised (if kind = ''checks'' then CuratorWroteSource violations else FixTouchedSuite violations)))"

text \<open>\<open>_publish\<close>: a guard that breaks in any other way than by refusing refuses too.\<close>

definition publish :: "'w host \<Rightarrow> string \<Rightarrow> ('w, unit) act" where
  "publish h branch =
     (case publish_guard h of
        None \<Rightarrow> give ()
      | Some f \<Rightarrow> handling (call (\<lambda>r. LeaseAsked (returned r)) f)
          (\<lambda>e. raised (if is_runner_error e then e else LeaseUnknown branch)))"

subsection \<open>The steps of a run\<close>

text \<open>Up to the frozen suites: the policy, the context, the user suite and the AI suite.\<close>

definition open_task :: "runner_lib \<Rightarrow> 'w host \<Rightarrow> task_request \<Rightarrow> string
    \<Rightarrow> ('w, read_context \<times> policy_view \<times> frozen_suite \<times> frozen_suite) act" where
  "open_task lib h task wd =
     andthen (call (\<lambda>r. Running (returned r)) (mark_running h (tr_id task))) (\<lambda>_.
     andthen (call (\<lambda>r. Prepared (returned r)) (prepare h wd)) (\<lambda>_.
     andthen (step ''clone'') (\<lambda>_.
     andthen (call (\<lambda>r. Cloned (returned r)) (clone h wd (tr_url task) (tr_commit task))) (\<lambda>_.
     andthen (call (\<lambda>r. HandedOver (returned r)) (hand_over h wd)) (\<lambda>_.
     andthen (step ''read'') (\<lambda>_.
     andthen (call (\<lambda>r. ContextRead (got r)) (read_files h wd)) (\<lambda>context.
     (let policy = load_policy (lib_sha256 lib) (lib_parser lib) (rx_policy context) in
     andthen (observe (\<lambda>w. resolve_suites (agent_checks_of h wd w)
         (policy_checks (lib_str lib) (lib_float lib) (pv_checks policy)) (discovered_of h wd w))) (\<lambda>pairs.
     (case pairs of
        None \<Rightarrow> raised (Unexpected ''suite'')
      | Some pair \<Rightarrow>
         (let user = freeze_suite (lib_sha256 lib) (lib_repr lib) (user_suite pair) (Some (tr_commit task));
              ai = freeze_suite (lib_sha256 lib) (lib_repr lib) (ai_suite pair) (Some (tr_commit task)) in
         andthen (logged (Froze (frozen user) (frozen ai))) (\<lambda>_.
         andthen (\<lambda>s. (Inr (), s\<lparr>frozen_user := Some (frozen user)\<rparr>)) (\<lambda>_.
         andthen (if tr_kind task = ''fix''
                  then andthen (protect_suite h wd True) (\<lambda>_.
                       andthen (observe (\<lambda>w. suite_protected_paths (Some (file_of h wd w)) (frozen user))) (\<lambda>paths.
                       protect_paths h wd paths True))
                  else give ()) (\<lambda>_.
         give (context, policy, user, ai)))))))))))))))"

text \<open>The summaries of both suites on the base commit.\<close>

definition judge :: "runner_lib \<Rightarrow> 'w host \<Rightarrow> string \<Rightarrow> check_suite \<Rightarrow> check_suite \<Rightarrow> ('w, gate_summary \<times> gate_summary) act" where
  "judge lib h wd user ai =
     andthen (gates_of lib h wd user) (\<lambda>summary.
     andthen (ai_gates_of lib h wd ai) (\<lambda>ai_summary.
     give (summary, ai_summary)))"

primrec search_all :: "'w host \<Rightarrow> string \<Rightarrow> task_request \<Rightarrow> read_context \<Rightarrow> dict list \<Rightarrow> ('w, dict list) act" where
  "search_all h wd task context [] = give []"
| "search_all h wd task context (f # fs) =
     andthen (call (\<lambda>r. Searched (returned r)) (search h wd f task context)) (\<lambda>enriched.
     andthen (search_all h wd task context fs) (\<lambda>rest. give (enriched # rest)))"

text \<open>What the review found, within the budget, with its evidence; and the curator's report.\<close>

definition examine :: "runner_lib \<Rightarrow> runner_config \<Rightarrow> 'w host \<Rightarrow> task_request \<Rightarrow> string \<Rightarrow> read_context \<Rightarrow> policy_view
    \<Rightarrow> ('w, dict list \<times> dict option) act" where
  "examine lib cfg h task wd context policy =
     andthen (step ''review'') (\<lambda>_.
     andthen (call (\<lambda>r. Reviewed (returned r)) (review h wd policy task context)) (\<lambda>all.
     andthen (if tr_kind task = ''checks'' then curate lib h wd else give None) (\<lambda>report.
     andthen (step ''search'') (\<lambda>_.
     andthen (search_all h wd task context (take (nat (effective_max_findings cfg policy)) all)) (\<lambda>enriched.
     give (enriched, report))))))"

definition summary_state :: "gate_summary \<Rightarrow> string" where
  "summary_state s = or_str (state s) ''passed''"

definition entries_of :: "gate_summary \<Rightarrow> gate_entry list" where
  "entries_of s = map gate_entry_of (gates s)"


subsection \<open>The document\<close>

definition set_key :: "string \<Rightarrow> json \<Rightarrow> dict \<Rightarrow> dict" where
  "set_key k v d =
     (if k \<in> fst ` set d then map (\<lambda>(a, b). if a = k then (a, v) else (a, b)) d else d @ [(k, v)])"

text \<open>\<open>document["run"][k] = v\<close>.\<close>

definition set_run :: "string \<Rightarrow> json \<Rightarrow> dict \<Rightarrow> dict" where
  "set_run k v d = set_key ''run'' (case jget d ''run'' of JObj r \<Rightarrow> JObj (set_key k v r) | u \<Rightarrow> u) d"

definition document_of :: "run_result \<Rightarrow> dict" where
  "document_of r = (case dump_result r of JObj d \<Rightarrow> d | _ \<Rightarrow> [])"

definition validated :: "json \<Rightarrow> run_error + run_result" where
  "validated v = (case validate_result v of None \<Rightarrow> Inl BadResult | Some r \<Rightarrow> Inr r)"

definition list_items :: "json \<Rightarrow> json list" where
  "list_items v = (case v of JList vs \<Rightarrow> vs | _ \<Rightarrow> [])"

text \<open>\<open>assess_assurance\<close> as the runner calls it: no verdicts, no history, the criteria of L3 switched off.\<close>

definition assurance_of :: "gate_summary \<Rightarrow> gate_summary \<Rightarrow> assurance" where
  "assurance_of user ai = assess_assurance (Some user) (Some ai) False DEFAULT_L3_CRITERIA"

definition set_assurance :: "assurance \<Rightarrow> dict \<Rightarrow> dict" where
  "set_assurance a d =
     set_run ''assurance_label'' (JStr (a_label a)) (set_run ''assurance_level'' (JStr (a_level a)) d)"

text \<open>What \<open>run\<close> holds in local variables once both suites have run and the review has ended.\<close>

record findings_so_far =
  sf_policy :: policy_view
  sf_user :: frozen_suite
  sf_ai :: frozen_suite
  sf_summary :: gate_summary
  sf_ai_summary :: gate_summary
  sf_enriched :: "dict list"
  sf_report :: "dict option"

definition payload_of :: "task_request \<Rightarrow> findings_so_far \<Rightarrow> string \<Rightarrow> string \<Rightarrow> json" where
  "payload_of task f started finished = JObj
     [(''run'', JObj
        [(''commit_sha'', JStr (tr_commit task)), (''policy_hash'', JStr (pv_hash (sf_policy f))),
         (''policy_source'', JStr (pv_source (sf_policy f))), (''mode'', JStr (tr_kind task)), (''task_id'', JStr (tr_id task)),
         (''repo'', opt_json (tr_repo task)), (''started_at'', JStr started), (''finished_at'', JStr finished),
         (''suite_hash'', JStr (fingerprint_of (sf_user f))), (''suite_source'', JStr (source_of (frozen (sf_user f)))),
         (''suite_state'', JStr (summary_state (sf_summary f))), (''ai_suite_hash'', JStr (fingerprint_of (sf_ai f))),
         (''ai_suite_source'', JStr (source_of (frozen (sf_ai f)))), (''ai_suite_state'', JStr (summary_state (sf_ai_summary f)))]),
      (''findings'', JList (map JObj (sf_enriched f))),
      (''gates'', JList (map dump_gate (entries_of (sf_summary f)))),
      (''ai_gates'', JList (map dump_gate (entries_of (sf_ai_summary f)))),
      (''curator'', case sf_report f of None \<Rightarrow> JNull | Some r \<Rightarrow> JObj r)]"

subsection \<open>Writing to the repository\<close>

definition task_branch :: "task_request \<Rightarrow> string" where
  "task_branch task =
     or_str (opt_str (tr_branch task))
       (AGENT_BRANCH_PREFIX @ (if tr_kind task = ''checks'' then ''checks'' else ''fix'') @ ''-'' @ tr_id task)"

text \<open>The frozen suites once more, on the commit with the fix; the document takes their results over.\<close>

definition rejudge :: "runner_lib \<Rightarrow> 'w host \<Rightarrow> string \<Rightarrow> findings_so_far \<Rightarrow> dict
    \<Rightarrow> ('w, assurance \<times> gate_summary \<times> gate_summary \<times> dict \<times> run_result) act" where
  "rejudge lib h wd f document =
     andthen (judge lib h wd (frozen (sf_user f)) (frozen (sf_ai f))) (\<lambda>(fresh, fresh_ai).
     (let level = assurance_of fresh fresh_ai;
          d = set_assurance level
            (set_run ''ai_suite_state'' (JStr (summary_state fresh_ai))
              (set_run ''suite_state'' (JStr (summary_state fresh))
                (set_key ''ai_gates'' (JList (map dump_gate (entries_of fresh_ai)))
                  (set_key ''gates'' (JList (map dump_gate (entries_of fresh))) document))))
      in andthen (checked (validated (JObj d))) (\<lambda>result. give (level, fresh, fresh_ai, d, result))))"

definition report_count :: "runner_lib \<Rightarrow> dict \<Rightarrow> string \<Rightarrow> run_error + int" where
  "report_count lib report k =
     (if truthy (jget report k)
      then (case lib_int lib (jget report k) of None \<Rightarrow> Inl (Unexpected k) | Some n \<Rightarrow> Inr n) else Inr 0)"

definition pull_request_text :: "runner_lib \<Rightarrow> task_request \<Rightarrow> findings_so_far \<Rightarrow> run_result \<Rightarrow> assurance \<Rightarrow> gate_summary
    \<Rightarrow> gate_summary \<Rightarrow> run_error + pr_text" where
  "pull_request_text lib task f result level user ai =
     (case (tr_kind task = ''checks'', sf_report f) of
        (True, Some report) \<Rightarrow>
          and_then (report_count lib report ''total'') (\<lambda>count.
          and_then (report_count lib report ''validated'') (\<lambda>proven. Inr (Proposal count proven report (tr_commit task))))
      | _ \<Rightarrow> Inr (FixText result level user ai (frozen (sf_user f)) (frozen (sf_ai f))))"

text \<open>The result is on record before the first effect the outside sees.\<close>

definition record_result :: "'w host \<Rightarrow> task_request \<Rightarrow> string \<Rightarrow> dict \<Rightarrow> run_result \<Rightarrow> ('w, string) act" where
  "record_result h task wd document result =
     andthen (call (\<lambda>r. Emitted document (returned r)) (emit h wd document)) (\<lambda>ref.
     andthen (call (\<lambda>r. Recorded (returned r)) (record_findings h (tr_id task) result)) (\<lambda>_. give ref))"

definition publish_branch :: "runner_lib \<Rightarrow> 'w host \<Rightarrow> task_request \<Rightarrow> string \<Rightarrow> string \<Rightarrow> findings_so_far \<Rightarrow> run_result
    \<Rightarrow> assurance \<Rightarrow> gate_summary \<Rightarrow> gate_summary \<Rightarrow> ('w, string option) act" where
  "publish_branch lib h task wd branch f result level user ai =
     andthen (publish h branch) (\<lambda>_.
     andthen (call (\<lambda>r. Pushed branch (returned r)) (push_op h wd branch (tr_commit task) (tr_url task))) (\<lambda>_.
     andthen (publish h branch) (\<lambda>_.
     andthen (checked (pull_request_text lib task f result level user ai)) (\<lambda>content.
     call (\<lambda>r. Proposed branch (returned r)) (open_pr h wd branch (tr_base task) content)))))"

text \<open>An outcome ends the run early; otherwise the document as it now stands and, if it was published, where.\<close>

type_synonym written = "outcome + dict \<times> run_result \<times> (string \<times> string option) option"

definition withhold :: "'w host \<Rightarrow> task_request \<Rightarrow> run_error \<Rightarrow> dict \<Rightarrow> ('w, written) act" where
  "withhold h task reason document =
     andthen (call (\<lambda>r. FailedMarked reason (returned r)) (mark_failed h (tr_id task) reason)) (\<lambda>_.
     (\<lambda>s. (Inr (Inl
        \<lparr>oc_status = ''failed'', oc_steps = steps s, oc_run = Some (jget document ''run''),
         oc_findings = list_items (jget document ''findings''), oc_gates = list_items (jget document ''gates''),
         oc_ai_gates = [], oc_curator = None, oc_ref = None, oc_url = None, oc_error = Some reason\<rparr>), s)))"

definition record_and_publish :: "runner_lib \<Rightarrow> 'w host \<Rightarrow> task_request \<Rightarrow> string \<Rightarrow> string \<Rightarrow> findings_so_far \<Rightarrow> dict
    \<Rightarrow> run_result \<Rightarrow> assurance \<Rightarrow> gate_summary \<Rightarrow> gate_summary \<Rightarrow> ('w, written) act" where
  "record_and_publish lib h task wd branch f document result level user ai =
     andthen (record_result h task wd document result) (\<lambda>ref.
     andthen (publish_branch lib h task wd branch f result level user ai) (\<lambda>url.
     give (Inr (document, result, Some (ref, url)))))"

definition write_source :: "runner_lib \<Rightarrow> runner_config \<Rightarrow> 'w host \<Rightarrow> task_request \<Rightarrow> string \<Rightarrow> bool \<Rightarrow> findings_so_far
    \<Rightarrow> assurance \<Rightarrow> dict \<Rightarrow> run_result \<Rightarrow> ('w, written) act" where
  "write_source lib cfg h task wd escalate f level document result =
     andthen (checked (assert_pushable (task_branch task))) (\<lambda>branch.
     andthen (guard_task_paths h wd (tr_kind task) escalate (frozen (sf_user f))) (\<lambda>_.
     (let pr_policy = effective_pr_policy cfg (sf_policy f) in
      if pr_policy = PR_POLICY_NEVER then give (Inr (document, result, None))
      else
        andthen (call (\<lambda>r. Committed branch (returned r)) (commit_op h wd branch (tr_commit task) result)) (\<lambda>_.
        if pr_policy = PR_POLICY_ON_GREEN \<and> tr_kind task \<noteq> ''checks''
        then andthen (rejudge lib h wd f document) (\<lambda>(fresh_level, fresh, fresh_ai, d, fresh_result).
             if \<not> may_open_pr fresh_level
             then withhold h task (Withheld (a_level fresh_level) (failed_gate_names (entries_of fresh))) d
             else record_and_publish lib h task wd branch f d fresh_result fresh_level fresh fresh_ai)
        else record_and_publish lib h task wd branch f document result level (sf_summary f) (sf_ai_summary f)))))"

definition conclude :: "'w host \<Rightarrow> task_request \<Rightarrow> string \<Rightarrow> written \<Rightarrow> ('w, outcome) act" where
  "conclude h task wd written =
     (case written of
        Inl early \<Rightarrow> give early
      | Inr (document, result, published) \<Rightarrow>
          andthen (case published of
                     Some refs \<Rightarrow> give refs
                   | None \<Rightarrow> andthen (record_result h task wd document result) (\<lambda>ref. give (ref, None))) (\<lambda>(ref, url).
          andthen (call (\<lambda>r. DoneMarked (returned r)) (mark_done h (tr_id task) ref url)) (\<lambda>_.
          (\<lambda>s. (Inr
            \<lparr>oc_status = ''done'', oc_steps = steps s, oc_run = Some (jget document ''run''),
             oc_findings = list_items (jget document ''findings''), oc_gates = list_items (jget document ''gates''),
             oc_ai_gates = list_items (jget document ''ai_gates''),
             oc_curator = (case jget document ''curator'' of JObj c \<Rightarrow> Some c | _ \<Rightarrow> None),
             oc_ref = Some ref, oc_url = url, oc_error = None\<rparr>, s)))))"


text \<open>From the payload to the outcome: an invalid document fails the task; only a role that writes source goes on to write.\<close>

definition deliver :: "runner_lib \<Rightarrow> runner_config \<Rightarrow> 'w host \<Rightarrow> task_request \<Rightarrow> string \<Rightarrow> string \<Rightarrow> findings_so_far
    \<Rightarrow> ('w, outcome) act" where
  "deliver lib cfg h task wd started f =
     andthen (step ''emit'') (\<lambda>_.
     andthen (observe (clock h)) (\<lambda>finished.
     (case validate_result (scrub_payload (rc_secrets cfg) (payload_of task f started finished)) of
        None \<Rightarrow>
          andthen (call (\<lambda>r. FailedMarked BadResult (returned r)) (mark_failed h (tr_id task) BadResult)) (\<lambda>_.
          (\<lambda>s. (Inr
            \<lparr>oc_status = ''failed'', oc_steps = steps s, oc_run = None, oc_findings = [],
             oc_gates = map dump_gate (entries_of (sf_summary f)), oc_ai_gates = [], oc_curator = None, oc_ref = None,
             oc_url = None, oc_error = Some BadResult\<rparr>, s)))
      | Some r \<Rightarrow>
          (let escalate = tr_kind task = ''review'' \<and> effective_auto_fix cfg (sf_policy f)
                 \<and> failed_gate_names (entries_of (sf_summary f)) \<noteq> [];
               writes_source = (tr_kind task \<in> {''fix'', ''checks''} \<or> escalate);
               level = assurance_of (sf_summary f) (sf_ai_summary f);
               document = set_assurance level (document_of r)
           in andthen (checked (validated (JObj document))) (\<lambda>result.
              andthen (if writes_source then write_source lib cfg h task wd escalate f level document result
                       else give (Inr (document, result, None))) (\<lambda>written.
              conclude h task wd written))))))"

definition body :: "runner_lib \<Rightarrow> runner_config \<Rightarrow> 'w host \<Rightarrow> task_request \<Rightarrow> string \<Rightarrow> string \<Rightarrow> ('w, outcome) act" where
  "body lib cfg h task wd started =
     andthen (open_task lib h task wd) (\<lambda>(context, policy, user, ai).
     andthen (step ''gates'') (\<lambda>_.
     andthen (judge lib h wd (frozen user) (frozen ai)) (\<lambda>(summary, ai_summary).
     andthen (examine lib cfg h task wd context policy) (\<lambda>(enriched, report).
     deliver lib cfg h task wd started
       \<lparr>sf_policy = policy, sf_user = user, sf_ai = ai, sf_summary = summary, sf_ai_summary = ai_summary,
        sf_enriched = enriched, sf_report = report\<rparr>))))"

text \<open>The two handlers: an error of the runner's own is reported as it is, any other one with the secrets masked.\<close>

definition reported :: "string list \<Rightarrow> run_error \<Rightarrow> run_error" where
  "reported secrets e =
     (case e of Unexpected text \<Rightarrow> Unexpected (mask_secrets text secrets)
      | OsError text \<Rightarrow> OsError (mask_secrets text secrets) | own \<Rightarrow> own)"

definition failed_run :: "runner_config \<Rightarrow> 'w host \<Rightarrow> task_request \<Rightarrow> run_error \<Rightarrow> ('w, outcome) act" where
  "failed_run cfg h task e =
     (let reason = reported (rc_secrets cfg) e in
      andthen (call (\<lambda>r. FailedMarked reason (returned r)) (mark_failed h (tr_id task) reason)) (\<lambda>_.
      (\<lambda>s. (Inr
        \<lparr>oc_status = ''failed'', oc_steps = steps s, oc_run = None, oc_findings = [], oc_gates = [], oc_ai_gates = [],
         oc_curator = None, oc_ref = None, oc_url = None, oc_error = Some reason\<rparr>, s))))"

definition unlock_frozen :: "'w host \<Rightarrow> task_request \<Rightarrow> string \<Rightarrow> check_suite option \<Rightarrow> ('w, unit) act" where
  "unlock_frozen h task wd was_frozen =
     (case was_frozen of
        None \<Rightarrow> give ()
      | Some suite \<Rightarrow>
          if tr_kind task \<in> {''fix'', ''checks''}
          then andthen (protect_suite h wd False) (\<lambda>_.
               andthen (observe (\<lambda>w. suite_protected_paths (Some (file_of h wd w)) suite)) (\<lambda>paths.
               protect_paths h wd paths False))
          else give ())"

definition unlock :: "'w host \<Rightarrow> task_request \<Rightarrow> string \<Rightarrow> ('w, unit) act" where
  "unlock h task wd s = unlock_frozen h task wd (frozen_user s) s"

definition closing :: "'w host \<Rightarrow> task_request \<Rightarrow> string \<Rightarrow> ('w, unit) act" where
  "closing h task wd =
     andthen (call (\<lambda>r. EnvSet [] (returned r)) (set_model_env h [])) (\<lambda>_.
     andthen (unlock h task wd) (\<lambda>_.
     best_effort (call (\<lambda>r. Finished (returned r)) (mark_finished h wd))))"

text \<open>\<open>AgentRunner.run\<close>: \<open>Inl\<close> is an exception the caller sees. The first two calls stand before the \<open>try\<close>.\<close>

definition run_in :: "runner_lib \<Rightarrow> runner_config \<Rightarrow> 'w host \<Rightarrow> task_request \<Rightarrow> string \<Rightarrow> ('w, outcome) act" where
  "run_in lib cfg h task wd =
     andthen (call (\<lambda>r. EnvSet (rc_env cfg) (returned r)) (set_model_env h (rc_env cfg))) (\<lambda>_.
     andthen (observe (clock h)) (\<lambda>started.
     always_then (handling (body lib cfg h task wd started) (failed_run cfg h task)) (closing h task wd)))"

definition run :: "runner_lib \<Rightarrow> runner_config \<Rightarrow> 'w host \<Rightarrow> task_request \<Rightarrow> 'w \<Rightarrow> (run_error + outcome) \<times> 'w run_state" where
  "run lib cfg h task w =
     (let s = \<lparr>world = w, trace = [], steps = [], frozen_user = None\<rparr> in
      case workdir_for (lib_utf8 lib) (rc_work_root cfg) (tr_id task) (tr_attempt task) of
        Inl e \<Rightarrow> (Inl e, s) | Inr wd \<Rightarrow> run_in lib cfg h task wd s)"

end
