(* ===== verification/RunnerProtocol.thy ===== *)
theory RunnerProtocol
  imports Runner
begin

section \<open>The protocol a run obeys\<close>

text \<open>
  The abstract specification of \<open>AgentRunner.run\<close>: a state machine over the calls of the trace. A phase holds what has been
  agreed so far (the policy read, the suites frozen, the summary they gave) and, on the way to a pull request, the branch.
  The rules say which call may come in which phase, so that an accepted trace is one in which nothing was published without
  every check before it.
\<close>

record matter =
  mt_policy :: policy_view
  mt_user :: check_suite
  mt_ai :: check_suite
  mt_summary :: "gate_summary option"

datatype phase =
    Fresh | Opening nat | Informed policy_view | Held matter | Screened matter | Kept matter string
  | Rejudging matter string gate_summary | Cleared string gate_summary gate_summary | Filed string | OnRecord string
  | Leased string | Out string | Renewed string | Published string | FiledOnly | RecordedOnly
  | Broken | Told bool | Cleaned "bool option" | Over "bool option"

text \<open>The phases in which the \<open>try\<close> block has not ended yet.\<close>

fun active :: "phase \<Rightarrow> bool" where
  "active Fresh = False"
| "active (Told b) = False"
| "active (Cleaned r) = False"
| "active (Over r) = False"
| "active _ = True"

record protocol =
  pr_lib :: runner_lib
  pr_cfg :: runner_config
  pr_task :: task_request
  pr_guarded :: bool

definition agreed_policy :: "protocol \<Rightarrow> read_context \<Rightarrow> policy_view" where
  "agreed_policy c context = load_policy (lib_sha256 (pr_lib c)) (lib_parser (pr_lib c)) (rx_policy context)"

definition publishing_policy :: "protocol \<Rightarrow> matter \<Rightarrow> string" where
  "publishing_policy c m = effective_pr_policy (pr_cfg c) (mt_policy m)"

text \<open>A review becomes a fix when the repository opted in and a check failed.\<close>

definition escalates :: "protocol \<Rightarrow> matter \<Rightarrow> bool" where
  "escalates c m \<longleftrightarrow> tr_kind (pr_task c) = ''review'' \<and> effective_auto_fix (pr_cfg c) (mt_policy m)
     \<and> (case mt_summary m of None \<Rightarrow> False | Some s \<Rightarrow> failed_gate_names (entries_of s) \<noteq> [])"

definition may_write :: "protocol \<Rightarrow> matter \<Rightarrow> bool" where
  "may_write c m \<longleftrightarrow> tr_kind (pr_task c) \<in> {''fix'', ''checks''} \<or> escalates c m"

definition needs_green :: "protocol \<Rightarrow> matter \<Rightarrow> bool" where
  "needs_green c m \<longleftrightarrow> publishing_policy c m = PR_POLICY_ON_GREEN \<and> tr_kind (pr_task c) \<noteq> ''checks''"

definition clean :: "protocol \<Rightarrow> matter \<Rightarrow> string list \<Rightarrow> bool" where
  "clean c m changed \<longleftrightarrow> violations_of (tr_kind (pr_task c)) (escalates c m) (mt_user m) changed = []"

definition reports :: "dict \<Rightarrow> gate_summary \<Rightarrow> gate_summary \<Rightarrow> bool" where
  "reports d user ai \<longleftrightarrow> jget d ''gates'' = JList (map dump_gate (entries_of user))
     \<and> jget d ''ai_gates'' = JList (map dump_gate (entries_of ai))"

text \<open>The event of a call that raised where \<open>e\<close> would have returned.\<close>

fun failure_of :: "event \<Rightarrow> event option" where
  "failure_of (Running b) = Some (Running False)"
| "failure_of (Prepared b) = Some (Prepared False)"
| "failure_of (Cloned b) = Some (Cloned False)"
| "failure_of (HandedOver b) = Some (HandedOver False)"
| "failure_of (ContextRead r) = Some (ContextRead None)"
| "failure_of (Gated s r) = Some (Gated s None)"
| "failure_of (AiGated s r) = Some (AiGated s None)"
| "failure_of (Reviewed b) = Some (Reviewed False)"
| "failure_of (Curated b) = Some (Curated False)"
| "failure_of (Searched b) = Some (Searched False)"
| "failure_of (Changed r) = Some (Changed None)"
| "failure_of (Committed n b) = Some (Committed n False)"
| "failure_of (Emitted d b) = Some (Emitted d False)"
| "failure_of (Recorded b) = Some (Recorded False)"
| "failure_of (LeaseAsked b) = Some (LeaseAsked False)"
| "failure_of (Pushed n b) = Some (Pushed n False)"
| "failure_of (Proposed n b) = Some (Proposed n False)"
| "failure_of (DoneMarked b) = Some (DoneMarked False)"
| "failure_of _ = None"

inductive moves :: "protocol \<Rightarrow> phase \<Rightarrow> event \<Rightarrow> phase \<Rightarrow> bool" for c where
  start: "moves c Fresh (EnvSet (rc_env (pr_cfg c)) True) (Opening 0)"
| no_start: "moves c Fresh (EnvSet (rc_env (pr_cfg c)) False) (Over None)"
| running: "moves c (Opening 0) (Running True) (Opening 1)"
| prepared: "moves c (Opening 1) (Prepared True) (Opening 2)"
| cloned: "moves c (Opening 2) (Cloned True) (Opening 3)"
| handed: "moves c (Opening 3) (HandedOver True) (Opening 4)"
| informed: "moves c (Opening 4) (ContextRead (Some context)) (Informed (agreed_policy c context))"
| froze: "moves c (Informed p) (Froze u a) (Held \<lparr>mt_policy = p, mt_user = u, mt_ai = a, mt_summary = None\<rparr>)"
| lock_suite: "tr_kind (pr_task c) = ''fix'' \<Longrightarrow> moves c (Held m) (LockedSuite True b) (Held m)"
| lock_paths: "tr_kind (pr_task c) = ''fix'' \<Longrightarrow> moves c (Held m) (LockedPaths ps True b) (Held m)"
| gated: "moves c (Held m) (Gated (mt_user m) (Some s)) (Held (m\<lparr>mt_summary := Some s\<rparr>))"
| ai_gated: "moves c (Held m) (AiGated (mt_ai m) (Some s)) (Held m)"
| reviewed: "moves c (Held m) (Reviewed True) (Held m)"
| curated: "tr_kind (pr_task c) = ''checks'' \<Longrightarrow> moves c (Held m) (Curated True) (Held m)"
| searched: "moves c (Held m) (Searched True) (Held m)"
| screened: "may_write c m \<Longrightarrow> clean c m changed \<Longrightarrow> moves c (Held m) (Changed (Some changed)) (Screened m)"
| dirty: "may_write c m \<Longrightarrow> \<not> clean c m changed \<Longrightarrow> moves c (Held m) (Changed (Some changed)) Broken"
| kept: "publishing_policy c m \<noteq> PR_POLICY_NEVER \<Longrightarrow> assert_pushable (task_branch (pr_task c)) = Inr b
     \<Longrightarrow> moves c (Screened m) (Committed b True) (Kept m b)"
| rejudging: "needs_green c m \<Longrightarrow> moves c (Kept m b) (Gated (mt_user m) (Some s)) (Rejudging m b s)"
| cleared: "may_open_pr (assurance_of s t) \<Longrightarrow> moves c (Rejudging m b s) (AiGated (mt_ai m) (Some t)) (Cleared b s t)"
| refused: "\<not> may_open_pr (assurance_of s t) \<Longrightarrow> moves c (Rejudging m b s) (AiGated (mt_ai m) (Some t)) Broken"
| filed_unjudged: "\<not> needs_green c m \<Longrightarrow> moves c (Kept m b) (Emitted d True) (Filed b)"
| filed: "reports d s t \<Longrightarrow> moves c (Cleared b s t) (Emitted d True) (Filed b)"
| on_record: "moves c (Filed b) (Recorded True) (OnRecord b)"
| leased: "pr_guarded c \<Longrightarrow> moves c (OnRecord b) (LeaseAsked True) (Leased b)"
| unleased: "\<not> pr_guarded c \<Longrightarrow> moves c (OnRecord b) (Pushed b True) (Out b)"
| out: "moves c (Leased b) (Pushed b True) (Out b)"
| renewed: "pr_guarded c \<Longrightarrow> moves c (Out b) (LeaseAsked True) (Renewed b)"
| proposed_unleased: "\<not> pr_guarded c \<Longrightarrow> moves c (Out b) (Proposed b True) (Published b)"
| proposed: "moves c (Renewed b) (Proposed b True) (Published b)"
| filed_only: "\<not> may_write c m \<Longrightarrow> moves c (Held m) (Emitted d True) FiledOnly"
| filed_never: "publishing_policy c m = PR_POLICY_NEVER \<Longrightarrow> moves c (Screened m) (Emitted d True) FiledOnly"
| recorded_only: "moves c FiledOnly (Recorded True) RecordedOnly"
| finished: "moves c (Published b) (DoneMarked True) (Told True)"
| finished_only: "moves c RecordedOnly (DoneMarked True) (Told True)"
| broken: "moves c p e q \<Longrightarrow> active p \<Longrightarrow> active q \<or> q = Told True \<Longrightarrow> failure_of e = Some e' \<Longrightarrow> moves c p e' Broken"
| told: "active p \<Longrightarrow> moves c p (FailedMarked r True) (Told False)"
| untold: "active p \<Longrightarrow> moves c p (FailedMarked r False) Broken"
| cleaned: "moves c (Told b) (EnvSet [] True) (Cleaned (Some b))"
| cleaned_broken: "moves c Broken (EnvSet [] True) (Cleaned None)"
| uncleaned: "p = Broken \<or> p = Told b \<Longrightarrow> moves c p (EnvSet [] False) (Over None)"
| unlock_suite: "moves c (Cleaned r) (LockedSuite False b) (Cleaned r)"
| unlock_paths: "moves c (Cleaned r) (LockedPaths ps False b) (Cleaned r)"
| over: "moves c (Cleaned r) (Finished True) (Over r)"
| over_anyway: "moves c (Cleaned r) (Finished False) (Over r)"

inductive accepted :: "protocol \<Rightarrow> event list \<Rightarrow> phase \<Rightarrow> bool" for c where
  nothing: "accepted c [] Fresh"
| next_call: "accepted c tr p \<Longrightarrow> moves c p e q \<Longrightarrow> accepted c (e # tr) q"

subsection \<open>Proof rules for actions\<close>

text \<open>
  \<open>leads_to c E P m Q\<close>: from an accepted trace in a phase of \<open>P\<close>, \<open>m\<close> keeps the trace accepted; it ends in a phase that fits its
  value, or raises in a phase of \<open>E\<close>. Inside the \<open>try\<close> block the failure must still be reportable: \<open>E\<close> is \<open>active\<close>.
\<close>

definition leads_to :: "protocol \<Rightarrow> (phase \<Rightarrow> bool) \<Rightarrow> (phase \<Rightarrow> bool) \<Rightarrow> ('w, 'a) act \<Rightarrow> ('a \<Rightarrow> phase \<Rightarrow> bool) \<Rightarrow> bool" where
  "leads_to c E P m Q \<longleftrightarrow> (\<forall>s p. accepted c (trace s) p \<longrightarrow> P p \<longrightarrow>
     (case m s of (Inr x, s') \<Rightarrow> \<exists>q. accepted c (trace s') q \<and> Q x q
      | (Inl e, s') \<Rightarrow> \<exists>q. accepted c (trace s') q \<and> E q))"

abbreviation leads :: "protocol \<Rightarrow> (phase \<Rightarrow> bool) \<Rightarrow> ('w, 'a) act \<Rightarrow> ('a \<Rightarrow> phase \<Rightarrow> bool) \<Rightarrow> bool" where
  "leads c \<equiv> leads_to c active"

lemma leads_weaken: "leads_to c E P' m Q' \<Longrightarrow> (\<And>p. P p \<Longrightarrow> P' p) \<Longrightarrow> (\<And>x q. Q' x q \<Longrightarrow> Q x q) \<Longrightarrow> leads_to c E P m Q"
  unfolding leads_to_def by (fastforce split: prod.splits sum.splits)

lemma leads_give: "(\<And>p. P p \<Longrightarrow> Q x p) \<Longrightarrow> leads_to c E P (give x) Q"
  by (auto simp: leads_to_def give_def)

lemma leads_raised: "(\<And>p. P p \<Longrightarrow> E p) \<Longrightarrow> leads_to c E P (raised e) Q"
  by (auto simp: leads_to_def raised_def)

lemma leads_checked: "(\<And>x p. r = Inr x \<Longrightarrow> P p \<Longrightarrow> Q x p) \<Longrightarrow> (\<And>p. P p \<Longrightarrow> E p) \<Longrightarrow> leads_to c E P (checked r) Q"
  by (cases r) (auto simp: leads_to_def checked_def)

lemma leads_observe: "(\<And>x p. P p \<Longrightarrow> Q x p) \<Longrightarrow> leads_to c E P (observe f) Q"
  by (auto simp: leads_to_def observe_def)

lemma leads_silent: "(\<And>s. trace (f s) = trace s) \<Longrightarrow> (\<And>s p. P p \<Longrightarrow> Q (g s) p) \<Longrightarrow> leads_to c E P (\<lambda>s. (Inr (g s), f s)) Q"
  by (auto simp: leads_to_def)

lemma leads_step: "(\<And>p. P p \<Longrightarrow> Q () p) \<Longrightarrow> leads_to c E P (step name) Q"
  by (auto simp: leads_to_def step_def)

lemma leadsD:
  assumes "leads_to c E P m Q" "accepted c (trace s) p" "P p"
  shows "case m s of (Inr x, s') \<Rightarrow> \<exists>q. accepted c (trace s') q \<and> Q x q
      | (Inl e, s') \<Rightarrow> \<exists>q. accepted c (trace s') q \<and> E q"
  using assms(1) [unfolded leads_to_def, rule_format, OF assms(2,3)] .

lemma leads_andthen:
  assumes "leads_to c E P m R" "\<And>x. leads_to c E (R x) (f x) Q"
  shows "leads_to c E P (andthen m f) Q"
  unfolding leads_to_def
proof (intro allI impI, goal_cases)
  case (1 s p)
  note m = leadsD [OF assms(1) 1]
  show ?case
  proof (cases "m s")
    case (Pair r s')
    show ?thesis
    proof (cases r)
      case (Inl e)
      then show ?thesis using m Pair by (simp add: andthen_def)
    next
      case (Inr x)
      then obtain q where "accepted c (trace s') q" "R x q" using m Pair by auto
      from leadsD [OF assms(2) this] show ?thesis using Inr Pair by (simp add: andthen_def)
    qed
  qed
qed

lemma leads_call:
  assumes "\<And>x p. P p \<Longrightarrow> \<exists>q. moves c p (mk (Inr x)) q \<and> Q x q" "\<And>e p. P p \<Longrightarrow> \<exists>q. moves c p (mk (Inl e)) q \<and> E q"
  shows "leads_to c E P (call mk f) Q"
  unfolding leads_to_def call_def using assms by (fastforce split: prod.splits sum.splits intro: next_call)

lemma leads_logged: "(\<And>p. P p \<Longrightarrow> \<exists>q. moves c p e q \<and> Q () q) \<Longrightarrow> leads_to c E P (logged e) Q"
  unfolding leads_to_def logged_def by (fastforce intro: next_call)

text \<open>A call whose failure the protocol allows wherever it allows its success.\<close>

lemma leads_plain_call:
  assumes "\<And>x p. P p \<Longrightarrow> active p \<and> (\<exists>q. moves c p (mk (Inr x)) q \<and> (active q \<or> q = Told True) \<and> Q x q)"
    "\<And>e x. failure_of (mk (Inr x)) = Some (mk (Inl e))"
  shows "leads c P (call mk f) Q"
proof (rule leads_call)
  fix x p assume "P p"
  then show "\<exists>q. moves c p (mk (Inr x)) q \<and> Q x q" using assms(1) by blast
next
  fix e p assume "P p"
  then obtain q where "active p" "moves c p (mk (Inr undefined)) q" "active q \<or> q = Told True" using assms(1) by blast
  then have "moves c p (mk (Inl e)) Broken" using assms(2) by (blast intro: broken)
  then show "\<exists>q. moves c p (mk (Inl e)) q \<and> active q" by auto
qed

lemma leads_best_effort:
  assumes "\<And>x p. P p \<Longrightarrow> E p \<and> (\<forall>r. moves c p (mk r) p)"
  shows "leads_to c E P (best_effort (call mk f)) (\<lambda>_. P)"
  unfolding leads_to_def best_effort_def call_def
  using assms by (fastforce split: prod.splits sum.splits run_error.splits intro: next_call)

end
