(* ===== verification/RunnerSteps.thy ===== *)
theory RunnerSteps
  imports RunnerProtocol
begin

section \<open>Every step of a run keeps to the protocol\<close>

text \<open>One lemma per call for the phase it leaves and the phase it reaches, then one per part of \<open>run\<close>, in the order of the code.\<close>

lemma returned_simps [simp]: "returned (Inl e) = False" "returned (Inr x) = True"
  by (simp_all add: returned_def)

lemma got_simps [simp]: "got (Inl e) = None" "got (Inr x) = Some x"
  by (simp_all add: got_def)

lemma leads_next:
  assumes "active p" "\<And>x. moves c p (mk (Inr x)) (q x)" "\<And>x. active (q x) \<or> q x = Told True"
    "\<And>e x. failure_of (mk (Inr x)) = Some (mk (Inl e))"
  shows "leads c ((=) p) (call mk f) (\<lambda>x. (=) (q x))"
  using assms by (intro leads_plain_call) auto

lemma leads_pre:
  assumes "\<And>p. P p \<Longrightarrow> F \<and> p = p0" "F \<Longrightarrow> leads_to c E ((=) p0) m Q"
  shows "leads_to c E P m Q"
proof (cases F)
  case True
  then show ?thesis using assms(1) by (intro leads_weaken [OF assms(2)]) auto
next
  case False
  then show ?thesis using assms(1) by (auto simp: leads_to_def)
qed

lemma keeps_step: "leads_to c E P (step name) (\<lambda>_. P)" by (rule leads_step)
lemma keeps_observe: "leads_to c E P (observe f) (\<lambda>_. P)" by (rule leads_observe)
lemma keeps_give: "leads_to c E P (give x) (\<lambda>y p. y = x \<and> P p)" by (rule leads_give) simp

lemma leads_at: "leads_to c E ((=) p) (give x) Q" if "Q x p"
  using that by (auto intro: leads_give)

subsection \<open>Calls\<close>

lemma call_running: "leads c ((=) (Opening 0)) (call (\<lambda>r. Running (returned r)) f) (\<lambda>_. (=) (Opening 1))"
  and call_prepared: "leads c ((=) (Opening 1)) (call (\<lambda>r. Prepared (returned r)) f) (\<lambda>_. (=) (Opening 2))"
  and call_cloned: "leads c ((=) (Opening 2)) (call (\<lambda>r. Cloned (returned r)) f) (\<lambda>_. (=) (Opening 3))"
  and call_handed: "leads c ((=) (Opening 3)) (call (\<lambda>r. HandedOver (returned r)) f) (\<lambda>_. (=) (Opening 4))"
  and call_read: "leads c ((=) (Opening 4)) (call (\<lambda>r. ContextRead (got r)) g) (\<lambda>x. (=) (Informed (agreed_policy c x)))"
  by (rule leads_next; simp add: running [simplified] prepared [simplified] cloned handed informed)+

lemma call_reviewed: "leads c ((=) (Held m)) (call (\<lambda>r. Reviewed (returned r)) f) (\<lambda>_. (=) (Held m))"
  and call_searched: "leads c ((=) (Held m)) (call (\<lambda>r. Searched (returned r)) g) (\<lambda>_. (=) (Held m))"
  and call_gated: "leads c ((=) (Held m)) (call (\<lambda>r. Gated (mt_user m) (got r)) i) (\<lambda>x. (=) (Held (m\<lparr>mt_summary := Some x\<rparr>)))"
  and call_ai_gated: "leads c ((=) (Held m)) (call (\<lambda>r. AiGated (mt_ai m) (got r)) i) (\<lambda>_. (=) (Held m))"
  by (rule leads_next; simp add: reviewed searched gated ai_gated)+

lemma call_curated: "tr_kind (pr_task c) = ''checks''
    \<Longrightarrow> leads c ((=) (Held m)) (call (\<lambda>r. Curated (returned r)) f) (\<lambda>_. (=) (Held m))"
  by (rule leads_next; simp add: curated)

lemma call_committed:
  assumes "publishing_policy c m \<noteq> PR_POLICY_NEVER" "assert_pushable (task_branch (pr_task c)) = Inr b"
  shows "leads c ((=) (Screened m)) (call (\<lambda>r. Committed b (returned r)) f) (\<lambda>_. (=) (Kept m b))"
  using assms by (intro leads_next) (auto intro: kept)

lemma call_rejudging: "needs_green c m
    \<Longrightarrow> leads c ((=) (Kept m b)) (call (\<lambda>r. Gated (mt_user m) (got r)) f) (\<lambda>x. (=) (Rejudging m b x))"
  by (rule leads_next) (auto intro: rejudging)

definition judged :: "string \<Rightarrow> gate_summary \<Rightarrow> gate_summary \<Rightarrow> phase" where
  "judged b s t = (if may_open_pr (assurance_of s t) then Cleared b s t else Broken)"

lemma moves_judged: "moves c (Rejudging m b s) (AiGated (mt_ai m) (Some t)) (judged b s t)"
  by (simp add: judged_def cleared refused)

lemma active_judged [simp]: "active (judged b s t)"
  by (simp add: judged_def)

lemma call_judged: "leads c ((=) (Rejudging m b s)) (call (\<lambda>r. AiGated (mt_ai m) (got r)) f) (\<lambda>t. (=) (judged b s t))"
  by (rule leads_next) (auto intro: moves_judged)

lemma call_recorded: "leads c ((=) (Filed b)) (call (\<lambda>r. Recorded (returned r)) f) (\<lambda>_. (=) (OnRecord b))"
  and call_recorded_only: "leads c ((=) FiledOnly) (call (\<lambda>r. Recorded (returned r)) f) (\<lambda>_. (=) RecordedOnly)"
  and call_done: "leads c ((=) (Published b)) (call (\<lambda>r. DoneMarked (returned r)) f) (\<lambda>_. (=) (Told True))"
  and call_done_only: "leads c ((=) RecordedOnly) (call (\<lambda>r. DoneMarked (returned r)) f) (\<lambda>_. (=) (Told True))"
  by (rule leads_next; simp add: on_record recorded_only finished finished_only)+

lemma call_failed:
  assumes "\<And>p. P p \<Longrightarrow> active p"
  shows "leads c P (call (\<lambda>r. FailedMarked e (returned r)) f) (\<lambda>_. (=) (Told False))"
proof (rule leads_call)
  fix x p assume "P p"
  then show "\<exists>q. moves c p (FailedMarked e (returned (Inr x))) q \<and> Told False = q" by (auto intro: told assms)
next
  fix e' p assume "P p"
  then have "moves c p (FailedMarked e (returned (Inl e'))) Broken" by (auto intro: untold assms)
  then show "\<exists>q. moves c p (FailedMarked e (returned (Inl e'))) q \<and> active q" by force
qed

subsection \<open>Parts of a run\<close>

lemma leads_protect_suite:
  assumes "\<And>b. moves c p (LockedSuite r b) p" "E p"
  shows "leads_to c E ((=) p) (protect_suite h wd r) (\<lambda>_. (=) p)"
  unfolding protect_suite_def using assms by (auto split: option.split intro!: leads_best_effort leads_give)

lemma leads_protect_paths:
  assumes "\<And>b. moves c p (LockedPaths ps r b) p" "E p"
  shows "leads_to c E ((=) p) (protect_paths h wd ps r) (\<lambda>_. (=) p)"
  unfolding protect_paths_def using assms by (auto split: option.split intro!: leads_best_effort leads_give)

lemma leads_lock:
  assumes "tr_kind task = ''fix''" "task = pr_task c"
  shows "leads c ((=) (Held m)) (andthen (protect_suite h wd True) (\<lambda>_.
      andthen (observe g) (\<lambda>paths. protect_paths h wd paths True))) (\<lambda>_. (=) (Held m))"
  using assms
  by (intro leads_andthen [OF leads_protect_suite] leads_andthen [OF keeps_observe] leads_protect_paths) (auto intro: lock_suite lock_paths)

lemma leads_open_task:
  assumes lib: "lib = pr_lib c" and task: "task = pr_task c"
  shows "leads c ((=) (Opening 0)) (open_task lib h task wd) (\<lambda>(files, policy, user, ai). (=) (Held
    \<lparr>mt_policy = policy, mt_user = frozen user, mt_ai = frozen ai, mt_summary = None\<rparr>))"
  unfolding open_task_def Let_def
proof (rule leads_andthen [OF call_running], rule leads_andthen [OF call_prepared], rule leads_andthen [OF keeps_step],
    rule leads_andthen [OF call_cloned], rule leads_andthen [OF call_handed], rule leads_andthen [OF keeps_step],
    rule leads_andthen [OF call_read], rule leads_andthen [OF keeps_observe], goal_cases)
  case (1 _ _ _ _ _ _ files pairs)
  let ?p = "agreed_policy c files"
  show ?case
  proof (cases pairs)
    case None
    then show ?thesis by (simp add: leads_raised)
  next
    case (Some pair)
    define user where "user = freeze_suite (lib_sha256 lib) (lib_repr lib) (user_suite pair) (Some (tr_commit task))"
    define ai where "ai = freeze_suite (lib_sha256 lib) (lib_repr lib) (ai_suite pair) (Some (tr_commit task))"
    let ?m = "\<lparr>mt_policy = ?p, mt_user = frozen user, mt_ai = frozen ai, mt_summary = None\<rparr>"
    have "leads c ((=) (Informed ?p)) (logged (Froze (frozen user) (frozen ai))) (\<lambda>_. (=) (Held ?m))"
      by (rule leads_logged) (auto intro: froze)
    moreover have "leads c ((=) (Held ?m)) (\<lambda>s. (Inr (), s\<lparr>frozen_user := Some (frozen user)\<rparr>)) (\<lambda>_. (=) (Held ?m))"
      by (rule leads_silent) auto
    moreover have "leads c ((=) (Held ?m)) (if tr_kind task = ''fix'' then andthen (protect_suite h wd True) (\<lambda>_.
        andthen (observe (\<lambda>w. suite_protected_paths (Some (file_of h wd w)) (frozen user))) (\<lambda>paths.
        protect_paths h wd paths True)) else give ()) (\<lambda>_. (=) (Held ?m))"
      by (cases "tr_kind task = ''fix''") (simp_all add: leads_lock [OF _ task] leads_at)
    moreover have "?p = load_policy (lib_sha256 lib) (lib_parser lib) (rx_policy files)"
      by (simp add: agreed_policy_def lib)
    ultimately show ?thesis
      unfolding Some option.case user_def [symmetric] ai_def [symmetric]
      by (intro leads_andthen) (assumption | rule leads_at | simp)+
  qed
qed


lemma ai_gates_call: "ai_gates_of lib h wd a = call (\<lambda>r. AiGated a (got r))
    (case ai_gates_method h of None \<Rightarrow> (\<lambda>w. (Inr (unverified_summary [] SOURCE_AGENT_CHECKS), w)) | Some f \<Rightarrow> f wd (lib_timeout lib) a)"
  by (rule ext) (simp add: ai_gates_of_def call_def andthen_def logged_def give_def split: option.split)

lemma leads_judge:
  assumes "user = mt_user m" "ai = mt_ai m"
  shows "leads c ((=) (Held m)) (judge lib h wd user ai) (\<lambda>(s, t). (=) (Held (m\<lparr>mt_summary := Some s\<rparr>)))"
  unfolding judge_def gates_of_def ai_gates_call assms
proof (rule leads_andthen [OF call_gated], goal_cases)
  case (1 s)
  show ?case
    by (rule leads_andthen [OF call_ai_gated [of c "m\<lparr>mt_summary := Some s\<rparr>", simplified]]) (simp add: leads_at)
qed

lemma leads_search: "leads c ((=) (Held m)) (search_all h wd task files fs) (\<lambda>_. (=) (Held m))"
  by (induction fs) (auto intro!: leads_at leads_andthen [OF call_searched] intro: leads_andthen)

lemma leads_examine:
  assumes "task = pr_task c"
  shows "leads c ((=) (Held m)) (examine lib cfg h task wd files policy) (\<lambda>_. (=) (Held m))"
proof -
  have "leads c ((=) (Held m)) (if tr_kind task = ''checks'' then curate lib h wd else give None) (\<lambda>_. (=) (Held m))"
    using assms by (auto simp: curate_def leads_at call_curated split: option.split)
  then show ?thesis
    unfolding examine_def
    by (intro leads_andthen [OF keeps_step] leads_andthen [OF call_reviewed])
      (rule leads_andthen, assumption, rule leads_andthen [OF keeps_step], rule leads_andthen [OF leads_search], rule leads_at, simp)
qed

subsection \<open>The path guard, the lease and the record\<close>

lemma leads_changed:
  assumes "may_write c m"
  shows "leads c ((=) (Held m)) (adapter_changed_paths h wd) (\<lambda>x. (=) (if clean c m x then Screened m else Broken))"
proof (cases "changed_method h")
  case None
  then show ?thesis by (simp add: adapter_changed_paths_def leads_raised)
next
  case (Some f)
  have "leads c ((=) (Held m)) (call (\<lambda>r. Changed (got r)) (f wd)) (\<lambda>x. (=) (if clean c m x then Screened m else Broken))"
    by (rule leads_next) (auto intro: screened dirty assms)
  then show ?thesis using Some by (simp add: adapter_changed_paths_def)
qed

lemma leads_guard:
  assumes "may_write c m" "kind = tr_kind (pr_task c)" "escalate = escalates c m" "user = mt_user m"
  shows "leads c ((=) (Held m)) (guard_task_paths h wd kind escalate user) (\<lambda>_. (=) (Screened m))"
  unfolding guard_task_paths_def
  by (rule leads_andthen [OF leads_changed [OF assms(1)]])
    (auto simp: assms(2-4) Let_def clean_def intro!: leads_at leads_raised)

lemma leads_handling_raised: "leads c P m Q \<Longrightarrow> leads c P (handling m (\<lambda>e. raised (g e))) Q"
  unfolding leads_to_def handling_def raised_def by (fastforce split: prod.splits sum.splits)

definition after_lease :: "protocol \<Rightarrow> phase \<Rightarrow> phase \<Rightarrow> phase" where
  "after_lease c before later = (if pr_guarded c then later else before)"

lemma leads_publish:
  assumes "pr_guarded c = (publish_guard h \<noteq> None)" "active p" "active q"
    "pr_guarded c \<Longrightarrow> moves c p (LeaseAsked True) q"
  shows "leads c ((=) p) (publish h branch) (\<lambda>_. (=) (after_lease c p q))"
proof (cases "publish_guard h")
  case None
  then show ?thesis using assms(1) by (simp add: publish_def after_lease_def leads_at)
next
  case (Some f)
  then have "leads c ((=) p) (call (\<lambda>r. LeaseAsked (returned r)) f) (\<lambda>_. (=) q)"
    using assms by (intro leads_next) auto
  then show ?thesis using Some assms(1) by (simp add: publish_def after_lease_def leads_handling_raised)
qed

lemma leads_record:
  assumes "moves c p (Emitted d True) q" "active p" "active q" "moves c q (Recorded True) q'" "active q'"
  shows "leads c ((=) p) (record_result h task wd d result) (\<lambda>_. (=) q')"
proof -
  have emitted: "leads c ((=) p) (call (\<lambda>r. Emitted d (returned r)) f) (\<lambda>_. (=) q)" for f :: "('w, string) op"
    by (rule leads_next) (auto simp: assms)
  have noted: "leads c ((=) q) (call (\<lambda>r. Recorded (returned r)) f) (\<lambda>_. (=) q')" for f :: "('w, unit) op"
    by (rule leads_next) (auto simp: assms)
  show ?thesis
    unfolding record_result_def by (rule leads_andthen [OF emitted], rule leads_andthen [OF noted], rule leads_at) simp
qed

lemma leads_pushed: "leads c ((=) (after_lease c (OnRecord b) (Leased b))) (call (\<lambda>r. Pushed b (returned r)) f) (\<lambda>_. (=) (Out b))"
  by (rule leads_next) (auto simp: after_lease_def unleased out)

lemma leads_proposed:
  "leads c ((=) (after_lease c (Out b) (Renewed b))) (call (\<lambda>r. Proposed b (returned r)) f) (\<lambda>_. (=) (Published b))"
  by (rule leads_next) (auto simp: after_lease_def proposed_unleased proposed)

lemma leads_publish_branch:
  assumes "pr_guarded c = (publish_guard h \<noteq> None)"
  shows "leads c ((=) (OnRecord b)) (publish_branch lib h task wd b f result level user ai) (\<lambda>_. (=) (Published b))"
  unfolding publish_branch_def
  by (rule leads_andthen [OF leads_publish [OF assms, where q = "Leased b"]], simp, simp, erule leased,
      rule leads_andthen [OF leads_pushed],
      rule leads_andthen [OF leads_publish [OF assms, where q = "Renewed b"]], simp, simp, erule renewed,
      rule leads_andthen [OF leads_checked [where Q = "\<lambda>_. (=) (after_lease c (Out b) (Renewed b))"]], simp,
      simp add: after_lease_def split: if_split_asm, rule leads_proposed)


subsection \<open>The document after the second judgement\<close>

lemma map_of_replaced: "k \<in> fst ` set d \<Longrightarrow> map_of (map (\<lambda>(a, b). if a = k then (a, v) else (a, b)) d) = (map_of d)(k \<mapsto> v)"
  for d :: "('k \<times> 'v) list"
proof (induction d)
  case (Cons x d)
  have unchanged: "map (\<lambda>(a, b). if a = k then (a, v) else (a, b)) d = d" if "k \<notin> fst ` set d"
    using that by (induction d) auto
  show ?case
  proof (cases "k \<in> fst ` set d")
    case True
    then show ?thesis using Cons.IH by (cases x) (auto simp: fun_eq_iff)
  next
    case False
    then have "fst x = k" using Cons.prems by auto
    then show ?thesis by (cases x) (auto simp: unchanged [OF False] fun_eq_iff)
  qed
qed simp

lemma jget_set_key: "jget (set_key k v d) k' = (if k' = k then v else jget d k')"
proof (cases "k \<in> fst ` set d")
  case True
  then show ?thesis by (simp add: jget_def set_key_def map_of_replaced)
next
  case False
  then have "map_of d k = None" by (simp add: map_of_eq_None_iff)
  then show ?thesis using False by (simp add: jget_def set_key_def map_add_def split: option.split)
qed

lemma jget_set_run: "k' \<noteq> ''run'' \<Longrightarrow> jget (set_run k v d) k' = jget d k'"
  by (simp add: set_run_def jget_set_key)

lemma jget_set_assurance: "k' \<noteq> ''run'' \<Longrightarrow> jget (set_assurance a d) k' = jget d k'"
  by (simp add: set_assurance_def jget_set_run)

lemma leads_rejudge:
  assumes "needs_green c m" "frozen (sf_user f) = mt_user m" "frozen (sf_ai f) = mt_ai m"
  shows "leads c ((=) (Kept m b)) (rejudge lib h wd f document)
    (\<lambda>(level, s, t, d, result) p. level = assurance_of s t \<and> p = judged b s t \<and> reports d s t)"
proof -
  have "leads c ((=) (Kept m b)) (judge lib h wd (mt_user m) (mt_ai m)) (\<lambda>(s, t). (=) (judged b s t))"
    unfolding judge_def gates_of_def ai_gates_call
    by (rule leads_andthen [OF call_rejudging [OF assms(1)]], rule leads_andthen [OF call_judged], rule leads_at) simp
  then show ?thesis
    unfolding rejudge_def assms(2,3) Let_def
  proof (rule leads_andthen, goal_cases)
    case (1 st)
    show ?case
    proof (cases st)
      case (Pair s t)
      show ?thesis unfolding Pair prod.case
        by (rule leads_andthen [OF leads_checked [where Q = "\<lambda>_. (=) (judged b s t)"]], simp, clarsimp, rule leads_at)
          (simp add: reports_def jget_set_assurance jget_set_run jget_set_key)
    qed
  qed
qed

subsection \<open>Writing and concluding\<close>

text \<open>What has become of a run that wrote: it was refused, it published, or it may still be filed.\<close>

definition write_ends :: "protocol \<Rightarrow> written \<Rightarrow> phase \<Rightarrow> bool" where
  "write_ends c written p =
     (case written of
        Inl early \<Rightarrow> p = Told False \<and> oc_status early = ''failed''
      | Inr (d, result, Some refs) \<Rightarrow> (\<exists>b. p = Published b)
      | Inr (d, result, None) \<Rightarrow> active p \<and> (\<forall>d. moves c p (Emitted d True) FiledOnly))"

lemma leads_withhold:
  assumes "\<And>p. P p \<Longrightarrow> active p"
  shows "leads c P (withhold h task reason d) (write_ends c)"
  unfolding withhold_def
  by (rule leads_andthen [OF call_failed [OF assms]], assumption, rule leads_silent [where f = "\<lambda>s. s", OF refl])
    (auto simp: write_ends_def)

lemma leads_record_and_publish:
  assumes "moves c p (Emitted d True) (Filed b)" "active p" "pr_guarded c = (publish_guard h \<noteq> None)"
  shows "leads c ((=) p) (record_and_publish lib h task wd b f d result level user ai) (write_ends c)"
  unfolding record_and_publish_def
  by (rule leads_andthen [OF leads_record [OF assms(1,2) _ on_record]], simp, simp,
      rule leads_andthen [OF leads_publish_branch [OF assms(3)]], rule leads_at) (auto simp: write_ends_def)

definition matter_of :: "findings_so_far \<Rightarrow> matter" where
  "matter_of f = \<lparr>mt_policy = sf_policy f, mt_user = frozen (sf_user f), mt_ai = frozen (sf_ai f), mt_summary = Some (sf_summary f)\<rparr>"

lemma matter_of_simps [simp]:
  "mt_policy (matter_of f) = sf_policy f" "mt_user (matter_of f) = frozen (sf_user f)"
  "mt_ai (matter_of f) = frozen (sf_ai f)" "mt_summary (matter_of f) = Some (sf_summary f)"
  by (simp_all add: matter_of_def)

lemma leads_after_commit:
  assumes "pr_guarded c = (publish_guard h \<noteq> None)" "task = pr_task c" "cfg = pr_cfg c"
  shows "leads c ((=) (Kept (matter_of f) b))
    (if effective_pr_policy cfg (sf_policy f) = PR_POLICY_ON_GREEN \<and> tr_kind task \<noteq> ''checks''
     then andthen (rejudge lib h wd f document) (\<lambda>(fresh_level, fresh, fresh_ai, d, fresh_result).
        if \<not> may_open_pr fresh_level
        then withhold h task (Withheld (a_level fresh_level) (failed_gate_names (entries_of fresh))) d
        else record_and_publish lib h task wd b f d fresh_result fresh_level fresh fresh_ai)
     else record_and_publish lib h task wd b f document result level (sf_summary f) (sf_ai_summary f)) (write_ends c)"
proof (cases "needs_green c (matter_of f)")
  case True
  then have green: "effective_pr_policy cfg (sf_policy f) = PR_POLICY_ON_GREEN \<and> tr_kind task \<noteq> ''checks''"
    using assms by (simp add: needs_green_def publishing_policy_def)
  show ?thesis
    unfolding if_P [OF green]
  proof (rule leads_andthen [OF leads_rejudge [OF True]], simp, simp, goal_cases)
    case (1 x)
    obtain l s t d r where x: "x = (l, s, t, d, r)" by (cases x)
    have "leads c ((=) (judged b s t)) (if \<not> may_open_pr (assurance_of s t)
        then withhold h task (Withheld (a_level l) (failed_gate_names (entries_of s))) d
        else record_and_publish lib h task wd b f d r l s t) (write_ends c)" if "reports d s t"
      using that by (auto simp: judged_def intro!: leads_withhold leads_record_and_publish filed assms(1))
    then show ?case
      unfolding x prod.case by (rule_tac F = "l = assurance_of s t \<and> reports d s t" and ?p0.0 = "judged b s t" in leads_pre) auto
  qed
next
  case False
  then have "\<not> (effective_pr_policy cfg (sf_policy f) = PR_POLICY_ON_GREEN \<and> tr_kind task \<noteq> ''checks'')"
    using assms by (simp add: needs_green_def publishing_policy_def)
  then show ?thesis
    unfolding if_not_P [OF \<open>\<not> (_ \<and> _)\<close>] using filed_unjudged [OF False] assms(1) by (intro leads_record_and_publish) auto
qed


lemma leads_write_source:
  assumes "pr_guarded c = (publish_guard h \<noteq> None)" "task = pr_task c" "cfg = pr_cfg c"
    "may_write c (matter_of f)" "escalate = escalates c (matter_of f)"
  shows "leads c ((=) (Held (matter_of f))) (write_source lib cfg h task wd escalate f level d result) (write_ends c)"
proof -
  have policy: "effective_pr_policy cfg (sf_policy f) = publishing_policy c (matter_of f)"
    using assms(3) by (simp add: publishing_policy_def)
  have "leads c ((=) (Held (matter_of f))) (checked (assert_pushable (task_branch task)))
      (\<lambda>b p. assert_pushable (task_branch task) = Inr b \<and> p = Held (matter_of f))"
    by (rule leads_checked) auto
  then show ?thesis
    unfolding write_source_def Let_def
  proof (rule leads_andthen, goal_cases)
    case (1 b)
    have guarded: "leads c ((=) (Held (matter_of f)))
        (guard_task_paths h wd (tr_kind task) escalate (frozen (sf_user f))) (\<lambda>_. (=) (Screened (matter_of f)))"
      by (rule leads_guard) (simp_all add: assms)
    show ?case
    proof (rule leads_pre [where F = "assert_pushable (task_branch task) = Inr b" and ?p0.0 = "Held (matter_of f)"])
      assume branch: "assert_pushable (task_branch task) = Inr b"
      show "leads c ((=) (Held (matter_of f))) (andthen (guard_task_paths h wd (tr_kind task) escalate (frozen (sf_user f))) (\<lambda>_.
          if effective_pr_policy cfg (sf_policy f) = PR_POLICY_NEVER then give (Inr (d, result, None))
          else andthen (call (\<lambda>r. Committed b (returned r)) (commit_op h wd b (tr_commit task) result)) (\<lambda>_.
            if effective_pr_policy cfg (sf_policy f) = PR_POLICY_ON_GREEN \<and> tr_kind task \<noteq> ''checks''
            then andthen (rejudge lib h wd f d) (\<lambda>(fresh_level, fresh, fresh_ai, d, fresh_result).
                 if \<not> may_open_pr fresh_level
                 then withhold h task (Withheld (a_level fresh_level) (failed_gate_names (entries_of fresh))) d
                 else record_and_publish lib h task wd b f d fresh_result fresh_level fresh fresh_ai)
            else record_and_publish lib h task wd b f d result level (sf_summary f) (sf_ai_summary f)))) (write_ends c)"
      proof (rule leads_andthen [OF guarded], cases "effective_pr_policy cfg (sf_policy f) = PR_POLICY_NEVER", goal_cases)
        case 1
        then show ?case using policy by (auto intro!: leads_at filed_never simp: write_ends_def)
      next
        case 2
        show ?case
          unfolding if_not_P [OF 2]
          by (rule leads_andthen [OF call_committed leads_after_commit [OF assms(1-3)]])
            (use 2 policy branch assms(2) in simp_all)
      qed
    qed auto
  qed
qed

text \<open>The value of a run and the phase it ends in say the same.\<close>

definition told :: "outcome \<Rightarrow> phase \<Rightarrow> bool" where
  "told oc p \<longleftrightarrow> p = Told (oc_status oc = ''done'')"

lemma leads_conclude: "leads c (write_ends c written) (conclude h task wd written) told"
proof (cases written)
  case (Inl early)
  then show ?thesis by (auto simp: conclude_def write_ends_def told_def intro!: leads_give)
next
  case (Inr w)
  obtain d result published where w: "w = (d, result, published)" by (cases w)
  let ?P = "write_ends c (Inr (d, result, published))"
  have filed: "leads c ?P (case published of Some refs \<Rightarrow> give refs
      | None \<Rightarrow> andthen (record_result h task wd d result) (\<lambda>ref. give (ref, None)))
      (\<lambda>_ p. p = RecordedOnly \<or> (\<exists>b. p = Published b))"
  proof (cases published)
    case None
    have "leads c ?P (record_result h task wd d result) (\<lambda>_. (=) RecordedOnly)"
    proof (unfold leads_to_def, intro allI impI, goal_cases)
      case (1 s p)
      then have "leads c ((=) p) (record_result h task wd d result) (\<lambda>_. (=) RecordedOnly)"
        by (intro leads_record [OF _ _ _ recorded_only]) (auto simp: write_ends_def None)
      from leadsD [OF this 1(1) refl] show ?case .
    qed
    then show ?thesis unfolding None option.case by (rule leads_andthen) (rule leads_at, simp)
  next
    case (Some refs)
    then show ?thesis by (auto simp: write_ends_def intro!: leads_give)
  qed
  have marked: "leads c (\<lambda>p. p = RecordedOnly \<or> (\<exists>b. p = Published b)) (call (\<lambda>r. DoneMarked (returned r)) g)
      (\<lambda>_. (=) (Told True))" for g :: "('w, unit) op"
    by (rule leads_plain_call) (auto intro: finished finished_only)
  show ?thesis
    unfolding conclude_def Inr w sum.case prod.case
    by (rule leads_andthen [OF filed], unfold split_paired_all prod.case, rule leads_andthen [OF marked],
        rule leads_silent [where f = "\<lambda>s. s", OF refl]) (simp add: told_def)
qed

lemma leads_deliver:
  assumes "pr_guarded c = (publish_guard h \<noteq> None)" "task = pr_task c" "cfg = pr_cfg c"
  shows "leads c ((=) (Held (matter_of f))) (deliver lib cfg h task wd started f) told"
  unfolding deliver_def
proof (rule leads_andthen [OF keeps_step], rule leads_andthen [OF keeps_observe], goal_cases)
  case (1 _ finished)
  let ?m = "matter_of f"
  let ?v = "validate_result (scrub_payload (rc_secrets cfg) (payload_of task f started finished))"
  define escalate where "escalate = (tr_kind task = ''review'' \<and> effective_auto_fix cfg (sf_policy f)
    \<and> failed_gate_names (entries_of (sf_summary f)) \<noteq> [])"
  have escalate: "escalate = escalates c ?m" by (simp add: escalate_def escalates_def assms)
  have writes: "(tr_kind task \<in> {''fix'', ''checks''} \<or> escalate) = may_write c ?m"
    unfolding may_write_def escalate assms(2) ..
  show ?case
  proof (cases ?v)
    case None
    show ?thesis
      unfolding None option.case
      by (rule leads_andthen [OF call_failed], auto, rule leads_silent [where f = "\<lambda>s. s", OF refl]) (simp add: told_def)
  next
    case (Some r)
    have "leads c ((=) (Held ?m)) (if may_write c ?m then write_source lib cfg h task wd escalate f level d result
        else give (Inr (d, result, None))) (write_ends c)" for level d result
      using leads_write_source [OF assms _ escalate] by (auto simp: write_ends_def intro!: leads_at filed_only)
    then show ?thesis
      unfolding Some option.case Let_def escalate_def [symmetric] writes
      by (intro leads_andthen [OF leads_checked [where Q = "\<lambda>_. (=) (Held ?m)"]] leads_andthen [OF _ leads_conclude]) auto
  qed
qed


subsection \<open>The whole run\<close>

lemma leads_body:
  assumes "pr_guarded c = (publish_guard h \<noteq> None)" "task = pr_task c" "cfg = pr_cfg c" "lib = pr_lib c"
  shows "leads c ((=) (Opening 0)) (body lib cfg h task wd started) told"
  unfolding body_def
proof (rule leads_andthen [OF leads_open_task [OF assms(4,2)]], unfold split_paired_all prod.case,
    rule leads_andthen [OF keeps_step], rule leads_andthen [OF leads_judge], simp, simp, unfold split_paired_all prod.case,
    rule leads_andthen [OF leads_examine [OF assms(2)]], unfold split_paired_all prod.case, goal_cases)
  case (1 files policy user ai _ summary ai_summary enriched report)
  let ?f = "\<lparr>sf_policy = policy, sf_user = user, sf_ai = ai, sf_summary = summary, sf_ai_summary = ai_summary,
    sf_enriched = enriched, sf_report = report\<rparr>"
  have "matter_of ?f = \<lparr>mt_policy = policy, mt_user = frozen user, mt_ai = frozen ai, mt_summary = Some summary\<rparr>"
    by (simp add: matter_of_def)
  with leads_deliver [OF assms(1-3), of ?f lib wd started] show ?case by simp
qed

text \<open>After the handlers the outcome is told, or the handler itself failed.\<close>

definition settled :: "protocol \<Rightarrow> (run_error + outcome) \<times> 'w run_state \<Rightarrow> bool" where
  "settled c = (\<lambda>(r, s). accepted c (trace s) (case r of Inl e \<Rightarrow> Broken | Inr oc \<Rightarrow> Told (oc_status oc = ''done'')))"

lemma settled_failed_run: "accepted c (trace s) p \<Longrightarrow> active p \<Longrightarrow> settled c (failed_run cfg h task e s)"
  by (auto simp: failed_run_def Let_def andthen_def call_def settled_def split: prod.splits sum.splits intro: next_call told untold)

lemma settled_handled:
  assumes "leads c ((=) p) m told" "accepted c (trace s) p"
  shows "settled c (handling m (failed_run cfg h task) s)"
proof -
  obtain r s' where m: "m s = (r, s')" by (cases "m s")
  show ?thesis
  proof (cases r)
    case (Inl e)
    then show ?thesis using leadsD [OF assms refl] m by (auto simp: handling_def intro: settled_failed_run)
  next
    case (Inr oc)
    then show ?thesis using leadsD [OF assms refl] m by (auto simp: handling_def settled_def told_def)
  qed
qed

text \<open>The phases of the \<open>finally\<close> block once the credentials are gone, or could not be set.\<close>

fun closed :: "phase \<Rightarrow> bool" where
  "closed (Cleaned r) = True"
| "closed (Over r) = True"
| "closed _ = False"

lemma leads_unlock: "leads_to c closed ((=) (Cleaned r)) (unlock h task wd) (\<lambda>_. (=) (Cleaned r))"
proof -
  have "leads_to c closed ((=) (Cleaned r)) (unlock_frozen h task wd u) (\<lambda>_. (=) (Cleaned r))" for u
    unfolding unlock_frozen_def
    by (auto split: option.split intro!: leads_at leads_andthen [OF leads_protect_suite] leads_andthen [OF keeps_observe]
        leads_protect_paths unlock_suite unlock_paths)
  from leadsD [OF this] show ?thesis by (simp add: leads_to_def unlock_def)
qed

lemma leads_closing:
  assumes "\<And>b. moves c p (EnvSet [] b) (if b then Cleaned r else Over None)"
  shows "leads_to c closed ((=) p) (closing h task wd) (\<lambda>_. (=) (Over r))"
proof -
  have cleared: "leads_to c closed ((=) p) (call (\<lambda>r. EnvSet [] (returned r)) f) (\<lambda>_. (=) (Cleaned r))" for f :: "('w, unit) op"
    using assms [of True] assms [of False] by (intro leads_call) auto
  have marked: "leads_to c closed ((=) (Cleaned r)) (best_effort (call (\<lambda>r. Finished (returned r)) f)) (\<lambda>_. (=) (Over r))"
    for f :: "('w, unit) op"
    unfolding leads_to_def best_effort_def call_def
    by (auto split: prod.splits sum.splits run_error.splits intro!: exI [of _ "Over r"] next_call intro: over over_anyway)
  show ?thesis
    unfolding closing_def by (rule leads_andthen [OF cleared], rule leads_andthen [OF leads_unlock], rule marked)
qed

lemma settled_closed:
  assumes "settled c (m s)"
  shows "case always_then m (closing h task wd) s of
     (Inl e, s') \<Rightarrow> \<exists>p. accepted c (trace s') p \<and> closed p
   | (Inr oc, s') \<Rightarrow> accepted c (trace s') (Over (Some (oc_status oc = ''done'')))"
proof -
  obtain r s' where m: "m s = (r, s')" by (cases "m s")
  define p where "p = (case r of Inl e \<Rightarrow> Broken | Inr oc \<Rightarrow> Told (oc_status oc = ''done''))"
  define v where "v = (case r of Inl e \<Rightarrow> None | Inr oc \<Rightarrow> Some (oc_status oc = ''done''))"
  have p: "accepted c (trace s') p" using assms m by (simp add: settled_def p_def)
  have "moves c p (EnvSet [] b) (if b then Cleaned v else Over None)" for b
    by (cases r) (auto simp: p_def v_def intro: cleaned cleaned_broken uncleaned)
  from leadsD [OF leads_closing [OF this] p refl, of h task wd] show ?thesis
    by (cases r) (auto simp: always_then_def m v_def split: prod.splits sum.splits)
qed

lemma run_in_accepted:
  assumes "trace s = []" "pr_guarded c = (publish_guard h \<noteq> None)" "task = pr_task c" "cfg = pr_cfg c" "lib = pr_lib c"
  shows "case run_in lib cfg h task wd s of
     (Inl e, s') \<Rightarrow> \<exists>p. accepted c (trace s') p \<and> closed p
   | (Inr oc, s') \<Rightarrow> accepted c (trace s') (Over (Some (oc_status oc = ''done'')))"
proof -
  obtain r w where set: "set_model_env h (rc_env cfg) (world s) = (r, w)" by (cases "set_model_env h (rc_env cfg) (world s)")
  let ?s = "s\<lparr>world := w, trace := [EnvSet (rc_env cfg) (returned r)]\<rparr>"
  show ?thesis
  proof (cases r)
    case (Inl e)
    have "accepted c [EnvSet (rc_env cfg) False] (Over None)"
      using accepted.next_call [OF accepted.nothing moves.no_start] assms(4) by simp
    then show ?thesis using Inl set assms(1) by (force simp: run_in_def andthen_def call_def)
  next
    case (Inr u)
    have "accepted c (trace ?s) (Opening 0)" using accepted.next_call [OF accepted.nothing moves.start] assms(4) Inr by simp
    from settled_closed [where m = "handling (body lib cfg h task wd (clock h w)) (failed_run cfg h task)" and s = ?s,
        OF settled_handled [OF leads_body [OF assms(2-5)] this], of h task wd]
    show ?thesis using Inr set assms(1) by (simp add: run_in_def andthen_def call_def observe_def)
  qed
qed

end
