(* ===== verification/RunnerProps.thy ===== *)
theory RunnerProps
  imports RunnerSteps
begin

section \<open>What every run guarantees\<close>

definition protocol_of :: "runner_lib \<Rightarrow> runner_config \<Rightarrow> 'w host \<Rightarrow> task_request \<Rightarrow> protocol" where
  "protocol_of lib cfg h task = \<lparr>pr_lib = lib, pr_cfg = cfg, pr_task = task, pr_guarded = (publish_guard h \<noteq> None)\<rparr>"

lemma run_accepted:
  "case run lib cfg h task w of
     (Inl e, s) \<Rightarrow> (\<exists>p. accepted (protocol_of lib cfg h task) (trace s) p \<and> (p = Fresh \<or> closed p))
   | (Inr oc, s) \<Rightarrow> accepted (protocol_of lib cfg h task) (trace s) (Over (Some (oc_status oc = ''done'')))"
proof (cases "workdir_for (lib_utf8 lib) (rc_work_root cfg) (tr_id task) (tr_attempt task)")
  case (Inl e)
  then show ?thesis by (auto simp: run_def intro: accepted.nothing)
next
  case (Inr wd)
  let ?s = "\<lparr>world = w, trace = [], steps = [], frozen_user = None\<rparr>"
  have "case run_in lib cfg h task wd ?s of
     (Inl e, s') \<Rightarrow> \<exists>p. accepted (protocol_of lib cfg h task) (trace s') p \<and> closed p
   | (Inr oc, s') \<Rightarrow> accepted (protocol_of lib cfg h task) (trace s') (Over (Some (oc_status oc = ''done'')))"
    by (rule run_in_accepted) (simp_all add: protocol_of_def)
  then show ?thesis using Inr by (auto simp: run_def split: prod.splits sum.splits)
qed

lemma run_trace_accepted: "\<exists>p. accepted (protocol_of lib cfg h task) (trace (snd (run lib cfg h task w))) p"
  using run_accepted [of lib cfg h task w] by (auto split: prod.splits sum.splits)

text \<open>
  C3: the code refines the protocol: whatever the adapter, the sink and the checks answer or raise, the calls of a run are
  ones the protocol allows, in an order it allows, and the status the caller gets is the one that was reported.
\<close>

theorem run_follows_protocol:
  "case run lib cfg h task w of
     (Inl e, s) \<Rightarrow> \<exists>p. accepted (protocol_of lib cfg h task) (trace s) p
   | (Inr oc, s) \<Rightarrow> accepted (protocol_of lib cfg h task) (trace s) (Over (Some (oc_status oc = ''done'')))"
  using run_accepted [of lib cfg h task w] by (auto split: prod.splits sum.splits)

subsection \<open>How a phase was reached\<close>

inductive_simps into_Fresh: "moves c p e Fresh"
inductive_simps into_OnRecord: "moves c p e (OnRecord b)"
inductive_simps into_Filed: "moves c p e (Filed b)"
inductive_simps into_Cleared: "moves c p e (Cleared b s t)"
inductive_simps into_Rejudging: "moves c p e (Rejudging m b s)"
inductive_simps into_Kept: "moves c p e (Kept m b)"
inductive_simps into_Screened: "moves c p e (Screened m)"
inductive_simps into_Leased: "moves c p e (Leased b)"
inductive_simps into_Renewed: "moves c p e (Renewed b)"
inductive_simps into_Out: "moves c p e (Out b)"

lemma last_move:
  assumes "accepted c tr p" "p \<noteq> Fresh"
  shows "\<exists>e tr' q. tr = e # tr' \<and> accepted c tr' q \<and> moves c q e p"
  using assms by (cases rule: accepted.cases) auto

lemma accepted_Fresh: "accepted c tr Fresh \<Longrightarrow> tr = []"
  by (erule accepted.cases) (auto simp: into_Fresh)

lemma back_Screened:
  "accepted c tr (Screened m) \<Longrightarrow>
     \<exists>changed tr'. tr = Changed (Some changed) # tr' \<and> accepted c tr' (Held m) \<and> may_write c m \<and> clean c m changed"
  by (drule last_move) (auto simp: into_Screened)

lemma back_Kept:
  "accepted c tr (Kept m b) \<Longrightarrow>
     \<exists>tr'. tr = Committed b True # tr' \<and> accepted c tr' (Screened m)
       \<and> publishing_policy c m \<noteq> PR_POLICY_NEVER \<and> assert_pushable (task_branch (pr_task c)) = Inr b"
  by (drule last_move) (auto simp: into_Kept)

lemma back_Rejudging:
  "accepted c tr (Rejudging m b s) \<Longrightarrow>
     \<exists>tr'. tr = Gated (mt_user m) (Some s) # tr' \<and> accepted c tr' (Kept m b) \<and> needs_green c m"
  by (drule last_move) (auto simp: into_Rejudging)

lemma back_Cleared:
  "accepted c tr (Cleared b s t) \<Longrightarrow>
     \<exists>m tr'. tr = AiGated (mt_ai m) (Some t) # tr' \<and> accepted c tr' (Rejudging m b s) \<and> may_open_pr (assurance_of s t)"
  by (drule last_move) (auto simp: into_Cleared)

lemma back_OnRecord: "accepted c tr (OnRecord b) \<Longrightarrow> \<exists>tr'. tr = Recorded True # tr' \<and> accepted c tr' (Filed b)"
  by (drule last_move) (auto simp: into_OnRecord)

lemma back_Filed:
  "accepted c tr (Filed b) \<Longrightarrow> \<exists>d tr'. tr = Emitted d True # tr' \<and>
     ((\<exists>m. accepted c tr' (Kept m b) \<and> \<not> needs_green c m) \<or> (\<exists>s t. accepted c tr' (Cleared b s t) \<and> reports d s t))"
  by (drule last_move) (auto simp: into_Filed)

lemma back_leases:
  "accepted c tr (Leased b) \<Longrightarrow> \<exists>tr'. tr = LeaseAsked True # tr' \<and> accepted c tr' (OnRecord b) \<and> pr_guarded c"
  "accepted c tr (Renewed b) \<Longrightarrow> \<exists>tr'. tr = LeaseAsked True # tr' \<and> accepted c tr' (Out b) \<and> pr_guarded c"
  "accepted c tr (Out b) \<Longrightarrow> \<exists>tr'. tr = Pushed b True # tr'"
  by (drule last_move; auto simp: into_Leased into_Renewed into_Out)+

text \<open>What stands behind a branch that may be pushed: the calls since the paths were reported, without a gap.\<close>

definition rejudged :: "protocol \<Rightarrow> matter \<Rightarrow> dict \<Rightarrow> event list \<Rightarrow> bool" where
  "rejudged c m d calls =
     (if needs_green c m
      then \<exists>s t. calls = [AiGated (mt_ai m) (Some t), Gated (mt_user m) (Some s)] \<and> may_open_pr (assurance_of s t) \<and> reports d s t
      else calls = [])"

definition earned :: "protocol \<Rightarrow> string \<Rightarrow> event list \<Rightarrow> bool" where
  "earned c b earlier \<longleftrightarrow> assert_pushable (task_branch (pr_task c)) = Inr b \<and>
     (\<exists>m d calls changed rest.
        earlier = Recorded True # Emitted d True # calls @ Committed b True # Changed (Some changed) # rest
        \<and> may_write c m \<and> clean c m changed \<and> publishing_policy c m \<noteq> PR_POLICY_NEVER \<and> rejudged c m d calls
        \<and> Froze (mt_user m) (mt_ai m) \<in> set rest
        \<and> (\<exists>files. ContextRead (Some files) \<in> set rest \<and> mt_policy m = agreed_policy c files))"

lemma matter_agreed:
  assumes "accepted c tr p"
  shows "case p of
     Informed pol \<Rightarrow> \<exists>files. ContextRead (Some files) \<in> set tr \<and> pol = agreed_policy c files
   | Held m \<Rightarrow> Froze (mt_user m) (mt_ai m) \<in> set tr \<and> (\<exists>files. ContextRead (Some files) \<in> set tr \<and> mt_policy m = agreed_policy c files)
   | _ \<Rightarrow> True"
  using assms
proof (induction rule: accepted.induct)
  case (next_call tr p e q)
  from next_call.hyps(2) next_call.IH show ?case by (cases rule: moves.cases) auto
qed simp

lemma kept_earned:
  assumes "accepted c tr (Kept m b)" "rejudged c m d calls"
  shows "earned c b (Recorded True # Emitted d True # calls @ tr)"
proof -
  obtain tr1 where 1: "tr = Committed b True # tr1" "accepted c tr1 (Screened m)"
      "publishing_policy c m \<noteq> PR_POLICY_NEVER" "assert_pushable (task_branch (pr_task c)) = Inr b"
    using back_Kept [OF assms(1)] by blast
  obtain changed rest where 2: "tr1 = Changed (Some changed) # rest" "accepted c rest (Held m)" "may_write c m" "clean c m changed"
    using back_Screened [OF 1(2)] by blast
  have "Froze (mt_user m) (mt_ai m) \<in> set rest" "\<exists>files. ContextRead (Some files) \<in> set rest \<and> mt_policy m = agreed_policy c files"
    using matter_agreed [OF 2(2)] by auto
  then show ?thesis unfolding earned_def using 1 2 assms(2) by blast
qed

lemma onrecord_earned:
  assumes "accepted c tr (OnRecord b)"
  shows "earned c b tr"
proof -
  obtain d rest where tr: "tr = Recorded True # Emitted d True # rest"
    and rest: "(\<exists>m. accepted c rest (Kept m b) \<and> \<not> needs_green c m) \<or> (\<exists>s t. accepted c rest (Cleared b s t) \<and> reports d s t)"
    using back_OnRecord [OF assms] back_Filed by blast
  from rest show ?thesis
  proof (elim disjE exE conjE)
    fix m assume "accepted c rest (Kept m b)" "\<not> needs_green c m"
    then show ?thesis using kept_earned [of c rest m b d "[]"] tr by (simp add: rejudged_def)
  next
    fix s t assume cleared: "accepted c rest (Cleared b s t)" and reports: "reports d s t"
    obtain m tr1 where 1: "rest = AiGated (mt_ai m) (Some t) # tr1" "accepted c tr1 (Rejudging m b s)" "may_open_pr (assurance_of s t)"
      using back_Cleared [OF cleared] by blast
    obtain tr2 where 2: "tr1 = Gated (mt_user m) (Some s) # tr2" "accepted c tr2 (Kept m b)" "needs_green c m"
      using back_Rejudging [OF 1(2)] by blast
    then have "rejudged c m d [AiGated (mt_ai m) (Some t), Gated (mt_user m) (Some s)]"
      using 1 reports by (simp add: rejudged_def)
    from kept_earned [OF 2(2) this] show ?thesis using 1 2 tr by simp
  qed
qed

fun before_each :: "(event list \<Rightarrow> event \<Rightarrow> bool) \<Rightarrow> event list \<Rightarrow> bool" where
  "before_each P [] \<longleftrightarrow> True"
| "before_each P (e # earlier) \<longleftrightarrow> P earlier e \<and> before_each P earlier"

lemma before_each_accepted:
  assumes "accepted c tr p" "\<And>tr p e q. accepted c tr p \<Longrightarrow> moves c p e q \<Longrightarrow> P tr e"
  shows "before_each P tr"
  using assms(1) by (induction rule: accepted.induct) (auto intro: assms(2))

text \<open>A rule for a call stands for the failing call too.\<close>

lemma failure_of_Pushed: "failure_of e = Some (Pushed b ok) \<Longrightarrow> \<exists>ok'. e = Pushed b ok'"
  and failure_of_Proposed: "failure_of e = Some (Proposed b ok) \<Longrightarrow> \<exists>ok'. e = Proposed b ok'"
  and failure_of_Committed: "failure_of e = Some (Committed b ok) \<Longrightarrow> \<exists>ok'. e = Committed b ok'"
  by (cases e; auto)+

lemma move_pushed: "moves c p (Pushed b ok) q \<Longrightarrow> p = Leased b \<or> \<not> pr_guarded c \<and> p = OnRecord b"
proof (induction p "Pushed b ok" q arbitrary: ok rule: moves.induct)
  case (broken p e q)
  then show ?case using failure_of_Pushed by blast
qed auto

lemma move_proposed: "moves c p (Proposed b ok) q \<Longrightarrow> p = Renewed b \<or> \<not> pr_guarded c \<and> p = Out b"
proof (induction p "Proposed b ok" q arbitrary: ok rule: moves.induct)
  case (broken p e q)
  then show ?case using failure_of_Proposed by blast
qed auto

text \<open>With a publish guard, it has just confirmed the lease.\<close>

definition lease_first :: "protocol \<Rightarrow> event list \<Rightarrow> event list \<Rightarrow> bool" where
  "lease_first c earlier rest = (if pr_guarded c then earlier = LeaseAsked True # rest else earlier = rest)"

lemma leased_earned:
  assumes "p = Leased b \<or> \<not> pr_guarded c \<and> p = OnRecord b" "accepted c tr p"
  shows "\<exists>rest. lease_first c tr rest \<and> earned c b rest"
  using assms onrecord_earned back_leases(1) unfolding lease_first_def by metis

lemma renewed_out:
  assumes "p = Renewed b \<or> \<not> pr_guarded c \<and> p = Out b" "accepted c tr p"
  shows "\<exists>rest. lease_first c tr (Pushed b True # rest)"
  using assms back_leases(2,3) unfolding lease_first_def by metis


subsection \<open>How a run ends\<close>

definition env_call :: "event \<Rightarrow> bool" where
  "env_call e = (case e of EnvSet env ok \<Rightarrow> True | _ \<Rightarrow> False)"

definition status_call :: "event \<Rightarrow> bool" where
  "status_call e = (case e of DoneMarked ok \<Rightarrow> True | FailedMarked r ok \<Rightarrow> True | _ \<Rightarrow> False)"

definition env_dropped :: "event list \<Rightarrow> bool" where
  "env_dropped tr = (case find env_call tr of Some (EnvSet env ok) \<Rightarrow> if ok then env = [] else True | _ \<Rightarrow> False)"

definition told_status :: "event list \<Rightarrow> bool option" where
  "told_status tr = (case find status_call tr of
     Some (DoneMarked ok) \<Rightarrow> if ok then Some True else None
   | Some (FailedMarked r ok) \<Rightarrow> if ok then Some False else None
   | _ \<Rightarrow> None)"

lemma closed_env:
  assumes "accepted c tr p"
  shows "closed p \<Longrightarrow> env_dropped tr"
  using assms
proof (induction rule: accepted.induct)
  case (next_call tr p e q)
  from next_call.hyps(2) next_call.IH next_call.prems show ?case
    by (cases rule: moves.cases) (auto simp: env_dropped_def env_call_def)
qed simp

lemma told_accepted:
  assumes "accepted c tr p"
  shows "p = Told b \<or> p = Cleaned (Some b) \<or> p = Over (Some b) \<Longrightarrow> told_status tr = Some b"
  using assms
proof (induction rule: accepted.induct)
  case (next_call tr p e q)
  from next_call.hyps(2) next_call.IH next_call.prems show ?case
    by (cases rule: moves.cases) (auto simp: told_status_def status_call_def)
qed simp

text \<open>
  C18: no run leaves the model's credentials behind: unless it ended before its first call, the last time it set the
  adapter's environment it set the empty one (or that call raised), on every path, also when the sink or a check raises.
\<close>

theorem credentials_are_dropped:
  "case trace (snd (run lib cfg h task w)) of [] \<Rightarrow> True | e # tr \<Rightarrow> env_dropped (e # tr)"
  using run_accepted [of lib cfg h task w]
  by (auto split: prod.splits sum.splits list.splits dest: closed_env accepted_Fresh)

text \<open>
  C19: the sink hears what the caller hears: when \<open>run\<close> returns, the last status it reported reached the sink, and it is
  \<open>done\<close> exactly if the outcome says so.
\<close>

theorem outcome_is_reported:
  "case run lib cfg h task w of
     (Inl e, s) \<Rightarrow> True | (Inr oc, s) \<Rightarrow> told_status (trace s) = Some (oc_status oc = ''done'')"
  using run_accepted [of lib cfg h task w] by (auto split: prod.splits sum.splits dest: told_accepted)

end
