(* ===== verification/RunnerGit.thy ===== *)
theory RunnerGit
  imports Runner Boundaries
begin

section \<open>The adapter that drives git\<close>

text \<open>
  \<open>SubprocessRunnerAdapter\<close> of \<open>services/agent_runner.py\<close>, as far as it runs git: \<open>clone\<close>, \<open>changed_paths\<close>, \<open>commit\<close>, \<open>push\<close> and
  the check of \<open>.git/config\<close>. A git command is a constructor of \<open>git_cmd\<close>, \<open>argv\<close> spells it out; git itself, and the program that
  may have written the checkout in between, is one function from a command and a world to what \<open>_run\<close> returns or raises. The
  adapter's state is the digest recorded after the clone and a log of the commands with their replies, the latest first.
\<close>

datatype git_cmd =
    CloneCmd string string | FetchTip string | FetchSha string string | Checkout string string
  | StatusAll string | StatusCmd string | AddAll string | RevParse string | CommitCmd string string string
  | LsRemote string string string | PushCmd string string string string

text \<open>The argument vectors; the third argument of a commit and the second of a push is the empty hooks directory.\<close>

definition no_hooks_args :: "string \<Rightarrow> string list" where
  "no_hooks_args hooks = [''-c'', ''core.hooksPath='' @ hooks]"

fun git_args :: "git_cmd \<Rightarrow> string list" where
  "git_args (CloneCmd url target) = [''clone'', ''--quiet'', ''--no-checkout'', ''--filter=blob:none'', ''--no-tags'', url, target]"
| "git_args (FetchTip target) = [''-C'', target, ''fetch'', ''--quiet'', ''--depth'', ''1'', ''origin'']"
| "git_args (FetchSha target sha) = [''-C'', target, ''fetch'', ''--quiet'', ''--depth'', ''1'', ''origin'', sha]"
| "git_args (Checkout target what) = [''-C'', target, ''checkout'', ''--quiet'', ''--detach'', what]"
| "git_args (StatusAll dir) =
     [''-C'', dir, ''-c'', ''core.fsmonitor=false'', ''status'', ''--porcelain'', ''--untracked-files=all'']"
| "git_args (StatusCmd dir) = [''-C'', dir, ''-c'', ''core.fsmonitor=false'', ''status'', ''--porcelain'']"
| "git_args (AddAll dir) = [''-C'', dir, ''-c'', ''core.fsmonitor=false'', ''add'', ''-A'']"
| "git_args (RevParse dir) = [''-C'', dir, ''rev-parse'', ''HEAD'']"
| "git_args (CommitCmd dir message hooks) =
     [''-C'', dir] @ no_hooks_args hooks @ [''-c'', ''user.name=openfish-agent'', ''-c'', ''user.email=agent@openfish.invalid'',
      ''commit'', ''--quiet'', ''--no-verify'', ''-m'', message]"
| "git_args (LsRemote dir url branch) = [''-C'', dir, ''ls-remote'', ''--heads'', url, ''refs/heads/'' @ branch]"
| "git_args (PushCmd dir hooks url branch) =
     [''-C'', dir] @ no_hooks_args hooks @ [''push'', ''--quiet'', url, ''HEAD:refs/heads/'' @ branch]"

text \<open>\<open>_run\<close>: the credential helper goes in front of the arguments, the token only into the environment.\<close>

definition argv :: "string \<Rightarrow> string \<Rightarrow> string list \<Rightarrow> git_cmd \<Rightarrow> string list" where
  "argv binary token helper_args cmd = binary # (if token \<noteq> [] then helper_args else []) @ git_args cmd"

definition child_extra :: "string \<Rightarrow> string \<Rightarrow> (string \<times> string) list" where
  "child_extra token host = (''GIT_TERMINAL_PROMPT'', ''0'') # git_env token host"

record 'w git_host =
  git :: "git_cmd \<Rightarrow> ('w, string) op"
  config_text :: "'w \<Rightarrow> string option"
  hooks_dir :: "('w, string) op"

record 'w git_state =
  gw :: 'w
  digest :: "string option"
  commands :: "(git_cmd \<times> (run_error + string)) list"

type_synonym ('w, 'a) git_act = "('w git_state, 'a) op"

definition run_git :: "'w git_host \<Rightarrow> git_cmd \<Rightarrow> ('w, string) git_act" where
  "run_git g cmd s = (case git g cmd (gw s) of (r, w) \<Rightarrow> (r, s\<lparr>gw := w, commands := (cmd, r) # commands s\<rparr>))"

definition fresh_hooks :: "'w git_host \<Rightarrow> ('w, string) git_act" where
  "fresh_hooks g s = (case hooks_dir g (gw s) of (r, w) \<Rightarrow> (r, s\<lparr>gw := w\<rparr>))"

definition config_hash :: "(string \<Rightarrow> string) \<Rightarrow> string option \<Rightarrow> string" where
  "config_hash sha256 config = (case config of None \<Rightarrow> [] | Some t \<Rightarrow> sha256 t)"

definition CONFIG_REWRITTEN :: run_error where "CONFIG_REWRITTEN = RunnerError ''config rewritten''"
definition NO_COMMIT :: run_error where "NO_COMMIT = RunnerError ''nothing to push''"
definition NO_URL :: run_error where "NO_URL = RunnerError ''no url''"
definition REMOTE_EXISTS :: run_error where "REMOTE_EXISTS = RunnerError ''remote branch exists''"

definition assert_config_untouched :: "(string \<Rightarrow> string) \<Rightarrow> 'w git_host \<Rightarrow> ('w, unit) git_act" where
  "assert_config_untouched sha256 g s =
     (if digest s = None \<or> digest s \<noteq> Some (config_hash sha256 (config_text g (gw s))) then (Inl CONFIG_REWRITTEN, s) else (Inr (), s))"

text \<open>\<open>clone\<close>: without a commit the tip of the default branch; a forge that does not serve the commit serves the tip.\<close>

definition clone_repo :: "(string \<Rightarrow> string) \<Rightarrow> 'w git_host \<Rightarrow> string \<Rightarrow> string \<Rightarrow> string \<Rightarrow> ('w, unit) git_act" where
  "clone_repo sha256 g target url sha =
     andthen (run_git g (CloneCmd url target)) (\<lambda>_.
     andthen (if py_strip sha = []
              then andthen (run_git g (FetchTip target)) (\<lambda>_. run_git g (Checkout target ''FETCH_HEAD''))
              else handling
                (andthen (run_git g (FetchSha target sha)) (\<lambda>_. run_git g (Checkout target ''FETCH_HEAD'')))
                (\<lambda>e. if is_runner_error e
                     then andthen (run_git g (FetchTip target)) (\<lambda>_. run_git g (Checkout target sha)) else raised e)) (\<lambda>_.
     (\<lambda>s. (Inr (), s\<lparr>digest := Some (config_hash sha256 (config_text g (gw s)))\<rparr>))))"

text \<open>The names of \<open>git status --porcelain\<close>: what follows the two state letters and a blank.\<close>

definition changed_names :: "string \<Rightarrow> string \<Rightarrow> string list" where
  "changed_names sandbox_home output =
     filter (\<lambda>name. name \<noteq> [] \<and> \<not> is_transient_path sandbox_home name) (map (\<lambda>line. py_strip (drop 3 line)) (splitlines output))"

definition changed_paths :: "(string \<Rightarrow> string) \<Rightarrow> 'w git_host \<Rightarrow> string \<Rightarrow> string \<Rightarrow> ('w, string list) git_act" where
  "changed_paths sha256 g sandbox_home dir =
     andthen (assert_config_untouched sha256 g) (\<lambda>_.
     andthen (run_git g (StatusAll dir)) (\<lambda>output. give (changed_names sandbox_home output)))"

definition commit :: "(string \<Rightarrow> string) \<Rightarrow> 'w git_host \<Rightarrow> string \<Rightarrow> string \<Rightarrow> ('w, unit) git_act" where
  "commit sha256 g dir message =
     andthen (assert_config_untouched sha256 g) (\<lambda>_.
     andthen (run_git g (RevParse dir)) (\<lambda>before.
     andthen (run_git g (StatusCmd dir)) (\<lambda>pending.
     andthen (if py_strip pending \<noteq> []
              then andthen (run_git g (AddAll dir)) (\<lambda>_.
                   andthen (fresh_hooks g) (\<lambda>hooks.
                   andthen (run_git g (CommitCmd dir message hooks)) (\<lambda>_. give ())))
              else give ()) (\<lambda>_.
     andthen (run_git g (RevParse dir)) (\<lambda>head.
     if py_strip head = [] \<or> py_strip head = py_strip before then raised NO_COMMIT else give ())))))"

definition remote_head :: "'w git_host \<Rightarrow> string \<Rightarrow> string \<Rightarrow> string \<Rightarrow> ('w, string) git_act" where
  "remote_head g dir url branch =
     andthen (run_git g (LsRemote dir url branch)) (\<lambda>output.
     give (case py_words output of [] \<Rightarrow> [] | sha # _ \<Rightarrow> sha))"

text \<open>The second half of \<open>push\<close>, once \<open>HEAD\<close> is known.\<close>

definition push_head :: "'w git_host \<Rightarrow> string \<Rightarrow> string \<Rightarrow> string \<Rightarrow> string \<Rightarrow> ('w, unit) git_act" where
  "push_head g dir target branch head =
     andthen (remote_head g dir target branch) (\<lambda>remote.
     if remote \<noteq> [] \<and> head \<noteq> [] \<and> remote = head then give ()
     else if remote \<noteq> [] then raised REMOTE_EXISTS
     else andthen (fresh_hooks g) (\<lambda>hooks. andthen (run_git g (PushCmd dir hooks target branch)) (\<lambda>_. give ())))"

definition push :: "(string \<Rightarrow> string) \<Rightarrow> 'w git_host \<Rightarrow> string \<Rightarrow> string \<Rightarrow> string \<Rightarrow> ('w, unit) git_act" where
  "push sha256 g dir branch repo_url =
     andthen (checked (assert_pushable branch)) (\<lambda>_.
     (let target = py_strip repo_url in
      if target = [] then raised NO_URL
      else
        andthen (assert_config_untouched sha256 g) (\<lambda>_.
        andthen (run_git g (RevParse dir)) (\<lambda>out. push_head g dir target branch (py_strip out)))))"

subsection \<open>A push never overwrites\<close>

definition is_push :: "git_cmd \<Rightarrow> bool" where
  "is_push cmd = (case cmd of PushCmd dir hooks url branch \<Rightarrow> True | _ \<Rightarrow> False)"

lemmas git_steps = andthen_def run_git_def fresh_hooks_def give_def raised_def checked_def assert_config_untouched_def
  remote_head_def Let_def

lemma words_from_nonempty: "w \<in> set (words_from acc s) \<Longrightarrow> w \<noteq> []"
  by (induction acc s rule: words_from.induct) (auto split: if_split_asm)

lemma py_words_Cons: "py_words s = w # ws \<Longrightarrow> w \<noteq> []"
  using words_from_nonempty [of w "[]" s] by (simp add: py_words_def)

lemma push_head_log:
  fixes g :: "'w git_host"
  shows "case push_head g dir target branch head s of
     (r, s') \<Rightarrow> \<exists>issued. commands s' = issued @ commands s \<and>
       (if list_ex (is_push \<circ> fst) issued
        then \<exists>reply out hooks. issued = [(PushCmd dir hooks target branch, reply), (LsRemote dir target branch, Inr out)] \<and> py_words out = []
        else True)"
proof -
  obtain r w where ls: "git g (LsRemote dir target branch) (gw s) = (r, w)" by (cases "git g (LsRemote dir target branch) (gw s)")
  show ?thesis
  proof (cases r)
    case (Inl e)
    then show ?thesis using ls by (simp add: push_head_def remote_head_def andthen_def run_git_def is_push_def)
  next
    case (Inr out)
    obtain h w' where hooks: "hooks_dir g w = (h, w')" by (cases "hooks_dir g w")
    show ?thesis
    proof (cases "py_words out")
      case Nil
      show ?thesis
      proof (cases h)
        case (Inl e)
        then show ?thesis using ls Inr hooks Nil
          by (simp add: push_head_def remote_head_def andthen_def run_git_def give_def fresh_hooks_def is_push_def)
      next
        case (Inr d)
        obtain r' w'' where "git g (PushCmd dir d target branch) w' = (r', w'')" by (cases "git g (PushCmd dir d target branch) w'")
        then show ?thesis using ls \<open>r = Inr out\<close> Inr hooks Nil
          by (cases r') (simp_all add: push_head_def remote_head_def andthen_def run_git_def give_def fresh_hooks_def is_push_def)
      qed
    next
      case (Cons sha rest)
      then show ?thesis using ls Inr py_words_Cons [OF Cons]
        by (simp add: push_head_def remote_head_def andthen_def run_git_def give_def raised_def is_push_def)
    qed
  qed
qed

text \<open>
  C20: a push goes only to a branch the remote does not have. If \<open>push\<close> issues a push command at all, it is its last command,
  to the task's own repository whatever the checkout's configuration names, for a branch that passed the guard, right after
  the remote answered that it has no such branch; and the configuration is the one recorded after the clone.
\<close>

theorem push_never_overwrites:
  "case push sha256 g dir branch url s of
     (r, s') \<Rightarrow> \<exists>issued. commands s' = issued @ commands s \<and>
       (if list_ex (is_push \<circ> fst) issued
        then (\<exists>reply out head hooks. issued =
            [(PushCmd dir hooks (py_strip url) branch, reply), (LsRemote dir (py_strip url) branch, Inr out), (RevParse dir, Inr head)]
            \<and> py_words out = []) \<and> isl (assert_pushable branch) = False
          \<and> digest s = Some (config_hash sha256 (config_text g (gw s)))
        else True)"
proof (cases "assert_pushable branch")
  case (Inl e)
  then show ?thesis by (simp add: push_def andthen_def checked_def)
next
  case (Inr b)
  obtain r w where head: "git g (RevParse dir) (gw s) = (r, w)" by (cases "git g (RevParse dir) (gw s)")
  show ?thesis
  proof (cases "py_strip url = [] \<or> digest s = None \<or> digest s \<noteq> Some (config_hash sha256 (config_text g (gw s)))")
    case True
    then show ?thesis using Inr by (auto simp: push_def andthen_def checked_def Let_def raised_def assert_config_untouched_def)
  next
    case False
    then have config: "digest s = Some (config_hash sha256 (config_text g (gw s)))" and "py_strip url \<noteq> []" by auto
    then have push: "push sha256 g dir branch url s = andthen (run_git g (RevParse dir)) (\<lambda>out. push_head g dir (py_strip url) branch (py_strip out)) s"
      using Inr by (simp add: push_def andthen_def checked_def Let_def assert_config_untouched_def)
    show ?thesis
    proof (cases r)
      case (Inl e)
      then show ?thesis unfolding push using head by (simp add: andthen_def run_git_def is_push_def)
    next
      case (Inr out)
      let ?s = "s\<lparr>gw := w, commands := (RevParse dir, Inr out) # commands s\<rparr>"
      obtain r' s' where pushed: "push_head g dir (py_strip url) branch (py_strip out) ?s = (r', s')"
        by (cases "push_head g dir (py_strip url) branch (py_strip out) ?s")
      then obtain issued where "commands s' = issued @ (RevParse dir, Inr out) # commands s" and
          "if list_ex (is_push \<circ> fst) issued then \<exists>reply out hooks. issued =
            [(PushCmd dir hooks (py_strip url) branch, reply), (LsRemote dir (py_strip url) branch, Inr out)] \<and> py_words out = []
           else True"
        using push_head_log [where g = g and s = ?s, of dir "py_strip url" branch "py_strip out"] by auto
      then show ?thesis
        unfolding push using head Inr pushed config \<open>assert_pushable branch = Inr b\<close>
        by (auto simp: andthen_def run_git_def is_push_def intro!: exI [of _ "issued @ [(RevParse dir, Inr out)]"] split: if_split_asm)
    qed
  qed
qed


subsection \<open>What the path guard gets to see\<close>

text \<open>
  The lines of \<open>git status --porcelain\<close> for a library renamed into the suite, a new check whose name holds a blank
  (git quotes it) and one under a cache directory.
\<close>

definition sneaky_status :: string where
  "sneaky_status = ''R  lib.py -> .agent/checks/check_a.py'' @ [CHR 0x0A]
     @ ''?? '' @ [CHR 0x22] @ ''.agent/checks/check b.py'' @ [CHR 0x22, CHR 0x0A]
     @ ''?? .agent/checks/__pycache__/check_c.py'' @ [CHR 0x0A]"

definition sneaky_names :: "string list" where
  "sneaky_names = [''lib.py -> .agent/checks/check_a.py'', [CHR 0x22] @ ''.agent/checks/check b.py'' @ [CHR 0x22]]"

lemma sneaky_changed: "changed_names ''.sandbox-home'' sneaky_status = sneaky_names"
  by code_simp

lemma sneaky_unprotected:
  "normalize_repo_path (sneaky_names ! 0) = sneaky_names ! 0" "normalize_repo_path (sneaky_names ! 1) = sneaky_names ! 1"
  "fix_violation [] (sneaky_names ! 0) = False" "fix_violation [] (sneaky_names ! 1) = False"
  by code_simp+

lemma fix_violation_executed: "fix_violation executed n = (n \<in> set executed \<or> fix_violation [] n)"
  by (simp add: fix_violation_def)

text \<open>
  C24: the path guard reads the printed form of a change, not its paths. A file renamed into the frozen suite, a new check whose
  name git quotes, and one under a cache directory are reported to it as names it does not protect, so that a fix which
  writes all three passes, although each of the paths alone is refused.
\<close>

theorem suite_edits_escape_as_printed:
  assumes "list_all (\<lambda>p. CHR '' '' \<notin> set p) (suite_script_paths suite)"
  shows "fix_guard_violations (changed_names ''.sandbox-home'' sneaky_status) (Some suite) = []
    \<and> fix_guard_violations [''.agent/checks/check_a.py'', ''.agent/checks/check b.py'', ''.agent/checks/__pycache__/check_c.py''] (Some suite)
      = [''.agent/checks/check_a.py'', ''.agent/checks/check b.py'', ''.agent/checks/__pycache__/check_c.py'']"
proof
  have blank: "CHR '' '' \<in> set (sneaky_names ! 0)" "CHR '' '' \<in> set (sneaky_names ! 1)" by code_simp+
  have two: "sneaky_names = [sneaky_names ! 0, sneaky_names ! 1]" by (simp add: sneaky_names_def)
  have "sneaky_names ! 0 \<notin> set (suite_script_paths suite)" "sneaky_names ! 1 \<notin> set (suite_script_paths suite)"
    using assms blank unfolding list_all_iff by blast+
  then show "fix_guard_violations (changed_names ''.sandbox-home'' sneaky_status) (Some suite) = []"
    unfolding sneaky_changed fix_guard_violations_def
    by (subst two) (simp add: sneaky_unprotected fix_violation_executed [of "suite_script_paths suite"] Let_def del: One_nat_def)
  have "normalize_repo_path p = p \<and> fix_violation [] p"
    if "p \<in> {''.agent/checks/check_a.py'', ''.agent/checks/check b.py'', ''.agent/checks/__pycache__/check_c.py''}" for p
    using that by (elim insertE emptyE; simp only:; code_simp)
  then show "fix_guard_violations [''.agent/checks/check_a.py'', ''.agent/checks/check b.py'', ''.agent/checks/__pycache__/check_c.py''] (Some suite)
      = [''.agent/checks/check_a.py'', ''.agent/checks/check b.py'', ''.agent/checks/__pycache__/check_c.py'']"
    by (simp add: fix_guard_violations_def fix_violation_executed [of "suite_script_paths suite"])
qed

definition demo_fix_suite :: check_suite where
  "demo_fix_suite = \<lparr>suite_checks = [\<lparr>cmd_id = ''unit'', cmd_argv = [''python'', ''run_tests.py''], cmd_cwd = ''.'', cmd_timeout = None,
     cmd_validation = VALIDATED, cmd_source = SOURCE_POLICY\<rparr>], source_of = SOURCE_POLICY\<rparr>"

lemma demo_fix_paths: "list_all (\<lambda>p. CHR '' '' \<notin> set p) (suite_script_paths demo_fix_suite)"
  by code_simp

theorem suite_edits_escape_as_printed_witness:
  "fix_guard_violations (changed_names ''.sandbox-home'' sneaky_status) (Some demo_fix_suite) = []"
  using suite_edits_escape_as_printed [OF demo_fix_paths] by blast

text \<open>
  a reviewer that commits its edits itself is refused, against the documentation of \<open>commit\<close>: with a clean work tree nothing
  is committed between the two readings of \<open>HEAD\<close>, so they agree, whatever the task started from.
\<close>

theorem self_committed_edits_are_refused:
  assumes "digest s = Some (config_hash sha256 (config_text g (gw s)))"
    and "\<And>w. git g (RevParse dir) w = (Inr head, w)" and "\<And>w. git g (StatusCmd dir) w = (Inr [], w)"
  shows "fst (commit sha256 g dir message s) = Inl NO_COMMIT"
  using assms by (simp add: commit_def git_steps py_strip_def py_lstrip_def py_rstrip_def)

definition quiet_git :: "unit git_host" where
  "quiet_git = \<lparr>git = (\<lambda>cmd w. (Inr (case cmd of RevParse d \<Rightarrow> ''4f2a'' | _ \<Rightarrow> []), w)), config_text = (\<lambda>w. Some ''[core]''),
     hooks_dir = (\<lambda>w. (Inr ''/tmp/openfish-hooks-x'', w))\<rparr>"

theorem self_committed_edits_are_refused_witness:
  "fst (commit (\<lambda>s. s) quiet_git ''/work/7/repo'' ''fix'' \<lparr>gw = (), digest = Some ''[core]'', commands = []\<rparr>) = Inl NO_COMMIT"
  by (rule self_committed_edits_are_refused [of _ _ _ _ "''4f2a''"]) (simp_all add: quiet_git_def config_hash_def)

end
