(* ===== verification/RepoRunners.thy ===== *)
theory RepoRunners
  imports Docs
begin

section \<open>One logical runner per repository\<close>

text \<open>
  \<open>services/repo_runner.py\<close> and the table \<open>repo_runners\<close> of \<open>models/agent_hub.py\<close>: the settings of a repository's runner, the
  workspace under the work root and the credential. One definition per method of \<open>RepoRunnerService\<close>, each its own transaction:
  it returns its value or the error it raises, and the tables as they then are. The cipher is a parameter, \<open>None\<close> when the
  key is missing or unusable; what the file system answers to creating a chain of directories is another.
\<close>

definition RUNNER_CREDENTIAL_SHARED :: string where "RUNNER_CREDENTIAL_SHARED = ''shared''"
definition RUNNER_CREDENTIAL_REPO :: string where "RUNNER_CREDENTIAL_REPO = ''repo''"
definition RUNNER_EGRESS_INHERIT :: string where "RUNNER_EGRESS_INHERIT = ''inherit''"
definition RUNNER_EGRESS_POLICIES :: "string list" where
  "RUNNER_EGRESS_POLICIES = [RUNNER_EGRESS_INHERIT, ''internal'', ''allowlist'']"
definition DEFAULT_WORKSPACE_SUBDIR :: string where "DEFAULT_WORKSPACE_SUBDIR = ''runners''"
definition CREDENTIAL_USERNAME :: string where "CREDENTIAL_USERNAME = ''x-access-token''"

datatype runner_refusal =
    AbsolutePath | Backslash | ControlChar | BadSegment | BadSegmentChar | WorkspaceTaken int | NegativeConcurrency
  | NoRepository | UnknownEgress | EmptyCredential | NoCredentialKey | CredentialExpired | CredentialUnreadable | CredentialEmpty | NotRealDirectory

subsection \<open>Workspace paths\<close>

definition segment_char :: "char \<Rightarrow> bool" where
  "segment_char c \<longleftrightarrow> is_alpha c \<or> is_digit c \<or> c = CHR ''.'' \<or> c = CHR ''_'' \<or> c = CHR ''-''"

definition default_subdir :: "int option \<Rightarrow> string" where
  "default_subdir runner_id =
     (case runner_id of None \<Rightarrow> DEFAULT_WORKSPACE_SUBDIR | Some i \<Rightarrow> DEFAULT_WORKSPACE_SUBDIR @ ''/'' @ str_of_int i)"

fun check_segments :: "string list \<Rightarrow> runner_refusal option" where
  "check_segments [] = None"
| "check_segments (s # ss) =
     (if s \<in> {[], ''.'', ''..''} then Some BadSegment
      else if \<not> list_all segment_char s then Some BadSegmentChar
      else check_segments ss)"

definition safe_workspace_subdir :: "string \<Rightarrow> int option \<Rightarrow> runner_refusal + string" where
  "safe_workspace_subdir v runner_id =
     (let raw = py_strip v in
      if raw = [] then Inr (default_subdir runner_id)
      else if hd raw = CHR ''/'' \<or> hd raw = CHR 0x5C then Inl AbsolutePath
      else if CHR 0x5C \<in> set raw then Inl Backslash
      else if list_ex (\<lambda>c. (of_char c :: nat) < 32 \<or> (of_char c :: nat) = 127) raw then Inl ControlChar
      else (case check_segments (split_on CHR ''/'' raw) of Some e \<Rightarrow> Inl e | None \<Rightarrow> Inr raw))"

subsection \<open>The table\<close>

record runner_row =
  rn_id :: int
  rn_repo :: int
  rn_name :: string
  rn_enabled :: bool
  rn_concurrency :: int
  rn_subdir :: string
  rn_egress :: string
  rn_allowlist :: "string option"
  rn_kind :: string
  rn_username :: "string option"
  rn_cipher :: "string option"
  rn_expires :: "timestamp option"
  rn_rotated :: "timestamp option"
  rn_last_task :: "timestamp option"

record runner_db =
  runner_rows :: "runner_row list"
  slug_of :: "int \<rightharpoonup> string"
  next_runner :: int

definition find_runner :: "runner_db \<Rightarrow> int \<Rightarrow> runner_row option" where
  "find_runner db repo = find (\<lambda>r. rn_repo r = repo) (runner_rows db)"

definition default_runner :: "int \<Rightarrow> int \<Rightarrow> string \<Rightarrow> runner_row" where
  "default_runner i repo name =
     \<lparr>rn_id = i, rn_repo = repo, rn_name = take 128 name, rn_enabled = True, rn_concurrency = 0, rn_subdir = [],
      rn_egress = RUNNER_EGRESS_INHERIT, rn_allowlist = None, rn_kind = RUNNER_CREDENTIAL_SHARED, rn_username = None,
      rn_cipher = None, rn_expires = None, rn_rotated = None, rn_last_task = None\<rparr>"

definition effective_subdir :: "runner_row \<Rightarrow> runner_refusal + string" where
  "effective_subdir r = safe_workspace_subdir (rn_subdir r) (Some (rn_id r))"

text \<open>The first other runner with the candidate as its workspace; a stored path that no longer validates raises on the way.\<close>

fun conflict_among :: "string \<Rightarrow> runner_row list \<Rightarrow> runner_refusal + runner_row option" where
  "conflict_among candidate [] = Inr None"
| "conflict_among candidate (r # rs) =
     and_then (effective_subdir r) (\<lambda>path. if path = candidate then Inr (Some r) else conflict_among candidate rs)"

definition workspace_conflict :: "runner_db \<Rightarrow> int \<Rightarrow> string \<Rightarrow> runner_refusal + runner_row option" where
  "workspace_conflict db repo candidate = conflict_among candidate (filter (\<lambda>r. rn_repo r \<noteq> repo) (runner_rows db))"

definition free_workspace :: "runner_db \<Rightarrow> int \<Rightarrow> string \<Rightarrow> runner_refusal + unit" where
  "free_workspace db repo candidate =
     and_then (workspace_conflict db repo candidate) (\<lambda>c. case c of Some r \<Rightarrow> Inl (WorkspaceTaken (rn_repo r)) | None \<Rightarrow> Inr ())"

text \<open>
  \<open>_create\<close>: the row is flushed first, so that its id names the default workspace, and rolled back on a collision. The
  flush fails on the foreign key when the repository does not exist.
\<close>

definition create_runner :: "id_source \<Rightarrow> runner_db \<Rightarrow> int \<Rightarrow> string \<Rightarrow> (runner_refusal + runner_row) \<times> runner_db" where
  "create_runner src db repo name =
     (let resolved = or_str (or_str (py_strip name) (py_strip (opt_str (slug_of db repo)))) (''repo-'' @ str_of_int repo);
          i = new_id src (next_runner db) (map rn_id (runner_rows db));
          drawn = db\<lparr>next_runner := next_runner db + 1\<rparr>
      in if slug_of db repo = None then (Inl NoRepository, drawn)
         else case and_then (safe_workspace_subdir [] (Some i)) (free_workspace db repo) of
           Inl e \<Rightarrow> (Inl e, drawn)
         | Inr u \<Rightarrow> (Inr (default_runner i repo resolved), drawn\<lparr>runner_rows := runner_rows db @ [default_runner i repo resolved]\<rparr>))"

definition ensure_runner :: "id_source \<Rightarrow> runner_db \<Rightarrow> int \<Rightarrow> string \<Rightarrow> (runner_refusal + runner_row) \<times> runner_db" where
  "ensure_runner src db repo name =
     (case find_runner db repo of Some r \<Rightarrow> (Inr r, db) | None \<Rightarrow> create_runner src db repo name)"

definition put_runner :: "runner_db \<Rightarrow> runner_row \<Rightarrow> runner_db" where
  "put_runner db row = db\<lparr>runner_rows := map (\<lambda>r. if rn_id r = rn_id row then row else r) (runner_rows db)\<rparr>"

text \<open>What a change does once the row is there: a row to persist, or an error after which the session is rolled back.\<close>

definition change_runner :: "id_source \<Rightarrow> runner_db \<Rightarrow> int \<Rightarrow> (runner_db \<Rightarrow> runner_row \<Rightarrow> runner_refusal + runner_row)
    \<Rightarrow> (runner_refusal + runner_row) \<times> runner_db" where
  "change_runner src db repo f =
     (case ensure_runner src db repo [] of
        (Inl e, db') \<Rightarrow> (Inl e, db')
      | (Inr r, db') \<Rightarrow> (case f db' r of Inl e \<Rightarrow> (Inl e, db') | Inr r' \<Rightarrow> (Inr r', put_runner db' r')))"

subsection \<open>Settings\<close>

record runner_settings =
  st_enabled :: "bool option"
  st_concurrency :: "int option"
  st_egress :: "string option"
  st_allowlist :: "string option"
  st_subdir :: "string option"

definition normalize_allowlist :: "string \<Rightarrow> string option" where
  "normalize_allowlist v =
     (let hosts = fold (\<lambda>raw hosts. let h = py_strip raw in if h \<noteq> [] \<and> h \<notin> set hosts then hosts @ [h] else hosts)
            (split_on CHR '','' (replace_char CHR '';'' CHR '','' v)) []
      in if hosts = [] then None else Some (join '','' hosts))"

text \<open>The checks before the session is opened; the value is the validated workspace, if one was given.\<close>

definition check_settings :: "runner_settings \<Rightarrow> runner_refusal + string option" where
  "check_settings u =
     (if (case st_concurrency u of None \<Rightarrow> False | Some n \<Rightarrow> n < 0) then Inl NegativeConcurrency
      else if (case st_egress u of None \<Rightarrow> False | Some p \<Rightarrow> py_strip p \<notin> set RUNNER_EGRESS_POLICIES) then Inl UnknownEgress
      else if py_strip (opt_str (st_subdir u)) = [] then Inr None
      else and_then (safe_workspace_subdir (opt_str (st_subdir u)) None) (\<lambda>path. Inr (Some path)))"

definition apply_settings :: "runner_settings \<Rightarrow> runner_row \<Rightarrow> runner_row" where
  "apply_settings u r =
     r\<lparr>rn_enabled := (case st_enabled u of None \<Rightarrow> rn_enabled r | Some b \<Rightarrow> b),
       rn_concurrency := (case st_concurrency u of None \<Rightarrow> rn_concurrency r | Some n \<Rightarrow> n),
       rn_egress := (case st_egress u of None \<Rightarrow> rn_egress r | Some p \<Rightarrow> py_strip p),
       rn_allowlist := (case st_allowlist u of None \<Rightarrow> rn_allowlist r | Some v \<Rightarrow> normalize_allowlist v)\<rparr>"

definition update_runner :: "id_source \<Rightarrow> runner_db \<Rightarrow> int \<Rightarrow> runner_settings \<Rightarrow> (runner_refusal + runner_row) \<times> runner_db" where
  "update_runner src db repo u =
     (case check_settings u of
        Inl e \<Rightarrow> (Inl e, db)
      | Inr subdir \<Rightarrow> change_runner src db repo (\<lambda>db r.
          if st_subdir u = None then Inr (apply_settings u r)
          else and_then (case subdir of Some path \<Rightarrow> Inr path | None \<Rightarrow> safe_workspace_subdir [] (Some (rn_id r))) (\<lambda>path.
               and_then (free_workspace db repo path) (\<lambda>_. Inr ((apply_settings u r)\<lparr>rn_subdir := path\<rparr>)))))"

subsection \<open>Credentials\<close>

record token_cipher =
  tc_encrypt :: "string \<Rightarrow> string"
  tc_decrypt :: "string \<Rightarrow> string option"

record runner_credential =
  cr_username :: string
  cr_token :: string
  cr_source :: string
  cr_expires :: "timestamp option"

definition set_credential :: "id_source \<Rightarrow> token_cipher option \<Rightarrow> runner_db \<Rightarrow> int \<Rightarrow> string \<Rightarrow> string \<Rightarrow> timestamp option
    \<Rightarrow> timestamp \<Rightarrow> (runner_refusal + runner_row) \<times> runner_db" where
  "set_credential src cipher db repo token username expires now =
     (let plaintext = py_strip token in
      if plaintext = [] then (Inl EmptyCredential, db)
      else (case cipher of
          None \<Rightarrow> (Inl NoCredentialKey, db)
        | Some c \<Rightarrow> change_runner src db repo (\<lambda>db r. Inr (r\<lparr>rn_kind := RUNNER_CREDENTIAL_REPO,
            rn_username := (if py_strip username = [] then None else Some (py_strip username)),
            rn_cipher := Some (tc_encrypt c plaintext), rn_expires := expires, rn_rotated := Some now\<rparr>))))"

definition clear_credential :: "id_source \<Rightarrow> runner_db \<Rightarrow> int \<Rightarrow> (runner_refusal + runner_row) \<times> runner_db" where
  "clear_credential src db repo = change_runner src db repo (\<lambda>db r.
     Inr (r\<lparr>rn_kind := RUNNER_CREDENTIAL_SHARED, rn_cipher := None, rn_username := None, rn_expires := None\<rparr>))"

definition reject_expired :: "timestamp \<Rightarrow> runner_row \<Rightarrow> runner_refusal + unit" where
  "reject_expired now r = (case rn_expires r of None \<Rightarrow> Inr () | Some t \<Rightarrow> if t \<le> now then Inl CredentialExpired else Inr ())"

definition open_token :: "token_cipher option \<Rightarrow> runner_row \<Rightarrow> runner_refusal + string" where
  "open_token cipher r =
     (case cipher of
        None \<Rightarrow> Inl NoCredentialKey
      | Some c \<Rightarrow> (case tc_decrypt c (opt_str (rn_cipher r)) of
            None \<Rightarrow> Inl CredentialUnreadable
          | Some t \<Rightarrow> if py_strip t = [] then Inl CredentialEmpty else Inr (py_strip t)))"

definition credential :: "token_cipher option \<Rightarrow> string \<Rightarrow> runner_db \<Rightarrow> int \<Rightarrow> timestamp \<Rightarrow> runner_refusal + runner_credential option" where
  "credential cipher shared db repo now =
     (case find_runner db repo of
        Some r \<Rightarrow>
          if rn_kind r = RUNNER_CREDENTIAL_REPO
          then and_then (reject_expired now r) (\<lambda>_. and_then (open_token cipher r) (\<lambda>t.
               Inr (Some \<lparr>cr_username = or_str (opt_str (rn_username r)) CREDENTIAL_USERNAME, cr_token = t,
                 cr_source = RUNNER_CREDENTIAL_REPO, cr_expires = rn_expires r\<rparr>)))
          else Inr (if py_strip shared = [] then None
            else Some \<lparr>cr_username = CREDENTIAL_USERNAME, cr_token = py_strip shared, cr_source = RUNNER_CREDENTIAL_SHARED,
              cr_expires = None\<rparr>)
      | None \<Rightarrow> Inr (if py_strip shared = [] then None
            else Some \<lparr>cr_username = CREDENTIAL_USERNAME, cr_token = py_strip shared, cr_source = RUNNER_CREDENTIAL_SHARED,
              cr_expires = None\<rparr>))"

subsection \<open>Workspace and activity\<close>

text \<open>\<open>real_chain base segments\<close>: whether every component down to the leaf is, or could be made, a real directory.\<close>

definition workspace_root :: "id_source \<Rightarrow> (string \<Rightarrow> string list \<Rightarrow> bool) \<Rightarrow> runner_db \<Rightarrow> int \<Rightarrow> string
    \<Rightarrow> (runner_refusal + string) \<times> runner_db" where
  "workspace_root src real_chain db repo base =
     (case ensure_runner src db repo [] of
        (Inl e, db') \<Rightarrow> (Inl e, db')
      | (Inr r, db') \<Rightarrow>
          (case effective_subdir r of
             Inl e \<Rightarrow> (Inl e, db')
           | Inr path \<Rightarrow>
               (if real_chain base (filter (\<lambda>s. s \<noteq> []) (split_on CHR ''/'' path)) then Inr (base @ ''/'' @ path)
                else Inl NotRealDirectory, db')))"

definition record_task :: "id_source \<Rightarrow> runner_db \<Rightarrow> int \<Rightarrow> timestamp \<Rightarrow> (runner_refusal + runner_row) \<times> runner_db" where
  "record_task src db repo now = change_runner src db repo (\<lambda>db r. Inr (r\<lparr>rn_last_task := Some now\<rparr>))"

text \<open>The row a read of an unconfigured repository shows, without creating it; its id is absent in the code.\<close>

definition runner_document :: "runner_db \<Rightarrow> int \<Rightarrow> string \<Rightarrow> runner_row" where
  "runner_document db repo name =
     (case find_runner db repo of
        Some r \<Rightarrow> r
      | None \<Rightarrow> default_runner 0 repo (or_str (py_strip name) (''repo-'' @ str_of_int repo)))"

end
