(* ===== verification/RepoRunnersProps.thy ===== *)
theory RepoRunnersProps
  imports RepoRunners DocsSafety DriftProps
begin

section \<open>What the runners of all repositories share, and what they do not\<close>

subsection \<open>Valid paths\<close>

lemma split_on_free: "c \<notin> set s \<Longrightarrow> split_on c s = [s]"
  by (induction s) auto

lemma split_on_first: "c \<notin> set s \<Longrightarrow> split_on c (s @ c # t) = s # split_on c t"
  by (induction s) auto

lemma segment_char_plain: "segment_char c \<Longrightarrow> \<not> py_isspace c \<and> c \<noteq> CHR ''/'' \<and> c \<noteq> CHR 0x5C \<and> 32 < (of_char c :: nat) \<and> (of_char c :: nat) < 127"
  by (auto simp: segment_char_def is_alpha_def is_digit_def py_isspace_def Let_def)

lemma str_of_int_segment: "list_all segment_char (str_of_int i) \<and> str_of_int i \<noteq> [] \<and> str_of_int i \<noteq> ''.'' \<and> str_of_int i \<noteq> ''..''"
proof -
  have digits: "list_all is_digit (str_of_nat n)" for n by (rule str_of_nat_digits)
  have "\<not> is_digit CHR ''.''" by (simp add: is_digit_def)
  then have "str_of_nat n \<noteq> ''.''" "str_of_nat n \<noteq> ''..''" for n using digits [of n] by auto
  moreover have "list_all segment_char (str_of_nat n)" for n
    using digits [of n] by (auto simp: list_all_iff segment_char_def)
  ultimately show ?thesis by (auto simp: str_of_int_def segment_char_def)
qed

lemma py_strip_ends: "s \<noteq> [] \<Longrightarrow> \<not> py_isspace (hd s) \<Longrightarrow> \<not> py_isspace (last s) \<Longrightarrow> py_strip s = s"
  by (rule py_strip_fix) simp

lemma default_path_valid: "safe_workspace_subdir (default_subdir (Some i)) j = Inr (default_subdir (Some i))"
proof -
  let ?n = "str_of_int i" and ?d = "default_subdir (Some i)"
  have d: "?d = ''runners'' @ CHR ''/'' # ?n" by (simp add: default_subdir_def DEFAULT_WORKSPACE_SUBDIR_def)
  have n: "list_all segment_char ?n" "?n \<noteq> []" "?n \<noteq> ''.''" "?n \<noteq> ''..''" using str_of_int_segment by auto
  have plain: "\<not> py_isspace c \<and> c \<noteq> CHR ''/'' \<and> c \<noteq> CHR 0x5C \<and> 32 < (of_char c :: nat) \<and> (of_char c :: nat) < 127" if "c \<in> set ?n" for c
    using that n(1) segment_char_plain by (auto simp: list_all_iff)
  have runners: "list_all segment_char ''runners''" by code_simp
  have slash: "32 < (of_char CHR ''/'' :: nat)" "(of_char CHR ''/'' :: nat) < 127" by simp_all
  have visible: "c \<noteq> CHR 0x5C \<and> 32 < (of_char c :: nat) \<and> (of_char c :: nat) < 127" if "c \<in> set ?d" for c
  proof -
    from that consider "c \<in> set ''runners''" | "c = CHR ''/''" | "c \<in> set ?n" unfolding d set_append list.set by blast
    then show ?thesis
    proof cases
      case 1
      then show ?thesis using runners segment_char_plain unfolding list_all_iff by blast
    next
      case 2
      then show ?thesis using slash by simp
    qed (use plain in blast)
  qed
  have "py_strip ?d = ?d"
  proof (rule py_strip_ends)
    show "\<not> py_isspace (hd ?d)" by (simp add: d py_isspace_def)
    show "\<not> py_isspace (last ?d)" using plain [OF last_in_set [OF n(2)]] n(2) by (simp add: d)
  qed (simp add: d)
  moreover have "CHR ''/'' \<notin> set ''runners''" "CHR ''/'' \<notin> set ?n" using plain by auto
  then have "split_on CHR ''/'' ?d = [''runners'', ?n]"
    unfolding d using split_on_first [of "CHR ''/''" "''runners''" ?n] split_on_free [of "CHR ''/''" ?n] by argo
  moreover have "check_segments [''runners'', ?n] = None" using n runners by simp
  moreover have "CHR 0x5C \<notin> set ?d" using visible by blast
  moreover have "hd ?d = CHR ''r''" "?d \<noteq> []" by (simp_all add: d)
  moreover have "\<not> list_ex (\<lambda>c. (of_char c :: nat) < 32 \<or> (of_char c :: nat) = 127) ?d"
    unfolding list_ex_iff using visible by fastforce
  ultimately show ?thesis unfolding safe_workspace_subdir_def Let_def by simp
qed

lemma checked_path_valid: "safe_workspace_subdir v i = Inr p \<Longrightarrow> py_strip v \<noteq> [] \<Longrightarrow> safe_workspace_subdir p j = Inr p"
  by (auto simp: safe_workspace_subdir_def Let_def py_strip_idem split: if_split_asm option.split_asm)

lemma empty_path [simp]: "safe_workspace_subdir [] i = Inr (default_subdir i)"
  by (simp add: safe_workspace_subdir_def py_strip_def py_lstrip_def py_rstrip_def)

subsection \<open>Every history of calls\<close>

definition path_of :: "runner_row \<Rightarrow> string" where
  "path_of r = (case effective_subdir r of Inl e \<Rightarrow> [] | Inr p \<Rightarrow> p)"

definition runners_ok :: "id_source \<Rightarrow> runner_db \<Rightarrow> bool" where
  "runners_ok src db \<longleftrightarrow> distinct (map rn_id (runner_rows db)) \<and> distinct (map rn_repo (runner_rows db))
     \<and> distinct (map path_of (runner_rows db)) \<and> (\<forall>r \<in> set (runner_rows db). effective_subdir r = Inr (path_of r))
     \<and> (src = Sequence \<longrightarrow> (\<forall>i \<in> rn_id ` set (runner_rows db). i < next_runner db))"

datatype runner_call =
    Ensure int string | Update int runner_settings | SetCredential int string string "timestamp option" timestamp
  | ClearCredential int | RecordTask int timestamp | WorkspaceRoot int string | RepoDeleted int

text \<open>The last one is the foreign key: deleting a repository deletes its runner.\<close>

definition call_runner :: "id_source \<Rightarrow> token_cipher option \<Rightarrow> (string \<Rightarrow> string list \<Rightarrow> bool) \<Rightarrow> runner_call \<Rightarrow> runner_db \<Rightarrow> runner_db" where
  "call_runner src cipher real_chain c db =
     (case c of
        Ensure repo name \<Rightarrow> snd (ensure_runner src db repo name)
      | Update repo u \<Rightarrow> snd (update_runner src db repo u)
      | SetCredential repo token username expires now \<Rightarrow> snd (set_credential src cipher db repo token username expires now)
      | ClearCredential repo \<Rightarrow> snd (clear_credential src db repo)
      | RecordTask repo now \<Rightarrow> snd (record_task src db repo now)
      | WorkspaceRoot repo base \<Rightarrow> snd (workspace_root src real_chain db repo base)
      | RepoDeleted repo \<Rightarrow> db\<lparr>runner_rows := filter (\<lambda>r. rn_repo r \<noteq> repo) (runner_rows db), slug_of := (slug_of db)(repo := None)\<rparr>)"

definition no_runners :: "(int \<rightharpoonup> string) \<Rightarrow> runner_db" where
  "no_runners slugs = \<lparr>runner_rows = [], slug_of = slugs, next_runner = 1\<rparr>"

definition run_calls :: "id_source \<Rightarrow> token_cipher option \<Rightarrow> (string \<Rightarrow> string list \<Rightarrow> bool) \<Rightarrow> runner_call list \<Rightarrow> runner_db \<Rightarrow> runner_db" where
  "run_calls src cipher real_chain cs db = fold (call_runner src cipher real_chain) cs db"

lemma conflict_None:
  "conflict_among p rs = Inr None \<Longrightarrow> r \<in> set rs \<Longrightarrow> \<exists>q. effective_subdir r = Inr q \<and> q \<noteq> p"
  by (induction rs) (auto simp: and_then_Inr split: if_split_asm)

lemma free_workspaceD:
  assumes "free_workspace db repo p = Inr u" "r \<in> set (runner_rows db)" "rn_repo r \<noteq> repo"
  shows "path_of r \<noteq> p"
proof -
  have "workspace_conflict db repo p = Inr None"
    using assms(1) by (auto simp: free_workspace_def and_then_Inr split: option.split_asm)
  then obtain q where "effective_subdir r = Inr q" "q \<noteq> p"
    using conflict_None [of p "filter (\<lambda>r. rn_repo r \<noteq> repo) (runner_rows db)" r] assms(2,3)
    by (auto simp: workspace_conflict_def)
  then show ?thesis by (simp add: path_of_def)
qed

lemma find_runner_Some: "find_runner db repo = Some r \<Longrightarrow> r \<in> set (runner_rows db) \<and> rn_repo r = repo"
  using find_SomeD [of "\<lambda>r. rn_repo r = repo" "runner_rows db" r] by (simp add: find_runner_def)

lemma find_runner_None: "find_runner db repo = None \<Longrightarrow> r \<in> set (runner_rows db) \<Longrightarrow> rn_repo r \<noteq> repo"
  by (auto simp: find_runner_def find_None_iff)

lemma default_runner_path: "effective_subdir (default_runner i repo name) = Inr (default_subdir (Some i))"
  by (simp add: effective_subdir_def default_runner_def)

lemma runners_ok_drawn: "runners_ok src db \<Longrightarrow> runners_ok src (db\<lparr>next_runner := next_runner db + 1\<rparr>)"
  by (auto simp: runners_ok_def)

lemma append_runner_ok:
  assumes "runners_ok src db" and "rn_id r \<notin> rn_id ` set (runner_rows db)" and "rn_repo r \<notin> rn_repo ` set (runner_rows db)"
    and "effective_subdir r = Inr p" and "p \<notin> path_of ` set (runner_rows db)" and "src = Sequence \<Longrightarrow> rn_id r = next_runner db"
  shows "runners_ok src (db\<lparr>next_runner := next_runner db + 1, runner_rows := runner_rows db @ [r]\<rparr>)"
proof -
  have "path_of r = p" using assms(4) by (simp add: path_of_def)
  moreover have "rn_id q < next_runner db + 1" if "src = Sequence" "q \<in> set (runner_rows db)" for q
    using that assms(1) unfolding runners_ok_def by (metis imageI less_imp_le zless_add1_eq order_le_less)
  ultimately show ?thesis using assms by (auto simp: runners_ok_def)
qed

lemma create_runner_ok:
  assumes "runners_ok src db" "find_runner db repo = None"
  shows "runners_ok src (snd (create_runner src db repo name))
    \<and> (\<forall>r. fst (create_runner src db repo name) = Inr r \<longrightarrow> r \<in> set (runner_rows (snd (create_runner src db repo name))) \<and> rn_repo r = repo)"
proof -
  let ?i = "new_id src (next_runner db) (map rn_id (runner_rows db))"
  show ?thesis
  proof (cases "free_workspace db repo (default_subdir (Some ?i))")
    case (Inl e)
    then show ?thesis using runners_ok_drawn [OF assms(1)] by (auto simp: create_runner_def Let_def)
  next
    case (Inr u)
    have "?i \<notin> set (map rn_id (runner_rows db))"
      by (rule new_id_fresh) (use assms(1) in \<open>auto simp: runners_ok_def\<close>)
    moreover have "repo \<notin> rn_repo ` set (runner_rows db)" using find_runner_None [OF assms(2)] by blast
    moreover have "default_subdir (Some ?i) \<notin> path_of ` set (runner_rows db)"
      using free_workspaceD [OF Inr] find_runner_None [OF assms(2)] by fastforce
    moreover have "src = Sequence \<Longrightarrow> ?i = next_runner db" by (simp add: new_id_def)
    ultimately have "runners_ok src (db\<lparr>next_runner := next_runner db + 1, runner_rows := runner_rows db @ [default_runner ?i repo n]\<rparr>)" for n
      by (intro append_runner_ok [OF assms(1) _ _ default_runner_path]) (simp_all add: default_runner_def)
    then show ?thesis using Inr runners_ok_drawn [OF assms(1)] by (auto simp: create_runner_def Let_def default_runner_def)
  qed
qed

lemma ensure_runner_ok:
  assumes "runners_ok src db"
  shows "runners_ok src (snd (ensure_runner src db repo name))
    \<and> (\<forall>r. fst (ensure_runner src db repo name) = Inr r \<longrightarrow> r \<in> set (runner_rows (snd (ensure_runner src db repo name))) \<and> rn_repo r = repo)"
  using assms create_runner_ok find_runner_Some by (auto simp: ensure_runner_def split: option.split)

lemma put_runner_ok:
  assumes ok: "runners_ok src db" and r: "r \<in> set (runner_rows db)" and same: "rn_id r' = rn_id r" "rn_repo r' = rn_repo r"
    and path: "effective_subdir r' = Inr p" "\<And>q. q \<in> set (runner_rows db) \<Longrightarrow> rn_repo q \<noteq> rn_repo r \<Longrightarrow> path_of q \<noteq> p"
  shows "runners_ok src (put_runner db r')"
proof -
  let ?rows = "runner_rows db"
  let ?g = "\<lambda>q. if rn_id q = rn_id r' then r' else q"
  have d: "distinct ?rows" "inj_on rn_id (set ?rows)" "inj_on rn_repo (set ?rows)" "inj_on path_of (set ?rows)"
    using ok by (auto simp: runners_ok_def distinct_map)
  have only: "rn_id q = rn_id r' \<longleftrightarrow> q = r" "rn_repo q = rn_repo r \<longleftrightarrow> q = r" if "q \<in> set ?rows" for q
    using that d(2,3) r same by (auto dest: inj_onD)
  have ids: "map rn_id (map ?g ?rows) = map rn_id ?rows" by simp
  have repos: "map rn_repo (map ?g ?rows) = map rn_repo ?rows" using only(1) same by auto
  have "path_of r' = p" using path(1) by (simp add: path_of_def)
  have other: "path_of q \<noteq> p" if "q \<in> set ?rows" "q \<noteq> r" for q using path(2) only(2) that by blast
  have "inj_on (path_of \<circ> ?g) (set ?rows)"
  proof (rule inj_onI)
    fix x y assume xy: "x \<in> set ?rows" "y \<in> set ?rows" "(path_of \<circ> ?g) x = (path_of \<circ> ?g) y"
    have g: "?g q = (if q = r then r' else q)" if "q \<in> set ?rows" for q using only(1) [OF that] by simp
    have eq: "path_of (if x = r then r' else x) = path_of (if y = r then r' else y)" using xy(3) g [OF xy(1)] g [OF xy(2)] by simp
    show "x = y"
    proof (rule ccontr)
      assume "x \<noteq> y"
      then show False using eq other [OF xy(1)] other [OF xy(2)] \<open>path_of r' = p\<close> inj_onD [OF d(4) _ xy(1,2)]
        by (simp split: if_split_asm)
    qed
  qed
  then have paths: "distinct (map path_of (map ?g ?rows))" using d(1) by (simp add: distinct_map)
  have "\<forall>q \<in> set (map ?g ?rows). effective_subdir q = Inr (path_of q)"
    using ok path(1) \<open>path_of r' = p\<close> by (auto simp: runners_ok_def)
  moreover have "src = Sequence \<longrightarrow> (\<forall>i \<in> rn_id ` set (map ?g ?rows). i < next_runner db)"
    using ok r same by (auto simp: runners_ok_def)
  moreover have "distinct (map rn_id (map ?g ?rows))" "distinct (map rn_repo (map ?g ?rows))"
    using ok unfolding ids repos by (simp_all add: runners_ok_def)
  moreover have "runner_rows (put_runner db r') = map ?g ?rows" "next_runner (put_runner db r') = next_runner db"
    by (simp_all add: put_runner_def)
  ultimately show ?thesis using paths unfolding runners_ok_def by presburger
qed

lemma change_runner_ok:
  assumes ok: "runners_ok src db"
    and f: "\<And>db r r'. runners_ok src db \<Longrightarrow> r \<in> set (runner_rows db) \<Longrightarrow> rn_repo r = repo \<Longrightarrow> f db r = Inr r' \<Longrightarrow> rn_id r' = rn_id r \<and> rn_repo r' = rn_repo r
       \<and> (rn_subdir r' = rn_subdir r \<or> (effective_subdir r' = Inr (rn_subdir r') \<and> free_workspace db repo (rn_subdir r') = Inr ()))"
  shows "runners_ok src (snd (change_runner src db repo f))"
proof -
  obtain res db1 where e: "ensure_runner src db repo [] = (res, db1)" by (cases "ensure_runner src db repo []")
  then have ok1: "runners_ok src db1" using ensure_runner_ok [OF ok, of repo "[]"] by simp
  show ?thesis
  proof (cases res)
    case (Inl x)
    then show ?thesis using e ok1 by (simp add: change_runner_def)
  next
    case (Inr r)
    then have r: "r \<in> set (runner_rows db1)" "rn_repo r = repo" using ensure_runner_ok [OF ok, of repo "[]"] e by auto
    show ?thesis
    proof (cases "f db1 r")
      case (Inl x)
      then show ?thesis using e \<open>res = Inr r\<close> ok1 by (simp add: change_runner_def)
    next
      case (Inr r')
      note f' = f [OF ok1 r Inr]
      have "runners_ok src (put_runner db1 r')"
      proof (cases "rn_subdir r' = rn_subdir r")
        case True
        then have "effective_subdir r' = effective_subdir r" using f' by (simp add: effective_subdir_def)
        then have "effective_subdir r' = Inr (path_of r)" using ok1 r(1) by (simp add: runners_ok_def)
        moreover have "path_of q \<noteq> path_of r" if "q \<in> set (runner_rows db1)" "rn_repo q \<noteq> rn_repo r" for q
          using that ok1 r(1) by (auto simp: runners_ok_def distinct_map dest: inj_onD)
        ultimately show ?thesis using put_runner_ok [OF ok1 r(1)] f' by blast
      next
        case False
        then have "effective_subdir r' = Inr (rn_subdir r')" "free_workspace db1 repo (rn_subdir r') = Inr ()" using f' by auto
        then show ?thesis using put_runner_ok [OF ok1 r(1)] f' free_workspaceD r(2) by metis
      qed
      then show ?thesis using e \<open>res = Inr r\<close> Inr by (simp add: change_runner_def)
    qed
  qed
qed

lemma update_runner_ok:
  assumes "runners_ok src db"
  shows "runners_ok src (snd (update_runner src db repo u))"
proof (cases "check_settings u")
  case (Inl e)
  then show ?thesis using assms by (simp add: update_runner_def)
next
  case (Inr subdir)
  have given: "safe_workspace_subdir p j = Inr p" if "subdir = Some p" for p j
    using Inr that checked_path_valid by (auto simp: check_settings_def and_then_Inr split: if_split_asm)
  show ?thesis
    unfolding update_runner_def Inr sum.case
  proof (rule change_runner_ok [OF assms], goal_cases)
    case (1 db r r')
    have path: "safe_workspace_subdir p (Some (rn_id r)) = Inr p"
      if "(case subdir of Some q \<Rightarrow> Inr q | None \<Rightarrow> safe_workspace_subdir [] (Some (rn_id r))) = Inr p" for p
      using that given default_path_valid by (auto split: option.split_asm)
    show ?case
      using 1 path by (auto simp: and_then_Inr apply_settings_def effective_subdir_def split: if_split_asm)
  qed
qed

lemma call_runner_ok: "runners_ok src db \<Longrightarrow> runners_ok src (call_runner src cipher real_chain c db)"
proof (cases c)
  case (WorkspaceRoot repo base)
  assume ok: "runners_ok src db"
  have "snd (workspace_root src real_chain db repo base) = snd (ensure_runner src db repo [])"
    by (auto simp: workspace_root_def split: prod.splits sum.splits)
  then show ?thesis using ensure_runner_ok [OF ok] WorkspaceRoot by (simp add: call_runner_def)
next
  case (RepoDeleted repo)
  assume "runners_ok src db"
  then show ?thesis using RepoDeleted by (auto simp: call_runner_def runners_ok_def distinct_map_filter)
next
  case (SetCredential repo token username expires now)
  assume "runners_ok src db"
  then show ?thesis
    by (auto simp: call_runner_def SetCredential set_credential_def Let_def split: option.split intro!: change_runner_ok)
qed (auto simp: call_runner_def ensure_runner_ok update_runner_ok clear_credential_def record_task_def intro!: change_runner_ok)

lemma run_calls_ok: "runners_ok src db \<Longrightarrow> runners_ok src (run_calls src cipher real_chain cs db)"
  unfolding run_calls_def by (induction cs arbitrary: db) (auto simp: call_runner_ok)

lemma no_runners_ok: "runners_ok src (no_runners slugs)"
  by (simp add: runners_ok_def no_runners_def)

text \<open>
  C39: after any history of calls, one after another, on both id sources, every stored workspace path is valid, a repository has at most one
  runner, and no two runners resolve to the same workspace, defaults included.
\<close>

theorem workspaces_are_distinct:
  "let rows = runner_rows (run_calls src cipher real_chain cs (no_runners slugs)) in
     distinct (map rn_repo rows) \<and> distinct (map path_of rows) \<and> list_all (\<lambda>r. effective_subdir r = Inr (path_of r)) rows"
  using run_calls_ok [OF no_runners_ok] unfolding runners_ok_def Let_def list_all_iff by blast


subsection \<open>What the check of the workspace does not see\<close>

definition subdir_only :: "string \<Rightarrow> runner_settings" where
  "subdir_only path = \<lparr>st_enabled = None, st_concurrency = None, st_egress = None, st_allowlist = None, st_subdir = Some path\<rparr>"

text \<open>
  two repositories can be given work roots of which one lies inside the other's checkout: the check compares paths for
  equality, not for containment.
\<close>

theorem nested_workspaces_are_accepted:
  "map path_of (runner_rows (run_calls Sequence None (\<lambda>base path. True)
     [Ensure 1 [], Update 2 (subdir_only ''runners/1/7/repo'')] (no_runners [1 \<mapsto> ''a'', 2 \<mapsto> ''b'']))) = [''runners/1'', ''runners/1/7/repo'']"
  by code_simp

text \<open>
  on SQLite one repository's setting can block every new one: with a workspace named after the next id, creating a runner
  fails and leaves the table as it was, so that the next attempt draws the same id and fails too.
\<close>

theorem workspace_blocks_new_runners:
  assumes "r \<in> set (runner_rows db)" and "runners_ok Largest db" and "find_runner db repo = None"
    and "path_of r = default_subdir (Some (new_id Largest (next_runner db) (map rn_id (runner_rows db))))"
  shows "case ensure_runner Largest db repo name of
     (Inl e, db') \<Rightarrow> runner_rows db' = runner_rows db | (Inr new, db') \<Rightarrow> False"
proof -
  let ?i = "new_id Largest (next_runner db) (map rn_id (runner_rows db))"
  have "\<exists>e. free_workspace db repo (default_subdir (Some ?i)) = Inl e"
  proof (cases "free_workspace db repo (default_subdir (Some ?i))")
    case (Inr u)
    then show ?thesis using free_workspaceD [OF Inr assms(1)] find_runner_None [OF assms(3,1)] assms(4) by simp
  qed simp
  then show ?thesis using assms(3) by (auto simp: ensure_runner_def create_runner_def Let_def)
qed

definition squatting_db :: runner_db where
  "squatting_db = \<lparr>runner_rows = [(default_runner 1 1 ''a'')\<lparr>rn_subdir := ''runners/2''\<rparr>], slug_of = [5 \<mapsto> ''e''], next_runner = 2\<rparr>"

lemma squatting_facts:
  "runners_ok Largest squatting_db" "find_runner squatting_db 5 = None"
  "path_of ((default_runner 1 1 ''a'')\<lparr>rn_subdir := ''runners/2''\<rparr>) = default_subdir (Some (new_id Largest (next_runner squatting_db) (map rn_id (runner_rows squatting_db))))"
proof -
  have path: "effective_subdir ((default_runner 1 1 ''a'')\<lparr>rn_subdir := ''runners/2''\<rparr>) = Inr ''runners/2''" by code_simp
  have "default_subdir (Some (new_id Largest (next_runner squatting_db) (map rn_id (runner_rows squatting_db)))) = ''runners/2''" by code_simp
  with path show "path_of ((default_runner 1 1 ''a'')\<lparr>rn_subdir := ''runners/2''\<rparr>) = default_subdir (Some (new_id Largest (next_runner squatting_db) (map rn_id (runner_rows squatting_db))))"
    by (simp add: path_of_def)
  show "runners_ok Largest squatting_db" using path by (simp add: runners_ok_def squatting_db_def path_of_def)
  show "find_runner squatting_db 5 = None" by code_simp
qed

theorem workspace_blocks_new_runners_witness: "isl (fst (ensure_runner Largest squatting_db 5 []))"
proof -
  have "(default_runner 1 1 ''a'')\<lparr>rn_subdir := ''runners/2''\<rparr> \<in> set (runner_rows squatting_db)" by (simp add: squatting_db_def)
  from workspace_blocks_new_runners [OF this squatting_facts, of "[]"] show ?thesis by (auto split: prod.splits sum.splits)
qed

subsection \<open>Which credential a task gets\<close>

definition seal_of :: "runner_row \<Rightarrow> string \<times> string option \<times> string option \<times> timestamp option" where
  "seal_of r = (rn_kind r, rn_username r, rn_cipher r, rn_expires r)"

definition touches :: "int \<Rightarrow> runner_call \<Rightarrow> bool" where
  "touches repo c = (case c of
     SetCredential r token username expires now \<Rightarrow> r = repo | ClearCredential r \<Rightarrow> r = repo | RepoDeleted r \<Rightarrow> r = repo | _ \<Rightarrow> False)"

lemma find_unique: "runners_ok src db \<Longrightarrow> r \<in> set (runner_rows db) \<Longrightarrow> find_runner db (rn_repo r) = Some r"
proof -
  assume ok: "runners_ok src db" "r \<in> set (runner_rows db)"
  have "inj_on rn_repo (set (runner_rows db))" using ok(1) by (simp add: runners_ok_def distinct_map)
  then show ?thesis
    using ok(2) find_runner_None [of db "rn_repo r" r] find_runner_Some [of db "rn_repo r"]
    by (cases "find_runner db (rn_repo r)") (auto dest: inj_onD)
qed

lemma find_put_runner:
  assumes "runners_ok src db" "r \<in> set (runner_rows db)" "rn_id r' = rn_id r" "rn_repo r' = rn_repo r"
  shows "find_runner (put_runner db r') repo = (if repo = rn_repo r then Some r' else find_runner db repo)"
proof -
  have ids: "inj_on rn_id (set (runner_rows db))" and repos: "inj_on rn_repo (set (runner_rows db))"
    using assms(1) by (auto simp: runners_ok_def distinct_map)
  have g: "(if rn_id q = rn_id r' then r' else q) = (if q = r then r' else q)" if "q \<in> set (runner_rows db)" for q
    using inj_onD [OF ids _ that assms(2)] assms(3) by auto
  have "find (\<lambda>q. rn_repo q = repo) (map (\<lambda>q. if q = r then r' else q) rows)
      = (if repo = rn_repo r then Some r' else find (\<lambda>q. rn_repo q = repo) rows)"
    if "set rows \<subseteq> set (runner_rows db)" "r \<in> set rows \<or> repo \<noteq> rn_repo r" for rows
    using that
  proof (induction rows)
    case (Cons q rows)
    then show ?case using assms(2,4) inj_onD [OF repos, of q r] by auto
  qed auto
  moreover have rows: "runner_rows (put_runner db r') = map (\<lambda>q. if q = r then r' else q) (runner_rows db)"
    using g by (auto simp: put_runner_def)
  ultimately show ?thesis using assms(2) unfolding find_runner_def rows by blast
qed

lemma find_ensured:
  assumes "runners_ok src db" "find_runner db repo = Some r"
  shows "find_runner (snd (ensure_runner src db repo' name)) repo = Some r"
proof (cases "find_runner db repo'")
  case None
  have "find P xs = Some x \<Longrightarrow> find P (xs @ ys) = Some x" for P and xs ys :: "runner_row list" and x
    by (induction xs) auto
  then show ?thesis
    using assms(2) None by (auto simp: ensure_runner_def create_runner_def Let_def find_runner_def split: sum.split)
next
  case (Some q)
  then show ?thesis using assms(2) by (simp add: ensure_runner_def)
qed

lemma change_keeps_seal:
  assumes ok: "runners_ok src db" and r: "find_runner db repo = Some r"
    and f: "\<And>db q q'. f db q = Inr q' \<Longrightarrow> rn_id q' = rn_id q \<and> rn_repo q' = rn_repo q \<and> (repo' = repo \<longrightarrow> seal_of q' = seal_of q)"
  shows "\<exists>r'. find_runner (snd (change_runner src db repo' f)) repo = Some r' \<and> seal_of r' = seal_of r"
proof -
  obtain res db1 where e: "ensure_runner src db repo' [] = (res, db1)" by (cases "ensure_runner src db repo' []")
  have found: "find_runner db1 repo = Some r" and ok1: "runners_ok src db1"
    using find_ensured [OF ok r, of repo' "[]"] ensure_runner_ok [OF ok, of repo' "[]"] e by simp_all
  show ?thesis
  proof (cases "\<exists>q q'. res = Inr q \<and> f db1 q = Inr q'")
    case True
    then obtain q q' where q: "res = Inr q" "f db1 q = Inr q'" by blast
    have mem: "q \<in> set (runner_rows db1)" "rn_repo q = repo'" using ensure_runner_ok [OF ok, of repo' "[]"] e q(1) by auto
    have "repo' = repo \<Longrightarrow> q = r" using find_unique [OF ok1 mem(1)] mem(2) found by simp
    then show ?thesis
      using find_put_runner [OF ok1 mem(1), of q' repo] f [OF q(2)] found mem(2) e q by (auto simp: change_runner_def)
  next
    case False
    then have "snd (change_runner src db repo' f) = db1" using e by (auto simp: change_runner_def split: sum.split)
    then show ?thesis using found by simp
  qed
qed

lemma call_keeps_seal:
  assumes ok: "runners_ok src db" and r: "find_runner db repo = Some r" and "\<not> touches repo c"
  shows "\<exists>r'. find_runner (call_runner src cipher real_chain c db) repo = Some r' \<and> seal_of r' = seal_of r"
proof (cases c)
  case (Update repo' u)
  show ?thesis
  proof (cases "check_settings u")
    case (Inl e)
    then show ?thesis using Update r by (simp add: call_runner_def update_runner_def)
  next
    case (Inr path)
    have "\<exists>r'. find_runner (snd (change_runner src db repo' f)) repo = Some r' \<and> seal_of r' = seal_of r"
      if "f = (\<lambda>db r. if st_subdir u = None then Inr (apply_settings u r)
          else and_then (case path of Some path \<Rightarrow> Inr path | None \<Rightarrow> safe_workspace_subdir [] (Some (rn_id r))) (\<lambda>path.
               and_then (free_workspace db repo' path) (\<lambda>_. Inr ((apply_settings u r)\<lparr>rn_subdir := path\<rparr>))))" for f
    proof (rule change_keeps_seal [OF ok r])
      show "rn_id q' = rn_id q \<and> rn_repo q' = rn_repo q \<and> (repo' = repo \<longrightarrow> seal_of q' = seal_of q)" if "f db q = Inr q'" for db q q'
        using that \<open>f = _\<close> by (auto simp: apply_settings_def seal_of_def and_then_Inr split: if_split_asm)
    qed
    then show ?thesis using Update Inr by (simp add: call_runner_def update_runner_def)
  qed
next
  case (SetCredential repo' token username expires now)
  then show ?thesis
    using r assms(3) by (auto simp: call_runner_def set_credential_def Let_def touches_def split: option.split intro!: change_keeps_seal [OF ok r])
next
  case (WorkspaceRoot repo' base)
  have "snd (workspace_root src real_chain db repo' base) = snd (ensure_runner src db repo' [])"
    by (auto simp: workspace_root_def split: prod.splits sum.splits)
  then show ?thesis using find_ensured [OF ok r] WorkspaceRoot by (simp add: call_runner_def)
next
  case (RepoDeleted repo')
  have "find P xs = Some x \<Longrightarrow> Q x \<Longrightarrow> find P (filter Q xs) = Some x" for P Q and xs :: "runner_row list" and x
    by (induction xs) (auto split: if_split_asm)
  then show ?thesis using r assms(3) find_runner_Some [OF r] RepoDeleted by (simp add: call_runner_def touches_def find_runner_def)
next
  case (ClearCredential repo')
  then show ?thesis
    using assms(3) by (auto simp: call_runner_def clear_credential_def touches_def intro!: change_keeps_seal [OF ok r])
next
  case (RecordTask repo' now)
  have "seal_of (q\<lparr>rn_last_task := t\<rparr>) = seal_of q" for q t by (simp add: seal_of_def)
  then show ?thesis using RecordTask by (auto simp: call_runner_def record_task_def intro!: change_keeps_seal [OF ok r])
next
  case (Ensure repo' name)
  then show ?thesis using find_ensured [OF ok r] by (simp add: call_runner_def)
qed

lemma calls_keep_seal:
  assumes "runners_ok src db" "find_runner db repo = Some r" "list_all (\<lambda>c. \<not> touches repo c) cs"
  shows "\<exists>r'. find_runner (run_calls src cipher real_chain cs db) repo = Some r' \<and> seal_of r' = seal_of r"
  using assms
proof (induction cs arbitrary: db r)
  case (Cons c cs)
  obtain r1 where r1: "find_runner (call_runner src cipher real_chain c db) repo = Some r1" "seal_of r1 = seal_of r"
    using call_keeps_seal [OF Cons.prems(1,2), of c] Cons.prems(3) by auto
  then show ?case using Cons.IH [OF call_runner_ok [OF Cons.prems(1)] r1(1)] Cons.prems(3) by (auto simp: run_calls_def)
qed (simp add: run_calls_def)

lemma set_credential_seal:
  assumes ok: "runners_ok src db" and set: "set_credential src (Some c) db repo token username expires now = (Inr row, db')"
  shows "py_strip token \<noteq> [] \<and> find_runner db' repo = Some row \<and> seal_of row = (RUNNER_CREDENTIAL_REPO,
    if py_strip username = [] then None else Some (py_strip username), Some (tc_encrypt c (py_strip token)), expires)"
proof -
  obtain res db1 where e: "ensure_runner src db repo [] = (res, db1)" by (cases "ensure_runner src db repo []")
  then obtain q where q: "res = Inr q" using set by (auto simp: set_credential_def Let_def change_runner_def split: if_split_asm sum.splits)
  have mem: "runners_ok src db1" "q \<in> set (runner_rows db1)" "rn_repo q = repo" using ensure_runner_ok [OF ok, of repo "[]"] e q by auto
  show ?thesis
    using set e q find_put_runner [OF mem(1,2), of row repo] mem(3)
    by (auto simp: set_credential_def Let_def change_runner_def seal_of_def split: if_split_asm)
qed

text \<open>
  a repository's own credential is the one its tasks get: after a successful \<open>set_credential\<close> and any calls that do not set
  or clear it or delete the repository, \<open>credential\<close> returns the token that was set, never the shared one, and once it has
  expired or the key is gone it refuses instead of falling back.
\<close>

theorem own_credential_is_used:
  assumes "runners_ok src db" and "set_credential src (Some c) db repo token username expires now = (Inr row, db')"
    and "list_all (\<lambda>call. \<not> touches repo call) cs" and "\<And>t. tc_decrypt c (tc_encrypt c t) = Some t"
  shows "let db'' = run_calls src cipher real_chain cs db' in
     credential None shared db'' repo later = Inl (if (case expires of None \<Rightarrow> False | Some t \<Rightarrow> t \<le> later) then CredentialExpired else NoCredentialKey)
     \<and> credential (Some c) shared db'' repo later =
        (if (case expires of None \<Rightarrow> False | Some t \<Rightarrow> t \<le> later) then Inl CredentialExpired
         else Inr (Some \<lparr>cr_username = or_str (py_strip username) CREDENTIAL_USERNAME, cr_token = py_strip token,
           cr_source = RUNNER_CREDENTIAL_REPO, cr_expires = expires\<rparr>))"
proof -
  note row = set_credential_seal [OF assms(1,2)]
  have "runners_ok src db'"
    using call_runner_ok [OF assms(1), of "Some c" real_chain "SetCredential repo token username expires now"] assms(2)
    by (simp add: call_runner_def)
  then obtain r where r: "find_runner (run_calls src cipher real_chain cs db') repo = Some r" "seal_of r = seal_of row"
    using calls_keep_seal assms(3) row by blast
  then have "rn_kind r = RUNNER_CREDENTIAL_REPO" "rn_cipher r = Some (tc_encrypt c (py_strip token))" "rn_expires r = expires"
      "rn_username r = (if py_strip username = [] then None else Some (py_strip username))"
    using row by (auto simp: seal_of_def)
  then show ?thesis
    using r(1) assms(4) row
    by (auto simp: Let_def credential_def reject_expired_def open_token_def opt_str_def or_str_def py_strip_idem split: option.split)
qed

definition plain_cipher :: token_cipher where
  "plain_cipher = \<lparr>tc_encrypt = rev, tc_decrypt = (\<lambda>s. Some (rev s))\<rparr>"

theorem own_credential_is_used_witness:
  "credential (Some plain_cipher) ''shared'' (snd (set_credential Sequence (Some plain_cipher) (no_runners [4 \<mapsto> ''d'']) 4 ''t0ken'' [] None 9)) 4 100
    = Inr (Some \<lparr>cr_username = CREDENTIAL_USERNAME, cr_token = ''t0ken'', cr_source = RUNNER_CREDENTIAL_REPO, cr_expires = None\<rparr>)"
proof -
  obtain row db' where set: "set_credential Sequence (Some plain_cipher) (no_runners [4 \<mapsto> ''d'']) 4 ''t0ken'' [] None 9 = (Inr row, db')"
  proof -
    have "isl (fst (set_credential Sequence (Some plain_cipher) (no_runners [4 \<mapsto> ''d'']) 4 ''t0ken'' [] None 9)) = False" by code_simp
    then show thesis using that by (cases "set_credential Sequence (Some plain_cipher) (no_runners [4 \<mapsto> ''d'']) 4 ''t0ken'' [] None 9")
        (auto simp: isl_def, metis sum.exhaust_sel)
  qed
  have strip: "py_strip ''t0ken'' = ''t0ken''" "py_strip [] = []" by code_simp+
  have id: "tc_decrypt plain_cipher (tc_encrypt plain_cipher t) = Some t" for t by (simp add: plain_cipher_def)
  have "snd (set_credential Sequence (Some plain_cipher) (no_runners [4 \<mapsto> ''d'']) 4 ''t0ken'' [] None 9) = db'" by (simp add: set)
  then show ?thesis
    using own_credential_is_used [OF no_runners_ok set, of "[]" None "\<lambda>b s. True" "''shared''" 100, OF _ id]
    by (simp add: run_calls_def Let_def strip or_str_def)
qed

end
