(* ===== verification/AgentWorker.thy ===== *)
theory AgentWorker
  imports Runner Findings CheckStore RepoRunners
begin

section \<open>The worker that gives the runner its tasks\<close>

text \<open>
  \<open>services/agent_worker.py\<close> and the sink \<open>DbTaskSink\<close> of \<open>services/agent_runner.py\<close>: the review command and the context
  search as far as they are the module's own, a claimed row of the queue turned into a task, what a run writes into the
  database, and the handler that composes queue, runner, findings and check store. The world of a run is any extension of
  the record \<open>worker_db\<close>, the shared database, so whatever an adapter's call does to the database (its own writes, and other
  processes meanwhile) is part of the model.
\<close>

definition SUPPORTED_KINDS :: "string list" where "SUPPORTED_KINDS = [''review'', ''fix'', ''checks'']"
definition ENV_TASK_KIND :: string where "ENV_TASK_KIND = ''OPENFISH_TASK_KIND''"

subsection \<open>The review command\<close>

text \<open>How the child process ends: it does not, its identity cannot be set up, or an exit code with both outputs.\<close>

datatype child_end = ChildTimeout | ChildIdentity string | ChildExit int string string

definition review_child_env :: "(string \<times> string) list \<Rightarrow> (string \<times> string) list \<Rightarrow> (string \<times> string) list \<Rightarrow> string \<Rightarrow> string
    \<Rightarrow> string \<Rightarrow> string \<Rightarrow> (string \<times> string) list" where
  "review_child_env origin overrides env workdir cwd commit_sha kind =
     (let child = sandbox_env origin (env @ [(''GIT_TERMINAL_PROMPT'', ''0''), (''OPENFISH_WORKDIR'', workdir),
        (''OPENFISH_REPO_DIR'', cwd), (''OPENFISH_COMMIT_SHA'', commit_sha), (ENV_TASK_KIND, or_str kind ''review'')])
      in AList.updates (map fst overrides) (map snd overrides) child)"

fun objects_of :: "json list \<Rightarrow> dict list" where
  "objects_of [] = []"
| "objects_of (v # vs) = (case v of JObj d \<Rightarrow> d # objects_of vs | _ \<Rightarrow> objects_of vs)"

definition parse_findings :: "(string \<Rightarrow> json option) \<Rightarrow> string \<Rightarrow> run_error + dict list" where
  "parse_findings loads stdout =
     (let text = py_strip stdout in
      if text = [] then Inr []
      else (case loads text of
          None \<Rightarrow> Inl (RunnerError ''not JSON'')
        | Some v \<Rightarrow>
            (case (case v of JObj d \<Rightarrow> (case map_of d ''findings'' of None \<Rightarrow> JList [] | Some u \<Rightarrow> u) | u \<Rightarrow> u) of
               JList items \<Rightarrow> Inr (objects_of items)
             | _ \<Rightarrow> Inl (RunnerError ''not a findings array''))))"

definition review_answer :: "(string \<Rightarrow> string list) \<Rightarrow> (string \<Rightarrow> json option) \<Rightarrow> (string \<times> string) list \<Rightarrow> string \<Rightarrow> child_end
    \<Rightarrow> run_error + dict list" where
  "review_answer shlex loads env command child =
     (if py_strip command = [] then Inl (RunnerError ''no review command'')
      else if shlex (py_strip command) = [] then Inl (RunnerError ''empty review command'')
      else (case child of
          ChildIdentity e \<Rightarrow> Inl (RunnerError e)
        | ChildTimeout \<Rightarrow> Inl (RunnerError ''timeout'')
        | ChildExit code out err \<Rightarrow>
            if code \<noteq> 0 then Inl (RunnerError (mask_secrets (take 400 (py_strip (or_str err out))) (map snd env)))
            else parse_findings loads out))"

subsection \<open>Context search\<close>

definition value_text :: "(json \<Rightarrow> string) \<Rightarrow> json \<Rightarrow> string" where
  "value_text cs v = (if truthy v then py_str cs v else [])"

definition search_query :: "(json \<Rightarrow> string) \<Rightarrow> dict \<Rightarrow> string" where
  "search_query cs finding =
     (case find (\<lambda>v. v \<noteq> []) (map (\<lambda>k. py_strip (value_text cs (jget finding k))) [''title'', ''symbol'', ''rule_id'', ''file_path'']) of
        None \<Rightarrow> [] | Some v \<Rightarrow> take 120 v)"

text \<open>What a set of Python values compares: a Boolean is the number 0 or 1, a list or a dictionary cannot be hashed.\<close>

fun hashed :: "json \<Rightarrow> run_error + json" where
  "hashed (JBool b) = Inr (JInt (if b then 1 else 0))"
| "hashed (JList vs) = Inl (Unexpected ''unhashable'')"
| "hashed (JObj kvs) = Inl (Unexpected ''unhashable'')"
| "hashed v = Inr v"

fun seen_keys :: "(json \<Rightarrow> string) \<Rightarrow> dict list \<Rightarrow> run_error + (string \<times> json) list" where
  "seen_keys cs [] = Inr []"
| "seen_keys cs (d # ds) =
     and_then (hashed (jget d ''number'')) (\<lambda>n. and_then (seen_keys cs ds) (\<lambda>ks. Inr ((py_str cs (jget d ''kind''), n) # ks)))"

definition integral :: "json \<Rightarrow> bool" where
  "integral v = (case v of JInt i \<Rightarrow> True | JBool b \<Rightarrow> True | _ \<Rightarrow> False)"

text \<open>The numbers of the issues that are not among the evidence yet, each once, in the order of the search.\<close>

fun new_numbers :: "(json \<Rightarrow> string) \<Rightarrow> (string \<times> json) list \<Rightarrow> json list \<Rightarrow> json list" where
  "new_numbers cs seen [] = []"
| "new_numbers cs seen (v # vs) =
     (case v of
        JObj d \<Rightarrow>
          (let number = jget d ''number'' in
           if py_str cs (jget d ''kind'') = ''issue'' \<and> integral number
           then (case hashed number of
                   Inl e \<Rightarrow> new_numbers cs seen vs
                 | Inr n \<Rightarrow> if (''issue'', n) \<in> set seen then new_numbers cs seen vs
                            else number # new_numbers cs ((''issue'', n) # seen) vs)
           else new_numbers cs seen vs)
      | _ \<Rightarrow> new_numbers cs seen vs)"

definition mention :: "json \<Rightarrow> json" where
  "mention number = JObj [(''kind'', JStr ''issue''), (''number'', number), (''relation'', JStr ''mentions'')]"

text \<open>The value of \<open>evidence\<close> as a list of objects; a number is not iterable. \<open>intro\<close> is the phrase before the numbers.\<close>

definition evidence_of :: "dict \<Rightarrow> run_error + dict list" where
  "evidence_of finding =
     (let v = jget finding ''evidence'' in
      if \<not> truthy v then Inr []
      else (case v of JList vs \<Rightarrow> Inr (objects_of vs) | JInt i \<Rightarrow> Inl (Unexpected ''not iterable'')
            | JBool b \<Rightarrow> Inl (Unexpected ''not iterable'') | _ \<Rightarrow> Inr []))"

definition attach_history :: "(json \<Rightarrow> string) \<Rightarrow> string \<Rightarrow> dict \<Rightarrow> json list \<Rightarrow> run_error + dict" where
  "attach_history cs intro finding items =
     and_then (evidence_of finding) (\<lambda>evidence.
     and_then (seen_keys cs evidence) (\<lambda>seen.
     (let numbers = new_numbers cs seen items in
      if numbers = [] then Inr finding
      else Inr (set_key ''detail'' (JStr (take 4000 (value_text cs (jget finding ''detail'') @ intro
               @ join '' '' (map (\<lambda>n. CHR ''#'' # py_str cs n) numbers))))
             (set_key ''evidence'' (JList (map JObj evidence @ map mention numbers)) finding)))))"

text \<open>\<open>None\<close>: the search raised.\<close>

definition search_history :: "(json \<Rightarrow> string) \<Rightarrow> string \<Rightarrow> (string \<Rightarrow> json list option) \<Rightarrow> dict \<Rightarrow> run_error + dict" where
  "search_history cs intro context_search finding =
     (case context_search (search_query cs finding) of
        None \<Rightarrow> Inr finding | Some items \<Rightarrow> attach_history cs intro finding items)"

subsection \<open>The shared database\<close>

record repo_row =
  rp_id :: int
  rp_slug :: string
  rp_forgejo :: "string option"
  rp_branch :: string

record commit_row =
  cm_repo :: int
  cm_sha :: string
  cm_at :: "timestamp option"

text \<open>The columns of \<open>review_runs\<close> the findings do not use; the counters of the same rows are in \<open>findings_db\<close>.\<close>

record run_log =
  lg_id :: int
  lg_repo :: int
  lg_task :: int
  lg_commit :: string
  lg_policy :: "string option"
  lg_total :: nat
  lg_passed :: nat
  lg_failed :: nat
  lg_status :: string
  lg_ref :: "string option"
  lg_finished :: "timestamp option"

record worker_db =
  wk_checks :: check_db
  wk_runners :: runner_db
  wk_findings :: findings_db
  wk_repos :: "repo_row list"
  wk_commits :: "commit_row list"
  wk_logs :: "run_log list"
  wk_next_run :: int

definition wk_queue :: "'e worker_db_scheme \<Rightarrow> queue_db" where "wk_queue w = queue_of (wk_checks w)"

definition set_queue :: "queue_db \<Rightarrow> 'e worker_db_scheme \<Rightarrow> 'e worker_db_scheme" where
  "set_queue q w = w\<lparr>wk_checks := (wk_checks w)\<lparr>queue_of := q\<rparr>\<rparr>"

text \<open>What a deployment configures and what the handler is built with. The two clocks are read from the world.\<close>

record 'w worker_env =
  we_lib :: runner_lib
  we_dialect :: dialect
  we_ids :: id_source
  we_cipher :: "token_cipher option"
  we_shared_token :: string
  we_real_chain :: "string \<Rightarrow> string list \<Rightarrow> bool"
  we_real_directory :: "string \<Rightarrow> bool"
  we_work_root :: string
  we_git_base :: string
  we_now :: "'w \<Rightarrow> timestamp"
  we_today :: "'w \<Rightarrow> date"
  we_max_findings :: int
  we_pr_policy :: string
  we_auto_fix :: "bool option"
  we_model_env :: "(string \<times> string) list"

subsection \<open>Loading a task\<close>

text \<open>\<open>ORDER BY committed_at DESC\<close>: the databases disagree on where a missing date goes.\<close>

definition listed_before :: "dialect \<Rightarrow> commit_row \<Rightarrow> commit_row \<Rightarrow> bool" where
  "listed_before dialect a b =
     (case (cm_at a, cm_at b) of
        (Some s, Some t) \<Rightarrow> s > t
      | (Some s, None) \<Rightarrow> dialect = Sqlite
      | (None, Some t) \<Rightarrow> dialect = Postgresql
      | (None, None) \<Rightarrow> False)"

fun first_listed :: "dialect \<Rightarrow> commit_row list \<Rightarrow> commit_row option" where
  "first_listed dialect [] = None"
| "first_listed dialect (c # cs) =
     (case first_listed dialect cs of None \<Rightarrow> Some c | Some b \<Rightarrow> if listed_before dialect b c then Some b else Some c)"

definition latest_commit_sha :: "dialect \<Rightarrow> 'e worker_db_scheme \<Rightarrow> int \<Rightarrow> string" where
  "latest_commit_sha dialect w repo =
     (case first_listed dialect (filter (\<lambda>c. cm_repo c = repo) (wk_commits w)) of None \<Rightarrow> [] | Some c \<Rightarrow> cm_sha c)"

definition repo_url :: "string \<Rightarrow> string \<Rightarrow> string" where
  "repo_url base slug = rev (dropWhile (\<lambda>c. c = CHR ''/'') (rev base)) @ ''/'' @ slug @ ''.git''"

definition loaded_branch :: "string \<Rightarrow> int \<Rightarrow> nat \<Rightarrow> string option" where
  "loaded_branch kind tid attempt =
     (if kind \<in> {''fix'', ''checks''}
      then Some (AGENT_BRANCH_PREFIX @ (if kind = ''checks'' then ''checks'' else ''fix'') @ ''-'' @ str_of_int tid
                 @ ''-a'' @ str_of_nat (attempt + 1))
      else None)"

record loaded_task =
  ld_task :: task_request
  ld_slug :: string
  ld_credential :: "runner_credential option"
  ld_root :: string

definition service_error :: "runner_refusal + 'a \<Rightarrow> run_error + 'a" where
  "service_error r = (case r of Inl e \<Rightarrow> Inl (Unexpected ''RepoRunnerError'') | Inr x \<Rightarrow> Inr x)"

definition on_runners :: "(runner_db \<Rightarrow> (runner_refusal + 'a) \<times> runner_db) \<Rightarrow> ('e worker_db_scheme, 'a) op" where
  "on_runners f w = (case f (wk_runners w) of (r, db) \<Rightarrow> (service_error r, w\<lparr>wk_runners := db\<rparr>))"

definition task_of :: "'w worker_env \<Rightarrow> claimed_task \<Rightarrow> repo_row \<Rightarrow> string \<Rightarrow> string \<Rightarrow> task_request" where
  "task_of env c repo slug sha =
     \<lparr>tr_id = str_of_int (claimed_id c), tr_url = repo_url (we_git_base env) slug, tr_commit = sha, tr_kind = claimed_kind c,
      tr_base = or_str (rp_branch repo) ''main'', tr_branch = loaded_branch (claimed_kind c) (claimed_id c) (claimed_attempts c),
      tr_repo = Some slug, tr_attempt = claimed_attempts c\<rparr>"

definition load_task :: "'e worker_db_scheme worker_env \<Rightarrow> claimed_task \<Rightarrow> ('e worker_db_scheme, loaded_task) op" where
  "load_task env c w =
     (if claimed_kind c \<notin> set SUPPORTED_KINDS then raised (RunnerError ''unsupported kind'') w
      else (case find (\<lambda>r. rp_id r = claimed_repo c) (wk_repos w) of
          None \<Rightarrow> raised (RunnerError ''no such repository'') w
        | Some repo \<Rightarrow>
            (let slug = or_str (opt_str (rp_forgejo repo)) (rp_slug repo);
                 sha = or_str (py_strip (value_text (lib_str (we_lib env)) (jget (claimed_payload c) ''commit_sha'')))
                         (latest_commit_sha (we_dialect env) w (claimed_repo c))
             in if (case find_runner (wk_runners w) (claimed_repo c) of None \<Rightarrow> False | Some r \<Rightarrow> \<not> rn_enabled r)
                then raised (RunnerError ''runner disabled'') w
                else andthen (on_runners (\<lambda>db. record_task (we_ids env) db (claimed_repo c) (we_now env w))) (\<lambda>_.
                  andthen (\<lambda>w. checked (service_error (credential (we_cipher env) (we_shared_token env) (wk_runners w)
                      (claimed_repo c) (we_now env w))) w) (\<lambda>cred.
                  andthen (on_runners (\<lambda>db. workspace_root (we_ids env) (we_real_chain env) db (claimed_repo c) (we_work_root env))) (\<lambda>path.
                  if \<not> we_real_directory env path then raised (Unexpected ''RepoRunnerError'')
                  else give \<lparr>ld_task = task_of env c repo slug sha, ld_slug = slug, ld_credential = cred, ld_root = path\<rparr>))) w)))"

subsection \<open>The lease, the sink and the run's rows\<close>

definition holds_lease :: "claimed_task \<Rightarrow> queue_db \<Rightarrow> bool" where
  "holds_lease c q =
     (case find (\<lambda>t. task_id t = claimed_id c) (tasks q) of
        None \<Rightarrow> False
      | Some t \<Rightarrow> leased_by t = lease_worker (claimed_lease c) \<and> task_status t \<in> {Leased, TaskQueue.Running})"

definition lease_guard :: "claimed_task \<Rightarrow> ('e worker_db_scheme, unit) op" where
  "lease_guard c w = (if holds_lease c (wk_queue w) then give () w else raised (RunnerError ''lease lost'') w)"

definition change_task :: "(string \<Rightarrow> int option) \<Rightarrow> (agent_task \<Rightarrow> agent_task) \<Rightarrow> string \<Rightarrow> 'e worker_db_scheme \<Rightarrow> 'e worker_db_scheme" where
  "change_task to_int f tid w =
     (case to_int tid of
        None \<Rightarrow> w
      | Some i \<Rightarrow> set_queue ((wk_queue w)\<lparr>tasks := map (\<lambda>t. if task_id t = i then f t else t) (tasks (wk_queue w))\<rparr>) w)"

text \<open>\<open>DbTaskSink\<close>; the worker's sink does not manage the status.\<close>

definition sink_task :: "bool \<Rightarrow> (string \<Rightarrow> int option) \<Rightarrow> (agent_task \<Rightarrow> agent_task) \<Rightarrow> string \<Rightarrow> ('e worker_db_scheme, unit) op" where
  "sink_task manage to_int f tid w = give () (if manage then change_task to_int f tid w else w)"

definition db_task_sink :: "bool \<Rightarrow> (string \<Rightarrow> int option) \<Rightarrow> ('e worker_db_scheme \<Rightarrow> timestamp)
    \<Rightarrow> (string \<Rightarrow> run_result \<Rightarrow> ('e worker_db_scheme, unit) op) option \<Rightarrow> 'e worker_db_scheme host \<Rightarrow> 'e worker_db_scheme host" where
  "db_task_sink manage to_int now ingest_fn h = h\<lparr>
     mark_running := (\<lambda>tid w. sink_task manage to_int
       (\<lambda>t. t\<lparr>task_status := TaskQueue.Running, started_at := (case started_at t of None \<Rightarrow> Some (now w) | s \<Rightarrow> s)\<rparr>) tid w),
     mark_failed := (\<lambda>tid reason w. sink_task manage to_int
       (\<lambda>t. t\<lparr>task_status := Failed, finished_at := Some (now w)\<rparr>) tid w),
     record_findings := (\<lambda>tid result w. case ingest_fn of None \<Rightarrow> give () w | Some f \<Rightarrow> f tid result w),
     mark_done := (\<lambda>tid ref url w. sink_task manage to_int
       (\<lambda>t. t\<lparr>task_status := Done, result_ref := Some ref, finished_at := Some (now w),
              pr_url := (if opt_str url = [] then pr_url t else url)\<rparr>) tid w)\<rparr>"

text \<open>\<open>_make_ingest\<close>: no policy, no drift and no probe is passed on.\<close>

definition plain_ingest :: "int \<Rightarrow> ingest_input" where
  "plain_ingest rid =
     \<lparr>in_run = Some rid, in_policy = None, in_adapter = None, in_base = None, in_head = None, in_drift = None, in_today = None\<rparr>"

definition ingest_run :: "'e worker_db_scheme worker_env \<Rightarrow> int \<Rightarrow> int \<Rightarrow> string \<Rightarrow> run_result \<Rightarrow> ('e worker_db_scheme, unit) op" where
  "ingest_run env repo rid tid result w =
     (case ingest (lib_sha256 (we_lib env)) (lib_str (we_lib env)) (we_now env w) (we_today env w) (plain_ingest rid)
        (wk_findings w) (RepoId repo) (map dump_finding (res_findings result)) of
        Inl e \<Rightarrow> raised (Unexpected ''FindingsError'') w
      | Inr (db, s) \<Rightarrow> give () (w\<lparr>wk_findings := db\<lparr>runs := map (\<lambda>r. if run_id r = rid
            then r\<lparr>run_new := int (sum_new s), run_matched := int (sum_matched s)\<rparr> else r) (runs db)\<rparr>\<rparr>))"

definition open_review_run :: "'e worker_db_scheme worker_env \<Rightarrow> claimed_task \<Rightarrow> task_request \<Rightarrow> ('e worker_db_scheme, int) op" where
  "open_review_run env c task w =
     (let i = new_id (we_ids env) (wk_next_run w) (map run_id (runs (wk_findings w))) in
      if claimed_repo c \<notin> rp_id ` set (wk_repos w) \<or> claimed_id c \<notin> task_id ` set (tasks (wk_queue w))
      then raised (Unexpected ''IntegrityError'') w
      else give i (w\<lparr>wk_next_run := wk_next_run w + 1,
        wk_findings := (wk_findings w)\<lparr>runs := runs (wk_findings w) @ [\<lparr>run_id = i, run_new = 0, run_matched = 0\<rparr>]\<rparr>,
        wk_logs := wk_logs w @ [\<lparr>lg_id = i, lg_repo = claimed_repo c, lg_task = claimed_id c, lg_commit = tr_commit task,
          lg_policy = None, lg_total = 0, lg_passed = 0, lg_failed = 0, lg_status = ''running'', lg_ref = None, lg_finished = None\<rparr>]\<rparr>))"

definition gate_passed :: "json \<Rightarrow> bool" where
  "gate_passed g = (case g of JObj d \<Rightarrow> truthy (jget d ''passed'') | _ \<Rightarrow> False)"

definition meta_of :: "outcome \<Rightarrow> dict" where
  "meta_of out = (case oc_run out of Some (JObj d) \<Rightarrow> d | _ \<Rightarrow> [])"

definition finished_log :: "(json \<Rightarrow> string) \<Rightarrow> timestamp \<Rightarrow> outcome \<Rightarrow> run_log \<Rightarrow> run_log" where
  "finished_log cs now out l =
     l\<lparr>lg_policy := (if truthy (jget (meta_of out) ''policy_hash'') then Some (py_str cs (jget (meta_of out) ''policy_hash'')) else lg_policy l),
       lg_total := length (oc_gates out), lg_passed := length (filter gate_passed (oc_gates out)),
       lg_failed := length (oc_gates out) - length (filter gate_passed (oc_gates out)),
       lg_status := (if oc_status out = ''done'' then ''ok'' else ''error''), lg_ref := oc_ref out, lg_finished := Some now\<rparr>"

definition finish_review_run :: "'e worker_db_scheme worker_env \<Rightarrow> int \<Rightarrow> outcome \<Rightarrow> 'e worker_db_scheme \<Rightarrow> 'e worker_db_scheme" where
  "finish_review_run env rid out w =
     w\<lparr>wk_logs := map (\<lambda>l. if lg_id l = rid then finished_log (lib_str (we_lib env)) (we_now env w) out l else l) (wk_logs w)\<rparr>"

definition record_pr_link :: "(string \<Rightarrow> int option) \<Rightarrow> string \<Rightarrow> outcome \<Rightarrow> 'e worker_db_scheme \<Rightarrow> 'e worker_db_scheme" where
  "record_pr_link to_int tid out w =
     (if opt_str (oc_url out) = [] then w else change_task to_int (\<lambda>t. t\<lparr>pr_url := oc_url out\<rparr>) tid w)"

subsection \<open>The index of checks\<close>

text \<open>\<open>GateResult.model_validate\<close> and \<open>CheckCommand.model_validate\<close> on a JSON value; \<open>None\<close> is a validation error.\<close>

definition parse_gate_result :: "json \<Rightarrow> gate_result option" where
  "parse_gate_result v =
     (case v of
        JObj d \<Rightarrow>
          Option.bind (str_field d ''gate'' None) (\<lambda>gate.
          Option.bind (bool_field d ''passed'' None) (\<lambda>passed.
          Option.bind (str_field d ''status'' (Some PASSED)) (\<lambda>status.
          Option.bind (case map_of d ''exit_code'' of Some (JInt i) \<Rightarrow> Some i | _ \<Rightarrow> None) (\<lambda>exit.
          Option.bind (str_field d ''stdout_tail'' (Some [])) (\<lambda>tail.
          Option.bind (int_field d ''duration_ms'' 0) (\<lambda>ms.
          Option.bind (bool_field d ''timed_out'' (Some False)) (\<lambda>late.
          sync_status \<lparr>gate = gate, passed = passed, status = status, exit_code = exit, stdout_tail = tail, duration_ms = ms,
            timed_out = late\<rparr>)))))))
      | _ \<Rightarrow> None)"

definition parse_command :: "(json \<Rightarrow> timestamp option) \<Rightarrow> json \<Rightarrow> check_command option" where
  "parse_command to_float v =
     (case v of
        JObj d \<Rightarrow>
          Option.bind (str_field d ''id'' None) (\<lambda>i.
          Option.bind (list_field (\<lambda>a. case a of JStr s \<Rightarrow> Some s | _ \<Rightarrow> None) d ''argv'' None) (\<lambda>argv.
          Option.bind (str_field d ''cwd'' (Some ''.'')) (\<lambda>cwd.
          Option.bind (case jget d ''timeout'' of JNull \<Rightarrow> Some None | JInt n \<Rightarrow> map_option Some (to_float (JInt n)) | _ \<Rightarrow> None) (\<lambda>timeout.
          Option.bind (str_field d ''validation'' (Some UNVALIDATED)) (\<lambda>validation.
          Option.bind (str_field d ''source'' (Some SOURCE_EXPLICIT)) (\<lambda>source.
          (let c = \<lparr>cmd_id = i, cmd_argv = argv, cmd_cwd = cwd, cmd_timeout = timeout, cmd_validation = validation, cmd_source = source\<rparr>
           in if command_valid c then Some c else None)))))))
      | _ \<Rightarrow> None)"

definition run_records :: "(json \<Rightarrow> string) \<Rightarrow> task_request \<Rightarrow> timestamp \<Rightarrow> outcome \<Rightarrow> run_record list" where
  "run_records cs task now out =
     map (\<lambda>g. record_from_gate g (value_text cs (jget (meta_of out) ''suite_hash'')) (tr_commit task) now VALIDATED)
       (List.map_filter parse_gate_result (oc_gates out))
     @ map (\<lambda>g. record_from_gate g (value_text cs (jget (meta_of out) ''ai_suite_hash'')) (tr_commit task) now UNVALIDATED)
       (List.map_filter parse_gate_result (oc_ai_gates out))"

text \<open>The items a \<open>for\<close> loop over \<open>value or ()\<close> meets that are mappings; a number is not iterable.\<close>

definition mappings_of :: "json \<Rightarrow> dict list option" where
  "mappings_of v =
     (if \<not> truthy v then Some []
      else (case v of JList vs \<Rightarrow> Some (objects_of vs) | JInt i \<Rightarrow> None | JBool b \<Rightarrow> None | _ \<Rightarrow> Some []))"

text \<open>\<open>int(item.get(k) or 0)\<close>; a count of faults is not negative in what the curator reports.\<close>

definition count_of :: "(json \<Rightarrow> int option) \<Rightarrow> dict \<Rightarrow> string \<Rightarrow> nat option" where
  "count_of to_int d k = (if truthy (jget d k) then map_option nat (to_int (jget d k)) else Some 0)"

text \<open>\<open>tuple(value or ())\<close> as texts: the characters of a string, the keys of a mapping.\<close>

definition texts_of :: "(json \<Rightarrow> string) \<Rightarrow> json \<Rightarrow> string list option" where
  "texts_of cs v =
     (if \<not> truthy v then Some []
      else (case v of JList vs \<Rightarrow> Some (map (py_str cs) vs) | JStr s \<Rightarrow> Some (map (\<lambda>c. [c]) s) | JObj kvs \<Rightarrow> Some (map fst kvs) | _ \<Rightarrow> None))"

definition verdict_of :: "runner_lib \<Rightarrow> dict \<Rightarrow> check_verdict option" where
  "verdict_of lib d =
     Option.bind (count_of (lib_int lib) d ''faults_attempted'') (\<lambda>attempted.
     Option.bind (count_of (lib_int lib) d ''faults_detected'') (\<lambda>detected.
     Option.bind (texts_of (lib_str lib) (jget d ''detected_by'')) (\<lambda>names.
     Some \<lparr>v_check = value_text (lib_str lib) (jget d ''check_id''),
       v_status = or_str (value_text (lib_str lib) (jget d ''status'')) UNVALIDATED, baseline_passed = truthy (jget d ''baseline_passed''),
       faults_attempted = attempted, faults_detected = detected, detected_by = names\<rparr>)))"

fun record_verdicts :: "runner_lib \<Rightarrow> int \<Rightarrow> string \<Rightarrow> dict list \<Rightarrow> check_db \<Rightarrow> check_db option" where
  "record_verdicts lib repo base [] db = Some db"
| "record_verdicts lib repo base (d # ds) db =
     Option.bind (verdict_of lib d) (\<lambda>v. Option.bind (record_validation db repo v (Some base)) (record_verdicts lib repo base ds))"

definition record_proposal :: "runner_lib \<Rightarrow> int \<Rightarrow> task_request \<Rightarrow> string \<Rightarrow> timestamp \<Rightarrow> dict \<Rightarrow> check_db \<Rightarrow> check_db option" where
  "record_proposal lib repo task model now report db =
     Option.bind (mappings_of (jget report ''checks'')) (\<lambda>items.
     (let commands = List.map_filter (\<lambda>d. parse_command (lib_float lib) (JObj d)) items in
      if commands = [] then Some db
      else map_option snd (record_proposal_snapshot (lib_sha256 lib) (lib_repr lib) db repo
        \<lparr>suite_checks = commands, source_of = or_str (value_text (lib_str lib) (jget report ''source'')) SOURCE_AGENT_CHECKS\<rparr>
        (Some (tr_commit task)) model
        (if tr_id task \<noteq> [] \<and> list_all is_digit (tr_id task) then lib_int lib (JStr (tr_id task)) else None) now)))"

definition check_artifacts :: "runner_lib \<Rightarrow> int \<Rightarrow> task_request \<Rightarrow> string \<Rightarrow> timestamp \<Rightarrow> outcome \<Rightarrow> check_db \<Rightarrow> check_db option" where
  "check_artifacts lib repo task model now out db =
     Option.bind (store_append db repo (run_records (lib_str lib) task now out) now) (\<lambda>db1.
     (case oc_curator out of
        None \<Rightarrow> Some db1
      | Some report \<Rightarrow>
          Option.bind (record_proposal lib repo task model now report db1) (\<lambda>db2.
          Option.bind (mappings_of (jget report ''validations'')) (\<lambda>items.
          record_verdicts lib repo (tr_commit task) items db2))))"

text \<open>Best effort: whatever raises rolls the whole session back.\<close>

definition record_check_artifacts :: "'e worker_db_scheme worker_env \<Rightarrow> int \<Rightarrow> task_request \<Rightarrow> outcome \<Rightarrow> 'e worker_db_scheme
    \<Rightarrow> 'e worker_db_scheme" where
  "record_check_artifacts env repo task out w =
     (case check_artifacts (we_lib env) repo task
        (opt_str (map_of (we_model_env env) (MODEL_ENV_PREFIX @ ''_MODEL''))) (we_now env w) out (wk_checks w) of
        None \<Rightarrow> w | Some db \<Rightarrow> w\<lparr>wk_checks := db\<rparr>)"

subsection \<open>The policy parser and the handler\<close>

text \<open>\<open>build_policy_parser\<close>: \<open>None\<close> is an exception, which the runner turns into the plain policy.\<close>

definition policy_parser :: "((string \<times> json) list \<Rightarrow> string + policy_document) \<Rightarrow> (string \<Rightarrow> string) \<Rightarrow> (string \<Rightarrow> json)
    \<Rightarrow> (string \<Rightarrow> yaml_result) \<Rightarrow> date \<Rightarrow> string option \<Rightarrow> policy_view option" where
  "policy_parser model_validate sha256 float_repr safe_load today text =
     (case (if py_strip (opt_str text) = [] then Inr (builtin_default sha256 float_repr None)
            else and_then (parse_yaml (safe_load (opt_str text)))
                   (\<lambda>raw. parse_document model_validate sha256 float_repr today raw ReviewPolicy.SOURCE_FILE None)) of
        Inl e \<Rightarrow> None
      | Inr doc \<Rightarrow> Some \<lparr>pv_source = policy_source doc, pv_hash = policy_hash_field doc,
          pv_max_findings = max_findings_per_run (defaults doc), pv_pr_policy = pr_policy (defaults doc),
          pv_auto_fix = auto_fix (defaults doc), pv_checks = map (check_json float_repr) (checks doc)\<rparr>)"

definition handler_model_env :: "resolved_route list option \<Rightarrow> string option \<Rightarrow> (string \<times> string) list" where
  "handler_model_env routes wanted =
     (case routes of None \<Rightarrow> [] | Some rs \<Rightarrow> (case resolve_model_env rs wanted of Inl e \<Rightarrow> [] | Inr env \<Rightarrow> env))"

definition git_token_of :: "loaded_task \<Rightarrow> string" where
  "git_token_of ld = (case ld_credential ld of None \<Rightarrow> [] | Some cred \<Rightarrow> cr_token cred)"

definition handler_config :: "'w worker_env \<Rightarrow> loaded_task \<Rightarrow> runner_config" where
  "handler_config env ld =
     \<lparr>rc_work_root = ld_root ld, rc_max_findings = we_max_findings env, rc_pr_policy = pr_policy_override None (we_pr_policy env),
      rc_auto_fix = we_auto_fix env, rc_env = we_model_env env,
      rc_secrets = secret_values (we_model_env env) @ (if git_token_of ld = [] then [] else [git_token_of ld])\<rparr>"

text \<open>The adapter is built from the loaded task (its slug and credential); the sink and the guard are the worker's.\<close>

definition handler_host :: "'e worker_db_scheme worker_env \<Rightarrow> 'e worker_db_scheme host \<Rightarrow> claimed_task \<Rightarrow> int \<Rightarrow> 'e worker_db_scheme host" where
  "handler_host env adapter c rid =
     (db_task_sink False (\<lambda>tid. lib_int (we_lib env) (JStr tid)) (we_now env) (Some (ingest_run env (claimed_repo c) rid)) adapter)
       \<lparr>publish_guard := Some (lease_guard c)\<rparr>"

definition settle_outcome :: "'e worker_db_scheme worker_env \<Rightarrow> claimed_task \<Rightarrow> int \<Rightarrow> task_request \<Rightarrow> outcome \<Rightarrow> 'e worker_db_scheme
    \<Rightarrow> (run_error + string) \<times> 'e worker_db_scheme" where
  "settle_outcome env c rid task out w =
     (let w1 = finish_review_run env rid out w;
          w2 = record_pr_link (\<lambda>tid. lib_int (we_lib env) (JStr tid)) (str_of_int (claimed_id c)) out w1;
          w3 = record_check_artifacts env (claimed_repo c) task out w2
      in (if oc_status out = ''done'' then Inr (or_str (opt_str (oc_ref out)) (''task:'' @ str_of_int (claimed_id c)))
          else Inl (case oc_error out of Some e \<Rightarrow> e | None \<Rightarrow> RunnerError (''task '' @ str_of_int (claimed_id c))), w3))"

definition handle :: "'e worker_db_scheme worker_env \<Rightarrow> (loaded_task \<Rightarrow> 'e worker_db_scheme host) \<Rightarrow> claimed_task
    \<Rightarrow> 'e worker_db_scheme \<Rightarrow> (run_error + string) \<times> 'e worker_db_scheme" where
  "handle env adapter c =
     andthen (load_task env c) (\<lambda>ld.
     andthen (open_review_run env c (ld_task ld)) (\<lambda>rid.
     (\<lambda>w. case run (we_lib env) (handler_config env ld) (handler_host env (adapter ld) c rid) (ld_task ld) w of
        (Inl e, s) \<Rightarrow> (Inl e, world s)
      | (Inr out, s) \<Rightarrow> settle_outcome env c rid (ld_task ld) out (world s))))"

end
