(* ===== verification/RunnerKeeps.thy ===== *)
theory RunnerKeeps
  imports RunnerProps
begin

section \<open>What a run leaves alone\<close>

text \<open>
  If no call of the adapter, the sink and the guard breaks a property \<open>I\<close> of the world, a run does not break it, and every event
  of its trace is one that such a call can produce while \<open>I\<close> holds. One rule per combinator, then one lemma per part of \<open>run\<close>.
\<close>

named_theorems keep_rules

definition kept :: "('w \<Rightarrow> bool) \<Rightarrow> ('w, 'a) op \<Rightarrow> bool" where
  "kept I f \<longleftrightarrow> (\<forall>w. I w \<longrightarrow> I (snd (f w)))"

definition adapter_keeps :: "('w \<Rightarrow> bool) \<Rightarrow> 'w host \<Rightarrow> bool" where
  "adapter_keeps I h \<longleftrightarrow>
     (\<forall>env. kept I (set_model_env h env)) \<and> (\<forall>d. kept I (prepare h d)) \<and> (\<forall>d u c. kept I (clone h d u c))
     \<and> (\<forall>d. kept I (hand_over h d)) \<and> (\<forall>d. kept I (read_files h d)) \<and> (\<forall>d t s. kept I (run_gates h d t s))
     \<and> (\<forall>f \<in> set_option (ai_gates_method h). \<forall>d t s. kept I (f d t s)) \<and> (\<forall>d p t c. kept I (review h d p t c))
     \<and> (\<forall>f \<in> set_option (curate_method h). \<forall>d t. kept I (f d t)) \<and> (\<forall>d f t c. kept I (search h d f t c))
     \<and> (\<forall>f \<in> set_option (changed_method h). \<forall>d. kept I (f d))
     \<and> (\<forall>f \<in> set_option (protect_suite_method h). \<forall>d b. kept I (f d b))
     \<and> (\<forall>f \<in> set_option (protect_paths_method h). \<forall>d ps b. kept I (f d ps b)) \<and> (\<forall>d v. kept I (emit h d v))
     \<and> (\<forall>d b c r. kept I (commit_op h d b c r)) \<and> (\<forall>d b c u. kept I (push_op h d b c u))
     \<and> (\<forall>d b t x. kept I (open_pr h d b t x)) \<and> (\<forall>d. kept I (mark_finished h d))"

definition sink_keeps :: "('w \<Rightarrow> bool) \<Rightarrow> 'w host \<Rightarrow> bool" where
  "sink_keeps I h \<longleftrightarrow> (\<forall>t. kept I (mark_running h t)) \<and> (\<forall>t e. kept I (mark_failed h t e))
     \<and> (\<forall>t r. kept I (record_findings h t r)) \<and> (\<forall>t r u. kept I (mark_done h t r u))"

text \<open>\<open>Q\<close> is a property of events that only the guard's reply can violate.\<close>

definition lease_event :: "event \<Rightarrow> bool" where
  "lease_event e = (case e of LeaseAsked ok \<Rightarrow> True | _ \<Rightarrow> False)"

definition guard_keeps :: "('w \<Rightarrow> bool) \<Rightarrow> (event \<Rightarrow> bool) \<Rightarrow> 'w host \<Rightarrow> bool" where
  "guard_keeps I Q h \<longleftrightarrow> (\<forall>e. \<not> lease_event e \<longrightarrow> Q e)
     \<and> (\<forall>f \<in> set_option (publish_guard h). \<forall>w. I w \<longrightarrow> I (snd (f w)) \<and> Q (LeaseAsked (returned (fst (f w)))))"

definition keeps :: "('w \<Rightarrow> bool) \<Rightarrow> (event \<Rightarrow> bool) \<Rightarrow> ('w, 'a) act \<Rightarrow> bool" where
  "keeps I Q m \<longleftrightarrow> (\<forall>s. I (world s) \<and> list_all Q (trace s) \<longrightarrow> I (world (snd (m s))) \<and> list_all Q (trace (snd (m s))))"

lemma keepsD:
  assumes "keeps I Q m" "m s = (r, s')" "I (world s)" "list_all Q (trace s)"
  shows "I (world s') \<and> list_all Q (trace s')"
  using assms(1) [unfolded keeps_def, rule_format, of s] assms(2-) by simp

lemma keepsI:
  assumes "\<And>s r s'. I (world s) \<Longrightarrow> list_all Q (trace s) \<Longrightarrow> m s = (r, s') \<Longrightarrow> I (world s') \<and> list_all Q (trace s')"
  shows "keeps I Q m"
  unfolding keeps_def using assms by (metis prod.collapse)

lemma keeps_silent [keep_rules]: "(\<And>s. world (u s) = world s \<and> trace (u s) = trace s) \<Longrightarrow> keeps I Q (\<lambda>s. (r s, u s))"
  by (simp add: keeps_def)

lemma keeps_plain [keep_rules]:
  "keeps I Q (give x)" "keeps I Q (raised e)" "keeps I Q (checked r)" "keeps I Q (observe f)" "keeps I Q (step name)"
  by (simp_all add: keeps_def give_def raised_def checked_def observe_def step_def)

lemma keeps_logged [keep_rules]: "Q e \<Longrightarrow> keeps I Q (logged e)"
  by (simp add: keeps_def logged_def)

lemma keeps_andthen [keep_rules]:
  assumes "keeps I Q m" "\<And>x. keeps I Q (f x)"
  shows "keeps I Q (andthen m f)"
proof (rule keepsI)
  fix s :: "'a run_state" and r s''
  assume s: "I (world s)" "list_all Q (trace s)" and run: "andthen m f s = (r, s'')"
  obtain r' s' where m: "m s = (r', s')" by (cases "m s")
  note s' = keepsD [OF assms(1) m s]
  show "I (world s'') \<and> list_all Q (trace s'')"
    using run m s' by (cases r') (auto simp: andthen_def dest: keepsD [OF assms(2)])
qed

lemma keeps_handling [keep_rules]:
  assumes "keeps I Q m" "\<And>e. keeps I Q (g e)"
  shows "keeps I Q (handling m g)"
proof (rule keepsI)
  fix s :: "'a run_state" and r s''
  assume s: "I (world s)" "list_all Q (trace s)" and run: "handling m g s = (r, s'')"
  obtain r' s' where m: "m s = (r', s')" by (cases "m s")
  note s' = keepsD [OF assms(1) m s]
  show "I (world s'') \<and> list_all Q (trace s'')"
    using run m s' by (cases r') (auto simp: handling_def dest: keepsD [OF assms(2)])
qed

lemma keeps_best_effort [keep_rules]:
  assumes "keeps I Q m"
  shows "keeps I Q (best_effort m)"
proof (rule keepsI)
  fix s :: "'a run_state" and r s''
  assume s: "I (world s)" "list_all Q (trace s)" and run: "best_effort m s = (r, s'')"
  obtain r' s' where m: "m s = (r', s')" by (cases "m s")
  then have "s'' = s'" using run by (auto simp: best_effort_def split: sum.split_asm run_error.split_asm)
  then show "I (world s'') \<and> list_all Q (trace s'')" using keepsD [OF assms m s] by simp
qed

lemma keeps_always_then [keep_rules]:
  assumes "keeps I Q m" "keeps I Q c"
  shows "keeps I Q (always_then m c)"
proof (rule keepsI)
  fix s :: "'a run_state" and r s3
  assume s: "I (world s)" "list_all Q (trace s)" and run: "always_then m c s = (r, s3)"
  obtain r' s' where m: "m s = (r', s')" by (cases "m s")
  obtain r'' s'' where c: "c s' = (r'', s'')" by (cases "c s'")
  have "s3 = s''" using run m c by (auto simp: always_then_def split: sum.split_asm)
  then show "I (world s3) \<and> list_all Q (trace s3)" using keepsD [OF assms(2) c] keepsD [OF assms(1) m s] by blast
qed

lemma keeps_split [keep_rules]:
  "(b \<Longrightarrow> keeps I Q m) \<Longrightarrow> (\<not> b \<Longrightarrow> keeps I Q n) \<Longrightarrow> keeps I Q (if b then m else n)"
  "(\<And>x y. keeps I Q (k x y)) \<Longrightarrow> keeps I Q (case p of (x, y) \<Rightarrow> k x y)"
  "(\<And>x. z = Some x \<Longrightarrow> keeps I Q (l x)) \<Longrightarrow> (z = None \<Longrightarrow> keeps I Q m) \<Longrightarrow> keeps I Q (case z of None \<Rightarrow> m | Some x \<Rightarrow> l x)"
  "(\<And>x. keeps I Q (g x)) \<Longrightarrow> (\<And>x. keeps I Q (l' x)) \<Longrightarrow> keeps I Q (case v of Inl x \<Rightarrow> g x | Inr x \<Rightarrow> l' x)"
  by (auto split: prod.split option.split sum.split)

lemma keeps_call:
  assumes "\<And>w. I w \<Longrightarrow> I (snd (f w)) \<and> Q (mk (fst (f w)))"
  shows "keeps I Q (call mk f)"
proof (rule keepsI)
  fix s :: "'a run_state" and r s'
  assume "I (world s)" "list_all Q (trace s)" "call mk f s = (r, s')"
  then show "I (world s') \<and> list_all Q (trace s')" using assms [of "world s"] by (auto simp: call_def split: prod.split_asm)
qed

lemma keeps_call_plain: "kept I f \<Longrightarrow> (\<And>r. Q (mk r)) \<Longrightarrow> keeps I Q (call mk f)"
  by (rule keeps_call) (simp add: kept_def)

subsection \<open>The calls of a host\<close>

definition host_keeps :: "('w \<Rightarrow> bool) \<Rightarrow> (event \<Rightarrow> bool) \<Rightarrow> 'w host \<Rightarrow> bool" where
  "host_keeps I Q h \<longleftrightarrow> adapter_keeps I h \<and> sink_keeps I h \<and> guard_keeps I Q h"

lemma other_event: "host_keeps I Q h \<Longrightarrow> \<not> lease_event e \<Longrightarrow> Q e"
  by (simp add: host_keeps_def guard_keeps_def)

lemma keeps_host_call:
  assumes "host_keeps I Q h" "kept I f" "\<And>r. \<not> lease_event (mk r)"
  shows "keeps I Q (call mk f)"
  using assms by (intro keeps_call_plain other_event [OF assms(1)]) auto

lemma host_calls:
  assumes "host_keeps I Q h"
  shows "keeps I Q (call (\<lambda>r. EnvSet env (returned r)) (set_model_env h env))"
    and "keeps I Q (call (\<lambda>r. Running (returned r)) (mark_running h t))"
    and "keeps I Q (call (\<lambda>r. Prepared (returned r)) (prepare h d))"
    and "keeps I Q (call (\<lambda>r. Cloned (returned r)) (clone h d u c))"
    and "keeps I Q (call (\<lambda>r. HandedOver (returned r)) (hand_over h d))"
    and "keeps I Q (call (\<lambda>r. ContextRead (got r)) (read_files h d))"
    and "keeps I Q (call (\<lambda>r. Gated s (got r)) (run_gates h d n s))"
    and "keeps I Q (call (\<lambda>r. Reviewed (returned r)) (review h d p task files))"
    and "keeps I Q (call (\<lambda>r. Searched (returned r)) (search h d f task files))"
    and "keeps I Q (call (\<lambda>r. Emitted v (returned r)) (emit h d v))"
    and "keeps I Q (call (\<lambda>r. Recorded (returned r)) (record_findings h t res))"
    and "keeps I Q (call (\<lambda>r. Committed b (returned r)) (commit_op h d b c res))"
    and "keeps I Q (call (\<lambda>r. Pushed b (returned r)) (push_op h d b c u))"
    and "keeps I Q (call (\<lambda>r. Proposed b (returned r)) (open_pr h d b base content))"
    and "keeps I Q (call (\<lambda>r. FailedMarked e (returned r)) (mark_failed h t e))"
    and "keeps I Q (call (\<lambda>r. DoneMarked (returned r)) (mark_done h t ref url))"
    and "keeps I Q (call (\<lambda>r. Finished (returned r)) (mark_finished h d))"
  using assms unfolding host_keeps_def adapter_keeps_def sink_keeps_def
  by (auto intro!: keeps_host_call [OF assms] simp: lease_event_def)

lemma host_optional_calls:
  assumes "host_keeps I Q h"
  shows "ai_gates_method h = Some f1 \<Longrightarrow> keeps I Q (call (\<lambda>r. AiGated s (got r)) (f1 d n s))"
    and "curate_method h = Some f2 \<Longrightarrow> keeps I Q (call (\<lambda>r. Curated (returned r)) (f2 d n))"
    and "changed_method h = Some f3 \<Longrightarrow> keeps I Q (call (\<lambda>r. Changed (got r)) (f3 d))"
    and "protect_suite_method h = Some f4 \<Longrightarrow> keeps I Q (call (\<lambda>r. LockedSuite b (returned r)) (f4 d b))"
    and "protect_paths_method h = Some f5 \<Longrightarrow> keeps I Q (call (\<lambda>r. LockedPaths ps b (returned r)) (f5 d ps b))"
  using assms unfolding host_keeps_def adapter_keeps_def
  by (auto intro!: keeps_host_call [OF assms] simp: lease_event_def)

subsection \<open>The parts of a run\<close>

lemma keeps_adapter_parts:
  assumes "host_keeps I Q h"
  shows "keeps I Q (ai_gates_of lib h d s)" and "keeps I Q (gates_of lib h d s)" and "keeps I Q (curate lib h d)"
    and "keeps I Q (protect_suite h d b)" and "keeps I Q (protect_paths h d ps b)" and "keeps I Q (adapter_changed_paths h d)"
  unfolding ai_gates_of_def gates_of_def curate_def protect_suite_def protect_paths_def adapter_changed_paths_def
  by (intro keep_rules host_calls [OF assms] host_optional_calls [OF assms] other_event [OF assms]; simp add: lease_event_def)+

lemma keeps_publish:
  assumes "host_keeps I Q h"
  shows "keeps I Q (publish h b)"
  unfolding publish_def
  using assms by (intro keep_rules keeps_call) (auto simp: host_keeps_def guard_keeps_def)

lemma keeps_guard:
  assumes "host_keeps I Q h"
  shows "keeps I Q (guard_task_paths h d kind esc suite)"
  unfolding guard_task_paths_def Let_def by (intro keep_rules keeps_adapter_parts [OF assms])

lemma keeps_open_task:
  assumes "host_keeps I Q h"
  shows "keeps I Q (open_task lib h task d)"
  unfolding open_task_def Let_def
  by (intro keep_rules host_calls [OF assms] keeps_adapter_parts [OF assms] other_event [OF assms]; simp add: lease_event_def)

lemma keeps_judge:
  assumes "host_keeps I Q h"
  shows "keeps I Q (judge lib h d user ai)"
  unfolding judge_def by (intro keep_rules keeps_adapter_parts [OF assms])

lemma keeps_search_all:
  assumes "host_keeps I Q h"
  shows "keeps I Q (search_all h d task files fs)"
  by (induction fs) (auto intro!: keep_rules host_calls [OF assms])

lemma keeps_examine:
  assumes "host_keeps I Q h"
  shows "keeps I Q (examine lib cfg h task d files policy)"
  unfolding examine_def by (intro keep_rules host_calls [OF assms] keeps_adapter_parts [OF assms] keeps_search_all [OF assms])

lemma keeps_writing:
  assumes "host_keeps I Q h"
  shows "keeps I Q (rejudge lib h d f document)" and "keeps I Q (record_result h task d document result)"
    and "keeps I Q (publish_branch lib h task d branch f result level user ai)" and "keeps I Q (withhold h task e document)"
  unfolding rejudge_def record_result_def publish_branch_def withhold_def Let_def
  by (intro keep_rules host_calls [OF assms] keeps_judge [OF assms] keeps_publish [OF assms]; simp)+

lemma keeps_record_and_publish:
  assumes "host_keeps I Q h"
  shows "keeps I Q (record_and_publish lib h task d branch f document result level user ai)"
  unfolding record_and_publish_def by (intro keep_rules keeps_writing [OF assms])

lemma keeps_write_source:
  assumes "host_keeps I Q h"
  shows "keeps I Q (write_source lib cfg h task d esc f level document result)"
  unfolding write_source_def Let_def
  by (intro keep_rules host_calls [OF assms] keeps_guard [OF assms] keeps_writing [OF assms] keeps_record_and_publish [OF assms])

lemma keeps_conclude:
  assumes "host_keeps I Q h"
  shows "keeps I Q (conclude h task d written)"
  unfolding conclude_def by (intro keep_rules host_calls [OF assms] keeps_writing [OF assms]; simp)

lemma keeps_deliver:
  assumes "host_keeps I Q h"
  shows "keeps I Q (deliver lib cfg h task d started f)"
  unfolding deliver_def Let_def
  by (intro keep_rules host_calls [OF assms] keeps_write_source [OF assms] keeps_conclude [OF assms]; simp)

lemma keeps_closing:
  assumes "host_keeps I Q h"
  shows "keeps I Q (closing h task d)"
proof -
  have "keeps I Q (unlock_frozen h task d z)" for z
    unfolding unlock_frozen_def by (intro keep_rules keeps_adapter_parts [OF assms])
  then have "keeps I Q (unlock h task d)" by (auto simp: keeps_def unlock_def)
  then show ?thesis unfolding closing_def by (intro keep_rules host_calls [OF assms])
qed

lemma keeps_run_in:
  assumes "host_keeps I Q h"
  shows "keeps I Q (run_in lib cfg h task d)"
  unfolding run_in_def body_def failed_run_def Let_def
  by (intro keep_rules host_calls [OF assms] keeps_open_task [OF assms] keeps_judge [OF assms] keeps_examine [OF assms]
      keeps_deliver [OF assms] keeps_closing [OF assms]; simp)

theorem run_keeps:
  assumes "host_keeps I Q h" "I w"
  shows "I (world (snd (run lib cfg h task w))) \<and> list_all Q (trace (snd (run lib cfg h task w)))"
proof (cases "workdir_for (lib_utf8 lib) (rc_work_root cfg) (tr_id task) (tr_attempt task)")
  case (Inl e)
  then show ?thesis using assms(2) by (simp add: run_def Let_def)
next
  case (Inr d)
  let ?s = "\<lparr>world = w, trace = [], steps = [], frozen_user = None\<rparr>"
  obtain r s where "run_in lib cfg h task d ?s = (r, s)" by (cases "run_in lib cfg h task d ?s")
  then show ?thesis using keepsD [OF keeps_run_in [OF assms(1)]] assms(2) Inr by (simp add: run_def Let_def)
qed

end
