(* ===== verification/AgentWorkerProps.thy ===== *)
theory AgentWorkerProps
  imports AgentWorker RunnerKeeps RunnerGit FindingsInv QueueWorker RepoRunnersProps
begin

section \<open>What the worker's tasks may do\<close>

subsection \<open>The calls of the handler's own\<close>

lemma kept_quiet: "(\<And>w. wk_queue (snd (f w)) = wk_queue w) \<Longrightarrow> kept (\<lambda>w. P (wk_queue w)) f"
  by (simp add: kept_def)

lemma ingest_run_queue: "wk_queue (snd (ingest_run env repo rid tid result w)) = wk_queue w"
  by (simp add: ingest_run_def raised_def give_def wk_queue_def split: sum.split prod.split)

lemma sink_keeps_queue: "sink_keeps (\<lambda>w. P (wk_queue w)) (handler_host env adapter c rid)"
  by (simp add: sink_keeps_def kept_def handler_host_def db_task_sink_def sink_task_def give_def ingest_run_queue)

lemma adapter_keeps_handler: "adapter_keeps I (handler_host env adapter c rid) = adapter_keeps I adapter"
  by (simp add: adapter_keeps_def handler_host_def db_task_sink_def)

lemma handler_guard: "publish_guard (handler_host env adapter c rid) = Some (lease_guard c)"
  by (simp add: handler_host_def)

lemma lease_guard_result: "lease_guard c w = (if holds_lease c (wk_queue w) then Inr () else Inl (RunnerError ''lease lost''), w)"
  by (simp add: lease_guard_def give_def raised_def)

lemma handler_host_keeps:
  fixes adapter :: "'e worker_db_scheme host"
  assumes "adapter_keeps (\<lambda>w. P (wk_queue w)) adapter" and "\<And>e. \<not> lease_event e \<Longrightarrow> Q e"
    and "\<And>q. P q \<Longrightarrow> Q (LeaseAsked (holds_lease c q))"
  shows "host_keeps (\<lambda>w. P (wk_queue w)) Q (handler_host env adapter c rid)"
  unfolding host_keeps_def guard_keeps_def adapter_keeps_handler handler_guard
proof (intro conjI ballI allI impI)
  fix f :: "('e worker_db_scheme, unit) op" and w :: "'e worker_db_scheme"
  assume "f \<in> set_option (Some (lease_guard c))" "P (wk_queue w)"
  then show "P (wk_queue (snd (f w)))" "Q (LeaseAsked (returned (fst (f w))))"
    using assms(3) [of "wk_queue w"] by (auto simp: lease_guard_result)
qed (use assms in \<open>simp_all add: sink_keeps_queue\<close>)

subsection \<open>A worker that lost its lease\<close>

definition publishing :: "event \<Rightarrow> bool" where
  "publishing e = (case e of Pushed b ok \<Rightarrow> True | Proposed b ok \<Rightarrow> True | _ \<Rightarrow> False)"

lemma before_each_mem: "before_each P tr \<Longrightarrow> e \<in> set tr \<Longrightarrow> \<exists>earlier. P earlier e \<and> set earlier \<subseteq> set tr"
  by (induction tr) auto

lemma published_asks:
  assumes "publish_guard h = Some g" "publishing e" "e \<in> set (trace (snd (run lib cfg h task w)))"
  shows "LeaseAsked True \<in> set (trace (snd (run lib cfg h task w)))"
proof -
  let ?c = "protocol_of lib cfg h task" and ?tr = "trace (snd (run lib cfg h task w))"
  have guarded: "pr_guarded ?c" using assms(1) by (simp add: protocol_of_def)
  obtain p where "accepted ?c ?tr p" by (rule exE [OF run_trace_accepted])
  then have "before_each (\<lambda>earlier e. publishing e \<longrightarrow> LeaseAsked True \<in> set earlier) ?tr"
  proof (rule before_each_accepted)
    fix tr p e q assume at: "accepted ?c tr p" and move: "moves ?c p e q"
    show "publishing e \<longrightarrow> LeaseAsked True \<in> set tr"
    proof
      assume "publishing e"
      then consider b ok where "e = Pushed b ok" | b ok where "e = Proposed b ok"
        by (auto simp: publishing_def split: event.split_asm)
      then show "LeaseAsked True \<in> set tr"
      proof cases
        case 1
        then show ?thesis using leased_earned [OF move_pushed at, of b ok q] move guarded by (auto simp: lease_first_def)
      next
        case 2
        then show ?thesis using renewed_out [OF move_proposed at, of b ok q] move guarded by (auto simp: lease_first_def)
      qed
    qed
  qed
  then show ?thesis using before_each_mem [of _ ?tr e] assms(2,3) by blast
qed

text \<open>
  C4: a worker that no longer holds the lease of its task publishes nothing. If the row says so when the run begins and no call
  of the adapter gives the lease back, the run pushes no branch and opens no pull request, whatever else happens in it.
\<close>

theorem stale_worker_publishes_nothing:
  assumes "\<not> holds_lease c (wk_queue w)" and "adapter_keeps (\<lambda>w. \<not> holds_lease c (wk_queue w)) adapter"
  shows "list_all (\<lambda>e. \<not> publishing e) (trace (snd (run lib cfg (handler_host env adapter c rid) task w)))"
proof -
  let ?h = "handler_host env adapter c rid"
  have "host_keeps (\<lambda>w. \<not> holds_lease c (wk_queue w)) (\<lambda>e. e \<noteq> LeaseAsked True) ?h"
    using assms(2) by (intro handler_host_keeps) (auto simp: lease_event_def)
  from run_keeps [where I = "\<lambda>w. \<not> holds_lease c (wk_queue w)", OF this assms(1), of lib cfg task]
  have "LeaseAsked True \<notin> set (trace (snd (run lib cfg ?h task w)))"
    by (auto simp: list_all_iff)
  then show ?thesis using published_asks [OF handler_guard] unfolding list_all_iff by blast
qed

text \<open>An adapter whose every call succeeds and does nothing.\<close>

definition unverified :: gate_summary where "unverified = unverified_summary [] SOURCE_AGENT_CHECKS"

definition idle_adapter :: "'w host" where
  "idle_adapter =
     \<lparr>set_model_env = (\<lambda>env w. (Inr (), w)), prepare = (\<lambda>d w. (Inr (), w)), clone = (\<lambda>d u c w. (Inr (), w)),
      hand_over = (\<lambda>d w. (Inr (), w)), read_files = (\<lambda>d w. (Inr \<lparr>rx_agents = None, rx_policy = None\<rparr>, w)),
      agent_checks_of = (\<lambda>d w. None), discovered_of = (\<lambda>d w. \<lparr>suite_checks = [], source_of = SOURCE_AGENT_CHECKS\<rparr>),
      file_of = (\<lambda>d w p. False), run_gates = (\<lambda>d t s w. (Inr unverified, w)), ai_gates_method = None,
      review = (\<lambda>d p t c w. (Inr [], w)), curate_method = None, search = (\<lambda>d f t c w. (Inr f, w)),
      changed_method = Some (\<lambda>d w. (Inr [], w)), protect_suite_method = None, protect_paths_method = None,
      emit = (\<lambda>d v w. (Inr ''result.json'', w)), commit_op = (\<lambda>d b c r w. (Inr (), w)), push_op = (\<lambda>d b c u w. (Inr (), w)),
      open_pr = (\<lambda>d b t x w. (Inr None, w)), publish_guard = None, mark_running = (\<lambda>t w. (Inr (), w)),
      mark_failed = (\<lambda>t e w. (Inr (), w)), record_findings = (\<lambda>t r w. (Inr (), w)), mark_done = (\<lambda>t r u w. (Inr (), w)),
      mark_finished = (\<lambda>d w. (Inr (), w)), clock = (\<lambda>w. ''2026-01-01T00:00:00Z'')\<rparr>"

lemma idle_adapter_keeps: "adapter_keeps I idle_adapter"
  by (simp add: adapter_keeps_def kept_def idle_adapter_def)

definition demo_lib :: runner_lib where
  "demo_lib = \<lparr>lib_sha256 = (\<lambda>s. s), lib_repr = (\<lambda>cs. []), lib_utf8 = (\<lambda>s. s), lib_str = (\<lambda>v. []), lib_float = (\<lambda>v. None),
     lib_int = (\<lambda>v. None), lib_parser = None, lib_timeout = seconds 60\<rparr>"

definition demo_env :: "'w worker_env" where
  "demo_env = \<lparr>we_lib = demo_lib, we_dialect = Postgresql, we_ids = Sequence, we_cipher = None, we_shared_token = ''t'',
     we_real_chain = (\<lambda>b s. True), we_real_directory = (\<lambda>d. True), we_work_root = ''/work'', we_git_base = ''http://forge'',
     we_now = (\<lambda>w. 0), we_today = (\<lambda>w. Date 2026 1 1), we_max_findings = 50, we_pr_policy = [], we_auto_fix = None,
     we_model_env = []\<rparr>"

definition demo_claim :: claimed_task where
  "demo_claim = \<lparr>claimed_id = 7, claimed_repo = 1, claimed_kind = ''fix'', claimed_payload = [], claimed_attempts = 0,
     claimed_max_attempts = 3, claimed_priority = 0, claimed_lease = \<lparr>lease_task = 7, lease_worker = ''w1'', expires_at = 60, lease_attempts = 0\<rparr>,
     claimed_runner = None\<rparr>"

definition demo_world :: worker_db where
  "demo_world = \<lparr>wk_checks = \<lparr>queue_of = \<lparr>tasks = [], runners = [], repos = [1], next_task_id = 8\<rparr>, snapshots = [], verdict_rows = [],
       run_rows = [], next_row = 1\<rparr>,
     wk_runners = no_runners [1 \<mapsto> ''acme''],
     wk_findings = \<lparr>findings = [], events = [], evidence = [], runs = [], repo_slugs = [], next_finding = 1, next_event = 1\<rparr>,
     wk_repos = [\<lparr>rp_id = 1, rp_slug = ''acme'', rp_forgejo = None, rp_branch = ''main''\<rparr>], wk_commits = [], wk_logs = [], wk_next_run = 1\<rparr>"

theorem stale_worker_publishes_nothing_witness:
  "list_all (\<lambda>e. \<not> publishing e) (trace (snd (run demo_lib (handler_config (demo_env :: worker_db worker_env)
      \<lparr>ld_task = task_of (demo_env :: worker_db worker_env) demo_claim (hd (wk_repos demo_world)) ''acme'' ''4f2a'', ld_slug = ''acme'', ld_credential = None,
       ld_root = ''/work/runners/1''\<rparr>)
    (handler_host demo_env idle_adapter demo_claim 1) (task_of (demo_env :: worker_db worker_env) demo_claim (hd (wk_repos demo_world)) ''acme'' ''4f2a'') demo_world)))"
proof -
  have "\<not> holds_lease demo_claim (wk_queue demo_world)" by (simp add: holds_lease_def wk_queue_def demo_world_def)
  then show ?thesis by (rule stale_worker_publishes_nothing [OF _ idle_adapter_keeps])
qed

subsection \<open>The handler in the queue's worker\<close>

text \<open>The handler as the queue calls it: it sees the queue's tables in its world, and the worker records its errors as texts.\<close>

definition queue_handler :: "(run_error \<Rightarrow> string \<times> string) \<Rightarrow> 'e worker_db_scheme worker_env \<Rightarrow> (loaded_task \<Rightarrow> 'e worker_db_scheme host)
    \<Rightarrow> 'e worker_db_scheme \<Rightarrow> task_handler" where
  "queue_handler describe env adapter w c q =
     (case handle env adapter c (set_queue q w) of
        (Inl e, w') \<Rightarrow> (Raised (fst (describe e)) (snd (describe e)), wk_queue w')
      | (Inr ref, w') \<Rightarrow> (Returned (Some ref), wk_queue w'))"

lemma queue_simps [simp]:
  "wk_queue (w\<lparr>wk_runners := a\<rparr>) = wk_queue w" "wk_queue (w\<lparr>wk_findings := b\<rparr>) = wk_queue w"
  "wk_queue (w\<lparr>wk_logs := d\<rparr>) = wk_queue w" "wk_queue (set_queue q w) = q" "wk_queue (w\<lparr>wk_checks := e\<rparr>) = queue_of e"
  "wk_queue (w\<lparr>wk_next_run := n\<rparr>) = wk_queue w"
  by (simp_all add: wk_queue_def set_queue_def)

lemma queue_andthen:
  assumes "\<And>w. wk_queue (snd (m w)) = wk_queue w" "\<And>x w. wk_queue (snd (f x w)) = wk_queue w"
  shows "wk_queue (snd (andthen m f w)) = wk_queue w"
proof (cases "m w")
  case (Pair r w')
  then have "wk_queue w' = wk_queue w" using assms(1) [of w] by simp
  then show ?thesis using Pair assms(2) by (cases r) (simp_all add: andthen_def)
qed

lemma on_runners_queue: "wk_queue (snd (on_runners f w)) = wk_queue w"
  by (simp add: on_runners_def split: prod.split)

lemma load_task_queue: "wk_queue (snd (load_task env c w)) = wk_queue w"
  unfolding load_task_def Let_def
  by (auto split: option.split simp: raised_def intro!: queue_andthen on_runners_queue) (simp_all add: checked_def give_def)

lemma open_run_queue: "wk_queue (snd (open_review_run env c task w)) = wk_queue w"
  by (simp add: open_review_run_def Let_def raised_def give_def)

lemma record_runs_queue: "store_append db repo rs now = Some db' \<Longrightarrow> queue_of db' = queue_of db"
  by (auto simp: store_append_def record_runs_def split: if_split_asm)

lemma proposal_queue: "record_proposal lib repo task model now report db = Some db' \<Longrightarrow> queue_of db' = queue_of db"
  by (auto simp: record_proposal_def record_proposal_snapshot_def record_suite_snapshot_def Let_def bind_eq_Some_conv
      split: if_split_asm option.split_asm)

lemma verdicts_queue: "record_verdicts lib repo base ds db = Some db' \<Longrightarrow> queue_of db' = queue_of db"
  by (induction ds arbitrary: db) (auto simp: bind_eq_Some_conv record_validation_def split: if_split_asm)

lemma artifacts_queue: "wk_queue (record_check_artifacts env repo task out w) = wk_queue w"
proof -
  have "queue_of db' = queue_of db" if "check_artifacts lib repo task model now out db = Some db'" for lib model now db db'
    using that by (auto simp: check_artifacts_def bind_eq_Some_conv split: option.split_asm
        dest!: record_runs_queue proposal_queue verdicts_queue)
  then show ?thesis by (auto simp: record_check_artifacts_def wk_queue_def split: option.split)
qed

lemma pr_link_queue: "\<exists>f. wk_queue (record_pr_link to_int tid out w) = link_tasks f (wk_queue w)"
proof (cases "opt_str (oc_url out) = [] \<or> to_int tid = None")
  case True
  then show ?thesis
    by (intro exI [of _ pr_url]) (auto simp: record_pr_link_def change_task_def link_tasks_def)
next
  case False
  then obtain i where "to_int tid = Some i" by blast
  moreover have "(if task_id t = i then t\<lparr>pr_url := u\<rparr> else t) = t\<lparr>pr_url := if task_id t = i then u else pr_url t\<rparr>" for t :: agent_task and u
    by simp
  ultimately show ?thesis using False
    by (intro exI [of _ "\<lambda>t. if task_id t = i then oc_url out else pr_url t"]) (simp add: record_pr_link_def change_task_def link_tasks_def)
qed

abbreviation moved_from :: "agent_queue \<Rightarrow> int \<Rightarrow> queue_db \<Rightarrow> 'e worker_db_scheme \<Rightarrow> bool" where
  "moved_from queue setting db w \<equiv> (queue_move queue setting)\<^sup>*\<^sup>* db (wk_queue w)"

lemma run_queue:
  fixes w :: "'e worker_db_scheme"
  assumes "\<And>d. adapter_keeps (moved_from queue setting d) adapter" and "moved_from queue setting db w"
  shows "moved_from queue setting db (world (snd (run lib cfg (handler_host env adapter c rid) task w)))"
proof -
  have "host_keeps (moved_from queue setting db) (\<lambda>e. True) (handler_host env adapter c rid)"
    by (rule handler_host_keeps [where P = "(queue_move queue setting)\<^sup>*\<^sup>* db" and Q = "\<lambda>e. True"]) (use assms in simp_all)
  from run_keeps [where I = "moved_from queue setting db", OF this assms(2)] show ?thesis by blast
qed

lemma pr_link_move: "moved_from queue setting db w \<Longrightarrow> moved_from queue setting db (record_pr_link to_int tid out w)"
  using pr_link_queue [of to_int tid out w] by (elim exE) (erule rtranclp.rtrancl_into_rtrancl, auto simp: queue_move_def)

lemma handle_moves:
  assumes "\<And>ld d. adapter_keeps (moved_from queue setting d) (adapter ld)"
  shows "moved_from queue setting (wk_queue w) (snd (handle env adapter c w))"
proof -
  obtain r1 w1 where 1: "load_task env c w = (r1, w1)" by (cases "load_task env c w")
  then have q1: "wk_queue w1 = wk_queue w" using load_task_queue [of env c w] by simp
  show ?thesis
  proof (cases r1)
    case (Inl e)
    then show ?thesis using 1 q1 by (simp add: handle_def andthen_def)
  next
    case ld: (Inr ld)
    obtain r2 w2 where 2: "open_review_run env c (ld_task ld) w1 = (r2, w2)" by (cases "open_review_run env c (ld_task ld) w1")
    then have q2: "wk_queue w2 = wk_queue w" using open_run_queue [of env c "ld_task ld" w1] q1 by simp
    show ?thesis
    proof (cases r2)
      case (Inl e)
      then show ?thesis using 1 2 ld q2 by (simp add: handle_def andthen_def)
    next
      case rid: (Inr rid)
      let ?run = "run (we_lib env) (handler_config env ld) (handler_host env (adapter ld) c rid) (ld_task ld) w2"
      obtain r3 s where 3: "?run = (r3, s)" by (cases ?run)
      then have q3: "moved_from queue setting (wk_queue w) (world s)"
        using run_queue [of queue setting "adapter ld" "wk_queue w" w2 "we_lib env" "handler_config env ld" env c rid "ld_task ld", OF assms] q2
        by simp
      show ?thesis
      proof (cases r3)
        case (Inl e)
        then show ?thesis using 1 2 3 ld rid q3 by (simp add: handle_def andthen_def)
      next
        case (Inr out)
        then show ?thesis
          using 1 2 3 ld rid q3
          by (simp add: handle_def andthen_def settle_outcome_def Let_def artifacts_queue)
            (rule pr_link_move, simp add: finish_review_run_def)
      qed
    qed
  qed
qed

lemma handler_shares:
  assumes "\<And>ld d. adapter_keeps (moved_from queue setting d) (adapter ld)"
  shows "shared_handler queue setting (queue_handler describe env adapter w)"
proof
  fix c db
  have "wk_queue (snd (handle env adapter c (set_queue db w))) = snd (queue_handler describe env adapter w c db)"
    by (simp add: queue_handler_def split: prod.split sum.split)
  then show "(queue_move queue setting)\<^sup>*\<^sup>* db (snd (queue_handler describe env adapter w c db))"
    using handle_moves [of queue setting adapter "set_queue db w" env c, OF assms] by simp
qed

definition running_at :: "claimed_task \<Rightarrow> queue_db \<Rightarrow> timestamp \<Rightarrow> 'e worker_db_scheme \<Rightarrow> 'e worker_db_scheme" where
  "running_at c q now w = set_queue (snd (mark_running q (claimed_lease c) now)) w"

text \<open>
  C5: the queue and the runner together. While the handler of the claimed task works, the queue moves on in any way its operations
  allow: heartbeats of this worker, other workers, sweeps, producers, operators, also on this very task; the calls of the adapter
  stand for the time in which that happens. (The calls of the cycle itself, reclaim, claim, mark, settle, are one statement of the model each
  and follow one another.) With a budget of at most 1024 attempts per task the cycle raises nothing. Settling looks at the
  queue the handler leaves: if no row of it is held under the lease of the claim any more, the cycle changes nothing of it; else it
  changes that row alone, which is then held by nobody and done with the reference the handler returned, if it returned one, else
  requeued or dead.
\<close>

theorem worker_cycle_settles:
  assumes "queue_ok db" and "\<forall>t \<in> set (tasks db). max_attempts t \<le> 1024"
    and "\<And>ld d. adapter_keeps (moved_from queue setting d) (adapter ld)"
    and "wk = \<lparr>worker_queue = queue, worker_handler = queue_handler describe env adapter w, worker_name = name, poll_interval = poll\<rparr>"
  shows "let db1 = snd (reclaim_expired queue (locked_rows c) db (at_reclaim c))
    in case claim queue (locked_rows c) db1 name None (at_claim c) of
      (None, db2) \<Rightarrow> run_once wk c db = Inr (False, db1)
    | (Some task, db2) \<Rightarrow>
        (case handle env adapter task (running_at task db2 (at_run c) w) of
           (answer, left) \<Rightarrow> \<exists>db'. run_once wk c db = Inr (True, db')
             \<and> (case find (TaskQueue.held (claimed_lease task) [task_status.Leased, Running]) (tasks (wk_queue left)) of
                  None \<Rightarrow> db' = wk_queue left
                | Some was \<Rightarrow> \<exists>t. tasks db' = map (\<lambda>u. if u = was then t else u) (tasks (wk_queue left))
                    \<and> task_id t = lease_task (claimed_lease task) \<and> leased_by t = [] \<and> lease_until t = None
                    \<and> (case answer of
                         Inr ref \<Rightarrow> task_status t = Done \<and> result_ref t = Some ref
                       | Inl e \<Rightarrow> task_status t \<in> {Queued, Dead})))"
proof -
  have shared: "shared_handler queue setting (worker_handler wk)"
    using handler_shares [of queue setting adapter describe env w, OF assms(3)] assms(4) by simp
  note cycle = cycle_settles [OF assms(1) shared assms(2), of c]
  show ?thesis
  proof (cases "claim queue (locked_rows c) (snd (reclaim_expired queue (locked_rows c) db (at_reclaim c))) name None (at_claim c)")
    case (Pair res db2)
    show ?thesis
    proof (cases res)
      case None
      then show ?thesis using cycle Pair assms(4) by (simp add: Let_def)
    next
      case (Some task)
      obtain answer left where h: "handle env adapter task (running_at task db2 (at_run c) w) = (answer, left)"
        by (cases "handle env adapter task (running_at task db2 (at_run c) w)")
      then obtain r where r: "queue_handler describe env adapter w task (snd (mark_running db2 (claimed_lease task) (at_run c))) = (r, wk_queue left)"
          "r = (case answer of Inl e \<Rightarrow> Raised (fst (describe e)) (snd (describe e)) | Inr ref \<Rightarrow> Returned (Some ref))"
        by (cases answer) (simp_all add: queue_handler_def running_at_def)
      obtain db' where once: "run_once wk c db = Inr (True, db')"
          and settled: "settled_from (claimed_lease task) r (at_settle c) (wk_queue left) db'"
        using cycle Pair Some r(1) assms(4) by (auto simp: Let_def)
      show ?thesis
        unfolding Let_def Pair Some prod.case option.case h
      proof (intro exI [of _ db'] conjI once)
        show "case find (TaskQueue.held (claimed_lease task) [task_status.Leased, Running]) (tasks (wk_queue left)) of
                  None \<Rightarrow> db' = wk_queue left
                | Some was \<Rightarrow> \<exists>t. tasks db' = map (\<lambda>u. if u = was then t else u) (tasks (wk_queue left))
                    \<and> task_id t = lease_task (claimed_lease task) \<and> leased_by t = [] \<and> lease_until t = None
                    \<and> (case answer of
                         Inr ref \<Rightarrow> task_status t = Done \<and> result_ref t = Some ref
                       | Inl e \<Rightarrow> task_status t \<in> {Queued, Dead})"
          using settled r(2) unfolding settled_from_def settled_as_def
          by (cases answer) (auto split: option.splits)
      qed
    qed
  qed
qed

text \<open>An adapter during whose \<open>prepare\<close> a heartbeat of the worker arrives.\<close>

definition beating_adapter :: "lease \<Rightarrow> 'e worker_db_scheme host" where
  "beating_adapter l = idle_adapter\<lparr>prepare := (\<lambda>d w. (Inr (), set_queue (snd (heartbeat sample_queue (wk_queue w) l None 5)) w))\<rparr>"

lemma beating_adapter_moves: "adapter_keeps (moved_from sample_queue setting d) (beating_adapter l)"
proof -
  have "queue_move sample_queue setting db (snd (heartbeat sample_queue db l None 5))" for db
    unfolding queue_move_def using step_beat [of sample_queue db l None 5] by (cases "heartbeat sample_queue db l None 5") auto
  then show ?thesis
    by (auto simp: adapter_keeps_def kept_def beating_adapter_def idle_adapter_def intro: rtranclp.rtrancl_into_rtrancl)
qed

abbreviation demo_handler :: task_handler where
  "demo_handler \<equiv> queue_handler (\<lambda>e. (''AgentRunnerError'', [])) demo_env
     (\<lambda>ld. beating_adapter \<lparr>lease_task = 7, lease_worker = ''w'', expires_at = 60, lease_attempts = 0\<rparr>) demo_world"

theorem worker_cycle_settles_witness:
  "\<exists>db'. run_once (sample_worker\<lparr>worker_handler := demo_handler\<rparr>) sample_cycle (sample_db sample_task) = Inr (True, db')"
proof -
  have wk: "sample_worker\<lparr>worker_handler := demo_handler\<rparr>
      = \<lparr>worker_queue = sample_queue, worker_handler = demo_handler, worker_name = ''w'', poll_interval = seconds 2\<rparr>"
    by simp
  have few: "\<forall>t \<in> set (tasks (sample_db sample_task)). max_attempts t \<le> 1024" by simp
  from worker_cycle_settles [OF sample_ok(1) few beating_adapter_moves wk, of sample_cycle] show ?thesis
    by (auto simp: sample_reclaim_nothing [simplified] sample_claim [simplified] split: prod.splits)
qed

subsection \<open>Branches\<close>

lemma str_of_nat_inj: "str_of_nat m = str_of_nat n \<Longrightarrow> m = n"
  by (metis int_of_digits_str)

lemma str_of_int_inj:
  assumes "str_of_int i = str_of_int j"
  shows "i = j"
proof -
  have "hd (str_of_nat n) \<noteq> CHR ''-''" for n
    using str_of_nat_digits [of n] str_of_nat_nonempty [of n] by (cases "str_of_nat n") (auto simp: is_digit_def)
  then have neg: "str_of_nat m \<noteq> CHR ''-'' # s" for m s by (metis list.sel(1))
  show ?thesis using assms neg neg [symmetric] by (auto simp: str_of_int_def split: if_split_asm dest!: str_of_nat_inj)
qed

definition tame :: "char \<Rightarrow> bool" where
  "tame c \<longleftrightarrow> is_alpha c \<or> is_digit c \<or> c = CHR ''-''"

lemma tame_char:
  assumes "tame c"
  shows "branch_char c \<and> \<not> forbidden_branch_char c \<and> c \<noteq> CHR ''/'' \<and> c \<noteq> CHR ''.'' \<and> c \<noteq> CHR ''@'' \<and> \<not> py_isspace c"
proof -
  have "segment_char c" using assms by (auto simp: tame_def segment_char_def)
  note plain = segment_char_plain [OF this]
  have "\<not> (is_alpha d \<or> is_digit d \<or> d = CHR ''-'')"
    if "d \<in> {CHR ''.'', CHR ''@'', CHR '' '', CHR ''~'', CHR ''^'', CHR '':'', CHR ''?'', CHR ''*'', CHR ''['', CHR 0x5C, CHR 0x7F}" for d
    using that by (elim insertE emptyE) (simp_all add: is_alpha_def is_digit_def)
  then have no: "c \<notin> {CHR ''.'', CHR ''@'', CHR '' '', CHR ''~'', CHR ''^'', CHR '':'', CHR ''?'', CHR ''*'', CHR ''['', CHR 0x5C, CHR 0x7F}"
    using assms unfolding tame_def by blast
  then have "\<not> forbidden_branch_char c" using plain unfolding forbidden_branch_char_def by simp
  moreover have "branch_char c" using assms by (auto simp: tame_def branch_char_def)
  ultimately show ?thesis using plain no by blast
qed

lemma occurs_parts: "occurs s t \<Longrightarrow> \<exists>p q. t = p @ s @ q"
proof (induction t)
  case Nil
  then have "[] = [] @ s @ []" by simp
  then show ?case by blast
next
  case (Cons c t)
  show ?case
  proof (cases "startswith (c # t) s")
    case True
    then obtain q where "c # t = [] @ s @ q" by (auto elim: startswithE)
    then show ?thesis by blast
  next
    case False
    then obtain p q where "t = p @ s @ q" using Cons by auto
    then have "c # t = (c # p) @ s @ q" by simp
    then show ?thesis by blast
  qed
qed

lemma occurs_chars: "occurs s t \<Longrightarrow> set s \<subseteq> set t"
  using occurs_parts by fastforce

lemma tame_pushable:
  assumes "list_all tame rest" "rest \<noteq> []" "is_alpha (hd rest)" "is_digit (last rest)"
  shows "assert_pushable (''agent/'' @ rest) = Inr (''agent/'' @ rest)"
proof -
  let ?b = "''agent/'' @ rest"
  have tame: "tame c" if "c \<in> set rest" for c using assms(1) that by (simp add: list_all_iff)
  have last: "is_digit (last rest)" "last ?b = last rest" using assms(2,4) by simp_all
  have "py_strip ?b = ?b"
    using assms(2) tame_char [OF tame [OF last_in_set [OF assms(2)]]] by (intro py_strip_ends) (simp_all add: py_isspace_def)
  moreover have "?b \<notin> set PROTECTED_BRANCHES" by (simp add: PROTECTED_BRANCHES_def)
  moreover have "\<not> list_ex forbidden_branch_char ?b"
    using tame_char [OF tame] by (auto simp: list_ex_iff forbidden_branch_char_def)
  moreover have free: "CHR ''.'' \<notin> set rest" "CHR ''@'' \<notin> set rest" "CHR ''/'' \<notin> set rest" using tame_char [OF tame] by blast+
  then have "\<not> occurs ''..'' rest" "\<not> occurs (''@'' @ ''{'') rest" "\<not> occurs ''//'' rest" using occurs_chars by fastforce+
  moreover have "\<not> startswith rest ''/''" "\<not> startswith rest ''.''" using free by (cases rest; auto)+
  moreover have "\<not> endswith ?b ''/''" "\<not> endswith ?b ''.lock''"
    using last by (auto simp: endswith_def is_digit_def dest!: arg_cong [where f = last])
  moreover have "branch_shape ?b"
    using assms(2,3) tame_char [OF tame] by (auto simp: branch_shape_def AGENT_BRANCH_PREFIX_def list_all_iff)
  ultimately show ?thesis
    by (simp add: assert_pushable_def Let_def AGENT_BRANCH_PREFIX_def)
qed

lemma tame_number: "list_all tame (str_of_int i)" "list_all tame (str_of_nat n)"
  using str_of_nat_digits by (auto simp: str_of_int_def tame_def list_all_iff)

lemma loaded_branch_Some:
  assumes "loaded_branch kind i a = Some b"
  shows "(kind = ''fix'' \<or> kind = ''checks'') \<and> b = ''agent/'' @ kind @ ''-'' @ str_of_int i @ ''-a'' @ str_of_nat (a + 1)"
  using assms by (auto simp: loaded_branch_def AGENT_BRANCH_PREFIX_def split: if_split_asm)

lemma last_digit: "is_digit (last (str_of_nat n))"
  using str_of_nat_digits [of n] last_in_set [OF str_of_nat_nonempty [of n]] by (simp add: list_all_iff)

lemma number_not_a: "CHR ''a'' \<notin> set (str_of_int i)"
proof -
  have "\<not> is_digit CHR ''a''" by (simp add: is_digit_def)
  then show ?thesis using str_of_nat_digits by (auto simp: str_of_int_def list_all_iff)
qed

lemma attempt_suffix_inj:
  assumes "str_of_int i @ ''-a'' @ str_of_nat m = str_of_int j @ ''-a'' @ str_of_nat n"
  shows "i = j \<and> m = n"
proof -
  have "takeWhile (\<lambda>c. c \<noteq> CHR ''a'') (str_of_int i @ ''-a'' @ str_of_nat m) = str_of_int i @ ''-''" for i m
    using number_not_a [of i] by (subst takeWhile_append2) auto
  then have "str_of_int i = str_of_int j" using assms by (metis append_same_eq)
  then show ?thesis using assms str_of_int_inj str_of_nat_inj by auto
qed

lemma loaded_branch_inj:
  assumes "loaded_branch kind i a = Some b" and "loaded_branch kind' i' a' = Some b"
  shows "kind = kind' \<and> i = i' \<and> a = a'"
proof -
  note 1 = loaded_branch_Some [OF assms(1)] and 2 = loaded_branch_Some [OF assms(2)]
  have "kind = kind'" using 1 2 by auto
  then show ?thesis using 1 2 attempt_suffix_inj [of i "a + 1" i' "a' + 1"] by auto
qed

lemma loaded_branch_pushable:
  assumes "loaded_branch kind i a = Some b"
  shows "assert_pushable b = Inr b"
proof -
  have "list_all tame ''fix''" "list_all tame ''checks''" "list_all tame ''-''" "list_all tame ''-a''" by code_simp+
  moreover have "is_alpha CHR ''f''" "is_alpha CHR ''c''" by code_simp+
  ultimately have "assert_pushable (''agent/'' @ kind @ ''-'' @ str_of_int i @ ''-a'' @ str_of_nat (a + 1)) = Inr (''agent/'' @ kind @ ''-'' @ str_of_int i @ ''-a'' @ str_of_nat (a + 1))"
    using loaded_branch_Some [OF assms] tame_number last_digit [of "a + 1"] by (intro tame_pushable) auto
  then show ?thesis using loaded_branch_Some [OF assms] by simp
qed


abbreviation fix_task :: agent_task where "fix_task \<equiv> sample_task\<lparr>task_kind := ''fix''\<rparr>"
abbreviation fix_leased :: agent_task where "fix_leased \<equiv> take_lease ''w'' (seconds 60) 0 fix_task"
abbreviation fix_again :: agent_task where "fix_again \<equiv> reclaimed_row (seconds 61) fix_leased"

lemma fix_claimed: "claim sample_queue [] (sample_db fix_task) ''w'' None 0 = (Some (claimed_of fix_task ''w'' (seconds 60)), sample_db fix_leased)"
  by (simp add: claim_def claim_candidates_def claimable_def due_now_def runner_runnable_def
      runner_ceiling_available_def runner_ceiling_def in_flight_def RUNNING_TASK_STATUSES_def
      visible_to_def update_where_def is_task_def Let_def)

lemma fix_reclaimed: "reclaim_expired sample_queue [] (sample_db fix_leased) (seconds 61) = ([reclaim_outcome_of (seconds 61) fix_leased], sample_db fix_again)"
  by (simp add: reclaim_expired_def abandoned_def lease_expired_def update_tasks_def update_where_def Let_def visible_to_def take_lease_def)

lemma fix_claimed_again: "\<exists>db3. claim sample_queue [] (sample_db fix_again) ''w'' None (seconds 61) = (Some (claimed_of fix_again ''w'' (seconds 121)), db3)"
  by (simp add: claim_def claim_candidates_def claimable_def due_now_def runner_runnable_def reclaimed_row_def take_lease_def
      runner_ceiling_available_def runner_ceiling_def in_flight_def RUNNING_TASK_STATUSES_def
      visible_to_def update_where_def is_task_def Let_def)

lemma fix_moved: "(unretried_move sample_queue 0 1)\<^sup>*\<^sup>* (sample_db fix_leased) (sample_db fix_again)"
  using step_reclaim [OF fix_reclaimed, of 0]
  by (intro r_into_rtranclp) (simp add: unretried_move_def queue_move_def brought_back_def take_lease_def)

text \<open>After an operator's retry the names start over: the attempt's branch is the one of the first attempt, which the remote may have.\<close>

lemma retried_branch_is_the_first:
  assumes "queue_ok db" and "retry db i reason at_retry = (True, db1)"
    and "claim q locked db1 worker d now = (Some c, db2)" and "claimed_id c = i"
  shows "tr_branch (task_of env c repo slug sha) = loaded_branch (claimed_kind c) i 0"
  using claim_after_retry [OF assms] assms(4) by (simp add: task_of_def)

text \<open>
  C22: a review that escalates to a fix does not have that. Its branch is the same at every attempt, so once one attempt's
  push has reached the remote, the push of every later attempt with another commit is refused.
\<close>

theorem escalated_retry_is_refused:
  assumes "claimed_kind c = ''review''" and "digest s = Some (config_hash sha256 (config_text g (gw s)))" and "py_strip url \<noteq> []"
    and "\<And>w. git g (RevParse dir) w = (Inr head, w)" and "py_strip head \<noteq> remote"
    and "\<And>w. git g (LsRemote dir (py_strip url) (''agent/fix-'' @ str_of_int (claimed_id c))) w = (Inr out, w)" and "py_words out = remote # rest"
  shows "fst (push sha256 g dir (task_branch (task_of env c repo slug sha)) url s) = Inl REMOTE_EXISTS"
proof -
  have branch: "task_branch (task_of env c repo slug sha) = ''agent/fix-'' @ str_of_int (claimed_id c)"
    using assms(1) by (simp add: task_branch_def task_of_def loaded_branch_def opt_str_def or_str_def AGENT_BRANCH_PREFIX_def)
  have "list_all tame (''fix-'' @ str_of_int (claimed_id c))"
  proof -
    have "list_all tame ''fix-''" by code_simp
    then show ?thesis using tame_number(1) by simp
  qed
  moreover have "is_alpha (hd (''fix-'' @ str_of_int (claimed_id c)))" by (simp add: is_alpha_def)
  moreover have "is_digit (last (''fix-'' @ str_of_int (claimed_id c)))"
    using last_digit str_of_nat_nonempty by (auto simp: str_of_int_def)
  ultimately have "assert_pushable (''agent/'' @ ''fix-'' @ str_of_int (claimed_id c)) = Inr (''agent/'' @ ''fix-'' @ str_of_int (claimed_id c))"
    by (intro tame_pushable) auto
  then show ?thesis
    using assms py_words_Cons [OF assms(7)] unfolding branch by (simp add: push_def push_head_def git_steps)
qed

definition forge_git :: "unit git_host" where
  "forge_git = quiet_git\<lparr>git := (\<lambda>cmd w. (Inr (case cmd of RevParse d \<Rightarrow> ''4f2a'' | LsRemote d u b \<Rightarrow> ''77aa refs'' | _ \<Rightarrow> []), w))\<rparr>"

theorem escalated_retry_is_refused_witness:
  "fst (push (\<lambda>s. s) forge_git ''/work/7-attempt1/repo''
     (task_branch (task_of (demo_env :: worker_db worker_env) (demo_claim\<lparr>claimed_kind := ''review'', claimed_attempts := 1\<rparr>) (hd (wk_repos demo_world)) ''acme'' ''4f2a''))
     ''http://forge/acme.git'' \<lparr>gw = (), digest = Some ''[core]'', commands = []\<rparr>) = Inl REMOTE_EXISTS"
proof -
  have words: "py_words ''77aa refs'' = [''77aa'', ''refs'']" and strip: "py_strip ''http://forge/acme.git'' \<noteq> []" "py_strip ''4f2a'' \<noteq> ''77aa''"
    by code_simp+
  show ?thesis
    by (rule escalated_retry_is_refused [of _ _ _ _ _ _ "''4f2a''" "''77aa''" "''77aa refs''" "[''refs'']"])
      (simp_all add: forge_git_def quiet_git_def config_hash_def words strip)
qed

end
