(* ===== verification/WorkerReports.thy ===== *)
theory WorkerReports
  imports AgentWorkerProps FindingsProps
begin

section \<open>What a worker's run reports\<close>

text \<open>The evidence a search adds to a finding, and what folding a run's report in does to the findings of the repository.\<close>

subsection \<open>What the worker's report can reopen\<close>

text \<open>The same row, still deferred as it was decided.\<close>

definition still_deferred :: "finding \<Rightarrow> findings_db \<Rightarrow> bool" where
  "still_deferred f db \<longleftrightarrow> (\<exists>g \<in> set (findings db). f_id g = f_id f \<and> f_status g = f_status f \<and> f_owner g = f_owner f \<and> f_due g = f_due f)"

lemma plain_reactivation:
  "should_reactivate today f (context_for (plain_ingest rid) db f)
    = Inr (case f_due f of None \<Rightarrow> None | Some due \<Rightarrow> if due \<le> today then Some REASON_DUE else None)"
  by (simp add: should_reactivate_def context_for_def plain_ingest_def severity_raised_def count_threshold_def drift_reason_def opt_str_def
      split: option.split)

lemma observed_decision:
  "f_id (observed cs inp entry f) = f_id f" "f_status (observed cs inp entry f) = f_status f"
  "f_owner (observed cs inp entry f) = f_owner f" "f_due (observed cs inp entry f) = f_due f"
  by (simp_all add: observed_def)

lemma still_deferred_put_other: "still_deferred f db \<Longrightarrow> f_id g \<noteq> f_id f \<Longrightarrow> still_deferred f (put_finding g db)"
  unfolding still_deferred_def by (metis put_finding_other)

lemma still_deferred_frame [simp]: "still_deferred f (record_event now g a s t r n db) = still_deferred f db"
  "still_deferred f (attach_evidence cs g rows db) = still_deferred f db"
  "still_deferred f (db\<lparr>runs := x\<rparr>) = still_deferred f db"
  by (simp_all add: still_deferred_def attach_evidence_def)

lemma match_keeps_deferred:
  assumes ok: "fdb_ok db" and r: "r \<in> set (findings db)" and f: "is_deferred f" "f_due f = Some due" "\<not> due \<le> today"
    and def: "still_deferred f db" and m: "match_finding cs now today (plain_ingest rid) entry r db = Inr (db', n)"
  shows "still_deferred f db'"
proof (cases "f_id r = f_id f")
  case False
  then have "still_deferred f (put_finding q db1)" if "f_id q = f_id r" "still_deferred f db1" for q db1
    using still_deferred_put_other that by metis
  then show ?thesis
    using m def by (auto simp: match_finding_def Let_def plain_reactivation observed_decision reopened_def
        split: if_split_asm option.split_asm)
next
  case True
  obtain g where g: "g \<in> set (findings db)" "f_id g = f_id f" "f_status g = f_status f" "f_owner g = f_owner f" "f_due g = f_due f"
    using def by (auto simp: still_deferred_def)
  then have "r = g" using unique_row [OF ok g(1) r] True by simp
  then have "db' = put_finding (observed cs (plain_ingest rid) entry r) db"
    using m g f by (auto simp: match_finding_def Let_def plain_reactivation observed_decision split: if_split_asm)
  then show ?thesis
    using put_finding_mem [OF r, of "observed cs (plain_ingest rid) entry r"] g \<open>r = g\<close>
    unfolding still_deferred_def by (intro bexI [of _ "observed cs (plain_ingest rid) entry r"]) (auto simp: observed_decision)
qed

lemma entry_keeps_deferred:
  assumes ok: "fdb_ok db" and f: "is_deferred f" "f_due f = Some due" "\<not> due \<le> today"
    and def: "still_deferred f db" and m: "ingest_entry sha256 cs now today (plain_ingest rid) repo entry (db, s) = Inr (db', s')"
  shows "still_deferred f db'"
proof -
  let ?digest = "fingerprint sha256 (py_strip (text_or cs (jget entry ''rule_id'') []))
    (py_strip (text_or cs (jget entry ''file_path'') [])) (py_strip (text_or cs (jget entry ''symbol'') []))
    (text_or cs (jget entry ''context_key'') [])"
  show ?thesis
  proof (cases db repo ?digest rule: existing_cases)
    case none
    have "still_deferred f (add_finding g db)" for g using def by (auto simp: still_deferred_def add_finding_def)
    then show ?thesis
      using m none by (auto simp: ingest_entry_def Let_def open_finding_def split: if_split_asm sum.split_asm)
  next
    case (found r)
    then show ?thesis
      using m match_keeps_deferred [OF ok conjunct1 [OF find_existing_Some [OF found]] f def]
      by (auto simp: ingest_entry_def Let_def split: if_split_asm sum.split_asm)
  next
    case err
    then show ?thesis using m by (auto simp: ingest_entry_def Let_def split: if_split_asm)
  qed
qed

lemma entries_keep_deferred:
  assumes f: "is_deferred f" "f_due f = Some due" "\<not> due \<le> today"
  shows "fdb_ok (fst st) \<Longrightarrow> still_deferred f (fst st)
    \<Longrightarrow> ingest_entries sha256 cs now today (plain_ingest rid) repo es st = Inr st' \<Longrightarrow> still_deferred f (fst st')"
proof (induction es arbitrary: st)
  case (Cons e es)
  obtain st1 where st1: "ingest_entry sha256 cs now today (plain_ingest rid) repo e st = Inr st1"
      "ingest_entries sha256 cs now today (plain_ingest rid) repo es st1 = Inr st'"
    using Cons.prems(3) by (auto split: sum.splits)
  obtain db1 s1 where s1: "st1 = (db1, s1)" by (cases st1)
  have "fdb_ok db1" using ingest_entry_ok [OF Cons.prems(1)] st1(1) s1 by (cases st) auto
  moreover have "still_deferred f db1" using entry_keeps_deferred [OF Cons.prems(1) f Cons.prems(2)] st1(1) s1 by (cases st) auto
  ultimately show ?case using Cons.IH [of st1] st1(2) s1 by simp
qed simp

text \<open>
  C40: the worker's report reopens a deferred finding only on its date. A finding accepted or refused until a later day keeps its
  status, its owner and its deadline whatever the run reports, although the handler folds the report in: no policy and no
  probe reach \<open>ingest\<close>, so neither a change of the code nor the number of deferrals of a rule reopens anything.
\<close>

theorem deferrals_outlast_reports:
  assumes "fdb_ok (wk_findings w)" and "f \<in> set (findings (wk_findings w))" and "is_deferred f"
    and "f_due f = Some due" and "\<not> due \<le> we_today env w" and "ingest_run env repo rid tid result w = (Inr u, w')"
  shows "\<exists>g \<in> set (findings (wk_findings w')). f_id g = f_id f \<and> f_status g = f_status f \<and> f_owner g = f_owner f \<and> f_due g = f_due f"
proof -
  obtain db s where i: "ingest (lib_sha256 (we_lib env)) (lib_str (we_lib env)) (we_now env w) (we_today env w) (plain_ingest rid)
      (wk_findings w) (RepoId repo) (map dump_finding (res_findings result)) = Inr (db, s)" and w': "still_deferred f (wk_findings w') = still_deferred f db"
    using assms(6) by (auto simp: ingest_run_def raised_def give_def split: sum.split_asm)
  from i obtain repo' db1 s1 db2 n rs where
      1: "ingest_entries (lib_sha256 (we_lib env)) (lib_str (we_lib env)) (we_now env w) (we_today env w) (plain_ingest rid) repo'
        (json_objects (map dump_finding (res_findings result))) (wk_findings w, no_summary) = Inr (db1, s1)"
    and 2: "apply_escalation (we_now env w) db1 repo' (in_policy (plain_ingest rid)) (in_run (plain_ingest rid)) (sum_ids s1) = (db2, n)"
    and db: "db = db2\<lparr>runs := rs\<rparr>"
    by (rule ingestE)
  have "still_deferred f (wk_findings w)" using assms(2) by (auto simp: still_deferred_def)
  then have "still_deferred f db1" using entries_keep_deferred [OF assms(3-5) _ _ 1] assms(1) by simp
  moreover have "db2 = db1" using 2 by (simp add: apply_escalation_def count_threshold_def plain_ingest_def)
  ultimately show ?thesis using w' db by (simp add: still_deferred_def [symmetric])
qed

definition wontfix_db :: findings_db where
  "wontfix_db = (sample_after (sample_decided ''wontfix'' ''amy'' (Some ''bob'') (Some (Date 2026 6 1))) ''wontfix'')
     \<lparr>runs := [\<lparr>run_id = 3, run_new = 0, run_matched = 0\<rparr>]\<rparr>"

definition reported_again :: run_result where
  "reported_again = \<lparr>res_run = \<lparr>rm_commit = [], rm_policy_hash = [], rm_started = [], rm_finished = None, rm_task = None, rm_repo = None,
       rm_policy_source = [], rm_mode = ''review'', rm_suite_hash = [], rm_suite_source = [], rm_suite_state = [], rm_ai_suite_hash = [],
       rm_ai_suite_source = [], rm_ai_suite_state = [], rm_level = [], rm_label = []\<rparr>,
     res_findings = [\<lparr>rf_rule = ''r'', rf_level = ''debt'', rf_severity = ''high'', rf_path = ''a.py'', rf_symbol = ''f'', rf_title = ''t'',
       rf_detail = [], rf_line = None, rf_context = [], rf_evidence = [], rf_autofix = False\<rparr>],
     res_gates = [], res_ai_gates = [], res_curator = None\<rparr>"

lemma wontfix_facts:
  "fdb_ok wontfix_db" "findings wontfix_db = [sample_decided ''wontfix'' ''amy'' (Some ''bob'') (Some (Date 2026 6 1))]"
proof -
  have "fdb_ok (sample_after (sample_decided ''wontfix'' ''amy'' (Some ''bob'') (Some (Date 2026 6 1))) ''wontfix'')"
    by (rule findings_reachable_ok [OF reach_step [OF sample_findings_reachable step_decide [OF sample_defer]]])
  then show "fdb_ok wontfix_db" by (simp add: wontfix_db_def)
  show "findings wontfix_db = [sample_decided ''wontfix'' ''amy'' (Some ''bob'') (Some (Date 2026 6 1))]"
    by (simp add: wontfix_db_def sample_rows)
qed

theorem deferrals_outlast_reports_witness:
  "\<exists>w' :: worker_db. ingest_run demo_env 7 3 ''9'' reported_again (demo_world\<lparr>wk_findings := wontfix_db\<rparr>) = (Inr (), w')
     \<and> (\<exists>g \<in> set (findings (wk_findings w')). f_status g = ''wontfix'' \<and> f_owner g = Some ''bob'')"
proof -
  let ?w = "demo_world\<lparr>wk_findings := wontfix_db\<rparr>" and ?f = "sample_decided ''wontfix'' ''amy'' (Some ''bob'') (Some (Date 2026 6 1))"
  have "isl (fst (ingest_run demo_env 7 3 ''9'' reported_again ?w)) = False" by code_simp
  then obtain w' where run: "ingest_run demo_env 7 3 ''9'' reported_again ?w = (Inr (), w')"
    by (cases "ingest_run demo_env 7 3 ''9'' reported_again ?w"; cases "fst (ingest_run demo_env 7 3 ''9'' reported_again ?w)") auto
  have "f_status ?f = ''wontfix''" "f_owner ?f = Some ''bob''" "f_due ?f = Some (Date 2026 6 1)" by (simp_all add: sample_decided_def)
  moreover have "\<not> Date 2026 6 1 \<le> we_today demo_env ?w" by (simp add: demo_env_def less_eq_date_def)
  ultimately show ?thesis
    using deferrals_outlast_reports [of ?w ?f "Date 2026 6 1" demo_env 7 3 "''9''" reported_again "()" w'] run wontfix_facts
    by (auto simp: STATUS_WONTFIX_def)
qed

subsection \<open>Evidence\<close>

definition key_of :: "json \<Rightarrow> string \<times> json" where
  "key_of number = (''issue'', case hashed number of Inr n \<Rightarrow> n | Inl e \<Rightarrow> JNull)"

lemma integral_hashed: "integral v \<Longrightarrow> hashed v = Inr (snd (key_of v))"
  by (cases v) (auto simp: integral_def key_of_def)

definition candidates :: "(json \<Rightarrow> string) \<Rightarrow> json list \<Rightarrow> json list" where
  "candidates cs items = filter integral (map (\<lambda>d. jget d ''number'') (filter (\<lambda>d. py_str cs (jget d ''kind'') = ''issue'') (objects_of items)))"

fun unseen :: "(string \<times> json) list \<Rightarrow> json list \<Rightarrow> json list" where
  "unseen seen [] = []"
| "unseen seen (v # vs) = (if key_of v \<in> set seen then unseen seen vs else v # unseen (key_of v # seen) vs)"

lemma issue_key: "(''issue'', snd (key_of v)) = key_of v"
  by (simp add: key_of_def)

lemma candidates_Cons:
  "candidates cs (v # vs) = (case v of
     JObj d \<Rightarrow> (if py_str cs (jget d ''kind'') = ''issue'' \<and> integral (jget d ''number'') then [jget d ''number''] else []) @ candidates cs vs
   | _ \<Rightarrow> candidates cs vs)"
  by (cases v) (simp_all add: candidates_def)

lemma new_numbers_Obj:
  "new_numbers cs seen (JObj d # vs) = (if py_str cs (jget d ''kind'') = ''issue'' \<and> integral (jget d ''number'')
     then if key_of (jget d ''number'') \<in> set seen then new_numbers cs seen vs
          else jget d ''number'' # new_numbers cs (key_of (jget d ''number'') # seen) vs
     else new_numbers cs seen vs)"
  by (simp only: new_numbers.simps Let_def json.case integral_hashed sum.case issue_key cong: if_cong)

lemma new_numbers_unseen: "new_numbers cs seen items = unseen seen (candidates cs items)"
proof (induction items arbitrary: seen)
  case Nil
  then show ?case by (simp add: candidates_def)
next
  case (Cons v vs)
  show ?case
  proof (cases v)
    case (JObj d)
    then show ?thesis unfolding JObj new_numbers_Obj candidates_Cons json.case using Cons.IH by (simp split: if_split)
  qed (simp_all add: Cons.IH candidates_Cons)
qed

lemma unseen_cover: "v \<in> set vs \<Longrightarrow> key_of v \<in> set seen \<union> key_of ` set (unseen seen vs)"
  by (induction seen vs rule: unseen.induct) auto

lemma unseen_covered: "key_of ` set vs \<subseteq> set seen \<Longrightarrow> unseen seen vs = []"
  by (induction seen vs rule: unseen.induct) auto

lemma unseen_subset: "set (unseen seen vs) \<subseteq> set vs"
  by (induction seen vs rule: unseen.induct) auto

lemma unseen_integral: "v \<in> set (unseen seen (candidates cs items)) \<Longrightarrow> integral v"
  using unseen_subset [of seen "candidates cs items"] by (auto simp: candidates_def)

lemma objects_of_map: "objects_of (map JObj ds @ vs) = ds @ objects_of vs"
  by (induction ds) simp_all

definition mention_dict :: "json \<Rightarrow> dict" where
  "mention_dict number = [(''kind'', JStr ''issue''), (''number'', number), (''relation'', JStr ''mentions'')]"

lemma objects_of_mentions: "objects_of (map mention ns) = map mention_dict ns"
  by (induction ns) (simp_all add: mention_def mention_dict_def)

lemma mention_keys: "jget (mention_dict n) ''number'' = n" "jget (mention_dict n) ''kind'' = JStr ''issue''"
  by (simp_all add: mention_dict_def jget_def)

lemma seen_keys_append:
  "seen_keys cs ds = Inr ks \<Longrightarrow> list_all integral ns \<Longrightarrow> seen_keys cs (ds @ map mention_dict ns) = Inr (ks @ map key_of ns)"
proof (induction ds arbitrary: ks)
  case Nil
  then have "ks = []" by simp
  moreover have "seen_keys cs (map mention_dict ns) = Inr (map key_of ns)"
    using Nil.prems(2)
  proof (induction ns)
    case (Cons n ns)
    then have "hashed n = Inr (snd (key_of n))" by (simp add: integral_hashed)
    then show ?case using Cons by (simp add: mention_keys issue_key)
  qed simp
  ultimately show ?case by simp
next
  case (Cons d ds)
  then show ?case by (auto simp: and_then_Inr)
qed

text \<open>
  attaching the same search results again changes nothing: every issue found is mentioned once, by its number, whatever the
  finding already had.
\<close>

theorem history_is_attached_once:
  "and_then (attach_history cs intro finding items) (\<lambda>f. attach_history cs intro f items) = attach_history cs intro finding items"
proof (cases "evidence_of finding")
  case (Inl e)
  then show ?thesis by (simp add: attach_history_def)
next
  case ev: (Inr evidence)
  show ?thesis
  proof (cases "seen_keys cs evidence")
    case (Inl e)
    then show ?thesis using ev by (simp add: attach_history_def)
  next
    case seen: (Inr seen)
    let ?ns = "unseen seen (candidates cs items)"
    show ?thesis
    proof (cases "?ns = []")
      case True
      then show ?thesis using ev seen by (simp add: attach_history_def new_numbers_unseen)
    next
      case False
      define f where "f = set_key ''detail'' (JStr (take 4000 (value_text cs (jget finding ''detail'') @ intro
          @ join '' '' (map (\<lambda>n. CHR ''#'' # py_str cs n) ?ns)))) (set_key ''evidence'' (JList (map JObj evidence @ map mention ?ns)) finding)"
      have first: "attach_history cs intro finding items = Inr f"
        using ev seen False by (simp add: attach_history_def new_numbers_unseen f_def Let_def)
      have "jget f ''evidence'' = JList (map JObj evidence @ map mention ?ns)" by (simp add: f_def jget_set_key)
      then have "evidence_of f = Inr (evidence @ map mention_dict ?ns)"
        using False by (simp add: evidence_of_def Let_def objects_of_map objects_of_mentions)
      moreover have "seen_keys cs (evidence @ map mention_dict ?ns) = Inr (seen @ map key_of ?ns)"
        using seen unseen_integral by (intro seen_keys_append) (auto simp: list_all_iff)
      moreover have "unseen (seen @ map key_of ?ns) (candidates cs items) = []"
      proof (rule unseen_covered)
        show "key_of ` set (candidates cs items) \<subseteq> set (seen @ map key_of ?ns)"
        proof
          fix k assume "k \<in> key_of ` set (candidates cs items)"
          then obtain v where "k = key_of v" "v \<in> set (candidates cs items)" by blast
          then show "k \<in> set (seen @ map key_of ?ns)" using unseen_cover [of v "candidates cs items" seen] by simp
        qed
      qed
      ultimately have "attach_history cs intro f items = Inr f" by (simp add: attach_history_def new_numbers_unseen)
      then show ?thesis using first by simp
    qed
  qed
qed

end
