(* ===== verification/RepoSource.thy ===== *)
theory RepoSource
  imports StdText "HOL-Library.AList"
begin

section \<open>Where a repository comes from\<close>

text \<open>
  The first part of \<open>services/repo_import.py\<close>: what a pasted URL names (\<open>parse_source\<close>, \<open>RepoSource\<close>), what it is called in
  the tables and in Forgejo, and where it is probed. \<open>urllib.parse.urlparse\<close> is the standard library's function on URLs below
  code point 256; whether the text in brackets is an address is its argument \<open>ip6\<close>.
\<close>

subsection \<open>The standard library on URLs\<close>

definition scheme_char :: "char \<Rightarrow> bool" where
  "scheme_char c \<longleftrightarrow> is_alpha c \<or> is_digit c \<or> c \<in> {CHR ''+'', CHR ''-'', CHR ''.''}"

text \<open>Leading control characters and blanks go, and every tab and line end within.\<close>

definition clean_url :: "string \<Rightarrow> string" where
  "clean_url s = filter (\<lambda>c. of_char c \<notin> {9, 10, 13 :: nat}) (dropWhile (\<lambda>c. of_char c \<le> (32 :: nat)) s)"

definition split_scheme :: "string \<Rightarrow> string \<times> string" where
  "split_scheme url =
     (let s = takeWhile (\<lambda>c. c \<noteq> CHR '':'') url
      in if length s < length url \<and> s \<noteq> [] \<and> is_alpha (hd s) \<and> list_all scheme_char s then (py_lower s, drop (length s + 1) url)
         else ([], url))"

definition url_stop :: "char \<Rightarrow> bool" where
  "url_stop c \<longleftrightarrow> c \<in> {CHR ''/'', CHR ''?'', CHR ''#''}"

definition split_netloc :: "string \<Rightarrow> string \<times> string" where
  "split_netloc url =
     (if startswith url ''//'' then (takeWhile (\<lambda>c. \<not> url_stop c) (drop 2 url), dropWhile (\<lambda>c. \<not> url_stop c) (drop 2 url)) else ([], url))"

text \<open>What stands before the first \<open>c\<close>, and what after it.\<close>

definition before_char :: "char \<Rightarrow> string \<Rightarrow> string" where
  "before_char c s = takeWhile (\<lambda>d. d \<noteq> c) s"

definition after_char :: "char \<Rightarrow> string \<Rightarrow> string" where
  "after_char c s = drop 1 (dropWhile (\<lambda>d. d \<noteq> c) s)"

text \<open>\<open>_splitparams\<close>: in the schemes that have parameters, the last segment ends at its first semicolon.\<close>

definition without_params :: "string \<Rightarrow> string" where
  "without_params path =
     (let last_seg = rev (takeWhile (\<lambda>c. c \<noteq> CHR ''/'') (rev path))
      in take (length path - length last_seg) path @ before_char (CHR '';'') last_seg)"

definition bracket_error :: "(string \<Rightarrow> bool) \<Rightarrow> string \<Rightarrow> bool" where
  "bracket_error ip6 netloc \<longleftrightarrow>
     (CHR ''['' \<in> set netloc) \<noteq> (CHR '']'' \<in> set netloc)
     \<or> CHR ''['' \<in> set netloc \<and> \<not> ip6 (before_char (CHR '']'') (after_char (CHR ''['') netloc))"

record parsed_url =
  pu_scheme :: string
  pu_netloc :: string
  pu_path :: string

definition urlparse :: "(string \<Rightarrow> bool) \<Rightarrow> string \<Rightarrow> parsed_url option" where
  "urlparse ip6 raw =
     (let (scheme, rest) = split_scheme (clean_url raw);
          (netloc, tail) = split_netloc rest;
          path = before_char (CHR ''?'') (before_char (CHR ''#'') tail)
      in if bracket_error ip6 netloc then None
         else Some \<lparr>pu_scheme = scheme, pu_netloc = netloc,
                    pu_path = (if scheme \<in> {''http'', ''https''} then without_params path else path)\<rparr>)"

text \<open>\<open>parsed.hostname or ""\<close>: after the last \<open>@\<close>, within the brackets or before the colon; a zone keeps its case.\<close>

definition after_last :: "char \<Rightarrow> string \<Rightarrow> string" where
  "after_last c s = rev (takeWhile (\<lambda>d. d \<noteq> c) (rev s))"

definition hostname :: "string \<Rightarrow> string" where
  "hostname netloc =
     (let info = after_last (CHR ''@'') netloc;
          h = (if CHR ''['' \<in> set info then before_char (CHR '']'') (after_char (CHR ''['') info) else before_char (CHR '':'') info)
      in py_lower (before_char (CHR ''%'') h) @ dropWhile (\<lambda>d. d \<noteq> CHR ''%'') h)"

subsection \<open>What the URL names\<close>

text \<open>\<open>MalformedUrl\<close> is the \<open>ValueError\<close> of the standard library; the others are \<open>SourceUrlError\<close>.\<close>

datatype source_error = EmptySource | NoOwnerAndName | BadSegment | BadScheme | NoHost | MalformedUrl

record repo_source =
  rs_host :: string
  rs_owner :: string
  rs_name :: string
  rs_clone :: string
  rs_path :: string
  rs_kind :: string

definition KNOWN_HOSTS :: "(string \<times> string) list" where
  "KNOWN_HOSTS = [(''github.com'', ''github''), (''gitee.com'', ''gitee''), (''gitlab.com'', ''gitlab'')]"

definition slug :: "repo_source \<Rightarrow> string" where
  "slug s = or_str (rs_path s) (rs_owner s @ ''/'' @ rs_name s)"

definition web_url :: "repo_source \<Rightarrow> string" where
  "web_url s = (if rs_host s = [] then rs_clone s else ''https://'' @ rs_host s @ ''/'' @ slug s)"

text \<open>\<open>_OWNER_RE\<close> and \<open>_NAME_RE\<close>: the dollar sign also matches before a line feed at the end.\<close>

definition segment_char :: "char \<Rightarrow> bool" where
  "segment_char c \<longleftrightarrow> is_alpha c \<or> is_digit c \<or> c \<in> {CHR ''.'', CHR ''_'', CHR ''-''}"

definition segment_shape :: "string \<Rightarrow> bool" where
  "segment_shape s \<longleftrightarrow> s \<noteq> [] \<and> (is_alpha (hd s) \<or> is_digit (hd s)) \<and> list_all segment_char s"

definition segment_ok :: "string \<Rightarrow> bool" where
  "segment_ok s \<longleftrightarrow> segment_shape s \<or> s \<noteq> [] \<and> last s = CHR 0x0A \<and> segment_shape (butlast s)"

definition bare_name :: "string \<Rightarrow> string" where
  "bare_name s = (if endswith s ''.git'' then take (length s - 4) s else s)"

definition split_namespace :: "string \<Rightarrow> source_error + string \<times> string \<times> string" where
  "split_namespace path =
     (let given = filter (\<lambda>p. p \<noteq> []) (split_on (CHR ''/'') path)
      in if length given < 2 then Inl NoOwnerAndName
         else let parts = butlast given @ [bare_name (last given)]
           in if list_all segment_ok parts then Inr (join ''/'' parts, last (butlast parts), last parts) else Inl BadSegment)"

definition has_scheme_mark :: "string \<Rightarrow> bool" where
  "has_scheme_mark s \<longleftrightarrow> list_ex (\<lambda>i. startswith (drop i s) ''://'') [0..<length s]"

definition scp_like :: "string \<Rightarrow> bool" where
  "scp_like raw \<longleftrightarrow> \<not> has_scheme_mark raw \<and> CHR ''@'' \<in> set raw \<and> CHR '':'' \<in> set (after_char (CHR ''@'') raw)"

definition source_of :: "string \<Rightarrow> string \<Rightarrow> string \<times> string \<times> string \<Rightarrow> repo_source" where
  "source_of scheme host space =
     (case space of (path, owner, name) \<Rightarrow>
       \<lparr>rs_host = host, rs_owner = owner, rs_name = name,
        rs_clone = (if scheme \<in> {''http'', ''https'', ''ssh''} then ''https'' else scheme) @ ''://'' @ host @ ''/'' @ path @ ''.git'',
        rs_path = path, rs_kind = (case map_of KNOWN_HOSTS host of Some k \<Rightarrow> k | None \<Rightarrow> ''git'')\<rparr>)"

definition scp_host :: "string \<Rightarrow> string" where
  "scp_host raw = (let user_host = before_char (CHR '':'') raw in if CHR ''@'' \<in> set user_host then after_char (CHR ''@'') user_host else user_host)"

definition parse_source :: "(string \<Rightarrow> bool) \<Rightarrow> string \<Rightarrow> source_error + repo_source" where
  "parse_source ip6 url =
     (let raw = py_strip (before_char (CHR ''#'') (py_strip url))
      in if raw = [] then Inl EmptySource
         else if scp_like raw then and_then (split_namespace (after_char (CHR '':'') raw)) (\<lambda>space. Inr (source_of ''https'' (scp_host raw) space))
         else case urlparse ip6 raw of
           None \<Rightarrow> Inl MalformedUrl
         | Some u \<Rightarrow>
             if pu_scheme u \<notin> {''http'', ''https'', ''git'', ''ssh''} then Inl BadScheme
             else let host = py_lower (hostname (pu_netloc u))
               in if host = [] then Inl NoHost
                  else and_then (split_namespace (pu_path u)) (\<lambda>space. Inr (source_of (pu_scheme u) host space)))"

subsection \<open>Names made from it\<close>

text \<open>\<open>_forgejo_name\<close>, and \<open>quote(s, safe="")\<close> with the two hexadecimal digits in capitals.\<close>

definition forgejo_name :: "repo_source \<Rightarrow> string" where
  "forgejo_name s = concat (map (\<lambda>c. if c = CHR ''/'' then ''__'' else [c]) (slug s))"

definition unreserved :: "char \<Rightarrow> bool" where
  "unreserved c \<longleftrightarrow> is_alpha c \<or> is_digit c \<or> c \<in> {CHR ''_'', CHR ''.'', CHR ''-'', CHR ''~''}"

definition quote_char :: "char \<Rightarrow> string" where
  "quote_char c = (if unreserved c then [c] else (let n = of_char c :: nat in CHR ''%'' # map upper_char [hex_digit (n div 16), hex_digit (n mod 16)]))"

definition percent :: "string \<Rightarrow> string" where
  "percent s = concat (map quote_char s)"

definition probe_url :: "repo_source \<Rightarrow> string" where
  "probe_url s =
     (if rs_kind s = ''github'' then ''https://api.github.com/repos/'' @ slug s
      else if rs_kind s = ''gitee'' then ''https://gitee.com/api/v5/repos/'' @ slug s
      else if rs_kind s = ''gitlab'' then ''https://gitlab.com/api/v4/projects/'' @ percent (slug s)
      else [])"

subsection \<open>What is stored is what was parsed\<close>

text \<open>Hosts and paths without a character that means something to a URL.\<close>

definition plain_host :: "string \<Rightarrow> bool" where
  "plain_host h \<longleftrightarrow> h \<noteq> [] \<and> list_all segment_char h \<and> py_lower h = h"

definition path_char :: "char \<Rightarrow> bool" where
  "path_char c \<longleftrightarrow> segment_char c \<or> c = CHR ''/''"

lemma segment_marks: "\<not> segment_char CHR ''/''" "\<not> path_char CHR ''#''" "\<not> path_char CHR ''?''" "\<not> path_char CHR '';''" "\<not> segment_char CHR '':''" "\<not> path_char CHR ''@''"
  "\<not> path_char CHR ''%''" "\<not> path_char CHR ''[''" "\<not> path_char CHR '']''" "\<not> path_char CHR 0x0A"
  by code_simp+

lemma path_char_code: "path_char c \<Longrightarrow> 32 < (of_char c :: nat) \<and> (of_char c :: nat) \<noteq> 127"
  unfolding path_char_def segment_char_def is_alpha_def is_digit_def Let_def by (elim disjE insertE) auto

lemma path_char_space: "path_char c \<Longrightarrow> \<not> py_isspace c"
  using path_char_code [of c] by (auto simp: py_isspace_def Let_def)

lemma before_char_none: "c \<notin> set s \<Longrightarrow> before_char c s = s"
  by (auto simp: before_char_def takeWhile_eq_all_conv)

lemma split_on_append: "c \<notin> set w \<Longrightarrow> split_on c (w @ c # s) = w # split_on c s"
  by (induction w) auto

lemma split_on_none: "c \<notin> set w \<Longrightarrow> split_on c w = [w]"
  by (induction w) auto

lemma split_on_join: "ws \<noteq> [] \<Longrightarrow> list_all (\<lambda>w. c \<notin> set w) ws \<Longrightarrow> split_on c (join [c] ws) = ws"
proof (induction ws)
  case (Cons w ws)
  then show ?case by (cases ws) (simp_all add: split_on_none split_on_append)
qed simp

lemma split_scheme_https: "split_scheme (''https://'' @ t) = (''https'', ''//'' @ t)"
proof -
  have "takeWhile (\<lambda>c. c \<noteq> CHR '':'') (''https://'' @ t) = ''https''" by simp
  moreover have "is_alpha CHR ''h''" "list_all scheme_char ''https''" "py_lower ''https'' = ''https''" by code_simp+
  ultimately show ?thesis unfolding split_scheme_def Let_def by simp
qed

lemma clean_web:
  assumes "list_all (\<lambda>c. 32 < (of_char c :: nat)) t"
  shows "clean_url (''https://'' @ t) = ''https://'' @ t"
proof -
  have "filter (\<lambda>c. of_char c \<notin> {9, 10, 13 :: nat}) t = t"
    using assms by (intro filter_True) (auto simp: list_all_iff dest!: bspec)
  moreover have "clean_url ''https://'' = ''https://''" by code_simp
  ultimately show ?thesis by (simp add: clean_url_def)
qed

lemma split_netloc_at:
  assumes "list_all (\<lambda>c. \<not> url_stop c) n"
  shows "split_netloc (''//'' @ n @ ''/'' @ p) = (n, ''/'' @ p)"
proof -
  have "\<not> url_stop c" if "c \<in> set n" for c using that assms by (simp add: list_all_iff)
  moreover have "url_stop CHR ''/''" by code_simp
  moreover have "startswith (''//'' @ n @ ''/'' @ p) ''//''" by (rule startswith_append)
  ultimately show ?thesis unfolding split_netloc_def by (simp add: takeWhile_append2 dropWhile_append2)
qed

lemma params_none: "CHR '';'' \<notin> set p \<Longrightarrow> without_params p = p"
proof -
  assume p: "CHR '';'' \<notin> set p"
  let ?l = "rev (takeWhile (\<lambda>c. c \<noteq> CHR ''/'') (rev p))"
  have "p = rev (dropWhile (\<lambda>c. c \<noteq> CHR ''/'') (rev p)) @ ?l"
    by (metis rev_append rev_rev_ident takeWhile_dropWhile_id)
  moreover have "CHR '';'' \<notin> set ?l" using p by (auto dest: set_takeWhileD)
  ultimately show ?thesis unfolding without_params_def Let_def
    by (metis append_eq_conv_conj before_char_none diff_add_inverse2 length_append)
qed

lemma hostname_plain: "plain_host h \<Longrightarrow> hostname h = h"
proof -
  assume h: "plain_host h"
  have "c \<notin> set h" if "\<not> path_char c \<or> \<not> segment_char c" for c using h that by (auto simp: plain_host_def list_all_iff path_char_def)
  then have none: "CHR ''@'' \<notin> set h" "CHR ''['' \<notin> set h" "CHR '':'' \<notin> set h" "CHR ''%'' \<notin> set h" using segment_marks by blast+
  have "takeWhile (\<lambda>d. d \<noteq> CHR ''@'') (rev h) = rev h" using none(1) by (auto simp: takeWhile_eq_all_conv)
  then have at: "after_last CHR ''@'' h = h" unfolding after_last_def by (simp only: rev_rev_ident)
  show ?thesis using none h by (simp add: hostname_def at Let_def before_char_none plain_host_def) (auto simp: dropWhile_eq_Nil_conv)
qed

lemma urlparse_netloc:
  assumes "list_all (\<lambda>c. \<not> url_stop c \<and> 32 < (of_char c :: nat)) n" and "\<not> bracket_error ip6 n" and "list_all path_char p"
  shows "urlparse ip6 (''https://'' @ n @ ''/'' @ p) = Some \<lparr>pu_scheme = ''https'', pu_netloc = n, pu_path = ''/'' @ p\<rparr>"
proof -
  have n: "list_all (\<lambda>c. \<not> url_stop c) n" using assms(1) by (simp add: list_all_iff)
  have t: "list_all (\<lambda>c. 32 < (of_char c :: nat)) (n @ ''/'' @ p)" using assms(1,3) path_char_code by (auto simp: list_all_iff)
  have "c \<notin> set (''/'' @ p)" if "\<not> path_char c" for c using assms(3) that by (auto simp: list_all_iff path_char_def)
  then have none: "CHR ''?'' \<notin> set (''/'' @ p)" "CHR ''#'' \<notin> set (''/'' @ p)" "CHR '';'' \<notin> set (''/'' @ p)" using segment_marks by blast+
  show ?thesis unfolding urlparse_def clean_web [OF t] split_scheme_https split_netloc_at [OF n] Let_def prod.case
    using assms(2) by (simp only: before_char_none [OF none(1)] before_char_none [OF none(2)] params_none [OF none(3)]) simp
qed

lemma plain_netloc:
  assumes "plain_host h"
  shows "list_all (\<lambda>c. \<not> url_stop c \<and> 32 < (of_char c :: nat)) h" and "\<not> bracket_error ip6 h"
proof -
  have h: "segment_char c" if "c \<in> set h" for c using that assms by (simp add: plain_host_def list_all_iff)
  then show "list_all (\<lambda>c. \<not> url_stop c \<and> 32 < (of_char c :: nat)) h"
    using segment_marks path_char_code by (auto simp: list_all_iff url_stop_def path_char_def)
  have "c \<notin> set h" if "\<not> path_char c" for c using h that by (auto simp: path_char_def)
  then show "\<not> bracket_error ip6 h" using segment_marks by (simp add: bracket_error_def)
qed

lemma https_mark: "has_scheme_mark (''https://'' @ t)"
proof -
  have "startswith (drop 5 (''https://'' @ t)) ''://''" by (simp add: startswith_def)
  moreover have "5 < length (''https://'' @ t)" by simp
  ultimately show ?thesis unfolding has_scheme_mark_def list_ex_iff set_upt by (intro bexI [of _ 5]) (simp_all only: atLeastLessThan_iff, simp)
qed

lemma list_all_join: "list_all (list_all P) ws \<Longrightarrow> P c \<Longrightarrow> list_all P (join [c] ws)"
  by (induction "[c]" ws rule: join.induct) auto

lemma join_snoc: "ws \<noteq> [] \<Longrightarrow> join sep (ws @ [w]) = join sep ws @ sep @ w"
  by (induction sep ws rule: join.induct) auto

lemma endswith_append: "endswith w t \<Longrightarrow> endswith (p @ w) t"
  by (auto simp: endswith_def)

lemma split_namespaceD:
  assumes "split_namespace p = Inr (path, owner, name)"
  obtains parts where "path = join ''/'' parts" "2 \<le> length parts" "list_all segment_ok parts" "owner = last (butlast parts)" "name = last parts"
proof -
  let ?given = "filter (\<lambda>p. p \<noteq> []) (split_on CHR ''/'' p)"
  let ?parts = "butlast ?given @ [bare_name (last ?given)]"
  have "path = join ''/'' ?parts" "2 \<le> length ?parts" "list_all segment_ok ?parts" "owner = last (butlast ?parts)" "name = last ?parts"
    using assms by (auto simp: split_namespace_def Let_def split: if_splits)
  then show ?thesis by (rule that)
qed

lemma segment_shape_again:
  assumes "segment_ok w" and "CHR 0x0A \<notin> set w"
  shows "segment_shape w"
proof (cases "w = []")
  case False
  then have "last w \<noteq> CHR 0x0A" using assms(2) last_in_set [of w] by metis
  then show ?thesis using assms(1) by (auto simp: segment_ok_def)
qed (use assms in \<open>auto simp: segment_ok_def\<close>)

lemma namespace_again:
  assumes "split_namespace p = Inr (path, owner, name)" and "CHR 0x0A \<notin> set path" and "\<not> endswith path ''.git''"
  shows "list_all path_char path" and "path \<noteq> []" and "\<not> py_isspace (last path)" and "split_namespace (''/'' @ path) = Inr (path, owner, name)"
proof -
  from assms(1) obtain parts where parts: "path = join ''/'' parts" "2 \<le> length parts" "list_all segment_ok parts"
      "owner = last (butlast parts)" "name = last parts" by (rule split_namespaceD)
  have in_path: "set w \<subseteq> set path" if "w \<in> set parts" for w
    using that unfolding parts(1) by (induction "''/''" parts rule: join.induct) auto
  have shape: "list_all segment_shape parts"
    using parts(3) in_path assms(2) segment_shape_again by (fastforce simp: list_all_iff)
  then have chars: "list_all (list_all path_char) parts" by (auto simp: list_all_iff segment_shape_def path_char_def)
  moreover have slash: "path_char CHR ''/''" by code_simp
  ultimately show path: "list_all path_char path" unfolding parts(1) by (rule list_all_join)
  obtain ps w where snoc: "parts = ps @ [w]" using parts(2) by (cases parts rule: rev_cases) auto
  have ps: "ps \<noteq> []" using parts(2) snoc by auto
  have path_w: "path = join ''/'' ps @ ''/'' @ w" using parts(1) snoc join_snoc [OF ps] by simp
  then show "path \<noteq> []" by simp
  have w: "segment_shape w" using shape snoc by simp
  then have "last path = last w" "w \<noteq> []" using path_w by (auto simp: segment_shape_def)
  then show "\<not> py_isspace (last path)" using w path_char_space [of "last w"] by (auto simp: segment_shape_def path_char_def list_all_iff)
  have noslash: "list_all (\<lambda>w. CHR ''/'' \<notin> set w) parts"
    using shape segment_marks(1) by (auto simp: list_all_iff segment_shape_def)
  have "split_on CHR ''/'' path = parts" unfolding parts(1) using parts(2) by (intro split_on_join noslash) auto
  then have "split_on CHR ''/'' (''/'' @ path) = [] # parts" by simp
  moreover have "filter (\<lambda>p. p \<noteq> []) parts = parts" using shape by (intro filter_True) (auto simp: list_all_iff segment_shape_def)
  moreover have "bare_name (last parts) = last parts"
  proof -
    have "\<not> endswith w ''.git''"
    proof
      assume "endswith w ''.git''"
      then have "endswith path ''.git''" unfolding path_w append_assoc [symmetric] by (rule endswith_append)
      then show False using assms(3) by simp
    qed
    then show ?thesis using snoc by (simp add: bare_name_def)
  qed
  moreover have "butlast parts @ [last parts] = parts" using parts(2) by (intro append_butlast_last_id) auto
  ultimately show "split_namespace (''/'' @ path) = Inr (path, owner, name)"
    using parts by (simp add: split_namespace_def Let_def del: split_on.simps)
qed

text \<open>A web address is parsed as its host and path say.\<close>

lemma parse_web:
  assumes "list_all (\<lambda>c. \<not> url_stop c \<and> 32 < (of_char c :: nat)) n" and "\<not> bracket_error ip6 n" and "list_all path_char p"
  shows "parse_source ip6 (''https://'' @ n @ ''/'' @ p) =
    (if py_lower (hostname n) = [] then Inl NoHost
     else and_then (split_namespace (''/'' @ p)) (\<lambda>space. Inr (source_of ''https'' (py_lower (hostname n)) space)))"
proof -
  let ?url = "''https://'' @ n @ ''/'' @ p"
  have hash: "CHR ''#'' \<notin> set ?url"
  proof -
    have "CHR ''#'' \<notin> set ''https://''" "url_stop CHR ''#''" "\<not> path_char CHR ''#''" by code_simp+
    then show ?thesis using assms(1,3) by (auto simp: list_all_iff)
  qed
  have "py_strip ?url = ?url"
  proof (rule py_strip_fix)
    have "\<not> py_isspace CHR ''h''" "\<not> py_isspace CHR ''/''" by code_simp+
    moreover have "\<not> py_isspace (last p)" if "p \<noteq> []" using that assms(3) path_char_space [of "last p"] by (simp add: list_all_iff)
    ultimately show "?url = [] \<or> \<not> py_isspace (hd ?url) \<and> \<not> py_isspace (last ?url)" by simp
  qed
  then have raw: "py_strip (before_char CHR ''#'' (py_strip ?url)) = ?url" using before_char_none [OF hash] by metis
  have "\<not> scp_like ?url" using https_mark by (simp only: scp_like_def) simp
  then show ?thesis by (simp only: parse_source_def raw urlparse_netloc [OF assms] Let_def if_False option.case parsed_url.simps) simp
qed

lemma parse_sourceD:
  assumes "parse_source ip6 url = Inr s"
  obtains scheme host p path owner name where "split_namespace p = Inr (path, owner, name)" "s = source_of scheme host (path, owner, name)"
proof (cases "scp_like (py_strip (before_char CHR ''#'' (py_strip url)))")
  case True
  then show ?thesis using assms by (auto simp: parse_source_def Let_def and_then_Inr split: if_splits intro: that)
next
  case False
  then have 0: "py_strip (before_char CHR ''#'' (py_strip url)) \<noteq> []" using assms by (auto simp: parse_source_def)
  show ?thesis
  proof (cases "urlparse ip6 (py_strip (before_char CHR ''#'' (py_strip url)))")
    case None
    then show ?thesis using assms False 0 by (simp add: parse_source_def)
  next
    case (Some u)
    then have "and_then (split_namespace (pu_path u)) (\<lambda>space. Inr (source_of (pu_scheme u) (py_lower (hostname (pu_netloc u))) space)) = Inr s"
      using assms False 0 by (simp add: parse_source_def Let_def del: insert_iff split: if_split_asm)
    then show ?thesis by (auto simp: and_then_Inr intro: that)
  qed
qed

text \<open>
  C31: what is stored names the repository that was parsed. An import keeps the web address and parses it again in each of its
  first phases. Where the host is a plain lower-case name (letters, digits, dash, underscore, dot; no port or address in brackets), the path
  holds no newline and does not end in \<open>.git\<close> once more, that gives the source that was parsed, host, path, owner, name and kind the
  same, with one field changed: its clone address is the \<open>https\<close> one of host and path, whatever scheme the first address had.
\<close>

theorem source_survives_storage:
  assumes "parse_source ip6 url = Inr s" and "plain_host (rs_host s)"
    and "CHR 0x0A \<notin> set (rs_path s)" and "\<not> endswith (rs_path s) ''.git''"
  shows "parse_source ip6 (web_url s) = Inr (s\<lparr>rs_clone := ''https://'' @ rs_host s @ ''/'' @ rs_path s @ ''.git''\<rparr>)"
proof -
  obtain scheme host p path owner name where
    space: "split_namespace p = Inr (path, owner, name)" and s: "s = source_of scheme host (path, owner, name)"
    using assms(1) by (rule parse_sourceD)
  have path: "rs_path s = path" and host: "rs_host s = host" using s by (simp_all add: source_of_def)
  note again = namespace_again [OF space assms(3,4) [unfolded path]]
  have plain: "plain_host host" using assms(2) host by simp
  have url: "web_url s = ''https://'' @ host @ ''/'' @ path"
    using again(2) plain path host by (simp add: web_url_def slug_def or_str_def plain_host_def)
  show ?thesis unfolding url parse_web [OF plain_netloc [OF plain] again(1)] again(4)
    using hostname_plain [OF plain] plain by (simp add: plain_host_def) (simp add: s source_of_def)
qed

theorem source_survives_storage_witness:
  "parse_source (\<lambda>a. False) ''https://git.example.io/team/sub/app'' = Inr \<lparr>rs_host = ''git.example.io'', rs_owner = ''sub'', rs_name = ''app'',
     rs_clone = ''https://git.example.io/team/sub/app.git'', rs_path = ''team/sub/app'', rs_kind = ''git''\<rparr>"
proof -
  let ?s = "\<lparr>rs_host = ''git.example.io'', rs_owner = ''sub'', rs_name = ''app'',
     rs_clone = ''git://git.example.io/team/sub/app.git'', rs_path = ''team/sub/app'', rs_kind = ''git''\<rparr>"
  have "parse_source (\<lambda>a. False) ''git://git.example.io:9418/team//sub/app.git#main'' = Inr ?s" by code_simp
  from source_survives_storage [OF this] show ?thesis
    by (simp add: web_url_def slug_def or_str_def) (code_simp)
qed


subsection \<open>What is not stored\<close>

lemma digit_marks: "is_digit c \<Longrightarrow> \<not> url_stop c \<and> 32 < (of_char c :: nat) \<and> c \<notin> {CHR ''@'', CHR ''['', CHR '']'', CHR ''#'', CHR '':''}"
  unfolding is_digit_def url_stop_def Let_def by auto

lemma hostname_port:
  assumes "plain_host h" and "list_all is_digit port"
  shows "hostname (h @ '':'' @ port) = h" and "\<not> bracket_error ip6 (h @ '':'' @ port)"
proof -
  have none: "c \<notin> set h" if "\<not> path_char c \<or> \<not> segment_char c" for c
    using assms(1) that by (auto simp: plain_host_def list_all_iff path_char_def)
  have port: "c \<notin> set port" if "\<not> is_digit c" for c using assms(2) that by (auto simp: list_all_iff)
  have marks: "\<not> is_digit CHR ''@''" "\<not> is_digit CHR ''[''" "\<not> is_digit CHR '']''" by code_simp+
  have out: "CHR ''@'' \<notin> set (h @ '':'' @ port)" "CHR ''['' \<notin> set (h @ '':'' @ port)" "CHR '']'' \<notin> set (h @ '':'' @ port)"
    using none port marks segment_marks by auto
  have "takeWhile (\<lambda>d. d \<noteq> CHR ''@'') (rev (h @ '':'' @ port)) = rev (h @ '':'' @ port)"
    using out(1) unfolding takeWhile_eq_all_conv by (metis set_rev)
  then have at: "after_last CHR ''@'' (h @ '':'' @ port) = h @ '':'' @ port" unfolding after_last_def by (simp only: rev_rev_ident)
  have "before_char CHR '':'' (h @ '':'' @ port) = h"
    using none [of "CHR '':''"] segment_marks by (auto simp: before_char_def takeWhile_append)
  then show "hostname (h @ '':'' @ port) = h"
    unfolding hostname_def at Let_def if_not_P [OF out(2)] using hostname_plain [OF assms(1)] none [of "CHR ''%''"] segment_marks
    by (simp add: before_char_none dropWhile_eq_Nil_conv) (use assms(1) in \<open>auto simp: plain_host_def\<close>)
  show "\<not> bracket_error ip6 (h @ '':'' @ port)" using out by (simp add: bracket_error_def)
qed

text \<open>
  a port is dropped. A repository on a port of its own is filed, cloned and probed as the one on the standard port of the
  same host, whatever is served there.
\<close>

theorem port_is_dropped:
  assumes "plain_host h" and "list_all is_digit port" and "list_all path_char p"
  shows "parse_source ip6 (''https://'' @ h @ '':'' @ port @ ''/'' @ p) = parse_source ip6 (''https://'' @ h @ ''/'' @ p)"
proof -
  let ?n = "h @ '':'' @ port"
  have colon: "\<not> url_stop CHR '':''" by code_simp
  have n: "list_all (\<lambda>c. \<not> url_stop c \<and> 32 < (of_char c :: nat)) ?n"
    using plain_netloc(1) [OF assms(1)] assms(2) digit_marks colon by (auto simp: list_all_iff)
  have "hostname ?n = hostname h" using hostname_port(1) [OF assms(1,2)] hostname_plain [OF assms(1)] by simp
  moreover have "''https://'' @ h @ '':'' @ port @ ''/'' @ p = ''https://'' @ ?n @ ''/'' @ p" by simp
  ultimately show ?thesis
    using parse_web [OF n hostname_port(2) [OF assms(1,2)] assms(3)] parse_web [OF plain_netloc [OF assms(1)] assms(3)] by metis
qed

theorem port_is_dropped_witness:
  "parse_source (\<lambda>a. False) ''https://git.example.io:8443/team/app'' = parse_source (\<lambda>a. False) ''https://git.example.io/team/app''"
proof -
  have "plain_host ''git.example.io''" "list_all is_digit ''8443''" "list_all path_char ''team/app''" by code_simp+
  from port_is_dropped [OF this] show ?thesis by simp
qed

text \<open>
  the name in Forgejo is not the repository's. The slashes of the namespace become two underscores, which a segment may
  contain itself, so that two repositories of one host want the same Forgejo repository.
\<close>

theorem forgejo_names_collide:
  "case (parse_source ip6 ''git@gitlab.com:a__b/c'', parse_source ip6 ''git@gitlab.com:a/b__c'') of
     (Inr s, Inr t) \<Rightarrow> slug s \<noteq> slug t \<and> forgejo_name s = forgejo_name t | _ \<Rightarrow> False"
  by code_simp

end
