(* ===== verification/RepoImport.thy ===== *)
theory RepoImport
  imports RepoSource
begin

section \<open>The import pipeline\<close>

text \<open>
  \<open>RepoImportService\<close> of \<open>services/repo_import.py\<close> over its tables (\<open>models/agent_hub.py\<close>). The Forgejo client and the commit
  reader are records of calls on a world \<open>'w\<close>, each of which may raise, as the service takes them. The state of a run holds the
  session's view of the tables, the states it has committed, the latest first (a worker that dies leaves one of them), and the
  cursor the run has in memory. The times of the rows are not kept; floating-point progress and the reading of odd JSON numbers
  are arguments.
\<close>

type_synonym jobject = "(string \<times> json) list"

subsection \<open>Phases and progress\<close>

definition JOB_PHASES :: "string list" where
  "JOB_PHASES = [''validate'', ''migrate'', ''poll'', ''mirror_issues'', ''index_commits'', ''done'']"

definition PHASE_BOUNDS :: "(string \<times> int \<times> int) list" where
  "PHASE_BOUNDS = [(''validate'', 0, 5), (''migrate'', 5, 15), (''poll'', 15, 30), (''mirror_issues'', 30, 80),
     (''index_commits'', 80, 95), (''done'', 95, 100)]"

definition IMPORT_MODES :: "string list" where "IMPORT_MODES = [''code'', ''code+issues'', ''issues'']"
definition ISSUE_STATES :: "string list" where "ISSUE_STATES = [''open'', ''closed'']"
definition DEFAULT_BRANCH :: string where "DEFAULT_BRANCH = ''main''"
definition CURSOR_VERSION :: int where "CURSOR_VERSION = 1"

record policy_defaults =
  pd_auto :: bool
  pd_curator :: string
  pd_interval :: int

text \<open>
  The library: \<open>int(low + width * max(0.0, min(1.0, a / b)))\<close>, \<open>int(x)\<close> of a JSON value that is true, \<open>str\<close> of a container, the address
  test of a URL, and the defaults of a policy document with those used without one.
\<close>

record import_lib =
  il_scale :: "int \<Rightarrow> int \<Rightarrow> int \<Rightarrow> int \<Rightarrow> int"
  il_int :: "json \<Rightarrow> int option"
  il_str :: "json \<Rightarrow> string"
  il_ip6 :: "string \<Rightarrow> bool"
  il_policy :: "string \<Rightarrow> policy_defaults option"
  il_builtin :: policy_defaults

definition bounded :: "int \<Rightarrow> int" where
  "bounded v = max 0 (min 100 v)"

text \<open>\<open>phase_progress\<close> for the fraction \<open>a / b\<close>.\<close>

definition phase_progress :: "import_lib \<Rightarrow> string \<Rightarrow> int \<times> int \<Rightarrow> int" where
  "phase_progress lib phase part =
     (case map_of PHASE_BOUNDS phase of
        Some (low, high) \<Rightarrow> bounded (il_scale lib low (high - low) (fst part) (snd part))
      | None \<Rightarrow> bounded (il_scale lib 0 100 (fst part) (snd part)))"

subsection \<open>The cursor\<close>

record cursor =
  cr_phase :: string
  cr_issue :: int
  cr_page :: int
  cr_issues_seen :: int
  cr_commits_seen :: int
  cr_partial :: bool
  cr_polls :: int
  cr_extras :: jobject

definition fresh_cursor :: "string \<Rightarrow> cursor" where
  "fresh_cursor phase = \<lparr>cr_phase = phase, cr_issue = 0, cr_page = 0, cr_issues_seen = 0, cr_commits_seen = 0,
     cr_partial = False, cr_polls = 0, cr_extras = []\<rparr>"

definition CURSOR_KEYS :: "string list" where
  "CURSOR_KEYS = [''v'', ''phase'', ''issue_number'', ''commit_page'', ''issues_seen'', ''commits_seen'', ''partial'', ''migrate_polls'']"

definition cursor_fields :: "cursor \<Rightarrow> jobject" where
  "cursor_fields c = [(''v'', JInt CURSOR_VERSION), (''phase'', JStr (cr_phase c)), (''issue_number'', JInt (cr_issue c)),
     (''commit_page'', JInt (cr_page c)), (''issues_seen'', JInt (cr_issues_seen c)), (''commits_seen'', JInt (cr_commits_seen c)),
     (''partial'', JBool (cr_partial c)), (''migrate_polls'', JInt (cr_polls c))]"

definition put :: "string \<Rightarrow> json \<Rightarrow> jobject \<Rightarrow> jobject" where
  "put k v d = AList.update k v d"

text \<open>
  The column holds JSON text. It is kept as what reading it gives: nothing, text that is no JSON, or the value. The payload is
  the fields with the extras put over them; \<open>cursor_text\<close> is the text itself.
\<close>

datatype stored_text = Blank | Garbled | Stored json

definition payload :: "cursor \<Rightarrow> jobject" where
  "payload c = fold (\<lambda>(k, v). put k v) (cr_extras c) (cursor_fields c)"

definition to_json :: "cursor \<Rightarrow> stored_text" where
  "to_json c = Stored (JObj (payload c))"

text \<open>\<open>json.dumps(v, ensure_ascii=False)\<close> with the separators it uses unless told otherwise.\<close>

definition plain_char :: "char \<Rightarrow> string" where
  "plain_char c = (if 126 < (of_char c :: nat) then [c] else json_char c)"

definition plain_text :: "string \<Rightarrow> string" where
  "plain_text s = [CHR 0x22] @ concat (map plain_char s) @ [CHR 0x22]"

fun spaced :: "json \<Rightarrow> string" where
  "spaced JNull = ''null''"
| "spaced (JBool b) = (if b then ''true'' else ''false'')"
| "spaced (JInt i) = str_of_int i"
| "spaced (JStr s) = plain_text s"
| "spaced (JList vs) = ''['' @ join '', '' (map spaced vs) @ '']''"
| "spaced (JObj kvs) = ''{'' @ join '', '' (map (\<lambda>(k, v). plain_text k @ '': '' @ spaced v) kvs) @ ''}''"

definition cursor_text :: "cursor \<Rightarrow> string" where
  "cursor_text c = spaced (sort_keys (JObj (payload c)))"

text \<open>\<open>int(v or 0)\<close>; \<open>None\<close> where that raises.\<close>

definition int_or_zero :: "import_lib \<Rightarrow> json \<Rightarrow> int option" where
  "int_or_zero lib v = (if \<not> truthy v then Some 0 else case v of JInt i \<Rightarrow> Some i | JBool b \<Rightarrow> Some 1 | _ \<Rightarrow> il_int lib v)"

definition read_cursor :: "import_lib \<Rightarrow> string \<Rightarrow> jobject \<Rightarrow> cursor option" where
  "read_cursor lib phase d =
     (let stored = (if truthy (jget d ''phase'') then py_str (il_str lib) (jget d ''phase'') else phase)
      in case (int_or_zero lib (jget d ''issue_number''), int_or_zero lib (jget d ''commit_page''), int_or_zero lib (jget d ''issues_seen''),
               int_or_zero lib (jget d ''commits_seen''), int_or_zero lib (jget d ''migrate_polls'')) of
           (Some n, Some p, Some i, Some m, Some q) \<Rightarrow>
             Some \<lparr>cr_phase = (if stored \<in> set JOB_PHASES then stored else phase), cr_issue = n, cr_page = p, cr_issues_seen = i,
               cr_commits_seen = m, cr_partial = truthy (jget d ''partial''), cr_polls = q,
               cr_extras = filter (\<lambda>(k, v). k \<notin> set CURSOR_KEYS) d\<rparr>
         | _ \<Rightarrow> None)"

text \<open>\<open>data.get("v") != 1\<close>: the number one and \<open>true\<close> are equal to it.\<close>

definition from_json :: "import_lib \<Rightarrow> string \<Rightarrow> stored_text \<Rightarrow> cursor option" where
  "from_json lib phase raw =
     (case raw of
        Stored (JObj d) \<Rightarrow>
          if jget d ''v'' = JInt CURSOR_VERSION \<or> jget d ''v'' = JBool True then read_cursor lib phase d else Some (fresh_cursor phase)
      | _ \<Rightarrow> Some (fresh_cursor phase))"

subsection \<open>The tables\<close>

record repo_row =
  rp_id :: int
  rp_slug :: string
  rp_source :: string
  rp_url :: "string option"
  rp_branch :: string
  rp_forgejo :: "string option"
  rp_kind :: string
  rp_sync :: string
  rp_issues :: int
  rp_commits :: int
  rp_auto :: "bool option"
  rp_curator :: "string option"
  rp_interval :: "int option"

text \<open>What may end a step: \<open>Client\<close> is whatever a call raised; \<open>FlushFailed\<close> is the database refusing a row.\<close>

datatype import_error =
    SourceUrl source_error | BadMode | BadStart | NoJob | NoRepo | NoForgejoRepo | PollsUsedUp string | UnknownPhase string
  | NoHistory string | Ambiguous | NotANumber | Client string | FlushFailed

record job_row =
  ij_id :: int
  ij_repo :: int
  ij_mode :: string
  ij_status :: string
  ij_phase :: string
  ij_cursor :: stored_text
  ij_progress :: int
  ij_total :: int
  ij_done :: int
  ij_partial :: bool
  ij_error :: "import_error option"
  ij_started :: bool
  ij_finished :: bool

record issue_row =
  is_repo :: int
  is_number :: int
  is_pr :: bool
  is_title :: string
  is_body :: string
  is_state :: string
  is_author :: string
  is_labels :: "string list"
  is_milestone :: "string option"
  is_url :: json
  is_source :: string

record commit_row =
  cm_repo :: int
  cm_sha :: string
  cm_author :: string
  cm_message :: string

record import_db =
  im_repos :: "repo_row list"
  im_jobs :: "job_row list"
  im_issues :: "issue_row list"
  im_commits :: "commit_row list"
  im_next_repo :: int
  im_next_job :: int

definition no_imports :: import_db where
  "no_imports = \<lparr>im_repos = [], im_jobs = [], im_issues = [], im_commits = [], im_next_repo = 1, im_next_job = 1\<rparr>"

definition find_repo :: "import_db \<Rightarrow> int \<Rightarrow> repo_row option" where
  "find_repo db i = find (\<lambda>r. rp_id r = i) (im_repos db)"

definition repo_by_slug :: "import_db \<Rightarrow> string \<Rightarrow> repo_row option" where
  "repo_by_slug db s = find (\<lambda>r. rp_slug r = s) (im_repos db)"

definition find_job :: "import_db \<Rightarrow> int \<Rightarrow> job_row option" where
  "find_job db i = find (\<lambda>j. ij_id j = i) (im_jobs db)"

definition set_repo :: "int \<Rightarrow> (repo_row \<Rightarrow> repo_row) \<Rightarrow> import_db \<Rightarrow> import_db" where
  "set_repo i f db = db\<lparr>im_repos := map (\<lambda>r. if rp_id r = i then f r else r) (im_repos db)\<rparr>"

definition set_job :: "int \<Rightarrow> (job_row \<Rightarrow> job_row) \<Rightarrow> import_db \<Rightarrow> import_db" where
  "set_job i f db = db\<lparr>im_jobs := map (\<lambda>j. if ij_id j = i then f j else j) (im_jobs db)\<rparr>"

subsection \<open>Creating a job\<close>

definition new_repo :: "repo_source \<Rightarrow> int \<Rightarrow> repo_row" where
  "new_repo source i = \<lparr>rp_id = i, rp_slug = slug source, rp_source = ''import'', rp_url = None, rp_branch = [], rp_forgejo = None,
     rp_kind = ''upstream'', rp_sync = ''pending'', rp_issues = 0, rp_commits = 0, rp_auto = None, rp_curator = None, rp_interval = None\<rparr>"

text \<open>The assignment \<open>create_job\<close> and \<open>_step_validate\<close> share.\<close>

definition point_at :: "repo_source \<Rightarrow> repo_row \<Rightarrow> repo_row" where
  "point_at source r = r\<lparr>rp_url := Some (web_url source), rp_branch := or_str (rp_branch r) DEFAULT_BRANCH, rp_sync := ''pending''\<rparr>"

text \<open>The repository a job is for: the one given, else the one of this slug, else a new row.\<close>

definition target_repo :: "import_db \<Rightarrow> repo_source \<Rightarrow> int option \<Rightarrow> repo_row \<times> import_db" where
  "target_repo db source repo_id =
     (case (case repo_id of Some i \<Rightarrow> if i = 0 then None else find_repo db i | None \<Rightarrow> None) of
        Some r \<Rightarrow> (r, db)
      | None \<Rightarrow> (case repo_by_slug db (slug source) of
          Some r \<Rightarrow> (r, db)
        | None \<Rightarrow> (let r = new_repo source (im_next_repo db)
                   in (r, db\<lparr>im_repos := im_repos db @ [r], im_next_repo := im_next_repo db + 1\<rparr>))))"

text \<open>A later start is honoured only where a Forgejo repository is known; the job row has no column for \<open>include_prs\<close>.\<close>

definition start_of :: "repo_row \<Rightarrow> string \<Rightarrow> bool \<Rightarrow> string option \<Rightarrow> cursor" where
  "start_of r mode include_prs skip_to =
     (let forgejo = opt_str (rp_forgejo r)
      in if opt_str skip_to \<noteq> [] \<and> opt_str skip_to \<noteq> ''validate'' \<and> forgejo \<noteq> []
         then (fresh_cursor (opt_str skip_to))\<lparr>cr_extras := [(''forgejo_repo'', JStr forgejo),
             (''include_issues'', JBool (mode \<in> {''code+issues'', ''issues''})), (''include_prs'', JBool include_prs)]\<rparr>
         else fresh_cursor ''validate'')"

definition new_job :: "int \<Rightarrow> string \<Rightarrow> cursor \<Rightarrow> int \<Rightarrow> job_row" where
  "new_job repo mode c i = \<lparr>ij_id = i, ij_repo = repo, ij_mode = mode, ij_status = ''queued'', ij_phase = cr_phase c,
     ij_cursor = to_json c, ij_progress = 0, ij_total = 0, ij_done = 0, ij_partial = False, ij_error = None,
     ij_started = False, ij_finished = False\<rparr>"

definition create_job :: "import_lib \<Rightarrow> import_db \<Rightarrow> string \<Rightarrow> string \<Rightarrow> int option \<Rightarrow> bool \<Rightarrow> string option
    \<Rightarrow> (import_error + job_row) \<times> import_db" where
  "create_job lib db source_url mode repo_id include_prs skip_to =
     (case parse_source (il_ip6 lib) source_url of
        Inl e \<Rightarrow> (Inl (SourceUrl e), db)
      | Inr source \<Rightarrow>
          if mode \<notin> set IMPORT_MODES then (Inl BadMode, db)
          else if skip_to \<noteq> None \<and> opt_str skip_to \<notin> set JOB_PHASES then (Inl BadStart, db)
          else (let (r, db1) = target_repo db source repo_id;
                    db2 = set_repo (rp_id r) (point_at source) db1;
                    job = new_job (rp_id r) mode (start_of r mode include_prs skip_to) (im_next_job db)
                in (Inr job, db2\<lparr>im_jobs := im_jobs db2 @ [job], im_next_job := im_next_job db + 1\<rparr>)))"

subsection \<open>What the service is given\<close>

type_synonym ('w, 'a) call = "'w \<Rightarrow> (string + 'a) \<times> 'w"

record import_config =
  ic_owner :: string
  ic_max_issues :: int
  ic_max_commits :: int
  ic_page_size :: int
  ic_poll_attempts :: int

record probe =
  pb_reachable :: bool
  pb_detail :: string

record issue_item =
  it_number :: int
  it_pr :: bool
  it_title :: string
  it_body :: string
  it_state :: string
  it_author :: string
  it_labels :: "string list"
  it_milestone :: "string option"
  it_url :: json
  it_source :: string

record issue_page =
  pg_items :: "issue_item list"
  pg_next :: "int option"

record commit_item =
  ct_sha :: string
  ct_author :: string
  ct_message :: string

record commit_page =
  cp_items :: "commit_item list"
  cp_more :: bool

text \<open>A migration is asked for a source, an owner and a name, with issues, with pull requests, as a mirror.\<close>

record 'w import_client =
  probe_source :: "repo_source \<Rightarrow> ('w, probe) call"
  trigger_migration :: "repo_source \<Rightarrow> string \<Rightarrow> string \<Rightarrow> bool \<Rightarrow> bool \<Rightarrow> bool \<Rightarrow> ('w, jobject) call"
  migration_state :: "string \<Rightarrow> ('w, jobject) call"
  migration_finished :: "jobject \<Rightarrow> bool"
  stream_issues :: "string \<Rightarrow> int \<Rightarrow> int \<Rightarrow> int \<Rightarrow> ('w, issue_page) call"
  stream_commits :: "string \<Rightarrow> string \<Rightarrow> int \<Rightarrow> int \<Rightarrow> ('w, commit_page) call"
  read_policy :: "string \<Rightarrow> ('w, string option) call"
  git_stream :: "string \<Rightarrow> string \<Rightarrow> int \<Rightarrow> ('w, commit_item list) call"

subsection \<open>Steps\<close>

record 'w import_state =
  sv_db :: import_db
  sv_log :: "import_db list"
  sv_cur :: cursor
  sv_world :: 'w

type_synonym ('w, 'a) istep = "'w import_state \<Rightarrow> (import_error + 'a) \<times> 'w import_state"

definition fine :: "'a \<Rightarrow> ('w, 'a) istep" where
  "fine x s = (Inr x, s)"

definition stop :: "import_error \<Rightarrow> ('w, 'a) istep" where
  "stop e s = (Inl e, s)"

definition chain :: "('w, 'a) istep \<Rightarrow> ('a \<Rightarrow> ('w, 'b) istep) \<Rightarrow> ('w, 'b) istep" where
  "chain m f s = (case m s of (Inl e, s') \<Rightarrow> (Inl e, s') | (Inr x, s') \<Rightarrow> f x s')"

definition try_ask :: "('w, 'a) call \<Rightarrow> ('w, string + 'a) istep" where
  "try_ask f s = (case f (sv_world s) of (r, w) \<Rightarrow> (Inr r, s\<lparr>sv_world := w\<rparr>))"

definition ask :: "('w, 'a) call \<Rightarrow> ('w, 'a) istep" where
  "ask f = chain (try_ask f) (\<lambda>r. case r of Inl m \<Rightarrow> stop (Client m) | Inr x \<Rightarrow> fine x)"

definition amend :: "(import_db \<Rightarrow> import_db) \<Rightarrow> ('w, unit) istep" where
  "amend f s = (Inr (), s\<lparr>sv_db := f (sv_db s)\<rparr>)"

definition turn :: "(cursor \<Rightarrow> cursor) \<Rightarrow> ('w, unit) istep" where
  "turn f s = (Inr (), s\<lparr>sv_cur := f (sv_cur s)\<rparr>)"

definition save :: "('w, unit) istep" where
  "save s = (Inr (), s\<lparr>sv_log := sv_db s # sv_log s\<rparr>)"

definition seen_by :: "('w import_state \<Rightarrow> ('w, 'a) istep) \<Rightarrow> ('w, 'a) istep" where
  "seen_by f s = f s s"

text \<open>The row of the job's repository.\<close>

definition with_repo :: "int \<Rightarrow> (job_row \<Rightarrow> repo_row \<Rightarrow> ('w, 'a) istep) \<Rightarrow> ('w, 'a) istep" where
  "with_repo jid f = seen_by (\<lambda>s.
     case find_job (sv_db s) jid of
       None \<Rightarrow> stop NoJob
     | Some j \<Rightarrow> (case find_repo (sv_db s) (ij_repo j) of None \<Rightarrow> stop NoRepo | Some r \<Rightarrow> f j r))"

subsection \<open>Writing the job\<close>

definition fraction :: "import_config \<Rightarrow> int \<Rightarrow> cursor \<Rightarrow> int \<times> int" where
  "fraction cfg tot c =
     (if cr_phase c = ''poll'' then (cr_polls c, max 1 (ic_poll_attempts cfg))
      else if cr_phase c = ''mirror_issues'' then (if tot \<noteq> 0 then (cr_issues_seen c, tot) else (0, 1))
      else if cr_phase c = ''index_commits'' then (cr_commits_seen c, if tot \<noteq> 0 then tot else max 1 (ic_max_commits cfg))
      else (0, 1))"

definition mirrored :: "import_lib \<Rightarrow> import_config \<Rightarrow> cursor \<Rightarrow> int option \<Rightarrow> int option \<Rightarrow> job_row \<Rightarrow> job_row" where
  "mirrored lib cfg c tot dn j =
     j\<lparr>ij_phase := cr_phase c, ij_progress := phase_progress lib (cr_phase c) (fraction cfg (ij_total j) c),
       ij_cursor := to_json c, ij_partial := cr_partial c, ij_status := ''running'',
       ij_total := (case tot of None \<Rightarrow> ij_total j | Some t \<Rightarrow> t), ij_done := (case dn of None \<Rightarrow> ij_done j | Some d \<Rightarrow> d)\<rparr>"

definition mirror_state :: "import_lib \<Rightarrow> import_config \<Rightarrow> int \<Rightarrow> int option \<Rightarrow> int option \<Rightarrow> ('w, unit) istep" where
  "mirror_state lib cfg jid tot dn = seen_by (\<lambda>s.
     chain (amend (set_job jid (mirrored lib cfg (sv_cur s) tot dn))) (\<lambda>_. save))"

subsection \<open>Upserts\<close>

definition item_key :: "issue_item \<Rightarrow> string" where
  "item_key x = py_strip (or_str (it_source x) (if it_number x = 0 then [] else str_of_int (it_number x)))"

definition issue_of :: "int \<Rightarrow> issue_item \<Rightarrow> issue_row" where
  "issue_of repo x = \<lparr>is_repo = repo, is_number = it_number x, is_pr = it_pr x, is_title = it_title x, is_body = it_body x,
     is_state = or_str (it_state x) ''open'', is_author = it_author x, is_labels = it_labels x, is_milestone = it_milestone x,
     is_url = it_url x, is_source = or_str (item_key x) (str_of_int (it_number x))\<rparr>"

definition has_source :: "int \<Rightarrow> string \<Rightarrow> issue_row \<Rightarrow> bool" where
  "has_source repo key r \<longleftrightarrow> is_repo r = repo \<and> is_source r = key"

definition has_number :: "int \<Rightarrow> int \<Rightarrow> issue_row \<Rightarrow> bool" where
  "has_number repo n r \<longleftrightarrow> is_repo r = repo \<and> is_number r = n"

text \<open>The row an item updates: the one of its source id, else the one of its number; two rows of a number are an error.\<close>

definition issue_target :: "int \<Rightarrow> issue_item \<Rightarrow> issue_row list \<Rightarrow> import_error + (issue_row \<Rightarrow> bool) option" where
  "issue_target repo x rows =
     (if item_key x \<noteq> [] \<and> list_ex (has_source repo (item_key x)) rows then Inr (Some (has_source repo (item_key x)))
      else if it_number x = 0 \<or> count_where (has_number repo (it_number x)) rows = 0 then Inr None
      else if count_where (has_number repo (it_number x)) rows = 1 then Inr (Some (has_number repo (it_number x)))
      else Inl Ambiguous)"

definition upsert_issue :: "int \<Rightarrow> issue_item \<Rightarrow> issue_row list \<Rightarrow> import_error + issue_row list" where
  "upsert_issue repo x rows =
     and_then (issue_target repo x rows) (\<lambda>t.
       if is_state (issue_of repo x) \<notin> set ISSUE_STATES then Inl FlushFailed
       else Inr (case t of None \<Rightarrow> rows @ [issue_of repo x] | Some p \<Rightarrow> map (\<lambda>r. if p r then issue_of repo x else r) rows))"

text \<open>The rows an upsert leaves, also where it stops: those before the error are in the session, a refused flush rolls back.\<close>

fun upsert_rows :: "int \<Rightarrow> issue_item list \<Rightarrow> issue_row list \<Rightarrow> import_error option \<times> issue_row list" where
  "upsert_rows repo [] rows = (None, rows)"
| "upsert_rows repo (x # xs) rows =
     (case upsert_issue repo x rows of Inl e \<Rightarrow> (Some e, rows) | Inr rows' \<Rightarrow> upsert_rows repo xs rows')"

definition rolled_back :: "'w import_state \<Rightarrow> 'w import_state" where
  "rolled_back s = s\<lparr>sv_db := hd (sv_log s)\<rparr>"

definition upsert_issues :: "int \<Rightarrow> issue_item list \<Rightarrow> ('w, int) istep" where
  "upsert_issues repo xs s =
     (case upsert_rows repo xs (im_issues (sv_db s)) of
        (Some FlushFailed, rows) \<Rightarrow> (Inl FlushFailed, rolled_back s)
      | (Some e, rows) \<Rightarrow> (Inl e, s\<lparr>sv_db := (sv_db s)\<lparr>im_issues := rows\<rparr>\<rparr>)
      | (None, rows) \<Rightarrow> chain (amend (\<lambda>db. db\<lparr>im_issues := rows\<rparr>)) (\<lambda>_. chain save (\<lambda>_. fine (int (length xs)))) s)"

definition commit_of :: "int \<Rightarrow> commit_item \<Rightarrow> commit_row" where
  "commit_of repo x = \<lparr>cm_repo = repo, cm_sha = py_strip (ct_sha x), cm_author = ct_author x, cm_message = ct_message x\<rparr>"

definition same_commit :: "commit_row \<Rightarrow> commit_row \<Rightarrow> bool" where
  "same_commit a b \<longleftrightarrow> cm_repo a = cm_repo b \<and> cm_sha a = cm_sha b"

definition upsert_commit :: "int \<Rightarrow> commit_item \<Rightarrow> commit_row list \<Rightarrow> commit_row list" where
  "upsert_commit repo x rows =
     (let new = commit_of repo x
      in if cm_sha new = [] then rows
         else if list_ex (same_commit new) rows then map (\<lambda>r. if same_commit new r then new else r) rows
         else rows @ [new])"

definition upsert_commits :: "int \<Rightarrow> commit_item list \<Rightarrow> ('w, int) istep" where
  "upsert_commits repo xs =
     chain (amend (\<lambda>db. db\<lparr>im_commits := fold (upsert_commit repo) xs (im_commits db)\<rparr>)) (\<lambda>_.
     chain save (\<lambda>_. fine (int (length (filter (\<lambda>x. py_strip (ct_sha x) \<noteq> []) xs)))))"

subsection \<open>The phases\<close>

definition put_extra :: "string \<Rightarrow> json \<Rightarrow> cursor \<Rightarrow> cursor" where
  "put_extra k v c = c\<lparr>cr_extras := put k v (cr_extras c)\<rparr>"

text \<open>\<open>bool(extras.get(k, default))\<close> and \<open>str(extras.get(k) or fallback or "")\<close>.\<close>

definition flag_of :: "string \<Rightarrow> bool \<Rightarrow> cursor \<Rightarrow> bool" where
  "flag_of k d c = (case map_of (cr_extras c) k of None \<Rightarrow> d | Some v \<Rightarrow> truthy v)"

definition extra_str :: "import_lib \<Rightarrow> string \<Rightarrow> string \<Rightarrow> cursor \<Rightarrow> string" where
  "extra_str lib k fallback c = (let v = jget (cr_extras c) k in if truthy v then py_str (il_str lib) v else fallback)"

definition parsed_source :: "import_lib \<Rightarrow> string \<Rightarrow> ('w, repo_source) istep" where
  "parsed_source lib url = (case parse_source (il_ip6 lib) url of Inl e \<Rightarrow> stop (SourceUrl e) | Inr s \<Rightarrow> fine s)"

definition step_validate :: "import_lib \<Rightarrow> 'w import_client \<Rightarrow> int \<Rightarrow> ('w, bool) istep" where
  "step_validate lib cl jid = with_repo jid (\<lambda>j r.
     chain (parsed_source lib (opt_str (rp_url r))) (\<lambda>source.
     chain (try_ask (probe_source cl source)) (\<lambda>answer.
     let p = (case answer of Inl m \<Rightarrow> \<lparr>pb_reachable = False, pb_detail = m\<rparr> | Inr p \<Rightarrow> p) in
     chain (amend (set_repo (rp_id r) (point_at source))) (\<lambda>_.
     chain (turn (\<lambda>c. (put_extra ''probe_detail'' (JStr (pb_detail p))
        (put_extra ''probe_reachable'' (JBool (pb_reachable p))
        (put_extra ''source_kind'' (JStr (rs_kind source))
        (put_extra ''source_url'' (JStr (web_url source)) c))))\<lparr>cr_phase := ''migrate''\<rparr>)) (\<lambda>_.
     fine True)))))"

text \<open>What a mode asks for. The job row has no \<open>include_prs\<close>, so that its default, true, is read.\<close>

definition wants_issues :: "job_row \<Rightarrow> bool" where
  "wants_issues j \<longleftrightarrow> or_str (ij_mode j) ''code+issues'' \<in> {''code+issues'', ''issues''}"

definition doc_name :: "import_lib \<Rightarrow> string \<Rightarrow> string \<Rightarrow> jobject \<Rightarrow> string" where
  "doc_name lib owner name document =
     (if truthy (jget document ''full_name'') then py_str (il_str lib) (jget document ''full_name'')
      else owner @ ''/'' @ (if truthy (jget document ''name'') then py_str (il_str lib) (jget document ''name'') else name))"

definition forgejo_repo_of :: "import_lib \<Rightarrow> import_config \<Rightarrow> 'w import_client \<Rightarrow> repo_row \<Rightarrow> repo_source \<Rightarrow> bool \<Rightarrow> ('w, string) istep" where
  "forgejo_repo_of lib cfg cl r source issues =
     (if opt_str (rp_forgejo r) \<noteq> [] then fine (opt_str (rp_forgejo r))
      else chain (ask (trigger_migration cl source (ic_owner cfg) (forgejo_name source) issues issues (or_str (rp_kind r) ''upstream'' = ''upstream''))) (\<lambda>document.
        let name = doc_name lib (ic_owner cfg) (forgejo_name source) document in
        chain (amend (set_repo (rp_id r) (\<lambda>r. r\<lparr>rp_forgejo := Some name\<rparr>))) (\<lambda>_. fine name)))"

definition sync_state :: "string \<Rightarrow> repo_row \<Rightarrow> ('w, unit) istep" where
  "sync_state st r = amend (set_repo (rp_id r) (\<lambda>r. r\<lparr>rp_sync := st\<rparr>))"

definition step_migrate :: "import_lib \<Rightarrow> import_config \<Rightarrow> 'w import_client \<Rightarrow> int \<Rightarrow> ('w, bool) istep" where
  "step_migrate lib cfg cl jid = with_repo jid (\<lambda>j r. seen_by (\<lambda>s.
     chain (parsed_source lib (or_str (opt_str (rp_url r)) (extra_str lib ''source_url'' [] (sv_cur s)))) (\<lambda>source.
     chain (sync_state ''cloning'' r) (\<lambda>_.
     chain (forgejo_repo_of lib cfg cl r source (wants_issues j)) (\<lambda>name.
     chain (turn (\<lambda>c. put_extra ''include_prs'' (JBool (wants_issues j)) (put_extra ''include_issues'' (JBool (wants_issues j))
        (put_extra ''forgejo_repo'' (JStr name) c)))) (\<lambda>_.
     chain (mirror_state lib cfg jid None None) (\<lambda>_.
     chain (turn (\<lambda>c. c\<lparr>cr_phase := ''poll''\<rparr>)) (\<lambda>_.
     fine True))))))))"

definition step_poll :: "import_lib \<Rightarrow> import_config \<Rightarrow> 'w import_client \<Rightarrow> int \<Rightarrow> ('w, bool) istep" where
  "step_poll lib cfg cl jid = seen_by (\<lambda>s.
     let name = extra_str lib ''forgejo_repo'' [] (sv_cur s) in
     if name = [] then stop NoForgejoRepo
     else chain (turn (\<lambda>c. c\<lparr>cr_polls := cr_polls c + 1\<rparr>)) (\<lambda>_. seen_by (\<lambda>s.
       if cr_polls (sv_cur s) > ic_poll_attempts cfg then stop (PollsUsedUp name)
       else chain (ask (migration_state cl name)) (\<lambda>state.
         chain (mirror_state lib cfg jid None None) (\<lambda>_.
         if migration_finished cl state then chain (turn (\<lambda>c. c\<lparr>cr_phase := ''mirror_issues''\<rparr>)) (\<lambda>_. fine True)
         else fine False)))))"

text \<open>\<open>issues_stored\<close>, by default the number seen; arithmetic on anything but a number raises.\<close>

definition stored_of :: "cursor \<Rightarrow> ('w, int) istep" where
  "stored_of c = (case map_of (cr_extras c) ''issues_stored'' of
     None \<Rightarrow> fine (cr_issues_seen c) | Some (JInt i) \<Rightarrow> fine i | Some (JBool b) \<Rightarrow> fine (of_bool b) | _ \<Rightarrow> stop NotANumber)"

definition max_number :: "int \<Rightarrow> issue_item list \<Rightarrow> int" where
  "max_number n xs = foldl max n (map it_number xs)"

definition consume_page :: "bool \<Rightarrow> issue_page \<Rightarrow> issue_item list \<Rightarrow> int \<Rightarrow> cursor \<Rightarrow> cursor" where
  "consume_page truncated pg included stored c =
     (let rows = int (length (pg_items pg));
          consumed = (if truncated then rows else case pg_next pg of None \<Rightarrow> 0 | Some n \<Rightarrow> n)
      in put_extra ''issues_stored'' (JInt stored)
           (c\<lparr>cr_issues_seen := max (cr_issues_seen c) (if consumed = 0 then rows else consumed),
              cr_issue := max_number (cr_issue c) included\<rparr>))"

definition mirror_page :: "import_lib \<Rightarrow> import_config \<Rightarrow> int \<Rightarrow> int \<Rightarrow> issue_page \<Rightarrow> ('w, bool) istep" where
  "mirror_page lib cfg jid repo pg = seen_by (\<lambda>s.
     chain (stored_of (sv_cur s)) (\<lambda>stored.
     let included = filter (\<lambda>x. flag_of ''include_prs'' True (sv_cur s) \<or> \<not> it_pr x) (pg_items pg);
         room = max 0 (ic_max_issues cfg - stored);
         truncated = room < int (length included);
         taken = (if truncated then take (nat room) included else included)
     in
     chain (if truncated then turn (\<lambda>c. c\<lparr>cr_partial := True\<rparr>) else fine ()) (\<lambda>_.
     chain (if taken \<noteq> [] then upsert_issues repo taken else fine 0) (\<lambda>written.
     chain (turn (consume_page truncated pg taken (stored + written))) (\<lambda>_. seen_by (\<lambda>s.
     chain (mirror_state lib cfg jid (if cr_partial (sv_cur s) then Some (ic_max_issues cfg) else None) (Some (stored + written))) (\<lambda>_.
     chain (if truncated \<or> pg_next pg = None then turn (\<lambda>c. c\<lparr>cr_phase := ''index_commits''\<rparr>) else fine ()) (\<lambda>_.
     fine True))))))))"

definition step_mirror_issues :: "import_lib \<Rightarrow> import_config \<Rightarrow> 'w import_client \<Rightarrow> int \<Rightarrow> ('w, bool) istep" where
  "step_mirror_issues lib cfg cl jid = seen_by (\<lambda>s.
     if \<not> flag_of ''include_issues'' True (sv_cur s) then chain (turn (\<lambda>c. c\<lparr>cr_phase := ''index_commits''\<rparr>)) (\<lambda>_. fine True)
     else with_repo jid (\<lambda>j r.
       let name = extra_str lib ''forgejo_repo'' (opt_str (rp_forgejo r)) (sv_cur s) in
       if name = [] then stop NoForgejoRepo
       else chain (sync_state ''issues'' r) (\<lambda>_.
         chain (ask (stream_issues cl name (cr_issue (sv_cur s)) (cr_issues_seen (sv_cur s)) (ic_page_size cfg))) (\<lambda>pg.
         mirror_page lib cfg jid (rp_id r) pg))))"

subsection \<open>Commits and the policy\<close>

definition cached_policy :: "policy_defaults \<Rightarrow> repo_row \<Rightarrow> repo_row" where
  "cached_policy p r = r\<lparr>rp_auto := Some (pd_auto p), rp_curator := Some (pd_curator p), rp_interval := Some (pd_interval p)\<rparr>"

definition cleared_policy :: "repo_row \<Rightarrow> repo_row" where
  "cleared_policy r = r\<lparr>rp_auto := None, rp_curator := None, rp_interval := None\<rparr>"

text \<open>Only a workspace's own policy is read; whatever goes wrong with it leaves the built-in defaults.\<close>

definition refresh_repo_policy :: "import_lib \<Rightarrow> 'w import_client \<Rightarrow> repo_row \<Rightarrow> string \<Rightarrow> ('w, unit) istep" where
  "refresh_repo_policy lib cl r name =
     (if or_str (rp_kind r) ''upstream'' \<noteq> ''workspace'' then amend (set_repo (rp_id r) cleared_policy)
      else chain (try_ask (read_policy cl name)) (\<lambda>answer.
        let body = (case answer of Inl m \<Rightarrow> [] | Inr t \<Rightarrow> opt_str t);
            p = (if py_strip body = [] then il_builtin lib else case il_policy lib body of None \<Rightarrow> il_builtin lib | Some p \<Rightarrow> p)
        in amend (set_repo (rp_id r) (cached_policy p))))"

text \<open>The rows of a page, or, once in a job, those of the read-only copy when the page has none.\<close>

definition commit_rows :: "import_lib \<Rightarrow> import_config \<Rightarrow> 'w import_client \<Rightarrow> string \<Rightarrow> string \<Rightarrow> int
    \<Rightarrow> ('w, bool \<times> bool \<times> commit_item list) istep" where
  "commit_rows lib cfg cl name branch room = seen_by (\<lambda>s.
     chain (try_ask (stream_commits cl name branch (max 1 (cr_page (sv_cur s))) (ic_page_size cfg))) (\<lambda>answer.
     let rows = (case answer of Inl m \<Rightarrow> [] | Inr pg \<Rightarrow> cp_items pg);
         again = (case answer of Inl m \<Rightarrow> False | Inr pg \<Rightarrow> cp_more pg)
     in if rows = [] \<and> jget (cr_extras (sv_cur s)) ''commit_source'' \<noteq> JStr ''git''
        then chain (turn (put_extra ''commit_source'' (JStr ''git''))) (\<lambda>_.
             chain (try_ask (git_stream cl name branch (room + 1))) (\<lambda>answer.
             case answer of Inl m \<Rightarrow> stop (NoHistory m) | Inr rows \<Rightarrow> fine (True, again, rows)))
        else fine (False, again, rows)))"

definition index_page :: "import_lib \<Rightarrow> import_config \<Rightarrow> int \<Rightarrow> int \<Rightarrow> int \<Rightarrow> bool \<times> bool \<times> commit_item list \<Rightarrow> ('w, bool) istep" where
  "index_page lib cfg jid repo room answer =
     (case answer of (fell_back, again, rows) \<Rightarrow>
      let truncated = room < int (length rows);
          taken = (if truncated then take (nat room) rows else rows)
      in
      chain (if truncated then turn (\<lambda>c. c\<lparr>cr_partial := True\<rparr>) else fine ()) (\<lambda>_.
      chain (if taken \<noteq> [] then upsert_commits repo taken else fine 0) (\<lambda>written.
      chain (turn (\<lambda>c. c\<lparr>cr_commits_seen := cr_commits_seen c + written, cr_page := max 1 (cr_page c) + 1\<rparr>)) (\<lambda>_. seen_by (\<lambda>s.
      let over = (\<not> again \<or> truncated \<or> fell_back \<or> cr_commits_seen (sv_cur s) \<ge> ic_max_commits cfg) in
      chain (if over \<and> again \<and> \<not> truncated then turn (\<lambda>c. c\<lparr>cr_partial := True\<rparr>) else fine ()) (\<lambda>_.
      chain (if over then chain (amend (set_repo repo (\<lambda>r. r\<lparr>rp_commits := cr_commits_seen (sv_cur s)\<rparr>)))
                               (\<lambda>_. turn (\<lambda>c. c\<lparr>cr_phase := ''done''\<rparr>)) else fine ()) (\<lambda>_.
      chain (mirror_state lib cfg jid None (Some (cr_commits_seen (sv_cur s)))) (\<lambda>_.
      fine True))))))))"

definition read_policy_once :: "import_lib \<Rightarrow> 'w import_client \<Rightarrow> repo_row \<Rightarrow> string \<Rightarrow> ('w, unit) istep" where
  "read_policy_once lib cl r name = seen_by (\<lambda>s.
     if name \<noteq> [] \<and> \<not> truthy (jget (cr_extras (sv_cur s)) ''policy_read'')
     then chain (refresh_repo_policy lib cl r name) (\<lambda>_. turn (put_extra ''policy_read'' (JBool True)))
     else fine ())"

definition step_index_commits :: "import_lib \<Rightarrow> import_config \<Rightarrow> 'w import_client \<Rightarrow> int \<Rightarrow> ('w, bool) istep" where
  "step_index_commits lib cfg cl jid = with_repo jid (\<lambda>j r.
     chain (sync_state ''indexing'' r) (\<lambda>_. seen_by (\<lambda>s.
     let name = extra_str lib ''forgejo_repo'' (opt_str (rp_forgejo r)) (sv_cur s);
         room = max 0 (ic_max_commits cfg - cr_commits_seen (sv_cur s))
     in chain (read_policy_once lib cl r name) (\<lambda>_.
        chain (commit_rows lib cfg cl name (or_str (rp_branch r) DEFAULT_BRANCH) room) (\<lambda>answer.
        index_page lib cfg jid (rp_id r) room answer)))))"

subsection \<open>A run\<close>

definition step_of :: "import_lib \<Rightarrow> import_config \<Rightarrow> 'w import_client \<Rightarrow> int \<Rightarrow> string \<Rightarrow> ('w, bool) istep" where
  "step_of lib cfg cl jid phase =
     (if phase = ''validate'' then step_validate lib cl jid
      else if phase = ''migrate'' then step_migrate lib cfg cl jid
      else if phase = ''poll'' then step_poll lib cfg cl jid
      else if phase = ''mirror_issues'' then step_mirror_issues lib cfg cl jid
      else if phase = ''index_commits'' then step_index_commits lib cfg cl jid
      else stop (UnknownPhase phase))"

text \<open>A step and the \<open>_write\<close> after it.\<close>

definition advance_once :: "import_lib \<Rightarrow> import_config \<Rightarrow> 'w import_client \<Rightarrow> int \<Rightarrow> ('w, bool) istep" where
  "advance_once lib cfg cl jid = seen_by (\<lambda>s.
     chain (step_of lib cfg cl jid (cr_phase (sv_cur s))) (\<lambda>moved. chain (mirror_state lib cfg jid None None) (\<lambda>_. fine moved)))"

datatype loop_end = Finished | Paused | Broke import_error

definition idle_budget :: "import_config \<Rightarrow> nat" where
  "idle_budget cfg = nat (max 1 (ic_poll_attempts cfg))"

text \<open>
  The loop of \<open>run\<close>. A step that moved counts against \<open>limit\<close> and resets the idle count; one that waited counts as idle only.
  It ends because every turn uses up one of the two.
\<close>

function import_loop :: "import_lib \<Rightarrow> import_config \<Rightarrow> 'w import_client \<Rightarrow> int \<Rightarrow> nat \<Rightarrow> nat \<Rightarrow> nat \<Rightarrow> 'w import_state
    \<Rightarrow> (loop_end \<times> nat) \<times> 'w import_state" where
  "import_loop lib cfg cl jid limit steps idles s =
     (if limit \<le> steps then ((Paused, steps), s)
      else if cr_phase (sv_cur s) = ''done'' then ((Finished, steps), s)
      else case advance_once lib cfg cl jid s of
        (Inl e, s') \<Rightarrow> ((Broke e, steps), s')
      | (Inr moved, s') \<Rightarrow>
          let steps' = (if moved then steps + 1 else steps); idles' = (if moved then 0 else idles + 1)
          in if cr_phase (sv_cur s') = ''done'' then ((Finished, steps'), s')
             else if idle_budget cfg \<le> idles' then ((Paused, steps'), s')
             else import_loop lib cfg cl jid limit steps' idles' s')"
  by pat_completeness auto

termination
  by (relation "measures [\<lambda>(lib, cfg, cl, jid, limit, steps, idles, s). limit - steps,
    \<lambda>(lib, cfg, cl, jid, limit, steps, idles, s). idle_budget cfg - idles]") (auto split: if_splits)

declare import_loop.simps [simp del]

record import_outcome =
  io_status :: string
  io_phase :: string
  io_progress :: int
  io_issues :: int
  io_commits :: int
  io_partial :: bool
  io_error :: "import_error option"
  io_steps :: nat

definition row_count :: "int \<Rightarrow> ('r \<Rightarrow> int) \<Rightarrow> 'r list \<Rightarrow> int" where
  "row_count repo f rows = int (count_where (\<lambda>r. f r = repo) rows)"

text \<open>\<open>_finish\<close>: the error of an earlier run stays on the row.\<close>

definition finish :: "import_lib \<Rightarrow> int \<Rightarrow> nat \<Rightarrow> ('w, import_outcome) istep" where
  "finish lib jid steps = with_repo jid (\<lambda>j r. seen_by (\<lambda>s.
     let c = sv_cur s; db = sv_db s in
     case (case map_of (cr_extras c) ''issues_stored'' of None \<Rightarrow> Some (cr_issues_seen c) | Some v \<Rightarrow> int_or_zero lib v) of
       None \<Rightarrow> stop NotANumber
     | Some stored \<Rightarrow>
         chain (turn (\<lambda>c. c\<lparr>cr_phase := ''done''\<rparr>)) (\<lambda>_. seen_by (\<lambda>s.
         chain (amend (set_repo (rp_id r) (\<lambda>r. r\<lparr>rp_sync := ''ready'', rp_issues := row_count (rp_id r) is_repo (im_issues db),
            rp_commits := row_count (rp_id r) cm_repo (im_commits db)\<rparr>))) (\<lambda>_.
         chain (amend (set_job jid (\<lambda>j. j\<lparr>ij_phase := ''done'', ij_progress := 100, ij_status := ''done'', ij_done := stored,
            ij_cursor := to_json (sv_cur s), ij_partial := cr_partial c, ij_finished := True\<rparr>))) (\<lambda>_.
         chain save (\<lambda>_.
         fine \<lparr>io_status = (if cr_partial c then ''partial'' else ''done''), io_phase = ''done'', io_progress = 100, io_issues = stored,
               io_commits = cr_commits_seen c, io_partial = cr_partial c, io_error = ij_error j, io_steps = steps\<rparr>)))))))"

definition failed_row :: "import_lib \<Rightarrow> cursor \<Rightarrow> import_error \<Rightarrow> job_row \<Rightarrow> job_row" where
  "failed_row lib c e j =
     j\<lparr>ij_status := ''failed'', ij_error := Some e,
       ij_progress := (if ij_progress j \<noteq> 0 then ij_progress j else phase_progress lib (cr_phase c) (0, 1)),
       ij_cursor := to_json c, ij_partial := cr_partial c, ij_finished := True\<rparr>"

definition job_of :: "int \<Rightarrow> 'w import_state \<Rightarrow> job_row option" where
  "job_of jid s = find_job (sv_db s) jid"

definition progress_of :: "int \<Rightarrow> 'w import_state \<Rightarrow> int" where
  "progress_of jid s = (case job_of jid s of None \<Rightarrow> 0 | Some j \<Rightarrow> ij_progress j)"

definition slice_outcome :: "int \<Rightarrow> string \<Rightarrow> import_error option \<Rightarrow> nat \<Rightarrow> ('w, import_outcome) istep" where
  "slice_outcome jid status e steps s =
     (Inr \<lparr>io_status = status, io_phase = cr_phase (sv_cur s), io_progress = progress_of jid s, io_issues = cr_issues_seen (sv_cur s),
           io_commits = cr_commits_seen (sv_cur s), io_partial = cr_partial (sv_cur s), io_error = e, io_steps = steps\<rparr>, s)"

text \<open>
  \<open>_fail\<close>. It reads the job first, so after a refused flush, when the session demands a rollback nobody has asked for, it raises
  itself and nothing is written.
\<close>

definition fail_job :: "import_lib \<Rightarrow> int \<Rightarrow> nat \<Rightarrow> import_error \<Rightarrow> ('w, import_outcome) istep" where
  "fail_job lib jid steps e =
     (if e = FlushFailed then stop e
      else seen_by (\<lambda>s.
        chain (case job_of jid s of None \<Rightarrow> fine () | Some j \<Rightarrow> amend (set_repo (ij_repo j) (\<lambda>r. r\<lparr>rp_sync := ''error''\<rparr>))) (\<lambda>_.
        chain (amend (set_job jid (failed_row lib (sv_cur s) e))) (\<lambda>_.
        chain save (\<lambda>_. slice_outcome jid ''failed'' (Some e) steps)))))"

definition close_run :: "import_lib \<Rightarrow> int \<Rightarrow> loop_end \<times> nat \<Rightarrow> ('w, import_outcome) istep" where
  "close_run lib jid result =
     (case result of
        (Paused, steps) \<Rightarrow> slice_outcome jid ''running'' None steps
      | (Broke e, steps) \<Rightarrow> fail_job lib jid steps e
      | (Finished, steps) \<Rightarrow> (\<lambda>s. case finish lib jid steps s of (Inr out, s') \<Rightarrow> (Inr out, s') | (Inl e, s') \<Rightarrow> fail_job lib jid steps e s'))"

text \<open>The session a worker opens on the tables.\<close>

definition open_session :: "import_db \<Rightarrow> 'w \<Rightarrow> 'w import_state" where
  "open_session db w = \<lparr>sv_db = db, sv_log = [db], sv_cur = fresh_cursor ''validate'', sv_world = w\<rparr>"

definition begin_run :: "job_row \<Rightarrow> cursor \<Rightarrow> ('w, unit) istep" where
  "begin_run j c =
     chain (turn (\<lambda>_. c\<lparr>cr_partial := (cr_partial c \<or> ij_partial j)\<rparr>)) (\<lambda>_.
     chain (amend (set_job (ij_id j) (\<lambda>j. j\<lparr>ij_status := ''running'', ij_started := True\<rparr>))) (\<lambda>_. save))"

text \<open>\<open>run_job_id\<close> and \<open>run\<close>: a cursor that cannot be read raises outside the \<open>try\<close>.\<close>

definition run_import :: "import_lib \<Rightarrow> import_config \<Rightarrow> 'w import_client \<Rightarrow> int \<Rightarrow> nat \<Rightarrow> ('w, import_outcome) istep" where
  "run_import lib cfg cl jid limit s =
     (case find_job (sv_db s) jid of
        None \<Rightarrow> (Inl NoJob, s)
      | Some j \<Rightarrow> (case from_json lib (or_str (ij_phase j) ''validate'') (ij_cursor j) of
          None \<Rightarrow> (Inl NotANumber, s)
        | Some c \<Rightarrow> (let s1 = snd (begin_run j c s); (result, s2) = import_loop lib cfg cl jid limit 0 0 s1
                     in close_run lib jid result s2)))"

end
