(* ===== verification/ForgejoClient.thy ===== *)
theory ForgejoClient
  imports RepoImport Boundaries
begin

section \<open>The Forgejo client and the commit reader\<close>

text \<open>
  \<open>ForgejoClient\<close> and \<open>GitCommitReader\<close> of \<open>services/repo_import.py\<close>. One HTTP exchange and one run of git are arguments on the
  world; what is written out is the retrying, the shape of the requests, the reading of the answers, and the paging. Pauses and
  the texts of errors are not kept.
\<close>

subsection \<open>Requests\<close>

datatype answer = NoAnswer | Answer int "json option"

record 'w transport =
  exchange :: "string \<Rightarrow> string \<Rightarrow> (string \<times> string) list \<Rightarrow> jobject \<Rightarrow> json \<Rightarrow> 'w \<Rightarrow> answer \<times> 'w"
  base_url :: string
  admin_token :: string
  source_token :: string

definition RETRY_STATUSES :: "int list" where "RETRY_STATUSES = [429, 500, 502, 503, 504]"
definition ATTEMPTS :: nat where "ATTEMPTS = 4"

definition api_headers :: "'w transport \<Rightarrow> string list + (string \<times> string) list" where
  "api_headers t = checked_headers None ([(''Accept'', ''application/json''), (''User-Agent'', ''openfish-agent-hub/1'')]
     @ (let token = py_strip (admin_token t) in if token \<noteq> [] then [(''Authorization'', ''token '' @ token)] else []))"

definition api_url :: "'w transport \<Rightarrow> string \<Rightarrow> string" where
  "api_url t path = base_url t @ ''/api/v1/'' @ lstrip_char CHR ''/'' path"

text \<open>The attempts of one call: an answer that is not worth a retry ends it.\<close>

fun attempt :: "('w \<Rightarrow> answer \<times> 'w) \<Rightarrow> nat \<Rightarrow> ('w, int \<times> json option) call" where
  "attempt send 0 w = (Inl ''no usable answer'', w)"
| "attempt send (Suc n) w =
     (case send w of
        (Answer st v, w') \<Rightarrow> if st \<in> set RETRY_STATUSES then attempt send n w' else (Inr (st, v), w')
      | (NoAnswer, w') \<Rightarrow> attempt send n w')"

definition request :: "'w transport \<Rightarrow> string \<Rightarrow> string \<Rightarrow> jobject \<Rightarrow> json \<Rightarrow> ('w, int \<times> json option) call" where
  "request t verb path params content w =
     (if base_url t = [] then (Inl ''not configured'', w)
      else case api_headers t of
        Inl names \<Rightarrow> (Inl ''unsafe header'', w)
      | Inr headers \<Rightarrow> attempt (exchange t verb (api_url t path) headers params content) ATTEMPTS w)"

definition map_call :: "('a \<Rightarrow> string + 'b) \<Rightarrow> ('w, 'a) call \<Rightarrow> ('w, 'b) call" where
  "map_call f c w = (case c w of (r, w') \<Rightarrow> (and_then r f, w'))"

definition json_of :: "int \<times> json option \<Rightarrow> string + json" where
  "json_of a = (if fst a = 404 then Inl ''not found'' else if fst a \<ge> 400 then Inl ''refused''
     else case snd a of None \<Rightarrow> Inl ''not json'' | Some v \<Rightarrow> Inr v)"

definition get_json :: "'w transport \<Rightarrow> string \<Rightarrow> string \<Rightarrow> jobject \<Rightarrow> json \<Rightarrow> ('w, json) call" where
  "get_json t verb path params content = map_call json_of (request t verb path params content)"

definition object_or_empty :: "json \<Rightarrow> string + jobject" where
  "object_or_empty v = Inr (case v of JObj d \<Rightarrow> d | _ \<Rightarrow> [])"

text \<open>\<open>quote(s, safe="/")\<close>.\<close>

definition percent_path :: "string \<Rightarrow> string" where
  "percent_path s = concat (map (\<lambda>c. if c = CHR ''/'' then [c] else quote_char c) s)"

subsection \<open>Migration, files and pull requests\<close>

definition migration_body :: "repo_source \<Rightarrow> string \<Rightarrow> string \<Rightarrow> bool \<Rightarrow> bool \<Rightarrow> bool \<Rightarrow> json" where
  "migration_body source owner name issues prs mirror = JObj
     [(''clone_addr'', JStr (rs_clone source)), (''repo_name'', JStr name), (''repo_owner'', JStr owner), (''service'', JStr (rs_kind source)),
      (''mirror'', JBool mirror), (''private'', JBool False), (''description'', JStr (''openfish import of '' @ slug source)),
      (''issues'', JBool issues), (''labels'', JBool True), (''milestones'', JBool True), (''pull_requests'', JBool prs),
      (''wiki'', JBool False), (''releases'', JBool False)]"

definition forgejo_migrate :: "'w transport \<Rightarrow> repo_source \<Rightarrow> string \<Rightarrow> string \<Rightarrow> bool \<Rightarrow> bool \<Rightarrow> bool \<Rightarrow> ('w, jobject) call" where
  "forgejo_migrate t source owner name issues prs mirror =
     map_call object_or_empty (get_json t ''POST'' ''repos/migrate'' [] (migration_body source owner name issues prs mirror))"

definition forgejo_state :: "'w transport \<Rightarrow> string \<Rightarrow> ('w, jobject) call" where
  "forgejo_state t name = map_call object_or_empty (get_json t ''GET'' (''repos/'' @ percent_path name) [] JNull)"

definition has_settled :: "(json \<Rightarrow> string) \<Rightarrow> jobject \<Rightarrow> bool" where
  "has_settled cs d =
     (if map_of d ''migrating'' \<noteq> None then \<not> truthy (jget d ''migrating'')
      else if map_of d ''is_migrating'' \<noteq> None then \<not> truthy (jget d ''is_migrating'')
      else let st = (if truthy (jget d ''migration_status'') then py_lower (py_str cs (jget d ''migration_status'')) else [])
        in if st \<noteq> [] then st \<in> {''finished'', ''done'', ''success'', ''idle''}
           else truthy (jget d ''full_name'') \<or> truthy (jget d ''name''))"

text \<open>\<open>read_file\<close>; \<open>b64\<close> is base64 with UTF-8. Only the client's own errors count as an absent file.\<close>

definition repo_slug_of :: "string \<Rightarrow> string" where
  "repo_slug_of name = strip_char CHR ''/'' (py_strip name)"

definition file_text :: "(string \<Rightarrow> string option) \<Rightarrow> json \<Rightarrow> string option" where
  "file_text b64 v = (case v of JObj d \<Rightarrow> (case jget d ''content'' of JStr s \<Rightarrow> if py_strip s = [] then None else b64 s | _ \<Rightarrow> None) | _ \<Rightarrow> None)"

definition read_forgejo_file :: "'w transport \<Rightarrow> (string \<Rightarrow> string option) \<Rightarrow> string \<Rightarrow> string \<Rightarrow> ('w, string option) call" where
  "read_forgejo_file t b64 name path w =
     (let slug = repo_slug_of name
      in if slug = [] \<or> CHR ''/'' \<notin> set slug \<or> path = [] then (Inr None, w)
         else case get_json t ''GET'' (''repos/'' @ slug @ ''/contents/'' @ join ''/'' (map percent (filter (\<lambda>p. p \<noteq> []) (split_on CHR ''/'' path)))) [] JNull w of
           (Inl m, w') \<Rightarrow> (Inr None, w')
         | (Inr v, w') \<Rightarrow> (Inr (file_text b64 v), w'))"

definition pull_request_url :: "(json \<Rightarrow> string) \<Rightarrow> json \<Rightarrow> string + string" where
  "pull_request_url cs v =
     (case v of
        JObj d \<Rightarrow> (let u = (if truthy (jget d ''html_url'') then jget d ''html_url'' else jget d ''url'');
                     text = (if truthy u then py_strip (py_str cs u) else [])
                 in if text = [] then Inl ''no url'' else Inr text)
      | _ \<Rightarrow> Inl ''no object'')"

definition create_pull_request :: "'w transport \<Rightarrow> (json \<Rightarrow> string) \<Rightarrow> string \<Rightarrow> string \<Rightarrow> string \<Rightarrow> string \<Rightarrow> string \<Rightarrow> ('w, string) call" where
  "create_pull_request t cs name head_branch base_branch title content w =
     (let slug = repo_slug_of name
      in if slug = [] \<or> CHR ''/'' \<notin> set slug then (Inl ''no repository name'', w)
         else map_call (pull_request_url cs) (get_json t ''POST'' (''repos/'' @ slug @ ''/pulls'') []
            (JObj [(''head'', JStr head_branch), (''base'', JStr base_branch), (''title'', JStr title), (''body'', JStr content)])) w)"

subsection \<open>Issues\<close>

text \<open>The labels of a row as a list of JSON values; iterating a number raises.\<close>

definition iterate :: "json \<Rightarrow> json list option" where
  "iterate v = (if \<not> truthy v then Some []
     else case v of JList vs \<Rightarrow> Some vs | JStr s \<Rightarrow> Some (map (\<lambda>c. JStr [c]) s) | JObj d \<Rightarrow> Some (map (\<lambda>e. JStr (fst e)) d) | _ \<Rightarrow> None)"

definition label_name :: "(json \<Rightarrow> string) \<Rightarrow> json \<Rightarrow> string list" where
  "label_name cs v = (case v of JStr s \<Rightarrow> [s] | JObj d \<Rightarrow> if truthy (jget d ''name'') then [py_str cs (jget d ''name'')] else [] | _ \<Rightarrow> [])"

definition first_true :: "jobject \<Rightarrow> string list \<Rightarrow> json" where
  "first_true d ks = (case find (\<lambda>k. truthy (jget d k)) ks of None \<Rightarrow> JNull | Some k \<Rightarrow> jget d k)"

definition text_of :: "(json \<Rightarrow> string) \<Rightarrow> json \<Rightarrow> string" where
  "text_of cs v = (if truthy v then py_str cs v else [])"

definition milestone_of :: "(json \<Rightarrow> string) \<Rightarrow> json \<Rightarrow> string option" where
  "milestone_of cs v = (let n = (case v of JObj d \<Rightarrow> first_true d [''title'', ''name''] | JStr s \<Rightarrow> v | _ \<Rightarrow> JNull)
     in if truthy n then Some (py_str cs n) else None)"

definition author_of :: "(json \<Rightarrow> string) \<Rightarrow> jobject \<Rightarrow> string" where
  "author_of cs row = (case jget row ''user'' of JObj d \<Rightarrow> text_of cs (first_true d [''login'', ''username'']) | _ \<Rightarrow> text_of cs (jget row ''author''))"

definition normalize_issue :: "import_lib \<Rightarrow> jobject \<Rightarrow> issue_item option" where
  "normalize_issue lib row =
     (case (iterate (jget row ''labels''), int_or_zero lib (jget row ''number'')) of
        (Some labels, Some number) \<Rightarrow> Some
          \<lparr>it_number = number, it_pr = (truthy (jget row ''pull_request'') \<or> truthy (jget row ''is_pull_request'')),
           it_title = text_of (il_str lib) (jget row ''title''), it_body = text_of (il_str lib) (jget row ''body''),
           it_state = or_str (text_of (il_str lib) (jget row ''state'')) ''open'', it_author = author_of (il_str lib) row,
           it_labels = concat (map (label_name (il_str lib)) labels), it_milestone = milestone_of (il_str lib) (jget row ''milestone''),
           it_url = (if truthy (jget row ''html_url'') then jget row ''html_url'' else jget row ''url''),
           it_source = text_or (il_str lib) (jget row ''id'') (str_of_int number)\<rparr>
      | _ \<Rightarrow> None)"

definition rows_of :: "json \<Rightarrow> json list" where
  "rows_of v = (case v of JList vs \<Rightarrow> vs | _ \<Rightarrow> [])"

definition objects_in :: "json list \<Rightarrow> jobject list" where
  "objects_in vs = concat (map (\<lambda>v. case v of JObj d \<Rightarrow> [d] | _ \<Rightarrow> []) vs)"

definition page_size :: "int \<Rightarrow> int" where
  "page_size n = max 1 (min n 100)"

text \<open>The page that starts at \<open>offset\<close>: a partial first page drops what is stored already, and so does the number after it.\<close>

definition issue_page_of :: "import_lib \<Rightarrow> int \<Rightarrow> int \<Rightarrow> int \<Rightarrow> json \<Rightarrow> string + issue_page" where
  "issue_page_of lib after offset per v =
     (let items = map (normalize_issue lib) (objects_in (rows_of v))
      in if None \<in> set items then Inl ''unreadable issue''
         else let fresh = drop (nat (offset mod per)) (map the items);
                  new = (if after \<noteq> 0 then filter (\<lambda>x. it_number x > after) fresh else fresh)
           in Inr \<lparr>pg_items = new, pg_next = (if int (length (rows_of v)) \<ge> per then Some (offset + int (length new)) else None)\<rparr>)"

definition issue_params :: "int \<Rightarrow> int \<Rightarrow> jobject" where
  "issue_params page per = [(''state'', JStr ''all''), (''type'', JStr ''all''), (''sort'', JStr ''created''), (''direction'', JStr ''asc''),
     (''page'', JInt page), (''per_page'', JInt per)]"

text \<open>After each page the repository is asked for its counters; that answer only goes into a total nobody reads here.\<close>

definition forgejo_issues :: "import_lib \<Rightarrow> 'w transport \<Rightarrow> string \<Rightarrow> int \<Rightarrow> int \<Rightarrow> int \<Rightarrow> ('w, issue_page) call" where
  "forgejo_issues lib t name after offset per_page w =
     (let per = page_size per_page
      in case map_call (issue_page_of lib after offset per)
             (get_json t ''GET'' (''repos/'' @ percent_path name @ ''/issues'') (issue_params (max 0 offset div per + 1) per) JNull) w of
           (Inl m, w') \<Rightarrow> (Inl m, w')
         | (Inr pg, w') \<Rightarrow> (Inr pg, snd (forgejo_state t name w')))"

subsection \<open>Commits\<close>

definition object_at :: "jobject \<Rightarrow> string \<Rightarrow> jobject" where
  "object_at d k = (case jget d k of JObj e \<Rightarrow> e | _ \<Rightarrow> [])"

definition either :: "json \<Rightarrow> json \<Rightarrow> json" where
  "either a b = (if truthy a then a else b)"

definition normalize_commit :: "import_lib \<Rightarrow> jobject \<Rightarrow> commit_item" where
  "normalize_commit lib row =
     (let inner = object_at row ''commit''; author = object_at row ''author''; by_git = object_at inner ''author''
      in \<lparr>ct_sha = text_of (il_str lib) (either (jget row ''sha'') (either (jget inner ''id'')
             (case jget row ''commit'' of JStr s \<Rightarrow> JStr s | _ \<Rightarrow> JStr []))),
          ct_author = text_of (il_str lib) (either (first_true author [''login'', ''username'']) (jget by_git ''name'')),
          ct_message = text_of (il_str lib) (either (jget inner ''message'') (jget row ''message''))\<rparr>)"

definition commit_page_of :: "import_lib \<Rightarrow> int \<Rightarrow> json \<Rightarrow> string + commit_page" where
  "commit_page_of lib per v = Inr \<lparr>cp_items = map (normalize_commit lib) (objects_in (rows_of v)), cp_more = (int (length (rows_of v)) \<ge> per)\<rparr>"

definition commit_params :: "string \<Rightarrow> int \<Rightarrow> int \<Rightarrow> jobject" where
  "commit_params branch page per = [(''sha'', JStr (or_str branch ''main'')), (''page'', JInt (max 1 page)), (''per_page'', JInt per), (''stat'', JStr ''false'')]"

definition forgejo_commits :: "import_lib \<Rightarrow> 'w transport \<Rightarrow> string \<Rightarrow> string \<Rightarrow> int \<Rightarrow> int \<Rightarrow> ('w, commit_page) call" where
  "forgejo_commits lib t name branch page per_page =
     (let per = page_size per_page
      in map_call (commit_page_of lib per) (get_json t ''GET'' (''repos/'' @ percent_path name @ ''/commits'') (commit_params branch page per) JNull))"

subsection \<open>Probing the source\<close>

definition probe_answer :: "(json \<Rightarrow> string) \<Rightarrow> answer \<Rightarrow> string + probe" where
  "probe_answer cs a =
     (case a of
        NoAnswer \<Rightarrow> Inr \<lparr>pb_reachable = False, pb_detail = ''no answer''\<rparr>
      | Answer st v \<Rightarrow>
          if st \<ge> 400 then Inr \<lparr>pb_reachable = False, pb_detail = ''HTTP '' @ str_of_int st\<rparr>
          else (case v of
              None \<Rightarrow> Inr \<lparr>pb_reachable = True, pb_detail = ''non-JSON probe''\<rparr>
            | Some (JObj d) \<Rightarrow> Inr \<lparr>pb_reachable = True, pb_detail = text_of cs (first_true d [''full_name'', ''path_with_namespace''])\<rparr>
            | Some _ \<Rightarrow> Inl ''no object''))"

definition forgejo_probe :: "'w transport \<Rightarrow> (json \<Rightarrow> string) \<Rightarrow> repo_source \<Rightarrow> ('w, probe) call" where
  "forgejo_probe t cs source w =
     (if probe_url source = [] then (Inr \<lparr>pb_reachable = True, pb_detail = ''bare git URL''\<rparr>, w)
      else case checked_headers None ([(''Accept'', ''application/json''), (''User-Agent'', ''openfish-agent-hub/1'')]
             @ (if source_token t \<noteq> [] \<and> rs_kind source \<noteq> ''git'' then [(''Authorization'', ''Bearer '' @ source_token t)] else [])) of
        Inl names \<Rightarrow> (Inl ''unsafe header'', w)
      | Inr headers \<Rightarrow> (case exchange t ''GET'' (probe_url source) headers [] JNull w of (a, w') \<Rightarrow> (probe_answer cs a, w')))"

subsection \<open>The read-only copy\<close>

text \<open>
  A run of git is given its arguments, the directory it starts in and what is added to the environment; it answers with what it
  printed or fails.
\<close>

record 'w git_reader =
  run_git :: "string list \<Rightarrow> string option \<Rightarrow> (string \<times> string) list \<Rightarrow> ('w, string) call"
  is_dir :: "string \<Rightarrow> 'w \<Rightarrow> bool"
  mirror_dir :: string
  git_base :: string
  helper_args :: "string list"

definition mirror_path :: "string \<Rightarrow> string \<Rightarrow> string" where
  "mirror_path dir name =
     (let segments = filter (\<lambda>p. p \<notin> {[], ''.'', ''..''}) (split_on CHR ''/'' name)
      in (if dir \<noteq> [] then dir else ''data/forgejo-mirror'') @ ''/'' @ or_str (join ''/'' (map percent segments)) ''_'' @ ''.git'')"

definition git_call :: "'w transport \<Rightarrow> 'w git_reader \<Rightarrow> string list \<Rightarrow> string option \<Rightarrow> (string \<times> string) list \<Rightarrow> ('w, string) call" where
  "git_call t g args cwd env = run_git g ((if py_strip (admin_token t) \<noteq> [] then helper_args g else []) @ args) cwd env"

text \<open>\<open>_git_env\<close>; \<open>host_of\<close> is \<open>git_host_of\<close>.\<close>

definition credential_env :: "'w transport \<Rightarrow> 'w git_reader \<Rightarrow> (string \<Rightarrow> string) \<Rightarrow> (string \<times> string) list" where
  "credential_env t g host_of = (''GIT_TERMINAL_PROMPT'', ''0'')
     # git_env (py_strip (admin_token t)) (host_of (rstrip_char CHR ''/'' (or_str (git_base g) (base_url t))))"

definition fetch_mirror :: "'w transport \<Rightarrow> 'w git_reader \<Rightarrow> (string \<Rightarrow> string) \<Rightarrow> string \<Rightarrow> ('w, string) call" where
  "fetch_mirror t g host_of dest w =
     (case git_call t g [''fetch'', ''--prune'', ''--filter=blob:none'', ''--unshallow'', ''origin''] (Some dest) (credential_env t g host_of) w of
        (Inl m, w') \<Rightarrow> git_call t g [''fetch'', ''--prune'', ''--filter=blob:none'', ''origin''] (Some dest) (credential_env t g host_of) w'
      | (Inr out, w') \<Rightarrow> (Inr out, w'))"

definition ensure_mirror :: "'w transport \<Rightarrow> 'w git_reader \<Rightarrow> (string \<Rightarrow> string) \<Rightarrow> string \<Rightarrow> bool \<Rightarrow> ('w, string) call" where
  "ensure_mirror t g host_of name refresh w =
     (let dest = mirror_path (mirror_dir g) name
      in if is_dir g dest w then (if refresh then map_call (\<lambda>_. Inr dest) (fetch_mirror t g host_of dest) w else (Inr dest, w))
         else map_call (\<lambda>_. Inr dest) (git_call t g [''clone'', ''--bare'', ''--filter=blob:none'', ''--no-tags'',
           rstrip_char CHR ''/'' (or_str (git_base g) (base_url t)) @ ''/'' @ name @ ''.git'', dest] None (credential_env t g host_of)) w)"

definition GIT_SEP :: char where "GIT_SEP = CHR 0x1F"
definition GIT_FORMAT :: string where "GIT_FORMAT = ''%H'' @ [GIT_SEP] @ ''%an'' @ [GIT_SEP] @ ''%aI'' @ [GIT_SEP] @ ''%s''"

text \<open>A line of the log: hash, author, date and subject.\<close>

definition commit_line :: "string \<Rightarrow> commit_item" where
  "commit_line l =
     (let rest = after_char GIT_SEP l; dated = after_char GIT_SEP rest
      in \<lparr>ct_sha = before_char GIT_SEP l, ct_author = before_char GIT_SEP rest, ct_message = after_char GIT_SEP dated\<rparr>)"

definition parse_log :: "string \<Rightarrow> commit_item list" where
  "parse_log raw = map commit_line (filter (\<lambda>l. py_strip l \<noteq> []) (splitlines raw))"

text \<open>A stale branch name falls back to \<open>HEAD\<close>.\<close>

definition log_args :: "string \<Rightarrow> int \<Rightarrow> string list" where
  "log_args ref limit = [''log'', ''--max-count='' @ str_of_int (max 1 limit), ''--format='' @ GIT_FORMAT, ref]"

definition log_stream :: "'w transport \<Rightarrow> 'w git_reader \<Rightarrow> (string \<Rightarrow> string) \<Rightarrow> string \<Rightarrow> string \<Rightarrow> int \<Rightarrow> ('w, commit_item list) call" where
  "log_stream t g host_of name branch limit w =
     (case ensure_mirror t g host_of name False w of
        (Inl m, w') \<Rightarrow> (Inl m, w')
      | (Inr dest, w') \<Rightarrow>
          (case git_call t g (log_args (or_str branch ''HEAD'') limit) (Some dest) [] w' of
             (Inr out, w'') \<Rightarrow> (Inr (parse_log out), w'')
           | (Inl m, w'') \<Rightarrow> if or_str branch ''HEAD'' = ''HEAD'' then (Inl m, w'')
               else map_call (\<lambda>out. Inr (parse_log out)) (git_call t g (log_args ''HEAD'' limit) (Some dest) []) w''))"

subsection \<open>The client of the service\<close>

definition POLICY_FILE :: string where "POLICY_FILE = ''.agent/review-policy.yml''"

definition forgejo_client :: "import_lib \<Rightarrow> (string \<Rightarrow> string option) \<Rightarrow> (string \<Rightarrow> string) \<Rightarrow> 'w transport \<Rightarrow> 'w git_reader \<Rightarrow> 'w import_client" where
  "forgejo_client lib b64 host_of t g =
     \<lparr>probe_source = forgejo_probe t (il_str lib), trigger_migration = forgejo_migrate t, migration_state = forgejo_state t,
      migration_finished = has_settled (il_str lib), stream_issues = forgejo_issues lib t, stream_commits = forgejo_commits lib t,
      read_policy = (\<lambda>name. read_forgejo_file t b64 name POLICY_FILE), git_stream = log_stream t g host_of\<rparr>"

end
