(* ===== verification/RepoImportInv.thy ===== *)
theory RepoImportInv
  imports ForgejoClient
begin

section \<open>What an import keeps true at every commit\<close>

text \<open>
  The cursor comes back from its column; an upsert keeps every other row; and the invariant of an import over a fixed list of
  rows in Forgejo, which holds of the tables at every commit, so that a worker may die at any of them.
\<close>

subsection \<open>The cursor in its column\<close>

definition extras_ok :: "jobject \<Rightarrow> bool" where
  "extras_ok d \<longleftrightarrow> distinct (map fst d) \<and> list_all (\<lambda>e. fst e \<notin> set CURSOR_KEYS) d"

lemma put_new: "k \<notin> fst ` set d \<Longrightarrow> put k v d = d @ [(k, v)]"
  unfolding put_def by (induction d) auto

lemma fold_put_append:
  "distinct (map fst e) \<Longrightarrow> fst ` set e \<inter> fst ` set d = {} \<Longrightarrow> fold (\<lambda>(k, v). put k v) e d = d @ e"
proof (induction e arbitrary: d)
  case (Cons kv e)
  obtain k v where kv: "kv = (k, v)" by (cases kv)
  have "put k v d = d @ [(k, v)]" using Cons.prems kv by (intro put_new) auto
  moreover have "fst ` set e \<inter> fst ` set (d @ [(k, v)]) = {}" using Cons.prems kv by auto
  ultimately show ?case using Cons.IH [of "d @ [(k, v)]"] Cons.prems kv by simp
qed simp

lemma cursor_keys: "map fst (cursor_fields c) = CURSOR_KEYS"
  by (simp add: cursor_fields_def CURSOR_KEYS_def)

lemma payload_append:
  assumes "extras_ok (cr_extras c)"
  shows "payload c = cursor_fields c @ cr_extras c"
proof -
  have "fst ` set (cursor_fields c) = set CURSOR_KEYS" using cursor_keys [of c] by (metis set_map)
  then have "fst ` set (cr_extras c) \<inter> fst ` set (cursor_fields c) = {}" using assms by (auto simp: extras_ok_def list_all_iff)
  then show ?thesis unfolding payload_def using assms by (intro fold_put_append) (simp_all add: extras_ok_def)
qed

lemma jget_fields:
  "jget (cursor_fields c @ d) ''v'' = JInt CURSOR_VERSION" "jget (cursor_fields c @ d) ''phase'' = JStr (cr_phase c)"
  "jget (cursor_fields c @ d) ''issue_number'' = JInt (cr_issue c)" "jget (cursor_fields c @ d) ''commit_page'' = JInt (cr_page c)"
  "jget (cursor_fields c @ d) ''issues_seen'' = JInt (cr_issues_seen c)" "jget (cursor_fields c @ d) ''commits_seen'' = JInt (cr_commits_seen c)"
  "jget (cursor_fields c @ d) ''partial'' = JBool (cr_partial c)" "jget (cursor_fields c @ d) ''migrate_polls'' = JInt (cr_polls c)"
  by (simp_all add: jget_def cursor_fields_def)

lemma filter_extras:
  assumes "extras_ok d"
  shows "filter (\<lambda>(k, v). k \<notin> set CURSOR_KEYS) (cursor_fields c @ d) = d"
proof -
  have "fst ` set (cursor_fields c) = set CURSOR_KEYS" using cursor_keys [of c] by (metis set_map)
  then have "filter (\<lambda>(k, v). k \<notin> set CURSOR_KEYS) (cursor_fields c) = []"
    unfolding filter_empty_conv by (metis (no_types, lifting) case_prodE fst_conv image_eqI)
  moreover have "filter (\<lambda>(k, v). k \<notin> set CURSOR_KEYS) d = d" using assms by (intro filter_True) (auto simp: extras_ok_def list_all_iff)
  ultimately show ?thesis by simp
qed

lemma int_or_zero_int [simp]: "int_or_zero lib (JInt i) = Some i"
  by (simp add: int_or_zero_def)

lemma phases_nonempty: "p \<in> set JOB_PHASES \<Longrightarrow> p \<noteq> []"
  by (auto simp: JOB_PHASES_def)

lemma from_to_json:
  assumes "cr_phase c \<in> set JOB_PHASES" and "extras_ok (cr_extras c)"
  shows "from_json lib phase (to_json c) = Some c"
proof -
  have "read_cursor lib phase (cursor_fields c @ cr_extras c) = Some c"
    using assms(1) phases_nonempty [OF assms(1)]
    by (simp add: read_cursor_def jget_fields filter_extras [OF assms(2)] Let_def del: filter_append)
  then show ?thesis by (simp add: from_json_def to_json_def payload_append [OF assms(2)] jget_fields)
qed

lemma extras_ok_put: "extras_ok d \<Longrightarrow> k \<notin> set CURSOR_KEYS \<Longrightarrow> extras_ok (put k v d)"
proof -
  assume d: "extras_ok d" and k: "k \<notin> set CURSOR_KEYS"
  have "fst ` set (AList.update k v d) = insert k (fst ` set d)"
    using dom_update [of k v d] by (auto simp: dom_map_of_conv_image_fst)
  then have "fst e \<in> insert k (fst ` set d)" if "e \<in> set (AList.update k v d)" for e using that by auto
  moreover have "fst ` set d \<inter> set CURSOR_KEYS = {}" using d by (auto simp: extras_ok_def list_all_iff)
  ultimately have "fst e \<notin> set CURSOR_KEYS" if "e \<in> set (AList.update k v d)" for e using that k by blast
  moreover have "distinct (map fst (AList.update k v d))" using d by (simp add: extras_ok_def distinct_update)
  ultimately show ?thesis unfolding extras_ok_def put_def list_all_iff by blast
qed

lemma map_of_put: "map_of (put k v d) k' = (if k' = k then Some v else map_of d k')"
  by (simp add: put_def update_conv)

subsection \<open>Upserts\<close>

text \<open>The rows Forgejo lists: by growing number, all positive, each with a key of its own and a state the table takes.\<close>

definition listing_ok :: "issue_item list \<Rightarrow> bool" where
  "listing_ok src \<longleftrightarrow> sorted_wrt (<) (map it_number src) \<and> list_all (\<lambda>x. 0 < it_number x \<and> item_key x \<noteq> []) src \<and> distinct (map item_key src)"

lemma listing_number_inj:
  assumes "listing_ok src" and "x \<in> set src" and "y \<in> set src" and "it_number x = it_number y"
  shows "x = y"
proof -
  have "distinct (map it_number src)" using assms(1) by (simp add: listing_ok_def strict_sorted_iff)
  then show ?thesis using assms(2-4) by (simp add: distinct_map inj_on_def)
qed

lemma listing_key_inj:
  assumes "listing_ok src" and "x \<in> set src" and "y \<in> set src" and "item_key x = item_key y"
  shows "x = y"
  using assms by (auto simp: listing_ok_def distinct_map inj_on_def)

lemma is_source_key: "listing_ok src \<Longrightarrow> x \<in> set src \<Longrightarrow> is_source (issue_of repo x) = item_key x"
  by (auto simp: listing_ok_def list_all_iff issue_of_def or_str_def)

lemma issue_target_hits:
  assumes "issue_target repo x rows = Inr (Some p)"
  shows "(p = has_source repo (item_key x) \<or> p = has_number repo (it_number x)) \<and> (\<exists>r \<in> set rows. p r)"
  using assms unfolding issue_target_def
  by (auto simp: list_ex_iff count_where_zero split: if_splits)

lemma upsert_issue_stores:
  assumes "upsert_issue repo x rows = Inr rows'"
  shows "issue_of repo x \<in> set rows'"
  using assms issue_target_hits [of repo x rows] unfolding upsert_issue_def and_then_Inr
  by (auto split: if_splits option.splits)

lemma upsert_issue_keeps:
  assumes "upsert_issue repo x rows = Inr rows'" and "listing_ok src" and "x \<in> set src" and "y \<in> set src"
    and "issue_of repo y \<in> set rows"
  shows "issue_of repo y \<in> set rows'"
proof (cases "x = y")
  case True
  then show ?thesis using upsert_issue_stores [OF assms(1)] by simp
next
  case False
  from assms(1) obtain t where t: "issue_target repo x rows = Inr t"
      "rows' = (case t of None \<Rightarrow> rows @ [issue_of repo x] | Some p \<Rightarrow> map (\<lambda>r. if p r then issue_of repo x else r) rows)"
    unfolding upsert_issue_def and_then_Inr by (auto split: if_splits)
  show ?thesis
  proof (cases t)
    case None
    then show ?thesis using t assms(5) by simp
  next
    case (Some p)
    have "\<not> has_source repo (item_key x) (issue_of repo y)"
      using False listing_key_inj [OF assms(2-4)] is_source_key [OF assms(2,4)] by (auto simp: has_source_def)
    moreover have "\<not> has_number repo (it_number x) (issue_of repo y)"
      using False listing_number_inj [OF assms(2-4)] by (auto simp: has_number_def issue_of_def)
    ultimately have "\<not> p (issue_of repo y)" using issue_target_hits [of repo x rows p] t Some by auto
    then show ?thesis using t Some assms(5) by (auto intro!: image_eqI [of _ _ "issue_of repo y"])
  qed
qed

text \<open>A stopped upsert has kept what was there; a finished one has stored its rows as well.\<close>

lemma upsert_rows_keeps:
  assumes "upsert_rows repo xs rows = (e, rows')" and "listing_ok src" and "set xs \<subseteq> set src"
  shows "(\<forall>y \<in> set src. issue_of repo y \<in> set rows \<longrightarrow> issue_of repo y \<in> set rows')
    \<and> (e = None \<longrightarrow> (\<forall>x \<in> set xs. issue_of repo x \<in> set rows'))"
  using assms(1,3)
proof (induction repo xs rows rule: upsert_rows.induct)
  case (2 repo x xs rows)
  show ?case
  proof (cases "upsert_issue repo x rows")
    case (Inl e)
    then show ?thesis using 2 by auto
  next
    case (Inr mid)
    have keep: "issue_of repo y \<in> set mid" if "y \<in> set src" "issue_of repo y \<in> set rows" for y
      using upsert_issue_keeps [OF Inr assms(2) _ that(1,2)] 2(3) by auto
    have "issue_of repo x \<in> set mid" using upsert_issue_stores [OF Inr] .
    then show ?thesis using 2(1) [OF Inr] 2(2,3) Inr keep by auto
  qed
qed auto

subsection \<open>The invariant of an import\<close>

text \<open>What an import is for: the rows Forgejo lists, whether pull requests were asked for, the repository and the job.\<close>

record import_goal =
  gl_src :: "issue_item list"
  gl_prs :: bool
  gl_repo :: int
  gl_job :: int

definition asked :: "import_goal \<Rightarrow> issue_item \<Rightarrow> bool" where
  "asked g x \<longleftrightarrow> gl_prs g \<or> \<not> it_pr x"

definition holds_all :: "import_goal \<Rightarrow> issue_row list \<Rightarrow> issue_item list \<Rightarrow> bool" where
  "holds_all g rows xs \<longleftrightarrow> (\<forall>x \<in> set xs. asked g x \<longrightarrow> issue_of (gl_repo g) x \<in> set rows)"

text \<open>Up to some row, at or past the offset, all is stored, and the number the cursor holds is below every later one.\<close>

definition mirrored_to :: "import_goal \<Rightarrow> issue_row list \<Rightarrow> cursor \<Rightarrow> bool" where
  "mirrored_to g rows c \<longleftrightarrow> (\<exists>m p. cr_issues_seen c = int m \<and> m \<le> p \<and> holds_all g rows (take p (gl_src g))
     \<and> (\<forall>x \<in> set (drop p (gl_src g)). cr_issue c < it_number x))"

definition untouched :: "cursor \<Rightarrow> bool" where
  "untouched c \<longleftrightarrow> cr_issues_seen c = 0 \<and> cr_issue c = 0"

definition flags_ok :: "import_goal \<Rightarrow> cursor \<Rightarrow> bool" where
  "flags_ok g c \<longleftrightarrow> flag_of ''include_issues'' True c \<and> (gl_prs g \<longrightarrow> flag_of ''include_prs'' True c)"

text \<open>Where the cursor stands: before the mirroring, at a page of it, or after it.\<close>

definition cursor_ok :: "import_goal \<Rightarrow> issue_row list \<Rightarrow> cursor \<Rightarrow> bool" where
  "cursor_ok g rows c \<longleftrightarrow> extras_ok (cr_extras c) \<and> cr_phase c \<in> set JOB_PHASES \<and> 0 \<le> cr_issues_seen c \<and>
     (if cr_phase c \<in> {''validate'', ''migrate''} then untouched c
      else flags_ok g c \<and>
        (if cr_phase c = ''poll'' then untouched c
         else cr_partial c \<or> (if cr_phase c = ''mirror_issues'' then mirrored_to g rows c else holds_all g rows (gl_src g))))"

definition job_ok :: "import_goal \<Rightarrow> import_db \<Rightarrow> bool" where
  "job_ok g db \<longleftrightarrow> (\<exists>j c. find_job db (gl_job g) = Some j \<and> ij_repo j = gl_repo g \<and> wants_issues j \<and> ij_cursor j = to_json c
     \<and> ij_partial j = cr_partial c \<and> cursor_ok g (im_issues db) c)"

definition logged :: "import_goal \<Rightarrow> 'w import_state \<Rightarrow> bool" where
  "logged g s \<longleftrightarrow> job_ok g (sv_db s) \<and> sv_log s \<noteq> [] \<and> (\<forall>db \<in> set (sv_log s). job_ok g db)"

definition live :: "import_goal \<Rightarrow> 'w import_state \<Rightarrow> bool" where
  "live g s \<longleftrightarrow> logged g s \<and> cursor_ok g (im_issues (sv_db s)) (sv_cur s)"

text \<open>A step is sound where it keeps that, also when it stops, and gives \<open>P\<close> when it does not.\<close>

definition sound :: "import_goal \<Rightarrow> ('a \<Rightarrow> 'w import_state \<Rightarrow> bool) \<Rightarrow> ('w, 'a) istep \<Rightarrow> 'w import_state \<Rightarrow> bool" where
  "sound g P m s \<longleftrightarrow> (case m s of (Inl e, s') \<Rightarrow> if e = FlushFailed then logged g s' else live g s' | (Inr x, s') \<Rightarrow> live g s' \<and> P x s')"

lemma sound_fine: "live g s \<Longrightarrow> P x s \<Longrightarrow> sound g P (fine x) s"
  by (simp add: sound_def fine_def)

lemma sound_stop: "live g s \<Longrightarrow> sound g P (stop e) s"
  by (simp add: sound_def stop_def live_def)

lemma sound_chain:
  assumes "sound g Q m s" and "\<And>x s'. live g s' \<Longrightarrow> Q x s' \<Longrightarrow> sound g P (f x) s'"
  shows "sound g P (chain m f) s"
proof (cases "m s")
  case (Pair r s')
  then show ?thesis using assms by (cases r) (auto simp: sound_def chain_def)
qed

lemma sound_seen: "sound g P (f s) s \<Longrightarrow> sound g P (seen_by f) s"
  by (simp add: sound_def seen_by_def)

lemma sound_weaken: "sound g Q m s \<Longrightarrow> (\<And>x s'. live g s' \<Longrightarrow> Q x s' \<Longrightarrow> P x s') \<Longrightarrow> sound g P m s"
  by (auto simp: sound_def split: prod.splits sum.splits if_splits)

definition same_view :: "'w import_state \<Rightarrow> 'w import_state \<Rightarrow> bool" where
  "same_view s s' \<longleftrightarrow> sv_cur s' = sv_cur s \<and> im_issues (sv_db s') = im_issues (sv_db s)"

lemma sound_try_ask:
  assumes "live g s"
  shows "sound g (\<lambda>r s'. same_view s s' \<and> (\<exists>w. r = fst (f w))) (try_ask f) s"
proof (cases "f (sv_world s)")
  case (Pair r w)
  then have "\<exists>w. r = fst (f w)" by (intro exI [of _ "sv_world s"]) simp
  then show ?thesis using assms Pair by (simp add: sound_def try_ask_def same_view_def live_def logged_def)
qed

lemma sound_ask:
  assumes "live g s"
  shows "sound g (\<lambda>x s'. same_view s s' \<and> (\<exists>w. fst (f w) = Inr x)) (ask f) s"
  unfolding ask_def
proof (rule sound_chain [OF sound_try_ask [OF assms]])
  fix r s'
  assume "live g s'" and "same_view s s' \<and> (\<exists>w. r = fst (f w))"
  then show "sound g (\<lambda>x s'. same_view s s' \<and> (\<exists>w. fst (f w) = Inr x)) (case r of Inl m \<Rightarrow> stop (Client m) | Inr x \<Rightarrow> fine x) s'"
    by (cases r) (auto intro!: sound_stop sound_fine simp: eq_commute)
qed

lemma job_ok_same: "im_jobs db' = im_jobs db \<Longrightarrow> im_issues db' = im_issues db \<Longrightarrow> job_ok g db \<Longrightarrow> job_ok g db'"
  by (simp add: job_ok_def find_job_def)

lemma sound_repo:
  assumes "live g s"
  shows "sound g (\<lambda>x. same_view s) (amend (set_repo i f)) s"
  using assms job_ok_same [of "set_repo i f (sv_db s)" "sv_db s" g]
  by (auto simp: sound_def amend_def same_view_def live_def logged_def set_repo_def)

lemma sound_turn:
  assumes "live g s" and "cursor_ok g (im_issues (sv_db s)) (f (sv_cur s))"
  shows "sound g (\<lambda>x s'. s' = s\<lparr>sv_cur := f (sv_cur s)\<rparr>) (turn f) s"
  using assms by (auto simp: sound_def turn_def live_def logged_def)

lemma find_job_set: "(\<And>j. ij_id (f j) = ij_id j) \<Longrightarrow> find_job (set_job i f db) i = map_option f (find_job db i)"
proof -
  assume f: "\<And>j. ij_id (f j) = ij_id j"
  have "find (\<lambda>j. ij_id j = i) (map (\<lambda>j. if ij_id j = i then f j else j) js) = map_option f (find (\<lambda>j. ij_id j = i) js)" for js
    by (induction js) (auto simp: f)
  then show ?thesis by (simp add: find_job_def set_job_def)
qed

lemma wants_issues_mode: "ij_mode j' = ij_mode j \<Longrightarrow> wants_issues j' = wants_issues j"
  by (simp add: wants_issues_def)

text \<open>A write that puts the cursor in memory on the row of the job.\<close>

lemma job_ok_write:
  assumes "job_ok g db" and "cursor_ok g (im_issues db) c"
    and "\<And>j. ij_id (f j) = ij_id j \<and> ij_repo (f j) = ij_repo j \<and> ij_mode (f j) = ij_mode j \<and> ij_cursor (f j) = to_json c \<and> ij_partial (f j) = cr_partial c"
  shows "job_ok g (set_job (gl_job g) f db)"
proof -
  obtain j where j: "find_job db (gl_job g) = Some j" "ij_repo j = gl_repo g" "wants_issues j" using assms(1) by (auto simp: job_ok_def)
  have "find_job (set_job (gl_job g) f db) (gl_job g) = Some (f j)" using find_job_set [of f] assms(3) j(1) by simp
  moreover have "im_issues (set_job (gl_job g) f db) = im_issues db" by (simp add: set_job_def)
  ultimately show ?thesis unfolding job_ok_def using j assms(2,3) wants_issues_mode [of "f j" j] by auto
qed

lemma sound_mirror:
  assumes "live g s"
  shows "sound g (\<lambda>x. same_view s) (mirror_state lib cfg (gl_job g) tot dn) s"
proof -
  let ?db = "set_job (gl_job g) (mirrored lib cfg (sv_cur s) tot dn) (sv_db s)"
  have "job_ok g ?db" using assms by (intro job_ok_write [where c = "sv_cur s"]) (auto simp: live_def logged_def mirrored_def)
  moreover have "im_issues ?db = im_issues (sv_db s)" by (simp add: set_job_def)
  ultimately show ?thesis using assms
    by (auto simp: sound_def mirror_state_def seen_by_def chain_def amend_def save_def same_view_def live_def logged_def)
qed

subsection \<open>One page of issues\<close>

text \<open>
  A page as Forgejo documents it: from the offset on, some rows in order, of which those up to the given number are left out;
  the last page reaches the end, any other says where the next begins.
\<close>

definition honest_page :: "issue_item list \<Rightarrow> int \<Rightarrow> int \<Rightarrow> issue_page \<Rightarrow> bool" where
  "honest_page src after offset pg \<longleftrightarrow>
     (\<exists>k. pg_items pg = filter (\<lambda>x. after = 0 \<or> after < it_number x) (take k (drop (nat offset) src))
        \<and> (case pg_next pg of None \<Rightarrow> length src \<le> nat offset + k | Some n \<Rightarrow> n = offset + int (length (pg_items pg))))"

definition honest_client :: "issue_item list \<Rightarrow> int \<Rightarrow> 'w import_client \<Rightarrow> bool" where
  "honest_client src per cl \<longleftrightarrow>
     (\<forall>name after offset w pg. 0 \<le> offset \<longrightarrow> fst (stream_issues cl name after offset per w) = Inr pg \<longrightarrow> honest_page src after offset pg)"

lemma max_number_less: "max_number n xs < b \<longleftrightarrow> n < b \<and> (\<forall>x \<in> set xs. it_number x < b)"
  unfolding max_number_def by (induction xs arbitrary: n) auto

lemma holds_all_mono:
  "holds_all g rows xs \<Longrightarrow> (\<And>x. x \<in> set xs \<Longrightarrow> issue_of (gl_repo g) x \<in> set rows \<Longrightarrow> issue_of (gl_repo g) x \<in> set rows') \<Longrightarrow> holds_all g rows' xs"
  by (auto simp: holds_all_def)

lemma take_drop_split:
  assumes "x \<in> set (take q xs)"
  shows "x \<in> set (take p xs) \<or> x \<in> set (drop p (take q xs))"
proof -
  have "x \<in> set (take p (take q xs)) \<or> x \<in> set (drop p (take q xs))"
    using assms by (metis Un_iff append_take_drop_id set_append)
  moreover have "take p (take q xs) = take q (take p xs)" by (simp add: min.commute)
  ultimately show ?thesis by (metis in_set_takeD)
qed

lemma page_advances:
  assumes src: "listing_ok (gl_src g)" and c: "mirrored_to g rows c" "flags_ok g c"
    and pg: "honest_page (gl_src g) (cr_issue c) (cr_issues_seen c) pg"
    and included: "included = filter (\<lambda>x. flag_of ''include_prs'' True c \<or> \<not> it_pr x) (pg_items pg)"
    and rows': "\<And>x. x \<in> set (gl_src g) \<Longrightarrow> issue_of (gl_repo g) x \<in> set rows \<Longrightarrow> issue_of (gl_repo g) x \<in> set rows'"
      "\<And>x. x \<in> set included \<Longrightarrow> issue_of (gl_repo g) x \<in> set rows'"
  shows "mirrored_to g rows' (consume_page False pg included st c)" and "pg_next pg = None \<Longrightarrow> holds_all g rows' (gl_src g)"
proof -
  obtain m p where m: "cr_issues_seen c = int m" "m \<le> p" "holds_all g rows (take p (gl_src g))"
      "\<forall>x \<in> set (drop p (gl_src g)). cr_issue c < it_number x"
    using c(1) by (auto simp: mirrored_to_def)
  obtain k where k: "pg_items pg = filter (\<lambda>x. cr_issue c = 0 \<or> cr_issue c < it_number x) (take k (drop m (gl_src g)))"
      "case pg_next pg of None \<Rightarrow> length (gl_src g) \<le> m + k | Some n \<Rightarrow> n = int m + int (length (pg_items pg))"
    using pg unfolding honest_page_def m(1) nat_int by (elim exE conjE)
  let ?p = "max p (m + k)"
  have stored: "issue_of (gl_repo g) x \<in> set rows'" if x: "x \<in> set (take ?p (gl_src g))" "asked g x" for x
  proof (cases "x \<in> set (take p (gl_src g))")
    case True
    then have "issue_of (gl_repo g) x \<in> set rows" using m(3) x(2) by (auto simp: holds_all_def)
    then show ?thesis using rows'(1) x(1) by (meson in_set_takeD)
  next
    case False
    then have "x \<in> set (take (m + k) (gl_src g))" using x(1) by (auto simp: max_def split: if_splits)
    then have late: "x \<in> set (drop p (take (m + k) (gl_src g)))" using take_drop_split [of x "m + k" "gl_src g" p] False by simp
    then have "x \<in> set (drop p (gl_src g))" by (metis drop_take in_set_takeD)
    then have "cr_issue c < it_number x" using m(4) by blast
    moreover have "x \<in> set (take k (drop m (gl_src g)))"
    proof -
      have "drop p (take (m + k) (gl_src g)) = drop (p - m) (drop m (take (m + k) (gl_src g)))" using m(2) by simp
      also have "drop m (take (m + k) (gl_src g)) = take k (drop m (gl_src g))" by (simp add: drop_take)
      finally show ?thesis using late by (metis in_set_dropD)
    qed
    ultimately have "x \<in> set (pg_items pg)" using k(1) by simp
    then have "x \<in> set included" using x(2) c(2) included by (auto simp: asked_def flags_ok_def)
    then show ?thesis by (rule rows'(2))
  qed
  then show "holds_all g rows' (gl_src g)" if "pg_next pg = None"
    using that k(2) by (auto simp: holds_all_def)
  have len: "length (pg_items pg) \<le> k" using k(1) by (metis length_filter_le length_take min.boundedE order_trans)
  have later: "cr_issue (consume_page False pg included st c) < it_number x" if "x \<in> set (drop ?p (gl_src g))" for x
  proof -
    have "x \<in> set (drop p (gl_src g))" "x \<in> set (drop (m + k) (gl_src g))"
      using that by (metis set_drop_subset_set_drop max.cobounded1 max.cobounded2 subsetD)+
    moreover have "it_number y < it_number x" if "y \<in> set included" for y
    proof -
      have "y \<in> set (take (m + k) (gl_src g))"
        using that unfolding included k(1) by (auto simp: take_drop add.commute dest: in_set_dropD)
      moreover have "sorted_wrt (<) (map it_number (take (m + k) (gl_src g) @ drop (m + k) (gl_src g)))"
        using src by (simp add: listing_ok_def)
      ultimately show ?thesis using \<open>x \<in> set (drop (m + k) (gl_src g))\<close> unfolding map_append sorted_wrt_append by auto
    qed
    ultimately show ?thesis using m(4) by (auto simp: consume_page_def put_extra_def Let_def max_number_less)
  qed
  have "\<exists>m'. cr_issues_seen (consume_page False pg included st c) = int m' \<and> m' \<le> ?p"
  proof (cases "pg_next pg")
    case None
    then have "cr_issues_seen (consume_page False pg included st c) = int (max m (length (pg_items pg)))"
      using m(1) by (simp add: consume_page_def put_extra_def Let_def)
    moreover have "max m (length (pg_items pg)) \<le> ?p" using m(2) len by auto
    ultimately show ?thesis by blast
  next
    case (Some n)
    then have "cr_issues_seen (consume_page False pg included st c) = int (m + length (pg_items pg))"
      using m(1) k(2) by (cases "pg_items pg") (auto simp: consume_page_def put_extra_def Let_def)
    moreover have "m + length (pg_items pg) \<le> ?p" using len by auto
    ultimately show ?thesis by blast
  qed
  then show "mirrored_to g rows' (consume_page False pg included st c)"
    unfolding mirrored_to_def holds_all_def using stored later by blast
qed

subsection \<open>Every step is sound\<close>

lemma cursor_ok_rows:
  assumes "cursor_ok g rows c" and "\<And>x. x \<in> set (gl_src g) \<Longrightarrow> issue_of (gl_repo g) x \<in> set rows \<Longrightarrow> issue_of (gl_repo g) x \<in> set rows'"
  shows "cursor_ok g rows' c"
proof -
  have "mirrored_to g rows' c" if "mirrored_to g rows c"
    using that assms(2) unfolding mirrored_to_def by (meson holds_all_mono in_set_takeD)
  moreover have "holds_all g rows' (gl_src g)" if "holds_all g rows (gl_src g)" using that assms(2) by (rule holds_all_mono)
  ultimately show ?thesis using assms(1) unfolding cursor_ok_def by (auto split: if_splits)
qed

lemma job_ok_rows:
  assumes "job_ok g db" and "\<And>x. x \<in> set (gl_src g) \<Longrightarrow> issue_of (gl_repo g) x \<in> set (im_issues db) \<Longrightarrow> issue_of (gl_repo g) x \<in> set rows'"
  shows "job_ok g (db\<lparr>im_issues := rows'\<rparr>)"
proof -
  obtain j c where j: "find_job db (gl_job g) = Some j" "ij_repo j = gl_repo g" "wants_issues j" "ij_cursor j = to_json c"
      "ij_partial j = cr_partial c" "cursor_ok g (im_issues db) c"
    using assms(1) unfolding job_ok_def by blast
  moreover have "cursor_ok g rows' c" using cursor_ok_rows [OF j(6) assms(2)] by blast
  ultimately show ?thesis unfolding job_ok_def by (intro exI [of _ j] exI [of _ c]) (simp add: find_job_def)
qed

lemma sound_upsert:
  assumes "live g s" and "listing_ok (gl_src g)" and "set xs \<subseteq> set (gl_src g)"
  shows "sound g (\<lambda>n s'. sv_cur s' = sv_cur s \<and> (\<forall>x \<in> set (gl_src g). issue_of (gl_repo g) x \<in> set (im_issues (sv_db s)) \<longrightarrow> issue_of (gl_repo g) x \<in> set (im_issues (sv_db s')))
     \<and> (\<forall>x \<in> set xs. issue_of (gl_repo g) x \<in> set (im_issues (sv_db s')))) (upsert_issues (gl_repo g) xs) s"
proof (cases "upsert_rows (gl_repo g) xs (im_issues (sv_db s))")
  case (Pair e rows)
  note keeps = upsert_rows_keeps [OF Pair assms(2,3)]
  have kept: "issue_of (gl_repo g) x \<in> set rows" if "x \<in> set (gl_src g)" "issue_of (gl_repo g) x \<in> set (im_issues (sv_db s))" for x
    using keeps that by blast
  have "job_ok g (sv_db s)" "cursor_ok g (im_issues (sv_db s)) (sv_cur s)" using assms(1) by (simp_all add: live_def logged_def)
  then have job: "job_ok g ((sv_db s)\<lparr>im_issues := rows\<rparr>)" and cur: "cursor_ok g rows (sv_cur s)"
    using job_ok_rows kept cursor_ok_rows by blast+
  have log: "sv_log s \<noteq> []" "\<forall>db \<in> set (sv_log s). job_ok g db" using assms(1) by (simp_all add: live_def logged_def)
  show ?thesis
  proof (cases e)
    case None
    then show ?thesis using Pair keeps job cur log
      by (simp add: sound_def upsert_issues_def chain_def amend_def save_def fine_def live_def logged_def)
  next
    case (Some err)
    then show ?thesis using Pair job cur log
      by (cases err) (simp_all add: sound_def upsert_issues_def rolled_back_def live_def logged_def)
  qed
qed

lemma sound_commits:
  assumes "live g s"
  shows "sound g (\<lambda>n. same_view s) (upsert_commits repo xs) s"
  using assms job_ok_same [of "(sv_db s)\<lparr>im_commits := fold (upsert_commit repo) xs (im_commits (sv_db s))\<rparr>" "sv_db s" g]
  by (auto simp: sound_def upsert_commits_def chain_def amend_def save_def fine_def same_view_def live_def logged_def)

lemma sound_with_repo:
  assumes "live g s"
    and "\<And>j r. find_job (sv_db s) (gl_job g) = Some j \<Longrightarrow> wants_issues j \<Longrightarrow> rp_id r = gl_repo g \<Longrightarrow> sound g P (f j r) s"
  shows "sound g P (with_repo (gl_job g) f) s"
  unfolding with_repo_def
proof (rule sound_seen)
  obtain j where j: "find_job (sv_db s) (gl_job g) = Some j" "ij_repo j = gl_repo g" "wants_issues j"
    using assms(1) by (auto simp: live_def logged_def job_ok_def)
  show "sound g P (case find_job (sv_db s) (gl_job g) of None \<Rightarrow> stop NoJob | Some j \<Rightarrow> (case find_repo (sv_db s) (ij_repo j) of None \<Rightarrow> stop NoRepo | Some r \<Rightarrow> f j r)) s"
  proof (cases "find_repo (sv_db s) (ij_repo j)")
    case None
    then show ?thesis using j assms(1) by (simp add: sound_stop)
  next
    case (Some r)
    then have "rp_id r = gl_repo g" using j(2) find_SomeD [of "\<lambda>r. rp_id r = gl_repo g" "im_repos (sv_db s)" r] by (simp add: find_repo_def)
    then show ?thesis using assms(2) [OF j(1,3)] j Some by simp
  qed
qed

lemma sound_parsed: "live g s \<Longrightarrow> sound g (\<lambda>x. same_view s) (parsed_source lib url) s"
  by (cases "parse_source (il_ip6 lib) url") (simp_all add: parsed_source_def sound_stop sound_fine same_view_def)

end
