(* ===== verification/RepoImportSteps.thy ===== *)
theory RepoImportSteps
  imports RepoImportInv
begin

section \<open>The steps of an import keep its invariant\<close>

text \<open>Phase by phase, then the loop, then the three ways a run ends.\<close>

lemma phase_names: "''validate'' \<in> set JOB_PHASES" "''migrate'' \<in> set JOB_PHASES" "''poll'' \<in> set JOB_PHASES"
  "''mirror_issues'' \<in> set JOB_PHASES" "''index_commits'' \<in> set JOB_PHASES" "''done'' \<in> set JOB_PHASES"
  by (simp_all add: JOB_PHASES_def)

lemma free_keys: "''source_url'' \<notin> set CURSOR_KEYS" "''source_kind'' \<notin> set CURSOR_KEYS" "''probe_reachable'' \<notin> set CURSOR_KEYS"
  "''probe_detail'' \<notin> set CURSOR_KEYS" "''forgejo_repo'' \<notin> set CURSOR_KEYS" "''include_issues'' \<notin> set CURSOR_KEYS"
  "''include_prs'' \<notin> set CURSOR_KEYS" "''issues_stored'' \<notin> set CURSOR_KEYS" "''policy_read'' \<notin> set CURSOR_KEYS"
  "''commit_source'' \<notin> set CURSOR_KEYS"
  by (simp_all add: CURSOR_KEYS_def)

lemma flag_of_put: "flag_of k d (put_extra k' v c) = (if k = k' then truthy v else flag_of k d c)"
  by (simp add: flag_of_def put_extra_def map_of_put)

lemma put_extra_fields [simp]:
  "cr_phase (put_extra k v c) = cr_phase c" "cr_issue (put_extra k v c) = cr_issue c" "cr_issues_seen (put_extra k v c) = cr_issues_seen c"
  "cr_partial (put_extra k v c) = cr_partial c" "untouched (put_extra k v c) = untouched c" "mirrored_to g rows (put_extra k v c) = mirrored_to g rows c"
  by (simp_all add: put_extra_def untouched_def mirrored_to_def)

lemma extras_ok_put_extra: "extras_ok (cr_extras c) \<Longrightarrow> k \<notin> set CURSOR_KEYS \<Longrightarrow> extras_ok (cr_extras (put_extra k v c))"
  by (simp add: put_extra_def extras_ok_put)

lemma cursor_ok_put:
  assumes "cursor_ok g rows c" and "k \<notin> set CURSOR_KEYS" and "k \<noteq> ''include_issues''" and "k \<noteq> ''include_prs''"
  shows "cursor_ok g rows (put_extra k v c)"
proof -
  have "flags_ok g (put_extra k v c) = flags_ok g c" using assms(3,4) by (simp add: flags_ok_def flag_of_put)
  then show ?thesis using assms(1,2) extras_ok_put_extra [of c k v] by (simp add: cursor_ok_def cong: if_cong split del: if_split)
qed

text \<open>Changes of fields the invariant does not read.\<close>

lemma cursor_ok_fields:
  assumes "cr_phase c' = cr_phase c" "cr_extras c' = cr_extras c" "cr_issues_seen c' = cr_issues_seen c" "cr_issue c' = cr_issue c"
    and "cr_partial c \<Longrightarrow> cr_partial c'" and "cursor_ok g rows c"
  shows "cursor_ok g rows c'"
  using assms by (auto simp: cursor_ok_def flags_ok_def flag_of_def untouched_def mirrored_to_def split: if_splits)

lemma sound_done: "live g s \<Longrightarrow> sound g (\<lambda>x s. True) (fine b) s"
  by (simp add: sound_fine)

lemma to_phase:
  assumes "live g s" and "cursor_ok g (im_issues (sv_db s)) ((sv_cur s)\<lparr>cr_phase := p\<rparr>)"
  shows "sound g (\<lambda>x s. True) (chain (turn (\<lambda>c. c\<lparr>cr_phase := p\<rparr>)) (\<lambda>_. fine b)) s"
  by (rule sound_chain [OF sound_turn [where f = "\<lambda>c. c\<lparr>cr_phase := p\<rparr>", OF assms]], rule sound_fine, assumption, rule TrueI)

subsection \<open>Before the mirroring\<close>

lemma sound_sync_state: "live g s \<Longrightarrow> sound g (\<lambda>x. same_view s) (sync_state st r) s"
  unfolding sync_state_def by (rule sound_repo)

lemma sound_validate:
  assumes "live g s" and "cr_phase (sv_cur s) = ''validate''"
  shows "sound g (\<lambda>x s. True) (step_validate lib cl (gl_job g)) s"
  unfolding step_validate_def Let_def
proof (rule sound_with_repo [OF assms(1)], rule sound_chain [OF sound_parsed [OF assms(1)]], rule sound_chain [OF sound_try_ask])
  fix j r source s1 answer s2
  assume "live g s1" "same_view s s1" and s2: "live g s2" "same_view s1 s2 \<and> (\<exists>w. answer = fst (probe_source cl source w))"
  then have v2: "same_view s s2" by (simp add: same_view_def)
  let ?p = "case answer of Inl m \<Rightarrow> \<lparr>pb_reachable = False, pb_detail = m\<rparr> | Inr p \<Rightarrow> p"
  show "sound g (\<lambda>x s. True) (chain (amend (set_repo (rp_id r) (point_at source))) (\<lambda>_.
     chain (turn (\<lambda>c. (put_extra ''probe_detail'' (JStr (pb_detail ?p))
        (put_extra ''probe_reachable'' (JBool (pb_reachable ?p))
        (put_extra ''source_kind'' (JStr (rs_kind source))
        (put_extra ''source_url'' (JStr (web_url source)) c))))\<lparr>cr_phase := ''migrate''\<rparr>)) (\<lambda>_. fine True))) s2"
  proof (rule sound_chain [OF sound_repo [OF s2(1)]])
    fix x s3
    assume s3: "live g s3" "same_view s2 s3"
    then have "sv_cur s3 = sv_cur s" using v2 by (simp add: same_view_def)
    then have ok: "cr_phase (sv_cur s3) = ''validate''" "cursor_ok g (im_issues (sv_db s3)) (sv_cur s3)"
      using assms(2) s3(1) by (simp_all add: live_def)
    show "sound g (\<lambda>x s. True) (chain (turn (\<lambda>c. (put_extra ''probe_detail'' (JStr (pb_detail ?p))
        (put_extra ''probe_reachable'' (JBool (pb_reachable ?p))
        (put_extra ''source_kind'' (JStr (rs_kind source))
        (put_extra ''source_url'' (JStr (web_url source)) c))))\<lparr>cr_phase := ''migrate''\<rparr>)) (\<lambda>_. fine True)) s3"
      using ok by (intro sound_chain [OF sound_turn [OF s3(1)]] sound_fine)
        (simp_all add: cursor_ok_def extras_ok_put_extra free_keys phase_names untouched_def)
  qed
qed assumption

lemma sound_forgejo_repo:
  assumes "live g s"
  shows "sound g (\<lambda>x. same_view s) (forgejo_repo_of lib cfg cl r source issues) s"
proof (cases "opt_str (rp_forgejo r) \<noteq> []")
  case True
  then show ?thesis using assms by (simp add: forgejo_repo_of_def sound_fine same_view_def)
next
  case False
  have "sound g (\<lambda>x. same_view s) (chain (ask f) (\<lambda>document. chain (amend (set_repo i (h document))) (\<lambda>_. fine (name document)))) s"
    for f and h :: "jobject \<Rightarrow> repo_row \<Rightarrow> repo_row" and i and name :: "jobject \<Rightarrow> string"
    by (rule sound_chain [OF sound_ask [OF assms]], rule sound_chain [OF sound_repo], assumption)
      (auto intro!: sound_fine simp: same_view_def)
  then show ?thesis using False by (simp add: forgejo_repo_of_def Let_def)
qed

lemma sound_migrate:
  assumes "live g s" and "cr_phase (sv_cur s) = ''migrate''"
  shows "sound g (\<lambda>x s. True) (step_migrate lib cfg cl (gl_job g)) s"
  unfolding step_migrate_def
proof (rule sound_with_repo [OF assms(1)], rule sound_seen, rule sound_chain [OF sound_parsed [OF assms(1)]],
    rule sound_chain [OF sound_sync_state], assumption, rule sound_chain [OF sound_forgejo_repo], assumption)
  fix j r source s1 u s2 name s3
  assume j: "wants_issues j" and "same_view s s1" "same_view s1 s2" and s3: "live g s3" "same_view s2 s3"
  then have "sv_cur s3 = sv_cur s" by (simp add: same_view_def)
  then have ok: "cr_phase (sv_cur s3) = ''migrate''" "cursor_ok g (im_issues (sv_db s3)) (sv_cur s3)"
    using assms(2) s3(1) by (simp_all add: live_def)
  let ?put = "\<lambda>c. put_extra ''include_prs'' (JBool (wants_issues j)) (put_extra ''include_issues'' (JBool (wants_issues j)) (put_extra ''forgejo_repo'' (JStr name) c))"
  have ready: "extras_ok (cr_extras (?put (sv_cur s3)))" "untouched (?put (sv_cur s3))" "flags_ok g (?put (sv_cur s3))"
    using ok j by (simp_all add: cursor_ok_def extras_ok_put_extra free_keys flags_ok_def flag_of_put)
  show "sound g (\<lambda>x s. True) (chain (turn ?put) (\<lambda>_. chain (mirror_state lib cfg (gl_job g) None None) (\<lambda>_.
     chain (turn (\<lambda>c. c\<lparr>cr_phase := ''poll''\<rparr>)) (\<lambda>_. fine True)))) s3"
  proof (rule sound_chain [OF sound_turn [OF s3(1)]])
    show "cursor_ok g (im_issues (sv_db s3)) (?put (sv_cur s3))" using ok ready by (simp add: cursor_ok_def)
  next
    fix x s4
    assume s4: "live g s4" "s4 = s3\<lparr>sv_cur := ?put (sv_cur s3)\<rparr>"
    show "sound g (\<lambda>x s. True) (chain (mirror_state lib cfg (gl_job g) None None) (\<lambda>_.
       chain (turn (\<lambda>c. c\<lparr>cr_phase := ''poll''\<rparr>)) (\<lambda>_. fine True))) s4"
    proof (rule sound_chain [OF sound_mirror [OF s4(1)]])
      fix y s5
      assume s5: "live g s5" "same_view s4 s5"
      then have "sv_cur s5 = ?put (sv_cur s3)" using s4(2) by (simp add: same_view_def)
      then have "cursor_ok g (im_issues (sv_db s5)) ((sv_cur s5)\<lparr>cr_phase := ''poll''\<rparr>)"
        using ready by (simp add: cursor_ok_def phase_names flags_ok_def flag_of_def untouched_def)
      then show "sound g (\<lambda>x s. True) (chain (turn (\<lambda>c. c\<lparr>cr_phase := ''poll''\<rparr>)) (\<lambda>_. fine True)) s5"
        using s5(1) by (intro to_phase)
    qed
  qed
qed

lemma sound_poll:
  assumes "live g s" and "cr_phase (sv_cur s) = ''poll''" and "listing_ok (gl_src g)"
  shows "sound g (\<lambda>x s. True) (step_poll lib cfg cl (gl_job g)) s"
  unfolding step_poll_def Let_def
proof (rule sound_seen, cases "extra_str lib ''forgejo_repo'' [] (sv_cur s) = []")
  case False
  let ?name = "extra_str lib ''forgejo_repo'' [] (sv_cur s)"
  have "cursor_ok g (im_issues (sv_db s)) ((sv_cur s)\<lparr>cr_polls := cr_polls (sv_cur s) + 1\<rparr>)"
    using assms(1) by - (rule cursor_ok_fields [of _ "sv_cur s"], simp_all add: live_def)
  then have "sound g (\<lambda>x s. True) (chain (turn (\<lambda>c. c\<lparr>cr_polls := cr_polls c + 1\<rparr>)) (\<lambda>_. seen_by (\<lambda>s.
       if cr_polls (sv_cur s) > ic_poll_attempts cfg then stop (PollsUsedUp ?name)
       else chain (ask (migration_state cl ?name)) (\<lambda>state.
         chain (mirror_state lib cfg (gl_job g) None None) (\<lambda>_.
         if migration_finished cl state then chain (turn (\<lambda>c. c\<lparr>cr_phase := ''mirror_issues''\<rparr>)) (\<lambda>_. fine True)
         else fine False))))) s"
  proof (intro sound_chain [OF sound_turn [OF assms(1)]] sound_seen)
    fix x s1
    assume s1: "live g s1" "s1 = s\<lparr>sv_cur := (sv_cur s)\<lparr>cr_polls := cr_polls (sv_cur s) + 1\<rparr>\<rparr>"
    show "sound g (\<lambda>x s. True) (if cr_polls (sv_cur s1) > ic_poll_attempts cfg then stop (PollsUsedUp ?name)
       else chain (ask (migration_state cl ?name)) (\<lambda>state. chain (mirror_state lib cfg (gl_job g) None None) (\<lambda>_.
         if migration_finished cl state then chain (turn (\<lambda>c. c\<lparr>cr_phase := ''mirror_issues''\<rparr>)) (\<lambda>_. fine True) else fine False))) s1"
    proof (cases "cr_polls (sv_cur s1) > ic_poll_attempts cfg")
      case True
      then show ?thesis using sound_stop [OF s1(1)] by simp
    next
      case False
      have "sound g (\<lambda>x s. True) (chain (ask (migration_state cl ?name)) (\<lambda>state. chain (mirror_state lib cfg (gl_job g) None None) (\<lambda>_.
         if migration_finished cl state then chain (turn (\<lambda>c. c\<lparr>cr_phase := ''mirror_issues''\<rparr>)) (\<lambda>_. fine True) else fine False))) s1"
      proof (rule sound_chain [OF sound_ask [OF s1(1)]], rule sound_chain [OF sound_mirror], assumption)
        fix state s2 y s3
        assume "same_view s1 s2 \<and> (\<exists>w. fst (migration_state cl ?name w) = Inr state)" and s3: "live g s3" "same_view s2 s3"
        then have cur: "sv_cur s3 = (sv_cur s)\<lparr>cr_polls := cr_polls (sv_cur s) + 1\<rparr>" using s1(2) by (simp add: same_view_def)
        have "holds_all g rows (take 0 (gl_src g))" for rows by (simp add: holds_all_def)
        moreover have "0 < it_number x" if "x \<in> set (gl_src g)" for x using assms(3) that by (simp add: listing_ok_def list_all_iff)
        ultimately have "cursor_ok g (im_issues (sv_db s3)) ((sv_cur s3)\<lparr>cr_phase := ''mirror_issues''\<rparr>)"
          using assms(1,2) unfolding cur cursor_ok_def live_def mirrored_to_def untouched_def flags_ok_def flag_of_def
          by (auto simp: phase_names intro!: exI [of _ 0])
        then show "sound g (\<lambda>x s. True) (if migration_finished cl state then chain (turn (\<lambda>c. c\<lparr>cr_phase := ''mirror_issues''\<rparr>)) (\<lambda>_. fine True) else fine False) s3"
          using to_phase [OF s3(1)] sound_done [OF s3(1)] by (cases "migration_finished cl state") simp_all
      qed
      then show ?thesis using False by simp
    qed
  qed
  then show "sound g (\<lambda>x s. True) (if ?name = [] then stop NoForgejoRepo else chain (turn (\<lambda>c. c\<lparr>cr_polls := cr_polls c + 1\<rparr>)) (\<lambda>_. seen_by (\<lambda>s.
       if cr_polls (sv_cur s) > ic_poll_attempts cfg then stop (PollsUsedUp ?name)
       else chain (ask (migration_state cl ?name)) (\<lambda>state.
         chain (mirror_state lib cfg (gl_job g) None None) (\<lambda>_.
         if migration_finished cl state then chain (turn (\<lambda>c. c\<lparr>cr_phase := ''mirror_issues''\<rparr>)) (\<lambda>_. fine True)
         else fine False))))) s" using False by simp
qed (simp add: sound_stop [OF assms(1)])

subsection \<open>The mirroring\<close>

lemma consume_page_fields [simp]:
  "cr_phase (consume_page t pg xs st c) = cr_phase c" "cr_partial (consume_page t pg xs st c) = cr_partial c"
  "cr_issues_seen c \<le> cr_issues_seen (consume_page t pg xs st c)"
  by (simp_all add: consume_page_def Let_def)

lemma consume_page_extras:
  "extras_ok (cr_extras c) \<Longrightarrow> extras_ok (cr_extras (consume_page t pg xs st c))" "flags_ok g (consume_page t pg xs st c) = flags_ok g c"
  by (simp_all add: consume_page_def Let_def extras_ok_put_extra free_keys flags_ok_def flag_of_put) (simp_all add: flag_of_def)

lemma sound_stored: "live g s \<Longrightarrow> sound g (\<lambda>n s'. s' = s) (stored_of c) s"
  by (auto simp: stored_of_def sound_stop sound_fine split: option.splits json.splits)

lemma sound_if_partial:
  assumes "live g s"
  shows "sound g (\<lambda>x s'. s' = s\<lparr>sv_cur := (sv_cur s)\<lparr>cr_partial := cr_partial (sv_cur s) \<or> b\<rparr>\<rparr>) (if b then turn (\<lambda>c. c\<lparr>cr_partial := True\<rparr>) else fine ()) s"
proof (cases b)
  case True
  have "cursor_ok g (im_issues (sv_db s)) ((sv_cur s)\<lparr>cr_partial := True\<rparr>)"
    by (rule cursor_ok_fields [of _ "sv_cur s"]) (use assms in \<open>simp_all add: live_def\<close>)
  then show ?thesis using True sound_turn [where f = "\<lambda>c. c\<lparr>cr_partial := True\<rparr>", OF assms] by simp
next
  case False
  then show ?thesis using assms by (simp add: sound_fine)
qed

text \<open>The cursor after a page, and after the last one.\<close>

lemma cursor_after_page:
  assumes "cursor_ok g rows c" and "cr_phase c = ''mirror_issues''" and "listing_ok (gl_src g)"
    and "honest_page (gl_src g) (cr_issue c) (cr_issues_seen c) pg"
    and "included = filter (\<lambda>x. flag_of ''include_prs'' True c \<or> \<not> it_pr x) (pg_items pg)"
    and "t \<longrightarrow> cr_partial c" and "\<not> t \<longrightarrow> taken = included"
    and "\<And>x. x \<in> set (gl_src g) \<Longrightarrow> issue_of (gl_repo g) x \<in> set rows \<Longrightarrow> issue_of (gl_repo g) x \<in> set rows'"
    and "\<And>x. x \<in> set taken \<Longrightarrow> issue_of (gl_repo g) x \<in> set rows'"
  shows "cursor_ok g rows' (consume_page t pg taken st c)"
    and "t \<or> pg_next pg = None \<Longrightarrow> cursor_ok g rows' ((consume_page t pg taken st c)\<lparr>cr_phase := ''index_commits''\<rparr>)"
proof -
  have base: "extras_ok (cr_extras (consume_page t pg taken st c))" "flags_ok g (consume_page t pg taken st c)"
      "0 \<le> cr_issues_seen (consume_page t pg taken st c)"
    using assms(1,2) consume_page_extras order_trans [OF _ consume_page_fields(3), of 0 c t pg taken st] by (auto simp: cursor_ok_def)
  have flags: "flags_ok g c" using assms(1,2) by (simp add: cursor_ok_def)
  have adv: "mirrored_to g rows' (consume_page t pg taken st c) \<and> (pg_next pg = None \<longrightarrow> holds_all g rows' (gl_src g))" if "\<not> cr_partial c"
  proof -
    have t: "\<not> t" "taken = included" using assms(6,7) that by auto
    have "mirrored_to g rows c" using assms(1,2) that by (simp add: cursor_ok_def)
    from page_advances [OF assms(3) this flags assms(4) assms(5) assms(8) assms(9), unfolded t(2)] t show ?thesis by simp
  qed
  show "cursor_ok g rows' (consume_page t pg taken st c)"
    using base adv assms(2) by (auto simp: cursor_ok_def phase_names)
  show "cursor_ok g rows' ((consume_page t pg taken st c)\<lparr>cr_phase := ''index_commits''\<rparr>)" if "t \<or> pg_next pg = None"
    using base adv that assms(6) by (auto simp: cursor_ok_def phase_names flags_ok_def flag_of_def)
qed

lemma honest_items:
  assumes "honest_page src after offset pg"
  shows "set (pg_items pg) \<subseteq> set src"
proof -
  obtain k where "pg_items pg = filter (\<lambda>x. after = 0 \<or> after < it_number x) (take k (drop (nat offset) src))"
    using assms unfolding honest_page_def by blast
  then have "set (pg_items pg) \<subseteq> set (take k (drop (nat offset) src))" by auto
  then show ?thesis using set_take_subset set_drop_subset by (meson order_trans)
qed

lemma sound_upsert_some:
  assumes "live g s" and "listing_ok (gl_src g)" and "set xs \<subseteq> set (gl_src g)"
  shows "sound g (\<lambda>n s'. sv_cur s' = sv_cur s
     \<and> (\<forall>x \<in> set (gl_src g). issue_of (gl_repo g) x \<in> set (im_issues (sv_db s)) \<longrightarrow> issue_of (gl_repo g) x \<in> set (im_issues (sv_db s')))
     \<and> (\<forall>x \<in> set xs. issue_of (gl_repo g) x \<in> set (im_issues (sv_db s'))))
     (if xs \<noteq> [] then upsert_issues (gl_repo g) xs else fine 0) s"
proof (cases "xs = []")
  case True
  then show ?thesis using assms(1) by (simp add: sound_fine)
next
  case False
  then show ?thesis using sound_upsert [OF assms] by simp
qed

lemma sound_mirror_page:
  assumes "live g s" and "cr_phase (sv_cur s) = ''mirror_issues''" and "listing_ok (gl_src g)"
    and "honest_page (gl_src g) (cr_issue (sv_cur s)) (cr_issues_seen (sv_cur s)) pg"
  shows "sound g (\<lambda>x s. True) (mirror_page lib cfg (gl_job g) (gl_repo g) pg) s"
  unfolding mirror_page_def Let_def
proof (rule sound_seen, rule sound_chain [OF sound_stored [OF assms(1)]], rule sound_chain [OF sound_if_partial])
  fix stored s1
  assume "s1 = s"
  then show "live g s1" using assms(1) by simp
next
  fix stored s1 x s2
  let ?included = "filter (\<lambda>x. flag_of ''include_prs'' True (sv_cur s) \<or> \<not> it_pr x) (pg_items pg)"
  let ?room = "max 0 (ic_max_issues cfg - stored)"
  let ?t = "?room < int (length ?included)"
  let ?taken = "if ?t then take (nat ?room) ?included else ?included"
  assume "s1 = s" and s2: "live g s2" "s2 = s1\<lparr>sv_cur := (sv_cur s1)\<lparr>cr_partial := cr_partial (sv_cur s1) \<or> ?t\<rparr>\<rparr>"
  then have s2_eq: "s2 = s\<lparr>sv_cur := (sv_cur s)\<lparr>cr_partial := cr_partial (sv_cur s) \<or> ?t\<rparr>\<rparr>" by simp
  let ?c = "sv_cur s2"
  have c: "cr_phase ?c = ''mirror_issues''" "cursor_ok g (im_issues (sv_db s2)) ?c" "?t \<longrightarrow> cr_partial ?c"
      "honest_page (gl_src g) (cr_issue ?c) (cr_issues_seen ?c) pg"
      "?included = filter (\<lambda>x. flag_of ''include_prs'' True ?c \<or> \<not> it_pr x) (pg_items pg)"
    using s2(1) s2_eq assms(2,4) by (simp_all add: live_def flag_of_def)
  have sub: "set ?taken \<subseteq> set (gl_src g)"
    using honest_items [OF assms(4)] set_take_subset [of "nat ?room" ?included] by (auto split: if_splits)
  have up: "sound g (\<lambda>n s'. sv_cur s' = ?c
     \<and> (\<forall>x \<in> set (gl_src g). issue_of (gl_repo g) x \<in> set (im_issues (sv_db s2)) \<longrightarrow> issue_of (gl_repo g) x \<in> set (im_issues (sv_db s')))
     \<and> (\<forall>x \<in> set ?taken. issue_of (gl_repo g) x \<in> set (im_issues (sv_db s'))))
     (if ?taken \<noteq> [] then upsert_issues (gl_repo g) ?taken else fine 0) s2"
    by (rule sound_upsert_some [OF s2(1) assms(3) sub])
  show "sound g (\<lambda>x s. True) (chain (if ?taken \<noteq> [] then upsert_issues (gl_repo g) ?taken else fine 0) (\<lambda>written.
     chain (turn (consume_page ?t pg ?taken (stored + written))) (\<lambda>_. seen_by (\<lambda>s.
     chain (mirror_state lib cfg (gl_job g) (if cr_partial (sv_cur s) then Some (ic_max_issues cfg) else None) (Some (stored + written))) (\<lambda>_.
     chain (if ?t \<or> pg_next pg = None then turn (\<lambda>c. c\<lparr>cr_phase := ''index_commits''\<rparr>) else fine ()) (\<lambda>_. fine True)))))) s2"
  proof (rule sound_chain [OF up])
    fix written s3
    assume s3: "live g s3" "sv_cur s3 = ?c
      \<and> (\<forall>x \<in> set (gl_src g). issue_of (gl_repo g) x \<in> set (im_issues (sv_db s2)) \<longrightarrow> issue_of (gl_repo g) x \<in> set (im_issues (sv_db s3)))
      \<and> (\<forall>x \<in> set ?taken. issue_of (gl_repo g) x \<in> set (im_issues (sv_db s3)))"
    let ?c' = "consume_page ?t pg ?taken (stored + written) ?c"
    have after: "cursor_ok g (im_issues (sv_db s3)) ?c'"
        "?t \<or> pg_next pg = None \<Longrightarrow> cursor_ok g (im_issues (sv_db s3)) (?c'\<lparr>cr_phase := ''index_commits''\<rparr>)"
      using s3(2) by (intro cursor_after_page [OF c(2,1) assms(3) c(4,5,3)]; simp)+
    show "sound g (\<lambda>x s. True) (chain (turn (consume_page ?t pg ?taken (stored + written))) (\<lambda>_. seen_by (\<lambda>s.
       chain (mirror_state lib cfg (gl_job g) (if cr_partial (sv_cur s) then Some (ic_max_issues cfg) else None) (Some (stored + written))) (\<lambda>_.
       chain (if ?t \<or> pg_next pg = None then turn (\<lambda>c. c\<lparr>cr_phase := ''index_commits''\<rparr>) else fine ()) (\<lambda>_. fine True))))) s3"
    proof (rule sound_chain [OF sound_turn [OF s3(1)]], use after(1) s3(2) in simp, rule sound_seen, rule sound_chain [OF sound_mirror], assumption)
      fix y s4 z s5
      assume "s4 = s3\<lparr>sv_cur := consume_page ?t pg ?taken (stored + written) (sv_cur s3)\<rparr>" and s5: "live g s5" "same_view s4 s5"
      then have cur: "sv_cur s5 = ?c'" "im_issues (sv_db s5) = im_issues (sv_db s3)" using s3(2) by (simp_all add: same_view_def)
      show "sound g (\<lambda>x s. True) (chain (if ?t \<or> pg_next pg = None then turn (\<lambda>c. c\<lparr>cr_phase := ''index_commits''\<rparr>) else fine ()) (\<lambda>_. fine True)) s5"
      proof (cases "?t \<or> pg_next pg = None")
        case True
        then show ?thesis using to_phase [OF s5(1), of "''index_commits''" True] after(2) cur by simp
      next
        case False
        show ?thesis unfolding if_not_P [OF False] by (simp add: sound_def chain_def fine_def s5(1))
      qed
    qed
  qed
qed

lemma sound_mirror_issues:
  assumes "live g s" and "cr_phase (sv_cur s) = ''mirror_issues''" and "listing_ok (gl_src g)"
    and "honest_client (gl_src g) (ic_page_size cfg) cl"
  shows "sound g (\<lambda>x s. True) (step_mirror_issues lib cfg cl (gl_job g)) s"
  unfolding step_mirror_issues_def
proof (rule sound_seen)
  have ok: "cursor_ok g (im_issues (sv_db s)) (sv_cur s)" using assms(1) by (simp add: live_def)
  then have flag: "flag_of ''include_issues'' True (sv_cur s)" and seen: "0 \<le> cr_issues_seen (sv_cur s)"
    using assms(2) by (simp_all add: cursor_ok_def flags_ok_def)
  have "sound g (\<lambda>x s. True) (with_repo (gl_job g) (\<lambda>j r.
       let name = extra_str lib ''forgejo_repo'' (opt_str (rp_forgejo r)) (sv_cur s) in
       if name = [] then stop NoForgejoRepo
       else chain (sync_state ''issues'' r) (\<lambda>_.
         chain (ask (stream_issues cl name (cr_issue (sv_cur s)) (cr_issues_seen (sv_cur s)) (ic_page_size cfg))) (\<lambda>pg.
         mirror_page lib cfg (gl_job g) (rp_id r) pg)))) s"
  proof (rule sound_with_repo [OF assms(1)])
    fix j and r :: repo_row
    assume r: "rp_id r = gl_repo g"
    let ?name = "extra_str lib ''forgejo_repo'' (opt_str (rp_forgejo r)) (sv_cur s)"
    have "sound g (\<lambda>x s. True) (chain (sync_state ''issues'' r) (\<lambda>_.
         chain (ask (stream_issues cl ?name (cr_issue (sv_cur s)) (cr_issues_seen (sv_cur s)) (ic_page_size cfg))) (\<lambda>pg.
         mirror_page lib cfg (gl_job g) (rp_id r) pg))) s"
    proof (rule sound_chain [OF sound_sync_state [OF assms(1)]], rule sound_chain [OF sound_ask], assumption)
      fix x s1 pg s2
      assume "same_view s s1" and s2: "live g s2" "same_view s1 s2 \<and> (\<exists>w. fst (stream_issues cl ?name (cr_issue (sv_cur s)) (cr_issues_seen (sv_cur s)) (ic_page_size cfg) w) = Inr pg)"
      then have cur: "sv_cur s2 = sv_cur s" by (simp add: same_view_def)
      have "honest_page (gl_src g) (cr_issue (sv_cur s2)) (cr_issues_seen (sv_cur s2)) pg"
        using s2(2) assms(4) seen unfolding honest_client_def cur by blast
      then show "sound g (\<lambda>x s. True) (mirror_page lib cfg (gl_job g) (rp_id r) pg) s2"
        using sound_mirror_page [OF s2(1) _ assms(3)] assms(2) cur r by simp
    qed
    then show "sound g (\<lambda>x s. True) (let name = ?name in if name = [] then stop NoForgejoRepo
       else chain (sync_state ''issues'' r) (\<lambda>_.
         chain (ask (stream_issues cl name (cr_issue (sv_cur s)) (cr_issues_seen (sv_cur s)) (ic_page_size cfg))) (\<lambda>pg.
         mirror_page lib cfg (gl_job g) (rp_id r) pg))) s"
      by (simp add: Let_def sound_stop [OF assms(1)])
  qed
  then show "sound g (\<lambda>x s. True) (if \<not> flag_of ''include_issues'' True (sv_cur s)
     then chain (turn (\<lambda>c. c\<lparr>cr_phase := ''index_commits''\<rparr>)) (\<lambda>_. fine True)
     else with_repo (gl_job g) (\<lambda>j r.
       let name = extra_str lib ''forgejo_repo'' (opt_str (rp_forgejo r)) (sv_cur s) in
       if name = [] then stop NoForgejoRepo
       else chain (sync_state ''issues'' r) (\<lambda>_.
         chain (ask (stream_issues cl name (cr_issue (sv_cur s)) (cr_issues_seen (sv_cur s)) (ic_page_size cfg))) (\<lambda>pg.
         mirror_page lib cfg (gl_job g) (rp_id r) pg)))) s"
    using flag by simp
qed

subsection \<open>The commits\<close>

lemma cursor_ok_done:
  assumes "cursor_ok g rows c" and "cr_phase c = ''index_commits'' \<or> cr_phase c = ''done''"
  shows "cursor_ok g rows (c\<lparr>cr_phase := ''done''\<rparr>)"
  using assms by (auto simp: cursor_ok_def phase_names flags_ok_def flag_of_def)

text \<open>In this phase only the issues and the cursor's own fields matter; a step that keeps both in place is \<open>quiet\<close>.\<close>

definition at_index :: "'w import_state \<Rightarrow> bool" where
  "at_index s \<longleftrightarrow> cr_phase (sv_cur s) = ''index_commits''"

lemma at_index_view: "same_view s s' \<Longrightarrow> at_index s \<Longrightarrow> at_index s'"
  by (simp add: at_index_def same_view_def)

lemma sound_turn_quiet:
  assumes "live g s" and "at_index s"
    and "\<And>c. cr_phase (f c) = cr_phase c \<and> cr_extras (f c) = cr_extras c \<and> cr_issues_seen (f c) = cr_issues_seen c \<and> cr_issue (f c) = cr_issue c
       \<and> (cr_partial c \<longrightarrow> cr_partial (f c))"
  shows "sound g (\<lambda>x s'. at_index s') (turn f) s"
proof -
  have "cursor_ok g (im_issues (sv_db s)) (f (sv_cur s))"
    by (rule cursor_ok_fields [of _ "sv_cur s"]) (use assms in \<open>simp_all add: live_def\<close>)
  from sound_weaken [OF sound_turn [where f = f, OF assms(1) this]] show ?thesis using assms(2,3) by (simp add: at_index_def)
qed

lemma sound_turn_put:
  assumes "live g s" and "at_index s" and "k \<notin> set CURSOR_KEYS" and "k \<noteq> ''include_issues''" and "k \<noteq> ''include_prs''"
  shows "sound g (\<lambda>x s'. at_index s') (turn (put_extra k v)) s"
proof -
  have "cursor_ok g (im_issues (sv_db s)) (put_extra k v (sv_cur s))" using assms by (intro cursor_ok_put) (simp_all add: live_def)
  from sound_weaken [OF sound_turn [where f = "put_extra k v", OF assms(1) this]] show ?thesis using assms(2) by (simp add: at_index_def)
qed

lemma sound_view: "sound g (\<lambda>x. same_view s) m s \<Longrightarrow> at_index s \<Longrightarrow> sound g (\<lambda>x s'. at_index s') m s"
  by (erule sound_weaken) (rule at_index_view)

lemma sound_try_ask_index: "live g s \<Longrightarrow> at_index s \<Longrightarrow> sound g (\<lambda>x s'. at_index s') (try_ask f) s"
  by (rule sound_weaken [OF sound_try_ask]) (auto dest: at_index_view)

lemma sound_if_partial_index:
  assumes "live g s" and "at_index s"
  shows "sound g (\<lambda>x s'. at_index s') (if b then turn (\<lambda>c. c\<lparr>cr_partial := True\<rparr>) else fine ()) s"
  by (rule sound_weaken [OF sound_if_partial [OF assms(1)]]) (use assms(2) in \<open>simp add: at_index_def\<close>)

lemma sound_read_policy:
  fixes s :: "'w import_state"
  assumes "live g s" and "at_index s"
  shows "sound g (\<lambda>x s'. at_index s') (read_policy_once lib cl r name) s"
proof -
  have "sound g (\<lambda>x s'. at_index s') (refresh_repo_policy lib cl r name) s"
  proof (cases "or_str (rp_kind r) ''upstream'' \<noteq> ''workspace''")
    case True
    then show ?thesis using sound_view [OF sound_repo [OF assms(1)] assms(2)] by (simp add: refresh_repo_policy_def)
  next
    case False
    have "sound g (\<lambda>x s'. at_index s') (chain (try_ask f) (\<lambda>a. amend (set_repo i (h a)))) s"
      for f :: "('w, string option) call" and h :: "string + string option \<Rightarrow> repo_row \<Rightarrow> repo_row" and i
      by (rule sound_chain [OF sound_try_ask_index [OF assms]], rule sound_view [OF sound_repo])
    then show ?thesis using False by (simp add: refresh_repo_policy_def Let_def)
  qed
  then have "sound g (\<lambda>x s'. at_index s') (chain (refresh_repo_policy lib cl r name) (\<lambda>_. turn (put_extra ''policy_read'' (JBool True)))) s"
    by (rule sound_chain) (rule sound_turn_put, simp_all add: free_keys)
  then show ?thesis unfolding read_policy_once_def using assms by (intro sound_seen) (simp add: sound_fine)
qed

lemma sound_commit_rows:
  fixes s :: "'w import_state"
  assumes "live g s" and "at_index s"
  shows "sound g (\<lambda>x s'. at_index s') (commit_rows lib cfg cl name branch room) s"
  unfolding commit_rows_def Let_def
proof (rule sound_seen, rule sound_chain [OF sound_try_ask_index [OF assms]])
  fix answer :: "string + commit_page" and s1 :: "'w import_state"
  assume s1: "live g s1" "at_index s1"
  let ?rows = "case answer of Inl m \<Rightarrow> [] | Inr pg \<Rightarrow> cp_items pg" and ?again = "case answer of Inl m \<Rightarrow> False | Inr pg \<Rightarrow> cp_more pg"
  have "sound g (\<lambda>x s'. at_index s') (chain (turn (put_extra ''commit_source'' (JStr ''git''))) (\<lambda>_.
             chain (try_ask (git_stream cl name branch (room + 1))) (\<lambda>answer.
             case answer of Inl m \<Rightarrow> stop (NoHistory m) | Inr rows \<Rightarrow> fine (True, ?again, rows)))) s1"
    by (rule sound_chain [OF sound_turn_put [OF s1]], simp_all add: free_keys, rule sound_chain [OF sound_try_ask_index], assumption+)
      (auto intro: sound_stop sound_fine split: sum.split)
  then show "sound g (\<lambda>x s'. at_index s') (if ?rows = [] \<and> jget (cr_extras (sv_cur s)) ''commit_source'' \<noteq> JStr ''git''
        then chain (turn (put_extra ''commit_source'' (JStr ''git''))) (\<lambda>_.
             chain (try_ask (git_stream cl name branch (room + 1))) (\<lambda>answer.
             case answer of Inl m \<Rightarrow> stop (NoHistory m) | Inr rows \<Rightarrow> fine (True, ?again, rows)))
        else fine (False, ?again, ?rows)) s1"
    using s1 by (simp add: sound_fine)
qed

lemma sound_index_page:
  assumes "live g s" and "at_index s"
  shows "sound g (\<lambda>x s. True) (index_page lib cfg (gl_job g) repo room answer) s"
proof -
  obtain fell_back again rows where answer: "answer = (fell_back, again, rows)" by (cases answer) auto
  let ?t = "room < int (length rows)"
  let ?taken = "if ?t then take (nat room) rows else rows"
  have written: "sound g (\<lambda>x s'. at_index s') (if ?taken \<noteq> [] then upsert_commits repo ?taken else fine 0) s1"
    if "live g s1" "at_index s1" for s1 :: "'a import_state"
    using that sound_view [OF sound_commits [OF that(1)] that(2), of repo ?taken] by (simp add: sound_fine)
  show ?thesis unfolding answer index_page_def prod.case Let_def
  proof (rule sound_chain [OF sound_if_partial_index [OF assms]], rule sound_chain [OF written], assumption+,
      rule sound_chain [OF sound_turn_quiet], assumption+, simp, rule sound_seen, rule sound_chain [OF sound_if_partial_index], assumption+)
    fix x s1 n s2 y s3 z s4
    assume s4: "live g s4" "at_index s4"
    let ?over = "\<not> again \<or> ?t \<or> fell_back \<or> cr_commits_seen (sv_cur s3) \<ge> ic_max_commits cfg"
    have "sound g (\<lambda>x s. True) (if ?over then chain (amend (set_repo repo (\<lambda>r. r\<lparr>rp_commits := cr_commits_seen (sv_cur s3)\<rparr>)))
         (\<lambda>_. turn (\<lambda>c. c\<lparr>cr_phase := ''done''\<rparr>)) else fine ()) s4"
    proof (cases ?over)
      case True
      have "sound g (\<lambda>x s. True) (chain (amend (set_repo repo (\<lambda>r. r\<lparr>rp_commits := cr_commits_seen (sv_cur s3)\<rparr>)))
         (\<lambda>_. turn (\<lambda>c. c\<lparr>cr_phase := ''done''\<rparr>))) s4"
      proof (rule sound_chain [OF sound_view [OF sound_repo [OF s4(1)] s4(2)]])
        fix u s5
        assume s5: "live g s5" "at_index s5"
        then have "cursor_ok g (im_issues (sv_db s5)) ((sv_cur s5)\<lparr>cr_phase := ''done''\<rparr>)"
          by (intro cursor_ok_done) (simp_all add: live_def at_index_def)
        from sound_weaken [OF sound_turn [where f = "\<lambda>c. c\<lparr>cr_phase := ''done''\<rparr>", OF s5(1) this]]
        show "sound g (\<lambda>x s. True) (turn (\<lambda>c. c\<lparr>cr_phase := ''done''\<rparr>)) s5" by simp
      qed
      then show ?thesis unfolding if_P [OF True] .
    next
      case False
      then show ?thesis unfolding if_not_P [OF False] using s4(1) by (simp add: sound_fine)
    qed
    then show "sound g (\<lambda>x s. True) (chain (if ?over then chain (amend (set_repo repo (\<lambda>r. r\<lparr>rp_commits := cr_commits_seen (sv_cur s3)\<rparr>)))
         (\<lambda>_. turn (\<lambda>c. c\<lparr>cr_phase := ''done''\<rparr>)) else fine ()) (\<lambda>_.
      chain (mirror_state lib cfg (gl_job g) None (Some (cr_commits_seen (sv_cur s3)))) (\<lambda>_. fine True))) s4"
      by (rule sound_chain) (rule sound_chain [OF sound_mirror], simp_all add: sound_fine)
  qed
qed

lemma sound_index:
  assumes "live g s" and "at_index s"
  shows "sound g (\<lambda>x s. True) (step_index_commits lib cfg cl (gl_job g)) s"
  unfolding step_index_commits_def Let_def
  by (rule sound_with_repo [OF assms(1)], rule sound_chain [OF sound_view [OF sound_sync_state [OF assms(1)] assms(2)]], rule sound_seen,
    rule sound_chain [OF sound_read_policy], assumption+, rule sound_chain [OF sound_commit_rows], assumption+, rule sound_index_page)

subsection \<open>A run\<close>

lemma sound_advance:
  assumes "live g s" and "listing_ok (gl_src g)" and "honest_client (gl_src g) (ic_page_size cfg) cl"
  shows "sound g (\<lambda>x s. True) (advance_once lib cfg cl (gl_job g)) s"
proof -
  have "sound g (\<lambda>x s. True) (step_of lib cfg cl (gl_job g) (cr_phase (sv_cur s))) s"
    using sound_validate [OF assms(1)] sound_migrate [OF assms(1)] sound_poll [OF assms(1) _ assms(2)]
      sound_mirror_issues [OF assms(1) _ assms(2,3)] sound_index [OF assms(1)]
    by (simp add: step_of_def at_index_def sound_stop [OF assms(1)])
  then show ?thesis unfolding advance_once_def
    by (intro sound_seen) (rule sound_chain, assumption, rule sound_chain [OF sound_mirror], assumption, simp add: sound_fine)
qed

lemma import_loop_sound:
  assumes "live g s" and "listing_ok (gl_src g)" and "honest_client (gl_src g) (ic_page_size cfg) cl"
    and "import_loop lib cfg cl (gl_job g) limit steps idles s = ((e, n), s')"
  shows "(if e = Broke FlushFailed then logged g s' else live g s') \<and> (e = Finished \<longrightarrow> cr_phase (sv_cur s') = ''done'')"
  using assms(1,4)
proof (induction "limit - steps" arbitrary: steps idles s rule: less_induct)
  case outer: less
  show ?case using outer(2,3)
  proof (induction "idle_budget cfg - idles" arbitrary: idles s rule: less_induct)
    case inner: less
    note loop = inner(3) [unfolded import_loop.simps [of lib cfg cl "gl_job g" limit steps idles s]]
    show ?case
    proof (cases "limit \<le> steps \<or> cr_phase (sv_cur s) = ''done''")
      case True
      then show ?thesis using loop inner(2) by (auto split: if_splits)
    next
      case False
      note sound = sound_advance [OF inner(2) assms(2,3), of lib]
      show ?thesis
      proof (cases "advance_once lib cfg cl (gl_job g) s")
        case (Pair r s1)
        show ?thesis
        proof (cases r)
          case (Inl err)
          then show ?thesis using loop False Pair sound by (auto simp: sound_def)
        next
          case (Inr moved)
          let ?steps = "if moved then steps + 1 else steps" and ?idles = "if moved then 0 else idles + 1"
          have live: "live g s1" using sound Pair Inr by (simp add: sound_def)
          show ?thesis
          proof (cases "cr_phase (sv_cur s1) = ''done'' \<or> idle_budget cfg \<le> ?idles")
            case True
            then show ?thesis using loop False Pair Inr live by (auto simp: Let_def split: if_splits)
          next
            case stay: False
            then have rest: "import_loop lib cfg cl (gl_job g) limit ?steps ?idles s1 = ((e, n), s')"
              using loop False Pair Inr by (auto simp: Let_def)
            show ?thesis
            proof (cases moved)
              case True
              then have "limit - ?steps < limit - steps" using False by auto
              from outer(1) [OF this live rest] show ?thesis .
            next
              case not_moved: False
              then have "idle_budget cfg - ?idles < idle_budget cfg - idles" using stay by auto
              from inner(1) [OF this live] rest not_moved show ?thesis by simp
            qed
          qed
        qed
      qed
    qed
  qed
qed

lemma fail_job_sound:
  assumes "if e = FlushFailed then logged g s else live g s" and "fail_job lib (gl_job g) n e s = (r, s')"
  shows "logged g s' \<and> (\<forall>out. r = Inr out \<longrightarrow> io_status out = ''failed'')"
proof (cases "e = FlushFailed")
  case True
  then show ?thesis using assms by (auto simp: fail_job_def stop_def)
next
  case False
  then have s: "live g s" using assms(1) by simp
  define s1 where "s1 = (case job_of (gl_job g) s of None \<Rightarrow> s | Some j \<Rightarrow> s\<lparr>sv_db := set_repo (ij_repo j) (\<lambda>r. r\<lparr>rp_sync := ''error''\<rparr>) (sv_db s)\<rparr>)"
  have s1: "live g s1" "sv_cur s1 = sv_cur s"
    using s job_ok_same [of "set_repo i f (sv_db s)" "sv_db s" g for i f]
    by (auto simp: s1_def live_def logged_def set_repo_def split: option.split)
  have "job_ok g (set_job (gl_job g) (failed_row lib (sv_cur s1) e) (sv_db s1))"
    using s1(1) by (intro job_ok_write [where c = "sv_cur s1"]) (auto simp: live_def logged_def failed_row_def)
  moreover have "fail_job lib (gl_job g) n e s =
      slice_outcome (gl_job g) ''failed'' (Some e) n (s1\<lparr>sv_db := set_job (gl_job g) (failed_row lib (sv_cur s1) e) (sv_db s1),
        sv_log := set_job (gl_job g) (failed_row lib (sv_cur s1) e) (sv_db s1) # sv_log s1\<rparr>)"
    using False s1(2) by (auto simp: fail_job_def seen_by_def chain_def amend_def fine_def save_def s1_def split: option.split)
  ultimately show ?thesis using assms(2) s1(1) by (auto simp: slice_outcome_def logged_def live_def)
qed

lemma finish_sound:
  assumes "live g s" and "cr_phase (sv_cur s) = ''done''" and "finish lib (gl_job g) n s = (r, s')"
  shows "case r of Inl e \<Rightarrow> e \<noteq> FlushFailed \<and> live g s'
    | Inr out \<Rightarrow> logged g s' \<and> (io_status out = ''done'' \<longrightarrow> holds_all g (im_issues (sv_db s')) (gl_src g))"
proof -
  obtain j where j: "find_job (sv_db s) (gl_job g) = Some j" using assms(1) by (auto simp: live_def logged_def job_ok_def)
  let ?stored = "case map_of (cr_extras (sv_cur s)) ''issues_stored'' of None \<Rightarrow> Some (cr_issues_seen (sv_cur s)) | Some v \<Rightarrow> int_or_zero lib v"
  show ?thesis
  proof (cases "find_repo (sv_db s) (ij_repo j) = None \<or> ?stored = None")
    case True
    then show ?thesis using assms(1,3) j by (auto simp: finish_def with_repo_def seen_by_def stop_def Let_def split: option.splits)
  next
    case False
    then obtain row st where st: "find_repo (sv_db s) (ij_repo j) = Some row" "?stored = Some st" by auto
    let ?c = "(sv_cur s)\<lparr>cr_phase := ''done''\<rparr>"
    let ?db1 = "set_repo (rp_id row) (\<lambda>r. r\<lparr>rp_sync := ''ready'', rp_issues := row_count (rp_id r) is_repo (im_issues (sv_db s)),
            rp_commits := row_count (rp_id r) cm_repo (im_commits (sv_db s))\<rparr>) (sv_db s)"
    let ?db2 = "set_job (gl_job g) (\<lambda>j. j\<lparr>ij_phase := ''done'', ij_progress := 100, ij_status := ''done'', ij_done := st,
            ij_cursor := to_json ?c, ij_partial := cr_partial (sv_cur s), ij_finished := True\<rparr>) ?db1"
    have c: "?c = sv_cur s" using assms(2) by (simp add: cursor.equality)
    have "job_ok g ?db1" using assms(1) job_ok_same [of ?db1 "sv_db s" g] by (simp add: set_repo_def live_def logged_def)
    moreover have issues: "im_issues ?db1 = im_issues (sv_db s)" "im_issues ?db2 = im_issues (sv_db s)" by (simp_all add: set_repo_def set_job_def)
    moreover have "cursor_ok g (im_issues (sv_db s)) (sv_cur s)" using assms(1) by (simp add: live_def)
    ultimately have ok: "job_ok g ?db2" by (intro job_ok_write [where c = "sv_cur s"]) (simp_all only: c issues, simp)
    have "cr_partial (sv_cur s) \<or> holds_all g (im_issues (sv_db s)) (gl_src g)" using assms(1,2) by (simp add: live_def cursor_ok_def)
    moreover have "sv_db s' = ?db2 \<and> sv_log s' = ?db2 # sv_log s \<and> (\<exists>out. r = Inr out \<and> io_status out = (if cr_partial (sv_cur s) then ''partial'' else ''done''))"
      using assms(3) j st by (auto simp: finish_def with_repo_def seen_by_def chain_def turn_def amend_def save_def fine_def Let_def)
    ultimately show ?thesis using ok issues assms(1) by (auto simp: logged_def live_def)
  qed
qed

lemma close_run_sound:
  assumes "if e = Broke FlushFailed then logged g s else live g s" and "e = Finished \<longrightarrow> cr_phase (sv_cur s) = ''done''"
    and "close_run lib (gl_job g) (e, n) s = (r, s')"
  shows "logged g s' \<and> (\<forall>out. r = Inr out \<longrightarrow> io_status out = ''done'' \<longrightarrow> holds_all g (im_issues (sv_db s')) (gl_src g))"
proof (cases e)
  case Finished
  then have s: "live g s" "cr_phase (sv_cur s) = ''done''" using assms(1,2) by simp_all
  show ?thesis
  proof (cases "finish lib (gl_job g) n s")
    case (Pair r1 s1)
    note fin = finish_sound [OF s Pair]
    show ?thesis
    proof (cases r1)
      case (Inl err)
      then have "fail_job lib (gl_job g) n err s1 = (r, s')" "if err = FlushFailed then logged g s1 else live g s1"
        using assms(3) Finished Pair fin by (simp_all add: close_run_def)
      from fail_job_sound [OF this(2,1)] show ?thesis by auto
    next
      case (Inr out)
      then show ?thesis using assms(3) Finished Pair fin by (auto simp: close_run_def)
    qed
  qed
next
  case Paused
  then show ?thesis using assms(1,3) by (auto simp: close_run_def slice_outcome_def live_def)
next
  case (Broke err)
  then have "fail_job lib (gl_job g) n err s = (r, s')" "if err = FlushFailed then logged g s else live g s"
    using assms(1,3) by (simp_all add: close_run_def)
  from fail_job_sound [OF this(2,1)] show ?thesis by auto
qed

lemma begin_run_live:
  assumes "job_ok g db" and "find_job db (gl_job g) = Some j" and "ij_cursor j = to_json c" and "ij_partial j = cr_partial c"
    and "cursor_ok g (im_issues db) c"
  shows "live g (snd (begin_run j c (open_session db w)))"
proof -
  have id: "ij_id j = gl_job g" using assms(2) find_SomeD [of "\<lambda>j. ij_id j = gl_job g" "im_jobs db" j] by (simp add: find_job_def)
  let ?f = "\<lambda>j. j\<lparr>ij_status := ''running'', ij_started := True\<rparr>"
  have j: "ij_repo j = gl_repo g" "wants_issues j" using assms(1,2) by (auto simp: job_ok_def)
  have "find_job (set_job (gl_job g) ?f db) (gl_job g) = Some (?f j)" using assms(2) find_job_set [of ?f] by simp
  moreover have "im_issues (set_job (gl_job g) ?f db) = im_issues db" by (simp add: set_job_def)
  ultimately have "job_ok g (set_job (gl_job g) ?f db)"
    using j assms(3-5) wants_issues_mode [of "?f j" j] unfolding job_ok_def by auto
  moreover have "c\<lparr>cr_partial := (cr_partial c \<or> ij_partial j)\<rparr> = c" using assms(4) by (simp add: cursor.equality)
  ultimately show ?thesis using assms(1,5) id
    by (simp add: begin_run_def chain_def turn_def amend_def save_def open_session_def live_def logged_def set_job_def)
qed

lemma run_import_sound:
  assumes "job_ok g db" and "listing_ok (gl_src g)" and "honest_client (gl_src g) (ic_page_size cfg) cl"
    and "run_import lib cfg cl (gl_job g) limit (open_session db w) = (r, s)"
  shows "logged g s \<and> (\<forall>out. r = Inr out \<longrightarrow> io_status out = ''done'' \<longrightarrow> holds_all g (im_issues (sv_db s)) (gl_src g))"
proof -
  obtain j c where j: "find_job db (gl_job g) = Some j" "ij_cursor j = to_json c" "ij_partial j = cr_partial c" "cursor_ok g (im_issues db) c"
    using assms(1) unfolding job_ok_def by blast
  have "from_json lib (or_str (ij_phase j) ''validate'') (ij_cursor j) = Some c"
    unfolding j(2) using j(4) by (intro from_to_json) (simp_all add: cursor_ok_def)
  moreover obtain e n s2 where loop: "import_loop lib cfg cl (gl_job g) limit 0 0 (snd (begin_run j c (open_session db w))) = ((e, n), s2)"
    by (metis prod.exhaust)
  ultimately have "close_run lib (gl_job g) (e, n) s2 = (r, s)"
    using assms(4) j(1) by (simp add: run_import_def open_session_def)
  moreover note import_loop_sound [OF begin_run_live [OF assms(1) j] assms(2,3) loop]
  ultimately show ?thesis using close_run_sound by blast
qed

end
