(* ===== verification/RepoImportEnds.thy ===== *)
theory RepoImportEnds
  imports RepoImportSteps
begin

section \<open>How a run ends\<close>

text \<open>
  Rules that run a step of the import on a state known only in part, the index phase when no history can be read, and the closing
  of a run.
\<close>

definition ends :: "('w, 'a) istep \<Rightarrow> 'w import_state \<Rightarrow> (import_error + 'a \<Rightarrow> 'w import_state \<Rightarrow> bool) \<Rightarrow> bool" where
  "ends m s Q = (case m s of (r, s') \<Rightarrow> Q r s')"

lemma ends_chain: "ends (chain m f) s Q = ends m s (\<lambda>r s'. case r of Inl e \<Rightarrow> Q (Inl e) s' | Inr x \<Rightarrow> ends (f x) s' Q)"
  by (simp add: ends_def chain_def split: prod.split sum.split)

lemma ends_try_ask: "ends (try_ask f) s Q = (case f (sv_world s) of (r, w) \<Rightarrow> Q (Inr r) (s\<lparr>sv_world := w\<rparr>))"
  by (simp add: ends_def try_ask_def split: prod.split)

lemma ends_if: "ends (if b then m else n) s Q = (if b then ends m s Q else ends n s Q)"
  by simp

lemma ends_simple:
  "ends (fine x) s P = P (Inr x) s"
  "ends (stop e) s P = P (Inl e) s"
  "ends (seen_by g) s P = ends (g s) s P"
  "ends (turn t) s Q = Q (Inr ()) (s\<lparr>sv_cur := t (sv_cur s)\<rparr>)"
  "ends (amend d) s Q = Q (Inr ()) (s\<lparr>sv_db := d (sv_db s)\<rparr>)"
  "ends save s Q = Q (Inr ()) (s\<lparr>sv_log := sv_db s # sv_log s\<rparr>)"
  by (simp_all add: ends_def fine_def stop_def seen_by_def turn_def amend_def save_def)

lemmas ends_rules = ends_chain ends_try_ask ends_if ends_simple

lemma ends_mono: "ends m s P \<Longrightarrow> (\<And>r s'. P r s' \<Longrightarrow> Q r s') \<Longrightarrow> ends m s Q"
  by (auto simp: ends_def split: prod.splits)

lemma ends_step: "ends m s (\<lambda>r s'. \<exists>x. r = Inr x \<and> P x s') \<Longrightarrow> (\<And>x s'. P x s' \<Longrightarrow> ends (f x) s' Q) \<Longrightarrow> ends (chain m f) s Q"
  unfolding ends_chain by (erule ends_mono) (auto simp del: ends_chain)

lemma ends_fail: "ends m s (\<lambda>r s'. \<exists>e. r = Inl e \<and> P e s') \<Longrightarrow> (\<And>e s'. P e s' \<Longrightarrow> Q (Inl e) s') \<Longrightarrow> ends (chain m f) s Q"
  unfolding ends_chain by (erule ends_mono) auto

lemma ends_with_repo:
  "find_job (sv_db s) jid = Some j \<Longrightarrow> find_repo (sv_db s) (ij_repo j) = Some r \<Longrightarrow> ends (with_repo jid f) s Q = ends (f j r) s Q"
  by (simp add: ends_def with_repo_def seen_by_def)

subsection \<open>Finding rows after a write\<close>

lemma find_repo_set: "(\<And>r. rp_id (f r) = rp_id r) \<Longrightarrow> find_repo (set_repo i f db) k = map_option (\<lambda>r. if rp_id r = i then f r else r) (find_repo db k)"
proof -
  assume f: "\<And>r. rp_id (f r) = rp_id r"
  have "find (\<lambda>r. rp_id r = k) (map (\<lambda>r. if rp_id r = i then f r else r) rs) = map_option (\<lambda>r. if rp_id r = i then f r else r) (find (\<lambda>r. rp_id r = k) rs)" for rs
    by (induction rs) (auto simp: f)
  then show ?thesis by (simp add: find_repo_def set_repo_def)
qed

lemma rows_after [simp]:
  "find_job (set_repo i f db) k = find_job db k" "find_repo (set_job i g db) k = find_repo db k"
  "im_commits (set_repo i f db) = im_commits db" "im_commits (set_job i g db) = im_commits db"
  by (simp_all add: find_job_def find_repo_def set_repo_def set_job_def)

subsection \<open>A job that is indexing\<close>

text \<open>The cursor is in the index phase, and \<open>git\<close> says whether the read-only copy has been tried.\<close>

definition index_cursor :: "bool \<Rightarrow> cursor \<Rightarrow> bool" where
  "index_cursor git c \<longleftrightarrow> cr_phase c = ''index_commits'' \<and> \<not> cr_partial c \<and> extras_ok (cr_extras c)
     \<and> (\<exists>n. map_of (cr_extras c) ''issues_stored'' = Some (JInt n)) \<and> (jget (cr_extras c) ''commit_source'' = JStr ''git'') = git"

definition has_rows :: "int \<Rightarrow> commit_row list \<Rightarrow> import_db \<Rightarrow> bool" where
  "has_rows jid cs db \<longleftrightarrow> (\<exists>j r. find_job db jid = Some j \<and> find_repo db (ij_repo j) = Some r) \<and> im_commits db = cs"

lemma has_rows_repo: "(\<And>r. rp_id (f r) = rp_id r) \<Longrightarrow> has_rows jid cs db \<Longrightarrow> has_rows jid cs (set_repo i f db)"
  by (auto simp: has_rows_def find_repo_set)

lemma has_rows_job: "(\<And>j. ij_id (f j) = ij_id j \<and> ij_repo (f j) = ij_repo j) \<Longrightarrow> has_rows jid cs db \<Longrightarrow> has_rows jid cs (set_job jid f db)"
  by (auto simp: has_rows_def find_job_set)

definition indexing :: "int \<Rightarrow> commit_row list \<Rightarrow> bool \<Rightarrow> 'w import_state \<Rightarrow> bool" where
  "indexing jid cs git s \<longleftrightarrow> has_rows jid cs (sv_db s) \<and> index_cursor git (sv_cur s)"

lemma jget_put: "jget (put k v d) k' = (if k' = k then v else jget d k')"
  by (simp add: jget_def map_of_put)

lemma index_put:
  "index_cursor git c \<Longrightarrow> index_cursor git (put_extra ''policy_read'' v c)"
  "index_cursor git c \<Longrightarrow> index_cursor True (put_extra ''commit_source'' (JStr ''git'') c)"
  by (auto simp: index_cursor_def put_extra_def map_of_put jget_put intro!: extras_ok_put) (simp_all add: CURSOR_KEYS_def)

lemma policy_ends:
  assumes "indexing jid cs git s"
  shows "ends (read_policy_once lib cl r name) s (\<lambda>res s'. \<exists>u. res = Inr u \<and> indexing jid cs git s')"
proof -
  have rows: "has_rows jid cs (sv_db s)" and c: "index_cursor git (sv_cur s)" using assms by (simp_all add: indexing_def)
  have "has_rows jid cs (set_repo (rp_id r) cleared_policy (sv_db s))" "has_rows jid cs (set_repo (rp_id r) (cached_policy p) (sv_db s))" for p
    by (rule has_rows_repo [OF _ rows], simp add: cleared_policy_def cached_policy_def)+
  then show ?thesis using index_put(1) [OF c] assms
    by (auto simp: read_policy_once_def refresh_repo_policy_def ends_rules indexing_def Let_def split: prod.split)
qed

definition no_history :: "'w import_client \<Rightarrow> bool" where
  "no_history cl \<longleftrightarrow> (\<forall>n b p q w. \<exists>m. fst (stream_commits cl n b p q w) = Inl m) \<and> (\<forall>n b k w. \<exists>m. fst (git_stream cl n b k w) = Inl m)"

lemma rows_when_tried:
  assumes "indexing jid cs True s" and "no_history cl"
  shows "ends (commit_rows lib cfg cl name b room) s (\<lambda>res s'. res = Inr (False, False, []) \<and> indexing jid cs True s')"
proof -
  obtain m w where "stream_commits cl name b (max 1 (cr_page (sv_cur s))) (ic_page_size cfg) (sv_world s) = (Inl m, w)"
    using assms(2) unfolding no_history_def by (metis prod.collapse)
  moreover have "jget (cr_extras (sv_cur s)) ''commit_source'' = JStr ''git''" using assms(1) by (simp add: indexing_def index_cursor_def)
  ultimately show ?thesis using assms(1) by (simp add: commit_rows_def ends_rules Let_def indexing_def)
qed

lemma rows_when_untried:
  assumes "indexing jid cs False s" and "no_history cl"
  shows "ends (commit_rows lib cfg cl name b room) s (\<lambda>res s'. \<exists>e. res = Inl e \<and> e \<noteq> FlushFailed \<and> indexing jid cs True s')"
proof -
  obtain m w where 1: "stream_commits cl name b (max 1 (cr_page (sv_cur s))) (ic_page_size cfg) (sv_world s) = (Inl m, w)"
    using assms(2) unfolding no_history_def by (metis prod.collapse)
  obtain m' w' where 2: "git_stream cl name b (room + 1) w = (Inl m', w')"
    using assms(2) unfolding no_history_def by (metis prod.collapse)
  have c: "index_cursor False (sv_cur s)" using assms(1) by (simp add: indexing_def)
  then have "jget (cr_extras (sv_cur s)) ''commit_source'' \<noteq> JStr ''git''" by (simp add: index_cursor_def)
  with 1 2 show ?thesis using assms(1) index_put(2) [OF c] by (simp add: commit_rows_def ends_rules Let_def indexing_def)
qed


lemma mirror_ends:
  assumes "has_rows jid cs (sv_db s)"
  shows "ends (mirror_state lib cfg jid tot dn) s (\<lambda>res s'. \<exists>u. res = Inr u \<and> has_rows jid cs (sv_db s') \<and> sv_cur s' = sv_cur s)"
  using has_rows_job [OF _ assms, of "mirrored lib cfg (sv_cur s) tot dn"] by (simp add: mirror_state_def ends_rules mirrored_def)

text \<open>Where a step of the index phase leaves the job.\<close>

definition indexed :: "int \<Rightarrow> commit_row list \<Rightarrow> 'w import_state \<Rightarrow> bool" where
  "indexed jid cs s \<longleftrightarrow> has_rows jid cs (sv_db s) \<and> cr_phase (sv_cur s) = ''done'' \<and> \<not> cr_partial (sv_cur s)
     \<and> (\<exists>n. map_of (cr_extras (sv_cur s)) ''issues_stored'' = Some (JInt n))"

lemma empty_page_ends:
  assumes "indexing jid cs git s" and "0 \<le> room"
  shows "ends (index_page lib cfg jid repo room (False, False, [])) s (\<lambda>res s'. res = Inr True \<and> indexed jid cs s')"
proof -
  have rows: "has_rows jid cs (sv_db s)" using assms by (simp add: indexing_def)
  have seen: "has_rows jid cs (set_repo repo (\<lambda>r. r\<lparr>rp_commits := n\<rparr>) (sv_db s))" for n by (rule has_rows_repo [OF _ rows]) simp
  show ?thesis using assms
    by (auto simp: index_page_def ends_rules Let_def indexing_def index_cursor_def indexed_def
        intro!: ends_mono [OF mirror_ends [where cs = cs]] seen)
qed

lemma sync_ends: "indexing jid cs git s \<Longrightarrow> indexing jid cs git (s\<lparr>sv_db := set_repo i (\<lambda>r. r\<lparr>rp_sync := st\<rparr>) (sv_db s)\<rparr>)"
  using has_rows_repo [of "\<lambda>r. r\<lparr>rp_sync := st\<rparr>" jid cs "sv_db s" i] by (simp add: indexing_def)

lemma index_step_ends:
  assumes "indexing jid cs git s" and "no_history cl"
  shows "ends (step_index_commits lib cfg cl jid) s
    (\<lambda>res s'. if git then res = Inr True \<and> indexed jid cs s' else \<exists>e. res = Inl e \<and> e \<noteq> FlushFailed \<and> indexing jid cs True s')"
proof -
  obtain j r where "find_job (sv_db s) jid = Some j" "find_repo (sv_db s) (ij_repo j) = Some r"
    using assms(1) by (auto simp: indexing_def has_rows_def)
  note row = ends_with_repo [OF this]
  show ?thesis
  proof (cases git)
    case True
    then show ?thesis using assms unfolding step_index_commits_def row sync_state_def ends_chain [of "amend _"] ends_simple Let_def
      by (auto intro!: ends_step [OF policy_ends [OF sync_ends]] ends_step [where P = "\<lambda>x s'. x = (False, False, []) \<and> indexing jid cs True s'", OF ends_mono [OF rows_when_tried]]
        ends_mono [OF empty_page_ends])
  next
    case False
    then show ?thesis using assms unfolding step_index_commits_def row sync_state_def ends_chain [of "amend _"] ends_simple Let_def
      by (auto intro!: ends_step [OF policy_ends [OF sync_ends]] ends_fail [OF rows_when_untried])
  qed
qed


subsection \<open>Closing the run\<close>

lemma advance_index_ends:
  assumes "indexing jid cs git s" and "no_history cl"
  shows "ends (advance_once lib cfg cl jid) s
    (\<lambda>res s'. if git then res = Inr True \<and> indexed jid cs s' else \<exists>e. res = Inl e \<and> e \<noteq> FlushFailed \<and> indexing jid cs True s')"
proof -
  have "cr_phase (sv_cur s) = ''index_commits''" using assms(1) by (simp add: indexing_def index_cursor_def)
  then have "step_of lib cfg cl jid (cr_phase (sv_cur s)) = step_index_commits lib cfg cl jid" by (simp add: step_of_def)
  then have once: "ends (advance_once lib cfg cl jid) s Q
      = ends (chain (step_index_commits lib cfg cl jid) (\<lambda>moved. chain (mirror_state lib cfg jid None None) (\<lambda>_. fine moved))) s Q" for Q
    by (simp add: advance_once_def ends_simple)
  show ?thesis
  proof (cases git)
    case True
    show ?thesis unfolding once
      by (rule ends_step [where P = "\<lambda>x s'. x = True \<and> indexed jid cs s'", OF ends_mono [OF index_step_ends [OF assms, of lib cfg]]])
        (auto simp: True indexed_def ends_simple intro!: ends_step [OF mirror_ends [where cs = cs]])
  next
    case False
    show ?thesis unfolding once
      by (rule ends_fail [OF ends_mono [OF index_step_ends [OF assms, of lib cfg]]]) (auto simp: False)
  qed
qed

lemma finish_ends:
  assumes "indexed jid cs s"
  shows "ends (finish lib jid n) s (\<lambda>res s'. \<exists>out. res = Inr out \<and> io_status out = ''done'' \<and> im_commits (sv_db s') = cs)"
proof -
  obtain j r where "find_job (sv_db s) jid = Some j" "find_repo (sv_db s) (ij_repo j) = Some r"
    using assms by (auto simp: indexed_def has_rows_def)
  note row = ends_with_repo [OF this]
  show ?thesis using assms unfolding finish_def row by (auto simp: ends_rules Let_def indexed_def has_rows_def)
qed

text \<open>The row of a job that is indexing, as the tables keep it between runs.\<close>

definition index_job :: "int \<Rightarrow> bool \<Rightarrow> import_db \<Rightarrow> bool" where
  "index_job jid git db \<longleftrightarrow> (\<exists>j r c. find_job db jid = Some j \<and> find_repo db (ij_repo j) = Some r \<and> ij_cursor j = to_json c \<and> \<not> ij_partial j
     \<and> index_cursor git c)"

lemma slice_ends: "ends (slice_outcome jid st e n) s Q = Q (fst (slice_outcome jid st e n s)) s"
  by (simp add: ends_def slice_outcome_def)

lemma fail_ends:
  assumes "indexing jid cs git s" and "e \<noteq> FlushFailed"
  shows "ends (fail_job lib jid n e) s (\<lambda>res s'. \<exists>out. res = Inr out \<and> io_status out = ''failed'' \<and> index_job jid git (sv_db s') \<and> im_commits (sv_db s') = cs)"
proof -
  obtain j r where row: "find_job (sv_db s) jid = Some j" "find_repo (sv_db s) (ij_repo j) = Some r"
    using assms by (auto simp: indexing_def has_rows_def)
  have s: "im_commits (sv_db s) = cs" "index_cursor git (sv_cur s)" using assms by (simp_all add: indexing_def has_rows_def)
  let ?db = "set_job jid (failed_row lib (sv_cur s) e) (set_repo (ij_repo j) (\<lambda>r. r\<lparr>rp_sync := ''error''\<rparr>) (sv_db s))"
  have "find_job ?db jid = Some (failed_row lib (sv_cur s) e j)" using row by (simp add: find_job_set failed_row_def)
  moreover have "\<exists>r. find_repo ?db (ij_repo (failed_row lib (sv_cur s) e j)) = Some r" using row by (simp add: find_repo_set failed_row_def)
  moreover have "ij_cursor (failed_row lib (sv_cur s) e j) = to_json (sv_cur s)" "\<not> ij_partial (failed_row lib (sv_cur s) e j)"
    using s(2) by (simp_all add: failed_row_def index_cursor_def)
  ultimately have "index_job jid git ?db" unfolding index_job_def using s(2) by (metis (no_types))
  then show ?thesis using assms(2) row s
    by (simp add: fail_job_def job_of_def ends_rules slice_ends) (simp add: slice_outcome_def)
qed

lemma fail_writes:
  assumes "find_job (sv_db s) jid = Some j" and "e \<noteq> FlushFailed"
  shows "ends (fail_job lib jid n e) s (\<lambda>res s'. \<exists>out. res = Inr out \<and> io_status out = ''failed'' \<and> sv_world s' = sv_world s
    \<and> map_option ij_cursor (find_job (sv_db s') jid) = Some (to_json (sv_cur s)))"
proof -
  have "find_job (set_job jid (failed_row lib (sv_cur s) e) db) jid = map_option (failed_row lib (sv_cur s) e) (find_job db jid)" for db
    by (rule find_job_set) (simp add: failed_row_def)
  moreover have "ij_cursor (failed_row lib (sv_cur s) e j) = to_json (sv_cur s)" by (simp add: failed_row_def)
  ultimately show ?thesis using assms
    by (simp add: fail_job_def job_of_def ends_rules slice_ends) (simp add: slice_outcome_def)
qed

lemma run_index_ends:
  assumes "index_job jid git db" and "no_history cl" and "0 < limit"
  shows "ends (run_import lib cfg cl jid limit) (open_session db w)
    (\<lambda>res s'. \<exists>out. res = Inr out \<and> im_commits (sv_db s') = im_commits db
       \<and> (if git then io_status out = ''done'' else io_status out = ''failed'' \<and> index_job jid True (sv_db s')))"
proof -
  obtain j r c where row: "find_job db jid = Some j" "find_repo db (ij_repo j) = Some r" "ij_cursor j = to_json c" "\<not> ij_partial j"
      "index_cursor git c"
    using assms(1) by (auto simp: index_job_def)
  have id: "ij_id j = jid" using find_SomeD [of "\<lambda>j. ij_id j = jid" "im_jobs db" j] row(1) by (simp add: find_job_def)
  have read: "from_json lib ph (ij_cursor j) = Some c" for ph
    using row(3,5) by (auto intro!: from_to_json simp: index_cursor_def phase_names)
  let ?s1 = "snd (begin_run j c (open_session db w))"
  have c: "c\<lparr>cr_partial := (cr_partial c \<or> ij_partial j)\<rparr> = c" using row(4,5) by (simp add: cursor.equality index_cursor_def)
  have cur: "sv_cur ?s1 = c" using c by (simp add: begin_run_def chain_def turn_def amend_def save_def)
  have "sv_db ?s1 = set_job jid (\<lambda>j. j\<lparr>ij_status := ''running'', ij_started := True\<rparr>) db"
    using id by (simp add: begin_run_def chain_def turn_def amend_def save_def open_session_def)
  moreover have "has_rows jid (im_commits db) db" using row(1,2) by (simp add: has_rows_def)
  ultimately have "has_rows jid (im_commits db) (sv_db ?s1)" using has_rows_job by simp
  then have s1: "indexing jid (im_commits db) git ?s1" using cur row(5) by (simp add: indexing_def)
  obtain res s2 where adv: "advance_once lib cfg cl jid ?s1 = (res, s2)" by fastforce
  note step = advance_index_ends [OF s1 assms(2), of lib cfg, unfolded ends_def adv prod.case]
  have phase: "cr_phase (sv_cur ?s1) = ''index_commits''" using s1 by (simp add: indexing_def index_cursor_def)
  show ?thesis
  proof (cases git)
    case True
    then have s2: "res = Inr True" "indexed jid (im_commits db) s2" using step by simp_all
    then have "import_loop lib cfg cl jid limit 0 0 ?s1 = ((Finished, 1), s2)"
      using adv phase assms(3) by (subst import_loop.simps) (simp add: indexed_def)
    then show ?thesis using finish_ends [OF s2(2), of lib 1] True row(1) read
      by (auto simp: run_import_def open_session_def ends_def close_run_def split: prod.splits sum.splits)
  next
    case False
    then obtain e where s2: "res = Inl e" "e \<noteq> FlushFailed" "indexing jid (im_commits db) True s2" using step by auto
    then have "import_loop lib cfg cl jid limit 0 0 ?s1 = ((Broke e, 0), s2)"
      using adv phase assms(3) by (subst import_loop.simps) simp
    then show ?thesis using fail_ends [OF s2(3,2), of lib 0] False row(1) read
      by (auto simp: run_import_def open_session_def ends_def close_run_def split: prod.splits)
  qed
qed


subsection \<open>A history on one page\<close>

lemma last_page_ends:
  assumes "indexing jid cs git s" and "int (length rows) \<le> room"
  shows "ends (index_page lib cfg jid repo room (fell_back, False, rows)) s (\<lambda>res s'. res = Inr True \<and> (\<exists>cs'. indexed jid cs' s'))"
proof -
  have new: "has_rows jid (f cs) (sv_db s\<lparr>im_commits := f (im_commits (sv_db s))\<rparr>)" for f
    using assms(1) by (auto simp: indexing_def has_rows_def find_job_def find_repo_def)
  have seen: "has_rows jid (f cs) (set_repo repo (\<lambda>r. r\<lparr>rp_commits := n\<rparr>) (sv_db s\<lparr>im_commits := f (im_commits (sv_db s))\<rparr>))"
    and old: "has_rows jid cs (set_repo repo (\<lambda>r. r\<lparr>rp_commits := n\<rparr>) (sv_db s))" for n f
    using assms(1) new has_rows_repo by (simp_all add: indexing_def)
  show ?thesis using assms
    by (auto simp: index_page_def upsert_commits_def ends_rules Let_def indexing_def index_cursor_def indexed_def
        intro!: ends_mono [OF mirror_ends] intro: old seen)
qed

lemma served_step_ends:
  assumes "indexing jid cs False s" and "find_job (sv_db s) jid = Some j" and "find_repo (sv_db s) (ij_repo j) = Some r"
    and "rp_kind r = ''upstream''" and "rows \<noteq> []" and "int (length rows) \<le> ic_max_commits cfg - cr_commits_seen (sv_cur s)"
    and "stream_commits cl (extra_str lib ''forgejo_repo'' (opt_str (rp_forgejo r)) (sv_cur s)) (or_str (rp_branch r) DEFAULT_BRANCH)
      (max 1 (cr_page (sv_cur s))) (ic_page_size cfg) (sv_world s) = (Inr \<lparr>cp_items = rows, cp_more = False\<rparr>, w)"
  shows "ends (advance_once lib cfg cl jid) s (\<lambda>res s'. res = Inr True \<and> (\<exists>cs'. indexed jid cs' s'))"
proof -
  have "cr_phase (sv_cur s) = ''index_commits''" using assms(1) by (simp add: indexing_def index_cursor_def)
  then have "step_of lib cfg cl jid (cr_phase (sv_cur s)) = step_index_commits lib cfg cl jid" by (simp add: step_of_def)
  then have once: "ends (advance_once lib cfg cl jid) s Q
      = ends (chain (step_index_commits lib cfg cl jid) (\<lambda>moved. chain (mirror_state lib cfg jid None None) (\<lambda>_. fine moved))) s Q" for Q
    by (simp add: advance_once_def ends_simple)
  have step: "ends (step_index_commits lib cfg cl jid) s (\<lambda>res s'. res = Inr True \<and> (\<exists>cs'. indexed jid cs' s'))"
  proof -
    let ?synced = "set_repo (rp_id r) (\<lambda>r. r\<lparr>rp_sync := ''indexing''\<rparr>) (sv_db s)"
    have rows: "has_rows jid cs ?synced" "has_rows jid cs (set_repo (rp_id r) cleared_policy ?synced)"
      using assms(1) by (auto simp: indexing_def cleared_policy_def intro!: has_rows_repo)
    have c: "index_cursor False (sv_cur s)" "index_cursor False (put_extra ''policy_read'' v (sv_cur s))" for v
      using assms(1) index_put(1) by (simp_all add: indexing_def)
    have upstream: "or_str ''upstream'' k = ''upstream''" for k by (simp add: or_str_def)
    have page: "cr_page (put_extra k v c) = cr_page c" for k v c by (simp add: put_extra_def)
    note last = ends_mono [OF last_page_ends [where cs = cs and git = False]]
    show ?thesis
      unfolding step_index_commits_def ends_with_repo [OF assms(2,3)] sync_state_def
      using assms(4-7) rows c
      by (auto simp: ends_rules Let_def read_policy_once_def refresh_repo_policy_def upstream commit_rows_def indexing_def page intro!: last)
  qed
  show ?thesis unfolding once
    by (rule ends_step [where P = "\<lambda>x s'. x = True \<and> (\<exists>cs'. indexed jid cs' s')", OF ends_mono [OF step]])
      (auto simp: indexed_def ends_simple intro!: ends_step [OF mirror_ends])
qed

end
