(* ===== verification/RepoImportProps.thy ===== *)
theory RepoImportProps
  imports RepoImportEnds
begin

section \<open>What an import gives\<close>

text \<open>
  What the invariant of an import gives over a Forgejo that serves its lists the way the client takes for granted; and where the
  pipeline does other than its documentation says: a retry that hides a missing history, a choice that is lost, a cursor longer than its
  column, polls that are used up for good, a known path that is never migrated.
\<close>

subsection \<open>The client pages honestly where Forgejo does\<close>

definition page_slice :: "int \<Rightarrow> int \<Rightarrow> 'a list \<Rightarrow> 'a list" where
  "page_slice page per xs = take (nat per) (drop (nat ((page - 1) * per)) xs)"

text \<open>Every usable answer to a request for issues is that page of the listing; any request may fail.\<close>

definition serves_issues :: "import_lib \<Rightarrow> 'w transport \<Rightarrow> issue_item list \<Rightarrow> bool" where
  "serves_issues lib t src \<longleftrightarrow>
     (\<forall>name hs page per w st v.
        fst (exchange t ''GET'' (api_url t (''repos/'' @ percent_path name @ ''/issues'')) hs (issue_params page per) JNull w) = Answer st (Some v)
        \<longrightarrow> st < 400 \<longrightarrow> (\<exists>rows. v = JList (map JObj rows) \<and> map (normalize_issue lib) rows = map Some (page_slice page per src)))"

lemma attempt_answer: "attempt send n w = (Inr (st, v), w') \<Longrightarrow> \<exists>w1. fst (send w1) = Answer st v"
proof (induction n arbitrary: w)
  case (Suc n)
  then show ?case
    by (cases "send w", cases "fst (send w)") (auto split: if_splits intro!: exI [of _ w])
qed simp

lemma get_json_answer:
  assumes "get_json t verb path params content w = (Inr v, w')"
  shows "\<exists>hs w1 st. fst (exchange t verb (api_url t path) hs params content w1) = Answer st (Some v) \<and> st < 400"
proof -
  obtain a w1 where a: "request t verb path params content w = (Inr a, w1)" "json_of a = Inr v"
    using assms by (auto simp: get_json_def map_call_def and_then_Inr split: prod.splits)
  then obtain hs where "attempt (exchange t verb (api_url t path) hs params content) ATTEMPTS w = (Inr a, w1)"
    by (auto simp: request_def split: if_splits sum.splits)
  then have "\<exists>w1. fst (exchange t verb (api_url t path) hs params content w1) = Answer (fst a) (snd a)"
    using attempt_answer [of "exchange t verb (api_url t path) hs params content" ATTEMPTS w "fst a" "snd a" w1] by simp
  moreover have "snd a = Some v" "fst a < 400" using a(2) by (auto simp: json_of_def split: if_splits option.splits)
  ultimately show ?thesis by metis
qed

lemma objects_in_map: "objects_in (map JObj rows) = rows"
  by (induction rows) (simp_all add: objects_in_def)

lemma page_slice_from:
  assumes "0 \<le> offset" and "0 < per"
  shows "drop (nat (offset mod per)) (page_slice (offset div per + 1) per xs) = take (nat (per - offset mod per)) (drop (nat offset) xs)"
    and "int (length (page_slice (offset div per + 1) per xs)) < per \<Longrightarrow> length xs \<le> nat offset + nat (per - offset mod per)"
proof -
  define q where "q = nat (offset div per * per)"
  have rem: "0 \<le> offset mod per" "offset mod per < per" using assms by simp_all
  have "offset = offset div per * per + offset mod per" by simp
  moreover have "0 \<le> offset div per * per" using assms by (simp add: pos_imp_zdiv_nonneg_iff)
  ultimately have off: "nat offset = q + nat (offset mod per)" using rem unfolding q_def by (metis nat_add_distrib)
  have slice: "page_slice (offset div per + 1) per xs = take (nat per) (drop q xs)" by (simp add: page_slice_def q_def)
  show "drop (nat (offset mod per)) (page_slice (offset div per + 1) per xs) = take (nat (per - offset mod per)) (drop (nat offset) xs)"
    unfolding slice off nat_diff_distrib [OF rem(1) order_less_imp_le [OF rem(2)]] by (simp add: drop_take add.commute)
  show "length xs \<le> nat offset + nat (per - offset mod per)" if "int (length (page_slice (offset div per + 1) per xs)) < per"
    using that rem unfolding slice off nat_diff_distrib [OF rem(1) order_less_imp_le [OF rem(2)]] by (simp add: min_def split: if_splits)
qed

lemma forgejo_honest:
  assumes "serves_issues lib t src"
  shows "honest_client src per_page (forgejo_client lib b64 host_of t g)"
  unfolding honest_client_def
proof (intro allI impI)
  fix name after offset w pg
  assume offset: "0 \<le> (offset :: int)" and "fst (stream_issues (forgejo_client lib b64 host_of t g) name after offset per_page w) = Inr pg"
  let ?per = "page_size per_page"
  have per: "0 < ?per" by (simp add: page_size_def)
  have "fst (forgejo_issues lib t name after offset per_page w) = Inr pg"
    using \<open>fst (stream_issues _ _ _ _ _ _) = Inr pg\<close> by (simp add: forgejo_client_def)
  then obtain v w1 where v: "get_json t ''GET'' (''repos/'' @ percent_path name @ ''/issues'') (issue_params (offset div ?per + 1) ?per) JNull w = (Inr v, w1)"
      "issue_page_of lib after offset ?per v = Inr pg"
    using offset by (auto simp: forgejo_issues_def Let_def map_call_def and_then_Inr max_def split: prod.splits sum.splits if_splits)
  then obtain rows where rows: "v = JList (map JObj rows)" "map (normalize_issue lib) rows = map Some (page_slice (offset div ?per + 1) ?per src)"
    using get_json_answer [OF v(1)] assms unfolding serves_issues_def by blast
  have len: "length rows = length (page_slice (offset div ?per + 1) ?per src)" using rows(2) by (metis length_map)
  define new where "new = filter (\<lambda>x. after = 0 \<or> after < it_number x) (drop (nat (offset mod ?per)) (page_slice (offset div ?per + 1) ?per src))"
  have pg: "pg = \<lparr>pg_items = new, pg_next = (if int (length rows) \<ge> ?per then Some (offset + int (length new)) else None)\<rparr>"
    using v(2) rows by (auto simp: issue_page_of_def rows_of_def objects_in_map new_def comp_def Let_def split: if_splits)
  show "honest_page src after offset pg"
    unfolding honest_page_def pg
    by (rule exI [of _ "nat (?per - offset mod ?per)"])
      (use page_slice_from [OF offset per, of src] len in \<open>simp add: new_def split: option.split\<close>)
qed

subsection \<open>A finished import is complete\<close>

lemma find_past: "find P xs = None \<Longrightarrow> find P (xs @ ys) = find P ys"
  by (induction xs) (auto split: if_splits)

lemma created_job_ok:
  assumes "create_job lib db url mode repo_id prs skip = (Inr job, db1)" and "mode \<noteq> ''code''" and "skip = None \<or> skip = Some ''mirror_issues''"
    and "list_all (\<lambda>j. ij_id j < im_next_job db) (im_jobs db)" and "listing_ok src"
  shows "job_ok \<lparr>gl_src = src, gl_prs = prs, gl_repo = ij_repo job, gl_job = ij_id job\<rparr> db1"
proof -
  let ?g = "\<lparr>gl_src = src, gl_prs = prs, gl_repo = ij_repo job, gl_job = ij_id job\<rparr>"
  obtain source where source: "parse_source (il_ip6 lib) url = Inr source" using assms(1) by (auto simp: create_job_def split: sum.splits)
  have mode: "mode = ''code+issues'' \<or> mode = ''issues''"
    using assms(1,2) source by (auto simp: create_job_def IMPORT_MODES_def split: if_splits)
  obtain r db0 where r: "target_repo db source repo_id = (r, db0)" by (cases "target_repo db source repo_id")
  have jobs: "im_jobs db0 = im_jobs db" using r by (auto simp: target_repo_def Let_def split: option.splits if_splits)
  let ?c = "start_of r mode prs skip"
  have job: "job = new_job (rp_id r) mode ?c (im_next_job db)" and db1: "im_jobs db1 = im_jobs db @ [job]"
    using assms(1) source r jobs by (auto simp: create_job_def Let_def set_repo_def split: if_splits)
  have "find (\<lambda>j. ij_id j = im_next_job db) (im_jobs db) = None" using assms(4) by (auto simp: find_None_iff list_all_iff)
  then have "find_job db1 (ij_id job) = Some job" using db1 job by (simp add: find_job_def find_past new_job_def)
  moreover have "cursor_ok ?g rows ?c" for rows
  proof -
    have "fresh_cursor p = \<lparr>cr_phase = p, cr_issue = 0, cr_page = 0, cr_issues_seen = 0, cr_commits_seen = 0, cr_partial = False, cr_polls = 0, cr_extras = []\<rparr>" for p
      by (simp add: fresh_cursor_def)
    moreover have "\<forall>x \<in> set src. 0 < it_number x" using assms(5) by (simp add: listing_ok_def list_all_iff)
    ultimately show ?thesis using assms(3) mode
      by (auto simp: start_of_def Let_def cursor_ok_def extras_ok_def phase_names free_keys untouched_def flags_ok_def flag_of_def mirrored_to_def
          holds_all_def opt_str_def intro!: exI [of _ 0] split: option.splits)
  qed
  moreover have "wants_issues job" using mode job by (auto simp: wants_issues_def new_job_def or_str_def)
  ultimately show ?thesis unfolding job_ok_def using job
    by (intro exI [of _ job] exI [of _ ?c]) (auto simp: new_job_def start_of_def fresh_cursor_def Let_def)
qed

text \<open>
  What workers make of a job: each opens a session on the tables, runs for some number of steps, and leaves one of the states it
  committed, the last or, when it dies, an earlier one.
\<close>

inductive worked_on :: "import_lib \<Rightarrow> import_config \<Rightarrow> 'w import_client \<Rightarrow> int \<Rightarrow> import_db \<Rightarrow> import_db \<Rightarrow> bool"
  for lib cfg cl jid db where
  untouched: "worked_on lib cfg cl jid db db"
| slice: "worked_on lib cfg cl jid db db' \<Longrightarrow> db'' \<in> set (sv_log (snd (run_import lib cfg cl jid limit (open_session db' w)))) \<Longrightarrow> worked_on lib cfg cl jid db db''"

lemma worked_on_ok:
  assumes "worked_on lib cfg cl (gl_job g) db db'" and "job_ok g db" and "listing_ok (gl_src g)" and "honest_client (gl_src g) (ic_page_size cfg) cl"
  shows "job_ok g db'"
  using assms(1,2)
proof induction
  case (slice db' db'' limit w)
  obtain r s where "run_import lib cfg cl (gl_job g) limit (open_session db' w) = (r, s)" by fastforce
  with run_import_sound [OF slice.IH [OF slice.prems] assms(3,4) this] slice.hyps(2) show ?case by (auto simp: logged_def)
qed

text \<open>
  The meaning of the invariant. Let Forgejo serve one unchanging list of issues in ascending order, and honour the parameters
  \<open>page\<close>, \<open>per_page\<close>, \<open>sort\<close> and \<open>direction\<close> the client sends. (The real service pages by \<open>limit\<close> and lists the newest
  first, so that this is what the code relies on and not what it has.) Then, however often workers die and resume, at any commit, and
  whatever requests fail, a job that ends done and not partial has stored every issue listed, and every pull request if they were asked for.
\<close>

lemma finished_import_is_complete:
  assumes "create_job lib db url mode repo_id prs skip = (Inr job, db1)" and "mode \<noteq> ''code''" and "skip = None \<or> skip = Some ''mirror_issues''"
    and "list_all (\<lambda>j. ij_id j < im_next_job db) (im_jobs db)" and "listing_ok src" and "serves_issues lib t src"
    and "cl = forgejo_client lib b64 host_of t g" and "worked_on lib cfg cl (ij_id job) db1 db2"
    and "run_import lib cfg cl (ij_id job) limit (open_session db2 w) = (Inr out, s)" and "io_status out = ''done''"
  shows "list_all (\<lambda>x. it_pr x \<and> \<not> prs \<or> issue_of (ij_repo job) x \<in> set (im_issues (sv_db s))) src"
proof -
  let ?g = "\<lparr>gl_src = src, gl_prs = prs, gl_repo = ij_repo job, gl_job = ij_id job\<rparr>"
  have honest: "honest_client (gl_src ?g) (ic_page_size cfg) cl" using forgejo_honest [OF assms(6)] assms(7) by simp
  have listing: "listing_ok (gl_src ?g)" using assms(5) by simp
  have "job_ok ?g db2"
    using worked_on_ok [of lib cfg cl ?g db1 db2] created_job_ok [OF assms(1-5)] assms(8) listing honest by simp
  from run_import_sound [OF this listing honest, of lib limit w "Inr out" s] assms(9,10)
  show ?thesis by (auto simp: holds_all_def asked_def list_all_iff)
qed

subsection \<open>A small Forgejo\<close>

definition plain_scale :: "int \<Rightarrow> int \<Rightarrow> int \<Rightarrow> int \<Rightarrow> int" where
  "plain_scale low width a b = low + width * min a b div b"

definition no_number :: "json \<Rightarrow> int option" where "no_number v = None"
definition no_text :: "json \<Rightarrow> string" where "no_text v = []"
definition no_ip6 :: "string \<Rightarrow> bool" where "no_ip6 s = False"
definition no_policy :: "string \<Rightarrow> policy_defaults option" where "no_policy s = None"

definition plain_lib :: import_lib where
  "plain_lib = \<lparr>il_scale = plain_scale, il_int = no_number, il_str = no_text, il_ip6 = no_ip6, il_policy = no_policy,
     il_builtin = \<lparr>pd_auto = True, pd_curator = ''b'', pd_interval = 0\<rparr>\<rparr>"

fun int_at :: "json \<Rightarrow> int" where
  "int_at (JInt i) = i"
| "int_at _ = 0"

definition listed :: "jobject \<Rightarrow> jobject list \<Rightarrow> answer" where
  "listed params rows = Answer 200 (Some (JList (map JObj (page_slice (int_at (jget params ''page'')) (int_at (jget params ''per_page'')) rows))))"

definition number_row :: "int \<Rightarrow> jobject" where
  "number_row n = [(''number'', JInt n), (''id'', JInt n)]"

definition sha_row :: "int \<Rightarrow> jobject" where
  "sha_row n = [(''sha'', JStr (str_of_int n))]"

text \<open>It lists issues and commits by number, and knows every repository asked for.\<close>

definition small_exchange :: "int list \<Rightarrow> int list \<Rightarrow> string \<Rightarrow> string \<Rightarrow> (string \<times> string) list \<Rightarrow> jobject \<Rightarrow> json \<Rightarrow> unit \<Rightarrow> answer \<times> unit" where
  "small_exchange issues commits verb url hs params content w =
     (if endswith url ''/issues'' then listed params (map number_row issues)
      else if endswith url ''/commits'' then listed params (map sha_row commits)
      else Answer 200 (Some (JObj [(''full_name'', JStr ''o/n'')])), w)"

definition small_forgejo :: "int list \<Rightarrow> int list \<Rightarrow> unit transport" where
  "small_forgejo issues commits = \<lparr>exchange = small_exchange issues commits, base_url = ''u'', admin_token = [], source_token = []\<rparr>"

text \<open>Every run of git of the read-only copy, whose directory exists, ends the same way.\<close>

definition git_answer :: "string + string \<Rightarrow> string list \<Rightarrow> string option \<Rightarrow> (string \<times> string) list \<Rightarrow> unit \<Rightarrow> (string + string) \<times> unit" where
  "git_answer out args cwd env w = (out, w)"

definition any_dir :: "string \<Rightarrow> unit \<Rightarrow> bool" where "any_dir d w = True"
definition same_text :: "string \<Rightarrow> string" where "same_text s = s"
definition undecoded :: "string \<Rightarrow> string option" where "undecoded s = None"

definition small_git :: "string + string \<Rightarrow> unit git_reader" where
  "small_git out = \<lparr>run_git = git_answer out, is_dir = any_dir, mirror_dir = ''m'', git_base = [], helper_args = []\<rparr>"

definition small_client :: "int list \<Rightarrow> int list \<Rightarrow> string + string \<Rightarrow> unit import_client" where
  "small_client issues commits out = forgejo_client plain_lib undecoded same_text (small_forgejo issues commits) (small_git out)"

definition small_config :: import_config where
  "small_config = \<lparr>ic_owner = ''o'', ic_max_issues = 10, ic_max_commits = 3, ic_page_size = 2, ic_poll_attempts = 3\<rparr>"

text \<open>A repository whose copy is known, so that a job may start at the issues.\<close>

definition known_db :: import_db where
  "known_db = no_imports\<lparr>im_repos := [(new_repo \<lparr>rs_host = ''h'', rs_owner = ''a'', rs_name = ''b'', rs_clone = ''git@h:a/b'', rs_path = [],
     rs_kind = ''git''\<rparr> 1)\<lparr>rp_forgejo := Some ''o/n''\<rparr>], im_next_repo := 2\<rparr>"

definition known_job :: "(import_error + job_row) \<times> import_db" where
  "known_job = create_job plain_lib known_db ''git@h:a/b'' ''issues'' None True (Some ''mirror_issues'')"

definition known_run :: "int list \<Rightarrow> int list \<Rightarrow> string + string \<Rightarrow> (import_error + import_outcome) \<times> unit import_state" where
  "known_run issues commits out = run_import plain_lib small_config (small_client issues commits out) 1 9 (open_session (snd known_job) ())"

lemma endswith_tail: "endswith (xs @ ys) ys"
  by (simp add: endswith_def)

lemma small_serves:
  assumes "map (\<lambda>n. normalize_issue plain_lib (number_row n)) issues = map Some src"
  shows "serves_issues plain_lib (small_forgejo issues commits) src"
proof -
  have url: "endswith (api_url t (''repos/'' @ percent_path name @ ''/issues'')) ''/issues''" for t :: "unit transport" and name
  proof -
    have "lstrip_char CHR ''/'' (''repos/'' @ p) = ''repos/'' @ p" for p by (simp add: lstrip_char_def)
    then have "api_url t (''repos/'' @ percent_path name @ ''/issues'') = (base_url t @ ''/api/v1/'' @ ''repos/'' @ percent_path name) @ ''/issues''"
      unfolding api_url_def by simp
    then show ?thesis by (simp only: endswith_tail)
  qed
  have "map (normalize_issue plain_lib) (page_slice page per (map number_row issues)) = map Some (page_slice page per src)" for page per
    using assms by (simp add: page_slice_def take_map [symmetric] drop_map [symmetric] comp_def)
  then show ?thesis using url
    by (auto simp: serves_issues_def small_forgejo_def small_exchange_def listed_def issue_params_def jget_def)
qed


text \<open>The job, its tables, and what the service is told: enough to evaluate a run with the client left folded.\<close>

definition known_row :: job_row where
  "known_row = \<lparr>ij_id = 1, ij_repo = 1, ij_mode = ''issues'', ij_status = ''queued'', ij_phase = ''mirror_issues'',
     ij_cursor = Stored (JObj [(''v'', JInt 1), (''phase'', JStr ''mirror_issues''), (''issue_number'', JInt 0), (''commit_page'', JInt 0),
       (''issues_seen'', JInt 0), (''commits_seen'', JInt 0), (''partial'', JBool False), (''migrate_polls'', JInt 0),
       (''forgejo_repo'', JStr ''o/n''), (''include_issues'', JBool True), (''include_prs'', JBool True)]),
     ij_progress = 0, ij_total = 0, ij_done = 0, ij_partial = False, ij_error = None, ij_started = False, ij_finished = False\<rparr>"

lemma known_job_value:
  "known_job = (Inr known_row, \<lparr>im_repos = [\<lparr>rp_id = 1, rp_slug = ''a/b'', rp_source = ''import'', rp_url = Some ''https://h/a/b'',
       rp_branch = ''main'', rp_forgejo = Some ''o/n'', rp_kind = ''upstream'', rp_sync = ''pending'', rp_issues = 0, rp_commits = 0,
       rp_auto = None, rp_curator = None, rp_interval = None\<rparr>],
     im_jobs = [known_row], im_issues = [], im_commits = [], im_next_repo = 2, im_next_job = 2\<rparr>)"
  by code_simp

definition plain_issue :: "int \<Rightarrow> issue_item" where
  "plain_issue n = \<lparr>it_number = n, it_pr = False, it_title = [], it_body = [], it_state = ''open'', it_author = [], it_labels = [],
     it_milestone = None, it_url = JNull, it_source = str_of_int n\<rparr>"

lemma one_issue: "stream_issues (small_client [1] [1] (Inl [])) ''o/n'' 0 0 2 () = (Inr \<lparr>pg_items = [plain_issue 1], pg_next = None\<rparr>, ())"
  by code_simp

lemma one_commit:
  "stream_commits (small_client [1] [1] (Inl [])) ''o/n'' ''main'' 1 2 ()
     = (Inr \<lparr>cp_items = [\<lparr>ct_sha = ''1'', ct_author = [], ct_message = []\<rparr>], cp_more = False\<rparr>, ())"
  by code_simp

lemmas eval_state = fine_def stop_def chain_def try_ask_def ask_def amend_def turn_def save_def seen_by_def with_repo_def Let_def
  find_job_def find_repo_def set_repo_def set_job_def opt_str_def or_str_def put_extra_def put_def flag_of_def extra_str_def jget_def

lemmas eval_job = run_import_def begin_run_def open_session_def from_json_def read_cursor_def JOB_PHASES_def CURSOR_VERSION_def
  CURSOR_KEYS_def int_or_zero_def advance_once_def step_of_def mirror_state_def mirrored_def payload_def cursor_fields_def to_json_def
  sync_state_def

lemmas eval_pages = step_mirror_issues_def mirror_page_def stored_of_def max_number_def consume_page_def upsert_issues_def
  upsert_issue_def issue_target_def item_key_def issue_of_def and_then_def ISSUE_STATES_def has_source_def has_number_def count_where_def

lemma numeral_one: "py_strip ''1'' = ''1''" "str_of_int 1 = ''1''"
  by code_simp+

text \<open>The run has read the issue and is at the commits, which \<open>served_step_ends\<close> closes.\<close>

definition at_commits :: "unit import_state \<Rightarrow> bool" where
  "at_commits s \<longleftrightarrow> (\<exists>j r. find_job (sv_db s) 1 = Some j \<and> find_repo (sv_db s) (ij_repo j) = Some r \<and> rp_kind r = ''upstream''
     \<and> extra_str plain_lib ''forgejo_repo'' (opt_str (rp_forgejo r)) (sv_cur s) = ''o/n'' \<and> rp_branch r = ''main'')
     \<and> index_cursor False (sv_cur s) \<and> cr_commits_seen (sv_cur s) = 0 \<and> cr_page (sv_cur s) = 0"

lemma known_issue_step:
  "case from_json plain_lib ''mirror_issues'' (ij_cursor known_row) of
     None \<Rightarrow> False
   | Some c \<Rightarrow> ends (advance_once plain_lib small_config (small_client [1] [1] (Inl [])) 1)
       (snd (begin_run known_row c (open_session (snd known_job) ()))) (\<lambda>res s. res = Inr True \<and> at_commits s)"
  apply (simp add: known_job_value known_row_def eval_state eval_job ends_def)
  apply (simp add: eval_state eval_job eval_pages one_issue plain_issue_def small_config_def numeral_one)
  apply (simp add: at_commits_def eval_state index_cursor_def extras_ok_def CURSOR_KEYS_def)
  done

lemma commits_then_done:
  assumes "at_commits s"
  shows "ends (advance_once plain_lib small_config (small_client [1] [1] (Inl [])) 1) s (\<lambda>res s'. res = Inr True \<and> (\<exists>cs. indexed 1 cs s'))"
proof -
  obtain j r where row: "find_job (sv_db s) 1 = Some j" "find_repo (sv_db s) (ij_repo j) = Some r" "rp_kind r = ''upstream''"
      "extra_str plain_lib ''forgejo_repo'' (opt_str (rp_forgejo r)) (sv_cur s) = ''o/n''" "rp_branch r = ''main''"
    and c: "index_cursor False (sv_cur s)" "cr_commits_seen (sv_cur s) = 0" "cr_page (sv_cur s) = 0"
    using assms by (auto simp: at_commits_def)
  have "indexing 1 (im_commits (sv_db s)) False s" using row(1,2) c(1) by (simp add: indexing_def has_rows_def)
  moreover have "sv_world s = ()" by simp
  ultimately show ?thesis using c(2,3) one_commit
    by (intro served_step_ends [where rows = "[\<lparr>ct_sha = ''1'', ct_author = [], ct_message = []\<rparr>]" and w = "()", OF _ row(1-3)])
      (simp_all add: row(4,5) small_config_def or_str_def)
qed

lemma known_run_done: "\<exists>out s. known_run [1] [1] (Inl []) = (Inr out, s) \<and> io_status out = ''done''"
proof -
  let ?cl = "small_client [1] [1] (Inl [])"
  obtain c s1 where start: "from_json plain_lib ''mirror_issues'' (ij_cursor known_row) = Some c"
      "advance_once plain_lib small_config ?cl 1 (snd (begin_run known_row c (open_session (snd known_job) ()))) = (Inr True, s1)" "at_commits s1"
    using known_issue_step by (cases "from_json plain_lib ''mirror_issues'' (ij_cursor known_row)") (auto simp: ends_def split: prod.splits)
  obtain s2 cs where second: "advance_once plain_lib small_config ?cl 1 s1 = (Inr True, s2)" "indexed 1 cs s2"
    using commits_then_done [OF start(3)] by (auto simp: ends_def split: prod.splits)
  obtain out s where "finish plain_lib 1 2 s2 = (Inr out, s)" "io_status out = ''done''"
    using finish_ends [OF second(2), of plain_lib 2] by (auto simp: ends_def split: prod.splits)
  moreover have "map_option cr_phase (from_json plain_lib ''mirror_issues'' (ij_cursor known_row)) = Some ''mirror_issues''" by code_simp
  then have "cr_phase c = ''mirror_issues''" using start(1) by simp
  then have "cr_phase (sv_cur (snd (begin_run known_row c (open_session (snd known_job) ())))) = ''mirror_issues''"
    by (simp add: begin_run_def chain_def turn_def amend_def save_def)
  moreover have "cr_phase (sv_cur s1) = ''index_commits''" using start(3) by (simp add: at_commits_def index_cursor_def)
  moreover have "cr_phase (sv_cur s2) = ''done''" using second(2) by (simp add: indexed_def)
  moreover have "import_loop plain_lib small_config ?cl 1 9 1 0 s1 = ((Finished, 2), s2)"
    using second calculation by (subst import_loop.simps) simp
  moreover have "import_loop plain_lib small_config ?cl 1 9 0 0 (snd (begin_run known_row c (open_session (snd known_job) ()))) = ((Finished, 2), s2)"
    using start(2) calculation by (subst import_loop.simps) (simp add: idle_budget_def)
  moreover have "find_job (snd known_job) 1 = Some known_row" by (simp add: known_job_value find_job_def known_row_def)
  moreover have "or_str (ij_phase known_row) ''validate'' = ''mirror_issues''" by (simp add: known_row_def or_str_def)
  ultimately show ?thesis using start(1) by (simp add: known_run_def run_import_def open_session_def close_run_def)
qed

lemma known_import_is_complete:
  "\<exists>s. snd (known_run [1] [1] (Inl [])) = s \<and> issue_of 1 (plain_issue 1) \<in> set (im_issues (sv_db s))"
proof -
  obtain out s where run: "known_run [1] [1] (Inl []) = (Inr out, s)" "io_status out = ''done''"
    using known_run_done by (cases "known_run [1] [1] (Inl [])") (auto split: sum.splits)
  have job: "create_job plain_lib known_db ''git@h:a/b'' ''issues'' None True (Some ''mirror_issues'') = (Inr known_row, snd known_job)"
    using known_job_value by (simp add: known_job_def)
  have key: "item_key (plain_issue 1) = ''1''" by code_simp
  have listing: "listing_ok [plain_issue 1]"
    by (simp add: listing_ok_def key) (simp add: plain_issue_def)
  have serves: "serves_issues plain_lib (small_forgejo [1] [1]) [plain_issue 1]"
    by (rule small_serves) code_simp
  have "run_import plain_lib small_config (small_client [1] [1] (Inl [])) (ij_id known_row) 9 (open_session (snd known_job) ()) = (Inr out, s)"
    using run(1) by (simp add: known_run_def known_row_def)
  then have "list_all (\<lambda>x. it_pr x \<and> \<not> True \<or> issue_of (ij_repo known_row) x \<in> set (im_issues (sv_db s))) [plain_issue 1]"
    by (intro finished_import_is_complete [OF job _ _ _ listing serves small_client_def worked_on.untouched _ run(2)])
      (simp_all add: known_db_def no_imports_def)
  then show ?thesis using run by (simp add: known_row_def plain_issue_def)
qed

subsection \<open>A job that meets a missing history twice\<close>

text \<open>
  C23: a retry hides a missing history. Where neither Forgejo nor the read-only copy can give the commits, the first run fails and
  says so; the retry of the same job ends done, not partial, with no commit stored: the failed run left the mark that git was tried.
\<close>

theorem retry_hides_missing_history:
  assumes "find_job db jid = Some j" and "find_repo db (ij_repo j) = Some r" and "ij_cursor j = to_json c" and "\<not> ij_partial j"
    and "cr_phase c = ''index_commits''" and "\<not> cr_partial c" and "extras_ok (cr_extras c)"
    and "map_of (cr_extras c) ''issues_stored'' = Some (JInt n)" and "jget (cr_extras c) ''commit_source'' = JNull"
    and "no_history cl" and "0 < limit"
  shows "let (first, s) = run_import lib cfg cl jid limit (open_session db w);
             (second, s') = run_import lib cfg cl jid limit (open_session (sv_db s) w')
         in case (first, second) of
              (Inr a, Inr b) \<Rightarrow> io_status a = ''failed'' \<and> io_status b = ''done'' \<and> im_commits (sv_db s') = im_commits db
            | _ \<Rightarrow> False"
proof -
  have "index_cursor False c" using assms(5-9) by (simp add: index_cursor_def)
  then have job: "index_job jid False db" using assms(1-4) unfolding index_job_def by blast
  obtain a s where first: "run_import lib cfg cl jid limit (open_session db w) = (Inr a, s)" "io_status a = ''failed''"
      "index_job jid True (sv_db s)" "im_commits (sv_db s) = im_commits db"
    using run_index_ends [OF job assms(10,11), of lib cfg w] by (auto simp: ends_def split: prod.splits)
  obtain b s' where "run_import lib cfg cl jid limit (open_session (sv_db s) w') = (Inr b, s')" "io_status b = ''done''"
      "im_commits (sv_db s') = im_commits db"
    using run_index_ends [OF first(3) assms(10,11), of lib cfg w'] first(4) by (auto simp: ends_def split: prod.splits)
  then show ?thesis using first by simp
qed

definition down :: "string \<Rightarrow> unit \<Rightarrow> (string + 'a) \<times> unit" where "down n w = (Inl ''down'', w)"

definition down_client :: "unit import_client" where
  "down_client = \<lparr>probe_source = (\<lambda>s. down []), trigger_migration = (\<lambda>s o' n a b c. down n), migration_state = down,
     migration_finished = (\<lambda>d. True), stream_issues = (\<lambda>n a b c. down n), stream_commits = (\<lambda>n b p q. down n), read_policy = down,
     git_stream = (\<lambda>n b k. down n)\<rparr>"

definition late_cursor :: cursor where
  "late_cursor = (fresh_cursor ''index_commits'')\<lparr>cr_extras := [(''forgejo_repo'', JStr ''o/n''), (''issues_stored'', JInt 0)]\<rparr>"

definition late_db :: import_db where
  "late_db = known_db\<lparr>im_jobs := [new_job 1 ''issues'' late_cursor 1]\<rparr>"

theorem retry_hides_missing_history_witness:
  "let (first, s) = run_import plain_lib small_config down_client 1 9 (open_session late_db ());
       (second, s') = run_import plain_lib small_config down_client 1 9 (open_session (sv_db s) ())
   in case (first, second) of
        (Inr a, Inr b) \<Rightarrow> io_status a = ''failed'' \<and> io_status b = ''done'' \<and> im_commits (sv_db s') = im_commits late_db
      | _ \<Rightarrow> False"
proof (rule retry_hides_missing_history [where c = late_cursor and n = 0])
  show "find_job late_db 1 = Some (new_job 1 ''issues'' late_cursor 1)" by (simp add: late_db_def find_job_def new_job_def)
  show "find_repo late_db (ij_repo (new_job 1 ''issues'' late_cursor 1)) = Some (hd (im_repos known_db))"
    by (simp add: late_db_def find_repo_def new_job_def known_db_def new_repo_def)
  show "no_history down_client" by (simp add: no_history_def down_client_def down_def)
qed (simp_all add: new_job_def late_cursor_def fresh_cursor_def extras_ok_def CURSOR_KEYS_def jget_def)

subsection \<open>Choices and limits\<close>

text \<open>
  the choice of pull requests is lost. A job that starts at the beginning is the same row whether they were asked for or
  not, so the run reads the default and imports them.
\<close>

theorem pull_request_choice_is_lost:
  "create_job lib db url mode repo_id prs None = create_job lib db url mode repo_id prs' None"
  by (simp add: create_job_def start_of_def Let_def opt_str_def split: sum.split)

text \<open>What a cursor holds once a job has been validated and migrated.\<close>

definition MIGRATED_KEYS :: "string list" where
  "MIGRATED_KEYS = [''source_url'', ''source_kind'', ''probe_reachable'', ''probe_detail'', ''forgejo_repo'', ''include_issues'', ''include_prs'']"

lemma str_of_nat_some: "str_of_nat n \<noteq> []"
  by (subst str_of_nat.simps) (simp add: Let_def)

lemma spaced_long: "1 \<le> length (spaced v)"
  by (cases v) (auto simp: plain_text_def str_of_int_def Suc_le_eq str_of_nat_some)

lemma join_length: "ws \<noteq> [] \<Longrightarrow> length (join sep ws) + length sep = (\<Sum>w\<leftarrow>ws. length w + length sep)"
  by (induction sep ws rule: join.induct) auto

lemma plain_text_long: "length s + 2 \<le> length (plain_text s)"
proof -
  have one: "1 \<le> length (plain_char c)" for c by (simp add: plain_char_def json_char_def Suc_le_eq Let_def)
  have "length s \<le> length (concat (map plain_char s))" for s
  proof (induction s)
    case (Cons c s)
    then show ?case using one [of c] by simp
  qed simp
  then show ?thesis by (simp add: plain_text_def)
qed


lemma object_length:
  assumes "kvs \<noteq> []"
  shows "(\<Sum>e\<leftarrow>kvs. length (fst e) + 7) \<le> length (spaced (JObj kvs))"
proof -
  let ?f = "\<lambda>e. plain_text (fst e) @ '': '' @ spaced (snd e)"
  have one: "length (fst e) + 7 \<le> length (?f e) + 2" for e
    using plain_text_long [of "fst e"] spaced_long [of "snd e"] by simp
  have "(\<Sum>e\<leftarrow>kvs. length (fst e) + 7) \<le> (\<Sum>e\<leftarrow>kvs. length (?f e) + 2)" by (rule sum_list_mono) (rule one)
  also have "... = length (join '', '' (map ?f kvs)) + 2"
    using join_length [of "map ?f kvs" "'', ''"] assms by (simp add: comp_def)
  finally show ?thesis by (simp add: case_prod_beta')
qed

lemma keys_length:
  assumes "distinct (map fst kvs)" and "distinct ks" and "set ks \<subseteq> fst ` set kvs"
  shows "(\<Sum>k\<leftarrow>ks. length k + 7) \<le> (\<Sum>e\<leftarrow>kvs. length (fst e) + 7)"
proof -
  have "(\<Sum>k\<leftarrow>ks. length k + 7) = (\<Sum>k\<in>set ks. length k + 7)" using assms(2) by (rule sum_list_distinct_conv_sum_set)
  also have "... \<le> (\<Sum>k\<in>set (map fst kvs). length k + 7)" using assms(3) by (intro sum_mono2) auto
  also have "... = (\<Sum>k\<leftarrow>map fst kvs. length k + 7)" using assms(1) by (rule sum_list_distinct_conv_sum_set [symmetric])
  finally show ?thesis by (simp add: comp_def)
qed

lemma long_cursor:
  assumes "extras_ok (cr_extras c)" and "set MIGRATED_KEYS \<subseteq> fst ` set (cr_extras c)"
  shows "256 < length (cursor_text c)"
proof -
  let ?kvs = "sort_key fst (map (\<lambda>(k, v). (k, sort_keys v)) (payload c))" and ?ks = "CURSOR_KEYS @ MIGRATED_KEYS"
  have payload: "map fst (payload c) = CURSOR_KEYS @ map fst (cr_extras c)"
    using payload_append [OF assms(1)] cursor_keys [of c] by simp
  have keys: "fst ` set ?kvs = fst ` set (payload c)" by (simp add: image_image case_prod_beta')
  have "map fst (map (\<lambda>(k, v). (k, sort_keys v)) (payload c)) = map fst (payload c)" by (simp add: comp_def case_prod_beta')
  then have sorted: "distinct (map fst ?kvs) = distinct (map fst (payload c))" unfolding distinct_map [of fst ?kvs] set_sort distinct_sort
    by (metis distinct_map)
  have "distinct CURSOR_KEYS" by (simp add: CURSOR_KEYS_def)
  then have "distinct (map fst (payload c))" using assms(1) by (auto simp: payload extras_ok_def list_all_iff)
  then have distinct: "distinct (map fst ?kvs)" using sorted by blast
  have "fst ` set (payload c) = set CURSOR_KEYS \<union> fst ` set (cr_extras c)" using arg_cong [OF payload, of set] by simp
  then have "set ?ks \<subseteq> fst ` set ?kvs" using assms(2) keys by auto
  moreover have "distinct ?ks" by (simp add: CURSOR_KEYS_def MIGRATED_KEYS_def)
  ultimately have "(\<Sum>k\<leftarrow>?ks. length k + 7) \<le> (\<Sum>e\<leftarrow>?kvs. length (fst e) + 7)" using keys_length distinct by blast
  moreover have "?kvs \<noteq> []"
  proof
    assume "?kvs = []"
    then have "set ?kvs = {}" by (simp only: set_empty)
    then have "fst ` set (payload c) = {}" using keys by simp
    then show False using \<open>fst ` set (payload c) = set CURSOR_KEYS \<union> fst ` set (cr_extras c)\<close> by (simp add: CURSOR_KEYS_def)
  qed
  ultimately have "(\<Sum>k\<leftarrow>?ks. length k + 7) \<le> length (spaced (JObj ?kvs))" using object_length [of ?kvs] by linarith
  moreover have "(\<Sum>k\<leftarrow>?ks. length k + 7) = 262" by (simp add: CURSOR_KEYS_def MIGRATED_KEYS_def)
  ultimately show ?thesis by (simp add: cursor_text_def)
qed

text \<open>What a step leaves of the cursor's extras.\<close>

lemma put_keys: "fst ` set (put k v d) = insert k (fst ` set d)"
  unfolding put_def by (induction d) auto

definition extra_keys :: "cursor \<Rightarrow> string set" where
  "extra_keys c = fst ` set (cr_extras c)"

lemma extra_keys_put: "extra_keys (put_extra k v c) = insert k (extra_keys c)"
  by (simp add: extra_keys_def put_extra_def put_keys)

lemma extra_keys_phase: "extra_keys (c\<lparr>cr_phase := p\<rparr>) = extra_keys c"
  by (simp add: extra_keys_def)

lemmas eval_steps = fine_def stop_def chain_def try_ask_def ask_def amend_def turn_def save_def seen_by_def with_repo_def Let_def

lemma validate_keys:
  assumes "step_validate lib cl jid s = (Inr moved, s')" and "extras_ok (cr_extras (sv_cur s))"
  shows "extras_ok (cr_extras (sv_cur s')) \<and> cr_phase (sv_cur s') = ''migrate''
    \<and> {''source_url'', ''source_kind'', ''probe_reachable'', ''probe_detail''} \<subseteq> extra_keys (sv_cur s')"
  using assms by (auto simp: step_validate_def parsed_source_def eval_steps extra_keys_put extra_keys_phase extras_ok_put_extra free_keys
      split: option.splits sum.splits prod.splits)

lemma forgejo_repo_view: "sv_cur (snd (forgejo_repo_of lib cfg cl r source issues s)) = sv_cur s"
  by (auto simp: forgejo_repo_of_def eval_steps split: sum.splits prod.splits)

lemma migrate_keys:
  assumes "step_migrate lib cfg cl jid s = (Inr moved, s')" and "extras_ok (cr_extras (sv_cur s))"
  shows "extras_ok (cr_extras (sv_cur s')) \<and> insert ''forgejo_repo'' (insert ''include_issues'' (insert ''include_prs'' (extra_keys (sv_cur s)))) \<subseteq> extra_keys (sv_cur s')"
proof -
  have kept: "forgejo_repo_of lib cfg cl r source issues s1 = (x, s2) \<Longrightarrow> sv_cur s2 = sv_cur s1" for r source issues s1 x s2
    using forgejo_repo_view [of lib cfg cl r source issues s1] by simp
  show ?thesis
    using assms by (auto simp: step_migrate_def parsed_source_def sync_state_def mirror_state_def eval_steps extra_keys_put extra_keys_phase extras_ok_put_extra free_keys
      split: option.splits sum.splits prod.splits dest!: kept)
qed

lemma advance_view:
  assumes "advance_once lib cfg cl jid s = (Inr moved, s')"
  obtains s1 where "step_of lib cfg cl jid (cr_phase (sv_cur s)) s = (Inr moved, s1)" "sv_cur s' = sv_cur s1"
    "sv_db s' = set_job jid (mirrored lib cfg (sv_cur s1) None None) (sv_db s1)"
  using assms by (auto simp: advance_once_def mirror_state_def eval_steps split: sum.splits prod.splits)

text \<open>
  C13: the cursor outgrows its column. When a job at its beginning is validated and then migrated, whatever the repository and the
  answers, the run writes a cursor whose text is longer than the 256 characters \<open>ImportJob.cursor\<close> declares.
\<close>

theorem migration_outgrows_the_cursor_column:
  assumes "extras_ok (cr_extras (sv_cur s))" and "cr_phase (sv_cur s) = ''validate''"
    and "advance_once lib cfg cl jid s = (Inr moved, s1)" and "advance_once lib cfg cl jid s1 = (Inr moved', s2)"
    and "find_job (sv_db s2) jid = Some j"
  shows "ij_cursor j = to_json (sv_cur s2) \<and> 256 < length (cursor_text (sv_cur s2))"
proof -
  obtain t1 where t1: "step_validate lib cl jid s = (Inr moved, t1)" "sv_cur s1 = sv_cur t1"
    using advance_view [OF assms(3)] assms(2) by (auto simp: step_of_def)
  note keys1 = validate_keys [OF t1(1) assms(1)]
  have "cr_phase (sv_cur s1) = ''migrate''" using keys1 t1(2) by simp
  then obtain t2 where t2: "step_migrate lib cfg cl jid s1 = (Inr moved', t2)" "sv_cur s2 = sv_cur t2"
      "sv_db s2 = set_job jid (mirrored lib cfg (sv_cur t2) None None) (sv_db t2)"
    using advance_view [OF assms(4)] by (auto simp: step_of_def)
  have "extras_ok (cr_extras (sv_cur s1))" using keys1 t1(2) by simp
  note keys2 = migrate_keys [OF t2(1) this]
  have "extras_ok (cr_extras (sv_cur s2))" "set MIGRATED_KEYS \<subseteq> fst ` set (cr_extras (sv_cur s2))"
    unfolding extra_keys_def [symmetric] using keys1 keys2 unfolding t1(2) t2(2) by (auto simp: MIGRATED_KEYS_def)
  then have "256 < length (cursor_text (sv_cur s2))" by (rule long_cursor)
  moreover have "ij_cursor j = to_json (sv_cur s2)"
  proof -
    have j: "ij_id j = jid" "j \<in> set (im_jobs (sv_db s2))" using find_SomeD [OF assms(5) [unfolded find_job_def]] by simp_all
    from j(2) have "\<exists>i \<in> set (im_jobs (sv_db t2)). j = (if ij_id i = jid then mirrored lib cfg (sv_cur t2) None None i else i)"
      unfolding t2(3) set_job_def by auto
    then obtain i where "j = (if ij_id i = jid then mirrored lib cfg (sv_cur t2) None None i else i)" ..
    then show ?thesis using j(1) unfolding t2(2) by (cases "ij_id i = jid") (simp_all add: mirrored_def)
  qed
  ultimately show ?thesis by blast
qed

definition full_row :: job_row where
  "full_row = new_job 1 ''issues'' (fresh_cursor ''validate'') 1"

definition full_state :: "unit import_state" where
  "full_state = open_session (known_db\<lparr>im_repos := map (\<lambda>r. r\<lparr>rp_url := Some ''git@h:a/b''\<rparr>) (im_repos known_db), im_jobs := [full_row]\<rparr>) ()"

theorem migration_outgrows_the_cursor_column_witness:
  "case advance_once plain_lib small_config down_client 1 full_state of
     (Inr m1, s1) \<Rightarrow> (case advance_once plain_lib small_config down_client 1 s1 of
        (Inr m2, s2) \<Rightarrow> 256 < length (cursor_text (sv_cur s2)) | (Inl e, s2) \<Rightarrow> False) | (Inl e, s1) \<Rightarrow> False"
proof -
  have moves: "case advance_once plain_lib small_config down_client 1 full_state of
     (Inr m1, s1) \<Rightarrow> (case advance_once plain_lib small_config down_client 1 s1 of
        (Inr m2, s2) \<Rightarrow> find_job (sv_db s2) 1 \<noteq> None | (Inl e, s2) \<Rightarrow> False) | (Inl e, s1) \<Rightarrow> False"
    by code_simp
  have start: "extras_ok (cr_extras (sv_cur full_state))" "cr_phase (sv_cur full_state) = ''validate''"
    by (simp_all add: full_state_def open_session_def fresh_cursor_def extras_ok_def)
  show ?thesis using moves migration_outgrows_the_cursor_column [OF start, of plain_lib small_config down_client 1]
    by (fastforce split: prod.splits sum.splits)
qed

text \<open>
  a job whose polls are used up is dead. Nothing sets the count back, so every later run of it fails without asking Forgejo
  anything, and leaves the count higher.
\<close>

theorem used_up_polls_stay_used_up:
  assumes "find_job db jid = Some j" and "find_repo db (ij_repo j) = Some r" and "ij_cursor j = to_json c" and "cr_phase c = ''poll''"
    and "extras_ok (cr_extras c)" and "extra_str lib ''forgejo_repo'' [] c \<noteq> []" and "ic_poll_attempts cfg \<le> cr_polls c" and "0 < limit"
  shows "case run_import lib cfg cl jid limit (open_session db w) of
      (Inr out, s) \<Rightarrow> io_status out = ''failed'' \<and> sv_world s = w \<and> map_option ij_cursor (find_job (sv_db s) jid)
        = Some (to_json (c\<lparr>cr_partial := (cr_partial c \<or> ij_partial j), cr_polls := cr_polls c + 1\<rparr>))
    | (Inl e, s) \<Rightarrow> False"
proof -
  have id: "ij_id j = jid" using find_SomeD [of "\<lambda>j. ij_id j = jid" "im_jobs db" j] assms(1) by (simp add: find_job_def)
  have read: "from_json lib ph (ij_cursor j) = Some c" for ph using assms(3-5) by (auto intro!: from_to_json simp: phase_names)
  let ?c = "c\<lparr>cr_partial := (cr_partial c \<or> ij_partial j)\<rparr>" and ?f = "\<lambda>j. j\<lparr>ij_status := ''running'', ij_started := True\<rparr>"
  let ?s = "snd (begin_run j c (open_session db w))" and ?db = "set_job jid ?f db"
  have s: "sv_cur ?s = ?c" "sv_db ?s = ?db" "sv_world ?s = w"
    using id by (simp_all add: begin_run_def chain_def turn_def amend_def save_def open_session_def)
  have name: "extra_str lib ''forgejo_repo'' [] ?c \<noteq> []" using assms(6) by (simp add: extra_str_def)
  let ?c1 = "?c\<lparr>cr_polls := cr_polls c + 1\<rparr>"
  have "advance_once lib cfg cl jid ?s = (Inl (PollsUsedUp (extra_str lib ''forgejo_repo'' [] ?c)), ?s\<lparr>sv_cur := ?c1\<rparr>)"
    using assms(4,7) s name by (simp add: advance_once_def step_of_def seen_by_def step_poll_def chain_def turn_def stop_def Let_def)
  then have loop: "import_loop lib cfg cl jid limit 0 0 ?s = ((Broke (PollsUsedUp (extra_str lib ''forgejo_repo'' [] ?c)), 0), ?s\<lparr>sv_cur := ?c1\<rparr>)"
    using assms(4,8) s by (subst import_loop.simps) simp
  have "find_job ?db jid = Some (?f j)" using assms(1) by (simp add: find_job_set)
  then have "ends (fail_job lib jid 0 (PollsUsedUp n)) (?s\<lparr>sv_cur := ?c1\<rparr>) (\<lambda>res s'. \<exists>out. res = Inr out \<and> io_status out = ''failed''
      \<and> sv_world s' = w \<and> map_option ij_cursor (find_job (sv_db s') jid) = Some (to_json ?c1))" for n
    using fail_writes [of "?s\<lparr>sv_cur := ?c1\<rparr>" jid "?f j" "PollsUsedUp n" lib 0] s by simp
  from this [of "extra_str lib ''forgejo_repo'' [] ?c"] loop show ?thesis using assms(1) read
    by (auto simp: run_import_def open_session_def ends_def close_run_def split: prod.splits)
qed

definition spent_cursor :: cursor where
  "spent_cursor = (fresh_cursor ''poll'')\<lparr>cr_polls := 3, cr_extras := [(''forgejo_repo'', JStr ''o/n'')]\<rparr>"

theorem used_up_polls_stay_used_up_witness:
  "case run_import plain_lib small_config down_client 1 9 (open_session (known_db\<lparr>im_jobs := [new_job 1 ''issues'' spent_cursor 1]\<rparr>) ()) of
      (Inr out, s) \<Rightarrow> io_status out = ''failed'' | (Inl e, s) \<Rightarrow> False"
proof -
  let ?db = "known_db\<lparr>im_jobs := [new_job 1 ''issues'' spent_cursor 1]\<rparr>"
  have job: "find_job ?db 1 = Some (new_job 1 ''issues'' spent_cursor 1)" by (simp add: find_job_def new_job_def)
  have repo: "find_repo ?db (ij_repo (new_job 1 ''issues'' spent_cursor 1)) = Some (hd (im_repos known_db))"
    by (simp add: find_repo_def new_job_def known_db_def new_repo_def)
  have cursor: "ij_cursor (new_job 1 ''issues'' spent_cursor 1) = to_json spent_cursor" by (simp add: new_job_def)
  have spent: "cr_phase spent_cursor = ''poll''" "extras_ok (cr_extras spent_cursor)" "extra_str plain_lib ''forgejo_repo'' [] spent_cursor \<noteq> []"
      "ic_poll_attempts small_config \<le> cr_polls spent_cursor"
    by code_simp+
  from used_up_polls_stay_used_up [OF job repo cursor spent, where limit = 9 and cl = down_client and w = "()"] show ?thesis
    by (cases "run_import plain_lib small_config down_client 1 9 (open_session ?db ())") (simp split: sum.splits)
qed

text \<open>
  C36: a path has one copy, whatever the host. A job for a source whose path is known, even on another host or for a full refresh,
  is a job of the known repository, and its migration keeps the copy there is without asking Forgejo for one.
\<close>

theorem known_path_is_never_migrated:
  assumes "parse_source (il_ip6 lib) url = Inr source" and "mode \<in> set IMPORT_MODES"
    and "repo_by_slug db (slug source) = Some r" and "find_repo db (rp_id r) = Some r" and "opt_str (rp_forgejo r) \<noteq> []"
    and "find_job db (im_next_job db) = None" and "parse_source (il_ip6 lib) (web_url source) = Inr again"
  shows "case create_job lib db url mode None prs None of
      (Inr job, db1) \<Rightarrow> ij_repo job = rp_id r \<and>
        (case step_migrate lib cfg cl (ij_id job) (open_session db1 w) of
           (Inr moved, s) \<Rightarrow> jget (cr_extras (sv_cur s)) ''forgejo_repo'' = JStr (opt_str (rp_forgejo r)) \<and> sv_world s = w
         | (Inl e, s) \<Rightarrow> False)
    | (Inl e, db1) \<Rightarrow> False"
proof -
  let ?job = "new_job (rp_id r) mode (fresh_cursor ''validate'') (im_next_job db)" and ?db = "set_repo (rp_id r) (point_at source) db"
  let ?db1 = "?db\<lparr>im_jobs := im_jobs ?db @ [?job], im_next_job := im_next_job db + 1\<rparr>"
  have created: "create_job lib db url mode None prs None = (Inr ?job, ?db1)"
    using assms(1-3) by (simp add: create_job_def target_repo_def start_of_def opt_str_def Let_def)
  have "find (\<lambda>j. ij_id j = im_next_job db) (im_jobs ?db) = None" using assms(6) by (simp add: find_job_def set_repo_def)
  then have job: "find_job ?db1 (im_next_job db) = Some ?job" by (simp add: find_job_def find_past new_job_def)
  have "find_repo ?db1 (rp_id r) = find_repo ?db (rp_id r)" by (simp add: find_repo_def)
  also have "... = Some (point_at source r)" using assms(4) by (simp add: find_repo_set point_at_def)
  finally have repo: "find_repo ?db1 (ij_repo ?job) = Some (point_at source r)" by (simp add: new_job_def)
  have web: "opt_str (rp_url (point_at source r)) = web_url source" "rp_forgejo (point_at source r) = rp_forgejo r"
    by (simp_all add: point_at_def opt_str_def)
  have "web_url source \<noteq> []" using assms(7) by (auto simp: parse_source_def py_strip_def py_rstrip_def py_lstrip_def before_char_def)
  then have some: "or_str (web_url source) d = web_url source" for d by (simp add: or_str_def)
  have "ends (step_migrate lib cfg cl (im_next_job db)) (open_session ?db1 w)
      (\<lambda>res s. \<exists>m. res = Inr m \<and> jget (cr_extras (sv_cur s)) ''forgejo_repo'' = JStr (opt_str (rp_forgejo r)) \<and> sv_world s = w)"
  proof -
    obtain s where s: "open_session ?db1 w = s" "sv_db s = ?db1" "sv_world s = w" by (simp add: open_session_def)
    have rows: "find_job (sv_db s) (im_next_job db) = Some ?job" "find_repo (sv_db s) (ij_repo ?job) = Some (point_at source r)"
      using job repo s(2) by simp_all
    show ?thesis unfolding s(1) step_migrate_def ends_with_repo [OF rows]
      by (simp add: web some parsed_source_def assms(5,7) ends_rules sync_state_def forgejo_repo_of_def mirror_state_def s(3) jget_put)
        (auto simp: put_extra_def jget_put)
  qed
  then show ?thesis using created by (auto simp: ends_def new_job_def split: prod.splits)
qed


theorem known_path_is_never_migrated_witness:
  "case create_job plain_lib known_db ''git@g:a/b'' ''code'' None True None of
      (Inr job, db1) \<Rightarrow> ij_repo job = 1 \<and>
        (case step_migrate plain_lib small_config down_client (ij_id job) (open_session db1 ()) of
           (Inr moved, s) \<Rightarrow> jget (cr_extras (sv_cur s)) ''forgejo_repo'' = JStr ''o/n'' \<and> sv_world s = ()
         | (Inl e, s) \<Rightarrow> False)
    | (Inl e, db1) \<Rightarrow> False"
proof -
  let ?source = "\<lparr>rs_host = ''g'', rs_owner = ''a'', rs_name = ''b'', rs_clone = ''https://g/a/b.git'', rs_path = ''a/b'', rs_kind = ''git''\<rparr>"
  have parsed: "parse_source (il_ip6 plain_lib) ''git@g:a/b'' = Inr ?source" by code_simp
  have again: "parse_source (il_ip6 plain_lib) (web_url ?source) = Inr ?source" by code_simp
  have mode: "''code'' \<in> set IMPORT_MODES" by code_simp
  let ?r = "hd (im_repos known_db)"
  have known: "repo_by_slug known_db (slug ?source) = Some ?r" "find_repo known_db (rp_id ?r) = Some ?r" "opt_str (rp_forgejo ?r) \<noteq> []"
      "find_job known_db (im_next_job known_db) = None" "rp_id ?r = 1" "opt_str (rp_forgejo ?r) = ''o/n''"
    by code_simp+
  from known_path_is_never_migrated [OF parsed mode known(1-4) again, where prs = True and cfg = small_config and cl = down_client and w = "()"] show ?thesis
    by (simp only: known(5,6))
qed

end
