(* ===== verification/CheckDiscovery.thy ===== *)
theory CheckDiscovery
  imports CheckSuite
begin

section \<open>Discovering checks\<close>

text \<open>
  \<open>backend/services/check_discovery.py\<close>: the suite a repository's own manifests declare, which the resolution of the user's suite
  takes when the policy has none. A checkout is what the module asks of it. Arguments: \<open>json.loads\<close> and \<open>tomllib.loads\<close>, \<open>None\<close> where
  they raise the error the module expects. The sentences of a suite's reason are kept as what they name.
\<close>

record tree =
  tr_text :: "string \<Rightarrow> string option"
  tr_file :: "string \<Rightarrow> bool"
  tr_dir :: "string \<Rightarrow> bool"
  tr_match :: "string \<Rightarrow> bool"

definition PYTHON :: string where "PYTHON = ''python''"
definition NPM_SCRIPTS :: "string list" where "NPM_SCRIPTS = [''test'', ''lint'', ''build'', ''typecheck'']"
definition MAKE_TARGETS :: "string list" where "MAKE_TARGETS = [''test'', ''check'', ''lint'']"

definition found_command :: "string \<Rightarrow> string list \<Rightarrow> check_command" where
  "found_command i argv = \<lparr>cmd_id = i, cmd_argv = argv, cmd_cwd = ''.'', cmd_timeout = None, cmd_validation = VALIDATED,
     cmd_source = SOURCE_DISCOVERY\<rparr>"

subsection \<open>Tables of a TOML document\<close>

fun table_names :: "string \<Rightarrow> json \<Rightarrow> string list" where
  "table_names prefix (JObj kvs) =
     concat (map (\<lambda>(k, v). let name = (if prefix = [] then k else prefix @ ''.'' @ k) in name # table_names name v) kvs)"
| "table_names prefix _ = []"

text \<open>The scan of a document that does not parse: \<open>^\[([^\]]+)\]\<close> at every beginning of a line outside the last match.\<close>

function section_scan :: "bool \<Rightarrow> string \<Rightarrow> string list" where
  "section_scan bol [] = []"
| "section_scan bol (c # s) =
     (if bol \<and> c = CHR ''['' \<and> takeWhile (\<lambda>d. d \<noteq> CHR '']'') s \<noteq> [] \<and> dropWhile (\<lambda>d. d \<noteq> CHR '']'') s \<noteq> []
      then py_strip (takeWhile (\<lambda>d. d \<noteq> CHR '']'') s) # section_scan False (tl (dropWhile (\<lambda>d. d \<noteq> CHR '']'') s))
      else section_scan (c = CHR 0x0A) s)"
  by pat_completeness auto

termination
  by (relation "measure (\<lambda>(b, s). length s)") (auto simp: less_Suc_eq_le intro!: le_trans [OF diff_le_self length_dropWhile_le])

definition toml_tables :: "(string \<Rightarrow> json option) \<Rightarrow> string \<Rightarrow> string list" where
  "toml_tables toml body = (case toml body of None \<Rightarrow> section_scan True body | Some d \<Rightarrow> table_names [] d)"

subsection \<open>Providers\<close>

definition declares_script :: "(string \<times> json) list \<Rightarrow> string \<Rightarrow> bool" where
  "declares_script scripts name \<longleftrightarrow> (case jget scripts name of JStr s \<Rightarrow> py_strip s \<noteq> [] | _ \<Rightarrow> False)"

definition package_json_checks :: "(string \<Rightarrow> json option) \<Rightarrow> tree \<Rightarrow> check_command list" where
  "package_json_checks loads t =
     (case tr_text t ''package.json'' of
        None \<Rightarrow> []
      | Some body \<Rightarrow>
          if body = [] then []
          else (case loads body of
              Some (JObj d) \<Rightarrow> (case jget d ''scripts'' of
                  JObj scripts \<Rightarrow> map (\<lambda>n. found_command (''npm:'' @ n) [''npm'', ''run'', n]) (filter (declares_script scripts) NPM_SCRIPTS)
                | _ \<Rightarrow> [])
            | _ \<Rightarrow> []))"

definition TEST_GLOBS :: "string list" where
  "TEST_GLOBS = [''test_*.py'', ''*_test.py'', ''*/test_*.py'', ''*/*_test.py'', ''tests/**/test_*.py'']"

definition has_python_tests :: "tree \<Rightarrow> string list \<Rightarrow> bool" where
  "has_python_tests t tables \<longleftrightarrow>
     tr_file t ''pytest.ini'' \<or> list_ex (\<lambda>n. startswith n ''tool.pytest'') tables \<or> tr_dir t ''tests'' \<or> list_ex (tr_match t) TEST_GLOBS"

definition python_checks :: "(string \<Rightarrow> json option) \<Rightarrow> tree \<Rightarrow> check_command list" where
  "python_checks toml t =
     (let pyproject = opt_str (tr_text t ''pyproject.toml'');
          tables = (if pyproject = [] then [] else toml_tables toml pyproject)
      in (if has_python_tests t tables then [found_command ''pytest'' [PYTHON, ''-m'', ''pytest'', ''-q'']] else [])
       @ (if ''tool.ruff'' \<in> set tables \<or> tr_file t ''ruff.toml'' \<or> tr_file t ''.ruff.toml''
          then [found_command ''ruff'' [PYTHON, ''-m'', ''ruff'', ''check'', ''.'']] else [])
       @ (if ''tool.mypy'' \<in> set tables \<or> tr_file t ''mypy.ini'' \<or> tr_file t ''.mypy.ini''
          then [found_command ''mypy'' [PYTHON, ''-m'', ''mypy'', ''.'']] else []))"

definition go_checks :: "tree \<Rightarrow> check_command list" where
  "go_checks t = (if tr_file t ''go.mod''
     then [found_command ''go:build'' [''go'', ''build'', ''./...''], found_command ''go:vet'' [''go'', ''vet'', ''./...''],
           found_command ''go:test'' [''go'', ''test'', ''./...'']] else [])"

definition cargo_checks :: "tree \<Rightarrow> check_command list" where
  "cargo_checks t = (if tr_file t ''Cargo.toml''
     then [found_command ''cargo:check'' [''cargo'', ''check''], found_command ''cargo:test'' [''cargo'', ''test'']] else [])"

text \<open>\<open>^(?P<name>[A-Za-z0-9_.-]+)\s*:(?!=)\<close> at the beginning of a line.\<close>

definition target_char :: "char \<Rightarrow> bool" where
  "target_char c \<longleftrightarrow> is_alpha c \<or> is_digit c \<or> c = CHR ''_'' \<or> c = CHR ''.'' \<or> c = CHR ''-''"

definition make_target :: "string \<Rightarrow> string option" where
  "make_target l =
     (let name = takeWhile target_char l; rest = dropWhile py_isspace (dropWhile target_char l)
      in if name \<noteq> [] \<and> startswith rest '':'' \<and> \<not> startswith rest '':='' then Some name else None)"

definition makefile_checks :: "tree \<Rightarrow> check_command list" where
  "makefile_checks t =
     (case tr_text t ''Makefile'' of
        None \<Rightarrow> []
      | Some body \<Rightarrow>
          if body = [] then []
          else map (\<lambda>n. found_command (''make:'' @ n) [''make'', n]) (filter (\<lambda>n. n \<in> set (List.map_filter make_target (splitlines body))) MAKE_TARGETS))"

text \<open>A provider has a name and may raise.\<close>

type_synonym provider = "string \<times> (tree \<Rightarrow> check_command list option)"

definition PROVIDERS :: "(string \<Rightarrow> json option) \<Rightarrow> (string \<Rightarrow> json option) \<Rightarrow> provider list" where
  "PROVIDERS loads toml =
     [(''package_json_checks'', \<lambda>t. Some (package_json_checks loads t)), (''python_checks'', \<lambda>t. Some (python_checks toml t)),
      (''go_checks'', \<lambda>t. Some (go_checks t)), (''cargo_checks'', \<lambda>t. Some (cargo_checks t)),
      (''makefile_checks'', \<lambda>t. Some (makefile_checks t))]"

subsection \<open>The suite\<close>

datatype discovery_reason = NothingFound "string list" | MergedFrom "string list" "string list" | FirstOf string "string list" "string list"

definition matched :: "provider list \<Rightarrow> tree \<Rightarrow> (string \<times> check_command list) list" where
  "matched ps t = List.map_filter (\<lambda>(n, p). case p t of None \<Rightarrow> None | Some cs \<Rightarrow> if cs = [] then None else Some (n, cs)) ps"

definition broken :: "provider list \<Rightarrow> tree \<Rightarrow> string list" where
  "broken ps t = map fst (filter (\<lambda>(n, p). p t = None) ps)"

definition merge_check :: "check_command \<Rightarrow> check_command list \<Rightarrow> check_command list" where
  "merge_check c acc = (if cmd_id c \<in> set (map cmd_id acc) then acc else acc @ [c])"

definition common_source :: "check_command list \<Rightarrow> string" where
  "common_source cs = (case remdups (map cmd_source cs) of [s] \<Rightarrow> s | _ \<Rightarrow> SOURCE_DISCOVERY)"

definition with_reason :: "check_suite option \<Rightarrow> discovery_reason \<Rightarrow> (check_suite \<times> discovery_reason) option" where
  "with_reason s r = map_option (\<lambda>x. (x, r)) s"

definition discover_checks :: "provider list \<Rightarrow> bool \<Rightarrow> tree \<Rightarrow> (check_suite \<times> discovery_reason) option" where
  "discover_checks ps merge t =
     (case matched ps t of
        [] \<Rightarrow> with_reason (make_suite [] SOURCE_DISCOVERY) (NothingFound (broken ps t))
      | (winner, cs) # others \<Rightarrow>
          if merge then with_reason (make_suite (fold merge_check (concat (map snd ((winner, cs) # others))) []) SOURCE_DISCOVERY)
                          (MergedFrom (winner # map fst others) (broken ps t))
          else with_reason (make_suite cs (common_source cs)) (FirstOf winner (map fst others) (broken ps t)))"


subsection \<open>Which commands a discovered suite holds\<close>

text \<open>Every command the module can give.\<close>

definition FIXED_COMMANDS :: "check_command list" where
  "FIXED_COMMANDS = map (\<lambda>n. found_command (''npm:'' @ n) [''npm'', ''run'', n]) NPM_SCRIPTS
     @ [found_command ''pytest'' [PYTHON, ''-m'', ''pytest'', ''-q''], found_command ''ruff'' [PYTHON, ''-m'', ''ruff'', ''check'', ''.''],
        found_command ''mypy'' [PYTHON, ''-m'', ''mypy'', ''.''],
        found_command ''go:build'' [''go'', ''build'', ''./...''], found_command ''go:vet'' [''go'', ''vet'', ''./...''],
        found_command ''go:test'' [''go'', ''test'', ''./...''],
        found_command ''cargo:check'' [''cargo'', ''check''], found_command ''cargo:test'' [''cargo'', ''test'']]
     @ map (\<lambda>n. found_command (''make:'' @ n) [''make'', n]) MAKE_TARGETS"

definition fixed_list :: "check_command list \<Rightarrow> bool" where
  "fixed_list cs \<longleftrightarrow> distinct (map cmd_id cs) \<and> set cs \<subseteq> set FIXED_COMMANDS"

lemma repeated_distinct: "\<not> repeated ids is \<longleftrightarrow> distinct is \<and> set is \<inter> ids = {}"
  by (induction "is" arbitrary: ids) auto

lemma fixed_facts: "list_all command_valid FIXED_COMMANDS" "list_all gating FIXED_COMMANDS" "distinct (map cmd_id FIXED_COMMANDS)"
    "list_all (\<lambda>c. cmd_source c = SOURCE_DISCOVERY) FIXED_COMMANDS"
  by code_simp+

lemma fixed_filtered: "distinct (map cmd_id (map f ns)) \<Longrightarrow> set (map f ns) \<subseteq> set FIXED_COMMANDS \<Longrightarrow> fixed_list (map f (filter P ns))"
  unfolding fixed_list_def by (auto simp: distinct_map comp_def intro: inj_on_subset)

lemma fixed_nil: "fixed_list []"
  by (simp add: fixed_list_def)

lemma package_json_fixed: "fixed_list (package_json_checks loads t)"
proof -
  have "fixed_list (map (\<lambda>n. found_command (''npm:'' @ n) [''npm'', ''run'', n]) (filter P NPM_SCRIPTS))" for P
    by (rule fixed_filtered) (code_simp, auto simp: FIXED_COMMANDS_def)
  then show ?thesis using fixed_nil by (auto simp: package_json_checks_def split: option.split json.split)
qed

lemma makefile_fixed: "fixed_list (makefile_checks t)"
proof -
  have "fixed_list (map (\<lambda>n. found_command (''make:'' @ n) [''make'', n]) (filter P MAKE_TARGETS))" for P
    by (rule fixed_filtered) (code_simp, auto simp: FIXED_COMMANDS_def)
  then show ?thesis using fixed_nil by (auto simp: makefile_checks_def split: option.split)
qed

lemma others_fixed: "fixed_list (go_checks t)" "fixed_list (cargo_checks t)"
  unfolding fixed_list_def go_checks_def cargo_checks_def
  by (cases "tr_file t ''go.mod''"; simp only: if_True if_False; code_simp) (cases "tr_file t ''Cargo.toml''"; simp only: if_True if_False; code_simp)

lemma python_block:
  "fixed_list ((if a then [found_command ''pytest'' [PYTHON, ''-m'', ''pytest'', ''-q'']] else [])
     @ (if b then [found_command ''ruff'' [PYTHON, ''-m'', ''ruff'', ''check'', ''.'']] else [])
     @ (if c then [found_command ''mypy'' [PYTHON, ''-m'', ''mypy'', ''.'']] else []))"
  unfolding fixed_list_def by (cases a; cases b; cases c; simp only: if_True if_False append_Nil append_Nil2 simp_thms; code_simp)

lemma python_fixed: "fixed_list (python_checks toml t)"
  unfolding python_checks_def Let_def by (rule python_block)

lemma matched_fixed: "(n, cs) \<in> set (matched (PROVIDERS loads toml) t) \<Longrightarrow> fixed_list cs"
  using package_json_fixed makefile_fixed others_fixed python_fixed
  by (auto simp: matched_def PROVIDERS_def List.map_filter_def split: if_splits)

lemma merge_fixed: "set cs \<subseteq> set FIXED_COMMANDS \<Longrightarrow> fixed_list acc \<Longrightarrow> fixed_list (fold merge_check cs acc)"
proof (induction cs arbitrary: acc)
  case (Cons c cs)
  then have "fixed_list (merge_check c acc)" by (auto simp: merge_check_def fixed_list_def)
  then show ?case using Cons by simp
qed simp

lemma fixed_suite:
  assumes "fixed_list cs" and "source \<in> set SUITE_SOURCES"
  shows "make_suite cs source = Some \<lparr>suite_checks = cs, source_of = source\<rparr>"
proof -
  have "list_all command_valid cs" using assms(1) fixed_facts(1) by (auto simp: fixed_list_def list_all_iff)
  moreover have "\<not> repeated {} (map cmd_id cs)" using assms(1) by (simp add: repeated_distinct fixed_list_def)
  ultimately show ?thesis using assms(2) by (simp add: make_suite_def suite_valid_def Let_def)
qed

lemma fixed_source: "fixed_list cs \<Longrightarrow> common_source cs = SOURCE_DISCOVERY"
proof -
  assume "fixed_list cs"
  then have "set (map cmd_source cs) \<subseteq> {SOURCE_DISCOVERY}" using fixed_facts(4) by (auto simp: fixed_list_def list_all_iff)
  then have "set (remdups (map cmd_source cs)) \<subseteq> {SOURCE_DISCOVERY}" by simp
  then have "remdups (map cmd_source cs) \<in> {[], [SOURCE_DISCOVERY]}"
    using distinct_remdups [of "map cmd_source cs"] by (cases "remdups (map cmd_source cs)" rule: remdups_adj.cases) auto
  then show ?thesis by (auto simp: common_source_def)
qed

text \<open>
  C17: a manifest chooses among commands, it never writes one. Whatever the files of a repository hold, and whether the matching
  manifests are merged or the first wins, discovery returns a suite, never an error, and every command in it is one of the fifteen the
  module spells out, each at most once and each allowed to gate.
\<close>

theorem discovery_runs_fixed_commands:
  "case discover_checks (PROVIDERS loads toml) merge t of
     None \<Rightarrow> False
   | Some (s, r) \<Rightarrow> suite_valid s \<and> source_of s = SOURCE_DISCOVERY
       \<and> list_all (\<lambda>c. c \<in> set FIXED_COMMANDS \<and> command_valid c \<and> gating c) (suite_checks s)"
proof -
  have ok: "suite_valid \<lparr>suite_checks = cs, source_of = SOURCE_DISCOVERY\<rparr> \<and> list_all (\<lambda>c. c \<in> set FIXED_COMMANDS \<and> command_valid c \<and> gating c) cs"
    and made: "make_suite cs SOURCE_DISCOVERY = Some \<lparr>suite_checks = cs, source_of = SOURCE_DISCOVERY\<rparr>" if "fixed_list cs" for cs
    using that fixed_facts(1,2) fixed_suite [OF that, of SOURCE_DISCOVERY]
    by (auto simp: fixed_list_def list_all_iff suite_valid_def repeated_distinct SUITE_SOURCES_def)
  show ?thesis
  proof (cases "matched (PROVIDERS loads toml) t")
    case Nil
    then show ?thesis using ok [OF fixed_nil] made [OF fixed_nil] by (simp add: discover_checks_def with_reason_def)
  next
    case (Cons first others)
    obtain winner cs where first: "first = (winner, cs)" by (cases first)
    have cs: "fixed_list cs" by (rule matched_fixed [of winner cs loads toml t]) (simp add: Cons first)
    have "fixed_list (snd m)" if "m \<in> set (matched (PROVIDERS loads toml) t)" for m
      using that matched_fixed [of "fst m" "snd m" loads toml t] by simp
    then have "set (concat (map snd (first # others))) \<subseteq> set FIXED_COMMANDS" using Cons by (auto simp: fixed_list_def)
    then have all: "fixed_list (fold merge_check (concat (map snd ((winner, cs) # others))) [])"
      unfolding first [symmetric] by (rule merge_fixed) (rule fixed_nil)
    show ?thesis using Cons first ok [OF cs] ok [OF all] made [OF cs] made [OF all] fixed_source [OF cs]
      by (simp add: discover_checks_def with_reason_def)
  qed
qed

end
