(* ===== verification/CheckCurator.thy ===== *)
theory CheckCurator
  imports CheckValidation "HOL-Library.AList"
begin

section \<open>The curator\<close>

text \<open>
  \<open>backend/services/check_curator.py\<close>: what happens to a suite a model has just written. The state is the checkout, of which the
  regular files of \<open>.agent/checks\<close> are listed by name and text, \<open>None\<close> when there is no such directory. Arguments: reading a
  manifest with its schema, \<open>None\<close> when it is broken; writing one; and the validation of a check, which runs its command in the
  checkout and may change it. The sentences of notes and reasons are kept as what they count.
\<close>

definition MAX_CHECKS_PER_PROPOSAL :: int where "MAX_CHECKS_PER_PROPOSAL = 20"

record 'r workshop =
  ws_checks :: "(string \<times> string) list option"
  ws_rest :: 'r

record 'r curator_lib =
  cl_parse :: "string \<Rightarrow> manifest_check list option"
  cl_dump :: "manifest_check list \<Rightarrow> string"
  cl_judge :: "check_command \<Rightarrow> 'r workshop \<Rightarrow> check_verdict \<times> 'r workshop"

definition manifest_at :: "'r curator_lib \<Rightarrow> 'r workshop \<Rightarrow> string \<Rightarrow> manifest_check list option" where
  "manifest_at lib s n = (case ws_checks s of None \<Rightarrow> None | Some fs \<Rightarrow> (case map_of fs n of None \<Rightarrow> None | Some t \<Rightarrow> cl_parse lib t))"

definition resolve_ai_suite :: "'r curator_lib \<Rightarrow> 'r workshop \<Rightarrow> check_suite option" where
  "resolve_ai_suite lib s = load_agent_checks (manifest_at lib s) (map_option (map fst) (ws_checks s))"

definition manifest_path :: "'r workshop \<Rightarrow> string option" where
  "manifest_path s = (case ws_checks s of None \<Rightarrow> None | Some fs \<Rightarrow> find (\<lambda>n. n \<in> set (map fst fs)) CHECK_MANIFEST_NAMES)"

definition write_check_file :: "string \<Rightarrow> string \<Rightarrow> 'r workshop \<Rightarrow> 'r workshop" where
  "write_check_file n t s = s\<lparr>ws_checks := map_option (AList.update n t) (ws_checks s)\<rparr>"

subsection \<open>Writing back what was proven\<close>

text \<open>A later verdict of an id replaces an earlier one.\<close>

definition proven :: "check_verdict list \<Rightarrow> string \<Rightarrow> bool" where
  "proven vs i = (case map_of (rev (map (\<lambda>v. (v_check v, v_validated v)) vs)) i of None \<Rightarrow> False | Some b \<Rightarrow> b)"

definition prove_entry :: "check_verdict list \<Rightarrow> manifest_check \<Rightarrow> manifest_check" where
  "prove_entry vs e = e\<lparr>mc_validated := proven vs (mc_id e)\<rparr>"

definition apply_validations :: "'r curator_lib \<Rightarrow> string \<Rightarrow> check_verdict list \<Rightarrow> 'r workshop \<Rightarrow> nat \<times> 'r workshop" where
  "apply_validations lib n vs s =
     (case manifest_at lib s n of
        None \<Rightarrow> (0, s)
      | Some entries \<Rightarrow>
          let changed = count_where (\<lambda>e. mc_validated e \<noteq> proven vs (mc_id e)) entries
          in (changed, if changed = 0 then s else write_check_file n (cl_dump lib (map (prove_entry vs) entries)) s))"

subsection \<open>A proposal\<close>

datatype curator_note = NothingParsed | OnlyFirst int nat | Rewritten nat | NoManifest

record curator_report =
  rep_hash :: string
  rep_source :: string
  rep_checks :: "check_command list"
  rep_validations :: "check_verdict list"
  rep_manifest :: "string option"
  rep_notes :: "curator_note list"

definition n_validated :: "curator_report \<Rightarrow> nat" where
  "n_validated r = count_where v_validated (rep_validations r)"

definition earned_gate :: "curator_report \<Rightarrow> bool" where
  "earned_gate r \<longleftrightarrow> n_validated r > 0"

fun judge_all :: "'r curator_lib \<Rightarrow> check_command list \<Rightarrow> 'r workshop \<Rightarrow> check_verdict list \<times> 'r workshop" where
  "judge_all lib [] s = ([], s)"
| "judge_all lib (c # cs) s = (case cl_judge lib c s of (v, s1) \<Rightarrow> case judge_all lib cs s1 of (vs, s2) \<Rightarrow> (v # vs, s2))"

definition report_of :: "(check_suite \<Rightarrow> string) \<Rightarrow> check_suite \<Rightarrow> check_verdict list \<Rightarrow> string option \<Rightarrow> curator_note list \<Rightarrow> curator_report" where
  "report_of fingerprint suite vs manifest notes =
     \<lparr>rep_hash = fingerprint suite, rep_source = source_of suite, rep_checks = suite_checks suite, rep_validations = vs,
      rep_manifest = manifest, rep_notes = notes\<rparr>"

text \<open>\<open>curate_workspace\<close>; \<open>None\<close> is the error of a suite that does not validate.\<close>

definition curate_workspace :: "(check_suite \<Rightarrow> string) \<Rightarrow> 'r curator_lib \<Rightarrow> int \<Rightarrow> 'r workshop \<Rightarrow> curator_report option \<times> 'r workshop" where
  "curate_workspace fingerprint lib max_checks s =
     (case resolve_ai_suite lib s of
        None \<Rightarrow> (None, s)
      | Some suite \<Rightarrow>
          let (vs, s1) = judge_all lib (take (nat (max 0 max_checks)) (suite_checks suite)) s;
              notes = (if suite_checks suite = [] then [NothingParsed] else [])
                @ (if int (length (suite_checks suite)) > max_checks then [OnlyFirst max_checks (length (suite_checks suite))] else [])
          in case manifest_path s1 of
               Some n \<Rightarrow>
                 if vs = [] then (Some (report_of fingerprint suite vs (Some n) notes), s1)
                 else let (changed, s2) = apply_validations lib n vs s1;
                          notes' = notes @ (if changed = 0 then [] else [Rewritten changed])
                   in (case resolve_ai_suite lib s2 of
                         None \<Rightarrow> (None, s2)
                       | Some suite2 \<Rightarrow> (Some (report_of fingerprint suite2 vs (Some n) notes'), s2))
             | None \<Rightarrow> (Some (report_of fingerprint suite vs None (notes @ (if vs = [] then [] else [NoManifest]))), s1))"

subsection \<open>The report on the wire\<close>

text \<open>\<open>shown\<close> is \<open>model_dump\<close> of a command, \<open>rate\<close> a rate as a JSON number; \<open>told\<close> the text of a note.\<close>

definition verdict_payload :: "(rat \<Rightarrow> json) \<Rightarrow> check_verdict \<Rightarrow> json" where
  "verdict_payload rate v = JObj [(''check_id'', JStr (v_check v)), (''status'', JStr (v_status v)), (''baseline_passed'', JBool (baseline_passed v)),
     (''faults_attempted'', JInt (int (faults_attempted v))), (''faults_detected'', JInt (int (faults_detected v))),
     (''detection_rate'', rate (detection_rate v)), (''detected_by'', JList (map JStr (detected_by v))), (''reason'', JStr [])]"

definition report_payload :: "(check_command \<Rightarrow> json) \<Rightarrow> (rat \<Rightarrow> json) \<Rightarrow> (curator_note \<Rightarrow> string) \<Rightarrow> curator_report \<Rightarrow> (string \<times> json) list" where
  "report_payload shown rate told r =
     [(''suite_hash'', JStr (rep_hash r)), (''source'', JStr (rep_source r)),
      (''manifest_path'', case rep_manifest r of None \<Rightarrow> JNull | Some n \<Rightarrow> JStr n),
      (''total'', JInt (int (length (rep_checks r)))), (''validated'', JInt (int (n_validated r))), (''gating'', JBool (earned_gate r)),
      (''checks'', JList (map shown (rep_checks r))), (''validations'', JList (map (verdict_payload rate) (rep_validations r))),
      (''notes'', JList (map (\<lambda>n. JStr (told n)) (rep_notes r)))]"

text \<open>What is read back: the same fields, with the commands as the objects they were shown as and the notes as their texts.\<close>

record wire_report =
  wr_hash :: string
  wr_source :: string
  wr_checks :: "(string \<times> json) list list"
  wr_validations :: "check_verdict list"
  wr_manifest :: "string option"
  wr_notes :: "string list"

definition number_or_zero :: "json \<Rightarrow> nat" where
  "number_or_zero v = (case v of JInt i \<Rightarrow> nat i | JBool True \<Rightarrow> 1 | _ \<Rightarrow> 0)"

definition str_of_field :: "(json \<Rightarrow> string) \<Rightarrow> json \<Rightarrow> string \<Rightarrow> string" where
  "str_of_field cs v d = (if truthy v then py_str cs v else d)"

definition items_of :: "json \<Rightarrow> json list" where
  "items_of v = (case v of JList vs \<Rightarrow> vs | _ \<Rightarrow> [])"

definition item_objects :: "json \<Rightarrow> (string \<times> json) list list" where
  "item_objects v = concat (map (\<lambda>i. case i of JObj d \<Rightarrow> [d] | _ \<Rightarrow> []) (items_of v))"

definition verdict_from :: "(json \<Rightarrow> string) \<Rightarrow> (string \<times> json) list \<Rightarrow> check_verdict" where
  "verdict_from cs d = \<lparr>v_check = str_of_field cs (jget d ''check_id'') [], v_status = str_of_field cs (jget d ''status'') UNVALIDATED,
     baseline_passed = truthy (jget d ''baseline_passed''), faults_attempted = number_or_zero (jget d ''faults_attempted''),
     faults_detected = number_or_zero (jget d ''faults_detected''), detected_by = map (py_str cs) (items_of (jget d ''detected_by''))\<rparr>"

definition report_from :: "(json \<Rightarrow> string) \<Rightarrow> (string \<times> json) list \<Rightarrow> wire_report" where
  "report_from cs d = \<lparr>wr_hash = str_of_field cs (jget d ''suite_hash'') [], wr_source = str_of_field cs (jget d ''source'') [],
     wr_checks = item_objects (jget d ''checks''), wr_validations = map (verdict_from cs) (item_objects (jget d ''validations'')),
     wr_manifest = (if truthy (jget d ''manifest_path'') then Some (py_str cs (jget d ''manifest_path'')) else None),
     wr_notes = map (py_str cs) (items_of (jget d ''notes''))\<rparr>"


subsection \<open>Only what was proven gates\<close>

lemma judge_all_pure: "cl_judge lib = (\<lambda>c s. (V c, s)) \<Longrightarrow> judge_all lib cs s = (map V cs, s)"
  by (induction cs) auto

lemma map_of_rev_distinct: "distinct (map fst xs) \<Longrightarrow> map_of (rev xs) = map_of xs"
proof (rule ext)
  fix k
  assume d: "distinct (map fst xs)"
  then have d': "distinct (map fst (rev xs))" by (simp add: rev_map [symmetric])
  have same: "map_of (rev xs) k = Some v \<longleftrightarrow> map_of xs k = Some v" for v
    unfolding map_of_eq_Some_iff [OF d] map_of_eq_Some_iff [OF d'] by simp
  show "map_of (rev xs) k = map_of xs k"
  proof (cases "map_of xs k")
    case None
    then show ?thesis using same [of "the (map_of (rev xs) k)"] by (cases "map_of (rev xs) k") simp_all
  qed (use same in simp)
qed

lemma proven_nth:
  assumes "distinct (map cmd_id cs)" and "\<And>c. v_check (V c) = cmd_id c" and "i < length cs"
  shows "proven (map V (take k cs)) (cmd_id (cs ! i)) \<longleftrightarrow> i < k \<and> v_validated (V (cs ! i))"
proof -
  let ?xs = "map (\<lambda>v. (v_check v, v_validated v)) (map V (take k cs))"
  have fst: "map fst ?xs = take k (map cmd_id cs)" by (simp add: comp_def assms(2) take_map)
  then have distinct: "distinct (map fst ?xs)" using assms(1) by simp
  show ?thesis
  proof (cases "i < k")
    case True
    then have "(cmd_id (cs ! i), v_validated (V (cs ! i))) \<in> set ?xs"
      using assms(2,3) by (auto simp: in_set_conv_nth intro!: image_eqI [of _ _ "cs ! i"] exI [of _ i])
    then have "map_of ?xs (cmd_id (cs ! i)) = Some (v_validated (V (cs ! i)))" using distinct by simp
    then show ?thesis using True distinct by (simp add: proven_def map_of_rev_distinct)
  next
    case False
    have "cmd_id (cs ! i) \<notin> set (take k (map cmd_id cs))"
    proof
      assume "cmd_id (cs ! i) \<in> set (take k (map cmd_id cs))"
      then obtain j where "j < k" "j < length cs" "map cmd_id cs ! j = map cmd_id cs ! i" using assms(3) by (auto simp: in_set_conv_nth)
      then show False using assms(1,3) False nth_eq_iff_index_eq [OF assms(1), of j i] by simp
    qed
    then have "map_of ?xs (cmd_id (cs ! i)) = None" unfolding map_of_eq_None_iff set_map [symmetric] fst by simp
    then have "map_of (rev ?xs) (cmd_id (cs ! i)) = None" by (simp only: map_of_rev_distinct [OF distinct])
    then show ?thesis using False by (simp add: proven_def)
  qed
qed

definition earned :: "bool \<Rightarrow> nat \<Rightarrow> (check_command \<Rightarrow> check_verdict) \<Rightarrow> check_command list \<Rightarrow> check_command list" where
  "earned manifest k V cs =
     map (\<lambda>(i, c). c\<lparr>cmd_validation := if manifest \<and> i < k \<and> v_validated (V c) then VALIDATED else UNVALIDATED\<rparr>) (enumerate 0 cs)"

lemma make_suite_some: "make_suite cs src = Some s \<longleftrightarrow> list_all command_valid cs \<and> src \<in> set SUITE_SOURCES \<and> distinct (map cmd_id cs)
    \<and> s = \<lparr>suite_checks = cs, source_of = src\<rparr>"
proof -
  have "\<not> repeated ids is \<longleftrightarrow> distinct is \<and> set is \<inter> ids = {}" for ids "is" by (induction "is" arbitrary: ids) auto
  then show ?thesis by (auto simp: make_suite_def suite_valid_def Let_def)
qed

lemma earned_ids: "map cmd_id (earned m k V cs) = map cmd_id cs"
  by (rule nth_equalityI) (simp_all add: earned_def nth_enumerate_eq)

lemma earned_valid: "list_all command_valid cs \<Longrightarrow> list_all command_valid (earned m k V cs)"
  by (auto simp: earned_def list_all_length nth_enumerate_eq command_valid_def VALIDATIONS_def)

lemma proven_commands:
  assumes "distinct (map cmd_id (map manifest_command (filter P es)))" and "\<And>c. v_check (V c) = cmd_id c" and "\<And>vs e. P (prove_entry vs e) = P e"
  shows "map manifest_command (filter P (map (prove_entry (map V (take k (map manifest_command (filter P es))))) es))
    = earned True k V (map manifest_command (filter P es))"
proof (rule nth_equalityI)
  let ?cs = "map manifest_command (filter P es)" and ?vs = "map V (take k (map manifest_command (filter P es)))"
  have same: "filter P (map (prove_entry ?vs) es) = map (prove_entry ?vs) (filter P es)" by (simp add: filter_map comp_def assms(3))
  then show len: "length (map manifest_command (filter P (map (prove_entry ?vs) es))) = length (earned True k V ?cs)" by (simp add: earned_def)
  fix i assume "i < length (map manifest_command (filter P (map (prove_entry ?vs) es)))"
  then have i: "i < length ?cs" using same by simp
  then have "manifest_command (prove_entry ?vs (filter P es ! i)) = (?cs ! i)\<lparr>cmd_validation := if proven ?vs (cmd_id (?cs ! i)) then VALIDATED else UNVALIDATED\<rparr>"
    by (simp add: manifest_command_def prove_entry_def)
  also have "... = earned True k V ?cs ! i" using proven_nth [OF assms(1,2) i] i by (simp add: earned_def nth_enumerate_eq)
  finally show "map manifest_command (filter P (map (prove_entry ?vs) es)) ! i = earned True k V ?cs ! i" using i same by simp
qed

lemma earned_none: "list_all (\<lambda>c. cmd_validation c = UNVALIDATED) cs \<Longrightarrow> earned False k V cs = cs"
  by (rule nth_equalityI) (auto simp: earned_def nth_enumerate_eq list_all_length)

lemma after_write:
  assumes "ws_checks s = Some fs" and "n \<in> set (map fst fs)"
  shows "manifest_at lib (write_check_file n t s) n = cl_parse lib t" and "manifest_path (write_check_file n t s) = manifest_path s"
  using assms by (simp_all add: manifest_at_def write_check_file_def manifest_path_def update_conv' dom_update insert_absorb)

lemma resolve_by_path:
  "ws_checks s = Some fs \<Longrightarrow> manifest_path s = Some n \<Longrightarrow> resolve_ai_suite lib s = load_manifest (manifest_at lib s n)"
  by (simp add: resolve_ai_suite_def load_agent_checks_def manifest_path_def)

text \<open>
  C16: a proposal gates only by what it proved. Where validating a check leaves the checkout alone, the suite in the checkout after
  the curator's run is the one the model wrote, each check of it gating exactly when there is a manifest, the check is one of the first
  \<open>max_checks\<close>, and the validator proved it; what the model had claimed plays no part.
\<close>

theorem curator_gates_what_it_proved:
  assumes "resolve_ai_suite lib s = Some suite" and "0 < max_checks"
    and "\<forall>n es vs. manifest_at lib s n = Some es \<longrightarrow> cl_parse lib (cl_dump lib (map (prove_entry vs) es)) = Some (map (prove_entry vs) es)"
    and "cl_judge lib = (\<lambda>c s. (validate_check sha256 py_repr exec timeout seeders max_seeds copier repo c, s))"
  shows "case curate_workspace fingerprint lib max_checks s of
      (None, s') \<Rightarrow> False
    | (Some r, s') \<Rightarrow> rep_checks r = earned (manifest_path s \<noteq> None) (nat max_checks)
          (validate_check sha256 py_repr exec timeout seeders max_seeds copier repo) (suite_checks suite)
        \<and> resolve_ai_suite lib s' = Some \<lparr>suite_checks = rep_checks r, source_of = SOURCE_AGENT_CHECKS\<rparr>"
proof -
  let ?V = "validate_check sha256 py_repr exec timeout seeders max_seeds copier repo" and ?k = "nat max_checks"
  have judge: "judge_all lib cs s = (map ?V cs, s)" for cs by (rule judge_all_pure [OF assms(4)])
  have src: "source_of suite = SOURCE_AGENT_CHECKS"
    using assms(1) by (auto simp: resolve_ai_suite_def load_agent_checks_def load_manifest_def make_suite_some split: option.splits)
  have k: "nat (max 0 max_checks) = ?k" "0 < ?k" using assms(2) by simp_all
  have empty: ?thesis if "suite_checks suite = []"
    using that judge assms(1) src
    by (simp add: curate_workspace_def report_of_def earned_def Let_def split: option.split)
  show ?thesis
  proof (cases "manifest_path s")
    case None
    have "list_all (\<lambda>c. cmd_validation c = UNVALIDATED) (suite_checks suite)"
      using assms(1) None
      by (auto simp: resolve_ai_suite_def load_agent_checks_def manifest_path_def make_suite_some script_command_def list_all_iff split: option.splits)
    then show ?thesis using None judge assms(1) src
      by (simp add: curate_workspace_def report_of_def Let_def earned_none)
  next
    case (Some n)
    then obtain fs where fs: "ws_checks s = Some fs" "n \<in> set (map fst fs)"
      by (auto simp: manifest_path_def find_Some_iff split: option.splits)
    show ?thesis
    proof (cases "suite_checks suite = []")
      case False
      have load: "load_manifest (manifest_at lib s n) = Some suite" using resolve_by_path [OF fs(1) Some, of lib] assms(1) by simp
      then obtain es where es: "manifest_at lib s n = Some es"
        using False by (cases "manifest_at lib s n") (auto simp: load_manifest_def make_suite_some)
      let ?P = "\<lambda>e. py_words (mc_command e) \<noteq> []"
      let ?cs = "map manifest_command (filter ?P es)" and ?vs = "map ?V (take ?k (suite_checks suite))"
      have suite: "suite_checks suite = ?cs" "list_all command_valid ?cs" "distinct (map cmd_id ?cs)"
        using load es by (auto simp: load_manifest_def make_suite_some)
      have P: "?P (prove_entry vs e) = ?P e" for vs e by (simp add: prove_entry_def)
      have commands: "map manifest_command (filter ?P (map (prove_entry ?vs) es)) = earned True ?k ?V ?cs"
        unfolding suite(1) by (rule proven_commands [OF suite(3) _ P]) simp
      have loaded: "load_manifest (Some (map (prove_entry ?vs) es)) = Some \<lparr>suite_checks = earned True ?k ?V ?cs, source_of = SOURCE_AGENT_CHECKS\<rparr>"
        unfolding load_manifest_def using commands earned_ids earned_valid [OF suite(2)] suite(3)
        by (simp add: make_suite_some SUITE_SOURCES_def)
      obtain changed s2 where applied: "apply_validations lib n ?vs s = (changed, s2)" by fastforce
      have "resolve_ai_suite lib s2 = load_manifest (Some (map (prove_entry ?vs) es))"
      proof (cases "changed = 0")
        case True
        then have "count_where (\<lambda>e. mc_validated e \<noteq> proven ?vs (mc_id e)) es = 0" and "s2 = s"
          using applied es by (auto simp: apply_validations_def Let_def)
        then have "map (prove_entry ?vs) es = es" by (intro map_idI) (auto simp: count_where_zero prove_entry_def)
        then show ?thesis using \<open>s2 = s\<close> resolve_by_path [OF fs(1) Some, of lib] es by simp
      next
        case False
        then have "s2 = write_check_file n (cl_dump lib (map (prove_entry ?vs) es)) s"
          using applied es by (auto simp: apply_validations_def Let_def)
        moreover have "ws_checks s2 \<noteq> None" using calculation fs(1) by (simp add: write_check_file_def)
        ultimately show ?thesis
          using after_write(1) [OF fs, where lib = lib] after_write(2) [OF fs] assms(3) es Some resolve_by_path [where s = s2 and lib = lib] by fastforce
      qed
      moreover have "?vs \<noteq> []" using False k(2) by simp
      ultimately show ?thesis using Some judge assms(1) applied loaded k(1) suite(1)
        by (simp add: curate_workspace_def report_of_def Let_def)
    qed (rule empty)
  qed
qed

definition claimed_check :: "bool \<Rightarrow> manifest_check" where
  "claimed_check b = \<lparr>mc_id = ''c'', mc_command = ''true'', mc_cwd = ''.'', mc_timeout = None, mc_validated = b\<rparr>"

definition no_faults :: "check_command \<Rightarrow> check_verdict" where
  "no_faults = validate_check (\<lambda>s. s) (\<lambda>n. []) (\<lambda>repo c t. ExecRaised []) 1 [] 6 Some Map.empty"

definition claiming_lib :: "unit curator_lib" where
  "claiming_lib = \<lparr>cl_parse = (\<lambda>t. Some [claimed_check (t = ''t'')]),
     cl_dump = (\<lambda>es. if list_all mc_validated es then ''t'' else ''f''), cl_judge = (\<lambda>c s. (no_faults c, s))\<rparr>"

definition claiming_tree :: "unit workshop" where
  "claiming_tree = \<lparr>ws_checks = Some [(''checks.yml'', ''t'')], ws_rest = ()\<rparr>"

theorem curator_gates_what_it_proved_witness:
  "case curate_workspace source_of claiming_lib 20 claiming_tree of
      (None, s') \<Rightarrow> False
    | (Some r, s') \<Rightarrow> rep_checks r = earned True 20 no_faults [manifest_command (claimed_check True)]"
proof -
  have suite: "resolve_ai_suite claiming_lib claiming_tree = Some \<lparr>suite_checks = [manifest_command (claimed_check True)], source_of = SOURCE_AGENT_CHECKS\<rparr>"
    by code_simp
  have wire: "\<forall>n es vs. manifest_at claiming_lib claiming_tree n = Some es \<longrightarrow>
      cl_parse claiming_lib (cl_dump claiming_lib (map (prove_entry vs) es)) = Some (map (prove_entry vs) es)"
    by (simp add: manifest_at_def claiming_tree_def claiming_lib_def claimed_check_def prove_entry_def)
  have judge: "cl_judge claiming_lib = (\<lambda>c s. (validate_check (\<lambda>s. s) (\<lambda>n. []) (\<lambda>repo c t. ExecRaised []) 1 [] 6 Some Map.empty c, s))"
    by (simp add: claiming_lib_def no_faults_def)
  have path: "manifest_path claiming_tree \<noteq> None" by code_simp
  have "(0::int) < 20" by simp
  from curator_gates_what_it_proved [OF suite this wire judge, of source_of] path show ?thesis
    by (cases "curate_workspace source_of claiming_lib 20 claiming_tree") (simp add: no_faults_def split: option.splits)
qed

text \<open>
  the proof goes to the name, not to the command. The command of a check runs in the checkout before the manifest is read
  again, so a command that passes, is seen to fail on a fault, and meanwhile puts another command under its name, has that command marked
  proven.
\<close>

definition swapping_lib :: "check_verdict \<Rightarrow> unit curator_lib" where
  "swapping_lib v = \<lparr>cl_parse = (\<lambda>t. Some [(claimed_check (t = ''t''))\<lparr>mc_command := if t = ''a'' then ''make test'' else ''true''\<rparr>]),
     cl_dump = (\<lambda>es. if list_all mc_validated es then ''t'' else ''f''), cl_judge = (\<lambda>c s. (v, write_check_file ''checks.yml'' ''b'' s))\<rparr>"

lemma proof_follows_the_name:
  assumes "v_check v = ''c''" and "v_validated v"
  shows "case curate_workspace source_of (swapping_lib v) 20 \<lparr>ws_checks = Some [(''checks.yml'', ''a'')], ws_rest = ()\<rparr> of
      (None, s') \<Rightarrow> False
    | (Some r, s') \<Rightarrow> map cmd_argv (filter gating (rep_checks r)) = [[''true'']] \<and> rep_validations r = [v]"
proof -
  let ?s = "\<lparr>ws_checks = Some [(''checks.yml'', ''a'')], ws_rest = ()\<rparr>" and ?s1 = "\<lparr>ws_checks = Some [(''checks.yml'', ''b'')], ws_rest = ()\<rparr>"
  let ?s2 = "\<lparr>ws_checks = Some [(''checks.yml'', ''t'')], ws_rest = ()\<rparr>"
  have words: "py_words ''true'' = [''true'']" "py_words ''make test'' = [''make'', ''test'']" by code_simp+
  have names: "find (\<lambda>n. n = ''checks.yml'') CHECK_MANIFEST_NAMES = Some ''checks.yml''" by code_simp
  have suite: "resolve_ai_suite (swapping_lib v) \<lparr>ws_checks = Some [(''checks.yml'', t)], ws_rest = ()\<rparr>
      = load_manifest (Some [(claimed_check (t = ''t''))\<lparr>mc_command := if t = ''a'' then ''make test'' else ''true''\<rparr>])" for t
    by (simp add: resolve_ai_suite_def load_agent_checks_def names manifest_at_def swapping_lib_def)
  have first: "load_manifest (Some [(claimed_check False)\<lparr>mc_command := ''make test''\<rparr>])
      = Some \<lparr>suite_checks = [manifest_command ((claimed_check False)\<lparr>mc_command := ''make test''\<rparr>)], source_of = SOURCE_AGENT_CHECKS\<rparr>"
    and last: "load_manifest (Some [(claimed_check True)\<lparr>mc_command := ''true''\<rparr>])
      = Some \<lparr>suite_checks = [manifest_command ((claimed_check True)\<lparr>mc_command := ''true''\<rparr>)], source_of = SOURCE_AGENT_CHECKS\<rparr>"
    by code_simp+
  have "apply_validations (swapping_lib v) ''checks.yml'' [v] ?s1 = (1, ?s2)"
    using assms by (simp add: apply_validations_def manifest_at_def swapping_lib_def claimed_check_def proven_def prove_entry_def write_check_file_def Let_def)
  moreover have "judge_all (swapping_lib v) [c] ?s = ([v], ?s1)" for c by (simp add: swapping_lib_def write_check_file_def)
  moreover have "manifest_path ?s1 = Some ''checks.yml''" by (simp add: manifest_path_def names)
  moreover have "map cmd_argv (filter gating [manifest_command ((claimed_check True)\<lparr>mc_command := ''true''\<rparr>)]) = [[''true'']]" by code_simp
  ultimately show ?thesis
    using suite [of "''a''"] suite [of "''t''"] first last by (simp add: curate_workspace_def Let_def report_of_def)
qed

subsection \<open>The report survives the wire\<close>

lemma item_objects_map: "item_objects (JList (map (\<lambda>x. JObj (f x)) xs)) = map f xs"
  by (induction xs) (simp_all add: item_objects_def items_of_def)

lemma verdict_round: "v_status v \<noteq> [] \<Longrightarrow> verdict_payload rate v = JObj d \<Longrightarrow> verdict_from cs d = v"
  by (auto simp: verdict_payload_def verdict_from_def str_of_field_def jget_def number_or_zero_def items_of_def comp_def)

text \<open>
  the runner carries the report to the renderer of the pull request as JSON; nothing the renderer reads is lost on the way.
\<close>

theorem report_survives_the_wire:
  assumes "list_all (\<lambda>v. v_status v \<noteq> []) (rep_validations r)" and "rep_manifest r \<noteq> Some []"
  shows "report_from cs (report_payload (\<lambda>c. JObj (dumped c)) rate told r) =
    \<lparr>wr_hash = rep_hash r, wr_source = rep_source r, wr_checks = map dumped (rep_checks r), wr_validations = rep_validations r,
     wr_manifest = rep_manifest r, wr_notes = map told (rep_notes r)\<rparr>"
proof -
  let ?d = "\<lambda>v. case verdict_payload rate v of JObj d \<Rightarrow> d | _ \<Rightarrow> []"
  have "verdict_payload rate v = JObj (?d v)" for v by (simp add: verdict_payload_def)
  then have "map (verdict_payload rate) (rep_validations r) = map (\<lambda>v. JObj (?d v)) (rep_validations r)" by (intro map_cong) simp_all
  then have "item_objects (JList (map (verdict_payload rate) (rep_validations r))) = map ?d (rep_validations r)" by (simp only: item_objects_map)
  moreover have "map (verdict_from cs) (map ?d (rep_validations r)) = rep_validations r"
    using assms(1) verdict_round by (intro nth_equalityI) (auto simp: list_all_length verdict_payload_def)
  ultimately show ?thesis using assms(2)
    by (auto simp: report_from_def report_payload_def jget_def str_of_field_def items_of_def comp_def item_objects_map split: option.split)
qed

end
