(* ===== verification/ApiKeys.thy ===== *)
theory ApiKeys
  imports StdText "HOL-Library.Product_Lexorder"
begin

section \<open>API keys\<close>

text \<open>
  \<open>backend/auth/api_keys.py\<close> and \<open>backend/models/api_key.py\<close>: the tables \<open>api_keys\<close> and \<open>api_key_stats\<close>, the operations of
  \<open>ApiKeyManager\<close>, and what the views of \<open>backend/routes/api_keys.py\<close> do with them. SHA-256 is the parameter \<open>sha256\<close>; the random
  digits an operation draws are arguments. A column of a time keeps the time, cut to whole seconds as the format cuts it; the module
  only writes times it can read again, with years of four digits. \<open>accounts\<close> are the ids of the table \<open>users\<close>.
\<close>

definition KEY_PREFIX :: string where "KEY_PREFIX = ''cpypi_''"

record key_row =
  ak_id :: string
  ak_name :: string
  ak_prefix :: string
  ak_hash :: string
  ak_created_by :: string
  ak_user :: "int option"
  ak_created :: timestamp
  ak_expires :: "timestamp option"
  ak_last_used :: "timestamp option"

datatype key_event = Downloaded | Uploaded

record stat_row =
  st_key :: string
  st_package :: string
  st_event :: key_event
  st_count :: nat

record key_db =
  key_rows :: "key_row list"
  stat_rows :: "stat_row list"

datatype key_error = DateOverflow | KeyIntegrity

subsection \<open>Rows\<close>

definition whole_second :: "timestamp \<Rightarrow> timestamp" where
  "whole_second t = t div 1000000 * 1000000"

definition is_expired :: "timestamp \<Rightarrow> key_row \<Rightarrow> bool" where
  "is_expired now r \<longleftrightarrow> (case ak_expires r of None \<Rightarrow> False | Some e \<Rightarrow> now > e)"

definition counted :: "key_event \<Rightarrow> stat_row list \<Rightarrow> nat" where
  "counted ev ss = sum_list (map st_count (filter (\<lambda>s. st_event s = ev) ss))"

definition stats_of :: "key_db \<Rightarrow> string \<Rightarrow> stat_row list" where
  "stats_of d i = filter (\<lambda>s. st_key s = i) (stat_rows d)"

text \<open>\<open>to_dict\<close> without the hash.\<close>

record key_view =
  kv_id :: string
  kv_name :: string
  kv_prefix :: string
  kv_created_by :: string
  kv_created :: timestamp
  kv_expires :: "timestamp option"
  kv_permanent :: bool
  kv_expired :: bool
  kv_last_used :: "timestamp option"
  kv_downloads :: nat
  kv_uploads :: nat

definition to_dict :: "timestamp \<Rightarrow> key_db \<Rightarrow> key_row \<Rightarrow> key_view" where
  "to_dict now d r = \<lparr>kv_id = ak_id r, kv_name = ak_name r, kv_prefix = ak_prefix r, kv_created_by = ak_created_by r,
     kv_created = ak_created r, kv_expires = ak_expires r, kv_permanent = (ak_expires r = None), kv_expired = is_expired now r,
     kv_last_used = ak_last_used r, kv_downloads = counted Downloaded (stats_of d (ak_id r)),
     kv_uploads = counted Uploaded (stats_of d (ak_id r))\<rparr>"

subsection \<open>Create, list, delete\<close>

text \<open>The last and the first moment a \<open>datetime\<close> can hold.\<close>

definition DATETIME_MAX :: timestamp where "DATETIME_MAX = 253402300799999999"
definition DATETIME_MIN :: timestamp where "DATETIME_MIN = -62135596800000000"

definition expiry :: "timestamp \<Rightarrow> int option \<Rightarrow> key_error + timestamp option" where
  "expiry now days =
     (case days of
        None \<Rightarrow> Inr None
      | Some n \<Rightarrow> (let e = now + n * seconds 86400
                  in if DATETIME_MIN \<le> e \<and> e \<le> DATETIME_MAX then Inr (Some (whole_second e)) else Inl DateOverflow))"

text \<open>\<open>digits\<close> are the 64 digits of the secret, \<open>tag\<close> the 12 of the id; an ellipsis, in UTF-8, ends the shown prefix.\<close>

definition raw_key :: "string \<Rightarrow> string" where
  "raw_key digits = KEY_PREFIX @ digits"

definition new_key :: "(string \<Rightarrow> string) \<Rightarrow> string \<Rightarrow> string \<Rightarrow> string \<Rightarrow> string \<Rightarrow> int option \<Rightarrow> timestamp option \<Rightarrow> timestamp \<Rightarrow> key_row" where
  "new_key sha256 digits tag name owner uid e now =
     \<lparr>ak_id = ''k_'' @ tag, ak_name = name, ak_prefix = take 12 (raw_key digits) @ [CHR 0xE2, CHR 0x80, CHR 0xA6],
      ak_hash = sha256 (raw_key digits), ak_created_by = owner, ak_user = uid, ak_created = whole_second now, ak_expires = e,
      ak_last_used = None\<rparr>"

definition key_fits :: "int set \<Rightarrow> key_db \<Rightarrow> key_row \<Rightarrow> bool" where
  "key_fits accounts d r \<longleftrightarrow> ak_id r \<notin> ak_id ` set (key_rows d) \<and> ak_hash r \<notin> ak_hash ` set (key_rows d)
     \<and> (case ak_user r of None \<Rightarrow> True | Some u \<Rightarrow> u \<in> accounts)"

text \<open>The answer is the row as shown and the secret, which nothing keeps.\<close>

definition create_key :: "(string \<Rightarrow> string) \<Rightarrow> int set \<Rightarrow> string \<Rightarrow> string \<Rightarrow> string \<Rightarrow> string \<Rightarrow> int option \<Rightarrow> int option
    \<Rightarrow> timestamp \<Rightarrow> key_db \<Rightarrow> key_error + (key_db \<times> key_view \<times> string)" where
  "create_key sha256 accounts digits tag name owner days uid now d =
     and_then (expiry now days) (\<lambda>e.
       let r = new_key sha256 digits tag name owner uid e now; d' = d\<lparr>key_rows := key_rows d @ [r]\<rparr>
       in if key_fits accounts d r then Inr (d', to_dict now d' r, raw_key digits) else Inl KeyIntegrity)"

definition owned_by :: "string option \<Rightarrow> int option \<Rightarrow> key_row \<Rightarrow> bool" where
  "owned_by owner uid r \<longleftrightarrow>
     (if uid \<noteq> None \<and> opt_str owner \<noteq> [] then ak_user r = uid \<or> Some (ak_created_by r) = owner
      else if uid \<noteq> None then ak_user r = uid
      else if opt_str owner \<noteq> [] then Some (ak_created_by r) = owner
      else True)"

definition list_keys :: "timestamp \<Rightarrow> string option \<Rightarrow> int option \<Rightarrow> key_db \<Rightarrow> key_view list" where
  "list_keys now owner uid d = map (to_dict now d) (sort_key (\<lambda>r. - ak_created r) (filter (owned_by owner uid) (key_rows d)))"

definition find_key :: "key_db \<Rightarrow> string \<Rightarrow> key_row option" where
  "find_key d i = find (\<lambda>r. ak_id r = i) (key_rows d)"

definition delete_key :: "string \<Rightarrow> key_db \<Rightarrow> bool \<times> key_db" where
  "delete_key i d =
     (if find_key d i = None then (False, d)
      else (True, d\<lparr>key_rows := filter (\<lambda>r. ak_id r \<noteq> i) (key_rows d), stat_rows := filter (\<lambda>s. st_key s \<noteq> i) (stat_rows d)\<rparr>))"

subsection \<open>Validate\<close>

record key_info =
  ki_sub :: string
  ki_user :: "int option"
  ki_id :: string
  ki_name :: string

definition validate :: "(string \<Rightarrow> string) \<Rightarrow> string \<Rightarrow> timestamp \<Rightarrow> key_db \<Rightarrow> key_info option \<times> key_db" where
  "validate sha256 raw now d =
     (if \<not> startswith raw KEY_PREFIX then (None, d)
      else case find (\<lambda>r. ak_hash r = sha256 raw) (key_rows d) of
          None \<Rightarrow> (None, d)
        | Some r \<Rightarrow>
            if is_expired now r then (None, d)
            else (Some \<lparr>ki_sub = ak_created_by r, ki_user = ak_user r, ki_id = ak_id r, ki_name = ak_name r\<rparr>,
                  d\<lparr>key_rows := map (\<lambda>q. if ak_id q = ak_id r then q\<lparr>ak_last_used := Some (whole_second now)\<rparr> else q) (key_rows d)\<rparr>))"

subsection \<open>Usage\<close>

definition same_stat :: "string \<Rightarrow> string \<Rightarrow> key_event \<Rightarrow> stat_row \<Rightarrow> bool" where
  "same_stat i p ev s \<longleftrightarrow> st_key s = i \<and> st_package s = p \<and> st_event s = ev"

definition increment :: "string \<Rightarrow> string \<Rightarrow> key_event \<Rightarrow> key_db \<Rightarrow> key_error + key_db" where
  "increment i p ev d =
     (if list_ex (same_stat i p ev) (stat_rows d)
      then Inr (d\<lparr>stat_rows := map (\<lambda>s. if same_stat i p ev s then s\<lparr>st_count := st_count s + 1\<rparr> else s) (stat_rows d)\<rparr>)
      else if find_key d i = None then Inl KeyIntegrity
      else Inr (d\<lparr>stat_rows := stat_rows d @ [\<lparr>st_key = i, st_package = p, st_event = ev, st_count = 1\<rparr>]\<rparr>))"

definition record_download :: "string \<Rightarrow> string \<Rightarrow> key_db \<Rightarrow> key_error + key_db" where
  "record_download i p d = increment i p Downloaded d"

definition record_upload :: "string \<Rightarrow> string \<Rightarrow> key_db \<Rightarrow> key_error + key_db" where
  "record_upload i p d = increment i p Uploaded d"

record key_stats =
  ks_id :: string
  ks_downloads :: nat
  ks_uploads :: nat
  ks_packages :: "(string \<times> key_event \<times> nat) list"

definition get_key_stats :: "string \<Rightarrow> key_db \<Rightarrow> key_stats" where
  "get_key_stats i d =
     \<lparr>ks_id = i, ks_downloads = counted Downloaded (stats_of d i), ks_uploads = counted Uploaded (stats_of d i),
      ks_packages = map (\<lambda>s. (st_package s, st_event s, st_count s))
        (sort_key (\<lambda>s. (- int (st_count s), st_package s)) (stats_of d i))\<rparr>"

subsection \<open>The views\<close>

text \<open>
  A caller is the id and the identity string of the account the guard admitted, \<open>None\<close> for an anonymous one; each view runs behind
  \<open>require_permission\<close>. A request body has passed its schema.
\<close>

datatype 'a view_answer = Answer 'a | BadRequest string | KeyMissing | ServerError key_error

definition list_view :: "timestamp \<Rightarrow> string option \<Rightarrow> int option \<Rightarrow> key_db \<Rightarrow> (key_view \<times> key_stats) list" where
  "list_view now sub uid d = map (\<lambda>k. (k, get_key_stats (kv_id k) d)) (list_keys now sub uid d)"

definition create_view :: "(string \<Rightarrow> string) \<Rightarrow> int set \<Rightarrow> string \<Rightarrow> string \<Rightarrow> string \<Rightarrow> int option \<Rightarrow> string option \<Rightarrow> int option
    \<Rightarrow> timestamp \<Rightarrow> key_db \<Rightarrow> (key_view \<times> string) view_answer \<times> key_db" where
  "create_view sha256 accounts digits tag name days sub uid now d =
     (let name = py_strip name; days = (case days of None \<Rightarrow> None | Some n \<Rightarrow> if n \<le> 0 then None else Some n)
      in if name = [] then (BadRequest ''name is required'', d)
         else case create_key sha256 accounts digits tag name (or_str (opt_str sub) ''unknown'') days uid now d of
             Inl e \<Rightarrow> (ServerError e, d)
           | Inr (d', v, raw) \<Rightarrow> (Answer (v, raw), d'))"

definition delete_view :: "string \<Rightarrow> key_db \<Rightarrow> string view_answer \<times> key_db" where
  "delete_view i d = (case delete_key i d of (ok, d') \<Rightarrow> (if ok then Answer i else KeyMissing, d'))"

definition stats_view :: "string \<Rightarrow> key_db \<Rightarrow> key_stats view_answer" where
  "stats_view i d = Answer (get_key_stats i d)"


subsection \<open>The tables stay consistent\<close>

definition stat_key :: "stat_row \<Rightarrow> string \<times> string \<times> key_event" where
  "stat_key s = (st_key s, st_package s, st_event s)"

definition keys_ok :: "key_db \<Rightarrow> bool" where
  "keys_ok d \<longleftrightarrow> distinct (map ak_id (key_rows d)) \<and> distinct (map ak_hash (key_rows d))
     \<and> distinct (map stat_key (stat_rows d)) \<and> st_key ` set (stat_rows d) \<subseteq> ak_id ` set (key_rows d)
     \<and> (\<forall>s \<in> set (stat_rows d). 0 < st_count s)"

datatype key_call = Mint string string string string "int option" "int option" timestamp | Revoke string
  | Present string timestamp | Use string string key_event

fun key_step :: "(string \<Rightarrow> string) \<Rightarrow> int set \<Rightarrow> key_call \<Rightarrow> key_db \<Rightarrow> key_db" where
  "key_step sha256 accounts (Mint digits tag name owner days uid now) d =
     (case create_key sha256 accounts digits tag name owner days uid now d of Inl _ \<Rightarrow> d | Inr (d', _) \<Rightarrow> d')"
| "key_step sha256 accounts (Revoke i) d = snd (delete_key i d)"
| "key_step sha256 accounts (Present raw now) d = snd (validate sha256 raw now d)"
| "key_step sha256 accounts (Use i p ev) d = (case increment i p ev d of Inl _ \<Rightarrow> d | Inr d' \<Rightarrow> d')"

definition key_calls :: "(string \<Rightarrow> string) \<Rightarrow> int set \<Rightarrow> key_call list \<Rightarrow> key_db \<Rightarrow> key_db" where
  "key_calls sha256 accounts cs d = fold (key_step sha256 accounts) cs d"

text \<open>A row without the column a use writes.\<close>

definition core :: "key_row \<Rightarrow> key_row" where
  "core r = r\<lparr>ak_last_used := None\<rparr>"

lemma core_simps [simp]: "ak_id (core r) = ak_id r" "ak_hash (core r) = ak_hash r" "ak_user (core r) = ak_user r"
    "ak_created_by (core r) = ak_created_by r" "ak_name (core r) = ak_name r" "ak_expires (core r) = ak_expires r"
  by (simp_all add: core_def)

definition cores :: "key_db \<Rightarrow> key_row list" where
  "cores d = map core (key_rows d)"

lemma create_key_Inr:
  "create_key sha256 accounts digits tag name owner days uid now d = Inr (d', v, raw) \<longleftrightarrow>
     (\<exists>e. expiry now days = Inr e \<and> key_fits accounts d (new_key sha256 digits tag name owner uid e now) \<and> raw = raw_key digits
        \<and> d' = d\<lparr>key_rows := key_rows d @ [new_key sha256 digits tag name owner uid e now]\<rparr>
        \<and> v = to_dict now d' (new_key sha256 digits tag name owner uid e now))"
  by (auto simp: create_key_def and_then_Inr Let_def split: if_splits)

lemma find_key_none: "find_key d i = None \<longleftrightarrow> i \<notin> ak_id ` set (key_rows d)"
  by (auto simp: find_key_def find_None_iff)

lemma cores_step:
  "cores (key_step sha256 accounts c d) =
     (case c of Mint digits tag name owner days uid now \<Rightarrow>
        (case create_key sha256 accounts digits tag name owner days uid now d of Inl _ \<Rightarrow> cores d
         | Inr (d', _) \<Rightarrow> cores d @ [core (last (key_rows d'))])
      | Revoke i \<Rightarrow> filter (\<lambda>r. ak_id r \<noteq> i) (cores d)
      | _ \<Rightarrow> cores d)"
proof (cases c)
  case (Mint digits tag name owner days uid now)
  then show ?thesis by (auto simp: cores_def create_key_Inr split: sum.split prod.split)
next
  case (Revoke i)
  then show ?thesis
    by (auto simp: cores_def delete_key_def find_key_none filter_map comp_def intro!: arg_cong [where f = "map core"] filter_True [symmetric])
next
  case (Present raw now)
  then show ?thesis by (auto simp: cores_def validate_def core_def Let_def split: option.split)
next
  case (Use i p ev)
  then show ?thesis by (auto simp: cores_def increment_def split: sum.split if_splits)
qed

declare key_step.simps [simp del]

lemma cores_ok: "cores d = cores d' \<Longrightarrow> map ak_id (key_rows d) = map ak_id (key_rows d') \<and> map ak_hash (key_rows d) = map ak_hash (key_rows d')"
proof -
  assume same: "cores d = cores d'"
  have "map ak_id (key_rows x) = map ak_id (cores x)" "map ak_hash (key_rows x) = map ak_hash (cores x)" for x by (simp_all add: cores_def)
  then show ?thesis using same by simp
qed

lemma ids_of_map: "map ak_id xs = map ak_id ys \<Longrightarrow> ak_id ` set xs = ak_id ` set ys"
  by (metis set_map)

lemma key_step_ok: "keys_ok d \<Longrightarrow> keys_ok (key_step sha256 accounts c d)"
proof (cases c)
  case (Mint digits tag name owner days uid now)
  assume "keys_ok d"
  then show ?thesis using Mint
    by (auto simp: key_step.simps keys_ok_def create_key_Inr key_fits_def image_subset_iff split: sum.split prod.split)
next
  case (Revoke i)
  assume "keys_ok d"
  then show ?thesis using Revoke by (auto simp: key_step.simps keys_ok_def delete_key_def distinct_map intro: inj_on_subset)
next
  case (Present raw now)
  assume ok: "keys_ok d"
  have "cores (key_step sha256 accounts c d) = cores d" using Present by (simp add: cores_step)
  then have "map ak_id (key_rows (key_step sha256 accounts c d)) = map ak_id (key_rows d)"
    "map ak_hash (key_rows (key_step sha256 accounts c d)) = map ak_hash (key_rows d)" using cores_ok by blast+
  moreover from this(1) have "ak_id ` set (key_rows (key_step sha256 accounts c d)) = ak_id ` set (key_rows d)" by (rule ids_of_map)
  moreover have "stat_rows (key_step sha256 accounts c d) = stat_rows d"
    using Present by (simp add: key_step.simps validate_def split: option.split)
  ultimately show ?thesis using ok by (simp add: keys_ok_def)
next
  case (Use i p ev)
  assume ok: "keys_ok d"
  have keys: "map stat_key (map (\<lambda>s. if same_stat i p ev s then s\<lparr>st_count := st_count s + 1\<rparr> else s) xs) = map stat_key xs" for xs
    by (simp add: stat_key_def)
  have ids: "st_key ` set (map (\<lambda>s. if same_stat i p ev s then s\<lparr>st_count := st_count s + 1\<rparr> else s) xs) = st_key ` set xs" for xs
    by (induction xs) auto
  show ?thesis
  proof (cases "list_ex (same_stat i p ev) (stat_rows d)")
    case True
    then show ?thesis using ok Use keys [of "stat_rows d"] ids [of "stat_rows d"] by (auto simp: key_step.simps keys_ok_def increment_def simp del: map_map)
  next
    case False
    then show ?thesis using ok Use
      by (auto simp: key_step.simps keys_ok_def increment_def find_key_none stat_key_def same_stat_def list_ex_iff)
  qed
qed


lemma key_calls_ok: "keys_ok d \<Longrightarrow> keys_ok (key_calls sha256 accounts cs d)"
  by (induction cs arbitrary: d) (simp_all add: key_calls_def key_step_ok)

subsection \<open>How long a key opens\<close>

definition info_of :: "key_row \<Rightarrow> key_info" where
  "info_of r = \<lparr>ki_sub = ak_created_by r, ki_user = ak_user r, ki_id = ak_id r, ki_name = ak_name r\<rparr>"

lemma find_core: "find (\<lambda>r. ak_hash r = h) (cores d) = map_option core (find (\<lambda>r. ak_hash r = h) (key_rows d))"
proof -
  have "find (\<lambda>r. ak_hash r = h) (map core rs) = map_option core (find (\<lambda>r. ak_hash r = h) rs)" for rs by (induction rs) simp_all
  then show ?thesis by (simp add: cores_def)
qed

lemma validate_cores:
  "fst (validate sha256 raw now d) =
     (if \<not> startswith raw KEY_PREFIX then None
      else case find (\<lambda>r. ak_hash r = sha256 raw) (cores d) of
          None \<Rightarrow> None | Some r \<Rightarrow> if is_expired now r then None else Some (info_of r))"
  by (auto simp: validate_def find_core is_expired_def info_of_def split: option.split)

definition mints_another :: "(string \<Rightarrow> string) \<Rightarrow> string \<Rightarrow> key_call \<Rightarrow> bool" where
  "mints_another sha256 raw c = (case c of Mint digits _ _ _ _ _ _ \<Rightarrow> sha256 (raw_key digits) \<noteq> sha256 raw | _ \<Rightarrow> True)"

lemma find_appended: "\<not> P x \<Longrightarrow> find P (xs @ [x]) = find P xs"
  by (induction xs) simp_all

lemma find_appended_hit: "find P xs = None \<Longrightarrow> P x \<Longrightarrow> find P (xs @ [x]) = Some x"
  by (induction xs) (auto split: if_splits)

lemma find_filtered: "find P xs = Some r \<Longrightarrow> Q r \<Longrightarrow> find P (filter Q xs) = Some r"
  by (induction xs) (auto split: if_splits)

lemma find_only: "distinct (map f xs) \<Longrightarrow> find (\<lambda>x. f x = h) xs = Some r \<Longrightarrow> x \<in> set xs \<Longrightarrow> f x = h \<Longrightarrow> x = r"
  by (induction xs) (auto split: if_splits)

lemma found_after_step:
  assumes "mints_another sha256 raw c" and "keys_ok d"
  shows "find (\<lambda>r. ak_hash r = sha256 raw) (cores (key_step sha256 accounts c d)) =
    (case find (\<lambda>r. ak_hash r = sha256 raw) (cores d) of None \<Rightarrow> None | Some r \<Rightarrow> if c = Revoke (ak_id r) then None else Some r)"
proof (cases c)
  case (Mint digits tag name owner days uid now)
  have "ak_hash (core (last (key_rows d'))) \<noteq> sha256 raw"
    if "create_key sha256 accounts digits tag name owner days uid now d = Inr (d', v)" for d' v
    using that assms(1) Mint by (cases v) (auto simp: create_key_Inr new_key_def mints_another_def)
  then show ?thesis using Mint by (auto simp: cores_step find_appended split: sum.split option.split)
next
  case (Revoke i)
  show ?thesis
  proof (cases "find (\<lambda>r. ak_hash r = sha256 raw) (cores d)")
    case None
    then have "find (\<lambda>r. ak_hash r = sha256 raw) (filter (\<lambda>q. ak_id q \<noteq> i) (cores d)) = None" by (auto simp: find_None_iff)
    then show ?thesis using Revoke None by (simp add: cores_step)
  next
    case (Some r)
    have "distinct (map ak_hash (cores d))" using assms(2) by (simp add: cores_def keys_ok_def comp_def)
    then have "r \<in> set (cores d)" "x \<in> set (cores d) \<Longrightarrow> ak_hash x = sha256 raw \<Longrightarrow> x = r" for x
      using Some find_only [of ak_hash "cores d" "sha256 raw" r x] by (auto simp: find_Some_iff)
    then have "ak_id r = i \<Longrightarrow> find (\<lambda>r. ak_hash r = sha256 raw) (filter (\<lambda>q. ak_id q \<noteq> i) (cores d)) = None"
      by (auto simp: find_None_iff)
    moreover have "ak_id r \<noteq> i \<Longrightarrow> find (\<lambda>r. ak_hash r = sha256 raw) (filter (\<lambda>q. ak_id q \<noteq> i) (cores d)) = Some r"
      by (rule find_filtered [OF Some])
    ultimately show ?thesis using Revoke Some by (auto simp: cores_step)
  qed
qed (use assms in \<open>auto simp: cores_step split: option.split\<close>)

lemma found_after_calls:
  assumes "list_all (mints_another sha256 raw) cs" and "keys_ok d"
  shows "find (\<lambda>r. ak_hash r = sha256 raw) (cores (key_calls sha256 accounts cs d)) =
    (case find (\<lambda>r. ak_hash r = sha256 raw) (cores d) of None \<Rightarrow> None | Some r \<Rightarrow> if Revoke (ak_id r) \<in> set cs then None else Some r)"
  using assms
proof (induction cs arbitrary: d)
  case (Cons c cs)
  then have "key_calls sha256 accounts (c # cs) d = key_calls sha256 accounts cs (key_step sha256 accounts c d)"
    by (simp add: key_calls_def)
  then show ?case using Cons.IH [of "key_step sha256 accounts c d"] Cons.prems found_after_step [of sha256 raw c d accounts] key_step_ok [OF Cons.prems(2)]
    by (auto split: option.splits)
qed (simp add: key_calls_def split: option.split)

text \<open>
  a key opens for its owner and for as long as it was given. From the moment a key is minted, and whatever else is minted, used,
  counted or revoked since, the secret answers the owner, the id and the name the key was minted with until the key itself is revoked or
  the whole second of its expiry has passed, and nothing from then on. The one thing left to chance is that no later key has the same
  digest.
\<close>

theorem key_opens_until_revoked_or_expired:
  assumes "keys_ok d" and "create_key sha256 accounts digits tag name owner days uid now d = Inr (d1, v, raw)"
    and "list_all (mints_another sha256 raw) cs"
  shows "fst (validate sha256 raw t (key_calls sha256 accounts cs d1)) =
    (if Revoke (kv_id v) \<in> set cs \<or> (case days of None \<Rightarrow> False | Some n \<Rightarrow> whole_second (now + n * seconds 86400) < t) then None
     else Some \<lparr>ki_sub = owner, ki_user = uid, ki_id = kv_id v, ki_name = name\<rparr>)"
proof -
  from assms(2) obtain e where e: "expiry now days = Inr e" and fits: "key_fits accounts d (new_key sha256 digits tag name owner uid e now)"
    and raw: "raw = raw_key digits" and d1: "d1 = d\<lparr>key_rows := key_rows d @ [new_key sha256 digits tag name owner uid e now]\<rparr>"
    and v: "v = to_dict now d1 (new_key sha256 digits tag name owner uid e now)" by (auto simp: create_key_Inr)
  let ?r = "new_key sha256 digits tag name owner uid e now"
  have d1': "d1 = key_step sha256 accounts (Mint digits tag name owner days uid now) d" using assms(2) by (simp add: key_step.simps)
  have ok: "keys_ok d1" unfolding d1' by (rule key_step_ok [OF assms(1)])
  have "find (\<lambda>r. ak_hash r = sha256 raw) (map core (key_rows d)) = None"
    using fits by (fastforce simp: find_None_iff key_fits_def new_key_def raw image_iff)
  moreover have "ak_hash (core ?r) = sha256 raw" by (simp add: new_key_def raw)
  ultimately have "find (\<lambda>r. ak_hash r = sha256 raw) (cores d1) = Some (core ?r)" by (simp add: cores_def d1 find_appended_hit)
  then have found: "find (\<lambda>r. ak_hash r = sha256 raw) (cores (key_calls sha256 accounts cs d1)) = (if Revoke (kv_id v) \<in> set cs then None else Some (core ?r))"
    using found_after_calls [OF assms(3) ok] by (simp add: v to_dict_def)
  have "startswith raw KEY_PREFIX" by (simp add: raw raw_key_def startswith_def)
  moreover have "is_expired t (core ?r) \<longleftrightarrow> (case days of None \<Rightarrow> False | Some n \<Rightarrow> whole_second (now + n * seconds 86400) < t)"
    using e by (auto simp: is_expired_def expiry_def new_key_def Let_def split: option.splits if_splits)
  ultimately show ?thesis by (simp add: validate_cores found info_of_def v to_dict_def) (simp add: new_key_def)
qed


text \<open>Ada's key of one day, with another key minted and one revoked after it.\<close>

theorem key_opens_until_revoked_or_expired_witness:
  "let d1 = key_step (\<lambda>s. s) {1} (Mint ''ff'' ''a'' ''ci'' ''ada'' (Some 1) (Some 1) 5) \<lparr>key_rows = [], stat_rows = []\<rparr>;
       later = [Mint ''ee'' ''b'' ''x'' ''bob'' None None 7, Use ''k_a'' ''six'' Uploaded, Revoke ''k_b'']
   in fst (validate (\<lambda>s. s) ''cpypi_ff'' (seconds 86400) (key_calls (\<lambda>s. s) {1} later d1))
        = Some \<lparr>ki_sub = ''ada'', ki_user = Some 1, ki_id = ''k_a'', ki_name = ''ci''\<rparr>
      \<and> fst (validate (\<lambda>s. s) ''cpypi_ff'' (seconds 86400 + 1) (key_calls (\<lambda>s. s) {1} later d1)) = None"
proof -
  let ?d = "\<lparr>key_rows = [], stat_rows = []\<rparr>" and ?cs = "[Mint ''ee'' ''b'' ''x'' ''bob'' None None 7, Use ''k_a'' ''six'' Uploaded, Revoke ''k_b'']"
  let ?d1 = "key_step (\<lambda>s. s) {1} (Mint ''ff'' ''a'' ''ci'' ''ada'' (Some 1) (Some 1) 5) ?d"
  have ok: "keys_ok ?d" by (simp add: keys_ok_def)
  obtain d1 v raw where made: "create_key (\<lambda>s. s) {1} ''ff'' ''a'' ''ci'' ''ada'' (Some 1) (Some 1) 5 ?d = Inr (d1, v, raw)"
      "kv_id v = ''k_a''" "raw = ''cpypi_ff''"
    by (simp add: create_key_def expiry_def DATETIME_MAX_def DATETIME_MIN_def Let_def key_fits_def new_key_def to_dict_def raw_key_def KEY_PREFIX_def)
  then have d1: "?d1 = d1" by (simp add: key_step.simps)
  have others: "list_all (mints_another (\<lambda>s. s) raw) ?cs" using made(3) by (simp add: mints_another_def raw_key_def KEY_PREFIX_def)
  have "whole_second (5 + 1 * seconds 86400) = seconds 86400" by (simp add: whole_second_def)
  then show ?thesis
    unfolding Let_def d1 using key_opens_until_revoked_or_expired [OF ok made(1) others, where t = "seconds 86400"]
      key_opens_until_revoked_or_expired [OF ok made(1) others, where t = "seconds 86400 + 1"]
    by (simp add: made)
qed

subsection \<open>Whose keys the views show\<close>

text \<open>
  A caller the guard admitted sees the keys of the account, matched by its id or by the identity string, and nobody else's; a caller
  with neither, an anonymous one the administrators gave \<open>key:list\<close>, sees every key of the deployment.
\<close>

lemma list_shows_own_keys:
  "list_all (\<lambda>k. \<exists>r \<in> set (key_rows d). k = to_dict now d r \<and> (ak_user r = Some u \<or> ak_created_by r = sub)) (list_keys now (Some sub) (Some u) d)"
  by (auto simp: list_keys_def owned_by_def list_all_iff opt_str_def)

lemma anonymous_list_shows_all: "kv_id ` set (list_keys now None None d) = ak_id ` set (key_rows d)"
  by (force simp: list_keys_def owned_by_def opt_str_def to_dict_def image_iff)

text \<open>Deleting asks for no owner: the view takes any id, whoever asks.\<close>

lemma any_id_is_deleted:
  "r \<in> set (key_rows d) \<Longrightarrow> fst (delete_view (ak_id r) d) = Answer (ak_id r) \<and> ak_id r \<notin> ak_id ` set (key_rows (snd (delete_view (ak_id r) d)))"
  by (auto simp: delete_view_def delete_key_def find_key_none)

end
