(* ===== verification/Spec2Isabelle.thy ===== *)
theory Spec2Isabelle
  imports QueueWorker DeviceAuthProps ReviewPolicy FindingsProps AuthzThreads CheckStoreProps DocsProps BoundariesProps
    ModelRoutesProps RunnerProps RunnerGit RepoRunnersProps AgentWorkerProps WorkerReports RepoImportProps CheckDiscovery CheckCurator ApiKeys
begin

text \<open>
  A verification library for the OpenFish backend (\<open>src/backend\<close>): a package and mirror hub with an
  agent that reviews repositories, written in Python on SQLAlchemy and Flask. The library models the services that
  decide things; HTTP decoding, file transfer, Forgejo and git processes stay outside.

  The parts and their theories.

  \<^item> \<open>Prelude\<close> and \<open>StdText\<close>: Python strings, JSON values, guarded updates of a table (\<open>update_where\<close>) with the
    contract \<open>row_transition\<close> of every such update, \<open>json.dumps\<close>, dates and \<open>fnmatch\<close>.
  \<^item> \<open>TaskQueue\<close>, \<open>TaskQueueInv\<close>, \<open>TaskQueueSteps\<close>, \<open>TaskQueueProps\<close>, \<open>TaskLife\<close>, \<open>QueueWorker\<close>
    (\<open>services/agent_queue.py\<close>): the state \<open>queue_db\<close> is the tables \<open>agent_tasks\<close>, \<open>repo_runners\<close> and the repository
    ids; one definition per method of \<open>AgentQueue\<close>, on both database backends; \<open>QueueWorker\<close> is the class
    \<open>Worker\<close> with the handler as a parameter. \<open>queue_step\<close> is any operation, \<open>queue_reachable\<close> any history of them. The
    lemmas show the concurrency ceiling, lease exclusion, ordering, that attempts are a budget that is only used up, and what a failure
    report does that reads the row before and writes it after another worker has claimed it. \<open>TaskLife\<close> follows one row through any
    operations of anyone; on it rests the locale \<open>shared_handler\<close>, a handler while whose run the queue moves on, and how a worker cycle
    with such a handler ends.
  \<^item> \<open>DeviceAuth\<close>, \<open>DeviceAuthProps\<close> (\<open>services/device_auth.py\<close>): the JSON document of pending device logins and
    its five operations; user codes are distinct in every history, a key is returned only if approved and once.
  \<^item> \<open>ReviewPolicy\<close> (\<open>services/review_policy.py\<close>): the policy document, exceptions and effective levels, validation, the
    canonical text the hash digests, loading with the strict built-in default.
  \<^item> \<open>Drift\<close>, \<open>DriftProps\<close>, \<open>Findings\<close>, \<open>FindingsInv\<close>, \<open>FindingsProps\<close> (\<open>services/findings.py\<close>): line
    intervals, the diff reader, symbol anchors and the git adapter; then the tables of findings, events and evidence, the decision
    table, reactivation, ingesting a report with the escalation sweep, and the rule-quality watch. The findings ask for a
    drift probe, the locale \<open>drift_probe\<close>, which the git adapter provides. The lemmas show the invariants I2 and
    I3, the event log as a history, unique identities, and exactly which code changes reactivate.
  \<^item> \<open>Authz\<close>, \<open>AuthzProps\<close>, \<open>AuthzThreads\<close> (\<open>services/authz.py\<close>, \<open>models/rbac.py\<close>, \<open>auth/permissions.py\<close>): seeding, accounts,
    roles and grants over five tables, and the versioned cache in front of the check. The cache is proved once, in the
    locale \<open>cached_read\<close>, for users and for anonymous requests, and exact while a check and a change each run alone; \<open>AuthzThreads\<close>
    takes them apart, for threads and processes, and shows how old an answer may be.
  \<^item> \<open>ApiKeys\<close> (\<open>auth/api_keys.py\<close>, \<open>models/api_key.py\<close>, \<open>routes/api_keys.py\<close>): keys and the counts of their use; how long
    a key opens, and whose keys the views show and delete.

  \<^item> \<open>Gates\<close>, \<open>CheckSuite\<close>, \<open>CheckValidation\<close>, \<open>CheckTrust\<close> (\<open>services/gates.py\<close>, \<open>check_suite.py\<close>,
    \<open>check_validation.py\<close>, \<open>check_trust.py\<close>): check commands and the verdict of a suite over an executor that may raise, the
    resolution of the user's and the AI suite, which paths a fix may not write, what makes a check falsifiable, the run history
    and the ladder that decides whether a pull request may open. \<open>CheckDiscovery\<close> (\<open>services/check_discovery.py\<close>) is the suite a
    repository's own manifests declare, \<open>CheckCurator\<close> (\<open>services/check_curator.py\<close>) the run that tries every check a model
    proposed and writes back which of them may gate; the lemmas show that only what was proven gates.
  \<^item> \<open>CheckStore\<close>, \<open>CheckStoreProps\<close> (\<open>services/check_store.py\<close>): the state \<open>check_db\<close> is three tables beside the task
    queue of the same database. Snapshots are upserts; the locale \<open>history_store\<close> is the interface the store in memory and the
    one in the database share; the curator's gate reads the queue's tasks.

  \<^item> \<open>Docs\<close>, \<open>DocsCatalog\<close>, \<open>DocsHistory\<close>, \<open>DocsConcurrent\<close>, \<open>DocsSafety\<close>, \<open>DocsProps\<close> (\<open>services/docs.py\<close>,
    \<open>models/docs.py\<close>): documents, revisions and assets over the object store. Each call is split into the phases another request
    may come between, and any number of requests interleave. Keys are drawn from a \<open>Sequence\<close> that never repeats
    (PostgreSQL) or as one above the \<open>Largest\<close> in use (SQLite); which lemma needs which is in its statement.
  \<^item> \<open>Boundaries\<close>, \<open>BoundariesProps\<close> (\<open>services/headers.py\<close>, \<open>sealing.py\<close>, \<open>urlsafety.py\<close>, \<open>paths.py\<close>,
    \<open>sandbox_env.py\<close>, \<open>git_auth.py\<close>): what is checked before a value leaves the process. \<open>ModelRoutes\<close>,
    \<open>ModelRoutesProps\<close> (\<open>services/model_routes.py\<close>): the table of model upstreams, their sealed keys and the probe.
  \<^item> \<open>RunnerBase\<close>, \<open>RunnerResult\<close>, \<open>Runner\<close>, \<open>RunnerProtocol\<close>, \<open>RunnerSteps\<close>, \<open>RunnerKeeps\<close>, \<open>RunnerProps\<close>, \<open>RunnerGit\<close>
    (\<open>services/agent_runner.py\<close>): one run of the agent from the claimed task to the report. Adapter, sink, guard and file
    system are functions on a world that may raise; the run leaves a trace of its calls, which the state machine of
    \<open>RunnerProtocol\<close> accepts. \<open>RunnerGit\<close> is the adapter's own git commands.
  \<^item> \<open>RepoRunners\<close>, \<open>RepoRunnersProps\<close> (\<open>services/repo_runner.py\<close>): settings, workspace and credential of a repository's runner.
  \<^item> \<open>AgentWorker\<close>, \<open>AgentWorkerProps\<close>, \<open>WorkerReports\<close> (\<open>services/agent_worker.py\<close>): the handler that composes queue, runner, findings
    and check store on one database, which is a \<open>shared_handler\<close> (\<open>handler_shares\<close>), with the worker around it, the evidence a history search adds, and what a
    report does to deferrals.
  \<^item> \<open>RepoSource\<close>, \<open>RepoImport\<close>, \<open>ForgejoClient\<close>, \<open>RepoImportInv\<close>, \<open>RepoImportSteps\<close>, \<open>RepoImportEnds\<close>, \<open>RepoImportProps\<close>
    (\<open>services/repo_import.py\<close>): source addresses with \<open>urlparse\<close>, the tables and the cursor, the five phases and the loop that
    drives them, and the Forgejo client below. The state of a run keeps every state it has committed, so that a worker that dies
    leaves one of them; \<open>sound\<close> is the rule by which each phase keeps what the cursor claims, \<open>ends\<close> runs a step on a state known in
    part. Over a Forgejo that lists as the client asks, which the real one does not, a finished import that is not partial is complete
    (\<open>finished_import_is_complete\<close>); the last theory also shows where the pipeline does other than it says.

  How the parts meet. The queue hands a task to a worker; the worker's review produces a report, which
  \<open>ingest\<close> folds into the findings under the thresholds of the review policy; the levels and the autofix permission of a
  rule come from the policy document. A fix is judged by two check suites: their verdicts, run by the gates, go
  through the assurance ladder, their results into the check store, and its curator asks the task queue what is still open before a
  new proposal is enqueued. The runner composes these under one protocol, and \<open>AgentWorker\<close> shares one database among
  them, so that a worker whose lease is gone publishes nothing. A repository comes in by an import and gets its settings from
  \<open>RepoRunners\<close>. The doors are the device login, which ends in an API key, the keys themselves, and \<open>has_permission\<close>, which answers every request;
  what leaves the process passes \<open>Boundaries\<close>.

  Conventions. A table is the list of its rows; an operation is one transaction and returns the new tables or an error value;
  where the source would raise with work pending, the caller discards the session. Where a call of the source is more than one
  guarded statement, that is a simplification, and the statement says so or the halves are modelled beside it: a save of a document and an
  upload (\<open>DocsConcurrent\<close>), a permission check (\<open>AuthzThreads\<close>), a failure report (\<open>fail_read\<close> and \<open>fail_write\<close>), the curator's gate and the
  enqueue behind it (\<open>CheckStoreProps\<close>). The settings of a runner stay one step: \<open>update_runner\<close> checks the other rows and
  writes without a lock and without a unique column, so that two updates at once can give two repositories one workspace, which
  \<open>workspaces_are_distinct\<close> excludes only for calls one after another. Characters are bytes, and what the source decides by Unicode classes
  (\<open>isalnum\<close>, \<open>isspace\<close>, case) is decided as for ASCII. Times are integers in
  microseconds and arguments of the operations; the import keeps none. SHA-256, PyYAML, the schema validation of pydantic, \<open>ast.parse\<close>, git,
  random choice, task handlers, check executors and fault seeders are parameters; nothing is assumed of them except
  where a statement says so. Loops that may run
  forever take the number of their cycles as fuel (\<open>run_loop\<close>, \<open>fresh_code\<close>), and their statements hold for every
  amount. The loop of an import ends because each turn uses up one of two budgets (\<open>import_loop\<close>, by a lexicographic
  measure); all other recursion is structural.

  Not modelled yet: the object store, catalogs and package registries, the context of a
  repository and its webhook, the login guards, and the small text utilities. Not modelled by intent: HTTP routes, start-up
  wiring, migrations, pauses and rate limits, the formatting of rows for the console, and the Chinese sentences that explain a verdict
  without deciding one.
\<close>

end
